(* ===== verification/Prelude.thy ===== *)
theory Prelude
  imports Main "HOL-Library.Word"
begin

text \<open>
  Shared ground of the development: the model's basic types, the result type, the part
  of the Rust standard library's string functions that the sources use, and the generic
  lemmas on lists and delimiter-separated text that the component proofs share.

  A Rust \<^verbatim>\<open>String\<close> or \<^verbatim>\<open>Vec<u8>\<close> is its sequence of bytes, a \<open>char list\<close> (HOL's \<open>char\<close> is one
  byte), so \<^verbatim>\<open>as_bytes\<close> is the identity.  Functions that Rust defines on Unicode
  scalar values (\<^verbatim>\<open>to_lowercase\<close>, \<^verbatim>\<open>trim\<close>, \<^verbatim>\<open>split_whitespace\<close>) are modelled on ASCII and leave every
  other byte alone.
  A \<^verbatim>\<open>DateTime<Utc>\<close> is its number of nanoseconds since the epoch, an \<^verbatim>\<open>i64\<close> that is only compared,
  stored and printed is an \<open>int\<close>, and an \<^verbatim>\<open>u32\<close> that takes part in arithmetic or in a cast
  is a \<open>32 word\<close>.
\<close>

named_theorems delim_simps \<open>membership of a delimiter in printed text\<close>
named_theorems step_inv \<open>one preservation lemma per operation of a component\<close>

type_synonym bytes = string
type_synonym uuid = string
type_synonym datetime = int
type_synonym u32 = "32 word"

text \<open>Nanoseconds per second; \<^verbatim>\<open>DateTime::timestamp\<close> rounds towards minus infinity.\<close>

definition ns_per_sec :: int where
  "ns_per_sec = 1000000000"

definition timestamp :: "datetime \<Rightarrow> int" where
  "timestamp t = t div ns_per_sec"

definition seconds :: "int \<Rightarrow> int" where
  "seconds n = n * ns_per_sec"

subsection \<open>Results\<close>

text \<open>
  \<^verbatim>\<open>anyhow::Result<T>\<close> is \<open>error + 'a\<close>.  One constructor per failure of the sources; a
  constructor's arguments are the values the message interpolates.  \<open>Panic\<close> is a Rust panic
  (the release profile aborts), kept apart from an \<^verbatim>\<open>Err\<close>.
\<close>

datatype error =
    Panic string
  | BadBase64 string
  | BadKeyLength
  | BadSignatureLength
  | BadPublicKey
  | BadSecretKey
  | SigningFailed
  | MissingPemSection string
  | InvalidCryptoScheme string
  | InvalidAgentType string
  | InvalidTier string
  | AlreadyRevoked uuid
  | DbError string
  | UnknownLimit string
  | LimitReached string u32 u32
  | FeatureUnavailable string
  | LicenseInvalid
  | LicenseFormat
  | ParseError string
  | IoError string
  | InvalidUrl
  | BadHeader string
  | NotFound string
  | AlreadyExists string
  | AlreadyRunning string
  | KeyMismatch
  | ScopeNotHeld string
  | ExpiresAfterParent
  | EmptyTtl
  | BadTtlNumber string
  | BadTtlUnit string
  | MissingPqKey
  | MissingPqSignature
  | BadParams string
  | Rejected string

type_synonym 'a result = "error + 'a"

definition bind_res :: "'a result \<Rightarrow> ('a \<Rightarrow> 'b result) \<Rightarrow> 'b result" where
  "bind_res r f = (case r of Inl e \<Rightarrow> Inl e | Inr x \<Rightarrow> f x)"

definition require :: "bool \<Rightarrow> error \<Rightarrow> unit result" where
  "require b e = (if b then Inr () else Inl e)"

definition of_option :: "error \<Rightarrow> 'a option \<Rightarrow> 'a result" where
  "of_option e x = (case x of None \<Rightarrow> Inl e | Some v \<Rightarrow> Inr v)"

text \<open>\<^verbatim>\<open>unwrap_or(d)\<close> on a result.\<close>

definition unwrap_or :: "'a \<Rightarrow> 'a result \<Rightarrow> 'a" where
  "unwrap_or d r = (case r of Inl _ \<Rightarrow> d | Inr x \<Rightarrow> x)"

lemma bind_res_simps [simp]:
  "bind_res (Inl e) f = Inl e"
  "bind_res (Inr x) f = f x"
  by (simp_all add: bind_res_def)

lemma bind_res_Inr_iff:
  "bind_res r f = Inr y \<longleftrightarrow> (\<exists>x. r = Inr x \<and> f x = Inr y)"
  by (auto simp: bind_res_def split: sum.splits)

lemma bind_res_assoc [simp]: "bind_res (bind_res r f) g = bind_res r (\<lambda>x. bind_res (f x) g)"
  by (simp add: bind_res_def split: sum.splits)

lemma require_simps [simp]:
  "require True e = Inr ()"
  "require False e = Inl e"
  by (simp_all add: require_def)

lemma require_Inr_iff [simp]: "require b e = Inr u \<longleftrightarrow> b"
  by (simp add: require_def)

lemma of_option_simps [simp]:
  "of_option e None = Inl e"
  "of_option e (Some x) = Inr x"
  by (simp_all add: of_option_def)

lemma of_option_Inr_iff [simp]: "of_option e x = Inr v \<longleftrightarrow> x = Some v"
  by (simp add: of_option_def split: option.splits)

lemma unwrap_or_simps [simp]:
  "unwrap_or d (Inl e) = d"
  "unwrap_or d (Inr x) = x"
  by (simp_all add: unwrap_or_def)

lemma unwrap_or_False_iff: "unwrap_or False r \<longleftrightarrow> r = Inr True"
  by (cases r) auto

lemmas result_split = sum.splits option.splits if_splits

end
