(* ===== verification/Rust_Strings.thy ===== *)
theory Rust_Strings
  imports Prelude
begin

text \<open>
  The functions of Rust's \<^verbatim>\<open>str\<close> that the sources call, on byte strings: searching, splitting,
  joining, trimming, case conversion, line iteration, and printing and parsing of decimal
  integers.  The lemmas say when text that was joined can be split again, which is what every
  signed payload of the program depends on.
\<close>

abbreviation nul :: char where "nul \<equiv> CHR 0x00"
abbreviation nl :: char where "nl \<equiv> CHR 0x0A"
abbreviation cr :: char where "cr \<equiv> CHR 0x0D"
abbreviation dquote :: char where "dquote \<equiv> CHR 0x22"

subsection \<open>Prefixes, suffixes and substring search\<close>

definition starts_with :: "string \<Rightarrow> string \<Rightarrow> bool" where
  "starts_with s p \<longleftrightarrow> take (length p) s = p"

definition ends_with :: "string \<Rightarrow> string \<Rightarrow> bool" where
  "ends_with s p \<longleftrightarrow> length p \<le> length s \<and> drop (length s - length p) s = p"

definition strip_prefix :: "string \<Rightarrow> string \<Rightarrow> string option" where
  "strip_prefix s p = (if starts_with s p then Some (drop (length p) s) else None)"

definition strip_suffix :: "string \<Rightarrow> string \<Rightarrow> string option" where
  "strip_suffix s p = (if ends_with s p then Some (take (length s - length p) s) else None)"

text \<open>\<^verbatim>\<open>str::find\<close> with a string pattern: the least byte offset of an occurrence.\<close>

fun find_str :: "string \<Rightarrow> string \<Rightarrow> nat option" where
  "find_str [] p = (if p = [] then Some 0 else None)"
| "find_str (c # s) p =
     (if starts_with (c # s) p then Some 0 else map_option Suc (find_str s p))"

definition contains_str :: "string \<Rightarrow> string \<Rightarrow> bool" where
  "contains_str s p \<longleftrightarrow> find_str s p \<noteq> None"

text \<open>\<^verbatim>\<open>str::find\<close> with a character pattern.\<close>

fun find_char :: "string \<Rightarrow> char \<Rightarrow> nat option" where
  "find_char [] c = None"
| "find_char (d # s) c = (if d = c then Some 0 else map_option Suc (find_char s c))"

text \<open>\<^verbatim>\<open>&s[a..b]\<close>: \<^verbatim>\<open>None\<close> stands for the panic of an ill-formed range.\<close>

definition slice :: "string \<Rightarrow> nat \<Rightarrow> nat \<Rightarrow> string option" where
  "slice s a b = (if a \<le> b \<and> b \<le> length s then Some (take (b - a) (drop a s)) else None)"

lemma starts_with_append [simp]: "starts_with (p @ s) p"
  by (simp add: starts_with_def)

lemma starts_with_Nil [simp]: "starts_with s []"
  by (simp add: starts_with_def)

lemma starts_with_iff: "starts_with s p \<longleftrightarrow> (\<exists>r. s = p @ r)"
  by (metis append_eq_conv_conj append_take_drop_id starts_with_def)

lemma starts_with_Cons [simp]:
  "starts_with (c # s) (d # p) \<longleftrightarrow> c = d \<and> starts_with s p"
  by (auto simp: starts_with_def)

lemma starts_with_empty [simp]: "starts_with [] (d # p) = False"
  by (simp add: starts_with_def)

lemma ends_with_iff: "ends_with s p \<longleftrightarrow> (\<exists>r. s = r @ p)"
proof
  assume "ends_with s p"
  then have "s = take (length s - length p) s @ p"
    unfolding ends_with_def by (metis append_take_drop_id)
  then show "\<exists>r. s = r @ p" by blast
qed (auto simp: ends_with_def)

lemma find_str_skip:
  assumes "\<And>i. i < length a \<Longrightarrow> \<not> starts_with (drop i (a @ p @ b)) p"
  shows "find_str (a @ p @ b) p = Some (length a)"
  using assms
proof (induction a)
  case Nil
  show ?case
  proof (cases "p @ b")
    case (Cons y ys)
    with starts_with_append [of p b] show ?thesis by simp
  qed simp
next
  case (Cons x a)
  from Cons.prems [of 0] have "\<not> starts_with (x # a @ p @ b) p" by simp
  moreover have "find_str (a @ p @ b) p = Some (length a)"
    using Cons.prems [of "Suc _"] by (intro Cons.IH) auto
  ultimately show ?case by simp
qed

lemma find_str_skip_fresh:
  "c \<notin> set a \<Longrightarrow>
   find_str (a @ r) (c # p) = map_option (\<lambda>n. length a + n) (find_str r (c # p))"
  by (induction a; cases "find_str r (c # p)") auto

lemma find_str_fresh:
  assumes "c \<notin> set a"
  shows "find_str (a @ (c # p) @ b) (c # p) = Some (length a)"
proof (rule find_str_skip)
  fix i assume "i < length a"
  then have "drop i (a @ (c # p) @ b) = a ! i # drop (Suc i) (a @ (c # p) @ b)"
    by (simp add: Cons_nth_drop_Suc [symmetric] nth_append)
  moreover have "a ! i \<noteq> c" using assms \<open>i < length a\<close> by force
  ultimately show "\<not> starts_with (drop i (a @ (c # p) @ b)) (c # p)" by simp
qed

lemma find_char_append:
  "c \<notin> set a \<Longrightarrow> find_char (a @ c # b) c = Some (length a)"
  by (induction a) auto

lemma find_char_None [simp]: "find_char s c = None \<longleftrightarrow> c \<notin> set s"
  by (induction s) auto

subsection \<open>Splitting and joining\<close>

fun split_on :: "char \<Rightarrow> string \<Rightarrow> string list" where
  "split_on c [] = [[]]"
| "split_on c (x # s) =
     (if x = c then [] # split_on c s
      else (case split_on c s of [] \<Rightarrow> [[x]] | w # ws \<Rightarrow> (x # w) # ws))"

text \<open>\<^verbatim>\<open>str::split_once\<close> on a character.\<close>

fun split_once :: "char \<Rightarrow> string \<Rightarrow> (string \<times> string) option" where
  "split_once c [] = None"
| "split_once c (x # s) =
     (if x = c then Some ([], s) else map_option (\<lambda>(a, b). (x # a, b)) (split_once c s))"

fun join :: "string \<Rightarrow> string list \<Rightarrow> string" where
  "join sep [] = []"
| "join sep [w] = w"
| "join sep (w # v # ws) = w @ sep @ join sep (v # ws)"

lemma split_on_not_Nil [simp]: "split_on c s \<noteq> []"
  by (induction s) (auto split: list.splits)

lemma split_on_fresh: "c \<notin> set s \<Longrightarrow> split_on c s = [s]"
  by (induction s) auto

lemma split_on_append: "c \<notin> set a \<Longrightarrow> split_on c (a @ c # b) = a # split_on c b"
  by (induction a) auto

lemma split_on_join:
  "ws \<noteq> [] \<Longrightarrow> \<forall>w \<in> set ws. c \<notin> set w \<Longrightarrow> split_on c (join [c] ws) = ws"
  by (induction "[c]" ws rule: join.induct) (auto simp: split_on_fresh split_on_append)

lemma split_on_parts_fresh: "w \<in> set (split_on c s) \<Longrightarrow> c \<notin> set w"
  by (induction s arbitrary: w) (auto split: if_splits list.splits)

lemma split_once_append: "c \<notin> set a \<Longrightarrow> split_once c (a @ c # b) = Some (a, b)"
  by (induction a) auto

lemma split_once_SomeD:
  "split_once c s = Some (a, b) \<Longrightarrow> s = a @ c # b \<and> c \<notin> set a"
  by (induction s arbitrary: a) (auto split: if_splits)

lemma join_Cons: "ws \<noteq> [] \<Longrightarrow> join sep (w # ws) = w @ sep @ join sep ws"
  by (cases ws) auto

lemma set_join: "c \<in> set (join sep ws) \<Longrightarrow> c \<in> set sep \<or> (\<exists>w \<in> set ws. c \<in> set w)"
  by (induction sep ws rule: join.induct) auto

lemma join_Nil_eq_concat [simp]: "join [] ws = concat ws"
  by (induction "[] :: string" ws rule: join.induct) auto

text \<open>
  The central fact about delimiter-separated text: a field without the delimiter is
  determined by the text.
\<close>

lemma delim_inj:
  "a @ c # b = a' @ c # b' \<Longrightarrow> c \<notin> set a \<Longrightarrow> c \<notin> set a' \<Longrightarrow> a = a' \<and> b = b'"
proof (induction a arbitrary: a')
  case Nil
  then show ?case by (cases a') auto
next
  case (Cons x a)
  then show ?case by (cases a') auto
qed

lemma count_split_unique:
  "a @ c # b = a' @ c # b' \<Longrightarrow> count_list b c = count_list b' c \<Longrightarrow> a = a' \<and> b = b'"
proof (induction a arbitrary: a')
  case Nil
  then show ?case by (cases a') auto
next
  case (Cons x a)
  then show ?case by (cases a') auto
qed

lemma fixed_inj: "a @ b = a' @ b' \<Longrightarrow> length a = length a' \<Longrightarrow> a = a' \<and> b = b'"
  by simp

lemma join_inj:
  assumes "join [c] ws = join [c] vs" and "ws \<noteq> []" and "vs \<noteq> []"
    and "\<forall>w \<in> set ws. c \<notin> set w" and "\<forall>w \<in> set vs. c \<notin> set w"
  shows "ws = vs"
  using assms split_on_join by metis

text \<open>\<^verbatim>\<open>slice::chunks(n)\<close>; the panic of \<^verbatim>\<open>n = 0\<close> is the caller's to model.\<close>

function chunks :: "nat \<Rightarrow> 'a list \<Rightarrow> 'a list list" where
  "chunks n xs = (if xs = [] \<or> n = 0 then [] else take n xs # chunks n (drop n xs))"
  by pat_completeness auto
termination
  by (relation "measure (\<lambda>(n, xs). length xs)") auto

declare chunks.simps [simp del]

lemma chunks_Nil [simp]: "chunks n [] = []"
  by (simp add: chunks.simps)

lemma concat_chunks: "0 < n \<Longrightarrow> concat (chunks n xs) = xs"
proof (induction n xs rule: chunks.induct)
  case (1 n xs)
  then show ?case by (cases "xs = []") (auto simp: chunks.simps [of n xs])
qed

lemma chunks_eq_Nil [simp]: "0 < n \<Longrightarrow> chunks n xs = [] \<longleftrightarrow> xs = []"
  by (simp add: chunks.simps [of n xs])

lemma set_chunks: "c \<in> set (chunks n xs) \<Longrightarrow> set c \<subseteq> set xs \<and> c \<noteq> [] \<and> length c \<le> n"
proof (induction n xs rule: chunks.induct)
  case (1 n xs)
  then show ?case
    by (cases "xs = [] \<or> n = 0")
       (auto simp: chunks.simps [of n xs] dest: in_set_takeD in_set_dropD)
qed

subsection \<open>Lines, trimming and case\<close>

text \<open>
  \<^verbatim>\<open>str::lines\<close>: pieces ended by a line feed, an optional carriage return before it dropped; no
  final empty piece.
\<close>

definition strip_cr :: "string \<Rightarrow> string" where
  "strip_cr l = (if l \<noteq> [] \<and> last l = cr then butlast l else l)"

definition str_lines :: "string \<Rightarrow> string list" where
  "str_lines s =
     (let ps = split_on nl s
      in map strip_cr (butlast ps) @ (if last ps = [] then [] else [last ps]))"

definition is_space :: "char \<Rightarrow> bool" where
  "is_space c \<longleftrightarrow> c \<in> {CHR '' '', CHR 0x09, CHR 0x0A, CHR 0x0B, CHR 0x0C, CHR 0x0D}"

definition trim_start_matches :: "(char \<Rightarrow> bool) \<Rightarrow> string \<Rightarrow> string" where
  "trim_start_matches P s = dropWhile P s"

definition trim_end_matches :: "(char \<Rightarrow> bool) \<Rightarrow> string \<Rightarrow> string" where
  "trim_end_matches P s = rev (dropWhile P (rev s))"

definition trim_matches :: "(char \<Rightarrow> bool) \<Rightarrow> string \<Rightarrow> string" where
  "trim_matches P s = trim_end_matches P (trim_start_matches P s)"

definition trim :: "string \<Rightarrow> string" where
  "trim s = trim_matches is_space s"

text \<open>\<^verbatim>\<open>str::split_whitespace\<close>: the maximal pieces without white space.\<close>

fun split_ws_acc :: "string \<Rightarrow> string \<Rightarrow> string list" where
  "split_ws_acc acc [] = (if acc = [] then [] else [rev acc])"
| "split_ws_acc acc (c # s) =
     (if is_space c then (if acc = [] then [] else [rev acc]) @ split_ws_acc [] s
      else split_ws_acc (c # acc) s)"

definition split_whitespace :: "string \<Rightarrow> string list" where
  "split_whitespace s = split_ws_acc [] s"

definition lower_char :: "char \<Rightarrow> char" where
  "lower_char c =
     (if 65 \<le> (of_char c :: nat) \<and> (of_char c :: nat) \<le> 90 then char_of ((of_char c :: nat) + 32) else c)"

definition upper_char :: "char \<Rightarrow> char" where
  "upper_char c =
     (if 97 \<le> (of_char c :: nat) \<and> (of_char c :: nat) \<le> 122 then char_of ((of_char c :: nat) - 32) else c)"

definition to_lowercase :: "string \<Rightarrow> string" where
  "to_lowercase s = map lower_char s"

definition to_uppercase :: "string \<Rightarrow> string" where
  "to_uppercase s = map upper_char s"

definition replace_char :: "char \<Rightarrow> char \<Rightarrow> string \<Rightarrow> string" where
  "replace_char a b s = map (\<lambda>c. if c = a then b else c) s"

text \<open>\<^verbatim>\<open>str::replace\<close> with string arguments: occurrences from the left, not overlapping.\<close>

fun replace_fuel :: "nat \<Rightarrow> string \<Rightarrow> string \<Rightarrow> string \<Rightarrow> string" where
  "replace_fuel 0 a b s = s"
| "replace_fuel (Suc n) a b s =
     (case s of [] \<Rightarrow> []
      | c # r \<Rightarrow> (if a \<noteq> [] \<and> starts_with s a then b @ replace_fuel n a b (drop (length a) s)
                  else c # replace_fuel n a b r))"

definition replace_str :: "string \<Rightarrow> string \<Rightarrow> string \<Rightarrow> string" where
  "replace_str a b s = replace_fuel (length s) a b s"

lemma dropWhile_stop: "xs = [] \<or> \<not> P (hd xs) \<Longrightarrow> dropWhile P xs = xs"
  by (cases xs) auto

lemma trim_matches_stop:
  "s = [] \<or> (\<not> P (hd s) \<and> \<not> P (last s)) \<Longrightarrow> trim_matches P s = s"
  by (auto simp: trim_matches_def trim_start_matches_def trim_end_matches_def dropWhile_stop hd_rev)

lemma trim_id: "s = [] \<or> (\<not> is_space (hd s) \<and> \<not> is_space (last s)) \<Longrightarrow> trim s = s"
  unfolding trim_def by (rule trim_matches_stop)

lemma trim_id_all: "\<forall>c \<in> set s. \<not> is_space c \<Longrightarrow> trim s = s"
  by (rule trim_id) auto

lemma trim_matches_fresh:
  assumes "c \<notin> set s"
  shows "trim_matches (\<lambda>x. x = c) s = s"
  by (rule trim_matches_stop) (use assms in \<open>cases "s = []"; auto\<close>)

lemma trim_matches_quoted:
  assumes "c \<notin> set s"
  shows "trim_matches (\<lambda>x. x = c) (c # s @ [c]) = s"
proof (cases "s = []")
  case False
  then have "hd s \<noteq> c" "last s \<noteq> c" using assms by auto
  then have "dropWhile (\<lambda>x. x = c) (s @ [c]) = s @ [c]"
    and "dropWhile (\<lambda>x. x = c) (rev s) = rev s"
    using False by (auto simp: dropWhile_stop hd_rev)
  then show ?thesis
    by (simp add: trim_matches_def trim_start_matches_def trim_end_matches_def)
qed (simp add: trim_matches_def trim_start_matches_def trim_end_matches_def)

lemma split_ws_acc_word:
  "\<forall>c \<in> set w. \<not> is_space c \<Longrightarrow> split_ws_acc acc (w @ s) = split_ws_acc (rev w @ acc) s"
  by (induction w arbitrary: acc) auto

lemma is_space_blank [simp]: "is_space (CHR '' '')"
  by (simp add: is_space_def)

lemma split_whitespace_join:
  assumes "\<forall>w \<in> set ws. w \<noteq> [] \<and> (\<forall>c \<in> set w. \<not> is_space c)"
  shows "split_whitespace (join '' '' ws) = ws"
  using assms unfolding split_whitespace_def
proof (induction "'' ''" ws rule: join.induct)
  case (2 w)
  then show ?case using split_ws_acc_word [of w "[]" "[]"] by simp
next
  case (3 w v ws)
  then show ?case using split_ws_acc_word [of w "[]" "'' '' @ join '' '' (v # ws)"] by simp
qed simp

lemma to_lowercase_idem_iff: "to_lowercase s = s \<longleftrightarrow> (\<forall>c \<in> set s. lower_char c = c)"
  by (induction s) (auto simp: to_lowercase_def)

subsection \<open>Decimal integers\<close>

fun nat_str :: "nat \<Rightarrow> string" where
  "nat_str n =
     (if n < 10 then [char_of (48 + n)] else nat_str (n div 10) @ [char_of (48 + n mod 10)])"

declare nat_str.simps [simp del]

definition int_str :: "int \<Rightarrow> string" where
  "int_str i = (if i < 0 then CHR ''-'' # nat_str (nat (- i)) else nat_str (nat i))"

definition is_digit :: "char \<Rightarrow> bool" where
  "is_digit c \<longleftrightarrow> 48 \<le> (of_char c :: nat) \<and> (of_char c :: nat) \<le> 57"

definition digit_val :: "char \<Rightarrow> nat" where
  "digit_val c = of_char c - 48"

definition digits_val :: "string \<Rightarrow> nat" where
  "digits_val s = foldl (\<lambda>n c. 10 * n + digit_val c) 0 s"

text \<open>\<^verbatim>\<open>str::parse::<i64>\<close>: an optional sign, at least one digit, in range.\<close>

definition parse_nat :: "string \<Rightarrow> nat option" where
  "parse_nat s = (if s \<noteq> [] \<and> list_all is_digit s then Some (digits_val s) else None)"

definition parse_i64 :: "string \<Rightarrow> int option" where
  "parse_i64 s =
     (let v = (case s of
                 [] \<Rightarrow> None
               | c # r \<Rightarrow>
                   (if c = CHR ''-'' then map_option (\<lambda>n. - int n) (parse_nat r)
                    else if c = CHR ''+'' then map_option int (parse_nat r)
                    else map_option int (parse_nat s)))
      in (case v of
            None \<Rightarrow> None
          | Some i \<Rightarrow> (if - (2 ^ 63) \<le> i \<and> i < 2 ^ 63 then Some i else None)))"

text \<open>\<^verbatim>\<open>str::parse::<u32>\<close>: an optional plus sign, at least one digit, in range.\<close>

definition parse_u32 :: "string \<Rightarrow> nat option" where
  "parse_u32 s =
     (let v = (case s of [] \<Rightarrow> None | c # r \<Rightarrow> (if c = CHR ''+'' then parse_nat r else parse_nat s))
      in (case v of None \<Rightarrow> None | Some n \<Rightarrow> (if n < 2 ^ 32 then Some n else None)))"

lemma of_char_digit [simp]: "n < 10 \<Longrightarrow> (of_char (char_of (48 + n) :: char) :: nat) = 48 + n"
  by simp

lemma digit_char [simp]:
  "n < 10 \<Longrightarrow> is_digit (char_of (48 + n))"
  "n < 10 \<Longrightarrow> digit_val (char_of (48 + n)) = n"
  by (simp_all add: is_digit_def digit_val_def)

lemma nat_str_digits: "\<forall>c \<in> set (nat_str n). is_digit c"
proof (induction n rule: nat_str.induct)
  case (1 n)
  show ?case
  proof (cases "n < 10")
    case False
    with 1 show ?thesis by (subst nat_str.simps) auto
  qed (subst nat_str.simps, simp)
qed

lemma nat_str_not_Nil [simp]: "nat_str n \<noteq> []"
  by (subst nat_str.simps) simp

lemma digits_val_snoc: "digits_val (s @ [c]) = 10 * digits_val s + digit_val c"
  by (simp add: digits_val_def)

lemma digits_val_nat_str [simp]: "digits_val (nat_str n) = n"
proof (induction n rule: nat_str.induct)
  case (1 n)
  show ?case
  proof (cases "n < 10")
    case True
    then show ?thesis by (subst nat_str.simps) (simp add: digits_val_def)
  next
    case False
    then have "digits_val (nat_str n) = 10 * (n div 10) + n mod 10"
      using 1 by (subst nat_str.simps) (simp add: digits_val_snoc)
    then show ?thesis by simp
  qed
qed

lemma parse_nat_str [simp]: "parse_nat (nat_str n) = Some n"
  using nat_str_digits by (simp add: parse_nat_def list_all_iff)

lemma nat_str_inj [simp]: "nat_str m = nat_str n \<longleftrightarrow> m = n"
  by (metis digits_val_nat_str)

lemma is_digit_sign [simp]: "\<not> is_digit CHR ''-''" "\<not> is_digit CHR ''+''"
  by (simp_all add: is_digit_def)

lemma int_str_chars: "c \<in> set (int_str i) \<Longrightarrow> is_digit c \<or> c = CHR ''-''"
  using nat_str_digits by (auto simp: int_str_def split: if_splits)

lemma int_str_inj [simp]: "int_str i = int_str j \<longleftrightarrow> i = j"
proof -
  have neg: "CHR ''-'' # nat_str m \<noteq> nat_str n" for m n
    using nat_str_digits [of n] by (metis is_digit_sign(1) list.set_intros(1))
  then show ?thesis
    using neg [symmetric] by (auto simp: int_str_def split: if_splits)
qed

lemma parse_i64_str:
  assumes "- (2 ^ 63) \<le> i" and "i < 2 ^ 63"
  shows "parse_i64 (int_str i) = Some i"
proof (cases "i < 0")
  case True
  then show ?thesis using assms by (simp add: parse_i64_def int_str_def)
next
  case False
  obtain c r where s: "nat_str (nat i) = c # r" by (cases "nat_str (nat i)") auto
  with nat_str_digits [of "nat i"] have "is_digit c" by simp
  then have "c \<noteq> CHR ''-''" "c \<noteq> CHR ''+''" by auto
  then show ?thesis using False assms s parse_nat_str [of "nat i"]
    by (simp add: parse_i64_def int_str_def)
qed

lemma int_str_fresh [delim_simps]:
  "\<not> is_digit c \<Longrightarrow> c \<noteq> CHR ''-'' \<Longrightarrow> c \<notin> set (int_str i)"
  using int_str_chars by blast

lemma nat_str_fresh [delim_simps]: "\<not> is_digit c \<Longrightarrow> c \<notin> set (nat_str n)"
  using nat_str_digits by blast

text \<open>\<^verbatim>\<open>i64::to_le_bytes\<close>: eight bytes, least significant first.\<close>

definition le_bytes64 :: "int \<Rightarrow> bytes" where
  "le_bytes64 i = map (\<lambda>k. char_of (nat (take_bit 8 (drop_bit (8 * k) i)))) [0 ..< 8]"

lemma length_le_bytes64 [simp]: "length (le_bytes64 i) = 8"
  by (simp add: le_bytes64_def)

lemma le_bytes64_bits:
  assumes "le_bytes64 i = le_bytes64 j" and "n < 64"
  shows "bit i n = bit j n"
proof -
  have b: "n div 8 < 8" using assms(2) by simp
  have "le_bytes64 i ! (n div 8) = le_bytes64 j ! (n div 8)" using assms by simp
  then have "(of_char (le_bytes64 i ! (n div 8)) :: nat) = of_char (le_bytes64 j ! (n div 8))" by simp
  then have "nat (take_bit 8 (drop_bit (8 * (n div 8)) i)) = nat (take_bit 8 (drop_bit (8 * (n div 8)) j))"
    using b by (simp add: le_bytes64_def take_bit_eq_mod nat_mod_distrib nat_less_iff)
  then have "take_bit 8 (drop_bit (8 * (n div 8)) i) = take_bit 8 (drop_bit (8 * (n div 8)) j)"
    by (simp add: eq_nat_nat_iff)
  then have "bit (take_bit 8 (drop_bit (8 * (n div 8)) i)) (n mod 8) = bit (take_bit 8 (drop_bit (8 * (n div 8)) j)) (n mod 8)"
    by simp
  then show ?thesis by (simp add: bit_take_bit_iff bit_drop_bit_eq)
qed

lemma le_bytes64_inj:
  assumes "le_bytes64 i = le_bytes64 j"
    and "- (2 ^ 63) \<le> i" "i < 2 ^ 63" "- (2 ^ 63) \<le> j" "j < 2 ^ 63"
  shows "i = j"
proof -
  have "take_bit 64 i = take_bit 64 j"
    by (rule bit_eqI) (auto simp: bit_take_bit_iff le_bytes64_bits [OF assms(1)])
  then have "(2 ^ 64 :: int) dvd i - j"
    by (simp add: take_bit_eq_mod mod_eq_dvd_iff)
  moreover have "\<bar>i - j\<bar> < 2 ^ 64" using assms(2-5) by auto
  ultimately show ?thesis
    by (metis abs_of_nonneg dvd_imp_le_int linorder_not_less not_less right_minus_eq zero_le_numeral zero_le_power)
qed
end
