(* ===== verification/Interfaces.thy ===== *)
theory Interfaces
  imports Rust_Strings
begin

text \<open>
  The contracts between components, each a locale with the laws a provider promises and the
  facts its clients use.  The providers' theories interpret them: \<open>Crypto\<close> the signature
  schemes, \<open>Audit_Log\<close>, \<open>Challenge_Response\<close> and \<open>Revocation_Registry\<close> the signed payloads,
  \<open>Proxy_Scope\<close> and \<open>Supervisor_Process\<close> the sliding window, and every component with state the
  invariants.
\<close>

subsection \<open>Invariants of a transition system\<close>

inductive reachable :: "('s \<Rightarrow> bool) \<Rightarrow> ('s \<Rightarrow> 's \<Rightarrow> bool) \<Rightarrow> 's \<Rightarrow> bool"
  for init :: "'s \<Rightarrow> bool" and step :: "'s \<Rightarrow> 's \<Rightarrow> bool" where
  reach_init: "init s \<Longrightarrow> reachable init step s"
| reach_step: "reachable init step s \<Longrightarrow> step s t \<Longrightarrow> reachable init step t"

locale invariant =
  fixes init :: "'s \<Rightarrow> bool"
    and step :: "'s \<Rightarrow> 's \<Rightarrow> bool"
    and inv :: "'s \<Rightarrow> bool"
  assumes inv_init: "init s \<Longrightarrow> inv s"
    and inv_step: "inv s \<Longrightarrow> step s t \<Longrightarrow> inv t"
begin

lemma inv_reachable: "reachable init step s \<Longrightarrow> inv s"
  by (induction rule: reachable.induct) (auto intro: inv_init inv_step)

end

subsection \<open>Signature schemes\<close>

text \<open>
  A key is \<open>good\<close> when the external implementation works as documented for it; the only law
  is completeness: signing a message with a good key succeeds, and the result verifies.
\<close>

locale signature_scheme =
  fixes good :: "'k \<Rightarrow> bool"
    and pub :: "'k \<Rightarrow> 'p"
    and sgn :: "'k \<Rightarrow> bytes \<Rightarrow> 's result"
    and vrf :: "'p \<Rightarrow> bytes \<Rightarrow> 's \<Rightarrow> bool result"
  assumes complete: "good k \<Longrightarrow> \<exists>s. sgn k m = Inr s \<and> vrf (pub k) m s = Inr True"
begin

lemma sign_succeeds: "good k \<Longrightarrow> \<exists>s. sgn k m = Inr s"
  using complete by blast

lemma sign_then_verify: "good k \<Longrightarrow> sgn k m = Inr s \<Longrightarrow> vrf (pub k) m s = Inr True"
  using complete [of k m] by auto

end

subsection \<open>Canonical payloads\<close>

text \<open>
  A payload is canonical when it determines the content it stands for, on the well-formed
  values.  A signature made for one value then vouches for no other content, unless it is a
  forgery: it verifies on a message it was not made for.
\<close>

locale canonical_payload =
  fixes wf :: "'a \<Rightarrow> bool"
    and payload :: "'a \<Rightarrow> bytes"
    and content :: "'a \<Rightarrow> 'c"
  assumes payload_inj: "wf x \<Longrightarrow> wf y \<Longrightarrow> payload x = payload y \<Longrightarrow> content x = content y"
begin

lemma accepted_content:
  assumes "wf x" and "wf y"
    and accepted: "check (payload y) s"
    and no_forgery: "\<And>m. check m s \<Longrightarrow> m = payload x"
  shows "content y = content x"
  using assms payload_inj by metis

lemma payload_distinct: "wf x \<Longrightarrow> wf y \<Longrightarrow> content x \<noteq> content y \<Longrightarrow> payload x \<noteq> payload y"
  using payload_inj by blast

end

subsection \<open>Sliding-window limiters\<close>

text \<open>
  A limiter keeps a queue of the times it granted.  At time \<open>now\<close> it forgets the times at
  least \<open>w\<close> old and grants when fewer than \<open>limit\<close> remain.
\<close>

definition live :: "int \<Rightarrow> int \<Rightarrow> int list \<Rightarrow> int list" where
  "live w now q = filter (\<lambda>t. now - t < w) q"

locale sliding_window =
  fixes admit :: "nat \<Rightarrow> int \<Rightarrow> int \<Rightarrow> int list \<Rightarrow> bool \<times> int list"
  assumes admit_spec: "sorted q \<Longrightarrow> length q \<le> limit \<Longrightarrow> 0 < limit \<Longrightarrow> limit < 2 ^ 32 \<Longrightarrow> 0 < w \<Longrightarrow>
      admit limit w now q =
        (if length (live w now q) < limit then (True, live w now q @ [now])
         else (False, live w now q))"
begin

fun grants :: "nat \<Rightarrow> int \<Rightarrow> int list \<Rightarrow> int list \<Rightarrow> int list" where
  "grants limit w q [] = []"
| "grants limit w q (now # ts) =
     (let (b, q') = admit limit w now q
      in (if b then now # grants limit w q' ts else grants limit w q' ts))"

lemma sorted_live: "sorted q \<Longrightarrow> sorted (live w now q)"
  by (simp add: live_def sorted_wrt_filter)

lemma admit_inv:
  assumes "sorted q" "length q \<le> limit" "0 < limit" "limit < 2 ^ 32" "0 < w" "\<forall>t \<in> set q. t \<le> now"
    and "admit limit w now q = (b, q')"
  shows "sorted q'" "length q' \<le> limit" "\<forall>t \<in> set q'. t \<le> now"
proof -
  have le: "length (live w now q) \<le> length q" by (simp add: live_def)
  have old: "\<forall>t \<in> set (live w now q). t \<le> now" using assms(6) by (auto simp: live_def)
  show "sorted q'" "length q' \<le> limit" "\<forall>t \<in> set q'. t \<le> now"
    using assms admit_spec [of q limit w now] sorted_live [of q w now] le old
    by (auto simp: sorted_append split: if_splits)
qed

text \<open>
  The grants of any run that fall in a window of length \<open>w\<close> ending at \<open>e\<close>, counted together
  with those already queued, never exceed the limit.
\<close>

lemma grants_subset: "set (grants limit w q ts) \<subseteq> set ts"
  by (induction ts arbitrary: q) (auto split: if_splits prod.splits)

lemma window_bound:
  assumes "sorted q" "length q \<le> limit" "0 < limit" "limit < 2 ^ 32" "0 < w"
    and "sorted ts" "\<forall>t \<in> set q. \<forall>u \<in> set ts. t \<le> u"
  shows "length (filter (\<lambda>t. e - w < t \<and> t \<le> e) (q @ grants limit w q ts)) \<le> limit"
  using assms(1,2,6,7)
proof (induction ts arbitrary: q)
  case Nil
  then show ?case by (auto intro: le_trans [OF length_filter_le])
next
  case (Cons now ts)
  let ?P = "\<lambda>t. e - w < t \<and> t \<le> e"
  obtain b q' where a: "admit limit w now q = (b, q')" by (cases "admit limit w now q")
  have qn: "\<forall>t \<in> set q. t \<le> now" using Cons.prems(4) by simp
  note inv = admit_inv [OF Cons.prems(1,2) assms(3-5) qn a]
  have ts: "sorted ts" "\<forall>u \<in> set ts. now \<le> u" using Cons.prems(3) by auto
  have "\<forall>t \<in> set q'. \<forall>u \<in> set ts. t \<le> u" using inv(3) ts(2) order_trans by blast
  then have IH: "length (filter ?P (q' @ grants limit w q' ts)) \<le> limit"
    using Cons.IH inv(1,2) ts(1) by blast
  show ?case
  proof (cases "e < now")
    case True
    have "e < u" if "u \<in> set (grants limit w q (now # ts))" for u
    proof -
      from that have "u \<in> set (now # ts)" using grants_subset by blast
      with ts(2) True show ?thesis by auto
    qed
    then have "filter ?P (grants limit w q (now # ts)) = []"
      unfolding filter_empty_conv by (meson linorder_not_less)
    then have "filter ?P (q @ grants limit w q (now # ts)) = filter ?P q"
      by (simp only: filter_append append_Nil2)
    then show ?thesis using Cons.prems(2) le_trans [OF length_filter_le] by metis
  next
    case False
    then have "filter ?P (live w now q) = filter ?P q"
      by (auto simp: live_def intro!: filter_cong)
    then show ?thesis
      using IH a admit_spec [OF Cons.prems(1,2) assms(3-5), of now] by (auto split: if_splits)
  qed
qed

end

end
