(* ===== verification/Json.thy ===== *)
theory Json
  imports Rust_Strings "HOL-Library.List_Lexorder" "HOL-Library.Char_ord"
begin

text \<open>
  JSON values as \<^verbatim>\<open>serde_json::Value\<close> has them (integers only), their compact text, and the
  program's own \<^verbatim>\<open>canonical_json\<close>, with the proof that the text determines the value.  The
  escaping of strings is a parameter \<open>q\<close>; all that is used of it is that a quoted string says
  where it ends.

  \<^verbatim>\<open>serde_json\<close> is built without \<^verbatim>\<open>preserve_order\<close>: the members of a \<^verbatim>\<open>Value::Object\<close> are a \<^verbatim>\<open>BTreeMap\<close>, ordered
  by key, byte by byte.
\<close>

datatype json =
    JNull
  | JBool bool
  | JNum int
  | JStr string
  | JArr "json list"
  | JObj "(string \<times> json) list"

subsection \<open>Accessors\<close>

fun json_get :: "json \<Rightarrow> string \<Rightarrow> json option" where
  "json_get (JObj kvs) k = map_of kvs k"
| "json_get _ k = None"

fun as_str :: "json \<Rightarrow> string option" where
  "as_str (JStr s) = Some s"
| "as_str _ = None"

fun as_bool :: "json \<Rightarrow> bool option" where
  "as_bool (JBool b) = Some b"
| "as_bool _ = None"

fun as_u64 :: "json \<Rightarrow> nat option" where
  "as_u64 (JNum n) = (if 0 \<le> n \<and> n < 2 ^ 64 then Some (nat n) else None)"
| "as_u64 _ = None"

fun as_array :: "json \<Rightarrow> json list option" where
  "as_array (JArr vs) = Some vs"
| "as_array _ = None"

definition get_str :: "json \<Rightarrow> string \<Rightarrow> string option" where
  "get_str v k = Option.bind (json_get v k) as_str"

text \<open>Collecting members into the ordered map of a \<^verbatim>\<open>Value\<close>.\<close>

definition json_object :: "(string \<times> json) list \<Rightarrow> json" where
  "json_object kvs = JObj (sort_key fst kvs)"

text \<open>
  The members of a derived \<^verbatim>\<open>Deserialize\<close> for a struct without optional fields: an object that has each
  of them once, others being ignored, or an array of exactly their values.
\<close>

definition struct_field :: "(string \<times> json) list \<Rightarrow> string \<Rightarrow> json option" where
  "struct_field kvs k =
     (case filter (\<lambda>kv. fst kv = k) kvs of [(_, v)] \<Rightarrow> Some v | _ \<Rightarrow> None)"

definition struct_members :: "string list \<Rightarrow> json \<Rightarrow> json list option" where
  "struct_members names v =
     (case v of
        JObj kvs \<Rightarrow> those (map (struct_field kvs) names)
      | JArr vs \<Rightarrow> if length vs = length names then Some vs else None
      | _ \<Rightarrow> None)"

fun as_i64 :: "json \<Rightarrow> int option" where
  "as_i64 (JNum n) = (if - (2 ^ 63) \<le> n \<and> n < 2 ^ 63 then Some n else None)"
| "as_i64 _ = None"

definition str_list :: "json \<Rightarrow> string list option" where
  "str_list v = Option.bind (as_array v) (\<lambda>vs. those (map as_str vs))"

text \<open>An \<^verbatim>\<open>Option\<close> member may be absent or null.\<close>

definition opt_field :: "(string \<times> json) list \<Rightarrow> string \<Rightarrow> json option" where
  "opt_field kvs k = (case filter (\<lambda>kv. fst kv = k) kvs of [] \<Rightarrow> Some JNull | [(_, v)] \<Rightarrow> Some v | _ \<Rightarrow> None)"

definition opt_str :: "json \<Rightarrow> string option option" where
  "opt_str v = (case v of JNull \<Rightarrow> Some None | JStr s \<Rightarrow> Some (Some s) | _ \<Rightarrow> None)"

definition opt_i64 :: "json \<Rightarrow> int option option" where
  "opt_i64 v = (case v of JNull \<Rightarrow> Some None | _ \<Rightarrow> map_option Some (as_i64 v))"

definition struct_opt_members :: "(string \<times> bool) list \<Rightarrow> json \<Rightarrow> json list option" where
  "struct_opt_members fields v =
     (case v of
        JObj kvs \<Rightarrow> those (map (\<lambda>(k, optional). if optional then opt_field kvs k else struct_field kvs k) fields)
      | JArr vs \<Rightarrow> if length vs = length fields then Some vs else None
      | _ \<Rightarrow> None)"

subsection \<open>Text\<close>

fun json_text :: "(string \<Rightarrow> string) \<Rightarrow> json \<Rightarrow> string" where
  "json_text q JNull = ''null''"
| "json_text q (JBool b) = (if b then ''true'' else ''false'')"
| "json_text q (JNum n) = int_str n"
| "json_text q (JStr s) = q s"
| "json_text q (JArr vs) = ''['' @ join '','' (map (json_text q) vs) @ '']''"
| "json_text q (JObj kvs) =
     ''{'' @ join '','' (map (\<lambda>(k, v). q k @ '':'' @ json_text q v) kvs) @ ''}''"

fun sort_members :: "json \<Rightarrow> json" where
  "sort_members (JArr vs) = JArr (map sort_members vs)"
| "sort_members (JObj kvs) = JObj (sort_key fst (map (\<lambda>(k, v). (k, sort_members v)) kvs))"
| "sort_members v = v"

text \<open>\<^verbatim>\<open>canonical_json\<close>: the members of every object sorted by key, no white space.\<close>

definition canonical_json :: "(string \<Rightarrow> string) \<Rightarrow> json \<Rightarrow> string" where
  "canonical_json q v = json_text q (sort_members v)"

subsection \<open>The text determines the value\<close>

definition quote_ok :: "(string \<Rightarrow> string) \<Rightarrow> bool" where
  "quote_ok q \<longleftrightarrow>
     (\<forall>s t r u. q s @ r = q t @ u \<longrightarrow> s = t \<and> r = u) \<and> (\<forall>s. q s \<noteq> [] \<and> hd (q s) = dquote)"

lemma quote_okD:
  assumes "quote_ok q"
  shows "q s @ r = q t @ u \<Longrightarrow> s = t \<and> r = u" "q s \<noteq> []" "hd (q s) = dquote"
  using assms unfolding quote_ok_def by blast+

definition ends_value :: "string \<Rightarrow> bool" where
  "ends_value r \<longleftrightarrow> r = [] \<or> \<not> is_digit (hd r)"

lemma ends_value_delims [simp]:
  "ends_value []" "ends_value (CHR '','' # r)" "ends_value (CHR '']'' # r)" "ends_value (CHR ''}'' # r)"
  by (simp_all add: ends_value_def is_digit_def)

text \<open>A list of values, each of which says where it ends, says where it ends.\<close>

lemma join_prefix:
  assumes step: "\<And>v w r s. v \<in> set vs \<Longrightarrow> f v @ r = f w @ s \<Longrightarrow> ends_value r \<Longrightarrow> ends_value s \<Longrightarrow> v = w \<and> r = s"
    and ne: "\<And>v. f v \<noteq> [] \<and> hd (f v) \<noteq> e"
    and e: "\<not> is_digit e" "e \<noteq> CHR '',''"
    and "join '','' (map f vs) @ e # r = join '','' (map f ws) @ e # s"
  shows "vs = ws \<and> r = s"
  using assms(1,5)
proof (induction vs arbitrary: ws)
  case Nil
  have "hd (join '','' (map f (w # us)) @ e # s) = hd (f w)" for w us using ne [of w] by (cases us) simp_all
  then show ?case using Nil.prems(2) ne by (cases ws) (auto, metis list.sel(1))
next
  case (Cons v vs)
  obtain w us where ws: "ws = w # us"
    using Cons.prems(2) ne [of v] by (cases ws) (cases vs; auto simp: append_eq_Cons_conv)+
  let ?rest = "\<lambda>vs r. if vs = [] then e # r else '','' @ join '','' (map f vs) @ e # r"
  have j: "join '','' (map f (x # xs)) @ e # y = f x @ ?rest xs y" for x xs y by (cases xs) simp_all
  have en: "ends_value (?rest xs y)" for xs y using e by (simp add: ends_value_def is_digit_def)
  have "f v @ ?rest vs r = f w @ ?rest us s" using Cons.prems(2) by (simp only: ws j)
  then have v: "v = w" and rest: "?rest vs r = ?rest us s"
    using Cons.prems(1) [of v "?rest vs r" w "?rest us s"] en by (meson list.set_intros(1))+
  show ?case
  proof (cases "vs = [] \<or> us = []")
    case True
    then show ?thesis using rest v ws e by (auto split: if_splits)
  next
    case False
    then have "join '','' (map f vs) @ e # r = join '','' (map f us) @ e # s" using rest by simp
    then have "vs = us \<and> r = s" using Cons.IH Cons.prems(1) by (meson list.set_intros(2))
    then show ?thesis using v ws by simp
  qed
qed

lemma int_str_prefix:
  assumes "int_str i @ r = int_str j @ s" "ends_value r" "ends_value s"
  shows "i = j \<and> r = s"
proof -
  have dig: "a = b \<and> r = s" if "a @ r = b @ s" "\<forall>c \<in> set a. is_digit c" "\<forall>c \<in> set b. is_digit c" for a b
    using that assms(2,3)
  proof (induction a arbitrary: b)
    case Nil
    then show ?case by (cases b) (auto simp: ends_value_def)
  next
    case (Cons x a)
    then show ?case by (cases b) (auto simp: ends_value_def)
  qed
  have no: "CHR ''-'' # x \<noteq> nat_str n @ y" for n x y
    using nat_str_digits [of n] by (cases "nat_str n") auto
  show ?thesis
  proof (cases "i < 0"; cases "j < 0")
    assume "i < 0" "j < 0"
    then show ?thesis using assms(1) dig [of "nat_str (nat (- i))" "nat_str (nat (- j))"] nat_str_digits
      by (auto simp: int_str_def)
  next
    assume "\<not> i < 0" "\<not> j < 0"
    then show ?thesis using assms(1) dig [of "nat_str (nat i)" "nat_str (nat j)"] nat_str_digits
      by (auto simp: int_str_def)
  qed (use assms(1) no no [symmetric] in \<open>auto simp: int_str_def\<close>)
qed

datatype json_kind = KNull | KBool | KNum | KStr | KArr | KObj

text \<open>The first byte of a value's text tells its kind.\<close>

definition kind_of_char :: "char \<Rightarrow> json_kind" where
  "kind_of_char c =
     (if c = CHR ''n'' then KNull else if c = CHR ''t'' \<or> c = CHR ''f'' then KBool
      else if c = dquote then KStr else if c = CHR ''['' then KArr else if c = CHR ''{'' then KObj
      else KNum)"

fun kind :: "json \<Rightarrow> json_kind" where
  "kind JNull = KNull" | "kind (JBool b) = KBool" | "kind (JNum n) = KNum" | "kind (JStr s) = KStr"
| "kind (JArr vs) = KArr" | "kind (JObj kvs) = KObj"

lemma int_str_hd: "int_str n \<noteq> [] \<and> (is_digit (hd (int_str n)) \<or> hd (int_str n) = CHR ''-'')"
proof -
  have "int_str n \<noteq> []" by (simp add: int_str_def)
  then show ?thesis using int_str_chars [of "hd (int_str n)" n] by simp
qed

lemma digit_kind: "is_digit c \<or> c = CHR ''-'' \<Longrightarrow> kind_of_char c = KNum"
  by (auto simp: kind_of_char_def is_digit_def)

lemma json_text_first:
  assumes "quote_ok q"
  shows "json_text q v \<noteq> [] \<and> kind_of_char (hd (json_text q v)) = kind v
    \<and> hd (json_text q v) \<noteq> CHR '']'' \<and> hd (json_text q v) \<noteq> CHR ''}''"
proof (cases v)
  case (JNum n)
  have "kind_of_char (hd (int_str n)) = KNum" using int_str_hd digit_kind by blast
  then show ?thesis using int_str_hd [of n] by (auto simp: JNum kind_of_char_def is_digit_def)
next
  case (JStr s)
  then show ?thesis using quote_okD(2,3) [OF assms, of s] by (simp add: kind_of_char_def)
qed (simp_all add: kind_of_char_def)

lemma json_text_kind:
  assumes "quote_ok q" "json_text q v @ r = json_text q w @ s"
  shows "kind v = kind w"
  using json_text_first [OF assms(1)] assms(2) by (metis hd_append2)

lemma json_text_prefix:
  assumes q: "quote_ok q"
  shows "json_text q v @ r = json_text q w @ s \<Longrightarrow> ends_value r \<Longrightarrow> ends_value s \<Longrightarrow> v = w \<and> r = s"
proof (induction v arbitrary: w r s)
  case JNull
  then show ?case using json_text_kind [OF q JNull(1)] by (cases w) auto
next
  case (JBool b)
  then show ?case using json_text_kind [OF q JBool(1)] by (cases w) (auto split: if_splits)
next
  case (JNum n)
  then obtain m where "w = JNum m" using json_text_kind [OF q JNum(1)] by (cases w) simp_all
  then show ?case using JNum int_str_prefix [of n r m s] by simp
next
  case (JStr t)
  then obtain u where "w = JStr u" using json_text_kind [OF q JStr(1)] by (cases w) simp_all
  then show ?case using JStr quote_okD(1) [OF q, of t r u s] by simp
next
  case (JArr vs)
  then obtain ws where w: "w = JArr ws" using json_text_kind [OF q JArr(2)] by (cases w) auto
  have "vs = ws \<and> r = s"
  proof (rule join_prefix [where f = "json_text q" and e = "CHR '']''"])
    show "join '','' (map (json_text q) vs) @ CHR '']'' # r = join '','' (map (json_text q) ws) @ CHR '']'' # s"
      using JArr.prems(1) w by simp
  qed (use JArr.IH json_text_first [OF q] in \<open>auto simp: is_digit_def\<close>)
  then show ?case using w by simp
next
  case (JObj kvs)
  then obtain ws where w: "w = JObj ws" using json_text_kind [OF q JObj(2)] by (cases w) auto
  let ?f = "\<lambda>(k, v). q k @ '':'' @ json_text q v"
  have "kvs = ws \<and> r = s"
  proof (rule join_prefix [where f = ?f and e = "CHR ''}''"])
    show "join '','' (map ?f kvs) @ CHR ''}'' # r = join '','' (map ?f ws) @ CHR ''}'' # s"
      using JObj.prems(1) w by simp
    show "?f x \<noteq> [] \<and> hd (?f x) \<noteq> CHR ''}''" for x
      using quote_okD(2,3) [OF q] by (cases x) (simp add: hd_append)
  next
    fix x y r s
    assume x: "x \<in> set kvs" and eq: "?f x @ r = ?f y @ s" and ends: "ends_value r" "ends_value s"
    obtain k v k' v' where xy: "x = (k, v)" "y = (k', v')" by (cases x; cases y)
    have "q k @ (CHR '':'' # json_text q v @ r) = q k' @ (CHR '':'' # json_text q v' @ s)"
      using eq by (simp add: xy)
    then have "k = k'" "json_text q v @ r = json_text q v' @ s" using quote_okD(1) [OF q] by blast+
    moreover from this(2) have "v = v' \<and> r = s" using JObj.IH [of x v] x ends xy by simp
    ultimately show "x = y \<and> r = s" using xy by simp
  qed (simp_all add: is_digit_def)
  then show ?case using w by simp
qed

lemma json_text_inj: "quote_ok q \<Longrightarrow> json_text q v = json_text q w \<Longrightarrow> v = w"
  using json_text_prefix [of q v "[]" w "[]"] by simp

lemma canonical_json_inj:
  "quote_ok q \<Longrightarrow> canonical_json q v = canonical_json q w \<Longrightarrow> sort_members v = sort_members w"
  unfolding canonical_json_def by (rule json_text_inj)

end
