(* ===== verification/External.thy ===== *)
theory External
  imports Interfaces Json
begin

text \<open>
  The code the program calls that is not in the repository (the crates \<^verbatim>\<open>base64\<close>, \<^verbatim>\<open>hex\<close>, \<^verbatim>\<open>sha2\<close>,
  \<^verbatim>\<open>ed25519-dalek\<close>, \<^verbatim>\<open>fips204\<close>, \<^verbatim>\<open>uuid\<close>, \<^verbatim>\<open>chrono\<close>, \<^verbatim>\<open>url\<close>, \<^verbatim>\<open>serde_json\<close>) is a parameter of the
  model: a record of functions that every definition using it takes as its first argument.
  What the proofs rely on is stated as predicates on that record, the documented behaviour of
  the crates.

  Randomness (\<^verbatim>\<open>OsRng\<close>, \<^verbatim>\<open>Uuid::new_v4\<close>) and clocks (\<^verbatim>\<open>Utc::now\<close>, \<^verbatim>\<open>Instant::now\<close>) are arguments of the operations that
  read them.
\<close>

record url_parts =
  url_scheme :: string
  url_host :: "string option"
  url_port :: "nat option"
  url_path :: string
  url_query :: "string option"

record ext =
  b64_encode :: "bytes \<Rightarrow> string"
  b64_decode :: "string \<Rightarrow> bytes option"
  hex_encode :: "bytes \<Rightarrow> string"
  sha256 :: "bytes \<Rightarrow> bytes"
  ed_public :: "bytes \<Rightarrow> bytes"
  ed_sign_raw :: "bytes \<Rightarrow> bytes \<Rightarrow> bytes"
  ed_point_ok :: "bytes \<Rightarrow> bool"
  ed_check :: "bytes \<Rightarrow> bytes \<Rightarrow> bytes \<Rightarrow> bool"
  pq_secret_ok :: "bytes \<Rightarrow> bool"
  pq_sign_raw :: "bytes \<Rightarrow> bytes \<Rightarrow> bytes option"
  pq_public_ok :: "bytes \<Rightarrow> bool"
  pq_check :: "bytes \<Rightarrow> bytes \<Rightarrow> bytes \<Rightarrow> bool"
  uuid_bytes :: "uuid \<Rightarrow> bytes"
  uuid_parse :: "string \<Rightarrow> uuid option"
  rfc3339 :: "datetime \<Rightarrow> string"
  rfc3339_parse :: "string \<Rightarrow> datetime option"
  dt_in_range :: "datetime \<Rightarrow> bool"
  dt_display :: "datetime \<Rightarrow> string"
  str_debug :: "string \<Rightarrow> string"
  url_parse :: "string \<Rightarrow> url_parts option"
  json_quote :: "string \<Rightarrow> string"
  json_parse :: "string \<Rightarrow> json option"
  dt_serde :: "datetime \<Rightarrow> string"
  dt_serde_parse :: "string \<Rightarrow> datetime option"

text \<open>
  Time arithmetic of \<^verbatim>\<open>chrono\<close>: its \<^verbatim>\<open>Duration\<close> constructors panic outside the milliseconds of an \<^verbatim>\<open>i64\<close>,
  and adding to a \<^verbatim>\<open>DateTime\<close> panics outside its range.
\<close>

definition duration_of :: "int \<Rightarrow> int \<Rightarrow> int result" where
  "duration_of n unit_seconds =
     (if \<bar>n * unit_seconds\<bar> \<le> (2 ^ 63 - 1) div 1000 then Inr (seconds (n * unit_seconds))
      else Inl (Panic ''TimeDelta out of bounds''))"

definition plus_duration :: "ext \<Rightarrow> datetime \<Rightarrow> int \<Rightarrow> datetime result" where
  "plus_duration E t d =
     (if dt_in_range E (t + d) then Inr (t + d) else Inl (Panic ''DateTime + TimeDelta overflowed''))"

text \<open>\<^verbatim>\<open>StatusCode::is_success\<close>.\<close>

definition is_success :: "nat \<Rightarrow> bool" where
  "is_success status \<longleftrightarrow> 200 \<le> status \<and> status < 300"

text \<open>The alphabet of standard base64 with padding.\<close>

definition is_b64_char :: "char \<Rightarrow> bool" where
  "is_b64_char c \<longleftrightarrow>
     (let n = (of_char c :: nat)
      in (48 \<le> n \<and> n \<le> 57) \<or> (65 \<le> n \<and> n \<le> 90) \<or> (97 \<le> n \<and> n \<le> 122)
         \<or> n = 43 \<or> n = 47 \<or> n = 61)"

definition b64_ok :: "ext \<Rightarrow> bool" where
  "b64_ok E \<longleftrightarrow>
     (\<forall>b. b64_decode E (b64_encode E b) = Some b \<and> (\<forall>c \<in> set (b64_encode E b). is_b64_char c)
        \<and> length b \<le> length (b64_encode E b))"

definition hash_ok :: "ext \<Rightarrow> bool" where
  "hash_ok E \<longleftrightarrow>
     inj (hex_encode E) \<and> (\<forall>b. length (hex_encode E b) = 2 * length b)
     \<and> (\<forall>m. length (sha256 E m) = 32)"

text \<open>RFC 8032 signatures, for every 32-byte seed.\<close>

definition ed_ok :: "ext \<Rightarrow> bool" where
  "ed_ok E \<longleftrightarrow>
     (\<forall>k m. length k = 32 \<longrightarrow>
        length (ed_public E k) = 32 \<and> ed_point_ok E (ed_public E k)
        \<and> length (ed_sign_raw E k m) = 64
        \<and> ed_check E (ed_public E k) m (ed_sign_raw E k m))"

text \<open>A FIPS 204 key pair that works: what \<^verbatim>\<open>try_keygen_with_rng\<close> returns.\<close>

definition pq_pair_ok :: "ext \<Rightarrow> bytes \<Rightarrow> bytes \<Rightarrow> bool" where
  "pq_pair_ok E pk sk \<longleftrightarrow>
     length pk = 1952 \<and> length sk = 4032 \<and> pq_public_ok E pk \<and> pq_secret_ok E sk
     \<and> (\<forall>m. \<exists>s. pq_sign_raw E sk m = Some s \<and> length s = 3309 \<and> pq_check E pk m s)"

definition uuid_ok :: "ext \<Rightarrow> uuid \<Rightarrow> bool" where
  "uuid_ok E u \<longleftrightarrow>
     uuid_parse E u = Some u \<and> length (uuid_bytes E u) = 16
     \<and> length u = 36 \<and> nul \<notin> set u \<and> nl \<notin> set u \<and> CHR '':'' \<notin> set u"

definition uuid_inj :: "ext \<Rightarrow> bool" where
  "uuid_inj E \<longleftrightarrow> (\<forall>u v. uuid_ok E u \<and> uuid_ok E v \<and> uuid_bytes E u = uuid_bytes E v \<longrightarrow> u = v)"

text \<open>
  The years 0 to 9999, for which RFC 3339 text is defined: it parses back, and its time and
  offset hold three colons.
\<close>

definition rfc3339_range :: "datetime \<Rightarrow> bool" where
  "rfc3339_range t \<longleftrightarrow> seconds (- 62167219200) \<le> t \<and> t < seconds 253402300800"

definition rfc3339_ok :: "ext \<Rightarrow> bool" where
  "rfc3339_ok E \<longleftrightarrow>
     (\<forall>t. rfc3339_range t \<longrightarrow>
        rfc3339_parse E (rfc3339 E t) = Some t \<and> count_list (rfc3339 E t) (CHR '':'') = 3)"

text \<open>The serde form of a time, RFC 3339 with a \<^verbatim>\<open>Z\<close>.\<close>

definition dt_serde_ok :: "ext \<Rightarrow> bool" where
  "dt_serde_ok E \<longleftrightarrow> (\<forall>t. rfc3339_range t \<longrightarrow> dt_serde_parse E (dt_serde E t) = Some t)"

lemma b64_okD:
  assumes "b64_ok E"
  shows "b64_decode E (b64_encode E b) = Some b"
    and "c \<in> set (b64_encode E b) \<Longrightarrow> is_b64_char c"
    and "length b \<le> length (b64_encode E b)"
  using assms by (auto simp: b64_ok_def)

lemma b64_fresh [delim_simps]:
  "b64_ok E \<Longrightarrow> \<not> is_b64_char c \<Longrightarrow> c \<notin> set (b64_encode E b)"
  using b64_okD(2) by blast

lemma b64_inj: "b64_ok E \<Longrightarrow> b64_encode E a = b64_encode E b \<longleftrightarrow> a = b"
  by (metis b64_okD(1) option.inject)

lemma is_b64_char_others [simp]:
  "\<not> is_b64_char CHR ''-''" "\<not> is_b64_char nl" "\<not> is_b64_char cr" "\<not> is_b64_char nul"
  "\<not> is_b64_char CHR '':''" "\<not> is_b64_char dquote" "\<not> is_b64_char CHR '' ''"
  by (simp_all add: is_b64_char_def)

lemma b64_not_space: "is_b64_char c \<Longrightarrow> \<not> is_space c"
  by (auto simp: is_b64_char_def is_space_def)

lemma ed_okD:
  assumes "ed_ok E" and "length k = 32"
  shows "length (ed_public E k) = 32" "ed_point_ok E (ed_public E k)"
    "length (ed_sign_raw E k m) = 64" "ed_check E (ed_public E k) m (ed_sign_raw E k m)"
  using assms by (auto simp: ed_ok_def)

lemma hash_okD:
  assumes "hash_ok E"
  shows "hex_encode E a = hex_encode E b \<longleftrightarrow> a = b"
    "length (hex_encode E b) = 2 * length b" "length (sha256 E m) = 32"
  using assms by (auto simp: hash_ok_def inj_eq)

lemma rfc3339_okD:
  assumes "rfc3339_ok E" and "rfc3339_range t"
  shows "rfc3339_parse E (rfc3339 E t) = Some t" "count_list (rfc3339 E t) (CHR '':'') = 3"
  using assms by (auto simp: rfc3339_ok_def)

lemma rfc3339_inj:
  "rfc3339_ok E \<Longrightarrow> rfc3339_range t \<Longrightarrow> rfc3339_range u \<Longrightarrow> rfc3339 E t = rfc3339 E u \<Longrightarrow> t = u"
  by (metis option.inject rfc3339_okD(1))

lemma dt_serde_inj:
  "dt_serde_ok E \<Longrightarrow> rfc3339_range t \<Longrightarrow> rfc3339_range u \<Longrightarrow> dt_serde E t = dt_serde E u \<Longrightarrow> t = u"
  by (metis dt_serde_ok_def option.inject)

subsection \<open>A reference instance\<close>

text \<open>
  A small instance of the parameters that satisfies the predicates above.  It serves the
  witnesses only: nibble encoding for base64 and hex, a checksum for the hash, and signatures
  that repeat the public key and a checksum of the message.
\<close>

definition nibbles :: "bytes \<Rightarrow> string" where
  "nibbles b = concat (map (\<lambda>c. [char_of (97 + (of_char c :: nat) div 16),
                                  char_of (97 + (of_char c :: nat) mod 16)]) b)"

fun unnibbles :: "string \<Rightarrow> bytes option" where
  "unnibbles [] = Some []"
| "unnibbles [c] = None"
| "unnibbles (c # d # s) =
     map_option (\<lambda>r. char_of (((of_char c :: nat) - 97) * 16 + ((of_char d :: nat) - 97)) # r)
       (unnibbles s)"

definition pad :: "nat \<Rightarrow> bytes \<Rightarrow> bytes" where
  "pad n b = take n (b @ replicate n CHR ''.'')"

definition ref_dt :: "datetime \<Rightarrow> string" where
  "ref_dt t = '':::'' @ int_str t"

definition ref_dt_parse :: "string \<Rightarrow> datetime option" where
  "ref_dt_parse s =
     (case drop 3 s of
        [] \<Rightarrow> None
      | c # r \<Rightarrow> (if c = CHR ''-'' then map_option (\<lambda>n. - int n) (parse_nat r)
                   else map_option int (parse_nat (c # r))))"

definition ref_esc :: "char \<Rightarrow> string" where
  "ref_esc c = (if c = dquote \<or> c = CHR 0x5C then [CHR 0x5C, c] else [c])"

definition ref_quote :: "string \<Rightarrow> string" where
  "ref_quote s = dquote # concat (map ref_esc s) @ [dquote]"

definition ref_ext :: ext where
  "ref_ext = \<lparr>
     b64_encode = nibbles, b64_decode = unnibbles, hex_encode = nibbles,
     sha256 = (\<lambda>m. pad 32 (rev m)),
     ed_public = (\<lambda>k. k), ed_sign_raw = (\<lambda>k m. k @ pad 32 (rev m)),
     ed_point_ok = (\<lambda>_. True), ed_check = (\<lambda>p m s. s = p @ pad 32 (rev m)),
     pq_secret_ok = (\<lambda>_. True), pq_sign_raw = (\<lambda>k m. Some (pad 3309 (take 1 k @ m))),
     pq_public_ok = (\<lambda>_. True), pq_check = (\<lambda>p m s. s = pad 3309 (take 1 p @ m)),
     uuid_bytes = take 16, uuid_parse = (\<lambda>s. if length s = 36 \<and> drop 16 s = replicate 20 (hd s) then Some s else None),
     rfc3339 = ref_dt, rfc3339_parse = ref_dt_parse,
     dt_in_range = (\<lambda>t. \<bar>t\<bar> < 8000000000000000000000), dt_display = int_str,
     str_debug = (\<lambda>s. dquote # s @ [dquote]),
     url_parse = (\<lambda>s. Some \<lparr>url_scheme = ''http'', url_host = Some ''example.com'', url_port = None,
                            url_path = ''/'', url_query = None\<rparr>),
     json_quote = ref_quote, json_parse = (\<lambda>_. None), dt_serde = ref_dt, dt_serde_parse = ref_dt_parse\<rparr>"

lemma length_pad [simp]: "length (pad n b) = n"
  by (simp add: pad_def)

lemma of_char_less: "(of_char (c :: char) :: nat) < 256"
  by (rule of_char_mod_256 [THEN subst]) simp

lemma unnibbles_nibbles: "unnibbles (nibbles b) = Some b"
proof (induction b)
  case (Cons c b)
  have c: "(of_char c :: nat) < 256" by (rule of_char_less)
  then have "(of_char c :: nat) div 16 < 16" by (intro less_mult_imp_div_less) simp
  then have "(of_char (char_of (97 + (of_char c :: nat) div 16) :: char) :: nat) - 97 = of_char c div 16"
    and "(of_char (char_of (97 + (of_char c :: nat) mod 16) :: char) :: nat) - 97 = of_char c mod 16"
    by simp_all
  then show ?case using Cons by (simp add: nibbles_def)
qed (simp add: nibbles_def)

lemma nibbles_b64: "c \<in> set (nibbles b) \<Longrightarrow> is_b64_char c"
proof (induction b)
  case (Cons a b)
  have "(of_char a :: nat) div 16 < 16" using of_char_less [of a] by (intro less_mult_imp_div_less) simp
  then show ?case using Cons by (auto simp: nibbles_def is_b64_char_def)
qed (simp add: nibbles_def)

lemma length_nibbles [simp]: "length (nibbles b) = 2 * length b"
  by (induction b) (auto simp: nibbles_def)

lemma ref_b64_ok [simp]: "b64_ok ref_ext"
  using nibbles_b64 by (simp add: b64_ok_def ref_ext_def unnibbles_nibbles)

lemma ref_hash_ok [simp]: "hash_ok ref_ext"
  by (auto simp: hash_ok_def ref_ext_def inj_def) (metis option.inject unnibbles_nibbles)

lemma ref_ed_ok [simp]: "ed_ok ref_ext"
  by (simp add: ed_ok_def ref_ext_def)

lemma ref_pq_pair_ok [simp]: "pq_pair_ok ref_ext (replicate 1952 c) (replicate 4032 c)"
  by (simp add: pq_pair_ok_def ref_ext_def)

lemma ref_uuid_ok [simp]: "c \<notin> {nul, nl, CHR '':''} \<Longrightarrow> uuid_ok ref_ext (replicate 36 c)"
  by (auto simp: uuid_ok_def ref_ext_def)

lemma ref_uuid_inj [simp]: "uuid_inj ref_ext"
proof -
  have "u = v" if "take 16 u = take 16 v" "length u = 36" "length v = 36"
    "drop 16 u = replicate 20 (hd u)" "drop 16 v = replicate 20 (hd v)" for u v :: string
  proof -
    have "hd u = hd (take 16 u)" "hd v = hd (take 16 v)" using that by (cases u; cases v; simp)+
    then show ?thesis using that by (metis append_take_drop_id)
  qed
  then show ?thesis by (auto simp: uuid_inj_def uuid_ok_def ref_ext_def split: if_splits)
qed

lemma ref_dt_roundtrip: "ref_dt_parse (ref_dt t) = Some t"
proof (cases "t < 0")
  case False
  obtain c r where s: "nat_str (nat t) = c # r" by (cases "nat_str (nat t)") auto
  with nat_str_digits [of "nat t"] have "c \<noteq> CHR ''-''" by auto
  with s False parse_nat_str [of "nat t"] show ?thesis
    by (simp add: ref_dt_def ref_dt_parse_def int_str_def)
qed (simp add: ref_dt_def ref_dt_parse_def int_str_def)

lemma ref_rfc3339_ok [simp]: "rfc3339_ok ref_ext"
proof -
  have "count_list (ref_dt t) (CHR '':'') = 3" for t
    using int_str_fresh [of "CHR '':''" t] by (simp add: ref_dt_def is_digit_def count_list_0_iff)
  then show ?thesis by (simp add: rfc3339_ok_def ref_ext_def ref_dt_roundtrip)
qed

lemma ref_dt_serde_ok [simp]: "dt_serde_ok ref_ext"
  by (simp add: dt_serde_ok_def ref_ext_def ref_dt_roundtrip)

lemma ref_esc_prefix:
  "concat (map ref_esc s) @ dquote # r = concat (map ref_esc t) @ dquote # u \<Longrightarrow> s = t \<and> r = u"
proof (induction s arbitrary: t)
  case Nil
  then show ?case by (cases t) (auto simp: ref_esc_def split: if_splits)
next
  case (Cons c s)
  then show ?case by (cases t) (auto simp: ref_esc_def split: if_splits)
qed

lemma ref_quote_ok [simp]: "quote_ok (json_quote ref_ext)"
proof -
  have "s = t \<and> r = u" if "ref_quote s @ r = ref_quote t @ u" for s r t u
    using that by (intro ref_esc_prefix) (simp add: ref_quote_def)
  moreover have "ref_quote s \<noteq> [] \<and> hd (ref_quote s) = dquote" for s by (simp add: ref_quote_def)
  moreover have "json_quote ref_ext = ref_quote" by (simp add: ref_ext_def)
  ultimately show ?thesis unfolding quote_ok_def by metis
qed

end
