(* ===== verification/Crypto.thy ===== *)
theory Crypto
  imports External
begin

text \<open>
  \<^verbatim>\<open>grokingclawid-core/src/crypto.rs\<close>: Ed25519 and ML-DSA-65 signing and verification over base64 text,
  the PEM-like key files (single and hybrid), the hybrid signature of which both halves must
  validate, and the hash of the audit chain.
\<close>

subsection \<open>Ed25519\<close>

definition generate_keypair :: "ext \<Rightarrow> bytes \<Rightarrow> bytes \<times> bytes" where
  "generate_keypair E seed = (seed, ed_public E seed)"

definition sign :: "ext \<Rightarrow> bytes \<Rightarrow> bytes \<Rightarrow> string" where
  "sign E signing_key message = b64_encode E (ed_sign_raw E signing_key message)"

definition verify :: "ext \<Rightarrow> string \<Rightarrow> bytes \<Rightarrow> string \<Rightarrow> bool result" where
  "verify E public_key_b64 message signature_b64 =
     bind_res (of_option (BadBase64 ''public key'') (b64_decode E public_key_b64)) (\<lambda>pub_bytes.
     bind_res (of_option (BadBase64 ''signature'') (b64_decode E signature_b64)) (\<lambda>sig_bytes.
     bind_res (require (length pub_bytes = 32) BadKeyLength) (\<lambda>_.
     bind_res (require (length sig_bytes = 64) BadSignatureLength) (\<lambda>_.
     bind_res (require (ed_point_ok E pub_bytes) BadPublicKey) (\<lambda>_.
     Inr (ed_check E pub_bytes message sig_bytes))))))"

definition encode_public_key :: "ext \<Rightarrow> bytes \<Rightarrow> string" where
  "encode_public_key E key = b64_encode E key"

definition ed_begin :: string where
  "ed_begin = ''-----BEGIN ED25519 PRIVATE KEY-----''"

definition ed_end :: string where
  "ed_end = ''-----END ED25519 PRIVATE KEY-----''"

definition encode_private_key_pem :: "ext \<Rightarrow> bytes \<Rightarrow> string" where
  "encode_private_key_pem E key = ed_begin @ nl # b64_encode E key @ nl # ed_end @ [nl]"

text \<open>The lines of a PEM text that are not markers, joined.\<close>

definition pem_body :: "string \<Rightarrow> string" where
  "pem_body pem = join [] (filter (\<lambda>line. \<not> starts_with line ''-----'') (str_lines pem))"

definition decode_private_key_pem :: "ext \<Rightarrow> string \<Rightarrow> bytes result" where
  "decode_private_key_pem E pem =
     bind_res (of_option (BadBase64 ''private key'') (b64_decode E (trim (pem_body pem)))) (\<lambda>bytes.
     bind_res (require (length bytes = 32) BadKeyLength) (\<lambda>_. Inr bytes))"

subsection \<open>ML-DSA-65\<close>

record mldsa_key_pair =
  public_key_bytes :: bytes
  secret_key_bytes :: bytes

text \<open>The generated pair, or the failure of the generator, is the argument.\<close>

definition generate_mldsa_keypair :: "(bytes \<times> bytes) option \<Rightarrow> mldsa_key_pair result" where
  "generate_mldsa_keypair keygen =
     bind_res (of_option SigningFailed keygen) (\<lambda>(pk, sk).
     Inr \<lparr>public_key_bytes = pk, secret_key_bytes = sk\<rparr>)"

definition mldsa_sign :: "ext \<Rightarrow> bytes \<Rightarrow> bytes \<Rightarrow> string result" where
  "mldsa_sign E secret_key message =
     bind_res (require (length secret_key = 4032) BadKeyLength) (\<lambda>_.
     bind_res (require (pq_secret_ok E secret_key) BadSecretKey) (\<lambda>_.
     bind_res (of_option SigningFailed (pq_sign_raw E secret_key message)) (\<lambda>sig.
     Inr (b64_encode E sig))))"

definition mldsa_verify :: "ext \<Rightarrow> string \<Rightarrow> bytes \<Rightarrow> string \<Rightarrow> bool result" where
  "mldsa_verify E public_key_b64 message signature_b64 =
     bind_res (of_option (BadBase64 ''ML-DSA public key'') (b64_decode E public_key_b64)) (\<lambda>pk_bytes.
     bind_res (of_option (BadBase64 ''ML-DSA signature'') (b64_decode E signature_b64)) (\<lambda>sig_bytes.
     bind_res (require (length pk_bytes = 1952) BadKeyLength) (\<lambda>_.
     bind_res (require (pq_public_ok E pk_bytes) BadPublicKey) (\<lambda>_.
     bind_res (require (length sig_bytes = 3309) BadSignatureLength) (\<lambda>_.
     Inr (pq_check E pk_bytes message sig_bytes))))))"

definition encode_mldsa_public_key :: "ext \<Rightarrow> bytes \<Rightarrow> string" where
  "encode_mldsa_public_key E key = b64_encode E key"

definition mldsa_begin :: string where
  "mldsa_begin = ''-----BEGIN ML-DSA-65 PRIVATE KEY-----''"

definition mldsa_end :: string where
  "mldsa_end = ''-----END ML-DSA-65 PRIVATE KEY-----''"

definition encode_mldsa_private_key_pem :: "ext \<Rightarrow> bytes \<Rightarrow> string" where
  "encode_mldsa_private_key_pem E key =
     mldsa_begin @ nl # join [nl] (chunks 64 (b64_encode E key)) @ nl # mldsa_end @ [nl]"

definition decode_mldsa_private_key_pem :: "ext \<Rightarrow> string \<Rightarrow> bytes result" where
  "decode_mldsa_private_key_pem E pem =
     of_option (BadBase64 ''ML-DSA-65 private key'') (b64_decode E (trim (pem_body pem)))"

subsection \<open>Hybrid keys and signatures\<close>

record hybrid_signature =
  hs_ed25519 :: string
  hs_mldsa65 :: string

record hybrid_key_pair =
  ed25519_signing :: bytes
  ed25519_verifying :: bytes
  mldsa_public :: bytes
  mldsa_secret :: bytes

definition generate_hybrid_keypair :: "ext \<Rightarrow> bytes \<Rightarrow> (bytes \<times> bytes) option \<Rightarrow> hybrid_key_pair result" where
  "generate_hybrid_keypair E seed keygen =
     (let (ed_sk, ed_vk) = generate_keypair E seed in
      bind_res (generate_mldsa_keypair keygen) (\<lambda>mldsa.
      Inr \<lparr>ed25519_signing = ed_sk, ed25519_verifying = ed_vk,
           mldsa_public = public_key_bytes mldsa, mldsa_secret = secret_key_bytes mldsa\<rparr>))"

definition hybrid_sign :: "ext \<Rightarrow> bytes \<Rightarrow> bytes \<Rightarrow> bytes \<Rightarrow> hybrid_signature result" where
  "hybrid_sign E ed_signing_key mldsa_secret_key message =
     (let ed25519_sig = sign E ed_signing_key message in
      bind_res (mldsa_sign E mldsa_secret_key message) (\<lambda>mldsa_sig.
      Inr \<lparr>hs_ed25519 = ed25519_sig, hs_mldsa65 = mldsa_sig\<rparr>))"

definition hybrid_verify :: "ext \<Rightarrow> string \<Rightarrow> string \<Rightarrow> bytes \<Rightarrow> hybrid_signature \<Rightarrow> bool result" where
  "hybrid_verify E ed_public_key_b64 mldsa_public_key_b64 message sig =
     bind_res (verify E ed_public_key_b64 message (hs_ed25519 sig)) (\<lambda>ed_ok.
     if \<not> ed_ok then Inr False
     else mldsa_verify E mldsa_public_key_b64 message (hs_mldsa65 sig))"

definition encode_hybrid_private_key_pem :: "ext \<Rightarrow> bytes \<Rightarrow> bytes \<Rightarrow> string" where
  "encode_hybrid_private_key_pem E ed_key mldsa_key =
     encode_private_key_pem E ed_key @ nl # encode_mldsa_private_key_pem E mldsa_key"

text \<open>A slice of the PEM text panics when its end marker precedes its begin marker.\<close>

definition decode_hybrid_private_key_pem :: "ext \<Rightarrow> string \<Rightarrow> (bytes \<times> bytes) result" where
  "decode_hybrid_private_key_pem E pem =
     bind_res (of_option (MissingPemSection ''Ed25519'') (find_str pem ed_begin)) (\<lambda>ed_start.
     bind_res (of_option (MissingPemSection ''Ed25519 end'') (find_str pem ed_end)) (\<lambda>e.
     bind_res (of_option (Panic ''slice'') (slice pem ed_start (e + length ed_end))) (\<lambda>ed_section.
     bind_res (of_option (MissingPemSection ''ML-DSA-65'') (find_str pem mldsa_begin)) (\<lambda>mldsa_start.
     bind_res (of_option (MissingPemSection ''ML-DSA-65 end'') (find_str pem mldsa_end)) (\<lambda>m.
     bind_res (of_option (Panic ''slice'') (slice pem mldsa_start (m + length mldsa_end))) (\<lambda>mldsa_section.
     bind_res (decode_private_key_pem E ed_section) (\<lambda>ed_key.
     bind_res (decode_mldsa_private_key_pem E mldsa_section) (\<lambda>mldsa_key.
     Inr (ed_key, mldsa_key)))))))))"

subsection \<open>Hashing\<close>

definition sha256_hex :: "ext \<Rightarrow> bytes \<Rightarrow> string" where
  "sha256_hex E data = hex_encode E (sha256 E data)"

definition chain_input :: "string \<Rightarrow> string \<Rightarrow> string \<Rightarrow> string \<Rightarrow> int \<Rightarrow> string" where
  "chain_input prev_hash agent_id action target ts =
     prev_hash @ nul # agent_id @ nul # action @ nul # target @ nul # int_str ts"

definition compute_chain_hash :: "ext \<Rightarrow> string \<Rightarrow> string \<Rightarrow> string \<Rightarrow> string \<Rightarrow> int \<Rightarrow> string" where
  "compute_chain_hash E prev_hash agent_id action target ts =
     sha256_hex E (chain_input prev_hash agent_id action target ts)"

subsection \<open>Signing and verifying agree\<close>

lemma verify_sign: "b64_ok E \<Longrightarrow> ed_ok E \<Longrightarrow> length k = 32 \<Longrightarrow>
    verify E (encode_public_key E (ed_public E k)) m (sign E k m) = Inr True"
  by (simp add: verify_def sign_def encode_public_key_def b64_okD(1) ed_okD)

lemma verify_on_sign: "b64_ok E \<Longrightarrow> ed_ok E \<Longrightarrow> length k = 32 \<Longrightarrow>
    verify E (encode_public_key E (ed_public E k)) m' (sign E k m)
      = Inr (ed_check E (ed_public E k) m' (ed_sign_raw E k m))"
  by (simp add: verify_def sign_def encode_public_key_def b64_okD(1) ed_okD)

lemma mldsa_verify_sign:
  assumes "b64_ok E" and "pq_pair_ok E pk sk"
  shows "\<exists>s. mldsa_sign E sk m = Inr s \<and> mldsa_verify E (encode_mldsa_public_key E pk) m s = Inr True"
proof -
  from assms(2) obtain s where "pq_sign_raw E sk m = Some s" "length s = 3309" "pq_check E pk m s"
    by (auto simp: pq_pair_ok_def)
  then show ?thesis using assms
    by (auto simp: mldsa_sign_def mldsa_verify_def encode_mldsa_public_key_def pq_pair_ok_def b64_okD(1))
qed

lemma hybrid_verify_iff:
  "hybrid_verify E ed pq m s = Inr True \<longleftrightarrow>
     verify E ed m (hs_ed25519 s) = Inr True \<and> mldsa_verify E pq m (hs_mldsa65 s) = Inr True"
  by (auto simp: hybrid_verify_def bind_res_Inr_iff)

abbreviation ed_good :: "ext \<Rightarrow> bytes \<Rightarrow> bool" where
  "ed_good E k \<equiv> b64_ok E \<and> ed_ok E \<and> length k = 32"

interpretation ed: signature_scheme "ed_good E" "\<lambda>k. encode_public_key E (ed_public E k)"
    "\<lambda>k m. Inr (sign E k m)" "verify E" for E
  by unfold_locales (simp add: verify_sign)

interpretation pq: signature_scheme "\<lambda>(pk, sk). b64_ok E \<and> pq_pair_ok E pk sk"
    "\<lambda>(pk, sk). encode_mldsa_public_key E pk" "\<lambda>(pk, sk). mldsa_sign E sk" "mldsa_verify E" for E
  by unfold_locales (auto simp: mldsa_verify_sign)

interpretation hyb: signature_scheme "\<lambda>(k, pk, sk). ed_good E k \<and> pq_pair_ok E pk sk"
    "\<lambda>(k, pk, sk). (encode_public_key E (ed_public E k), encode_mldsa_public_key E pk)"
    "\<lambda>(k, pk, sk). hybrid_sign E k sk" "\<lambda>(ed, pq). hybrid_verify E ed pq" for E
proof
  fix key m
  assume good: "case key of (k, pk, sk) \<Rightarrow> ed_good E k \<and> pq_pair_ok E pk sk"
  obtain k pk sk where key: "key = (k, pk, sk)" by (cases key)
  with good obtain s where "mldsa_sign E sk m = Inr s"
    "mldsa_verify E (encode_mldsa_public_key E pk) m s = Inr True"
    using mldsa_verify_sign by blast
  then show "\<exists>s. (case key of (k, pk, sk) \<Rightarrow> hybrid_sign E k sk) m = Inr s \<and>
        (case case key of (k, pk, sk) \<Rightarrow> (encode_public_key E (ed_public E k), encode_mldsa_public_key E pk) of
         (ed, pq) \<Rightarrow> hybrid_verify E ed pq) m s = Inr True"
    using key good by (simp add: hybrid_sign_def hybrid_verify_iff verify_sign)
qed

subsection \<open>Key files round trip\<close>

text \<open>A PEM text whose body lines hold no line break and do not look like markers.\<close>

lemma split_on_join_append:
  "ws \<noteq> [] \<Longrightarrow> \<forall>w \<in> set ws. c \<notin> set w \<Longrightarrow> split_on c (join [c] ws @ c # r) = ws @ split_on c r"
  by (induction "[c]" ws rule: join.induct) (auto simp: split_on_append)

lemma strip_cr_id: "cr \<notin> set l \<Longrightarrow> strip_cr l = l"
  by (auto simp: strip_cr_def) (metis last_in_set)

lemma pem_body_lines:
  assumes "ls \<noteq> []" and ls: "\<forall>l \<in> set ls. nl \<notin> set l \<and> cr \<notin> set l \<and> CHR ''-'' \<notin> set l"
    and b: "nl \<notin> set b" "cr \<notin> set b" "starts_with b ''-----''"
    and e: "nl \<notin> set e" "cr \<notin> set e" "starts_with e ''-----''" "e \<noteq> []"
    and rest: "rest = [] \<or> rest = [nl]"
  shows "pem_body (b @ nl # join [nl] ls @ nl # e @ rest) = concat ls"
proof -
  have "split_on nl (join [nl] ls @ nl # e @ rest) = ls @ split_on nl (e @ rest)"
    using assms by (intro split_on_join_append) auto
  then have "split_on nl (b @ nl # join [nl] ls @ nl # e @ rest) = b # ls @ split_on nl (e @ rest)"
    using b by (simp add: split_on_append)
  moreover have "split_on nl (e @ rest) = (if rest = [] then [e] else [e, []])"
    using e rest by (auto simp: split_on_fresh split_on_append)
  moreover have "map strip_cr ls = ls" "strip_cr b = b" "strip_cr e = e"
    using ls b e by (auto intro!: map_idI strip_cr_id)
  ultimately have "str_lines (b @ nl # join [nl] ls @ nl # e @ rest) = b # ls @ [e]"
    using rest e \<open>ls \<noteq> []\<close> by (auto simp: str_lines_def Let_def butlast_append)
  moreover have "filter (\<lambda>line. \<not> starts_with line ''-----'') ls = ls"
  proof (rule filter_True, rule ballI)
    fix l assume "l \<in> set ls"
    with ls have "CHR ''-'' \<notin> set l" by blast
    then show "\<not> starts_with l ''-----''" by (cases l) auto
  qed
  ultimately show ?thesis using b e by (simp add: pem_body_def)
qed

lemma marker_facts:
  "nl \<notin> set ed_begin" "cr \<notin> set ed_begin" "starts_with ed_begin ''-----''"
  "nl \<notin> set ed_end" "cr \<notin> set ed_end" "starts_with ed_end ''-----''" "ed_end \<noteq> []"
  "nl \<notin> set mldsa_begin" "cr \<notin> set mldsa_begin" "starts_with mldsa_begin ''-----''"
  "nl \<notin> set mldsa_end" "cr \<notin> set mldsa_end" "starts_with mldsa_end ''-----''" "mldsa_end \<noteq> []"
  by (simp_all add: ed_begin_def ed_end_def mldsa_begin_def mldsa_end_def)

lemma trim_b64: "b64_ok E \<Longrightarrow> trim (b64_encode E x) = b64_encode E x"
  using b64_okD(2) b64_not_space by (intro trim_id_all) blast

lemma ed_pem_body:
  assumes "b64_ok E" and "rest = [] \<or> rest = [nl]"
  shows "pem_body (ed_begin @ nl # b64_encode E k @ nl # ed_end @ rest) = b64_encode E k"
  using pem_body_lines [of "[b64_encode E k]" ed_begin ed_end rest] assms marker_facts
  by (simp add: b64_fresh)

definition pem_lines :: "string \<Rightarrow> string list" where
  "pem_lines b = (if b = [] then [[]] else chunks 64 b)"

lemma join_pem_lines: "join [nl] (chunks 64 b) = join [nl] (pem_lines b)"
  by (simp add: pem_lines_def)

lemma mldsa_pem_body:
  assumes "b64_ok E" and "rest = [] \<or> rest = [nl]"
  shows "pem_body (mldsa_begin @ nl # join [nl] (chunks 64 (b64_encode E k)) @ nl # mldsa_end @ rest)
           = b64_encode E k"
proof -
  let ?b = "b64_encode E k"
  have "\<forall>l \<in> set (pem_lines ?b). set l \<subseteq> set ?b"
    using set_chunks by (auto simp: pem_lines_def split: if_splits)
  then have fresh: "\<forall>l \<in> set (pem_lines ?b). nl \<notin> set l \<and> cr \<notin> set l \<and> CHR ''-'' \<notin> set l"
    using assms(1) by (meson b64_fresh is_b64_char_others(1-3) subsetD)
  have "pem_lines ?b \<noteq> []" "concat (pem_lines ?b) = ?b"
    by (simp_all add: pem_lines_def concat_chunks)
  then show ?thesis
    using pem_body_lines [OF _ fresh marker_facts(8-14) assms(2)] by (simp add: join_pem_lines)
qed

lemma decode_ed_section:
  assumes "b64_ok E" "length k = 32" "rest = [] \<or> rest = [nl]"
  shows "decode_private_key_pem E (ed_begin @ nl # b64_encode E k @ nl # ed_end @ rest) = Inr k"
  using assms by (simp add: decode_private_key_pem_def ed_pem_body trim_b64 b64_okD(1))

lemma decode_mldsa_section:
  assumes "b64_ok E" "rest = [] \<or> rest = [nl]"
  shows "decode_mldsa_private_key_pem E
     (mldsa_begin @ nl # join [nl] (chunks 64 (b64_encode E k)) @ nl # mldsa_end @ rest) = Inr k"
  using assms by (simp add: decode_mldsa_private_key_pem_def mldsa_pem_body trim_b64 b64_okD(1))

lemma slice_middle: "slice (a @ s @ r) (length a) (length a + length s) = Some s"
  by (simp add: slice_def)

lemma find_ed_markers:
  assumes "CHR ''-'' \<notin> set body"
  shows "find_str (ed_begin @ nl # body @ nl # ed_end @ r) ed_begin = Some 0"
    and "find_str (ed_begin @ nl # body @ nl # ed_end @ r) ed_end
           = Some (length (ed_begin @ nl # body @ [nl]))"
    and "find_str (ed_begin @ nl # body @ nl # ed_end @ nl # nl # mldsa_begin @ r) mldsa_begin
           = Some (length (ed_begin @ nl # body @ nl # ed_end @ [nl, nl]))"
  using find_str_skip_fresh [OF assms]
  by (simp_all add: ed_begin_def ed_end_def mldsa_begin_def)

lemma find_mldsa_end:
  assumes "CHR ''-'' \<notin> set body" and "CHR ''-'' \<notin> set body2"
  shows "find_str (ed_begin @ nl # body @ nl # ed_end @ nl # nl # mldsa_begin @ nl # body2 @ nl # mldsa_end @ r) mldsa_end
           = Some (length (ed_begin @ nl # body @ nl # ed_end @ nl # nl # mldsa_begin @ nl # body2 @ [nl]))"
  using find_str_skip_fresh [OF assms(1)] find_str_skip_fresh [OF assms(2)]
  by (simp add: ed_begin_def ed_end_def mldsa_begin_def mldsa_end_def)

lemma hybrid_pem_decode_encode:
  assumes "b64_ok E" and "length k = 32"
  shows "decode_hybrid_private_key_pem E (encode_hybrid_private_key_pem E k sk) = Inr (k, sk)"
proof -
  let ?b = "b64_encode E k" and ?c = "join [nl] (chunks 64 (b64_encode E sk))"
  let ?ed = "ed_begin @ nl # ?b @ nl # ed_end"
  let ?ml = "mldsa_begin @ nl # ?c @ nl # mldsa_end"
  let ?pem = "?ed @ nl # nl # ?ml @ [nl]"
  have pem: "encode_hybrid_private_key_pem E k sk = ?pem"
    by (simp add: encode_hybrid_private_key_pem_def encode_private_key_pem_def
        encode_mldsa_private_key_pem_def)
  have b: "CHR ''-'' \<notin> set ?b" using assms by (simp add: b64_fresh)
  have "CHR ''-'' \<notin> set l" if "l \<in> set (chunks 64 (b64_encode E sk))" for l
    using set_chunks [OF that] assms by (meson b64_fresh is_b64_char_others(1) subsetD)
  then have c: "CHR ''-'' \<notin> set ?c" using set_join by fastforce
  have "slice ?pem 0 (length (ed_begin @ nl # ?b @ [nl]) + length ed_end) = Some ?ed"
    using slice_middle [of "[]" ?ed "nl # nl # ?ml @ [nl]"] by (simp add: add.assoc)
  moreover have "slice ?pem (length (?ed @ [nl, nl]))
      (length (?ed @ nl # nl # mldsa_begin @ nl # ?c @ [nl]) + length mldsa_end) = Some ?ml"
    using slice_middle [of "?ed @ [nl, nl]" ?ml "[nl]"] by (simp add: add.assoc)
  ultimately show ?thesis
    unfolding pem decode_hybrid_private_key_pem_def
    using find_ed_markers [OF b] find_mldsa_end [OF b c] decode_ed_section [OF assms, of "[]"]
      decode_mldsa_section [OF assms(1), of "[]" sk]
    by simp
qed

subsection \<open>The input of the chain hash\<close>

definition nul_free :: "string \<Rightarrow> bool" where
  "nul_free s \<longleftrightarrow> nul \<notin> set s"

lemma chain_input_inj:
  assumes "chain_input p a c t n = chain_input p' a' c' t' n'"
    and "\<forall>s \<in> {p, a, c, t, p', a', c', t'}. nul_free s"
  shows "p = p' \<and> a = a' \<and> c = c' \<and> t = t' \<and> n = n'"
  using assms by (auto simp: chain_input_def nul_free_def dest!: delim_inj)

interpretation chain: canonical_payload "\<lambda>(p, a, c, t, n). nul_free p \<and> nul_free a \<and> nul_free c \<and> nul_free t"
    "\<lambda>(p, a, c, t, n). chain_input p a c t n" "\<lambda>x. x"
  by unfold_locales (auto dest!: chain_input_inj)

subsection \<open>Properties\<close>

text \<open>
  Every key file the program writes is read back: the Ed25519 PEM text gives the 32-byte
  key, the ML-DSA-65 text (wrapped at 64 columns) gives the secret key, and the concatenation
  of both, which the hybrid decoder takes apart by searching for its markers, gives the pair.
\<close>

theorem key_pem_roundtrip:
  assumes "b64_ok E" and "length k = 32"
  shows "decode_private_key_pem E (encode_private_key_pem E k) = Inr k
    \<and> decode_mldsa_private_key_pem E (encode_mldsa_private_key_pem E sk) = Inr sk
    \<and> decode_hybrid_private_key_pem E (encode_hybrid_private_key_pem E k sk) = Inr (k, sk)"
  using hybrid_pem_decode_encode [OF assms] decode_ed_section [OF assms, of "[nl]"]
    decode_mldsa_section [OF assms(1), of "[nl]" sk]
  by (simp add: encode_private_key_pem_def encode_mldsa_private_key_pem_def)

theorem key_pem_roundtrip_witness:
  "decode_hybrid_private_key_pem ref_ext
     (encode_hybrid_private_key_pem ref_ext (replicate 32 CHR ''k'') (replicate 4032 CHR ''s''))
   = Inr (replicate 32 CHR ''k'', replicate 4032 CHR ''s'')"
  using key_pem_roundtrip [of ref_ext "replicate 32 CHR ''k''" "replicate 4032 CHR ''s''"] by simp

text \<open>
  A hybrid signature made with working keys verifies, and the verifier accepts only when
  both halves are valid: with either half replaced by one its own scheme does not accept, the
  hybrid verification does not answer true.
\<close>

theorem hybrid_both_halves:
  assumes "b64_ok E" and "ed_ok E" and "length k = 32" and "pq_pair_ok E pk sk"
  shows "\<exists>s. hybrid_sign E k sk m = Inr s
    \<and> hybrid_verify E (encode_public_key E (ed_public E k)) (encode_mldsa_public_key E pk) m s = Inr True
    \<and> (\<forall>e. verify E (encode_public_key E (ed_public E k)) m e \<noteq> Inr True \<longrightarrow>
         hybrid_verify E (encode_public_key E (ed_public E k)) (encode_mldsa_public_key E pk) m
           (s\<lparr>hs_ed25519 := e\<rparr>) \<noteq> Inr True)
    \<and> (\<forall>q. mldsa_verify E (encode_mldsa_public_key E pk) m q \<noteq> Inr True \<longrightarrow>
         hybrid_verify E (encode_public_key E (ed_public E k)) (encode_mldsa_public_key E pk) m
           (s\<lparr>hs_mldsa65 := q\<rparr>) \<noteq> Inr True)"
  using hyb.complete [of E "(k, pk, sk)" m] assms by (auto simp: hybrid_verify_iff)

theorem hybrid_both_halves_witness:
  "\<exists>s. hybrid_sign ref_ext (replicate 32 CHR ''k'') (replicate 4032 CHR ''s'') ''m'' = Inr s"
  using hybrid_both_halves [of ref_ext "replicate 32 CHR ''k''" "replicate 1952 CHR ''s''"
      "replicate 4032 CHR ''s''" "''m''"]
  by simp blast

text \<open>
  The chain hash commits to every field.  Two entries with NUL-free fields and the same
  chain hash are the same entry, or their two hash inputs are an explicit SHA-256 collision.
\<close>

theorem chain_hash_binding:
  assumes "hash_ok E"
    and "\<forall>s \<in> {p, a, c, t, p', a', c', t'}. nul_free s"
    and "compute_chain_hash E p a c t n = compute_chain_hash E p' a' c' t' n'"
  shows "(p, a, c, t, n) = (p', a', c', t', n')
    \<or> (chain_input p a c t n \<noteq> chain_input p' a' c' t' n'
        \<and> sha256 E (chain_input p a c t n) = sha256 E (chain_input p' a' c' t' n'))"
  using assms chain.payload_inj [of "(p, a, c, t, n)" "(p', a', c', t', n')"]
  by (auto simp: compute_chain_hash_def sha256_hex_def hash_okD(1))

theorem chain_hash_binding_witness:
  "(''p'', ''a'', ''c'', ''t'', 7) = (''p'', ''a'', ''c'', ''t'', 7 :: int)
    \<or> (chain_input ''p'' ''a'' ''c'' ''t'' 7 \<noteq> chain_input ''p'' ''a'' ''c'' ''t'' 7
        \<and> sha256 ref_ext (chain_input ''p'' ''a'' ''c'' ''t'' 7)
          = sha256 ref_ext (chain_input ''p'' ''a'' ''c'' ''t'' 7))"
  by (rule chain_hash_binding) (simp_all add: nul_free_def)

end
