(* ===== verification/Models.thy ===== *)
theory Models
  imports Crypto
begin

text \<open>
  \<^verbatim>\<open>grokingclawid-core/src/models.rs\<close>: the identity card and its enumerations, the delegation token,
  the audit entry, the A2A export and the SPIFFE identifier.  Enumerations have their \<^verbatim>\<open>Display\<close>
  text, their \<^verbatim>\<open>FromStr\<close> parser and their serde name.
\<close>

subsection \<open>Enumerations\<close>

datatype crypto_scheme = Ed25519 | MlDsa65 | Hybrid

definition crypto_scheme_display :: "crypto_scheme \<Rightarrow> string" where
  "crypto_scheme_display c =
     (case c of Ed25519 \<Rightarrow> ''ed25519'' | MlDsa65 \<Rightarrow> ''ml-dsa-65''
      | Hybrid \<Rightarrow> ''hybrid (ed25519 + ml-dsa-65)'')"

definition crypto_scheme_serde :: "crypto_scheme \<Rightarrow> string" where
  "crypto_scheme_serde c =
     (case c of Ed25519 \<Rightarrow> ''ed25519'' | MlDsa65 \<Rightarrow> ''ml-dsa-65'' | Hybrid \<Rightarrow> ''hybrid'')"

definition crypto_scheme_from_str :: "string \<Rightarrow> crypto_scheme result" where
  "crypto_scheme_from_str s =
     (let t = replace_char (CHR ''_'') (CHR ''-'') (to_lowercase s)
      in if t = ''ed25519'' then Inr Ed25519
         else if t = ''ml-dsa-65'' \<or> t = ''mldsa65'' \<or> t = ''dilithium'' \<or> t = ''pq'' then Inr MlDsa65
         else if t = ''hybrid'' then Inr Hybrid
         else Inl (InvalidCryptoScheme s))"

datatype agent_type = Type | Instance | Session

definition agent_type_display :: "agent_type \<Rightarrow> string" where
  "agent_type_display a =
     (case a of Type \<Rightarrow> ''type'' | Instance \<Rightarrow> ''instance'' | Session \<Rightarrow> ''session'')"

definition agent_type_from_str :: "string \<Rightarrow> agent_type result" where
  "agent_type_from_str s =
     (let t = to_lowercase s
      in if t = ''type'' then Inr Type
         else if t = ''instance'' then Inr Instance
         else if t = ''session'' then Inr Session
         else Inl (InvalidAgentType s))"

subsection \<open>Cards, tokens and entries\<close>

record agent_card =
  card_id :: uuid
  card_name :: string
  card_owner :: string
  card_scopes :: "string list"
  card_public_key :: string
  card_pq_public_key :: "string option"
  card_signature :: string
  card_pq_signature :: "string option"
  card_crypto_scheme :: crypto_scheme
  card_issued_at :: datetime
  card_expires_at :: datetime
  card_agent_type :: agent_type
  card_parent_id :: "uuid option"
  card_spiffe_id :: "string option"

record delegation_token =
  tok_id :: uuid
  tok_parent_id :: uuid
  tok_agent_name :: string
  tok_scopes :: "string list"
  tok_issued_at :: datetime
  tok_expires_at :: datetime
  tok_signature :: string
  tok_pq_signature :: "string option"
  tok_crypto_scheme :: crypto_scheme

record audit_entry =
  ae_id :: int
  ae_agent_id :: uuid
  ae_action :: string
  ae_target :: string
  ae_timestamp :: int
  ae_prev_hash :: string
  ae_entry_hash :: string
  ae_signature :: string

subsection \<open>A2A export\<close>

record a2a_provider =
  prov_organization :: string
  prov_url :: string

record a2a_capabilities =
  cap_streaming :: bool
  cap_push_notifications :: bool
  cap_state_transition_history :: bool

record a2a_authentication =
  auth_schemes :: "string list"
  auth_public_key :: string
  auth_pq_public_key :: "string option"
  auth_crypto_scheme :: crypto_scheme

record a2a_skill =
  skill_id :: string
  skill_name :: string
  skill_description :: string

record a2a_agent_card =
  a2a_name :: string
  a2a_description :: string
  a2a_url :: string
  a2a_provider_info :: a2a_provider
  a2a_capability_info :: a2a_capabilities
  a2a_authentication_info :: a2a_authentication
  a2a_skills :: "a2a_skill list"

text \<open>\<^verbatim>\<open>char::is_alphanumeric\<close> on ASCII; other bytes are kept.\<close>

definition is_alphanumeric :: "char \<Rightarrow> bool" where
  "is_alphanumeric c \<longleftrightarrow>
     (let n = (of_char c :: nat)
      in (48 \<le> n \<and> n \<le> 57) \<or> (65 \<le> n \<and> n \<le> 90) \<or> (97 \<le> n \<and> n \<le> 122) \<or> 128 \<le> n)"

definition safe_name :: "string \<Rightarrow> string" where
  "safe_name name =
     map (\<lambda>c. if is_alphanumeric c \<or> c = CHR ''-'' \<or> c = CHR ''_'' then c else CHR ''-'') name"

definition generate_spiffe_id :: "string \<Rightarrow> string \<Rightarrow> agent_type \<Rightarrow> string" where
  "generate_spiffe_id trust_domain name agent_type =
     ''spiffe://'' @ trust_domain @ ''/agent/'' @ agent_type_display agent_type @ ''/'' @ safe_name name"

definition to_a2a :: "agent_card \<Rightarrow> string \<Rightarrow> a2a_agent_card" where
  "to_a2a self base_url = \<lparr>
     a2a_name = card_name self,
     a2a_description = ''Agent '' @ card_name self @ '' ('' @ agent_type_display (card_agent_type self)
       @ ''), owner: '' @ card_owner self,
     a2a_url = trim_end_matches (\<lambda>c. c = CHR ''/'') base_url @ ''/agents/'' @ card_id self,
     a2a_provider_info = \<lparr>prov_organization = card_owner self, prov_url = base_url\<rparr>,
     a2a_capability_info = \<lparr>cap_streaming = False, cap_push_notifications = False,
                        cap_state_transition_history = True\<rparr>,
     a2a_authentication_info = \<lparr>auth_schemes = [''ed25519-jws''], auth_public_key = card_public_key self,
                           auth_pq_public_key = card_pq_public_key self,
                           auth_crypto_scheme = card_crypto_scheme self\<rparr>,
     a2a_skills = map (\<lambda>(i, scope). \<lparr>skill_id = ''skill-'' @ nat_str i, skill_name = scope,
                                      skill_description = ''Authorized scope: '' @ scope\<rparr>)
                    (enumerate 0 (card_scopes self))\<rparr>"

subsection \<open>Facts\<close>

lemma crypto_scheme_serde_inj [simp]: "crypto_scheme_serde a = crypto_scheme_serde b \<longleftrightarrow> a = b"
  by (cases a; cases b) (simp_all add: crypto_scheme_serde_def)

lemma agent_type_display_inj [simp]: "agent_type_display a = agent_type_display b \<longleftrightarrow> a = b"
  by (cases a; cases b) (simp_all add: agent_type_display_def)

lemma safe_name_no_slash: "CHR ''/'' \<notin> set (safe_name n)"
  by (auto simp: safe_name_def is_alphanumeric_def split: if_splits)

lemma agent_type_no_slash: "CHR ''/'' \<notin> set (agent_type_display a)"
  by (cases a) (simp_all add: agent_type_display_def)

lemma length_enumerate_a2a: "length (a2a_skills (to_a2a c u)) = length (card_scopes c)"
  by (simp add: to_a2a_def)

subsection \<open>Properties\<close>

text \<open>
  The text forms of the two enumerations.  The serde name of a scheme and the display text
  of an agent type parse back to the value, whatever the case of the letters; the display text
  of the hybrid scheme, which lists both algorithms, does not.
\<close>

theorem enum_text_roundtrip:
  "crypto_scheme_from_str (crypto_scheme_serde c) = Inr c
   \<and> crypto_scheme_from_str (to_uppercase (crypto_scheme_serde c)) = Inr c
   \<and> agent_type_from_str (agent_type_display a) = Inr a
   \<and> agent_type_from_str (to_uppercase (agent_type_display a)) = Inr a
   \<and> (crypto_scheme_from_str (crypto_scheme_display c) = Inr c \<longleftrightarrow> c \<noteq> Hybrid)"
proof (intro conjI)
  show "crypto_scheme_from_str (crypto_scheme_serde c) = Inr c"
    and "crypto_scheme_from_str (to_uppercase (crypto_scheme_serde c)) = Inr c"
    and "crypto_scheme_from_str (crypto_scheme_display c) = Inr c \<longleftrightarrow> c \<noteq> Hybrid"
    by (cases c; hypsubst_thin; code_simp)+
  show "agent_type_from_str (agent_type_display a) = Inr a"
    and "agent_type_from_str (to_uppercase (agent_type_display a)) = Inr a"
    by (cases a; hypsubst_thin; code_simp)+
qed

text \<open>
  A SPIFFE identifier has exactly the four path segments of its format, whatever the agent's
  name holds: a name cannot add a segment or reach another agent type, and within one trust
  domain identifiers are equal only for the same type and the same sanitized name.
\<close>

theorem spiffe_id_segments:
  assumes "CHR ''/'' \<notin> set td"
  shows "split_on (CHR ''/'') (generate_spiffe_id td n a)
           = [''spiffe:'', [], td, ''agent'', agent_type_display a, safe_name n]
    \<and> (generate_spiffe_id td n a = generate_spiffe_id td n' a' \<longleftrightarrow> a = a' \<and> safe_name n = safe_name n')"
proof -
  have split: "split_on (CHR ''/'') (generate_spiffe_id td n a)
           = [''spiffe:'', [], td, ''agent'', agent_type_display a, safe_name n]" for n a
    using assms safe_name_no_slash agent_type_no_slash
    by (simp add: generate_spiffe_id_def split_on_append split_on_fresh)
  have "a = a' \<and> safe_name n = safe_name n'" if "generate_spiffe_id td n a = generate_spiffe_id td n' a'"
    using arg_cong [OF that, of "split_on (CHR ''/'')"] by (simp add: split)
  then show ?thesis using split by (auto simp: generate_spiffe_id_def)
qed

theorem spiffe_id_segments_witness:
  "split_on (CHR ''/'') (generate_spiffe_id ''example.org'' ''my/agent'' Session)
     = [''spiffe:'', [], ''example.org'', ''agent'', agent_type_display Session, safe_name ''my/agent'']"
  using spiffe_id_segments [of "''example.org''" "''my/agent''" Session] by simp

end
