(* ===== verification/Audit_Log.thy ===== *)
theory Audit_Log
  imports Models
begin

text \<open>
  The tamper-evident audit log: \<^verbatim>\<open>grokingclawid-core/src/audit.rs\<close> (recording and querying), the
  proxy's logger \<^verbatim>\<open>grokingclaw-proxy/src/audit.rs\<close>, and the daemon's query with its chain check
  (\<^verbatim>\<open>query_audit\<close>, \<^verbatim>\<open>verify_chain\<close> of \<^verbatim>\<open>grokingclaw-daemon/src/daemon.rs\<close>).

  The table \<^verbatim>\<open>audit_log\<close> is the list of its rows in the order of the \<^verbatim>\<open>AUTOINCREMENT\<close> primary key,
  with the counter from which the next key is taken.  The database is taken to answer: failures
  of SQLite are not modelled.
\<close>

subsection \<open>The table and its operations\<close>

record audit_db =
  audit_rows :: "audit_entry list"
  audit_seq :: int

definition open_audit_db :: audit_db where
  "open_audit_db = \<lparr>audit_rows = [], audit_seq = 0\<rparr>"

definition get_last_hash :: "audit_db \<Rightarrow> string" where
  "get_last_hash db =
     (case rev (audit_rows db) of [] \<Rightarrow> ''genesis'' | e # _ \<Rightarrow> ae_entry_hash e)"

definition record_entry ::
    "ext \<Rightarrow> datetime \<Rightarrow> audit_db \<Rightarrow> uuid \<Rightarrow> string \<Rightarrow> string \<Rightarrow> bytes \<Rightarrow> audit_entry \<times> audit_db" where
  "record_entry E now db agent_id action target signing_key =
     (let prev_hash = get_last_hash db;
          ts = timestamp now;
          entry_hash = compute_chain_hash E prev_hash agent_id action target ts;
          signature = sign E signing_key entry_hash;
          row_id = audit_seq db + 1;
          entry = \<lparr>ae_id = row_id, ae_agent_id = agent_id, ae_action = action, ae_target = target,
                   ae_timestamp = ts, ae_prev_hash = prev_hash, ae_entry_hash = entry_hash,
                   ae_signature = signature\<rparr>
      in (entry, \<lparr>audit_rows = audit_rows db @ [entry], audit_seq = row_id\<rparr>))"

definition nil_uuid :: uuid where
  "nil_uuid = ''00000000-0000-0000-0000-000000000000''"

definition parse_uuid_or_nil :: "ext \<Rightarrow> string \<Rightarrow> uuid" where
  "parse_uuid_or_nil E s = (case uuid_parse E s of None \<Rightarrow> nil_uuid | Some u \<Rightarrow> u)"

text \<open>
  \<open>last_duration\<close> in nanoseconds; \<^verbatim>\<open>num_seconds\<close> truncates towards zero, which is \<open>quot\<close> below.
\<close>

definition num_seconds :: "int \<Rightarrow> int" where
  "num_seconds d = (if d < 0 then - ((- d) div ns_per_sec) else d div ns_per_sec)"

definition query_entries ::
    "ext \<Rightarrow> datetime \<Rightarrow> audit_db \<Rightarrow> string option \<Rightarrow> int option \<Rightarrow> audit_entry list" where
  "query_entries E now db agent_id last_duration =
     map (\<lambda>row. row\<lparr>ae_agent_id := parse_uuid_or_nil E (ae_agent_id row)\<rparr>)
       (filter (\<lambda>row.
          (case agent_id of None \<Rightarrow> True | Some aid \<Rightarrow> ae_agent_id row = aid)
          \<and> (case last_duration of None \<Rightarrow> True
             | Some dur \<Rightarrow> timestamp now - num_seconds dur \<le> ae_timestamp row))
        (audit_rows db))"

subsection \<open>The daemon's chain check\<close>

definition entry_hash_of :: "ext \<Rightarrow> audit_entry \<Rightarrow> string" where
  "entry_hash_of E e =
     compute_chain_hash E (ae_prev_hash e) (ae_agent_id e) (ae_action e) (ae_target e) (ae_timestamp e)"

fun chain_links :: "ext \<Rightarrow> audit_entry \<Rightarrow> audit_entry list \<Rightarrow> bool" where
  "chain_links E prev [] = True"
| "chain_links E prev (e # es) =
     (if ae_prev_hash e \<noteq> ae_entry_hash prev then False
      else if ae_entry_hash e \<noteq> entry_hash_of E e then False
      else chain_links E e es)"

definition verify_chain :: "ext \<Rightarrow> audit_entry list \<Rightarrow> bool" where
  "verify_chain E entries =
     (case entries of
        [] \<Rightarrow> True
      | e # es \<Rightarrow> (if ae_prev_hash e \<noteq> ''genesis'' then False else chain_links E e es))"

text \<open>
  \<^verbatim>\<open>query_audit\<close>: the entries of one agent (of all agents when the supervisor does not know the
  name), the last \<open>n\<close> of them, their total, and on request the verdict of the chain check.
\<close>

record audit_answer =
  ans_entries :: "audit_entry list"
  ans_total :: nat
  ans_chain_valid :: "bool option"

definition query_audit ::
    "ext \<Rightarrow> datetime \<Rightarrow> audit_db \<Rightarrow> uuid option \<Rightarrow> nat \<Rightarrow> bool \<Rightarrow> audit_answer" where
  "query_audit E now db agent_id n check =
     (let entries = query_entries E now db agent_id None;
          start = (if n < length entries then length entries - n else 0)
      in \<lparr>ans_entries = drop start entries, ans_total = length entries,
          ans_chain_valid = (if check then Some (verify_chain E entries) else None)\<rparr>)"

subsection \<open>The proxy's logger\<close>

record proxy_audit_entry =
  pa_method :: string
  pa_url :: string
  pa_status_code :: "nat option"
  pa_scope_decision :: string
  pa_request_size_bytes :: nat
  pa_response_size_bytes :: nat
  pa_duration_ms :: nat
  pa_signed :: bool
  pa_oauth_injected :: bool

record proxy_audit_logger =
  log_db :: audit_db
  log_agent_id :: uuid
  log_signing_key :: bytes

definition proxy_logger_new :: "audit_db \<Rightarrow> uuid \<Rightarrow> bytes \<Rightarrow> proxy_audit_logger" where
  "proxy_logger_new db agent_id signing_key =
     \<lparr>log_db = db, log_agent_id = agent_id, log_signing_key = signing_key\<rparr>"

definition proxy_action :: "proxy_audit_entry \<Rightarrow> string" where
  "proxy_action entry =
     ''PROXY '' @ pa_method entry @ '' '' @ pa_url entry @ '' ['' @ pa_scope_decision entry
     @ ''] status='' @ (case pa_status_code entry of Some c \<Rightarrow> nat_str c | None \<Rightarrow> ''-'')
     @ '' req:'' @ nat_str (pa_request_size_bytes entry)
     @ ''B resp:'' @ nat_str (pa_response_size_bytes entry)
     @ ''B '' @ nat_str (pa_duration_ms entry) @ ''ms''
     @ (if pa_oauth_injected entry then '' oauth=injected'' else [])"

definition log_request ::
    "ext \<Rightarrow> datetime \<Rightarrow> proxy_audit_logger \<Rightarrow> proxy_audit_entry \<Rightarrow> proxy_audit_logger" where
  "log_request E now lg entry =
     lg\<lparr>log_db := snd (record_entry E now (log_db lg) (log_agent_id lg) (proxy_action entry)
                        (pa_url entry) (log_signing_key lg))\<rparr>"

definition log_denial ::
    "ext \<Rightarrow> datetime \<Rightarrow> proxy_audit_logger \<Rightarrow> string \<Rightarrow> string \<Rightarrow> string \<Rightarrow> proxy_audit_logger" where
  "log_denial E now lg meth url reason =
     lg\<lparr>log_db := snd (record_entry E now (log_db lg) (log_agent_id lg)
                        (''PROXY_DENIED '' @ meth @ '' '' @ url @ '' reason='' @ reason)
                        url (log_signing_key lg))\<rparr>"

subsection \<open>Recording keeps the chain\<close>

text \<open>
  The full chain: every row, the first one included, carries the hash of its own fields and of
  its predecessor's hash, and keys increase.  The daemon's check is the part of it that does not
  look at the first row's hash.
\<close>

fun full_chain :: "ext \<Rightarrow> string \<Rightarrow> audit_entry list \<Rightarrow> bool" where
  "full_chain E h [] = True"
| "full_chain E h (e # es) \<longleftrightarrow>
     ae_prev_hash e = h \<and> ae_entry_hash e = entry_hash_of E e \<and> full_chain E (ae_entry_hash e) es"

definition last_hash :: "string \<Rightarrow> audit_entry list \<Rightarrow> string" where
  "last_hash h es = (if es = [] then h else ae_entry_hash (last es))"

lemma last_hash_simps [simp]:
  "last_hash h [] = h"
  "last_hash h (e # es) = last_hash (ae_entry_hash e) es"
  "last_hash h (es @ [e]) = ae_entry_hash e"
  by (simp_all add: last_hash_def)

lemma full_chain_append [simp]:
  "full_chain E h (es @ fs) \<longleftrightarrow> full_chain E h es \<and> full_chain E (last_hash h es) fs"
  by (induction es arbitrary: h) auto

lemma get_last_hash_eq: "get_last_hash db = last_hash ''genesis'' (audit_rows db)"
  by (cases "audit_rows db" rule: rev_cases) (auto simp: get_last_hash_def last_hash_def)

lemma chain_links_full: "chain_links E p es \<longleftrightarrow> full_chain E (ae_entry_hash p) es"
  by (induction es arbitrary: p) auto

lemma verify_chain_iff:
  "verify_chain E es \<longleftrightarrow>
     es = [] \<or> (ae_prev_hash (hd es) = ''genesis'' \<and> full_chain E (ae_entry_hash (hd es)) (tl es))"
  by (cases es) (auto simp: verify_chain_def chain_links_full)

lemma full_chain_verify: "full_chain E ''genesis'' es \<Longrightarrow> verify_chain E es"
  by (cases es) (auto simp: verify_chain_iff)

definition audit_inv :: "ext \<Rightarrow> audit_db \<Rightarrow> bool" where
  "audit_inv E db \<longleftrightarrow>
     full_chain E ''genesis'' (audit_rows db)
     \<and> map ae_id (audit_rows db) = map int [1 ..< Suc (length (audit_rows db))]
     \<and> audit_seq db = int (length (audit_rows db))"

lemma record_entry_rows:
  "audit_rows (snd (record_entry E now db a c t k)) = audit_rows db @ [fst (record_entry E now db a c t k)]"
  by (simp add: record_entry_def Let_def)

lemma record_entry_inv [step_inv]:
  "audit_inv E db \<Longrightarrow> audit_inv E (snd (record_entry E now db a c t k))"
  by (simp add: audit_inv_def record_entry_def Let_def get_last_hash_eq entry_hash_of_def)

lemma log_inv [step_inv]:
  "audit_inv E (log_db lg) \<Longrightarrow> audit_inv E (log_db (log_request E now lg e))"
  "audit_inv E (log_db lg) \<Longrightarrow> audit_inv E (log_db (log_denial E now lg m u r))"
  by (simp_all add: log_request_def log_denial_def record_entry_inv)

inductive audit_step :: "ext \<Rightarrow> audit_db \<Rightarrow> audit_db \<Rightarrow> bool" for E where
  audit_record: "audit_step E db (snd (record_entry E now db a c t k))"
| audit_proxy: "audit_step E db (log_db (log_request E now (proxy_logger_new db a k) e))"
| audit_denial: "audit_step E db (log_db (log_denial E now (proxy_logger_new db a k) m u r))"

inductive_cases audit_stepE: "audit_step E db db'"

interpretation audit: invariant "\<lambda>db. db = open_audit_db" "audit_step E" "audit_inv E" for E
proof
  fix s show "s = open_audit_db \<Longrightarrow> audit_inv E s"
    by (simp add: audit_inv_def open_audit_db_def)
next
  fix s t show "audit_inv E s \<Longrightarrow> audit_step E s t \<Longrightarrow> audit_inv E t"
    by (erule audit_stepE) (auto intro!: step_inv simp: proxy_logger_new_def)
qed

lemma query_all:
  assumes "\<forall>e \<in> set (audit_rows db). uuid_ok E (ae_agent_id e)"
  shows "query_entries E now db None None = audit_rows db"
  using assms by (auto simp: query_entries_def uuid_ok_def parse_uuid_or_nil_def intro!: map_idI)

lemma query_agent:
  assumes "\<forall>e \<in> set (audit_rows db). uuid_ok E (ae_agent_id e)"
  shows "query_entries E now db (Some a) None = filter (\<lambda>e. ae_agent_id e = a) (audit_rows db)"
  using assms by (auto simp: query_entries_def uuid_ok_def parse_uuid_or_nil_def intro!: map_idI)

subsection \<open>Tampering\<close>

text \<open>What an entry commits to, and the text that is hashed for it.\<close>

definition entry_content :: "audit_entry \<Rightarrow> string \<times> string \<times> string \<times> string \<times> int" where
  "entry_content e = (ae_prev_hash e, ae_agent_id e, ae_action e, ae_target e, ae_timestamp e)"

definition entry_input :: "audit_entry \<Rightarrow> string" where
  "entry_input e = chain_input (ae_prev_hash e) (ae_agent_id e) (ae_action e) (ae_target e) (ae_timestamp e)"

definition entry_nul_free :: "audit_entry \<Rightarrow> bool" where
  "entry_nul_free e \<longleftrightarrow> nul_free (ae_prev_hash e) \<and> nul_free (ae_agent_id e)
     \<and> nul_free (ae_action e) \<and> nul_free (ae_target e)"

definition collision :: "ext \<Rightarrow> audit_entry list \<Rightarrow> audit_entry list \<Rightarrow> bool" where
  "collision E es fs \<longleftrightarrow>
     (\<exists>e \<in> set es. \<exists>f \<in> set fs. entry_input e \<noteq> entry_input f
        \<and> sha256 E (entry_input e) = sha256 E (entry_input f))"

interpretation entry: canonical_payload entry_nul_free entry_input entry_content
  by unfold_locales (auto simp: entry_nul_free_def entry_input_def entry_content_def dest!: chain_input_inj)

lemma entry_hash_eq:
  assumes "hash_ok E" "entry_hash_of E e = entry_hash_of E f"
    and "entry_nul_free e" "entry_nul_free f" "\<not> collision E [e] [f]"
  shows "entry_content e = entry_content f"
  using assms entry.payload_inj [of e f]
  by (auto simp: entry_hash_of_def compute_chain_hash_def sha256_hex_def hash_okD(1) entry_input_def
      collision_def)

lemma full_chain_determined:
  assumes "hash_ok E" "full_chain E h es" "full_chain E h' fs" "length es = length fs"
    and "last_hash h es = last_hash h' fs"
    and "\<forall>e \<in> set es \<union> set fs. entry_nul_free e" "\<not> collision E es fs"
  shows "h = h' \<and> map entry_content es = map entry_content fs"
  using assms(2-7)
proof (induction es arbitrary: h h' fs)
  case (Cons e es)
  then obtain f gs where fs: "fs = f # gs" by (cases fs) auto
  have "ae_entry_hash e = ae_entry_hash f \<and> map entry_content es = map entry_content gs"
    using Cons.prems fs by (intro Cons.IH) (auto simp: collision_def)
  moreover from this have "entry_hash_of E e = entry_hash_of E f" using Cons.prems fs by simp
  then have "entry_content e = entry_content f"
    using Cons.prems fs by (intro entry_hash_eq [OF assms(1)]) (auto simp: collision_def)
  moreover from this have "ae_prev_hash e = ae_prev_hash f" by (simp add: entry_content_def)
  ultimately show ?case using Cons.prems fs by simp
qed simp

subsection \<open>Properties\<close>

text \<open>
  C2: every database reached from an empty one by recording entries (by any agents, from the
  command line or through the proxy's logger, at any times) passes the daemon's chain check,
  read back without a filter, and each of its rows, the first one included, carries the hash of
  its own fields and of the row before it, with consecutive keys from 1.
\<close>

theorem audit_chain_valid:
  assumes "reachable (\<lambda>db. db = open_audit_db) (audit_step E) db"
    and "\<forall>e \<in> set (audit_rows db). uuid_ok E (ae_agent_id e)"
  shows "ans_chain_valid (query_audit E now db None n True) = Some True
    \<and> full_chain E ''genesis'' (audit_rows db)
    \<and> map ae_id (audit_rows db) = map int [1 ..< Suc (length (audit_rows db))]"
  using audit.inv_reachable [OF assms(1)] query_all [OF assms(2)] full_chain_verify
  by (simp add: audit_inv_def query_audit_def Let_def)

theorem audit_chain_valid_witness:
  "ans_chain_valid (query_audit ref_ext 9 (snd (record_entry ref_ext 5 open_audit_db
      (replicate 36 CHR ''a'') ''issue'' ''card'' (replicate 32 CHR ''k''))) None 10 True) = Some True"
proof -
  let ?db = "snd (record_entry ref_ext 5 open_audit_db (replicate 36 CHR ''a'') ''issue'' ''card''
      (replicate 32 CHR ''k''))"
  have "reachable (\<lambda>db. db = open_audit_db) (audit_step ref_ext) ?db"
  proof (rule reach_step)
    show "reachable (\<lambda>db. db = open_audit_db) (audit_step ref_ext) open_audit_db" by (rule reach_init) simp
  qed (rule audit_record)
  moreover have "\<forall>e \<in> set (audit_rows ?db). uuid_ok ref_ext (ae_agent_id e)"
    by (simp add: record_entry_rows open_audit_db_def) (simp add: record_entry_def Let_def uuid_ok_def ref_ext_def)
  ultimately show ?thesis using audit_chain_valid by blast
qed

lemma last_hash_split: "last_hash h (xs @ ys) = last_hash (last_hash h xs) ys"
  by (simp add: last_hash_def)

lemma full_chain_suffix:
  assumes "full_chain E h es"
  shows "full_chain E (last_hash h (take k es)) (drop k es)"
    and "last_hash (last_hash h (take k es)) (drop k es) = last_hash h es"
  using assms full_chain_append [of E h "take k es" "drop k es"] last_hash_split [of h "take k es" "drop k es"] by simp_all

lemma collision_drop: "collision E (drop k es) (drop m fs) \<Longrightarrow> collision E es fs"
  unfolding collision_def by (meson in_set_dropD)

text \<open>
  C3: tamper evidence.  Take two logs that both pass the daemon's chain check and end in the same entry
  hash, with no NUL in the chained fields of the entries after the first.  Then going back from the end they agree entry by
  entry, in previous hash, agent, action, target and time, as far as both have entries after their first, and if
  they have the same length their first entries have the same hash; unless two of their hash inputs are an explicit
  SHA-256 collision.  In a log of the same length, changing or reordering entries behind the first while keeping
  the head of the chain is therefore detected; a log cut short at its front is not, since the hash of a first entry is never recomputed.
\<close>

theorem tamper_evident:
  assumes "hash_ok E" "verify_chain E (e # es)" "verify_chain E (f # fs)"
    and "last_hash (ae_entry_hash e) es = last_hash (ae_entry_hash f) fs"
    and "\<forall>x \<in> set es \<union> set fs. entry_nul_free x"
  shows "map entry_content (drop (length es - length fs) es) = map entry_content (drop (length fs - length es) fs)
      \<and> (length es = length fs \<longrightarrow> ae_entry_hash e = ae_entry_hash f)
    \<or> collision E es fs"
proof (rule disjCI)
  assume "\<not> collision E es fs"
  then have nc: "\<not> collision E (drop (length es - length fs) es) (drop (length fs - length es) fs)" using collision_drop by blast
  have "full_chain E (ae_entry_hash e) es" "full_chain E (ae_entry_hash f) fs" using assms(2,3) by (simp_all add: verify_chain_iff)
  note es = full_chain_suffix [OF this(1), of "length es - length fs"] and fs = full_chain_suffix [OF this(2), of "length fs - length es"]
  have "last_hash (ae_entry_hash e) (take (length es - length fs) es) = last_hash (ae_entry_hash f) (take (length fs - length es) fs)
    \<and> map entry_content (drop (length es - length fs) es) = map entry_content (drop (length fs - length es) fs)"
    by (rule full_chain_determined [OF assms(1) es(1) fs(1) _ _ _ nc])
      (use assms(4,5) es(2) fs(2) in \<open>auto dest: in_set_dropD\<close>)
  then show "map entry_content (drop (length es - length fs) es) = map entry_content (drop (length fs - length es) fs)
      \<and> (length es = length fs \<longrightarrow> ae_entry_hash e = ae_entry_hash f)"
    by (cases "length es = length fs") simp_all
qed

text \<open>A log of two entries, for the witnesses.\<close>

definition two_entries :: "audit_entry list" where
  "two_entries = audit_rows (snd (record_entry ref_ext 7 (snd (record_entry ref_ext 5 open_audit_db
     (replicate 36 CHR ''a'') ''issue'' ''card'' (replicate 32 CHR ''k'')))
     (replicate 36 CHR ''a'') ''verify'' ''card'' (replicate 32 CHR ''k'')))"

lemma two_entries_chain: "verify_chain ref_ext two_entries"
proof -
  have "audit_inv ref_ext open_audit_db" by (simp add: audit_inv_def open_audit_db_def)
  then have "full_chain ref_ext ''genesis'' two_entries"
    unfolding two_entries_def by (metis audit_inv_def record_entry_inv)
  then show ?thesis by (rule full_chain_verify)
qed

lemma nibbles_nul_free: "nul_free (nibbles b)"
  using nibbles_b64 [of nul b] is_b64_char_others(4) by (auto simp: nul_free_def)

lemma two_entries_nul_free: "\<forall>x \<in> set two_entries. entry_nul_free x"
  by (simp add: two_entries_def record_entry_def Let_def open_audit_db_def entry_nul_free_def
      get_last_hash_def compute_chain_hash_def sha256_hex_def)
     (simp add: ref_ext_def nibbles_nul_free, simp add: nul_free_def)

lemma two_entries_cons: "two_entries = hd two_entries # tl two_entries"
  by (simp add: two_entries_def record_entry_rows)

text \<open>The same log with another first entry, which the check does not look at: the rest agrees.\<close>

definition other_first :: audit_entry where
  "other_first = (hd two_entries)\<lparr>ae_action := ''nothing'', ae_timestamp := 0\<rparr>"

theorem tamper_evident_witness:
  "verify_chain ref_ext two_entries \<and> verify_chain ref_ext (other_first # tl two_entries) \<and> other_first # tl two_entries \<noteq> two_entries
   \<and> (ae_entry_hash (hd two_entries) = ae_entry_hash other_first \<or> collision ref_ext (tl two_entries) (tl two_entries))"
proof -
  have v: "verify_chain ref_ext (hd two_entries # tl two_entries)" using two_entries_chain two_entries_cons by simp
  then have w: "verify_chain ref_ext (other_first # tl two_entries)" by (simp add: verify_chain_iff other_first_def)
  have "ae_action (hd two_entries) = ''issue''"
    by (simp add: two_entries_def record_entry_rows open_audit_db_def) (simp add: record_entry_def Let_def)
  moreover have "ae_action other_first = ''nothing''" by (simp add: other_first_def)
  ultimately have d: "other_first \<noteq> hd two_entries" by auto
  have n: "\<forall>x \<in> set (tl two_entries) \<union> set (tl two_entries). entry_nul_free x"
    using two_entries_nul_free by (metis Un_iff list.set_intros(2) two_entries_cons)
  have "last_hash (ae_entry_hash (hd two_entries)) (tl two_entries) = last_hash (ae_entry_hash other_first) (tl two_entries)"
    by (simp add: other_first_def)
  from tamper_evident [OF ref_hash_ok v w this n] v w two_entries_cons
  have "ae_entry_hash (hd two_entries) = ae_entry_hash other_first \<or> collision ref_ext (tl two_entries) (tl two_entries)" by auto
  moreover have "other_first # tl two_entries \<noteq> two_entries" using d two_entries_cons by (metis list.inject)
  ultimately show ?thesis using two_entries_chain w by blast
qed

text \<open>
  The first entry is outside the daemon's check.  Its agent, action, target, time and
  signature can be replaced without the check noticing, because its hash is never recomputed.
\<close>

theorem first_entry_unprotected:
  assumes "verify_chain E (e # es)"
  shows "verify_chain E (e\<lparr>ae_agent_id := a, ae_action := c, ae_target := t, ae_timestamp := n,
                           ae_signature := s\<rparr> # es)"
  using assms by (simp add: verify_chain_iff)

theorem first_entry_unprotected_witness:
  "verify_chain ref_ext ((hd two_entries)\<lparr>ae_agent_id := nil_uuid, ae_action := ''nothing'', ae_target := ''x'',
      ae_timestamp := 0, ae_signature := []\<rparr> # tl two_entries)"
  using first_entry_unprotected [of ref_ext "hd two_entries" "tl two_entries"] two_entries_chain
    two_entries_cons by metis

end
