(* ===== verification/Revocation_Registry.thy ===== *)
theory Revocation_Registry
  imports Models "HOL-Library.List_Lexorder" "HOL-Library.Char_ord"
begin

text \<open>
  \<^verbatim>\<open>grokingclawid-core/src/revocation.rs\<close>: the table of revoked cards, the signed revocation payload and
  its classical and hybrid verification.  The table is the list of its rows in insertion order;
  \<^verbatim>\<open>agent_id\<close> is its primary key, so an insert of a key that is present fails.
\<close>

subsection \<open>The registry\<close>

record revocation_entry =
  rev_agent_id :: uuid
  rev_agent_name :: string
  rev_reason :: string
  rev_revoked_by :: string
  rev_revoked_at :: datetime
  rev_signature :: string
  rev_pq_signature :: "string option"

text \<open>A row holds the time as text.\<close>

record revocation_row =
  row_agent_id :: string
  row_agent_name :: string
  row_reason :: string
  row_revoked_by :: string
  row_revoked_at :: string
  row_signature :: string
  row_pq_signature :: "string option"

type_synonym revocation_db = "revocation_row list"

definition revocation_payload :: "ext \<Rightarrow> uuid \<Rightarrow> string \<Rightarrow> datetime \<Rightarrow> string" where
  "revocation_payload E agent_id reason revoked_at =
     ''REVOKE:'' @ agent_id @ '':'' @ reason @ '':'' @ rfc3339 E revoked_at"

definition is_revoked :: "revocation_db \<Rightarrow> uuid \<Rightarrow> bool" where
  "is_revoked db agent_id \<longleftrightarrow> 0 < length (filter (\<lambda>r. row_agent_id r = agent_id) db)"

definition insert_revocation :: "revocation_db \<Rightarrow> revocation_row \<Rightarrow> revocation_db result" where
  "insert_revocation db r =
     (if row_agent_id r \<in> set (map row_agent_id db) then Inl (DbError ''UNIQUE constraint failed'')
      else Inr (db @ [r]))"

definition revoke_hybrid ::
    "ext \<Rightarrow> datetime \<Rightarrow> revocation_db \<Rightarrow> uuid \<Rightarrow> string \<Rightarrow> string \<Rightarrow> string \<Rightarrow> bytes \<Rightarrow> bytes option
      \<Rightarrow> (revocation_entry \<times> revocation_db) result" where
  "revoke_hybrid E now db agent_id agent_name reason revoked_by signing_key pq_secret_key =
     bind_res (require (\<not> is_revoked db agent_id) (AlreadyRevoked agent_id)) (\<lambda>_.
     (let payload = revocation_payload E agent_id reason now;
          signature = sign E signing_key payload
      in bind_res (case pq_secret_key of
                     Some pq_key \<Rightarrow> bind_res (mldsa_sign E pq_key payload) (\<lambda>s. Inr (Some s))
                   | None \<Rightarrow> Inr None) (\<lambda>pq_signature.
         bind_res (insert_revocation db
             \<lparr>row_agent_id = agent_id, row_agent_name = agent_name, row_reason = reason,
              row_revoked_by = revoked_by, row_revoked_at = rfc3339 E now,
              row_signature = signature, row_pq_signature = pq_signature\<rparr>) (\<lambda>db'.
         Inr (\<lparr>rev_agent_id = agent_id, rev_agent_name = agent_name, rev_reason = reason,
                rev_revoked_by = revoked_by, rev_revoked_at = now, rev_signature = signature,
                rev_pq_signature = pq_signature\<rparr>, db')))))"

definition revoke ::
    "ext \<Rightarrow> datetime \<Rightarrow> revocation_db \<Rightarrow> uuid \<Rightarrow> string \<Rightarrow> string \<Rightarrow> string \<Rightarrow> bytes
      \<Rightarrow> (revocation_entry \<times> revocation_db) result" where
  "revoke E now db agent_id agent_name reason revoked_by signing_key =
     revoke_hybrid E now db agent_id agent_name reason revoked_by signing_key None"

text \<open>Reading a row back; a time that does not parse becomes the time of the query.\<close>

definition row_entry :: "ext \<Rightarrow> datetime \<Rightarrow> revocation_row \<Rightarrow> revocation_entry" where
  "row_entry E now r =
     \<lparr>rev_agent_id = (case uuid_parse E (row_agent_id r) of
                        None \<Rightarrow> ''00000000-0000-0000-0000-000000000000'' | Some u \<Rightarrow> u),
      rev_agent_name = row_agent_name r, rev_reason = row_reason r, rev_revoked_by = row_revoked_by r,
      rev_revoked_at = (case rfc3339_parse E (row_revoked_at r) of None \<Rightarrow> now | Some t \<Rightarrow> t),
      rev_signature = row_signature r, rev_pq_signature = row_pq_signature r\<rparr>"

definition get_revocation :: "ext \<Rightarrow> datetime \<Rightarrow> revocation_db \<Rightarrow> uuid \<Rightarrow> revocation_entry option" where
  "get_revocation E now db agent_id =
     (case filter (\<lambda>r. row_agent_id r = agent_id) db of [] \<Rightarrow> None | r # _ \<Rightarrow> Some (row_entry E now r))"

text \<open>\<^verbatim>\<open>ORDER BY revoked_at DESC\<close>: the text of the times, byte by byte, latest first.\<close>

definition list_revocations :: "ext \<Rightarrow> datetime \<Rightarrow> revocation_db \<Rightarrow> revocation_entry list" where
  "list_revocations E now db = map (row_entry E now) (rev (sort_key row_revoked_at (rev db)))"

definition verify_revocation :: "ext \<Rightarrow> revocation_entry \<Rightarrow> string \<Rightarrow> bool result" where
  "verify_revocation E entry public_key_b64 =
     verify E public_key_b64
       (revocation_payload E (rev_agent_id entry) (rev_reason entry) (rev_revoked_at entry))
       (rev_signature entry)"

definition verify_revocation_hybrid ::
    "ext \<Rightarrow> revocation_entry \<Rightarrow> string \<Rightarrow> string option \<Rightarrow> bool result" where
  "verify_revocation_hybrid E entry ed25519_public_key_b64 pq_public_key_b64 =
     (let payload = revocation_payload E (rev_agent_id entry) (rev_reason entry) (rev_revoked_at entry)
      in bind_res (verify E ed25519_public_key_b64 payload (rev_signature entry)) (\<lambda>ed_valid.
         if \<not> ed_valid then Inr False
         else (case (rev_pq_signature entry, pq_public_key_b64) of
                 (Some pq_sig, Some pq_pub) \<Rightarrow> mldsa_verify E pq_pub payload pq_sig
               | _ \<Rightarrow> Inr True)))"

subsection \<open>The payload is canonical\<close>

text \<open>
  The identifier has no colon and the time has three, so a reason cannot be shifted into its
  neighbours even when it holds colons itself.
\<close>

definition payload_wf :: "ext \<Rightarrow> uuid \<times> string \<times> datetime \<Rightarrow> bool" where
  "payload_wf E = (\<lambda>(u, r, t). rfc3339_ok E \<and> CHR '':'' \<notin> set u \<and> rfc3339_range t)"

interpretation revocation: canonical_payload "payload_wf E"
    "\<lambda>(u, r, t). revocation_payload E u r t" "\<lambda>x. x" for E
proof
  fix x y :: "uuid \<times> string \<times> datetime"
  obtain u r t where x: "x = (u, r, t)" by (cases x)
  obtain u' r' t' where y: "y = (u', r', t')" by (cases y)
  assume wf: "payload_wf E x" "payload_wf E y"
    and eq: "(case x of (u, r, t) \<Rightarrow> revocation_payload E u r t)
           = (case y of (u, r, t) \<Rightarrow> revocation_payload E u r t)"
  have "u @ CHR '':'' # r @ CHR '':'' # rfc3339 E t = u' @ CHR '':'' # r' @ CHR '':'' # rfc3339 E t'"
    using eq by (simp add: x y revocation_payload_def)
  then have u: "u = u'" and "r @ CHR '':'' # rfc3339 E t = r' @ CHR '':'' # rfc3339 E t'"
    using wf delim_inj [of u "CHR '':''" _ u'] by (auto simp: x y payload_wf_def)
  then have "r = r'" "rfc3339 E t = rfc3339 E t'"
    using wf count_split_unique [of r "CHR '':''" _ r'] by (auto simp: x y payload_wf_def rfc3339_okD)
  moreover from this have "t = t'" using wf rfc3339_inj [of E t t'] by (simp add: x y payload_wf_def)
  ultimately show "x = y" using u by (simp add: x y)
qed

subsection \<open>Facts about the registry\<close>

lemma is_revoked_iff: "is_revoked db a \<longleftrightarrow> a \<in> row_agent_id ` set db"
  by (auto simp: is_revoked_def filter_empty_conv)

definition registry_inv :: "revocation_db \<Rightarrow> bool" where
  "registry_inv db \<longleftrightarrow> distinct (map row_agent_id db)"

lemma revoke_hybrid_result:
  assumes "revoke_hybrid E now db a n r b k q = Inr (entry, db')"
  shows "\<exists>row. db' = db @ [row] \<and> row_agent_id row = a \<and> \<not> is_revoked db a
    \<and> row_revoked_at row = rfc3339 E now
    \<and> entry = \<lparr>rev_agent_id = a, rev_agent_name = row_agent_name row, rev_reason = row_reason row,
               rev_revoked_by = row_revoked_by row, rev_revoked_at = now, rev_signature = row_signature row,
               rev_pq_signature = row_pq_signature row\<rparr>
    \<and> row_reason row = r \<and> row_signature row = sign E k (revocation_payload E a r now)"
  using assms
  by (auto simp: revoke_hybrid_def bind_res_Inr_iff Let_def insert_revocation_def split: if_splits)

lemma revoke_hybrid_inv [step_inv]:
  "registry_inv db \<Longrightarrow> revoke_hybrid E now db a n r b k q = Inr (entry, db') \<Longrightarrow> registry_inv db'"
  by (auto simp: registry_inv_def is_revoked_iff dest!: revoke_hybrid_result)

inductive registry_step :: "ext \<Rightarrow> revocation_db \<Rightarrow> revocation_db \<Rightarrow> bool" for E where
  registry_revoke: "revoke_hybrid E now db a n r b k q = Inr (entry, db') \<Longrightarrow> registry_step E db db'"

inductive_cases registry_stepE: "registry_step E db db'"

interpretation registry: invariant "\<lambda>db. db = []" "registry_step E" registry_inv for E
proof
  fix s :: revocation_db show "s = [] \<Longrightarrow> registry_inv s" by (simp add: registry_inv_def)
next
  fix s t show "registry_inv s \<Longrightarrow> registry_step E s t \<Longrightarrow> registry_inv t"
    by (erule registry_stepE) (rule step_inv)
qed

text \<open>Once an entry is in the registry, no step changes what is read for its agent.\<close>

lemma lookup_append:
  "is_revoked db a \<Longrightarrow> get_revocation E now (db @ rows) a = get_revocation E now db a"
  by (cases "filter (\<lambda>r. row_agent_id r = a) db") (auto simp: is_revoked_def get_revocation_def)

lemma registry_step_append: "registry_step E db db' \<Longrightarrow> \<exists>rows. db' = db @ rows"
  by (auto elim!: registry_stepE dest!: revoke_hybrid_result)

lemma registry_extends:
  "reachable (\<lambda>s. s = db) (registry_step E) db' \<Longrightarrow> \<exists>rows. db' = db @ rows"
  by (induction rule: reachable.induct) (use registry_step_append in fastforce)+

subsection \<open>Properties\<close>

lemma revoke_hybrid_fails:
  "revoke_hybrid E now db a n r b k q = Inl e \<longleftrightarrow>
     (is_revoked db a \<and> e = AlreadyRevoked a)
     \<or> (\<not> is_revoked db a \<and> (\<exists>sk. q = Some sk \<and> mldsa_sign E sk (revocation_payload E a r now) = Inl e))"
  by (cases "is_revoked db a"; cases q; cases "mldsa_sign E (the q) (revocation_payload E a r now)")
     (auto simp: revoke_hybrid_def Let_def insert_revocation_def is_revoked_iff)

lemma revoke_hybrid_succeeds:
  assumes "revoke_hybrid E now db a n r b k q = Inr (entry, db')"
  shows "\<exists>pq. (case q of None \<Rightarrow> pq = None | Some sk \<Rightarrow> \<exists>s. mldsa_sign E sk (revocation_payload E a r now) = Inr s \<and> pq = Some s)
    \<and> entry = \<lparr>rev_agent_id = a, rev_agent_name = n, rev_reason = r, rev_revoked_by = b, rev_revoked_at = now,
               rev_signature = sign E k (revocation_payload E a r now), rev_pq_signature = pq\<rparr>
    \<and> db' = db @ [\<lparr>row_agent_id = a, row_agent_name = n, row_reason = r, row_revoked_by = b, row_revoked_at = rfc3339 E now,
               row_signature = sign E k (revocation_payload E a r now), row_pq_signature = pq\<rparr>]"
  using assms
  by (auto simp: revoke_hybrid_def bind_res_Inr_iff Let_def insert_revocation_def split: if_splits option.splits)

text \<open>
  C13: what a revocation does.  It fails exactly when the agent is revoked already or the given
  post-quantum key cannot sign, with the error of that, and the registry is then unchanged.  When it
  succeeds the agent was not revoked and now is; the entry carries the name, reason, revoker and time
  given, the Ed25519 signature of the revocation text by the given key and the post-quantum signature
  when there is a key for it; it is read back unchanged, and every other agent is as before.
\<close>

theorem revoke_effect:
  assumes "rfc3339_ok E" and "rfc3339_range now" and "uuid_ok E a"
  shows "(\<forall>e. revoke_hybrid E now db a n r b k q = Inl e \<longleftrightarrow>
        (is_revoked db a \<and> e = AlreadyRevoked a)
        \<or> (\<not> is_revoked db a \<and> (\<exists>sk. q = Some sk \<and> mldsa_sign E sk (revocation_payload E a r now) = Inl e)))
    \<and> (\<forall>entry db'. revoke_hybrid E now db a n r b k q = Inr (entry, db') \<longrightarrow>
        (\<exists>pq. (case q of None \<Rightarrow> pq = None | Some sk \<Rightarrow> \<exists>s. mldsa_sign E sk (revocation_payload E a r now) = Inr s \<and> pq = Some s)
           \<and> entry = \<lparr>rev_agent_id = a, rev_agent_name = n, rev_reason = r, rev_revoked_by = b, rev_revoked_at = now,
                      rev_signature = sign E k (revocation_payload E a r now), rev_pq_signature = pq\<rparr>)
        \<and> \<not> is_revoked db a \<and> is_revoked db' a \<and> get_revocation E later db' a = Some entry
        \<and> (\<forall>c. c \<noteq> a \<longrightarrow> is_revoked db' c = is_revoked db c
                       \<and> get_revocation E later db' c = get_revocation E later db c))"
proof (intro conjI allI impI)
  fix entry db' assume ok: "revoke_hybrid E now db a n r b k q = Inr (entry, db')"
  then have fresh: "\<not> is_revoked db a" using revoke_hybrid_result by blast
  obtain pq where pq: "case q of None \<Rightarrow> pq = None | Some sk \<Rightarrow> \<exists>s. mldsa_sign E sk (revocation_payload E a r now) = Inr s \<and> pq = Some s"
    and entry: "entry = \<lparr>rev_agent_id = a, rev_agent_name = n, rev_reason = r, rev_revoked_by = b, rev_revoked_at = now,
               rev_signature = sign E k (revocation_payload E a r now), rev_pq_signature = pq\<rparr>"
    and db': "db' = db @ [\<lparr>row_agent_id = a, row_agent_name = n, row_reason = r, row_revoked_by = b, row_revoked_at = rfc3339 E now,
               row_signature = sign E k (revocation_payload E a r now), row_pq_signature = pq\<rparr>]"
    using revoke_hybrid_succeeds [OF ok] by blast
  show "\<exists>pq. (case q of None \<Rightarrow> pq = None | Some sk \<Rightarrow> \<exists>s. mldsa_sign E sk (revocation_payload E a r now) = Inr s \<and> pq = Some s)
    \<and> entry = \<lparr>rev_agent_id = a, rev_agent_name = n, rev_reason = r, rev_revoked_by = b, rev_revoked_at = now,
               rev_signature = sign E k (revocation_payload E a r now), rev_pq_signature = pq\<rparr>"
    using pq entry by blast
  have "filter (\<lambda>r. row_agent_id r = a) db = []" using fresh by (simp add: is_revoked_def)
  then show "get_revocation E later db' a = Some entry"
    using db' entry assms by (simp add: get_revocation_def row_entry_def rfc3339_ok_def uuid_ok_def)
  show "\<not> is_revoked db a" "is_revoked db' a" using db' fresh by (auto simp: is_revoked_iff)
  fix c assume "c \<noteq> a"
  then show "is_revoked db' c = is_revoked db c"
    and "get_revocation E later db' c = get_revocation E later db c"
    using db' by (auto simp: is_revoked_iff get_revocation_def)
qed (rule revoke_hybrid_fails)

theorem revoke_effect_witness:
  "\<exists>entry db'. revoke_hybrid ref_ext 7 [] (replicate 36 CHR ''a'') ''n'' ''lost'' ''self''
      (replicate 32 CHR ''k'') None = Inr (entry, db')
    \<and> is_revoked db' (replicate 36 CHR ''a'')
    \<and> get_revocation ref_ext 9 db' (replicate 36 CHR ''a'') = Some entry"
proof -
  let ?a = "replicate 36 CHR ''a''"
  have "rfc3339_range 7" by (simp add: rfc3339_range_def seconds_def ns_per_sec_def)
  moreover have "uuid_ok ref_ext ?a" by (simp add: uuid_ok_def ref_ext_def)
  moreover obtain entry db' where
    "revoke_hybrid ref_ext 7 [] ?a ''n'' ''lost'' ''self'' (replicate 32 CHR ''k'') None = Inr (entry, db')"
    by (simp add: revoke_hybrid_def is_revoked_def insert_revocation_def Let_def)
  ultimately show ?thesis using revoke_effect [of ref_ext 7 ?a "[]"] ref_rfc3339_ok by blast
qed

text \<open>
  Revocation is permanent.  Whatever sequence of revocations follows, the agent stays
  revoked, its entry is the one first recorded, and revoking it again is refused.
\<close>

theorem revocation_permanent:
  assumes "is_revoked db a" and "reachable (\<lambda>s. s = db) (registry_step E) db'"
  shows "is_revoked db' a \<and> get_revocation E now db' a = get_revocation E now db a
    \<and> revoke_hybrid E t db' a n r b k q = Inl (AlreadyRevoked a)"
proof -
  obtain rows where db': "db' = db @ rows" using registry_extends [OF assms(2)] by blast
  then have "is_revoked db' a" using assms(1) by (auto simp: is_revoked_iff)
  then show ?thesis using assms(1) db' by (simp add: lookup_append revoke_hybrid_def)
qed

theorem revocation_permanent_witness:
  "let db = [\<lparr>row_agent_id = ''a'', row_agent_name = ''n'', row_reason = ''r'', row_revoked_by = ''self'',
       row_revoked_at = '':::0'', row_signature = ''s'', row_pq_signature = None\<rparr>]
   in is_revoked db ''a''
      \<and> revoke_hybrid ref_ext 5 db ''a'' ''n'' ''r'' ''self'' ''k'' None = Inl (AlreadyRevoked ''a'')"
proof -
  let ?db = "[\<lparr>row_agent_id = ''a'', row_agent_name = ''n'', row_reason = ''r'', row_revoked_by = ''self'',
       row_revoked_at = '':::0'', row_signature = ''s'', row_pq_signature = None\<rparr>]"
  have "is_revoked ?db ''a''" by (simp add: is_revoked_def)
  moreover have "reachable (\<lambda>s. s = ?db) (registry_step ref_ext) ?db" by (rule reach_init) simp
  ultimately show ?thesis unfolding Let_def using revocation_permanent by blast
qed

text \<open>
  A revocation made with working keys verifies, classically and in hybrid form, and its
  signature speaks for nothing else: if it also verifies an entry for another agent, reason or
  time then it is a forgery, a signature on a payload it was not made for.
\<close>

theorem revocation_signature:
  assumes "b64_ok E" "ed_ok E" "length k = 32" "pq_pair_ok E pk sk" "rfc3339_ok E"
    and "revoke_hybrid E now db a n r b k (Some sk) = Inr (entry, db')"
    and "CHR '':'' \<notin> set a" "CHR '':'' \<notin> set (rev_agent_id other)"
    and "rfc3339_range now" "rfc3339_range (rev_revoked_at other)"
  shows "verify_revocation E entry (encode_public_key E (ed_public E k)) = Inr True
    \<and> verify_revocation_hybrid E entry (encode_public_key E (ed_public E k))
          (Some (encode_mldsa_public_key E pk)) = Inr True
    \<and> (rev_signature other = rev_signature entry
       \<and> verify_revocation E other (encode_public_key E (ed_public E k)) = Inr True \<longrightarrow>
         (rev_agent_id other, rev_reason other, rev_revoked_at other) = (a, r, now)
         \<or> (\<exists>m. m \<noteq> revocation_payload E a r now
              \<and> ed_check E (ed_public E k) m (ed_sign_raw E k (revocation_payload E a r now))))"
proof -
  let ?p = "revocation_payload E a r now"
  obtain s where s: "mldsa_sign E sk ?p = Inr s"
    "mldsa_verify E (encode_mldsa_public_key E pk) ?p s = Inr True"
    using mldsa_verify_sign assms(1,4) by blast
  have entry: "rev_agent_id entry = a" "rev_reason entry = r" "rev_revoked_at entry = now"
    "rev_signature entry = sign E k ?p" "rev_pq_signature entry = Some s"
    using assms(6) s by (auto simp: revoke_hybrid_def bind_res_Inr_iff Let_def)
  have ok: "verify E (encode_public_key E (ed_public E k)) ?p (sign E k ?p) = Inr True"
    using assms verify_sign by blast
  have "(rev_agent_id other, rev_reason other, rev_revoked_at other) = (a, r, now)"
    if "revocation_payload E (rev_agent_id other) (rev_reason other) (rev_revoked_at other) = ?p"
    using that assms revocation.payload_inj [of E "(rev_agent_id other, rev_reason other, rev_revoked_at other)" "(a, r, now)"]
    by (simp add: payload_wf_def)
  then have "(rev_agent_id other, rev_reason other, rev_revoked_at other) = (a, r, now)
         \<or> (\<exists>m. m \<noteq> ?p \<and> ed_check E (ed_public E k) m (ed_sign_raw E k ?p))"
    if "rev_signature other = rev_signature entry"
      "verify_revocation E other (encode_public_key E (ed_public E k)) = Inr True"
    using that assms(1-3) unfolding entry verify_revocation_def by (auto simp: verify_on_sign)
  moreover have "verify_revocation E entry (encode_public_key E (ed_public E k)) = Inr True"
    "verify_revocation_hybrid E entry (encode_public_key E (ed_public E k))
          (Some (encode_mldsa_public_key E pk)) = Inr True"
    using ok s by (simp_all add: verify_revocation_def verify_revocation_hybrid_def entry)
  ultimately show ?thesis by blast
qed

theorem revocation_signature_witness:
  "\<exists>entry db'. revoke_hybrid ref_ext 7 [] (replicate 36 CHR ''a'') ''n'' ''lost'' ''self''
      (replicate 32 CHR ''k'') (Some (replicate 4032 CHR ''s'')) = Inr (entry, db')
    \<and> verify_revocation_hybrid ref_ext entry
        (encode_public_key ref_ext (ed_public ref_ext (replicate 32 CHR ''k'')))
        (Some (encode_mldsa_public_key ref_ext (replicate 1952 CHR ''s''))) = Inr True"
proof -
  let ?a = "replicate 36 CHR ''a''" and ?k = "replicate 32 CHR ''k''"
  let ?pk = "replicate 1952 CHR ''s''" and ?sk = "replicate 4032 CHR ''s''"
  obtain s where "mldsa_sign ref_ext ?sk (revocation_payload ref_ext ?a ''lost'' 7) = Inr s"
    using mldsa_verify_sign [of ref_ext ?pk ?sk] by auto
  then obtain entry db' where
    r: "revoke_hybrid ref_ext 7 [] ?a ''n'' ''lost'' ''self'' ?k (Some ?sk) = Inr (entry, db')"
    by (simp add: revoke_hybrid_def is_revoked_def insert_revocation_def Let_def)
  moreover have "rfc3339_range 7" by (simp add: rfc3339_range_def seconds_def ns_per_sec_def)
  moreover have "rev_agent_id entry = ?a" "rev_revoked_at entry = 7"
    using revoke_hybrid_result [OF r] by auto
  ultimately show ?thesis
    using revocation_signature [of ref_ext ?k ?pk ?sk 7 "[]" ?a "''n''" "''lost''" "''self''" entry db' entry]
    by auto
qed

text \<open>
  The hybrid check does not insist on the post-quantum half.  An entry whose post-quantum
  signature was removed is accepted on its Ed25519 signature alone, although the verifier was
  given the card's post-quantum key.
\<close>

theorem revocation_pq_strippable:
  assumes "verify_revocation_hybrid E entry ed (Some pq) = Inr True"
  shows "verify_revocation_hybrid E (entry\<lparr>rev_pq_signature := None\<rparr>) ed (Some pq) = Inr True"
  using assms by (auto simp: verify_revocation_hybrid_def Let_def bind_res_Inr_iff split: if_splits)

theorem revocation_pq_strippable_witness:
  "\<exists>e q. rev_pq_signature e = Some q
     \<and> verify_revocation_hybrid ref_ext (e\<lparr>rev_pq_signature := None\<rparr>)
          (encode_public_key ref_ext (ed_public ref_ext (replicate 32 CHR ''k'')))
          (Some (encode_mldsa_public_key ref_ext (replicate 1952 CHR ''s''))) = Inr True"
proof -
  let ?k = "replicate 32 CHR ''k''" and ?p = "revocation_payload ref_ext ''a'' ''r'' 7"
  obtain q where q: "mldsa_verify ref_ext (encode_mldsa_public_key ref_ext (replicate 1952 CHR ''s'')) ?p q = Inr True"
    using mldsa_verify_sign [of ref_ext "replicate 1952 CHR ''s''" "replicate 4032 CHR ''s''"] by auto
  let ?e = "\<lparr>rev_agent_id = ''a'', rev_agent_name = ''n'', rev_reason = ''r'', rev_revoked_by = ''self'',
            rev_revoked_at = 7, rev_signature = sign ref_ext ?k ?p, rev_pq_signature = Some q\<rparr>"
  have "verify_revocation_hybrid ref_ext ?e (encode_public_key ref_ext (ed_public ref_ext ?k))
          (Some (encode_mldsa_public_key ref_ext (replicate 1952 CHR ''s''))) = Inr True"
    using q by (simp add: verify_revocation_hybrid_def verify_sign)
  then show ?thesis using revocation_pq_strippable [of ref_ext ?e]
    by (metis revocation_entry.select_convs(7))
qed

end
