(* ===== verification/Challenge_Response.thy ===== *)
theory Challenge_Response
  imports Models
begin

text \<open>
  \<^verbatim>\<open>grokingclawid-core/src/challenge.rs\<close>: the agent-to-agent challenge, its canonical bytes, the signed
  response and its verification, with the command-line handlers of
  \<^verbatim>\<open>grokingclawid-cli/src/commands/challenge.rs\<close> (reading and writing files apart).
\<close>

subsection \<open>Data\<close>

record challenge =
  ch_id :: uuid
  ch_nonce :: string
  ch_issuer :: string
  ch_required_scopes :: "string list"
  ch_issued_at :: datetime
  ch_expires_at :: datetime
  ch_min_crypto :: "string option"

record challenge_response =
  resp_challenge_id :: uuid
  resp_agent_card :: agent_card
  resp_signature :: string
  resp_pq_signature :: "string option"
  resp_responded_at :: datetime

record check =
  chk_name :: string
  chk_passed :: bool
  chk_detail :: string

record verification_result =
  vr_verified :: bool
  vr_checks :: "check list"
  vr_agent_id :: "string option"
  vr_agent_name :: "string option"

subsection \<open>Creating a challenge\<close>

definition create_challenge ::
    "ext \<Rightarrow> datetime \<Rightarrow> uuid \<Rightarrow> bytes \<Rightarrow> string \<Rightarrow> string list \<Rightarrow> int option \<Rightarrow> bool \<Rightarrow> challenge result" where
  "create_challenge E now new_id nonce_bytes issuer required_scopes ttl_seconds require_pq =
     (let ttl = (case ttl_seconds of None \<Rightarrow> 30 | Some n \<Rightarrow> n)
      in bind_res (duration_of ttl 1) (\<lambda>d.
         bind_res (plus_duration E now d) (\<lambda>expires_at.
         Inr \<lparr>ch_id = new_id, ch_nonce = b64_encode E nonce_bytes, ch_issuer = issuer,
              ch_required_scopes = required_scopes, ch_issued_at = now, ch_expires_at = expires_at,
              ch_min_crypto = (if require_pq then Some ''hybrid'' else None)\<rparr>)))"

definition challenge_to_sign_bytes :: "ext \<Rightarrow> challenge \<Rightarrow> bytes" where
  "challenge_to_sign_bytes E c =
     uuid_bytes E (ch_id c) @ nul # ch_nonce c @ nul # ch_issuer c
     @ nul # le_bytes64 (timestamp (ch_issued_at c))
     @ nul # le_bytes64 (timestamp (ch_expires_at c))
     @ nul # (case ch_min_crypto c of None \<Rightarrow> [] | Some mc \<Rightarrow> mc)
     @ nul # join [nul] (ch_required_scopes c)"

subsection \<open>Responding\<close>

definition respond_to_challenge ::
    "ext \<Rightarrow> datetime \<Rightarrow> challenge \<Rightarrow> agent_card \<Rightarrow> bytes \<Rightarrow> bytes option \<Rightarrow> challenge_response result" where
  "respond_to_challenge E now c crd ed_signing_key mldsa_secret_key =
     (let sign_bytes = challenge_to_sign_bytes E c;
          ed_sig_b64 = b64_encode E (ed_sign_raw E ed_signing_key sign_bytes)
      in bind_res (case mldsa_secret_key of
                     Some sk \<Rightarrow> bind_res (mldsa_sign E sk sign_bytes) (\<lambda>s. Inr (Some s))
                   | None \<Rightarrow> Inr None) (\<lambda>pq_sig.
         Inr \<lparr>resp_challenge_id = ch_id c, resp_agent_card = crd, resp_signature = ed_sig_b64,
              resp_pq_signature = pq_sig, resp_responded_at = now\<rparr>))"

subsection \<open>Verifying\<close>

definition debug_list :: "ext \<Rightarrow> string list \<Rightarrow> string" where
  "debug_list E xs = ''['' @ join '', '' (map (str_debug E) xs) @ '']''"

definition check_challenge_expiry :: "ext \<Rightarrow> datetime \<Rightarrow> challenge \<Rightarrow> check" where
  "check_challenge_expiry E now c =
     (let time_ok = (now \<le> ch_expires_at c)
      in \<lparr>chk_name = ''challenge_expiry'', chk_passed = time_ok,
          chk_detail = (if time_ok then ''Challenge valid until '' @ dt_display E (ch_expires_at c)
            else ''Challenge expired at '' @ dt_display E (ch_expires_at c)
                 @ '' (now: '' @ dt_display E now @ '')'')\<rparr>)"

definition check_challenge_id :: "challenge \<Rightarrow> challenge_response \<Rightarrow> check" where
  "check_challenge_id c r =
     (let id_ok = (resp_challenge_id r = ch_id c)
      in \<lparr>chk_name = ''challenge_id'', chk_passed = id_ok,
          chk_detail = (if id_ok then ''Challenge ID matches''
            else ''ID mismatch: expected '' @ ch_id c @ '', got '' @ resp_challenge_id r)\<rparr>)"

definition check_card_expiry :: "ext \<Rightarrow> datetime \<Rightarrow> agent_card \<Rightarrow> check" where
  "check_card_expiry E now crd =
     (let card_ok = (now < card_expires_at crd)
      in \<lparr>chk_name = ''card_expiry'', chk_passed = card_ok,
          chk_detail = (if card_ok then ''Card valid until '' else ''Card expired at '')
            @ dt_display E (card_expires_at crd)\<rparr>)"

definition check_ed25519 :: "ext \<Rightarrow> bytes \<Rightarrow> challenge_response \<Rightarrow> check" where
  "check_ed25519 E sign_bytes r =
     (let ed_ok = unwrap_or False (verify E (card_public_key (resp_agent_card r)) sign_bytes (resp_signature r))
      in \<lparr>chk_name = ''ed25519_signature'', chk_passed = ed_ok,
          chk_detail = (if ed_ok then ''Ed25519 signature valid'' else ''Ed25519 signature INVALID'')\<rparr>)"

definition check_mldsa65 :: "ext \<Rightarrow> bytes \<Rightarrow> challenge_response \<Rightarrow> check list" where
  "check_mldsa65 E sign_bytes r =
     (if card_crypto_scheme (resp_agent_card r) = Hybrid then
        (case (resp_pq_signature r, card_pq_public_key (resp_agent_card r)) of
           (Some pq_sig, Some pq_pub) \<Rightarrow>
             (let valid = unwrap_or False (mldsa_verify E pq_pub sign_bytes pq_sig)
              in [\<lparr>chk_name = ''mldsa65_signature'', chk_passed = valid,
                   chk_detail = (if valid then ''ML-DSA-65 signature valid''
                     else ''ML-DSA-65 signature INVALID'')\<rparr>])
         | _ \<Rightarrow> [\<lparr>chk_name = ''mldsa65_signature'', chk_passed = False,
                   chk_detail = ''Hybrid card but missing PQ signature or public key''\<rparr>])
      else [])"

definition check_scopes :: "ext \<Rightarrow> challenge \<Rightarrow> agent_card \<Rightarrow> check" where
  "check_scopes E c crd =
     (let scopes_ok = list_all (\<lambda>req. list_ex (\<lambda>s. s = req) (card_scopes crd)) (ch_required_scopes c)
      in \<lparr>chk_name = ''scopes'', chk_passed = scopes_ok,
          chk_detail = (if scopes_ok then ''All required scopes present: '' @ debug_list E (ch_required_scopes c)
            else ''Missing scopes: ''
              @ debug_list E (filter (\<lambda>r. r \<notin> set (card_scopes crd)) (ch_required_scopes c)))\<rparr>)"

definition meets_min_crypto :: "string option \<Rightarrow> crypto_scheme \<Rightarrow> bool" where
  "meets_min_crypto min_crypto scheme =
     (case min_crypto of
        Some m \<Rightarrow> (if m = ''hybrid'' then scheme = Hybrid
                   else if m = ''ml-dsa-65'' then scheme = MlDsa65 \<or> scheme = Hybrid
                   else True)
      | None \<Rightarrow> True)"

definition check_crypto_scheme :: "challenge \<Rightarrow> agent_card \<Rightarrow> check list" where
  "check_crypto_scheme c crd =
     (let crypto_ok = meets_min_crypto (ch_min_crypto c) (card_crypto_scheme crd)
      in case ch_min_crypto c of
           None \<Rightarrow> []
         | Some m \<Rightarrow>
             [\<lparr>chk_name = ''crypto_scheme'', chk_passed = crypto_ok,
               chk_detail = ''Crypto scheme '' @ crypto_scheme_display (card_crypto_scheme crd)
                 @ (if crypto_ok then '' meets requirement''
                    else '' does not meet minimum: '' @ m)\<rparr>])"

definition verify_response :: "ext \<Rightarrow> datetime \<Rightarrow> challenge \<Rightarrow> challenge_response \<Rightarrow> verification_result" where
  "verify_response E now c r =
     (let sign_bytes = challenge_to_sign_bytes E c;
          crd = resp_agent_card r;
          checks = [check_challenge_expiry E now c, check_challenge_id c r, check_card_expiry E now crd,
                    check_ed25519 E sign_bytes r]
                   @ check_mldsa65 E sign_bytes r @ [check_scopes E c crd] @ check_crypto_scheme c crd;
          all_passed = list_all chk_passed checks
      in \<lparr>vr_verified = all_passed, vr_checks = checks,
          vr_agent_id = (if all_passed then Some (card_id crd) else None),
          vr_agent_name = (if all_passed then Some (card_name crd) else None)\<rparr>)"

subsection \<open>The command line\<close>

definition execute_challenge ::
    "ext \<Rightarrow> datetime \<Rightarrow> uuid \<Rightarrow> bytes \<Rightarrow> agent_card \<Rightarrow> string \<Rightarrow> int \<Rightarrow> bool \<Rightarrow> challenge result" where
  "execute_challenge E now new_id nonce_bytes crd require_scope ttl require_pq =
     create_challenge E now new_id nonce_bytes (''urn:uuid:'' @ card_id crd)
       (map trim (split_on (CHR '','') require_scope)) (Some ttl) require_pq"

definition execute_respond ::
    "ext \<Rightarrow> datetime \<Rightarrow> datetime \<Rightarrow> challenge \<Rightarrow> agent_card \<Rightarrow> string \<Rightarrow> challenge_response result" where
  "execute_respond E now now' c crd key_pem =
     bind_res (require (now \<le> ch_expires_at c) (Rejected ''Challenge has expired'')) (\<lambda>_.
     bind_res (case card_crypto_scheme crd of
         Ed25519 \<Rightarrow> bind_res (decode_private_key_pem E key_pem) (\<lambda>ed. Inr (ed, None))
       | MlDsa65 \<Rightarrow> Inl (Rejected ''ML-DSA-65 only identity cannot respond to challenges'')
       | Hybrid \<Rightarrow> bind_res (decode_hybrid_private_key_pem E key_pem) (\<lambda>(ed, mldsa). Inr (ed, Some mldsa)))
       (\<lambda>(ed_key, mldsa_sk). respond_to_challenge E now' c crd ed_key mldsa_sk))"

text \<open>The exit code and whether the report claims a valid post-quantum attestation.\<close>

definition execute_verify_response :: "ext \<Rightarrow> datetime \<Rightarrow> challenge \<Rightarrow> challenge_response \<Rightarrow> nat \<times> bool" where
  "execute_verify_response E now c r =
     (if vr_verified (verify_response E now c r) then (0, resp_pq_signature r \<noteq> None) else (1, False))"

subsection \<open>The signed bytes are canonical\<close>

text \<open>
  What the bytes commit to: times in seconds.  No requested scope and the empty scope, and no
  minimum and the empty minimum, are the two pairs of challenges that share their bytes.
\<close>

definition i64_range :: "int \<Rightarrow> bool" where
  "i64_range i \<longleftrightarrow> - (2 ^ 63) \<le> i \<and> i < 2 ^ 63"

definition challenge_wf :: "ext \<Rightarrow> challenge \<Rightarrow> bool" where
  "challenge_wf E c \<longleftrightarrow>
     uuid_ok E (ch_id c) \<and> nul_free (ch_nonce c) \<and> nul_free (ch_issuer c)
     \<and> i64_range (timestamp (ch_issued_at c)) \<and> i64_range (timestamp (ch_expires_at c))
     \<and> ch_min_crypto c \<noteq> Some [] \<and> (\<forall>m \<in> set_option (ch_min_crypto c). nul_free m)
     \<and> ch_required_scopes c \<noteq> [[]] \<and> (\<forall>s \<in> set (ch_required_scopes c). nul_free s)"

definition challenge_content where
  "challenge_content c =
     (ch_id c, ch_nonce c, ch_issuer c, timestamp (ch_issued_at c), timestamp (ch_expires_at c),
      ch_min_crypto c, ch_required_scopes c)"

lemma join_eq_Nil: "join [c] ws = [] \<longleftrightarrow> ws = [] \<or> ws = [[]]"
  by (cases "([c], ws)" rule: join.cases) auto

lemma join_nul_inj:
  assumes "join [c] ws = join [c] vs" "ws \<noteq> [[]]" "vs \<noteq> [[]]"
    and "\<forall>w \<in> set ws. c \<notin> set w" "\<forall>w \<in> set vs. c \<notin> set w"
  shows "ws = vs"
proof (cases "ws = [] \<or> vs = []")
  case True
  then show ?thesis using assms(1-3) join_eq_Nil by (metis join.simps(1))
next
  case False
  then show ?thesis using assms join_inj by metis
qed

lemma min_crypto_text_inj:
  assumes "(case a of None \<Rightarrow> [] | Some m \<Rightarrow> m) = (case b of None \<Rightarrow> [] | Some m \<Rightarrow> m)"
    and "a \<noteq> Some []" "b \<noteq> Some []"
  shows "a = b"
  using assms by (cases a; cases b) auto

lemma sign_bytes_inj:
  assumes "uuid_inj E" "challenge_wf E c" "challenge_wf E d"
    and "challenge_to_sign_bytes E c = challenge_to_sign_bytes E d"
  shows "challenge_content c = challenge_content d"
proof -
  let ?mc = "\<lambda>c. case ch_min_crypto c of None \<Rightarrow> [] | Some m \<Rightarrow> m"
  have mc: "nul \<notin> set (?mc c)" "nul \<notin> set (?mc d)"
    using assms(2,3) by (auto simp: challenge_wf_def nul_free_def split: option.splits)
  let ?tail = "\<lambda>c. le_bytes64 (timestamp (ch_issued_at c)) @ nul # le_bytes64 (timestamp (ch_expires_at c))
       @ nul # ?mc c @ nul # join [nul] (ch_required_scopes c)"
  have len: "length (uuid_bytes E (ch_id c)) = length (uuid_bytes E (ch_id d))"
    using assms(2,3) by (simp add: challenge_wf_def uuid_ok_def)
  have eq: "uuid_bytes E (ch_id c) @ (nul # ch_nonce c @ nul # ch_issuer c @ nul # ?tail c)
      = uuid_bytes E (ch_id d) @ (nul # ch_nonce d @ nul # ch_issuer d @ nul # ?tail d)"
    using assms(4) unfolding challenge_to_sign_bytes_def .
  from fixed_inj [OF eq len] have "uuid_bytes E (ch_id c) = uuid_bytes E (ch_id d)"
    and 1: "ch_nonce c @ nul # ch_issuer c @ nul # ?tail c = ch_nonce d @ nul # ch_issuer d @ nul # ?tail d"
    by (simp_all only: list.inject)
  then have id: "ch_id c = ch_id d" using assms(1-3) unfolding uuid_inj_def challenge_wf_def by blast
  have n: "nul \<notin> set (ch_nonce c)" "nul \<notin> set (ch_nonce d)" "nul \<notin> set (ch_issuer c)" "nul \<notin> set (ch_issuer d)"
    using assms(2,3) by (simp_all add: challenge_wf_def nul_free_def)
  from delim_inj [OF 1 n(1,2)] have nonce: "ch_nonce c = ch_nonce d"
    and "ch_issuer c @ nul # ?tail c = ch_issuer d @ nul # ?tail d" by blast+
  from delim_inj [OF this(2) n(3,4)] have issuer: "ch_issuer c = ch_issuer d" and 2: "?tail c = ?tail d"
    by (rule conjunct1, rule conjunct2)
  have t: "le_bytes64 (timestamp (ch_issued_at c)) = le_bytes64 (timestamp (ch_issued_at d))"
      "le_bytes64 (timestamp (ch_expires_at c)) = le_bytes64 (timestamp (ch_expires_at d))"
    and 3: "?mc c @ nul # join [nul] (ch_required_scopes c) = ?mc d @ nul # join [nul] (ch_required_scopes d)"
    using 2 by auto
  have "timestamp (ch_issued_at c) = timestamp (ch_issued_at d)"
    "timestamp (ch_expires_at c) = timestamp (ch_expires_at d)"
    using t assms(2,3) by (auto intro!: le_bytes64_inj simp: challenge_wf_def i64_range_def)
  moreover have "?mc c = ?mc d" "join [nul] (ch_required_scopes c) = join [nul] (ch_required_scopes d)"
    using delim_inj [OF 3 mc] by auto
  then have "ch_min_crypto c = ch_min_crypto d" "ch_required_scopes c = ch_required_scopes d"
    using assms(2,3) min_crypto_text_inj join_nul_inj [of nul]
    by (auto simp: challenge_wf_def nul_free_def)
  ultimately show ?thesis using id nonce issuer by (simp add: challenge_content_def)
qed

interpretation chal: canonical_payload "\<lambda>c. uuid_inj E \<and> challenge_wf E c" "challenge_to_sign_bytes E"
    challenge_content for E
  by unfold_locales (auto intro: sign_bytes_inj)

subsection \<open>The verdict\<close>

definition pq_satisfied :: "ext \<Rightarrow> bytes \<Rightarrow> challenge_response \<Rightarrow> bool" where
  "pq_satisfied E m r \<longleftrightarrow>
     card_crypto_scheme (resp_agent_card r) = Hybrid \<longrightarrow>
       (\<exists>s p. resp_pq_signature r = Some s \<and> card_pq_public_key (resp_agent_card r) = Some p
              \<and> mldsa_verify E p m s = Inr True)"

lemma check_mldsa65_passed: "list_all chk_passed (check_mldsa65 E m r) \<longleftrightarrow> pq_satisfied E m r"
  by (auto simp: check_mldsa65_def pq_satisfied_def unwrap_or_False_iff Let_def split: option.splits)

lemma check_crypto_passed:
  "list_all chk_passed (check_crypto_scheme c crd)
     \<longleftrightarrow> meets_min_crypto (ch_min_crypto c) (card_crypto_scheme crd)"
  by (auto simp: check_crypto_scheme_def meets_min_crypto_def Let_def split: option.splits)

lemma check_scopes_passed:
  "chk_passed (check_scopes E c crd) \<longleftrightarrow> set (ch_required_scopes c) \<subseteq> set (card_scopes crd)"
  by (auto simp: check_scopes_def Let_def list_all_iff list_ex_iff)

lemma verified_iff:
  "vr_verified (verify_response E now c r) \<longleftrightarrow>
     now \<le> ch_expires_at c \<and> resp_challenge_id r = ch_id c \<and> now < card_expires_at (resp_agent_card r)
     \<and> verify E (card_public_key (resp_agent_card r)) (challenge_to_sign_bytes E c) (resp_signature r) = Inr True
     \<and> pq_satisfied E (challenge_to_sign_bytes E c) r
     \<and> set (ch_required_scopes c) \<subseteq> set (card_scopes (resp_agent_card r))
     \<and> meets_min_crypto (ch_min_crypto c) (card_crypto_scheme (resp_agent_card r))"
  by (auto simp: verify_response_def Let_def check_mldsa65_passed check_crypto_passed
      check_scopes_passed check_challenge_expiry_def check_challenge_id_def check_card_expiry_def
      check_ed25519_def unwrap_or_False_iff)

lemma respond_Inr:
  "respond_to_challenge E now c crd k q = Inr r \<longleftrightarrow>
     (\<exists>s. (case q of None \<Rightarrow> s = None | Some sk \<Rightarrow> \<exists>x. mldsa_sign E sk (challenge_to_sign_bytes E c) = Inr x \<and> s = Some x)
      \<and> r = \<lparr>resp_challenge_id = ch_id c, resp_agent_card = crd,
             resp_signature = sign E k (challenge_to_sign_bytes E c), resp_pq_signature = s,
             resp_responded_at = now\<rparr>)"
  by (cases q) (auto simp: respond_to_challenge_def sign_def bind_res_Inr_iff Let_def)

text \<open>A card whose keys belong to the given secrets.\<close>

definition holds_keys :: "ext \<Rightarrow> agent_card \<Rightarrow> bytes \<Rightarrow> bytes option \<Rightarrow> bool" where
  "holds_keys E crd k q \<longleftrightarrow>
     length k = 32 \<and> card_public_key crd = encode_public_key E (ed_public E k)
     \<and> (case card_crypto_scheme crd of
          Ed25519 \<Rightarrow> q = None
        | MlDsa65 \<Rightarrow> False
        | Hybrid \<Rightarrow> (\<exists>pk sk. q = Some sk \<and> pq_pair_ok E pk sk
                              \<and> card_pq_public_key crd = Some (encode_mldsa_public_key E pk)))"

lemma respond_verifies:
  assumes "b64_ok E" "ed_ok E" "holds_keys E crd k q"
    and "now \<le> ch_expires_at c" "now < card_expires_at crd"
    and "set (ch_required_scopes c) \<subseteq> set (card_scopes crd)"
    and "meets_min_crypto (ch_min_crypto c) (card_crypto_scheme crd)"
  shows "\<exists>r. respond_to_challenge E t c crd k q = Inr r \<and> vr_verified (verify_response E now c r)"
proof -
  let ?m = "challenge_to_sign_bytes E c"
  have ed: "verify E (card_public_key crd) ?m (sign E k ?m) = Inr True"
    using assms(1-3) by (auto simp: holds_keys_def verify_sign)
  show ?thesis
  proof (cases "card_crypto_scheme crd")
    case Ed25519
    then show ?thesis using assms ed
      by (auto simp: holds_keys_def verified_iff respond_Inr pq_satisfied_def)
  next
    case MlDsa65
    then show ?thesis using assms(3) by (simp add: holds_keys_def)
  next
    case Hybrid
    then obtain pk sk where q: "q = Some sk" "pq_pair_ok E pk sk"
      "card_pq_public_key crd = Some (encode_mldsa_public_key E pk)"
      using assms(3) by (auto simp: holds_keys_def)
    moreover obtain s where "mldsa_sign E sk ?m = Inr s" "mldsa_verify E (encode_mldsa_public_key E pk) ?m s = Inr True"
      using mldsa_verify_sign [OF assms(1) q(2)] by blast
    ultimately show ?thesis using assms ed Hybrid
      by (auto simp: verified_iff respond_Inr pq_satisfied_def)
  qed
qed

subsection \<open>Properties\<close>

lemma handshake_runs:
  assumes "b64_ok E" "ed_ok E" "holds_keys E crd k q"
    and "key_pem = (case q of None \<Rightarrow> encode_private_key_pem E k | Some sk \<Rightarrow> encode_hybrid_private_key_pem E k sk)"
    and "t \<le> ch_expires_at c" "now \<le> ch_expires_at c" "now < card_expires_at crd"
    and "set (ch_required_scopes c) \<subseteq> set (card_scopes crd)"
    and "meets_min_crypto (ch_min_crypto c) (card_crypto_scheme crd)"
  shows "\<exists>r. execute_respond E t t' c crd key_pem = Inr r
           \<and> vr_verified (verify_response E now c r)
           \<and> execute_verify_response E now c r = (0, card_crypto_scheme crd = Hybrid)"
proof -
  obtain r where r: "respond_to_challenge E t' c crd k q = Inr r" "vr_verified (verify_response E now c r)"
    using respond_verifies [OF assms(1-3,6-9)] by blast
  have k: "length k = 32" using assms(3) by (simp add: holds_keys_def)
  have "decode_private_key_pem E (encode_private_key_pem E k) = Inr k"
    using decode_ed_section [OF assms(1) k, of "[nl]"] by (simp add: encode_private_key_pem_def)
  then have "execute_respond E t t' c crd key_pem = Inr r"
    using r(1) assms(3-5) hybrid_pem_decode_encode [OF assms(1) k]
    by (auto simp: execute_respond_def holds_keys_def split: crypto_scheme.splits)
  moreover have "resp_pq_signature r \<noteq> None \<longleftrightarrow> card_crypto_scheme crd = Hybrid"
    using r(1) assms(3) by (auto simp: respond_Inr holds_keys_def split: crypto_scheme.splits option.splits)
  ultimately show ?thesis using r(2) by (simp add: execute_verify_response_def)
qed


text \<open>
  The handshake succeeds.  An agent whose key file holds the keys of its unexpired Ed25519 or
  hybrid card answers any challenge that asks for scopes it has, and the answer is verified
  while the challenge and the card last.
\<close>

theorem handshake_completes:
  assumes "b64_ok E" "ed_ok E" "holds_keys E crd k q"
    and "key_pem = (case q of None \<Rightarrow> encode_private_key_pem E k | Some sk \<Rightarrow> encode_hybrid_private_key_pem E k sk)"
    and "t \<le> ch_expires_at c" "now \<le> ch_expires_at c" "now < card_expires_at crd"
    and "set (ch_required_scopes c) \<subseteq> set (card_scopes crd)"
    and "meets_min_crypto (ch_min_crypto c) (card_crypto_scheme crd)"
  shows "\<exists>r. execute_respond E t t' c crd key_pem = Inr r
           \<and> vr_verified (verify_response E now c r)
           \<and> execute_verify_response E now c r = (0, card_crypto_scheme crd = Hybrid)"
  by (rule handshake_runs [OF assms])

text \<open>A card and a challenge for the witnesses.\<close>

definition demo_card :: agent_card where
  "demo_card = \<lparr>card_id = replicate 36 CHR ''a'', card_name = ''bot'', card_owner = ''me'',
     card_scopes = [''read'', ''write''],
     card_public_key = encode_public_key ref_ext (ed_public ref_ext (replicate 32 CHR ''k'')),
     card_pq_public_key = None, card_signature = [], card_pq_signature = None,
     card_crypto_scheme = Ed25519, card_issued_at = 0, card_expires_at = seconds 100,
     card_agent_type = Instance, card_parent_id = None, card_spiffe_id = None\<rparr>"

definition demo_challenge :: challenge where
  "demo_challenge = \<lparr>ch_id = replicate 36 CHR ''c'', ch_nonce = ''n'', ch_issuer = ''peer'',
     ch_required_scopes = [''read''], ch_issued_at = 0, ch_expires_at = seconds 30, ch_min_crypto = None\<rparr>"

lemma demo_keys: "holds_keys ref_ext demo_card (replicate 32 CHR ''k'') None"
  by (simp add: holds_keys_def demo_card_def)

lemma demo_challenge_wf: "challenge_wf ref_ext demo_challenge"
  by (simp add: challenge_wf_def demo_challenge_def nul_free_def i64_range_def
      timestamp_def seconds_def ns_per_sec_def)

lemma demo_response:
  "\<exists>r. respond_to_challenge ref_ext 2 demo_challenge demo_card (replicate 32 CHR ''k'') None = Inr r
     \<and> vr_verified (verify_response ref_ext 3 demo_challenge r)"
  by (rule respond_verifies [OF ref_b64_ok ref_ed_ok demo_keys])
     (simp_all add: demo_challenge_def demo_card_def seconds_def ns_per_sec_def meets_min_crypto_def)


theorem handshake_completes_witness:
  "\<exists>r. execute_respond ref_ext 1 2 demo_challenge demo_card
         (encode_private_key_pem ref_ext (replicate 32 CHR ''k'')) = Inr r
     \<and> vr_verified (verify_response ref_ext 3 demo_challenge r)
     \<and> execute_verify_response ref_ext 3 demo_challenge r = (0, card_crypto_scheme demo_card = Hybrid)"
  by (rule handshake_completes [OF ref_b64_ok ref_ed_ok demo_keys])
     (simp_all add: demo_challenge_def demo_card_def seconds_def ns_per_sec_def meets_min_crypto_def)

text \<open>
  C5: no replay across challenges.  If the answer made for one challenge is verified against
  another, both well formed, then the two challenges agree in identifier, nonce, issuer, times
  (in seconds), minimum scheme and scopes, or the signature is a forgery.
\<close>

theorem no_replay:
  assumes "b64_ok E" "ed_ok E" "length k = 32" "uuid_inj E" "challenge_wf E c" "challenge_wf E d"
    and "card_public_key crd = encode_public_key E (ed_public E k)"
    and "respond_to_challenge E t c crd k q = Inr r"
    and "vr_verified (verify_response E now d r)"
  shows "challenge_content d = challenge_content c
    \<or> (challenge_to_sign_bytes E d \<noteq> challenge_to_sign_bytes E c
       \<and> ed_check E (ed_public E k) (challenge_to_sign_bytes E d)
            (ed_sign_raw E k (challenge_to_sign_bytes E c)))"
proof (cases "challenge_to_sign_bytes E d = challenge_to_sign_bytes E c")
  case True
  then show ?thesis using chal.payload_inj [of E d c] assms(4-6) by simp
next
  case False
  then show ?thesis using assms(1-3,7-9) by (auto simp: verified_iff respond_Inr verify_on_sign)
qed

theorem no_replay_witness:
  "\<exists>r. respond_to_challenge ref_ext 2 demo_challenge demo_card (replicate 32 CHR ''k'') None = Inr r
     \<and> vr_verified (verify_response ref_ext 3 demo_challenge r)
     \<and> (challenge_content demo_challenge = challenge_content demo_challenge
        \<or> (challenge_to_sign_bytes ref_ext demo_challenge \<noteq> challenge_to_sign_bytes ref_ext demo_challenge
           \<and> ed_check ref_ext (ed_public ref_ext (replicate 32 CHR ''k''))
                (challenge_to_sign_bytes ref_ext demo_challenge)
                (ed_sign_raw ref_ext (replicate 32 CHR ''k'') (challenge_to_sign_bytes ref_ext demo_challenge))))"
proof -
  obtain r where r: "respond_to_challenge ref_ext 2 demo_challenge demo_card (replicate 32 CHR ''k'') None = Inr r"
    "vr_verified (verify_response ref_ext 3 demo_challenge r)"
    using demo_response by blast
  have "card_public_key demo_card = encode_public_key ref_ext (ed_public ref_ext (replicate 32 CHR ''k''))"
    by (simp add: demo_card_def)
  from no_replay [OF ref_b64_ok ref_ed_ok length_replicate ref_uuid_inj demo_challenge_wf demo_challenge_wf this r]
  show ?thesis using r by blast
qed

text \<open>
  The card itself is not authenticated.  Verification never looks at the card's own
  signature: for any key pair and any challenge, a card made up on the spot with the holder's
  key, any name and identifier, and exactly the scopes asked for, is verified.
\<close>

theorem self_asserted_card_verified:
  assumes "b64_ok E" "ed_ok E" "length k = 32" "now \<le> ch_expires_at c" "ch_min_crypto c = None"
  shows "\<exists>r. respond_to_challenge E t c
      (crd\<lparr>card_public_key := encode_public_key E (ed_public E k), card_crypto_scheme := Ed25519,
           card_scopes := ch_required_scopes c, card_expires_at := now + 1,
           card_signature := sig, card_id := i, card_name := n\<rparr>) k None = Inr r
    \<and> vr_verified (verify_response E now c r) \<and> vr_agent_name (verify_response E now c r) = Some n"
proof -
  let ?crd = "crd\<lparr>card_public_key := encode_public_key E (ed_public E k), card_crypto_scheme := Ed25519,
           card_scopes := ch_required_scopes c, card_expires_at := now + 1,
           card_signature := sig, card_id := i, card_name := n\<rparr>"
  obtain r where r: "respond_to_challenge E t c ?crd k None = Inr r" "vr_verified (verify_response E now c r)"
    using respond_verifies [OF assms(1,2), of ?crd k None now c t] assms
    by (auto simp: holds_keys_def meets_min_crypto_def)
  then have "vr_agent_name (verify_response E now c r) = Some n"
    by (auto simp: respond_Inr verify_response_def Let_def)
  then show ?thesis using r by blast
qed

theorem self_asserted_card_verified_witness:
  "\<exists>r. respond_to_challenge ref_ext 2 demo_challenge
      (demo_card\<lparr>card_public_key := encode_public_key ref_ext (ed_public ref_ext (replicate 32 CHR ''x'')),
           card_crypto_scheme := Ed25519,
           card_scopes := ch_required_scopes demo_challenge, card_expires_at := 3 + 1,
           card_signature := [], card_id := replicate 36 CHR ''z'', card_name := ''admin''\<rparr>) (replicate 32 CHR ''x'') None = Inr r
    \<and> vr_verified (verify_response ref_ext 3 demo_challenge r)
    \<and> vr_agent_name (verify_response ref_ext 3 demo_challenge r) = Some ''admin''"
  by (rule self_asserted_card_verified [OF ref_b64_ok ref_ed_ok])
     (simp_all add: demo_challenge_def seconds_def ns_per_sec_def)

text \<open>
  A post-quantum signature counts only for hybrid cards.  For any other scheme the answer's
  post-quantum signature is ignored, even when the challenge asks for at least ML-DSA-65, yet
  the report still lists a valid post-quantum attestation whenever one was sent.
\<close>

theorem pq_ignored_unless_hybrid:
  assumes "card_crypto_scheme (resp_agent_card r) \<noteq> Hybrid"
    and "vr_verified (verify_response E now c r)"
  shows "vr_verified (verify_response E now c (r\<lparr>resp_pq_signature := None\<rparr>))
    \<and> execute_verify_response E now c (r\<lparr>resp_pq_signature := Some junk\<rparr>) = (0, True)"
  using assms by (auto simp: verified_iff execute_verify_response_def pq_satisfied_def)

theorem pq_ignored_unless_hybrid_witness:
  "\<exists>r. execute_verify_response ref_ext 3 demo_challenge (r\<lparr>resp_pq_signature := Some ''junk''\<rparr>) = (0, True)"
proof -
  obtain r where "respond_to_challenge ref_ext 2 demo_challenge demo_card (replicate 32 CHR ''k'') None = Inr r"
    "vr_verified (verify_response ref_ext 3 demo_challenge r)"
    using demo_response by blast
  moreover from this have "card_crypto_scheme (resp_agent_card r) \<noteq> Hybrid"
    by (auto simp: respond_Inr demo_card_def)
  ultimately show ?thesis using pq_ignored_unless_hybrid by blast
qed

end
