(* ===== verification/License.thy ===== *)
theory License
  imports Crypto
begin

text \<open>
  \<^verbatim>\<open>grokingclawid-core/src/license.rs\<close>: tiers, their limits and features, the signed licence file and the
  gates on limits and features.  The licence file on disk is absent, unusable (unreadable or not
  parseable), or the parsed structure.
\<close>

subsection \<open>Tiers, features and limits\<close>

datatype license_tier = Free | Indie | Team | Enterprise

definition license_tier_display :: "license_tier \<Rightarrow> string" where
  "license_tier_display t =
     (case t of Free \<Rightarrow> ''Free'' | Indie \<Rightarrow> ''Indie ($99)'' | Team \<Rightarrow> ''Team ($199)''
      | Enterprise \<Rightarrow> ''Enterprise ($399)'')"

definition license_tier_serde :: "license_tier \<Rightarrow> string" where
  "license_tier_serde t =
     (case t of Free \<Rightarrow> ''free'' | Indie \<Rightarrow> ''indie'' | Team \<Rightarrow> ''team'' | Enterprise \<Rightarrow> ''enterprise'')"

definition license_tier_from_str :: "string \<Rightarrow> license_tier result" where
  "license_tier_from_str s =
     (let t = to_lowercase s
      in if t = ''free'' then Inr Free
         else if t = ''indie'' then Inr Indie
         else if t = ''team'' then Inr Team
         else if t = ''enterprise'' then Inr Enterprise
         else Inl (InvalidTier s))"

datatype license_feature =
    Mesh | BirthLocal | BirthMesh | BirthRemote | UnlimitedProxy | ComplianceReporting
  | OnChainAnchoring | AgentMonitoring | PrivateRegistry

definition license_feature_display :: "license_feature \<Rightarrow> string" where
  "license_feature_display f =
     (case f of Mesh \<Rightarrow> ''mesh'' | BirthLocal \<Rightarrow> ''birth_local'' | BirthMesh \<Rightarrow> ''birth_mesh''
      | BirthRemote \<Rightarrow> ''birth_remote'' | UnlimitedProxy \<Rightarrow> ''unlimited_proxy''
      | ComplianceReporting \<Rightarrow> ''compliance_reporting'' | OnChainAnchoring \<Rightarrow> ''on_chain_anchoring''
      | AgentMonitoring \<Rightarrow> ''agent_monitoring'' | PrivateRegistry \<Rightarrow> ''private_registry'')"

record license_limits =
  max_agents :: "u32 option"
  max_mesh_nodes :: "u32 option"
  max_proxy_agents :: "u32 option"
  features :: "license_feature list"

definition for_tier :: "license_tier \<Rightarrow> license_limits" where
  "for_tier tier =
     (case tier of
        Free \<Rightarrow> \<lparr>max_agents = Some 5, max_mesh_nodes = Some 0, max_proxy_agents = Some 1, features = []\<rparr>
      | Indie \<Rightarrow> \<lparr>max_agents = Some 25, max_mesh_nodes = Some 3, max_proxy_agents = None,
                 features = [UnlimitedProxy, BirthLocal, Mesh]\<rparr>
      | Team \<Rightarrow> \<lparr>max_agents = Some 100, max_mesh_nodes = Some 10, max_proxy_agents = None,
                features = [UnlimitedProxy, BirthLocal, BirthMesh, Mesh, ComplianceReporting]\<rparr>
      | Enterprise \<Rightarrow> \<lparr>max_agents = None, max_mesh_nodes = None, max_proxy_agents = None,
                features = [UnlimitedProxy, BirthLocal, BirthMesh, BirthRemote, Mesh, ComplianceReporting,
                            OnChainAnchoring, AgentMonitoring, PrivateRegistry]\<rparr>)"

definition has_feature :: "license_limits \<Rightarrow> license_feature \<Rightarrow> bool" where
  "has_feature limits feature \<longleftrightarrow> feature \<in> set (features limits)"

subsection \<open>The licence file and the state\<close>

record license_file =
  lic_tier :: license_tier
  lic_license_key :: string
  lic_issued_at :: datetime
  lic_licensee_email :: string
  lic_limits :: license_limits

record license_payload =
  pay_tier :: license_tier
  pay_licensee_email :: string
  pay_issued_at :: datetime

record license_state =
  st_tier :: license_tier
  st_limits :: license_limits
  st_licensee_email :: "string option"
  st_issued_at :: "datetime option"

definition default_license_state :: license_state where
  "default_license_state =
     \<lparr>st_tier = Free, st_limits = for_tier Free, st_licensee_email = None, st_issued_at = None\<rparr>"

definition GROKINGCLAW_LICENSE_PUBLIC_KEY :: string where
  "GROKINGCLAW_LICENSE_PUBLIC_KEY = ''DrxEgwQ+E6iuwcW4aXtPc1myPvMsMg1LG/GJbBhLz04=''"

type_synonym license_disk = "license_file result option"

text \<open>The serde text of the payload: its members in declaration order.\<close>

definition license_payload_value :: "ext \<Rightarrow> license_payload \<Rightarrow> json" where
  "license_payload_value E p =
     JObj [(''tier'', JStr (license_tier_serde (pay_tier p))),
           (''licensee_email'', JStr (pay_licensee_email p)),
           (''issued_at'', JStr (dt_serde E (pay_issued_at p)))]"

definition license_payload_json :: "ext \<Rightarrow> license_payload \<Rightarrow> string" where
  "license_payload_json E p = json_text (json_quote E) (license_payload_value E p)"

definition validate_license_key :: "ext \<Rightarrow> license_file \<Rightarrow> unit result" where
  "validate_license_key E license =
     (let payload = \<lparr>pay_tier = lic_tier license, pay_licensee_email = lic_licensee_email license,
                     pay_issued_at = lic_issued_at license\<rparr>
      in bind_res (verify E GROKINGCLAW_LICENSE_PUBLIC_KEY (license_payload_json E payload)
                     (lic_license_key license)) (\<lambda>valid.
         require valid LicenseInvalid))"

definition load_license_from_path :: "ext \<Rightarrow> license_file result \<Rightarrow> license_state result" where
  "load_license_from_path E content =
     bind_res content (\<lambda>license.
     bind_res (validate_license_key E license) (\<lambda>_.
     Inr \<lparr>st_tier = lic_tier license, st_limits = for_tier (lic_tier license),
          st_licensee_email = Some (lic_licensee_email license),
          st_issued_at = Some (lic_issued_at license)\<rparr>))"

definition load_license_from_path_inner :: "ext \<Rightarrow> license_disk \<Rightarrow> license_state result" where
  "load_license_from_path_inner E disk =
     (case disk of None \<Rightarrow> Inr default_license_state | Some content \<Rightarrow> load_license_from_path E content)"

definition load_license :: "ext \<Rightarrow> license_disk \<Rightarrow> license_state" where
  "load_license E disk = unwrap_or default_license_state (load_license_from_path_inner E disk)"

definition get_tier :: "ext \<Rightarrow> license_disk \<Rightarrow> license_tier" where
  "get_tier E disk = st_tier (load_license E disk)"

subsection \<open>Gates\<close>

definition below_max :: "string \<Rightarrow> u32 \<Rightarrow> u32 option \<Rightarrow> unit result" where
  "below_max limit_name current limit =
     (case limit of
        Some m \<Rightarrow> (if m \<le> current then Inl (LimitReached limit_name m current) else Inr ())
      | None \<Rightarrow> Inr ())"

definition check_limit :: "string \<Rightarrow> u32 \<Rightarrow> license_state \<Rightarrow> unit result" where
  "check_limit limit_name current license =
     (if limit_name = ''agents'' then below_max limit_name current (max_agents (st_limits license))
      else if limit_name = ''mesh_nodes'' then below_max limit_name current (max_mesh_nodes (st_limits license))
      else if limit_name = ''proxy_agents'' then below_max limit_name current (max_proxy_agents (st_limits license))
      else Inl (UnknownLimit limit_name))"

definition check_feature :: "license_feature \<Rightarrow> license_state \<Rightarrow> unit result" where
  "check_feature feature license =
     (if has_feature (st_limits license) feature then Inr ()
      else Inl (FeatureUnavailable (license_feature_display feature)))"

text \<open>The agents directory as its readable entries: is it a directory, does it hold \<^verbatim>\<open>agent.toml\<close>, the card.\<close>

record agent_dir_entry =
  ent_is_dir :: bool
  ent_agent_toml :: bool
  ent_agent_card :: bool

definition count_agents :: "agent_dir_entry list option \<Rightarrow> u32" where
  "count_agents agents_dir =
     (case agents_dir of
        None \<Rightarrow> 0
      | Some entries \<Rightarrow>
          foldl (\<lambda>n e. if ent_is_dir e \<and> (ent_agent_toml e \<or> ent_agent_card e) then n + 1 else n) 0 entries)"

subsection \<open>Activation\<close>

definition license_tier_parse :: "string \<Rightarrow> license_tier option" where
  "license_tier_parse s = find (\<lambda>t. license_tier_serde t = s) [Free, Indie, Team, Enterprise]"

definition license_payload_from_json :: "ext \<Rightarrow> json \<Rightarrow> license_payload option" where
  "license_payload_from_json E v =
     (case struct_members [''tier'', ''licensee_email'', ''issued_at''] v of
        Some [JStr t, JStr m, JStr d] \<Rightarrow>
          (case (license_tier_parse t, dt_serde_parse E d) of
             (Some tier, Some dt) \<Rightarrow> Some \<lparr>pay_tier = tier, pay_licensee_email = m, pay_issued_at = dt\<rparr>
           | _ \<Rightarrow> None)
      | _ \<Rightarrow> None)"

definition activate_license :: "ext \<Rightarrow> license_disk \<Rightarrow> string \<Rightarrow> (license_state \<times> license_disk) result" where
  "activate_license E disk key =
     bind_res (of_option LicenseFormat (split_once (CHR '':'') key)) (\<lambda>(payload_b64, signature_b64).
     bind_res (of_option (BadBase64 ''payload'') (b64_decode E payload_b64)) (\<lambda>payload_str.
     bind_res (of_option (ParseError ''payload'')
                (Option.bind (json_parse E payload_str) (license_payload_from_json E))) (\<lambda>payload.
     (let license = \<lparr>lic_tier = pay_tier payload, lic_license_key = signature_b64,
                     lic_issued_at = pay_issued_at payload, lic_licensee_email = pay_licensee_email payload,
                     lic_limits = for_tier (pay_tier payload)\<rparr>
      in bind_res (validate_license_key E license) (\<lambda>_.
         Inr (\<lparr>st_tier = lic_tier license, st_limits = for_tier (lic_tier license),
                st_licensee_email = Some (lic_licensee_email license),
                st_issued_at = Some (lic_issued_at license)\<rparr>,
              Some (Inr license)))))))"

definition deactivate_license :: "license_disk \<Rightarrow> license_disk" where
  "deactivate_license disk = (if disk \<noteq> None then None else disk)"

subsection \<open>Facts\<close>

lemma license_tier_serde_inj [simp]: "license_tier_serde a = license_tier_serde b \<longleftrightarrow> a = b"
  by (cases a; cases b) (simp_all add: license_tier_serde_def)

lemma license_tier_parse_serde [simp]: "license_tier_parse (license_tier_serde t) = Some t"
  by (cases t) (simp_all add: license_tier_parse_def)

definition license_wf :: "ext \<Rightarrow> license_payload \<Rightarrow> bool" where
  "license_wf E p \<longleftrightarrow> quote_ok (json_quote E) \<and> dt_serde_ok E \<and> rfc3339_range (pay_issued_at p)"

interpretation license: canonical_payload "license_wf E" "license_payload_json E" "\<lambda>p. p" for E
proof
  fix x y :: license_payload
  assume wf: "license_wf E x" "license_wf E y" and "license_payload_json E x = license_payload_json E y"
  then have "license_payload_value E x = license_payload_value E y"
    unfolding license_payload_json_def license_wf_def using json_text_inj by blast
  then show "x = y" using wf dt_serde_inj [of E "pay_issued_at x" "pay_issued_at y"]
    by (simp add: license_payload_value_def license_wf_def)
qed

definition payload_of :: "license_file \<Rightarrow> license_payload" where
  "payload_of l = \<lparr>pay_tier = lic_tier l, pay_licensee_email = lic_licensee_email l,
                   pay_issued_at = lic_issued_at l\<rparr>"

definition signed_license :: "ext \<Rightarrow> license_file \<Rightarrow> bool" where
  "signed_license E l \<longleftrightarrow>
     verify E GROKINGCLAW_LICENSE_PUBLIC_KEY (license_payload_json E (payload_of l)) (lic_license_key l) = Inr True"

lemma validate_iff: "validate_license_key E l = Inr u \<longleftrightarrow> signed_license E l"
  by (auto simp: validate_license_key_def signed_license_def payload_of_def bind_res_Inr_iff Let_def)

lemma validate_Inl: "\<not> signed_license E l \<Longrightarrow> \<exists>e. validate_license_key E l = Inl e"
  by (metis old.sum.exhaust validate_iff)

lemma load_license_cases:
  "load_license E disk =
     (case disk of
        Some (Inr l) \<Rightarrow>
          (if signed_license E l
           then \<lparr>st_tier = lic_tier l, st_limits = for_tier (lic_tier l),
                 st_licensee_email = Some (lic_licensee_email l), st_issued_at = Some (lic_issued_at l)\<rparr>
           else default_license_state)
      | _ \<Rightarrow> default_license_state)"
proof (cases "\<exists>l. disk = Some (Inr l)")
  case True
  then obtain l where l: "disk = Some (Inr l)" by blast
  show ?thesis
  proof (cases "signed_license E l")
    case True
    then have "validate_license_key E l = Inr ()" by (simp add: validate_iff)
    then show ?thesis using True l
      by (simp add: load_license_def load_license_from_path_inner_def load_license_from_path_def)
  next
    case False
    then obtain e where "validate_license_key E l = Inl e" using validate_Inl by blast
    then show ?thesis using False l
      by (simp add: load_license_def load_license_from_path_inner_def load_license_from_path_def)
  qed
next
  case False
  then show ?thesis
    by (auto simp: load_license_def load_license_from_path_inner_def load_license_from_path_def
        split: option.splits sum.splits)
qed

text \<open>No limit is the largest limit.\<close>

fun limit_le :: "u32 option \<Rightarrow> u32 option \<Rightarrow> bool" where
  "limit_le _ None = True"
| "limit_le None (Some b) = False"
| "limit_le (Some a) (Some b) = (a \<le> b)"

fun under :: "u32 \<Rightarrow> u32 option \<Rightarrow> bool" where
  "under c None = True"
| "under c (Some m) = (c < m)"

fun tier_rank :: "license_tier \<Rightarrow> nat" where
  "tier_rank Free = 0" | "tier_rank Indie = 1" | "tier_rank Team = 2" | "tier_rank Enterprise = 3"

lemma count_agents_fold:
  "foldl (\<lambda>n e. if P e then n + 1 else n) (k :: u32) es = k + of_nat (length (filter P es))"
  by (induction es arbitrary: k) (auto simp: algebra_simps)

lemma activate_Inr:
  assumes "activate_license E disk key = Inr (st, disk')"
  shows "\<exists>l. disk' = Some (Inr l) \<and> validate_license_key E l = Inr ()
    \<and> st = \<lparr>st_tier = lic_tier l, st_limits = for_tier (lic_tier l),
             st_licensee_email = Some (lic_licensee_email l), st_issued_at = Some (lic_issued_at l)\<rparr>"
  using assms unfolding activate_license_def by (force simp: bind_res_Inr_iff Let_def)

lemma below_max_iff: "below_max x c l = Inr () \<longleftrightarrow> under c l"
  by (cases l) (auto simp: below_max_def)

lemma below_max_mono: "limit_le l l' \<Longrightarrow> below_max x c l = Inr () \<Longrightarrow> below_max x c l' = Inr ()"
  by (cases l; cases l') (auto simp: below_max_iff)

lemma for_tier_mono:
  assumes "tier_rank a \<le> tier_rank b"
  shows "limit_le (max_agents (for_tier a)) (max_agents (for_tier b))"
    "limit_le (max_mesh_nodes (for_tier a)) (max_mesh_nodes (for_tier b))"
    "limit_le (max_proxy_agents (for_tier a)) (max_proxy_agents (for_tier b))"
    "set (features (for_tier a)) \<subseteq> set (features (for_tier b))"
  using assms by (cases a; cases b; simp add: for_tier_def)+

lemma u32_incr:
  assumes "cur < (m :: u32)"
  shows "unat (cur + 1) = unat cur + 1 \<and> cur + 1 \<le> m"
proof -
  have "unat cur < unat m" "unat m < 2 ^ 32" using assms unsigned_less [of m] by (simp_all add: word_less_nat_alt)
  then have "unat (cur + 1) = unat cur + 1" using unat_add_lem [of cur 1] by simp
  then show ?thesis using \<open>unat cur < unat m\<close> by (simp add: word_le_nat_alt)
qed

subsection \<open>Properties\<close>

text \<open>
  C37: a paid tier needs the vendor's signature.  Loading always yields a state (any failure gives
  the free tier), the limits always are those of the tier whatever the file claims, and a tier
  other than free is granted only for a stored licence whose key verifies under the built-in
  public key over exactly that tier, address and date.
\<close>

theorem paid_tier_needs_signature:
  "st_limits (load_license E disk) = for_tier (st_tier (load_license E disk))
   \<and> (st_tier (load_license E disk) \<noteq> Free \<longrightarrow>
       (\<exists>l. disk = Some (Inr l) \<and> st_tier (load_license E disk) = lic_tier l
          \<and> verify E GROKINGCLAW_LICENSE_PUBLIC_KEY
              (license_payload_json E \<lparr>pay_tier = lic_tier l, pay_licensee_email = lic_licensee_email l,
                                       pay_issued_at = lic_issued_at l\<rparr>) (lic_license_key l) = Inr True))"
  by (auto simp: load_license_cases default_license_state_def signed_license_def payload_of_def
      split: option.splits sum.splits)

text \<open>An instance in which one key is accepted, for the witnesses.\<close>

definition lic_ext :: ext where
  "lic_ext = ref_ext\<lparr>b64_decode := (\<lambda>s. if s = GROKINGCLAW_LICENSE_PUBLIC_KEY then Some (replicate 32 CHR ''v'')
                                   else unnibbles s),
                  json_parse := (\<lambda>_. Some (JObj [(''tier'', JStr ''team''), (''licensee_email'', JStr ''m''),
                                                 (''issued_at'', JStr (ref_dt 0))]))\<rparr>"

definition demo_license :: license_file where
  "demo_license = \<lparr>lic_tier = Team,
     lic_license_key = nibbles (replicate 32 CHR ''v'' @ pad 32 (rev (license_payload_json ref_ext
        \<lparr>pay_tier = Team, pay_licensee_email = ''m'', pay_issued_at = 0\<rparr>))),
     lic_issued_at = 0, lic_licensee_email = ''m'', lic_limits = for_tier Enterprise\<rparr>"

lemma GROKINGCLAW_KEY_not_nibbles: "nibbles b \<noteq> GROKINGCLAW_LICENSE_PUBLIC_KEY"
proof -
  have "hd (nibbles b) \<noteq> CHR ''D''" if ne: "b \<noteq> []"
  proof -
    obtain c r where "b = c # r" using ne by (cases b) auto
    moreover have "(of_char c :: nat) div 16 < 16" using of_char_less [of c] by (intro less_mult_imp_div_less) simp
    then have ne: "(of_char (char_of (97 + (of_char c :: nat) div 16) :: char) :: nat) \<noteq> 68" by simp
    have "char_of (97 + (of_char c :: nat) div 16) \<noteq> CHR ''D''"
    proof
      assume "char_of (97 + (of_char c :: nat) div 16) = CHR ''D''"
      with ne have "(of_char CHR ''D'' :: nat) \<noteq> 68" by metis
      then show False by simp
    qed
    ultimately show ?thesis by (simp add: nibbles_def)
  qed
  then show ?thesis by (cases "b = []") (auto simp: GROKINGCLAW_LICENSE_PUBLIC_KEY_def nibbles_def)
qed

lemma lic_b64_ok: "b64_ok lic_ext"
proof -
  have "b64_decode lic_ext (b64_encode lic_ext b) = Some b" for b
    using GROKINGCLAW_KEY_not_nibbles [of b] by (simp add: lic_ext_def ref_ext_def unnibbles_nibbles)
  then show ?thesis unfolding b64_ok_def using nibbles_b64 by (simp add: lic_ext_def ref_ext_def)
qed

lemma demo_license_signed: "signed_license lic_ext demo_license"
proof -
  let ?s = "replicate 32 CHR ''v'' @ pad 32 (rev (license_payload_json ref_ext
        \<lparr>pay_tier = Team, pay_licensee_email = ''m'', pay_issued_at = 0\<rparr>))"
  have p: "license_payload_json lic_ext p = license_payload_json ref_ext p" for p
    by (simp add: license_payload_json_def license_payload_value_def lic_ext_def)
  have "b64_decode lic_ext (nibbles ?s) = Some ?s" "b64_decode lic_ext GROKINGCLAW_LICENSE_PUBLIC_KEY = Some (replicate 32 CHR ''v'')"
    using GROKINGCLAW_KEY_not_nibbles [of ?s] by (simp_all add: lic_ext_def unnibbles_nibbles)
  moreover have "ed_point_ok lic_ext = (\<lambda>_. True)" "ed_check lic_ext = (\<lambda>p m s. s = p @ pad 32 (rev m))"
    by (simp_all add: lic_ext_def ref_ext_def)
  ultimately show ?thesis
    by (simp add: signed_license_def verify_def payload_of_def demo_license_def p)
qed

theorem paid_tier_needs_signature_witness:
  "st_tier (load_license lic_ext (Some (Inr demo_license))) = Team
   \<and> st_limits (load_license lic_ext (Some (Inr demo_license))) = for_tier Team"
proof -
  have "st_tier (load_license lic_ext (Some (Inr demo_license))) = Team"
    by (simp add: load_license_cases demo_license_signed) (simp add: demo_license_def)
  then show ?thesis using paid_tier_needs_signature [of lic_ext "Some (Inr demo_license)"] by simp
qed

text \<open>
  A licence key cannot be moved to another tier, address or date: two licences in range that
  carry the same key and both validate have the same payload, unless the key is a signature that
  verifies on two different messages.
\<close>

theorem license_key_binding:
  assumes "quote_ok (json_quote E)" "dt_serde_ok E"
    and "rfc3339_range (lic_issued_at l)" "rfc3339_range (lic_issued_at l')"
    and "validate_license_key E l = Inr ()" "validate_license_key E l' = Inr ()"
    and "lic_license_key l = lic_license_key l'"
  shows "(lic_tier l, lic_licensee_email l, lic_issued_at l) = (lic_tier l', lic_licensee_email l', lic_issued_at l')
    \<or> (\<exists>m m'. m \<noteq> m' \<and> verify E GROKINGCLAW_LICENSE_PUBLIC_KEY m (lic_license_key l) = Inr True
          \<and> verify E GROKINGCLAW_LICENSE_PUBLIC_KEY m' (lic_license_key l) = Inr True)"
proof (cases "license_payload_json E (payload_of l) = license_payload_json E (payload_of l')")
  case True
  then show ?thesis using license.payload_inj [of E "payload_of l" "payload_of l'"] assms(1-4)
    by (simp add: license_wf_def payload_of_def)
next
  case False
  then show ?thesis using assms(5-7) by (auto simp: validate_iff signed_license_def)
qed

theorem license_key_binding_witness:
  "validate_license_key lic_ext demo_license = Inr ()
   \<and> ((lic_tier demo_license, lic_licensee_email demo_license, lic_issued_at demo_license)
        = (lic_tier demo_license, lic_licensee_email demo_license, lic_issued_at demo_license)
    \<or> (\<exists>m m'. m \<noteq> m' \<and> verify lic_ext GROKINGCLAW_LICENSE_PUBLIC_KEY m (lic_license_key demo_license) = Inr True
          \<and> verify lic_ext GROKINGCLAW_LICENSE_PUBLIC_KEY m' (lic_license_key demo_license) = Inr True))"
proof -
  have v: "validate_license_key lic_ext demo_license = Inr ()" by (simp add: validate_iff demo_license_signed)
  have q: "quote_ok (json_quote lic_ext)" using ref_quote_ok by (simp add: lic_ext_def)
  have d: "dt_serde_ok lic_ext" by (simp add: dt_serde_ok_def lic_ext_def ref_ext_def ref_dt_roundtrip)
  have r: "rfc3339_range (lic_issued_at demo_license)"
    by (simp add: demo_license_def rfc3339_range_def seconds_def ns_per_sec_def)
  show ?thesis using license_key_binding [OF q d r r v v refl] v by blast
qed

text \<open>
  Activation.  On success the licence was signed, the state it reports is the one every later
  load gives, and deactivating returns to the free tier; a refused key leaves the file alone.
\<close>

theorem activate_then_load:
  assumes "activate_license E disk key = Inr (st, disk')"
  shows "load_license E disk' = st \<and> st_limits st = for_tier (st_tier st)
    \<and> (\<exists>l. disk' = Some (Inr l) \<and> validate_license_key E l = Inr () \<and> lic_tier l = st_tier st)
    \<and> load_license E (deactivate_license disk') = default_license_state"
proof -
  obtain l where l: "disk' = Some (Inr l)" "validate_license_key E l = Inr ()"
    "st = \<lparr>st_tier = lic_tier l, st_limits = for_tier (lic_tier l),
           st_licensee_email = Some (lic_licensee_email l), st_issued_at = Some (lic_issued_at l)\<rparr>"
    using activate_Inr [OF assms] by blast
  then show ?thesis using validate_iff [of E l "()"]
    by (auto simp: load_license_cases deactivate_license_def)
qed

theorem activate_then_load_witness:
  "\<exists>st disk'. activate_license lic_ext None (nibbles ''x'' @ '':'' @ lic_license_key demo_license) = Inr (st, disk')
     \<and> load_license lic_ext disk' = st \<and> st_tier st = Team"
proof -
  have c: "CHR '':'' \<notin> set (nibbles ''x'')" using nibbles_b64 is_b64_char_others(5) by blast
  let ?l = "demo_license\<lparr>lic_limits := for_tier Team\<rparr>"
  have "signed_license lic_ext ?l" using demo_license_signed by (simp add: signed_license_def payload_of_def)
  then have v: "validate_license_key lic_ext \<lparr>lic_tier = Team, lic_license_key = lic_license_key demo_license,
      lic_issued_at = 0, lic_licensee_email = ''m'', lic_limits = for_tier Team\<rparr> = Inr ()"
    by (simp add: validate_iff demo_license_def)
  have "b64_decode lic_ext (nibbles ''x'') = Some ''x''"
    using GROKINGCLAW_KEY_not_nibbles [of "''x''"] by (simp add: lic_ext_def unnibbles_nibbles)
  moreover have "Option.bind (json_parse lic_ext ''x'') (license_payload_from_json lic_ext)
      = Some \<lparr>pay_tier = Team, pay_licensee_email = ''m'', pay_issued_at = 0\<rparr>"
    by (simp add: lic_ext_def license_payload_from_json_def struct_members_def struct_field_def license_tier_parse_def
        license_tier_serde_def ref_ext_def ref_dt_roundtrip)
  ultimately obtain st disk' where a: "activate_license lic_ext None (nibbles ''x'' @ '':'' @ lic_license_key demo_license)
      = Inr (st, disk')" "st_tier st = Team"
    using v split_once_append [OF c] by (simp add: activate_license_def)
  then show ?thesis using activate_then_load [OF a(1)] by blast
qed

text \<open>
  The gates.  A limit check succeeds exactly when the limit is one of the three and the
  current count is below it, so that one more stays within the limit and the 32-bit count does
  not wrap; an unknown limit is refused, and a feature is granted exactly on its tiers.
\<close>

theorem gates_spec:
  "(check_limit ''agents'' cur st = Inr () \<longleftrightarrow> under cur (max_agents (st_limits st)))
   \<and> (check_limit ''mesh_nodes'' cur st = Inr () \<longleftrightarrow> under cur (max_mesh_nodes (st_limits st)))
   \<and> (check_limit ''proxy_agents'' cur st = Inr () \<longleftrightarrow> under cur (max_proxy_agents (st_limits st)))
   \<and> (check_limit n cur st = Inr () \<longrightarrow> n \<in> {''agents'', ''mesh_nodes'', ''proxy_agents''})
   \<and> (max_agents (st_limits st) = Some m \<and> check_limit ''agents'' cur st = Inr () \<longrightarrow>
        unat (cur + 1) = unat cur + 1 \<and> cur + 1 \<le> m)
   \<and> (check_feature f st = Inr () \<longleftrightarrow> f \<in> set (features (st_limits st)))"
  using u32_incr by (auto simp: check_limit_def below_max_iff check_feature_def has_feature_def)

theorem gates_spec_witness:
  "check_limit ''agents'' 4 default_license_state = Inr () \<and> unat (4 + 1 :: u32) = unat (4 :: u32) + 1
   \<and> check_feature Mesh default_license_state \<noteq> Inr ()"
  using gates_spec [of 4 default_license_state "''agents''" 5 Mesh]
  by (simp add: default_license_state_def for_tier_def)

text \<open>
  A higher tier never takes anything away: along Free, Indie, Team, Enterprise every limit
  grows (no limit being the largest) and every feature is kept, so whatever the gates allow on
  a tier they allow on every higher one.
\<close>

theorem tiers_monotone:
  assumes "tier_rank a \<le> tier_rank b"
    and "st_limits s = for_tier a" "st_limits s' = for_tier b"
  shows "(check_limit n cur s = Inr () \<longrightarrow> check_limit n cur s' = Inr ())
    \<and> (check_feature f s = Inr () \<longrightarrow> check_feature f s' = Inr ())"
proof (intro conjI impI)
  assume "check_limit n cur s = Inr ()"
  then show "check_limit n cur s' = Inr ()"
    using below_max_mono [OF for_tier_mono(1)] below_max_mono [OF for_tier_mono(2)]
      below_max_mono [OF for_tier_mono(3)] assms
    by (auto simp: check_limit_def split: if_splits)
next
  assume "check_feature f s = Inr ()"
  then show "check_feature f s' = Inr ()"
    using for_tier_mono(4) [OF assms(1)] assms(2,3) by (auto simp: check_feature_def has_feature_def split: if_splits)
qed

theorem tiers_monotone_witness:
  "check_feature Mesh (default_license_state\<lparr>st_limits := for_tier Team\<rparr>) = Inr ()"
  using tiers_monotone [of Indie Team "default_license_state\<lparr>st_limits := for_tier Indie\<rparr>"
      "default_license_state\<lparr>st_limits := for_tier Team\<rparr>" "''agents''" 0 Mesh]
  by (simp add: check_feature_def has_feature_def for_tier_def)

end
