(* ===== verification/Cards.thy ===== *)
theory Cards
  imports Audit_Log Revocation_Registry
begin

text \<open>
  The life of an identity card on the command line: issuing, verifying, delegating, rotating and
  revoking (\<^verbatim>\<open>grokingclawid-cli/src/commands/\<close> \<^verbatim>\<open>issue.rs\<close>, \<^verbatim>\<open>verify.rs\<close>, \<^verbatim>\<open>delegate.rs\<close>, \<^verbatim>\<open>rotate.rs\<close>, \<^verbatim>\<open>revoke.rs\<close>).
  A command takes the parsed card and the text of the key file, the clock and the randomness it
  draws, and returns what it writes, with the audit log and the revocation registry it changed.
\<close>

subsection \<open>The JSON form of cards and tokens\<close>

definition opt_member :: "string \<Rightarrow> string option \<Rightarrow> (string \<times> json) list" where
  "opt_member k v = (case v of None \<Rightarrow> [] | Some s \<Rightarrow> [(k, JStr s)])"

definition card_members :: "ext \<Rightarrow> agent_card \<Rightarrow> (string \<times> json) list" where
  "card_members E c =
     [(''id'', JStr (card_id c)), (''name'', JStr (card_name c)), (''owner'', JStr (card_owner c)),
      (''scopes'', JArr (map JStr (card_scopes c))), (''public_key'', JStr (card_public_key c))]
     @ opt_member ''pq_public_key'' (card_pq_public_key c)
     @ [(''signature'', JStr (card_signature c))]
     @ opt_member ''pq_signature'' (card_pq_signature c)
     @ [(''crypto_scheme'', JStr (crypto_scheme_serde (card_crypto_scheme c))),
        (''issued_at'', JStr (dt_serde E (card_issued_at c))),
        (''expires_at'', JStr (dt_serde E (card_expires_at c))),
        (''agent_type'', JStr (agent_type_display (card_agent_type c)))]
     @ opt_member ''parent_id'' (card_parent_id c)
     @ opt_member ''spiffe_id'' (card_spiffe_id c)"

text \<open>The signature fields are cleared, the rest becomes a \<^verbatim>\<open>Value\<close> and then canonical text.\<close>

definition unsigned :: "agent_card \<Rightarrow> agent_card" where
  "unsigned c = c\<lparr>card_signature := [], card_pq_signature := None\<rparr>"

definition card_signing_payload :: "ext \<Rightarrow> agent_card \<Rightarrow> string" where
  "card_signing_payload E c = canonical_json (json_quote E) (json_object (card_members E (unsigned c)))"

definition token_signing_payload :: "ext \<Rightarrow> delegation_token \<Rightarrow> string" where
  "token_signing_payload E t =
     json_text (json_quote E) (JObj
       [(''id'', JStr (tok_id t)), (''parent_id'', JStr (tok_parent_id t)),
        (''agent_name'', JStr (tok_agent_name t)), (''scopes'', JArr (map JStr (tok_scopes t))),
        (''issued_at'', JStr (dt_serde E (tok_issued_at t))),
        (''expires_at'', JStr (dt_serde E (tok_expires_at t))), (''signature'', JStr []),
        (''crypto_scheme'', JStr (crypto_scheme_serde (tok_crypto_scheme t)))])"

subsection \<open>Durations\<close>

text \<open>\<^verbatim>\<open>split_at\<close> panics when the last byte is inside a character.\<close>

definition parse_ttl :: "string \<Rightarrow> int result" where
  "parse_ttl ttl0 =
     (let ttl = trim ttl0
      in if ttl = [] then Inl EmptyTtl
         else if 128 \<le> (of_char (last ttl) :: nat) then Inl (Panic ''split_at'')
         else (let num_str = butlast ttl; unit = last ttl
               in bind_res (of_option (BadTtlNumber num_str) (parse_i64 num_str)) (\<lambda>num.
                  if unit = CHR ''m'' then duration_of num 60
                  else if unit = CHR ''h'' then duration_of num 3600
                  else if unit = CHR ''d'' then duration_of num 86400
                  else Inl (BadTtlUnit [unit]))))"

subsection \<open>Signing a card under its scheme\<close>

text \<open>
  What \<^verbatim>\<open>issue\<close> and \<^verbatim>\<open>rotate\<close> do alike: draw the keys the scheme needs, build the card around the public
  keys with empty signatures, sign its payload, and write the key file.  The classical seed and
  the outcome of the post-quantum generator are arguments.
\<close>

record signed_parts =
  sp_public_key :: string
  sp_pq_public_key :: "string option"
  sp_signature :: string
  sp_pq_signature :: "string option"
  sp_key_pem :: string

definition sign_under_scheme ::
    "ext \<Rightarrow> bytes \<Rightarrow> (bytes \<times> bytes) option \<Rightarrow> crypto_scheme \<Rightarrow> (string \<Rightarrow> string option \<Rightarrow> agent_card)
      \<Rightarrow> signed_parts result" where
  "sign_under_scheme E seed keygen scheme build =
     (case scheme of
        Ed25519 \<Rightarrow>
          (let (sk, vk) = generate_keypair E seed;
               pub_b64 = encode_public_key E vk;
               payload = card_signing_payload E (build pub_b64 None)
           in Inr \<lparr>sp_public_key = pub_b64, sp_pq_public_key = None, sp_signature = sign E sk payload,
                   sp_pq_signature = None, sp_key_pem = encode_private_key_pem E sk\<rparr>)
      | MlDsa65 \<Rightarrow>
          bind_res (generate_mldsa_keypair keygen) (\<lambda>mldsa_kp.
            (let pq_pub_b64 = encode_mldsa_public_key E (public_key_bytes mldsa_kp);
                 (ed_sk, ed_vk) = generate_keypair E seed;
                 ed_pub_b64 = encode_public_key E ed_vk;
                 payload = card_signing_payload E (build ed_pub_b64 (Some pq_pub_b64))
             in bind_res (mldsa_sign E (secret_key_bytes mldsa_kp) payload) (\<lambda>pq_sig.
                Inr \<lparr>sp_public_key = ed_pub_b64, sp_pq_public_key = Some pq_pub_b64,
                     sp_signature = sign E ed_sk payload, sp_pq_signature = Some pq_sig,
                     sp_key_pem = encode_hybrid_private_key_pem E ed_sk (secret_key_bytes mldsa_kp)\<rparr>)))
      | Hybrid \<Rightarrow>
          bind_res (generate_hybrid_keypair E seed keygen) (\<lambda>hkp.
            (let ed_pub_b64 = encode_public_key E (ed25519_verifying hkp);
                 pq_pub_b64 = encode_mldsa_public_key E (mldsa_public hkp);
                 payload = card_signing_payload E (build ed_pub_b64 (Some pq_pub_b64))
             in bind_res (hybrid_sign E (ed25519_signing hkp) (mldsa_secret hkp) payload) (\<lambda>hsig.
                Inr \<lparr>sp_public_key = ed_pub_b64, sp_pq_public_key = Some pq_pub_b64,
                     sp_signature = hs_ed25519 hsig, sp_pq_signature = Some (hs_mldsa65 hsig),
                     sp_key_pem = encode_hybrid_private_key_pem E (ed25519_signing hkp) (mldsa_secret hkp)\<rparr>))))"

definition ed_key_of_pem :: "ext \<Rightarrow> crypto_scheme \<Rightarrow> string \<Rightarrow> bytes result" where
  "ed_key_of_pem E scheme key_pem =
     (case scheme of
        Ed25519 \<Rightarrow> decode_private_key_pem E key_pem
      | _ \<Rightarrow> bind_res (decode_hybrid_private_key_pem E key_pem) (\<lambda>(ed, _). Inr ed))"

subsection \<open>Issue\<close>

definition build_card ::
    "uuid \<Rightarrow> string \<Rightarrow> string \<Rightarrow> string list \<Rightarrow> string \<Rightarrow> string option \<Rightarrow> string \<Rightarrow> string option \<Rightarrow> crypto_scheme
      \<Rightarrow> datetime \<Rightarrow> datetime \<Rightarrow> agent_type \<Rightarrow> uuid option \<Rightarrow> string option \<Rightarrow> agent_card" where
  "build_card new_id name owner scopes public_key pq_public_key signature pq_signature scheme now expires_at
     atype parent_id spiffe_id =
     \<lparr>card_id = new_id, card_name = name, card_owner = owner, card_scopes = scopes, card_public_key = public_key,
      card_pq_public_key = pq_public_key, card_signature = signature, card_pq_signature = pq_signature,
      card_crypto_scheme = scheme, card_issued_at = now, card_expires_at = expires_at,
      card_agent_type = atype, card_parent_id = parent_id, card_spiffe_id = spiffe_id\<rparr>"

record issue_output =
  out_card :: agent_card
  out_key_pem :: string
  out_audit :: audit_db

definition issue ::
    "ext \<Rightarrow> datetime \<Rightarrow> datetime \<Rightarrow> uuid \<Rightarrow> bytes \<Rightarrow> (bytes \<times> bytes) option \<Rightarrow> audit_db
      \<Rightarrow> string \<Rightarrow> string \<Rightarrow> string \<Rightarrow> string \<Rightarrow> string \<Rightarrow> string \<Rightarrow> string option \<Rightarrow> issue_output result" where
  "issue E now now' new_id seed keygen db name owner scope ttl agent_type crypto_scheme trust_domain =
     (let scopes = map trim (split_on (CHR '','') scope)
      in bind_res (parse_ttl ttl) (\<lambda>duration.
         bind_res (agent_type_from_str agent_type) (\<lambda>atype.
         bind_res (crypto_scheme_from_str crypto_scheme) (\<lambda>scheme.
         bind_res (plus_duration E now duration) (\<lambda>expires_at.
         (let spiffe_id = map_option (\<lambda>td. generate_spiffe_id td name atype) trust_domain
          in bind_res (sign_under_scheme E seed keygen scheme
                (\<lambda>pub pq. build_card new_id name owner scopes pub pq [] None scheme now expires_at atype None spiffe_id))
             (\<lambda>p.
               (let crd = build_card new_id name owner scopes (sp_public_key p) (sp_pq_public_key p)
                            (sp_signature p) (sp_pq_signature p) scheme now expires_at atype None spiffe_id
                in bind_res (ed_key_of_pem E scheme (sp_key_pem p)) (\<lambda>ed_key.
                   Inr \<lparr>out_card = crd, out_key_pem = sp_key_pem p,
                        out_audit = snd (record_entry E now' db new_id ''issue'' name ed_key)\<rparr>)))))))))"

subsection \<open>Verify\<close>

definition card_signatures :: "ext \<Rightarrow> agent_card \<Rightarrow> (bool \<times> bool option) result" where
  "card_signatures E crd =
     (let payload = card_signing_payload E crd
      in case card_crypto_scheme crd of
           Ed25519 \<Rightarrow>
             bind_res (verify E (card_public_key crd) payload (card_signature crd)) (\<lambda>ed_ok. Inr (ed_ok, None))
         | MlDsa65 \<Rightarrow>
             bind_res (of_option MissingPqKey (card_pq_public_key crd)) (\<lambda>pq_pub.
             bind_res (of_option MissingPqSignature (card_pq_signature crd)) (\<lambda>pq_sig.
             bind_res (mldsa_verify E pq_pub payload pq_sig) (\<lambda>pq_ok.
             bind_res (verify E (card_public_key crd) payload (card_signature crd)) (\<lambda>ed_ok.
             Inr (ed_ok, Some pq_ok)))))
         | Hybrid \<Rightarrow>
             bind_res (verify E (card_public_key crd) payload (card_signature crd)) (\<lambda>ed_ok.
             bind_res (of_option MissingPqKey (card_pq_public_key crd)) (\<lambda>pq_pub.
             bind_res (of_option MissingPqSignature (card_pq_signature crd)) (\<lambda>pq_sig.
             bind_res (mldsa_verify E pq_pub payload pq_sig) (\<lambda>pq_ok.
             Inr (ed_ok, Some pq_ok))))))"

text \<open>
  The verdict of \<^verbatim>\<open>verify\<close>, exit code 0 for true; a registry that cannot be opened counts as empty.
\<close>

definition verify_card :: "ext \<Rightarrow> datetime \<Rightarrow> revocation_db option \<Rightarrow> agent_card \<Rightarrow> bool result" where
  "verify_card E now registry crd =
     bind_res (card_signatures E crd) (\<lambda>(ed_valid, pq_valid).
       (let not_expired = (now < card_expires_at crd);
            not_before = (card_issued_at crd \<le> now);
            revoked = (case registry of None \<Rightarrow> False | Some db \<Rightarrow> is_revoked db (card_id crd));
            all_sigs_valid = (ed_valid \<and> (case pq_valid of None \<Rightarrow> True | Some b \<Rightarrow> b))
        in Inr (all_sigs_valid \<and> not_expired \<and> not_before \<and> \<not> revoked)))"

subsection \<open>Delegate\<close>

definition build_token ::
    "uuid \<Rightarrow> uuid \<Rightarrow> string \<Rightarrow> string list \<Rightarrow> datetime \<Rightarrow> datetime \<Rightarrow> string \<Rightarrow> string option \<Rightarrow> crypto_scheme
      \<Rightarrow> delegation_token" where
  "build_token new_id parent_id agent_name scopes issued_at expires_at signature pq_signature scheme =
     \<lparr>tok_id = new_id, tok_parent_id = parent_id, tok_agent_name = agent_name, tok_scopes = scopes,
      tok_issued_at = issued_at, tok_expires_at = expires_at, tok_signature = signature,
      tok_pq_signature = pq_signature, tok_crypto_scheme = scheme\<rparr>"

fun scopes_held :: "string list \<Rightarrow> string list \<Rightarrow> unit result" where
  "scopes_held parent [] = Inr ()"
| "scopes_held parent (s # ss) = (if s \<notin> set parent then Inl (ScopeNotHeld s) else scopes_held parent ss)"

definition token_signatures :: "ext \<Rightarrow> agent_card \<Rightarrow> string \<Rightarrow> string \<Rightarrow> (string \<times> string option \<times> bytes) result" where
  "token_signatures E parent_card key_pem payload =
     (case card_crypto_scheme parent_card of
        Ed25519 \<Rightarrow>
          bind_res (decode_private_key_pem E key_pem) (\<lambda>ed_key.
          bind_res (require (encode_public_key E (ed_public E ed_key) = card_public_key parent_card)
                      KeyMismatch) (\<lambda>_.
          Inr (sign E ed_key payload, None, ed_key)))
      | _ \<Rightarrow>
          bind_res (decode_hybrid_private_key_pem E key_pem) (\<lambda>(ed_key, mldsa_key).
          bind_res (require (encode_public_key E (ed_public E ed_key) = card_public_key parent_card)
                      KeyMismatch) (\<lambda>_.
          bind_res (mldsa_sign E mldsa_key payload) (\<lambda>pq_sig.
          Inr (sign E ed_key payload, Some pq_sig, ed_key)))))"

definition delegate ::
    "ext \<Rightarrow> datetime \<Rightarrow> datetime \<Rightarrow> uuid \<Rightarrow> audit_db \<Rightarrow> agent_card \<Rightarrow> string \<Rightarrow> string \<Rightarrow> string \<Rightarrow> string
      \<Rightarrow> (delegation_token \<times> audit_db) result" where
  "delegate E now now' new_id db parent_card key_pem to_name scope ttl =
     (let requested_scopes = map trim (split_on (CHR '','') scope)
      in bind_res (scopes_held (card_scopes parent_card) requested_scopes) (\<lambda>_.
         bind_res (parse_ttl ttl) (\<lambda>duration.
         bind_res (plus_duration E now duration) (\<lambda>expires_at.
         bind_res (require (expires_at \<le> card_expires_at parent_card) ExpiresAfterParent) (\<lambda>_.
         (let tok = build_token new_id (card_id parent_card) to_name requested_scopes now expires_at [] None
                      (card_crypto_scheme parent_card)
          in bind_res (token_signatures E parent_card key_pem (token_signing_payload E tok))
               (\<lambda>(signature, pq_signature, ed_key).
             Inr (tok\<lparr>tok_signature := signature, tok_pq_signature := pq_signature\<rparr>,
                  snd (record_entry E now' db (card_id parent_card) ''delegate'' (''delegate:'' @ to_name) ed_key)))))))))"

subsection \<open>Rotate\<close>

definition build_rotated_card ::
    "agent_card \<Rightarrow> string \<Rightarrow> string option \<Rightarrow> string \<Rightarrow> string option \<Rightarrow> datetime \<Rightarrow> datetime \<Rightarrow> agent_card" where
  "build_rotated_card old public_key pq_public_key signature pq_signature now expires_at =
     old\<lparr>card_public_key := public_key, card_pq_public_key := pq_public_key, card_signature := signature,
         card_pq_signature := pq_signature, card_issued_at := now, card_expires_at := expires_at\<rparr>"

definition first16 :: "string \<Rightarrow> string result" where
  "first16 s = of_option (Panic ''slice'') (slice s 0 16)"

definition rotate_card ::
    "ext \<Rightarrow> datetime \<Rightarrow> datetime \<Rightarrow> bytes \<Rightarrow> (bytes \<times> bytes) option \<Rightarrow> audit_db \<Rightarrow> agent_card \<Rightarrow> string \<Rightarrow> string
      \<Rightarrow> issue_output result" where
  "rotate_card E now now' seed keygen db old_card old_key_pem ttl =
     bind_res (ed_key_of_pem E (card_crypto_scheme old_card) old_key_pem) (\<lambda>old_ed_key.
     (let old_pub_b64 = encode_public_key E (ed_public E old_ed_key)
      in bind_res (require (old_pub_b64 = card_public_key old_card) KeyMismatch) (\<lambda>_.
         bind_res (parse_ttl ttl) (\<lambda>duration.
         bind_res (plus_duration E now duration) (\<lambda>expires_at.
         bind_res (sign_under_scheme E seed keygen (card_crypto_scheme old_card)
                     (\<lambda>pub pq. build_rotated_card old_card pub pq [] None now expires_at)) (\<lambda>p.
         (let new_card = build_rotated_card old_card (sp_public_key p) (sp_pq_public_key p) (sp_signature p)
                           (sp_pq_signature p) now expires_at
          in bind_res (first16 old_pub_b64) (\<lambda>o16.
             bind_res (first16 (card_public_key new_card)) (\<lambda>n16.
             Inr \<lparr>out_card = new_card, out_key_pem = sp_key_pem p,
                  out_audit = snd (record_entry E now' db (card_id old_card) ''rotate''
                    (''old_key='' @ o16 @ ''... new_key='' @ n16 @ ''...'') old_ed_key)\<rparr>)))))))))"

subsection \<open>Revoke\<close>

definition revoke_card ::
    "ext \<Rightarrow> datetime \<Rightarrow> datetime \<Rightarrow> revocation_db \<Rightarrow> audit_db \<Rightarrow> agent_card \<Rightarrow> string \<Rightarrow> string
      \<Rightarrow> (revocation_entry \<times> revocation_db \<times> audit_db) result" where
  "revoke_card E now now' registry db crd key_pem reason =
     bind_res (ed_key_of_pem E (card_crypto_scheme crd) key_pem) (\<lambda>ed_key.
     bind_res (revoke E now registry (card_id crd) (card_name crd) reason ''self'' ed_key) (\<lambda>(entry, registry').
     Inr (entry, registry', snd (record_entry E now' db (card_id crd) ''revoke'' (''reason='' @ reason) ed_key))))"

subsection \<open>The signed payload determines the card\<close>

lemma sort_key_set [simp]: "set (sort_key f xs) = set xs"
  by simp

lemma map_of_opt_member [simp]:
  "map_of (opt_member k v) k' = (if k' = k then map_option JStr v else None)"
  by (cases v) (simp_all add: opt_member_def)

lemma map_option_JStr_inj [simp]: "map_option JStr a = map_option JStr b \<longleftrightarrow> a = b"
  by (cases a; cases b) auto

lemma fst_opt_member: "fst ` set (opt_member k v) \<subseteq> {k}"
  by (cases v) (simp_all add: opt_member_def)

lemma distinct_opt_member [simp]: "distinct (map fst (opt_member k v))"
  by (cases v) (simp_all add: opt_member_def)

lemma distinct_card_members: "distinct (map fst (card_members E c))"
  by (cases "card_pq_public_key c"; cases "card_pq_signature c"; cases "card_parent_id c"; cases "card_spiffe_id c")
     (simp_all add: card_members_def opt_member_def)

lemma sort_members_JStr_list [simp]: "map (sort_members \<circ> JStr) xs = map JStr xs"
  by simp

lemma card_members_flat: "(k, v) \<in> set (card_members E c) \<Longrightarrow> sort_members v = v"
  by (auto simp: card_members_def opt_member_def split: option.splits)

lemma canonical_members:
  assumes "\<And>k v. (k, v) \<in> set kvs \<Longrightarrow> sort_members v = v"
  shows "\<exists>l. sort_members (json_object kvs) = JObj l \<and> set l = set kvs"
proof -
  have "map (\<lambda>(k, v). (k, sort_members v)) (sort_key fst kvs) = sort_key fst kvs"
    using assms by (intro map_idI) auto
  then show ?thesis by (simp add: json_object_def)
qed

lemma card_members_inj:
  assumes "dt_serde_ok E" "set (card_members E c) = set (card_members E d)"
    and "rfc3339_range (card_issued_at c)" "rfc3339_range (card_expires_at c)"
    and "rfc3339_range (card_issued_at d)" "rfc3339_range (card_expires_at d)"
  shows "c = d"
proof -
  have m: "map_of (card_members E c) k = map_of (card_members E d) k" for k
    using map_of_inject_set [OF distinct_card_members distinct_card_members] assms(2) by metis
  note simps = card_members_def map_add_def
  have "card_id c = card_id d" using m [of "''id''"] by (simp add: simps)
  moreover have "card_name c = card_name d" using m [of "''name''"] by (simp add: simps)
  moreover have "card_owner c = card_owner d" using m [of "''owner''"] by (simp add: simps)
  moreover have "card_scopes c = card_scopes d"
    using m [of "''scopes''"] by (simp add: simps) (metis inj_map_eq_map injI json.inject(3))
  moreover have "card_public_key c = card_public_key d" using m [of "''public_key''"] by (simp add: simps)
  moreover have "card_signature c = card_signature d" using m [of "''signature''"] by (simp add: simps)
  moreover have "card_pq_public_key c = card_pq_public_key d"
    using m [of "''pq_public_key''"] by (auto simp: simps split: option.splits)
  moreover have "card_pq_signature c = card_pq_signature d"
    using m [of "''pq_signature''"] by (auto simp: simps split: option.splits)
  moreover have "card_parent_id c = card_parent_id d"
    using m [of "''parent_id''"] by (auto simp: simps split: option.splits)
  moreover have "card_spiffe_id c = card_spiffe_id d"
    using m [of "''spiffe_id''"] by (auto simp: simps split: option.splits)
  moreover have "card_crypto_scheme c = card_crypto_scheme d" using m [of "''crypto_scheme''"] by (simp add: simps)
  moreover have "card_agent_type c = card_agent_type d" using m [of "''agent_type''"] by (simp add: simps)
  moreover have "dt_serde E (card_issued_at c) = dt_serde E (card_issued_at d)"
    "dt_serde E (card_expires_at c) = dt_serde E (card_expires_at d)"
    using m [of "''issued_at''"] m [of "''expires_at''"] by (simp_all add: simps)
  ultimately show ?thesis using dt_serde_inj [OF assms(1)] assms(3-6) by simp
qed

definition card_wf :: "ext \<Rightarrow> agent_card \<Rightarrow> bool" where
  "card_wf E c \<longleftrightarrow> quote_ok (json_quote E) \<and> dt_serde_ok E
     \<and> rfc3339_range (card_issued_at c) \<and> rfc3339_range (card_expires_at c)"

lemma card_signing_payload_inj:
  assumes "card_wf E c" "card_wf E d" "card_signing_payload E c = card_signing_payload E d"
  shows "unsigned c = unsigned d"
proof -
  have "sort_members (json_object (card_members E (unsigned c)))
      = sort_members (json_object (card_members E (unsigned d)))"
    using assms canonical_json_inj unfolding card_signing_payload_def card_wf_def by blast
  then have "set (card_members E (unsigned c)) = set (card_members E (unsigned d))"
    using canonical_members [of "card_members E (unsigned c)"] canonical_members [of "card_members E (unsigned d)"]
      card_members_flat by (metis json.inject(5))
  then show ?thesis using assms(1,2) by (intro card_members_inj [of E]) (auto simp: card_wf_def unsigned_def)
qed

interpretation crd: canonical_payload "card_wf E" "card_signing_payload E" unsigned for E
  by unfold_locales (rule card_signing_payload_inj)

subsection \<open>What a valid card is\<close>

definition all_valid :: "(bool \<times> bool option) result \<Rightarrow> bool" where
  "all_valid r \<longleftrightarrow> r = Inr (True, None) \<or> r = Inr (True, Some True)"

lemma verify_card_iff:
  "verify_card E now registry c = Inr True \<longleftrightarrow>
     all_valid (card_signatures E c) \<and> now < card_expires_at c \<and> card_issued_at c \<le> now
     \<and> (\<forall>db. registry = Some db \<longrightarrow> \<not> is_revoked db (card_id c))"
proof (cases "card_signatures E c")
  case (Inr p)
  then show ?thesis
    by (cases p; cases "snd p"; cases registry) (auto simp: verify_card_def all_valid_def Let_def)
qed (simp add: verify_card_def all_valid_def)

lemma all_valid_ed:
  "all_valid (card_signatures E c) \<Longrightarrow>
     verify E (card_public_key c) (card_signing_payload E c) (card_signature c) = Inr True"
  by (cases "card_crypto_scheme c") (auto simp: card_signatures_def all_valid_def Let_def bind_res_Inr_iff)

text \<open>The keys drawn for a scheme work.\<close>

definition good_keys :: "ext \<Rightarrow> bytes \<Rightarrow> (bytes \<times> bytes) option \<Rightarrow> crypto_scheme \<Rightarrow> bool" where
  "good_keys E seed keygen scheme \<longleftrightarrow>
     b64_ok E \<and> ed_ok E \<and> length seed = 32
     \<and> (scheme \<noteq> Ed25519 \<longrightarrow> (\<exists>pk sk. keygen = Some (pk, sk) \<and> pq_pair_ok E pk sk))"

definition assemble :: "(string \<Rightarrow> string option \<Rightarrow> agent_card) \<Rightarrow> signed_parts \<Rightarrow> agent_card" where
  "assemble build p = (build (sp_public_key p) (sp_pq_public_key p))
     \<lparr>card_signature := sp_signature p, card_pq_signature := sp_pq_signature p\<rparr>"

lemma payload_unsigned:
  "card_signing_payload E (c\<lparr>card_signature := s, card_pq_signature := q\<rparr>) = card_signing_payload E c"
  by (simp add: card_signing_payload_def unsigned_def)

lemma sign_under_scheme_ok:
  assumes good: "good_keys E seed keygen scheme"
    and build: "\<And>pub pq. card_crypto_scheme (build pub pq) = scheme \<and> card_public_key (build pub pq) = pub
                  \<and> card_pq_public_key (build pub pq) = pq"
  shows "\<exists>p. sign_under_scheme E seed keygen scheme build = Inr p
    \<and> all_valid (card_signatures E (assemble build p)) \<and> ed_key_of_pem E scheme (sp_key_pem p) = Inr seed
    \<and> sp_public_key p = encode_public_key E (ed_public E seed)"
proof (cases "scheme = Ed25519")
  case True
  then show ?thesis using good decode_ed_section [of E seed "[nl]"]
    by (simp add: sign_under_scheme_def good_keys_def generate_keypair_def card_signatures_def assemble_def
        build payload_unsigned verify_sign all_valid_def ed_key_of_pem_def encode_private_key_pem_def Let_def)
next
  case False
  then obtain pk sk where k: "keygen = Some (pk, sk)" "pq_pair_ok E pk sk" using good by (auto simp: good_keys_def)
  have ok: "b64_ok E" "ed_ok E" "length seed = 32" using good by (simp_all add: good_keys_def)
  let ?pub = "encode_public_key E (ed_public E seed)" and ?pq = "encode_mldsa_public_key E pk"
  let ?m = "card_signing_payload E (build ?pub (Some ?pq))"
  obtain s where s: "mldsa_sign E sk ?m = Inr s" "mldsa_verify E ?pq ?m s = Inr True"
    using mldsa_verify_sign [OF ok(1) k(2)] by blast
  let ?p = "\<lparr>sp_public_key = ?pub, sp_pq_public_key = Some ?pq, sp_signature = sign E seed ?m,
     sp_pq_signature = Some s, sp_key_pem = encode_hybrid_private_key_pem E seed sk\<rparr>"
  have "sign_under_scheme E seed keygen scheme build = Inr ?p"
    using False k(1) s(1) by (cases scheme) (simp_all add: sign_under_scheme_def generate_keypair_def Let_def
        generate_mldsa_keypair_def generate_hybrid_keypair_def hybrid_sign_def)
  moreover have "all_valid (card_signatures E (assemble build ?p))"
    using False s(2) verify_sign [OF ok, of ?m] by (cases scheme) (simp_all add: card_signatures_def assemble_def
        build payload_unsigned all_valid_def Let_def)
  moreover have "ed_key_of_pem E scheme (sp_key_pem ?p) = Inr seed"
    using False hybrid_pem_decode_encode [OF ok(1,3)] by (cases scheme) (simp_all add: ed_key_of_pem_def)
  ultimately show ?thesis by (intro exI [of _ ?p]) simp
qed

lemma ed_key_of_encode:
  assumes "b64_ok E" "length k = 32"
  shows "ed_key_of_pem E Ed25519 (encode_private_key_pem E k) = Inr k"
  using decode_ed_section [OF assms, of "[nl]"] by (simp add: ed_key_of_pem_def encode_private_key_pem_def)

subsection \<open>Properties\<close>

text \<open>
  C9: an issued card is valid.  With well-formed arguments and working keys, issuing succeeds
  under every scheme; the card carries what was asked for, its key file gives back the signing
  key, the audit chain is extended, and the verify command accepts the card at every moment
  from its issue to its expiry as long as it is not revoked.
\<close>

theorem issue_then_verify:
  assumes "good_keys E seed keygen scheme" "parse_ttl ttl = Inr d" "agent_type_from_str at = Inr a"
    and "crypto_scheme_from_str cs = Inr scheme" "plus_duration E now d = Inr x"
  shows "\<exists>r. issue E now t i seed keygen db name owner scope ttl at cs td = Inr r
    \<and> card_id (out_card r) = i \<and> card_name (out_card r) = name
    \<and> card_scopes (out_card r) = map trim (split_on (CHR '','') scope)
    \<and> card_issued_at (out_card r) = now \<and> card_expires_at (out_card r) = now + d
    \<and> card_crypto_scheme (out_card r) = scheme
    \<and> ed_key_of_pem E scheme (out_key_pem r) = Inr seed
    \<and> card_public_key (out_card r) = encode_public_key E (ed_public E seed)
    \<and> (audit_inv E db \<longrightarrow> audit_inv E (out_audit r))
    \<and> (\<forall>at reg. now \<le> at \<and> at < now + d \<and> \<not> is_revoked reg i \<longrightarrow>
         verify_card E at (Some reg) (out_card r) = Inr True)"
proof -
  let ?sp = "map_option (\<lambda>td. generate_spiffe_id td name a) td"
  let ?build = "\<lambda>pub pq. build_card i name owner (map trim (split_on (CHR '','') scope)) pub pq [] None scheme now x a None ?sp"
  obtain p where p: "sign_under_scheme E seed keygen scheme ?build = Inr p"
    "all_valid (card_signatures E (assemble ?build p))" "ed_key_of_pem E scheme (sp_key_pem p) = Inr seed"
    "sp_public_key p = encode_public_key E (ed_public E seed)"
    using sign_under_scheme_ok [OF assms(1), of ?build] by (auto simp: build_card_def)
  have x: "x = now + d" using assms(5) by (simp add: plus_duration_def split: if_splits)
  have "issue E now t i seed keygen db name owner scope ttl at cs td
      = Inr \<lparr>out_card = assemble ?build p, out_key_pem = sp_key_pem p,
             out_audit = snd (record_entry E t db i ''issue'' name seed)\<rparr>"
    using assms(2-5) p(1,3) by (simp add: issue_def assemble_def build_card_def)
  then show ?thesis using p x record_entry_inv
    by (simp add: verify_card_iff) (simp add: assemble_def build_card_def)
qed

lemma demo_ttl: "parse_ttl ''1h'' = Inr (seconds 3600)"
  by code_simp

lemma demo_type: "agent_type_from_str ''instance'' = Inr Instance"
  by code_simp

lemma demo_scheme: "crypto_scheme_from_str ''hybrid'' = Inr Hybrid"
  by code_simp

abbreviation demo_seed :: bytes where "demo_seed \<equiv> replicate 32 CHR ''k''"
abbreviation demo_keygen :: "(bytes \<times> bytes) option" where
  "demo_keygen \<equiv> Some (replicate 1952 CHR ''s'', replicate 4032 CHR ''s'')"

lemma demo_good: "good_keys ref_ext demo_seed demo_keygen scheme"
  using ref_pq_pair_ok [of "CHR ''s''"] unfolding good_keys_def by simp

lemma demo_expiry: "plus_duration ref_ext 0 (seconds 3600) = Inr (0 + seconds 3600)"
  by (simp add: plus_duration_def ref_ext_def seconds_def ns_per_sec_def)

theorem issue_then_verify_witness:
  "\<exists>r. issue ref_ext 0 1 (replicate 36 CHR ''a'') demo_seed demo_keygen open_audit_db ''bot'' ''me'' ''read''
         ''1h'' ''instance'' ''hybrid'' None = Inr r
     \<and> verify_card ref_ext 5 (Some []) (out_card r) = Inr True"
proof -
  obtain r where "issue ref_ext 0 1 (replicate 36 CHR ''a'') demo_seed demo_keygen open_audit_db ''bot'' ''me''
      ''read'' ''1h'' ''instance'' ''hybrid'' None = Inr r"
    and "\<forall>at reg. 0 \<le> at \<and> at < 0 + seconds 3600 \<and> \<not> is_revoked reg (replicate 36 CHR ''a'') \<longrightarrow>
         verify_card ref_ext at (Some reg) (out_card r) = Inr True"
    using issue_then_verify [OF demo_good demo_ttl demo_type demo_scheme demo_expiry] by blast
  then show ?thesis by (auto simp: is_revoked_def seconds_def ns_per_sec_def)
qed

text \<open>
  C10: a signed card cannot be altered.  Let the holder of a key have signed some cards.  If the verify command
  accepts a card under that key, with a signature that is one of those the holder made, then the card agrees with
  one of the signed cards in every field but the signatures, unless the signature is a forgery: it passes for a text
  other than the one it was made for.  Widening the scopes, moving the expiry or renaming the agent is therefore noticed.
\<close>

theorem card_tamper_evident:
  fixes cards :: "agent_card set"
  assumes "b64_ok E" "ed_ok E" "length k = 32" "\<forall>c \<in> cards. card_wf E c" "card_wf E d"
    and "verify_card E now registry d = Inr True"
    and "card_public_key d = encode_public_key E (ed_public E k)"
    and "card_signature d \<in> (\<lambda>c. sign E k (card_signing_payload E c)) ` cards"
  shows "\<exists>c \<in> cards. d\<lparr>card_signature := [], card_pq_signature := None\<rparr> = c\<lparr>card_signature := [], card_pq_signature := None\<rparr>
    \<or> (card_signing_payload E d \<noteq> card_signing_payload E c
       \<and> ed_check E (ed_public E k) (card_signing_payload E d) (ed_sign_raw E k (card_signing_payload E c)))"
proof -
  obtain c where c: "c \<in> cards" "card_signature d = sign E k (card_signing_payload E c)" using assms(8) by auto
  show ?thesis
  proof (cases "card_signing_payload E d = card_signing_payload E c")
    case True
    then show ?thesis using crd.payload_inj [OF assms(5) assms(4) [rule_format, OF c(1)]] c(1) by (auto simp: unsigned_def)
  next
    case False
    moreover have "verify E (card_public_key d) (card_signing_payload E d) (card_signature d) = Inr True"
      using assms(6) all_valid_ed by (simp add: verify_card_iff)
    ultimately show ?thesis using assms(1-3,7) c by (auto simp: verify_on_sign)
  qed
qed

definition demo_issued :: agent_card where
  "demo_issued = \<lparr>card_id = replicate 36 CHR ''a'', card_name = ''bot'', card_owner = ''me'',
     card_scopes = [''read''], card_public_key = encode_public_key ref_ext (ed_public ref_ext demo_seed),
     card_pq_public_key = None, card_signature = [], card_pq_signature = None, card_crypto_scheme = Ed25519,
     card_issued_at = 0, card_expires_at = seconds 7200, card_agent_type = Instance, card_parent_id = None,
     card_spiffe_id = None\<rparr>"

definition demo_signed :: agent_card where
  "demo_signed = demo_issued\<lparr>card_signature := sign ref_ext demo_seed (card_signing_payload ref_ext demo_issued)\<rparr>"

lemma demo_signed_payload: "card_signing_payload ref_ext demo_signed = card_signing_payload ref_ext demo_issued"
  by (simp add: card_signing_payload_def unsigned_def demo_signed_def)

lemma demo_signed_valid: "verify_card ref_ext 5 (Some []) demo_signed = Inr True"
  by (simp add: verify_card_iff card_signatures_def demo_signed_payload all_valid_def Let_def)
     (simp add: demo_signed_def demo_issued_def verify_sign seconds_def ns_per_sec_def is_revoked_def)

lemma demo_card_wf: "card_wf ref_ext demo_issued" "card_wf ref_ext demo_signed"
  by (simp_all add: card_wf_def demo_signed_def demo_issued_def rfc3339_range_def seconds_def ns_per_sec_def)

text \<open>Two cards signed by one key; what is presented is the first one, with a field that Ed25519 cards do not sign filled in.\<close>

definition demo_presented :: agent_card where
  "demo_presented = demo_signed\<lparr>card_pq_signature := Some ''x''\<rparr>"

lemma demo_presented_payload: "card_signing_payload ref_ext demo_presented = card_signing_payload ref_ext demo_issued"
  by (simp add: card_signing_payload_def unsigned_def demo_presented_def demo_signed_def)

lemma demo_presented_valid: "verify_card ref_ext 5 (Some []) demo_presented = Inr True"
  by (simp add: verify_card_iff card_signatures_def demo_presented_payload all_valid_def Let_def)
     (simp add: demo_presented_def demo_signed_def demo_issued_def verify_sign seconds_def ns_per_sec_def is_revoked_def)

theorem card_tamper_evident_witness:
  "verify_card ref_ext 5 (Some []) demo_presented = Inr True \<and> demo_presented \<notin> {demo_issued, demo_issued\<lparr>card_name := ''other''\<rparr>}
   \<and> (\<exists>c \<in> {demo_issued, demo_issued\<lparr>card_name := ''other''\<rparr>}.
        demo_presented\<lparr>card_signature := [], card_pq_signature := None\<rparr> = c\<lparr>card_signature := [], card_pq_signature := None\<rparr>
      \<or> (card_signing_payload ref_ext demo_presented \<noteq> card_signing_payload ref_ext c
         \<and> ed_check ref_ext (ed_public ref_ext demo_seed) (card_signing_payload ref_ext demo_presented)
             (ed_sign_raw ref_ext demo_seed (card_signing_payload ref_ext c))))"
proof -
  let ?S = "{demo_issued, demo_issued\<lparr>card_name := ''other''\<rparr>}"
  have wf: "\<forall>c \<in> ?S. card_wf ref_ext c" "card_wf ref_ext demo_presented"
    using demo_card_wf by (simp_all add: card_wf_def demo_presented_def)
  have "card_public_key demo_presented = encode_public_key ref_ext (ed_public ref_ext demo_seed)"
    "card_signature demo_presented \<in> (\<lambda>c. sign ref_ext demo_seed (card_signing_payload ref_ext c)) ` ?S"
    by (simp_all add: demo_presented_def demo_signed_def demo_issued_def)
  note t = card_tamper_evident [OF ref_b64_ok ref_ed_ok length_replicate wf demo_presented_valid this]
  have "card_pq_signature c = None" if "c \<in> ?S" for c using that by (auto simp: demo_issued_def)
  moreover have "card_pq_signature demo_presented = Some ''x''" by (simp add: demo_presented_def)
  ultimately have "demo_presented \<notin> ?S" by force
  then show ?thesis using demo_presented_valid t by blast
qed

lemma scopes_held_iff: "scopes_held ps ss = Inr u \<longleftrightarrow> set ss \<subseteq> set ps"
  by (induction ss) auto

lemma scopes_held_Inl: "scopes_held ps ss = Inl e \<Longrightarrow> \<exists>s \<in> set ss. s \<notin> set ps \<and> e = ScopeNotHeld s"
  by (induction ss) (auto split: if_splits)

lemma decode_pem_length: "decode_private_key_pem E pem = Inr k \<Longrightarrow> length k = 32"
  by (auto simp: decode_private_key_pem_def bind_res_Inr_iff)

lemma decode_hybrid_length: "decode_hybrid_private_key_pem E pem = Inr (k, sk) \<Longrightarrow> length k = 32"
  by (auto simp: decode_hybrid_private_key_pem_def bind_res_Inr_iff dest: decode_pem_length)

lemma token_signatures_Inr:
  assumes "token_signatures E parent pem m = Inr (sig, pq, k)"
  shows "length k = 32 \<and> encode_public_key E (ed_public E k) = card_public_key parent \<and> sig = sign E k m"
proof (cases "card_crypto_scheme parent")
  case Ed25519
  then show ?thesis using assms by (auto simp: token_signatures_def bind_res_Inr_iff dest: decode_pem_length)
qed (use assms in \<open>auto simp: token_signatures_def bind_res_Inr_iff dest: decode_hybrid_length\<close>)

lemma delegate_Inr:
  assumes "delegate E now t i db parent pem name scope ttl = Inr (tok, db')"
  shows "\<exists>x sig pq k. set (map trim (split_on (CHR '','') scope)) \<subseteq> set (card_scopes parent)
    \<and> x \<le> card_expires_at parent
    \<and> token_signatures E parent pem (token_signing_payload E (build_token i (card_id parent) name
          (map trim (split_on (CHR '','') scope)) now x [] None (card_crypto_scheme parent))) = Inr (sig, pq, k)
    \<and> tok = (build_token i (card_id parent) name (map trim (split_on (CHR '','') scope)) now x [] None
               (card_crypto_scheme parent))\<lparr>tok_signature := sig, tok_pq_signature := pq\<rparr>
    \<and> db' = snd (record_entry E t db (card_id parent) ''delegate'' (''delegate:'' @ name) k)"
  using assms unfolding delegate_def Let_def
  by (auto simp: bind_res_Inr_iff scopes_held_iff simp del: set_map)

lemma scopes_held_first:
  "\<not> set ss \<subseteq> set ps \<Longrightarrow> scopes_held ps ss = Inl (ScopeNotHeld (hd (filter (\<lambda>s. s \<notin> set ps) ss)))"
  by (induction ss) auto

text \<open>The key file in use, and what can be refused about it.\<close>

lemma token_signatures_cases:
  "token_signatures E parent pem m =
     bind_res (ed_key_of_pem E (card_crypto_scheme parent) pem) (\<lambda>k.
     bind_res (require (encode_public_key E (ed_public E k) = card_public_key parent) KeyMismatch) (\<lambda>_.
     case card_crypto_scheme parent of
       Ed25519 \<Rightarrow> Inr (sign E k m, None, k)
     | _ \<Rightarrow> bind_res (decode_hybrid_private_key_pem E pem) (\<lambda>(_, sk).
            bind_res (mldsa_sign E sk m) (\<lambda>pq_sig. Inr (sign E k m, Some pq_sig, k)))))"
  by (cases "decode_hybrid_private_key_pem E pem")
    (auto simp: token_signatures_def ed_key_of_pem_def require_def split: crypto_scheme.split)

lemma delegated_token:
  assumes "b64_ok E" "ed_ok E" and ok: "delegate E now t i db parent pem name scope ttl = Inr (tok, db')"
  shows "tok_scopes tok = map trim (split_on (CHR '','') scope) \<and> set (map trim (split_on (CHR '','') scope)) \<subseteq> set (card_scopes parent)
      \<and> tok_expires_at tok \<le> card_expires_at parent \<and> tok_parent_id tok = card_id parent
      \<and> tok_crypto_scheme tok = card_crypto_scheme parent
      \<and> verify E (card_public_key parent) (token_signing_payload E tok) (tok_signature tok) = Inr True
      \<and> (audit_inv E db \<longrightarrow> audit_inv E db')"
proof -
  let ?ss = "map trim (split_on (CHR '','') scope)"
  let ?tok = "\<lambda>x. build_token i (card_id parent) name ?ss now x [] None (card_crypto_scheme parent)"
  obtain x sig pq k where held: "set ?ss \<subseteq> set (card_scopes parent)" "x \<le> card_expires_at parent"
    and sgn: "token_signatures E parent pem (token_signing_payload E (?tok x)) = Inr (sig, pq, k)"
    and tok: "tok = (?tok x)\<lparr>tok_signature := sig, tok_pq_signature := pq\<rparr>"
      "db' = snd (record_entry E t db (card_id parent) ''delegate'' (''delegate:'' @ name) k)"
    using delegate_Inr [OF ok] by blast
  from token_signatures_Inr [OF sgn] have k: "length k = 32"
    "encode_public_key E (ed_public E k) = card_public_key parent" "sig = sign E k (token_signing_payload E (?tok x))"
    by blast+
  have "tok_scopes tok = ?ss" "tok_expires_at tok \<le> card_expires_at parent"
    "tok_parent_id tok = card_id parent" "tok_crypto_scheme tok = card_crypto_scheme parent"
    using held tok(1) by (simp_all add: build_token_def)
  moreover have "token_signing_payload E tok = token_signing_payload E (?tok x)"
    by (simp add: tok(1) token_signing_payload_def build_token_def)
  then have "verify E (card_public_key parent) (token_signing_payload E tok) (tok_signature tok) = Inr True"
    using verify_sign [OF assms(1,2) k(1)] k(2,3) tok(1) by simp
  ultimately show ?thesis using held tok(2) record_entry_inv by blast
qed

lemma never_Inl: "(\<forall>e. r \<noteq> Inl e) \<longleftrightarrow> (\<exists>y. r = Inr y)"
  by (cases r) auto

lemma delegate_refusals:
  "let asked = map trim (split_on (CHR '','') scope); out = delegate E now t i db parent pem name scope ttl
   in if \<not> set asked \<subseteq> set (card_scopes parent)
      then out = Inl (ScopeNotHeld (hd (filter (\<lambda>s. s \<notin> set (card_scopes parent)) asked)))
      else case parse_ttl ttl of Inl e \<Rightarrow> out = Inl e | Inr d \<Rightarrow>
        (case plus_duration E now d of Inl e \<Rightarrow> out = Inl e | Inr x \<Rightarrow>
         if card_expires_at parent < x then out = Inl ExpiresAfterParent
         else case ed_key_of_pem E (card_crypto_scheme parent) pem of Inl e \<Rightarrow> out = Inl e | Inr k \<Rightarrow>
         if encode_public_key E (ed_public E k) \<noteq> card_public_key parent then out = Inl KeyMismatch
         else (let fresh = build_token i (card_id parent) name asked now x [] None (card_crypto_scheme parent);
                   pq_refused = (\<lambda>e. card_crypto_scheme parent \<noteq> Ed25519 \<and> (\<exists>sk. decode_hybrid_private_key_pem E pem = Inr (k, sk)
                      \<and> mldsa_sign E sk (token_signing_payload E fresh) = Inl e))
               in (\<forall>e. pq_refused e \<longrightarrow> out = Inl e)
                \<and> ((\<forall>e. \<not> pq_refused e) \<longrightarrow> (\<exists>sig pq. out = Inr (fresh\<lparr>tok_signature := sig, tok_pq_signature := pq\<rparr>,
                     snd (record_entry E t db (card_id parent) ''delegate'' (''delegate:'' @ name) k))))))"
proof (cases "set (map trim (split_on (CHR '','') scope)) \<subseteq> set (card_scopes parent)")
  case False
  then show ?thesis using scopes_held_first [OF False] by (simp add: delegate_def Let_def)
next
  case True
  then have held: "scopes_held (card_scopes parent) (map trim (split_on (CHR '','') scope)) = Inr ()"
    by (simp add: scopes_held_iff)
  show ?thesis
    using True unfolding delegate_def Let_def held token_signatures_cases
    by (cases "decode_hybrid_private_key_pem E pem"; cases "card_crypto_scheme parent")
       ((auto simp: require_def ed_key_of_pem_def never_Inl not_le not_less split: sum.splits), blast+)
qed



lemma ed_key_length: "ed_key_of_pem E scheme pem = Inr k \<Longrightarrow> length k = 32"
  by (cases scheme) (auto simp: ed_key_of_pem_def bind_res_Inr_iff dest: decode_pem_length decode_hybrid_length)

lemma first16_b64: "b64_ok E \<Longrightarrow> 16 \<le> length b \<Longrightarrow> \<exists>t. first16 (b64_encode E b) = Inr t"
  using b64_okD(3) [of E b] by (auto simp: first16_def slice_def)

text \<open>
  C12: key rotation.  Only the holder of the key on the card can rotate it.  With working new keys
  and a valid duration it then succeeds; the new card keeps the identity (identifier, name,
  owner, scopes, type, scheme, parent, SPIFFE identifier), carries the new key and the new
  lifetime, verifies throughout it unless revoked, and the audit chain records the rotation.
\<close>

theorem rotation_keeps_identity:
  assumes "good_keys E seed keygen (card_crypto_scheme old)"
    and "ed_key_of_pem E (card_crypto_scheme old) pem = Inr k"
    and "parse_ttl ttl = Inr d" "plus_duration E now d = Inr x"
  shows "(encode_public_key E (ed_public E k) \<noteq> card_public_key old \<longrightarrow>
        rotate_card E now t seed keygen db old pem ttl = Inl KeyMismatch)
    \<and> (encode_public_key E (ed_public E k) = card_public_key old \<longrightarrow>
        (\<exists>r. rotate_card E now t seed keygen db old pem ttl = Inr r
         \<and> (card_id (out_card r), card_name (out_card r), card_owner (out_card r), card_scopes (out_card r),
             card_agent_type (out_card r), card_crypto_scheme (out_card r), card_parent_id (out_card r),
             card_spiffe_id (out_card r))
           = (card_id old, card_name old, card_owner old, card_scopes old, card_agent_type old,
              card_crypto_scheme old, card_parent_id old, card_spiffe_id old)
         \<and> card_public_key (out_card r) = encode_public_key E (ed_public E seed)
         \<and> ed_key_of_pem E (card_crypto_scheme old) (out_key_pem r) = Inr seed
         \<and> (audit_inv E db \<longrightarrow> audit_inv E (out_audit r))
         \<and> (\<forall>at reg. now \<le> at \<and> at < now + d \<and> \<not> is_revoked reg (card_id old) \<longrightarrow>
              verify_card E at (Some reg) (out_card r) = Inr True)))"
    (is "_ \<and> (_ \<longrightarrow> ?rotated)")
proof (intro conjI impI)
  assume "encode_public_key E (ed_public E k) \<noteq> card_public_key old"
  then show "rotate_card E now t seed keygen db old pem ttl = Inl KeyMismatch"
    using assms(2) by (simp add: rotate_card_def)
next
  assume key: "encode_public_key E (ed_public E k) = card_public_key old"
  let ?build = "\<lambda>pub pq. build_rotated_card old pub pq [] None now x"
  obtain p where p: "sign_under_scheme E seed keygen (card_crypto_scheme old) ?build = Inr p"
    "all_valid (card_signatures E (assemble ?build p))"
    "ed_key_of_pem E (card_crypto_scheme old) (sp_key_pem p) = Inr seed"
    "sp_public_key p = encode_public_key E (ed_public E seed)"
    using sign_under_scheme_ok [OF assms(1), of ?build] by (auto simp: build_rotated_card_def)
  have ok: "b64_ok E" "ed_ok E" "length seed = 32" using assms(1) by (simp_all add: good_keys_def)
  have x: "x = now + d" using assms(4) by (simp add: plus_duration_def split: if_splits)
  obtain o16 n16 where "first16 (card_public_key old) = Inr o16" "first16 (sp_public_key p) = Inr n16"
    using first16_b64 [OF ok(1)] ed_okD(1) [OF ok(2)] ed_key_length [OF assms(2)] ok(3) p(4) key
    by (metis encode_public_key_def numeral_le_iff semiring_norm(68,69,71,72,73))
  then have "rotate_card E now t seed keygen db old pem ttl
      = Inr \<lparr>out_card = assemble ?build p, out_key_pem = sp_key_pem p,
             out_audit = snd (record_entry E t db (card_id old) ''rotate''
                (''old_key='' @ o16 @ ''... new_key='' @ n16 @ ''...'') k)\<rparr>"
    using assms(2-4) p(1) key by (simp add: rotate_card_def assemble_def build_rotated_card_def)
  then show ?rotated
    using p x record_entry_inv by (simp add: verify_card_iff) (simp add: assemble_def build_rotated_card_def)
qed

theorem rotation_keeps_identity_witness:
  "\<exists>r. rotate_card ref_ext 0 1 (replicate 32 CHR ''n'') None open_audit_db demo_signed
        (encode_private_key_pem ref_ext demo_seed) ''1h'' = Inr r
     \<and> card_scopes (out_card r) = [''read'']"
proof -
  have g: "good_keys ref_ext (replicate 32 CHR ''n'') None (card_crypto_scheme demo_signed)"
    by (simp add: good_keys_def demo_signed_def demo_issued_def)
  have e: "ed_key_of_pem ref_ext (card_crypto_scheme demo_signed) (encode_private_key_pem ref_ext demo_seed) = Inr demo_seed"
    using ed_key_of_encode [OF ref_b64_ok, of demo_seed] by (simp add: demo_signed_def demo_issued_def)
  show ?thesis
    using rotation_keeps_identity [OF g e demo_ttl demo_expiry, of 1 open_audit_db]
    by (auto simp: demo_signed_def demo_issued_def)
qed

text \<open>
  A revoked card is never valid again.  After a revocation on the command line no card with
  that identifier, however it is signed, rotated or dated, is accepted by the verify command.
\<close>

theorem revoked_card_invalid:
  assumes "revoke_card E now t registry db crd pem reason = Inr (entry, registry', db')"
    and "card_id other = card_id crd"
    and "reachable (\<lambda>s. s = registry') (registry_step E) registry''"
  shows "verify_card E at (Some registry'') other \<noteq> Inr True \<and> (audit_inv E db \<longrightarrow> audit_inv E db')"
proof -
  obtain k where k: "revoke_hybrid E now registry (card_id crd) (card_name crd) reason ''self'' k None = Inr (entry, registry')"
    "db' = snd (record_entry E t db (card_id crd) ''revoke'' (''reason='' @ reason) k)"
    using assms(1) by (auto simp: revoke_card_def revoke_def bind_res_Inr_iff)
  then have "is_revoked registry' (card_id crd)" using revoke_hybrid_result [OF k(1)] by (auto simp: is_revoked_iff)
  moreover obtain rows where "registry'' = registry' @ rows" using registry_extends [OF assms(3)] by blast
  ultimately have "is_revoked registry'' (card_id other)" using assms(2) by (auto simp: is_revoked_iff)
  then show ?thesis using k(2) record_entry_inv by (auto simp: verify_card_iff)
qed

text \<open>
  Revocation does not check the key.  Unlike delegation and rotation, the revoke command
  accepts any key file that decodes, whether or not it belongs to the card, and records the
  revocation as made by the card itself.
\<close>

theorem revoke_with_any_key:
  assumes "b64_ok E" "length k = 32" "card_crypto_scheme crd = Ed25519" "\<not> is_revoked registry (card_id crd)"
  shows "\<exists>entry registry' db'. revoke_card E now t registry db crd (encode_private_key_pem E k) reason
           = Inr (entry, registry', db')
     \<and> is_revoked registry' (card_id crd) \<and> rev_revoked_by entry = ''self''"
proof -
  have "ed_key_of_pem E (card_crypto_scheme crd) (encode_private_key_pem E k) = Inr k"
    using ed_key_of_encode [OF assms(1,2)] assms(3) by simp
  moreover have "card_id crd \<notin> row_agent_id ` set registry" using assms(4) by (simp add: is_revoked_iff)
  ultimately show ?thesis using assms(4)
    by (simp add: revoke_card_def revoke_def revoke_hybrid_def insert_revocation_def Let_def)
       (simp add: is_revoked_iff)
qed

theorem revoke_with_any_key_witness:
  "\<exists>entry registry' db'. revoke_card ref_ext 0 1 [] open_audit_db demo_signed
       (encode_private_key_pem ref_ext (replicate 32 CHR ''x'')) ''spite'' = Inr (entry, registry', db')
     \<and> is_revoked registry' (card_id demo_signed) \<and> rev_revoked_by entry = ''self''"
  by (rule revoke_with_any_key [OF ref_b64_ok])
     (simp_all add: demo_signed_def demo_issued_def is_revoked_def)

theorem revoked_card_invalid_witness:
  "\<exists>entry registry' db'. revoke_card ref_ext 0 1 [] open_audit_db demo_signed
       (encode_private_key_pem ref_ext demo_seed) ''lost'' = Inr (entry, registry', db')
     \<and> verify_card ref_ext 5 (Some registry') demo_signed \<noteq> Inr True"
proof -
  have e: "ed_key_of_pem ref_ext (card_crypto_scheme demo_signed) (encode_private_key_pem ref_ext demo_seed) = Inr demo_seed"
    using ed_key_of_encode [OF ref_b64_ok, of demo_seed] by (simp add: demo_signed_def demo_issued_def)
  then obtain entry registry' db' where r: "revoke_card ref_ext 0 1 [] open_audit_db demo_signed
       (encode_private_key_pem ref_ext demo_seed) ''lost'' = Inr (entry, registry', db')"
    by (simp add: revoke_card_def revoke_def revoke_hybrid_def insert_revocation_def is_revoked_def Let_def)
  have "reachable (\<lambda>s. s = registry') (registry_step ref_ext) registry'" by (rule reach_init) simp
  from revoked_card_invalid [OF r refl this] r show ?thesis by blast
qed

text \<open>
  Durations.  A number in range followed by a unit letter, with surrounding blanks or not, is
  read as that many minutes, hours or days; beyond the range of the time library the program
  panics instead of reporting an error, and every other text is refused with an error.
\<close>

theorem parse_ttl_spec:
  assumes "- (2 ^ 63) \<le> n" "n < 2 ^ 63" "(u, f) \<in> {(CHR ''m'', 60), (CHR ''h'', 3600), (CHR ''d'', 86400 :: int)}"
  shows "parse_ttl (int_str n @ [u])
      = (if \<bar>n * f\<bar> \<le> (2 ^ 63 - 1) div 1000 then Inr (seconds (n * f)) else Inl (Panic ''TimeDelta out of bounds''))"
proof -
  have "\<not> is_space c" if "c \<in> set (int_str n)" for c
    using int_str_chars [OF that] by (auto simp: is_digit_def is_space_def)
  moreover have "\<not> is_space u" "\<not> 128 \<le> (of_char u :: nat)" using assms(3) by (auto simp: is_space_def)
  ultimately have "trim (int_str n @ [u]) = int_str n @ [u]" "\<not> 128 \<le> (of_char u :: nat)"
    by (auto intro!: trim_id_all)
  then show ?thesis using parse_i64_str [OF assms(1,2)] assms(3)
    by (auto simp: parse_ttl_def Let_def duration_of_def)
qed

theorem parse_ttl_spec_witness:
  "parse_ttl (int_str 7 @ [CHR ''d'']) = Inr (seconds (7 * 86400))
   \<and> parse_ttl (int_str (10 ^ 18) @ [CHR ''d'']) = Inl (Panic ''TimeDelta out of bounds'')"
  using parse_ttl_spec [of 7 "CHR ''d''" 86400] parse_ttl_spec [of "10 ^ 18" "CHR ''d''" 86400] by simp

end
