(* ===== verification/Http_Sig.thy ===== *)
theory Http_Sig
  imports Crypto
begin

text \<open>
  RFC 9421 message signatures: \<^verbatim>\<open>grokingclawid-core/src/httpsig.rs\<close> (signature base, signing, parsing of the
  two headers, verification, WebSocket upgrade and WebSocket messages) and the sidecar proxy's
  own signer, \<^verbatim>\<open>grokingclaw-proxy/src/signer.rs\<close>.
\<close>

subsection \<open>Data\<close>

datatype component = Method | TargetUri | Authority | Path | Query | Header string

definition quoted :: "string \<Rightarrow> string" where
  "quoted s = dquote # s @ [dquote]"

definition comp_identifier :: "component \<Rightarrow> string" where
  "comp_identifier c =
     (case c of
        Method \<Rightarrow> quoted ''@method'' | TargetUri \<Rightarrow> quoted ''@target-uri'' | Authority \<Rightarrow> quoted ''@authority''
      | Path \<Rightarrow> quoted ''@path'' | Query \<Rightarrow> quoted ''@query'' | Header name \<Rightarrow> quoted (to_lowercase name))"

datatype signature_algorithm = AlgEd25519 | AlgHybrid

definition alg_str :: "signature_algorithm \<Rightarrow> string" where
  "alg_str a = (case a of AlgEd25519 \<Rightarrow> ''ed25519'' | AlgHybrid \<Rightarrow> ''ed25519+ml-dsa-65'')"

record signature_params =
  sp_keyid :: string
  sp_alg :: signature_algorithm
  sp_created :: int
  sp_expires :: "int option"
  sp_nonce :: "string option"
  sp_label :: string

definition default_params :: "datetime \<Rightarrow> signature_params" where
  "default_params now = \<lparr>sp_keyid = [], sp_alg = AlgEd25519, sp_created = timestamp now, sp_expires = None,
     sp_nonce = None, sp_label = ''sig1''\<rparr>"

record http_request =
  req_method :: string
  req_url :: string
  req_headers :: "(string \<times> string) list"
  req_body :: "bytes option"

record signed_request =
  sr_request :: http_request
  sr_signature_input :: string
  sr_signature :: string
  sr_pq_signature :: "string option"

record http_verification =
  hv_ed25519_valid :: bool
  hv_mldsa65_valid :: "bool option"
  hv_keyid :: string
  hv_alg :: string
  hv_created :: int
  hv_expired :: bool

subsection \<open>The signature base\<close>

definition authority_of :: "url_parts \<Rightarrow> string" where
  "authority_of u =
     (case url_host u of None \<Rightarrow> [] | Some h \<Rightarrow> h)
     @ (case url_port u of None \<Rightarrow> [] | Some p \<Rightarrow> CHR '':'' # nat_str p)"

definition find_header :: "(string \<times> string) list \<Rightarrow> string \<Rightarrow> string" where
  "find_header hs name =
     (case find (\<lambda>(k, _). to_lowercase k = to_lowercase name) hs of None \<Rightarrow> [] | Some (_, v) \<Rightarrow> v)"

definition component_value :: "http_request \<Rightarrow> url_parts \<Rightarrow> component \<Rightarrow> string" where
  "component_value r u c =
     (case c of
        Method \<Rightarrow> to_uppercase (req_method r)
      | TargetUri \<Rightarrow> req_url r
      | Authority \<Rightarrow> authority_of u
      | Path \<Rightarrow> url_path u
      | Query \<Rightarrow> (case url_query u of None \<Rightarrow> [] | Some q \<Rightarrow> CHR ''?'' # q)
      | Header name \<Rightarrow> find_header (req_headers r) name)"

text \<open>The parameter text, the same in the signature base and in the header.\<close>

definition sig_params_text :: "component list \<Rightarrow> signature_params \<Rightarrow> string" where
  "sig_params_text cs p =
     ''('' @ join '' '' (map comp_identifier cs) @ '')''
     @ '';keyid='' @ quoted (sp_keyid p)
     @ '';alg='' @ quoted (alg_str (sp_alg p))
     @ '';created='' @ int_str (sp_created p)
     @ (case sp_expires p of None \<Rightarrow> [] | Some e \<Rightarrow> '';expires='' @ int_str e)
     @ (case sp_nonce p of None \<Rightarrow> [] | Some n \<Rightarrow> '';nonce='' @ quoted n)"

definition build_signature_base :: "ext \<Rightarrow> http_request \<Rightarrow> component list \<Rightarrow> signature_params \<Rightarrow> string result" where
  "build_signature_base E r cs p =
     bind_res (of_option InvalidUrl (url_parse E (req_url r))) (\<lambda>u.
     Inr (join [nl] (map (\<lambda>c. comp_identifier c @ '': '' @ component_value r u c) cs
                     @ [quoted ''@signature-params'' @ '': '' @ sig_params_text cs p])))"

subsection \<open>Signing\<close>

definition sign_request ::
    "ext \<Rightarrow> http_request \<Rightarrow> component list \<Rightarrow> signature_params \<Rightarrow> bytes \<Rightarrow> signed_request result" where
  "sign_request E r cs p signing_key =
     bind_res (build_signature_base E r cs p) (\<lambda>sig_base.
     Inr \<lparr>sr_request = r, sr_signature_input = sp_label p @ ''='' @ sig_params_text cs p,
          sr_signature = sp_label p @ ''=:'' @ b64_encode E (ed_sign_raw E signing_key sig_base) @ '':'',
          sr_pq_signature = None\<rparr>)"

definition sign_request_hybrid ::
    "ext \<Rightarrow> http_request \<Rightarrow> component list \<Rightarrow> signature_params \<Rightarrow> bytes \<Rightarrow> bytes \<Rightarrow> signed_request result" where
  "sign_request_hybrid E r cs p ed_signing_key mldsa_secret_key =
     bind_res (build_signature_base E r cs p) (\<lambda>sig_base.
     bind_res (mldsa_sign E mldsa_secret_key sig_base) (\<lambda>pq_sig_b64.
     Inr \<lparr>sr_request = r, sr_signature_input = sp_label p @ ''='' @ sig_params_text cs p,
          sr_signature = sp_label p @ ''=:'' @ b64_encode E (ed_sign_raw E ed_signing_key sig_base) @ '':'',
          sr_pq_signature = Some (sp_label p @ ''-pq=:'' @ pq_sig_b64 @ '':'')\<rparr>))"

subsection \<open>Parsing\<close>

definition parse_component :: "string \<Rightarrow> component" where
  "parse_component s0 =
     (let s = trim_matches (\<lambda>c. c = dquote) s0
      in if s = ''@method'' then Method
         else if s = ''@target-uri'' then TargetUri
         else if s = ''@authority'' then Authority
         else if s = ''@path'' then Path
         else if s = ''@query'' then Query
         else Header s)"

definition i64_or_zero :: "string \<Rightarrow> int" where
  "i64_or_zero s = (case parse_i64 s of None \<Rightarrow> 0 | Some i \<Rightarrow> i)"

definition parse_param :: "string \<Rightarrow> signature_params \<Rightarrow> signature_params" where
  "parse_param part0 p =
     (let part = trim part0
      in if part = [] then p
         else case split_once (CHR ''='') part of
           None \<Rightarrow> p
         | Some (key, value0) \<Rightarrow>
             (let value = trim_matches (\<lambda>c. c = dquote) value0
              in if key = ''keyid'' then p\<lparr>sp_keyid := value\<rparr>
                 else if key = ''alg'' then
                   p\<lparr>sp_alg := (if value = ''ed25519+ml-dsa-65'' then AlgHybrid else AlgEd25519)\<rparr>
                 else if key = ''created'' then p\<lparr>sp_created := i64_or_zero value\<rparr>
                 else if key = ''expires'' then p\<lparr>sp_expires := Some (i64_or_zero value)\<rparr>
                 else if key = ''nonce'' then p\<lparr>sp_nonce := Some value\<rparr>
                 else p))"

text \<open>The slice between the parentheses panics when the closing one comes first.\<close>

definition parse_signature_input ::
    "datetime \<Rightarrow> string \<Rightarrow> (component list \<times> signature_params) result" where
  "parse_signature_input now input =
     bind_res (of_option (BadHeader ''missing =''  ) (split_once (CHR ''='') (trim input))) (\<lambda>(label, rest).
     bind_res (of_option (BadHeader ''missing ('') (find_char rest (CHR ''(''))) (\<lambda>paren_start.
     bind_res (of_option (BadHeader ''missing )'') (find_char rest (CHR '')''))) (\<lambda>paren_end.
     bind_res (of_option (Panic ''slice'') (slice rest (paren_start + 1) paren_end)) (\<lambda>components_str.
     Inr (map parse_component (split_whitespace components_str),
          fold parse_param (split_on (CHR '';'') (drop (paren_end + 1) rest))
            ((default_params now)\<lparr>sp_label := label\<rparr>))))))"

definition parse_signature :: "ext \<Rightarrow> string \<Rightarrow> (string \<times> bytes) result" where
  "parse_signature E header =
     bind_res (of_option (BadHeader ''missing ='') (split_once (CHR ''='') header)) (\<lambda>(label, rest).
     bind_res (of_option (BadBase64 ''Signature'') (b64_decode E (trim_matches (\<lambda>c. c = CHR '':'') rest)))
       (\<lambda>sig_bytes. Inr (label, sig_bytes)))"

subsection \<open>Verifying\<close>

definition verify_request ::
    "ext \<Rightarrow> datetime \<Rightarrow> http_request \<Rightarrow> string \<Rightarrow> string \<Rightarrow> string \<Rightarrow> http_verification result" where
  "verify_request E now r signature_input signature ed_public_key_b64 =
     bind_res (parse_signature_input now signature_input) (\<lambda>(cs, p).
     bind_res (parse_signature E signature) (\<lambda>(_, sig_bytes).
     bind_res (build_signature_base E r cs p) (\<lambda>sig_base.
     bind_res (of_option (BadBase64 ''public key'') (b64_decode E ed_public_key_b64)) (\<lambda>pub_bytes.
     bind_res (require (length pub_bytes = 32) BadKeyLength) (\<lambda>_.
     bind_res (require (ed_point_ok E pub_bytes) BadPublicKey) (\<lambda>_.
     bind_res (require (length sig_bytes = 64) BadSignatureLength) (\<lambda>_.
     Inr \<lparr>hv_ed25519_valid = ed_check E pub_bytes sig_base sig_bytes, hv_mldsa65_valid = None,
          hv_keyid = sp_keyid p, hv_alg = alg_str (sp_alg p), hv_created = sp_created p,
          hv_expired = (case sp_expires p of None \<Rightarrow> False | Some e \<Rightarrow> e < timestamp now)\<rparr>)))))))"

definition verify_request_hybrid ::
    "ext \<Rightarrow> datetime \<Rightarrow> http_request \<Rightarrow> string \<Rightarrow> string \<Rightarrow> string \<Rightarrow> string \<Rightarrow> string \<Rightarrow> http_verification result" where
  "verify_request_hybrid E now r signature_input signature pq_signature ed_public_key_b64 mldsa_public_key_b64 =
     bind_res (verify_request E now r signature_input signature ed_public_key_b64) (\<lambda>res.
     bind_res (parse_signature_input now signature_input) (\<lambda>(cs, p).
     bind_res (build_signature_base E r cs p) (\<lambda>sig_base.
     bind_res (parse_signature E pq_signature) (\<lambda>(_, pq_sig_bytes).
     bind_res (mldsa_verify E mldsa_public_key_b64 sig_base (b64_encode E pq_sig_bytes)) (\<lambda>pq_valid.
     Inr (res\<lparr>hv_mldsa65_valid := Some pq_valid, hv_alg := ''ed25519+ml-dsa-65''\<rparr>))))))"

subsection \<open>WebSockets\<close>

definition sign_ws_upgrade ::
    "ext \<Rightarrow> datetime \<Rightarrow> uuid \<Rightarrow> string \<Rightarrow> string \<Rightarrow> bytes \<Rightarrow> bytes option \<Rightarrow> signed_request result" where
  "sign_ws_upgrade E now nonce url keyid ed_signing_key mldsa_secret_key =
     bind_res (of_option InvalidUrl (url_parse E url)) (\<lambda>u.
       (let request = \<lparr>req_method = ''GET'',
                       req_url = replace_str ''ws://'' ''http://'' (replace_str ''wss://'' ''https://'' url),
                       req_headers = [(''host'', authority_of u), (''upgrade'', ''websocket''),
                                      (''connection'', ''Upgrade''), (''sec-websocket-version'', ''13'')],
                       req_body = None\<rparr>;
            components = [Method, Authority, Path, Header ''upgrade'', Header ''sec-websocket-version''];
            params = \<lparr>sp_keyid = keyid, sp_alg = (if mldsa_secret_key \<noteq> None then AlgHybrid else AlgEd25519),
                      sp_created = timestamp now, sp_expires = Some (timestamp now + 300),
                      sp_nonce = Some nonce, sp_label = ''ws-auth''\<rparr>
        in case mldsa_secret_key of
             Some mldsa_sk \<Rightarrow> sign_request_hybrid E request components params ed_signing_key mldsa_sk
           | None \<Rightarrow> sign_request E request components params ed_signing_key))"

definition signed_headers :: "signed_request \<Rightarrow> (string \<times> string) list" where
  "signed_headers s =
     [(''Signature-Input'', sr_signature_input s), (''Signature'', sr_signature s)]
     @ (case sr_pq_signature s of None \<Rightarrow> [] | Some q \<Rightarrow> [(''Signature-PQ'', q)])"

record signed_ws_message =
  ws_payload :: string
  ws_signature :: string
  ws_pq_signature :: "string option"
  ws_keyid :: string
  ws_timestamp :: int
  ws_seq :: nat

definition ws_sign_data :: "string \<Rightarrow> nat \<Rightarrow> int \<Rightarrow> string" where
  "ws_sign_data payload seq ts = payload @ nl # nat_str seq @ nl # int_str ts"

definition sign_ws_message ::
    "ext \<Rightarrow> datetime \<Rightarrow> string \<Rightarrow> nat \<Rightarrow> string \<Rightarrow> bytes \<Rightarrow> bytes option \<Rightarrow> signed_ws_message result" where
  "sign_ws_message E now payload seq keyid ed_signing_key mldsa_secret_key =
     (let ts = timestamp now; sign_data = ws_sign_data payload seq ts;
          ed_sig = sign E ed_signing_key sign_data
      in bind_res (case mldsa_secret_key of
                     Some sk \<Rightarrow> bind_res (mldsa_sign E sk sign_data) (\<lambda>s. Inr (Some s))
                   | None \<Rightarrow> Inr None) (\<lambda>pq_sig.
         Inr \<lparr>ws_payload = payload, ws_signature = ed_sig, ws_pq_signature = pq_sig, ws_keyid = keyid,
              ws_timestamp = ts, ws_seq = seq\<rparr>))"

definition verify_ws_message :: "ext \<Rightarrow> signed_ws_message \<Rightarrow> string \<Rightarrow> string option \<Rightarrow> bool result" where
  "verify_ws_message E msg ed_public_key_b64 mldsa_public_key_b64 =
     (let sign_data = ws_sign_data (ws_payload msg) (ws_seq msg) (ws_timestamp msg)
      in bind_res (verify E ed_public_key_b64 sign_data (ws_signature msg)) (\<lambda>ed_valid.
         if \<not> ed_valid then Inr False
         else (case (ws_pq_signature msg, mldsa_public_key_b64) of
                 (Some pq_sig, Some pq_pub) \<Rightarrow>
                   bind_res (mldsa_verify E pq_pub sign_data pq_sig) (\<lambda>pq_valid.
                   if \<not> pq_valid then Inr False else Inr True)
               | _ \<Rightarrow> Inr True)))"

subsection \<open>The proxy's signer\<close>

record request_signer =
  rs_signing_key :: bytes
  rs_pq_secret_key :: "bytes option"
  rs_agent_id :: string
  rs_key_id :: string

definition signer_from_pem :: "ext \<Rightarrow> string \<Rightarrow> string \<Rightarrow> request_signer result" where
  "signer_from_pem E pem agent_id =
     (let key_id = ''clawid-'' @ take 8 agent_id
      in case decode_hybrid_private_key_pem E pem of
           Inr (ed_key, pq_secret) \<Rightarrow>
             Inr \<lparr>rs_signing_key = ed_key, rs_pq_secret_key = Some pq_secret, rs_agent_id = agent_id,
                  rs_key_id = key_id\<rparr>
         | Inl (Panic m) \<Rightarrow> Inl (Panic m)
         | Inl _ \<Rightarrow>
             bind_res (decode_private_key_pem E pem) (\<lambda>signing_key.
             Inr \<lparr>rs_signing_key = signing_key, rs_pq_secret_key = None, rs_agent_id = agent_id,
                  rs_key_id = key_id\<rparr>))"

definition extract_authority :: "ext \<Rightarrow> string \<Rightarrow> string" where
  "extract_authority E uri =
     (case url_parse E uri of
        Some u \<Rightarrow>
          (let host = (case url_host u of None \<Rightarrow> [] | Some h \<Rightarrow> h)
           in case url_port u of Some port \<Rightarrow> host @ '':'' @ nat_str port | None \<Rightarrow> host)
      | None \<Rightarrow> uri)"

definition proxy_params_text :: "request_signer \<Rightarrow> int \<Rightarrow> string \<Rightarrow> string" where
  "proxy_params_text sg created nonce =
     ''('' @ quoted ''@method'' @ '' '' @ quoted ''@target-uri'' @ '' '' @ quoted ''@authority'' @ '')''
     @ '';created='' @ int_str created @ '';keyid='' @ quoted (rs_key_id sg) @ '';nonce='' @ quoted nonce
     @ '';alg='' @ quoted ''ed25519''"

definition proxy_sig_base :: "ext \<Rightarrow> request_signer \<Rightarrow> int \<Rightarrow> string \<Rightarrow> string \<Rightarrow> string \<Rightarrow> string" where
  "proxy_sig_base E sg created nonce meth uri =
     quoted ''@method'' @ '': '' @ to_uppercase meth @ [nl]
     @ quoted ''@target-uri'' @ '': '' @ uri @ [nl]
     @ quoted ''@authority'' @ '': '' @ extract_authority E uri @ [nl]
     @ quoted ''@signature-params'' @ '': '' @ proxy_params_text sg created nonce"

text \<open>The \<^verbatim>\<open>Date\<close> value is the clock's RFC 2822 text, an argument.\<close>

definition proxy_sign_request ::
    "ext \<Rightarrow> datetime \<Rightarrow> string \<Rightarrow> uuid \<Rightarrow> request_signer \<Rightarrow> string \<Rightarrow> string \<Rightarrow> (string \<times> string) list
      \<Rightarrow> (string \<times> string) list" where
  "proxy_sign_request E now date nonce sg meth uri existing_headers =
     (let created = timestamp now;
          sig_base = proxy_sig_base E sg created nonce meth uri;
          sig_b64 = b64_encode E (ed_sign_raw E (rs_signing_key sg) sig_base)
      in [(''Signature-Input'', ''sig1='' @ proxy_params_text sg created nonce),
          (''Signature'', ''sig1=:'' @ sig_b64 @ '':''),
          (''X-ClawID-Agent'', rs_agent_id sg)]
         @ (case rs_pq_secret_key sg of
              None \<Rightarrow> []
            | Some pq_key \<Rightarrow>
                (case mldsa_sign E pq_key sig_base of
                   Inr pq_sig_b64 \<Rightarrow> [(''Signature-PQ'', ''sig1=:'' @ pq_sig_b64 @ '':'')]
                 | Inl _ \<Rightarrow> []))
         @ (if list_ex (\<lambda>(k, _). to_lowercase k = ''date'') existing_headers then [] else [(''Date'', date)]))"

subsection \<open>The headers parse back\<close>

lemma lower_char_idem [simp]: "lower_char (lower_char c) = lower_char c"
  by (simp add: lower_char_def)

lemma to_lowercase_idem [simp]: "to_lowercase (to_lowercase s) = to_lowercase s"
  by (simp add: to_lowercase_def)

definition norm_component :: "component \<Rightarrow> component" where
  "norm_component c = (case c of Header n \<Rightarrow> Header (to_lowercase n) | _ \<Rightarrow> c)"

definition derived_names :: "string list" where
  "derived_names = [''@method'', ''@target-uri'', ''@authority'', ''@path'', ''@query'']"

text \<open>What may be signed: header names are tokens, and parameters do not break the header's syntax.\<close>

definition component_ok :: "component \<Rightarrow> bool" where
  "component_ok c \<longleftrightarrow>
     (case c of
        Header n \<Rightarrow> n \<noteq> [] \<and> to_lowercase n \<notin> set derived_names
          \<and> (\<forall>x \<in> set (to_lowercase n). \<not> is_space x \<and> x \<noteq> dquote \<and> x \<noteq> CHR '')'')
      | _ \<Rightarrow> True)"

definition param_text_ok :: "string \<Rightarrow> bool" where
  "param_text_ok s \<longleftrightarrow> dquote \<notin> set s \<and> CHR '';'' \<notin> set s \<and> nl \<notin> set s"

definition i64_ok :: "int \<Rightarrow> bool" where
  "i64_ok i \<longleftrightarrow> - (2 ^ 63) \<le> i \<and> i < 2 ^ 63"

definition params_ok :: "signature_params \<Rightarrow> bool" where
  "params_ok p \<longleftrightarrow>
     CHR ''='' \<notin> set (sp_label p) \<and> (sp_label p \<noteq> [] \<longrightarrow> \<not> is_space (hd (sp_label p)))
     \<and> param_text_ok (sp_keyid p) \<and> i64_ok (sp_created p)
     \<and> (\<forall>e \<in> set_option (sp_expires p). i64_ok e) \<and> (\<forall>n \<in> set_option (sp_nonce p). param_text_ok n)"

lemma comp_identifier_facts:
  assumes "component_ok c"
  shows "comp_identifier c \<noteq> []" "\<forall>x \<in> set (comp_identifier c). \<not> is_space x" "CHR '')'' \<notin> set (comp_identifier c)"
    "parse_component (comp_identifier c) = norm_component c"
    "comp_identifier (norm_component c) = comp_identifier c"
proof -
  have t: "trim_matches (\<lambda>c. c = dquote) (quoted s) = s" if "dquote \<notin> set s" for s
    using trim_matches_quoted [OF that] by (simp add: quoted_def)
  show "comp_identifier c \<noteq> []" by (cases c) (simp_all add: comp_identifier_def quoted_def)
  show "\<forall>x \<in> set (comp_identifier c). \<not> is_space x" "CHR '')'' \<notin> set (comp_identifier c)"
    using assms by (cases c; auto simp: comp_identifier_def quoted_def component_ok_def is_space_def)+
  show "parse_component (comp_identifier c) = norm_component c"
    using assms by (cases c; simp add: comp_identifier_def parse_component_def t component_ok_def norm_component_def derived_names_def)
      (subst t, auto)
  show "comp_identifier (norm_component c) = comp_identifier c"
    by (cases c) (simp_all add: comp_identifier_def norm_component_def)
qed

lemma component_value_norm [simp]: "component_value r u (norm_component c) = component_value r u c"
  by (cases c) (simp_all add: component_value_def norm_component_def find_header_def)

lemma split_on_parts:
  "c \<notin> set a \<Longrightarrow> \<forall>p \<in> set ps. c \<notin> set p \<Longrightarrow> split_on c (a @ concat (map (\<lambda>p. c # p) ps)) = a # ps"
  by (induction ps arbitrary: a) (auto simp: split_on_fresh split_on_append)

text \<open>The parameters as a list of texts after semicolons.\<close>

definition param_parts :: "signature_params \<Rightarrow> string list" where
  "param_parts p =
     [''keyid='' @ quoted (sp_keyid p), ''alg='' @ quoted (alg_str (sp_alg p)), ''created='' @ int_str (sp_created p)]
     @ (case sp_expires p of None \<Rightarrow> [] | Some e \<Rightarrow> [''expires='' @ int_str e])
     @ (case sp_nonce p of None \<Rightarrow> [] | Some n \<Rightarrow> [''nonce='' @ quoted n])"

lemma sig_params_parts:
  "sig_params_text cs p
     = CHR ''('' # join '' '' (map comp_identifier cs) @ CHR '')'' # concat (map (\<lambda>q. CHR '';'' # q) (param_parts p))"
  by (simp add: sig_params_text_def param_parts_def split: option.splits)

lemma int_str_last: "\<not> is_space (last (int_str n))" "int_str n \<noteq> []"
proof -
  show ne: "int_str n \<noteq> []" by (simp add: int_str_def)
  show "\<not> is_space (last (int_str n))"
    using int_str_chars [of "last (int_str n)" n] last_in_set [OF ne] by (auto simp: is_digit_def is_space_def)
qed

lemma int_str_no: "dquote \<notin> set (int_str n)" "CHR '';'' \<notin> set (int_str n)" "nl \<notin> set (int_str n)"
  by (rule int_str_fresh; simp add: is_digit_def)+

lemma parse_quoted_part:
  assumes "CHR ''='' \<notin> set key" "key \<noteq> []" "\<not> is_space (hd key)" "dquote \<notin> set v"
  shows "parse_param (key @ CHR ''='' # quoted v) p
    = (if key = ''keyid'' then p\<lparr>sp_keyid := v\<rparr>
       else if key = ''alg'' then p\<lparr>sp_alg := (if v = ''ed25519+ml-dsa-65'' then AlgHybrid else AlgEd25519)\<rparr>
       else if key = ''created'' then p\<lparr>sp_created := i64_or_zero v\<rparr>
       else if key = ''expires'' then p\<lparr>sp_expires := Some (i64_or_zero v)\<rparr>
       else if key = ''nonce'' then p\<lparr>sp_nonce := Some v\<rparr> else p)"
proof -
  have "trim (key @ CHR ''='' # quoted v) = key @ CHR ''='' # quoted v"
    using assms(2,3) by (intro trim_id) (auto simp: quoted_def is_space_def)
  moreover have "trim_matches (\<lambda>c. c = dquote) (quoted v) = v"
    using trim_matches_quoted [OF assms(4)] by (simp add: quoted_def)
  ultimately show ?thesis using assms(2) by (simp add: parse_param_def split_once_append [OF assms(1)])
qed

lemma parse_int_part:
  assumes "CHR ''='' \<notin> set key" "key \<noteq> []" "\<not> is_space (hd key)" "i64_ok n"
  shows "parse_param (key @ CHR ''='' # int_str n) p
    = (if key = ''keyid'' then p\<lparr>sp_keyid := int_str n\<rparr>
       else if key = ''alg'' then p\<lparr>sp_alg := (if int_str n = ''ed25519+ml-dsa-65'' then AlgHybrid else AlgEd25519)\<rparr>
       else if key = ''created'' then p\<lparr>sp_created := n\<rparr>
       else if key = ''expires'' then p\<lparr>sp_expires := Some n\<rparr>
       else if key = ''nonce'' then p\<lparr>sp_nonce := Some (int_str n)\<rparr> else p)"
proof -
  have "trim (key @ CHR ''='' # int_str n) = key @ CHR ''='' # int_str n"
    using assms(2,3) int_str_last [of n] by (intro trim_id) auto
  moreover have "trim_matches (\<lambda>c. c = dquote) (int_str n) = int_str n"
    using trim_matches_fresh [OF int_str_no(1)] .
  moreover have "i64_or_zero (int_str n) = n" using parse_i64_str assms(4) by (simp add: i64_or_zero_def i64_ok_def)
  ultimately show ?thesis using assms(2) by (simp add: parse_param_def split_once_append [OF assms(1)])
qed

lemma alg_str_facts: "dquote \<notin> set (alg_str a)" "CHR '';'' \<notin> set (alg_str a)" "nl \<notin> set (alg_str a)"
  "(if alg_str a = ''ed25519+ml-dsa-65'' then AlgHybrid else AlgEd25519) = a"
  by (cases a; simp add: alg_str_def)+

lemma parse_text_param:
  assumes "param_text_ok v"
  shows "parse_param (''keyid='' @ quoted v) r = r\<lparr>sp_keyid := v\<rparr>"
    "parse_param (''nonce='' @ quoted v) r = r\<lparr>sp_nonce := Some v\<rparr>"
  using assms parse_quoted_part [of "''keyid''" v r] parse_quoted_part [of "''nonce''" v r]
  by (simp_all add: param_text_ok_def is_space_def)

lemma parse_alg_param: "parse_param (''alg='' @ quoted (alg_str a)) r = r\<lparr>sp_alg := a\<rparr>"
  using parse_quoted_part [of "''alg''" "alg_str a" r] by (simp add: alg_str_facts is_space_def)

lemma parse_time_param:
  assumes "i64_ok m"
  shows "parse_param (''created='' @ int_str m) r = r\<lparr>sp_created := m\<rparr>"
    "parse_param (''expires='' @ int_str m) r = r\<lparr>sp_expires := Some m\<rparr>"
  using assms parse_int_part [of "''created''" m r] parse_int_part [of "''expires''" m r]
  by (simp_all add: is_space_def)

lemma fold_param_parts:
  assumes "params_ok p" "sp_label q = sp_label p" "sp_expires q = None" "sp_nonce q = None"
  shows "fold parse_param (param_parts p) q = p"
  using assms parse_text_param parse_alg_param parse_time_param
  by (cases "sp_expires p"; cases "sp_nonce p") (simp_all add: param_parts_def params_ok_def)

lemma param_parts_no_semicolon:
  assumes "params_ok p" "q \<in> set (param_parts p)"
  shows "CHR '';'' \<notin> set q"
  using assms alg_str_facts int_str_no(2)
  by (auto simp: param_parts_def params_ok_def param_text_ok_def quoted_def split: option.splits)

lemma join_ids_facts:
  assumes "\<forall>c \<in> set cs. component_ok c"
  shows "CHR '')'' \<notin> set (join '' '' (map comp_identifier cs))"
    "split_whitespace (join '' '' (map comp_identifier cs)) = map comp_identifier cs"
proof -
  show "CHR '')'' \<notin> set (join '' '' (map comp_identifier cs))"
    using assms comp_identifier_facts(3) set_join by fastforce
  show "split_whitespace (join '' '' (map comp_identifier cs)) = map comp_identifier cs"
    using assms comp_identifier_facts(1,2) by (intro split_whitespace_join) auto
qed

lemma last_concat_parts: "ps \<noteq> [] \<Longrightarrow> last ps \<noteq> [] \<Longrightarrow> last (concat (map (\<lambda>q. c # q) ps)) = last (last ps)"
  by (induction ps) auto

lemma last_part_not_space: "\<not> is_space (last (last (param_parts p)))" "last (param_parts p) \<noteq> []" "param_parts p \<noteq> []"
  using int_str_last by (auto simp: param_parts_def quoted_def is_space_def split: option.splits)

lemma parse_sig_input_parts:
  assumes "CHR ''='' \<notin> set l" "l \<noteq> [] \<longrightarrow> \<not> is_space (hd l)" "\<forall>c \<in> set cs. component_ok c"
    and ps: "ps \<noteq> []" "last ps \<noteq> []" "\<not> is_space (last (last ps))" "\<forall>q \<in> set ps. CHR '';'' \<notin> set q"
  shows "parse_signature_input now
      (l @ CHR ''='' # CHR ''('' # join '' '' (map comp_identifier cs) @ CHR '')'' # concat (map (\<lambda>q. CHR '';'' # q) ps))
    = Inr (map norm_component cs, fold parse_param ps ((default_params now)\<lparr>sp_label := l\<rparr>))"
proof -
  let ?ids = "join '' '' (map comp_identifier cs)" and ?ps = "concat (map (\<lambda>q. CHR '';'' # q) ps)"
  let ?rest = "CHR ''('' # ?ids @ CHR '')'' # ?ps"
  have "last ?ps = last (last ps)" using ps(1,2) by (rule last_concat_parts)
  moreover have "?ps \<noteq> []" using ps(1) by simp
  ultimately have "\<not> is_space (last (l @ CHR ''='' # ?rest))" using ps(3) by simp
  then have "trim (l @ CHR ''='' # ?rest) = l @ CHR ''='' # ?rest"
    using assms(2) by (intro trim_id) (auto simp: hd_append is_space_def)
  then have "split_once (CHR ''='') (trim (l @ CHR ''='' # ?rest)) = Some (l, ?rest)"
    using assms(1) by (simp add: split_once_append)
  moreover have "find_char ?rest (CHR '')'') = Some (Suc (length ?ids))"
    using find_char_append [OF join_ids_facts(1) [OF assms(3)]] by simp
  moreover have "slice ?rest 1 (Suc (length ?ids)) = Some ?ids" by (simp add: slice_def)
  moreover have "split_on (CHR '';'') ?ps = [] # ps"
    using split_on_parts [of "CHR '';''" "[]" ps] ps(4) by simp
  moreover have "fold parse_param ([] # ps) q = fold parse_param ps q" for q by (simp add: parse_param_def trim_id)
  moreover have "map parse_component (map comp_identifier cs) = map norm_component cs"
    using assms(3) comp_identifier_facts(4) by simp
  ultimately show ?thesis using join_ids_facts(2) [OF assms(3)] by (simp add: parse_signature_input_def)
qed

lemma parse_sig_input:
  assumes "params_ok p" "\<forall>c \<in> set cs. component_ok c"
  shows "parse_signature_input now (sp_label p @ ''='' @ sig_params_text cs p) = Inr (map norm_component cs, p)"
proof -
  have "fold parse_param (param_parts p) ((default_params now)\<lparr>sp_label := sp_label p\<rparr>) = p"
    using fold_param_parts [OF assms(1)] by (simp add: default_params_def)
  then show ?thesis
    using parse_sig_input_parts [of "sp_label p" cs "param_parts p" now] assms last_part_not_space
      param_parts_no_semicolon by (simp add: sig_params_parts params_ok_def)
qed

lemma base_norm: "\<forall>c \<in> set cs. component_ok c \<Longrightarrow>
    build_signature_base E r (map norm_component cs) p = build_signature_base E r cs p"
  by (simp add: build_signature_base_def sig_params_text_def comp_def comp_identifier_facts(5) cong: map_cong)

lemma parse_sig_header:
  assumes "b64_ok E" "CHR ''='' \<notin> set l"
  shows "parse_signature E (l @ ''=:'' @ b64_encode E b @ '':'') = Inr (l, b)"
proof -
  have "trim_matches (\<lambda>c. c = CHR '':'') (CHR '':'' # b64_encode E b @ '':'') = b64_encode E b"
    using trim_matches_quoted [of "CHR '':''" "b64_encode E b"] b64_fresh [OF assms(1), of "CHR '':''"] by simp
  then show ?thesis using split_once_append [OF assms(2)] b64_okD(1) [OF assms(1)]
    by (simp add: parse_signature_def)
qed

subsection \<open>What a signature covers\<close>

lemma base_Inr:
  "build_signature_base E r cs p = Inr b \<longleftrightarrow>
     (\<exists>u. url_parse E (req_url r) = Some u
        \<and> b = join [nl] (map (\<lambda>c. comp_identifier c @ '': '' @ component_value r u c) cs
                     @ [quoted ''@signature-params'' @ '': '' @ sig_params_text cs p]))"
  by (auto simp: build_signature_base_def bind_res_Inr_iff)

definition values_ok :: "ext \<Rightarrow> http_request \<Rightarrow> component list \<Rightarrow> bool" where
  "values_ok E r cs \<longleftrightarrow>
     (\<exists>u. url_parse E (req_url r) = Some u \<and> (\<forall>c \<in> set cs. nl \<notin> set (component_value r u c)))"

lemma nl_is_space: "is_space nl"
  by (simp add: is_space_def)

lemma ids_no_nl: "component_ok c \<Longrightarrow> nl \<notin> set (comp_identifier c)"
  using comp_identifier_facts(2) nl_is_space by blast

lemma params_no_nl:
  assumes "params_ok p" "\<forall>c \<in> set cs. component_ok c"
  shows "nl \<notin> set (sig_params_text cs p)"
proof -
  have "nl \<notin> set (join '' '' (map comp_identifier cs))" using assms(2) ids_no_nl set_join by fastforce
  moreover have "nl \<notin> set q" if "q \<in> set (param_parts p)" for q
    using that assms(1) alg_str_facts(3) int_str_no(3)
    by (auto simp: param_parts_def params_ok_def param_text_ok_def quoted_def split: option.splits)
  ultimately show ?thesis by (auto simp: sig_params_parts)
qed

lemma base_determines_values:
  assumes "params_ok p" "\<forall>c \<in> set cs. component_ok c" "values_ok E r cs" "values_ok E r' cs"
    and "build_signature_base E r cs p = Inr b" "build_signature_base E r' cs p = Inr b"
  shows "\<exists>u u'. url_parse E (req_url r) = Some u \<and> url_parse E (req_url r') = Some u'
    \<and> map (component_value r u) cs = map (component_value r' u') cs"
proof -
  let ?l = "\<lambda>r u. map (\<lambda>c. comp_identifier c @ '': '' @ component_value r u c) cs
              @ [quoted ''@signature-params'' @ '': '' @ sig_params_text cs p]"
  obtain u where u: "url_parse E (req_url r) = Some u" "b = join [nl] (?l r u)"
    using assms(5) by (auto simp only: base_Inr)
  obtain u' where u': "url_parse E (req_url r') = Some u'" "b = join [nl] (?l r' u')"
    using assms(6) by (auto simp only: base_Inr)
  have eq: "join [nl] (?l r u) = join [nl] (?l r' u')" unfolding u(2) [symmetric] u'(2) [symmetric] ..
  have fresh: "\<forall>w \<in> set (?l r u). nl \<notin> set w" if "url_parse E (req_url r) = Some u" "values_ok E r cs" for r u
    using that assms(1,2) ids_no_nl params_no_nl [OF assms(1,2)] by (auto simp: values_ok_def quoted_def)
  have "?l r u = ?l r' u'"
    by (rule join_inj [OF eq _ _ fresh [OF u(1) assms(3)] fresh [OF u'(1) assms(4)]]) simp_all
  then show ?thesis using u(1) u'(1) by simp
qed

lemma verify_request_eq:
  assumes "b64_ok E" "ed_ok E" "length k = 32" "params_ok p" "\<forall>c \<in> set cs. component_ok c"
    and "sign_request E r cs p k = Inr s" "build_signature_base E r cs p = Inr b" "build_signature_base E r' cs p = Inr b'"
  shows "verify_request E now r' (sr_signature_input s) (sr_signature s) (encode_public_key E (ed_public E k))
    = Inr \<lparr>hv_ed25519_valid = ed_check E (ed_public E k) b' (ed_sign_raw E k b), hv_mldsa65_valid = None,
           hv_keyid = sp_keyid p, hv_alg = alg_str (sp_alg p), hv_created = sp_created p,
           hv_expired = (case sp_expires p of None \<Rightarrow> False | Some e \<Rightarrow> e < timestamp now)\<rparr>"
proof -
  have s: "sr_signature_input s = sp_label p @ ''='' @ sig_params_text cs p"
    "sr_signature s = sp_label p @ ''=:'' @ b64_encode E (ed_sign_raw E k b) @ '':''"
    using assms(6,7) by (auto simp: sign_request_def)
  have l: "CHR ''='' \<notin> set (sp_label p)" using assms(4) by (simp add: params_ok_def)
  show ?thesis
    unfolding s verify_request_def parse_sig_input [OF assms(4,5)] parse_sig_header [OF assms(1) l]
    using assms(8) base_norm [OF assms(5)] b64_okD(1) [OF assms(1)] ed_okD [OF assms(2,3)]
    by (simp add: encode_public_key_def)
qed

subsection \<open>WebSocket messages\<close>

lemma nat_str_no_nl: "nl \<notin> set (nat_str n)"
  by (rule nat_str_fresh) (simp add: is_digit_def)

interpretation ws: canonical_payload "\<lambda>_. True" "\<lambda>(p, n, t). ws_sign_data p n t" "\<lambda>x. x"
proof
  fix x y :: "string \<times> nat \<times> int"
  obtain p n t where x: "x = (p, n, t)" by (cases x)
  obtain p' n' t' where y: "y = (p', n', t')" by (cases y)
  assume "(case x of (p, n, t) \<Rightarrow> ws_sign_data p n t) = (case y of (p, n, t) \<Rightarrow> ws_sign_data p n t)"
  then have eq: "p @ nl # (nat_str n @ nl # int_str t) = p' @ nl # (nat_str n' @ nl # int_str t')"
    by (simp add: x y ws_sign_data_def)
  have "count_list (nat_str n @ nl # int_str t) nl = 1" for n t
    using nat_str_no_nl [of n] int_str_no(3) [of t] by (simp add: count_list_0_iff)
  then have "p = p'" "nat_str n @ nl # int_str t = nat_str n' @ nl # int_str t'"
    using count_split_unique [OF eq] by simp_all
  from delim_inj [OF this(2) nat_str_no_nl nat_str_no_nl] this(1) show "x = y" by (simp add: x y)
qed

subsection \<open>Properties\<close>

text \<open>
  C36: signing and verifying agree.  For a request with a parseable URL, admissible components and
  parameters, the two headers a signer produces are parsed back exactly and the verifier, which
  rebuilds the signature base from them, reports a valid signature with the signer's key
  identifier, algorithm and creation time, and expiry exactly when it has passed.
\<close>

theorem httpsig_roundtrip:
  assumes "b64_ok E" "ed_ok E" "length k = 32" "params_ok p" "\<forall>c \<in> set cs. component_ok c"
    and "url_parse E (req_url r) = Some u"
  shows "\<exists>s. sign_request E r cs p k = Inr s
    \<and> parse_signature_input now (sr_signature_input s) = Inr (map norm_component cs, p)
    \<and> verify_request E now r (sr_signature_input s) (sr_signature s) (encode_public_key E (ed_public E k))
      = Inr \<lparr>hv_ed25519_valid = True, hv_mldsa65_valid = None, hv_keyid = sp_keyid p,
             hv_alg = alg_str (sp_alg p), hv_created = sp_created p,
             hv_expired = (case sp_expires p of None \<Rightarrow> False | Some e \<Rightarrow> e < timestamp now)\<rparr>"
proof -
  obtain b where b: "build_signature_base E r cs p = Inr b" using assms(6) by (simp add: build_signature_base_def)
  then obtain s where s: "sign_request E r cs p k = Inr s" by (simp add: sign_request_def)
  have "sr_signature_input s = sp_label p @ ''='' @ sig_params_text cs p" using s b by (auto simp: sign_request_def)
  then show ?thesis using s verify_request_eq [OF assms(1-5) s b b] ed_okD(4) [OF assms(2,3)]
      parse_sig_input [OF assms(4,5)] by simp
qed

definition demo_request :: http_request where
  "demo_request = \<lparr>req_method = ''get'', req_url = ''http://example.com/'', req_headers = [(''Date'', ''now'')],
     req_body = None\<rparr>"

definition demo_params :: signature_params where
  "demo_params = \<lparr>sp_keyid = ''agent-1'', sp_alg = AlgEd25519, sp_created = 100, sp_expires = Some 400,
     sp_nonce = Some ''n1'', sp_label = ''sig1''\<rparr>"

abbreviation demo_components :: "component list" where
  "demo_components \<equiv> [Method, Authority, Path]"

lemma demo_method: "to_uppercase (req_method demo_request) = ''GET''"
  unfolding demo_request_def by code_simp

lemma demo_params_ok: "params_ok demo_params"
  by (simp add: params_ok_def demo_params_def param_text_ok_def i64_ok_def is_space_def)

lemma demo_components_ok: "\<forall>c \<in> set demo_components. component_ok c"
  by (simp add: component_ok_def)

lemma demo_url: "\<exists>u. url_parse ref_ext x = Some u \<and> url_path u = ''/'' \<and> authority_of u = ''example.com''"
  by (simp add: ref_ext_def authority_of_def)

theorem httpsig_roundtrip_witness:
  "\<exists>s. sign_request ref_ext demo_request demo_components demo_params (replicate 32 CHR ''k'') = Inr s
     \<and> (\<exists>v. verify_request ref_ext 5 demo_request (sr_signature_input s) (sr_signature s)
              (encode_public_key ref_ext (ed_public ref_ext (replicate 32 CHR ''k''))) = Inr v \<and> hv_ed25519_valid v)"
proof -
  obtain u where u: "url_parse ref_ext (req_url demo_request) = Some u" using demo_url by blast
  from httpsig_roundtrip [OF ref_b64_ok ref_ed_ok length_replicate demo_params_ok demo_components_ok u, of "CHR ''k''" 5]
  show ?thesis by fastforce
qed

text \<open>
  The signature binds the covered components.  If the headers made for one request verify on
  another, the two requests agree in the value of every covered component, unless the signature
  is a forgery.
\<close>

theorem httpsig_binding:
  assumes "b64_ok E" "ed_ok E" "length k = 32" "params_ok p" "\<forall>c \<in> set cs. component_ok c"
    and "values_ok E r cs" "values_ok E r' cs"
    and "sign_request E r cs p k = Inr s"
    and "verify_request E now r' (sr_signature_input s) (sr_signature s) (encode_public_key E (ed_public E k)) = Inr v"
    and "hv_ed25519_valid v"
  shows "(\<exists>u u'. url_parse E (req_url r) = Some u \<and> url_parse E (req_url r') = Some u'
            \<and> map (component_value r u) cs = map (component_value r' u') cs)
    \<or> (\<exists>b b'. build_signature_base E r cs p = Inr b \<and> b' \<noteq> b \<and> ed_check E (ed_public E k) b' (ed_sign_raw E k b))"
proof -
  obtain b b' where b: "build_signature_base E r cs p = Inr b" "build_signature_base E r' cs p = Inr b'"
    using assms(6,7) by (auto simp: values_ok_def build_signature_base_def)
  have "ed_check E (ed_public E k) b' (ed_sign_raw E k b)"
    using verify_request_eq [OF assms(1-5,8) b, of now] assms(9,10) by simp
  then show ?thesis
    using base_determines_values [OF assms(4-7) b(1)] b by (cases "b' = b") auto
qed

theorem httpsig_binding_witness:
  "\<exists>s v. sign_request ref_ext demo_request demo_components demo_params (replicate 32 CHR ''k'') = Inr s
     \<and> verify_request ref_ext 5 demo_request (sr_signature_input s) (sr_signature s)
          (encode_public_key ref_ext (ed_public ref_ext (replicate 32 CHR ''k''))) = Inr v
     \<and> ((\<exists>u u'. url_parse ref_ext (req_url demo_request) = Some u \<and> url_parse ref_ext (req_url demo_request) = Some u'
            \<and> map (component_value demo_request u) demo_components = map (component_value demo_request u') demo_components)
        \<or> (\<exists>b b'. build_signature_base ref_ext demo_request demo_components demo_params = Inr b \<and> b' \<noteq> b
             \<and> ed_check ref_ext (ed_public ref_ext (replicate 32 CHR ''k'')) b' (ed_sign_raw ref_ext (replicate 32 CHR ''k'') b)))"
proof -
  let ?k = "replicate 32 CHR ''k''"
  obtain u where u: "url_parse ref_ext (req_url demo_request) = Some u" "url_path u = ''/''" "authority_of u = ''example.com''"
    using demo_url by blast
  have vals: "values_ok ref_ext demo_request demo_components"
    using u demo_method by (simp add: values_ok_def component_value_def)
  obtain b where b: "build_signature_base ref_ext demo_request demo_components demo_params = Inr b"
    using u(1) by (simp add: build_signature_base_def)
  then obtain s where s: "sign_request ref_ext demo_request demo_components demo_params ?k = Inr s" by (simp add: sign_request_def)
  obtain v where v: "verify_request ref_ext 5 demo_request (sr_signature_input s) (sr_signature s)
      (encode_public_key ref_ext (ed_public ref_ext ?k)) = Inr v" "hv_ed25519_valid v"
    using verify_request_eq [OF ref_b64_ok ref_ed_ok length_replicate demo_params_ok demo_components_ok s b b, of 5]
      ed_okD(4) [OF ref_ed_ok, of ?k] by simp
  from httpsig_binding [OF ref_b64_ok ref_ed_ok length_replicate demo_params_ok demo_components_ok vals vals s v]
  show ?thesis using s v(1) by blast
qed

text \<open>
  A signed WebSocket message verifies, and its signature fixes payload, sequence number and
  time even when the payload holds line breaks: the same signature on another message is a
  forgery.  The key identifier is not covered.
\<close>

theorem ws_message_binding:
  assumes "b64_ok E" "ed_ok E" "length k = 32" "sign_ws_message E now pl n kid k None = Inr msg"
  shows "verify_ws_message E (msg\<lparr>ws_keyid := any\<rparr>) (encode_public_key E (ed_public E k)) pqpub = Inr True
    \<and> (ws_signature other = ws_signature msg
       \<and> verify_ws_message E other (encode_public_key E (ed_public E k)) pqpub = Inr True \<longrightarrow>
         (ws_payload other, ws_seq other, ws_timestamp other) = (pl, n, timestamp now)
         \<or> (\<exists>m. m \<noteq> ws_sign_data pl n (timestamp now)
              \<and> ed_check E (ed_public E k) m (ed_sign_raw E k (ws_sign_data pl n (timestamp now)))))"
proof -
  have msg: "ws_payload msg = pl" "ws_seq msg = n" "ws_timestamp msg = timestamp now" "ws_pq_signature msg = None"
    "ws_signature msg = sign E k (ws_sign_data pl n (timestamp now))"
    using assms(4) by (auto simp: sign_ws_message_def Let_def)
  have "verify_ws_message E (msg\<lparr>ws_keyid := any\<rparr>) (encode_public_key E (ed_public E k)) pqpub = Inr True"
    using verify_sign [OF assms(1-3)] by (simp add: verify_ws_message_def msg Let_def)
  moreover have "verify E (encode_public_key E (ed_public E k))
      (ws_sign_data (ws_payload other) (ws_seq other) (ws_timestamp other)) (ws_signature other) = Inr True"
    if "verify_ws_message E other (encode_public_key E (ed_public E k)) pqpub = Inr True"
    using that by (auto simp: verify_ws_message_def bind_res_Inr_iff Let_def split: if_splits)
  moreover have "(ws_payload other, ws_seq other, ws_timestamp other) = (pl, n, timestamp now)"
    if "ws_sign_data (ws_payload other) (ws_seq other) (ws_timestamp other) = ws_sign_data pl n (timestamp now)"
    using that ws.payload_inj [of "(ws_payload other, ws_seq other, ws_timestamp other)" "(pl, n, timestamp now)"]
    by simp
  ultimately show ?thesis
    using assms(1-3) unfolding msg by (metis sum.inject(2) verify_on_sign)
qed

theorem ws_message_binding_witness:
  "\<exists>msg. sign_ws_message ref_ext 5 ''hi'' 1 ''id'' (replicate 32 CHR ''k'') None = Inr msg
     \<and> verify_ws_message ref_ext (msg\<lparr>ws_keyid := ''other''\<rparr>)
          (encode_public_key ref_ext (ed_public ref_ext (replicate 32 CHR ''k''))) None = Inr True"
proof -
  obtain msg where "sign_ws_message ref_ext 5 ''hi'' 1 ''id'' (replicate 32 CHR ''k'') None = Inr msg"
    by (simp add: sign_ws_message_def Let_def)
  from ws_message_binding [OF ref_b64_ok ref_ed_ok length_replicate this] this show ?thesis by blast
qed

subsection \<open>The proxy signs another base\<close>

lemma join_snoc: "xs \<noteq> [] \<Longrightarrow> join [c] (xs @ [y]) = join [c] xs @ c # y"
  by (induction "[c]" xs rule: join.induct) auto

definition proxy_parts :: "request_signer \<Rightarrow> int \<Rightarrow> string \<Rightarrow> string list" where
  "proxy_parts sg created nonce =
     [''created='' @ int_str created, ''keyid='' @ quoted (rs_key_id sg), ''nonce='' @ quoted nonce,
      ''alg='' @ quoted (alg_str AlgEd25519)]"

abbreviation proxy_components :: "component list" where
  "proxy_components \<equiv> [Method, TargetUri, Authority]"

lemma proxy_params_parts:
  "proxy_params_text sg created nonce
     = CHR ''('' # join '' '' (map comp_identifier proxy_components) @ CHR '')''
       # concat (map (\<lambda>q. CHR '';'' # q) (proxy_parts sg created nonce))"
  by (simp add: proxy_params_text_def proxy_parts_def comp_identifier_def alg_str_def)

lemma proxy_input_parsed:
  assumes "param_text_ok (rs_key_id sg)" "param_text_ok nonce" "i64_ok created"
  shows "parse_signature_input now (''sig1='' @ proxy_params_text sg created nonce)
    = Inr (proxy_components, \<lparr>sp_keyid = rs_key_id sg, sp_alg = AlgEd25519, sp_created = created,
        sp_expires = None, sp_nonce = Some nonce, sp_label = ''sig1''\<rparr>)"
proof -
  have "\<forall>q \<in> set (proxy_parts sg created nonce). CHR '';'' \<notin> set q"
    using assms int_str_no(2) by (auto simp: proxy_parts_def param_text_ok_def quoted_def alg_str_def)
  then show ?thesis
    using parse_sig_input_parts [of "''sig1''" proxy_components "proxy_parts sg created nonce" now]
      parse_text_param assms parse_time_param parse_alg_param
    by (simp add: proxy_params_parts)
       (simp add: proxy_parts_def component_ok_def quoted_def is_space_def norm_component_def default_params_def)
qed

lemma proxy_base_differs:
  assumes "param_text_ok (rs_key_id sg)" "param_text_ok nonce"
    and "build_signature_base E r proxy_components \<lparr>sp_keyid = rs_key_id sg, sp_alg = AlgEd25519, sp_created = created,
        sp_expires = None, sp_nonce = Some nonce, sp_label = ''sig1''\<rparr> = Inr b"
  shows "b \<noteq> proxy_sig_base E sg created nonce meth uri"
proof
  let ?p = "\<lparr>sp_keyid = rs_key_id sg, sp_alg = AlgEd25519, sp_created = created,
        sp_expires = None, sp_nonce = Some nonce, sp_label = ''sig1''\<rparr>"
  let ?last = "quoted ''@signature-params'' @ '': '' @ sig_params_text proxy_components ?p"
  let ?last' = "quoted ''@signature-params'' @ '': '' @ proxy_params_text sg created nonce"
  assume eq: "b = proxy_sig_base E sg created nonce meth uri"
  obtain u where "b = join [nl] (map (\<lambda>c. comp_identifier c @ '': '' @ component_value r u c) proxy_components @ [?last])"
    using assms(3) by (auto simp only: base_Inr)
  then have b: "b = join [nl] (map (\<lambda>c. comp_identifier c @ '': '' @ component_value r u c) proxy_components) @ nl # ?last"
    by (simp only: join_snoc list.simps not_False_eq_True)
  obtain a where b': "b = a @ nl # ?last'" using eq by (simp add: proxy_sig_base_def)
  have n: "nl \<notin> set ?last" "nl \<notin> set ?last'"
    using assms(1,2) int_str_no(3) [of created]
    by (auto simp: sig_params_text_def proxy_params_text_def quoted_def comp_identifier_def param_text_ok_def alg_str_def)
  note zero = count_list_0_iff [THEN iffD2, OF n(1)] count_list_0_iff [THEN iffD2, OF n(2)]
  have "count_list ?last nl = count_list ?last' nl" by (rule trans [OF zero(1) zero(2) [symmetric]])
  from count_split_unique [OF trans [OF b [symmetric] b'] this] have "?last = ?last'" ..
  then show False by (simp add: sig_params_text_def proxy_params_text_def comp_identifier_def quoted_def)
qed

text \<open>
  The core verifier cannot verify what the proxy signs.  The proxy lists the signature
  parameters in another order than the verifier rebuilds them, so for every request, the signed
  one included, the verifier checks the signature against a base that differs from the one that
  was signed; a valid answer would be a forgery.
\<close>

theorem proxy_signature_not_verified:
  assumes "b64_ok E" "ed_ok E" "length (rs_signing_key sg) = 32"
    and "param_text_ok (rs_key_id sg)" "param_text_ok nonce" "i64_ok (timestamp now)"
    and "map_of (proxy_sign_request E now date nonce sg meth uri hs) ''Signature-Input'' = Some si"
    and "map_of (proxy_sign_request E now date nonce sg meth uri hs) ''Signature'' = Some sig"
    and "verify_request E t r si sig (encode_public_key E (ed_public E (rs_signing_key sg))) = Inr v"
  shows "\<exists>b. b \<noteq> proxy_sig_base E sg (timestamp now) nonce meth uri
    \<and> hv_ed25519_valid v = ed_check E (ed_public E (rs_signing_key sg)) b
        (ed_sign_raw E (rs_signing_key sg) (proxy_sig_base E sg (timestamp now) nonce meth uri))"
proof -
  let ?k = "rs_signing_key sg" and ?b = "proxy_sig_base E sg (timestamp now) nonce meth uri"
  let ?p = "\<lparr>sp_keyid = rs_key_id sg, sp_alg = AlgEd25519, sp_created = timestamp now,
        sp_expires = None, sp_nonce = Some nonce, sp_label = ''sig1''\<rparr>"
  have si: "si = ''sig1='' @ proxy_params_text sg (timestamp now) nonce"
    and sig: "sig = ''sig1'' @ ''=:'' @ b64_encode E (ed_sign_raw E ?k ?b) @ '':''"
    using assms(7,8) by (auto simp: proxy_sign_request_def Let_def)
  have "parse_signature E sig = Inr (''sig1'', ed_sign_raw E ?k ?b)"
    unfolding sig by (rule parse_sig_header [OF assms(1)]) simp
  then obtain b where b: "build_signature_base E r proxy_components ?p = Inr b"
    "hv_ed25519_valid v = ed_check E (ed_public E ?k) b (ed_sign_raw E ?k ?b)"
    using assms(9) proxy_input_parsed [OF assms(4-6)] b64_okD(1) [OF assms(1)]
    unfolding verify_request_def si by (auto simp: bind_res_Inr_iff encode_public_key_def)
  then show ?thesis using proxy_base_differs [OF assms(4,5) b(1)] by blast
qed

theorem proxy_signature_not_verified_witness:
  "let sg = \<lparr>rs_signing_key = replicate 32 CHR ''k'', rs_pq_secret_key = None, rs_agent_id = ''a'', rs_key_id = ''clawid-a''\<rparr>
   in \<exists>b (v :: http_verification). b \<noteq> proxy_sig_base ref_ext sg (timestamp 0) ''n'' ''GET'' ''http://example.com/''
     \<and> hv_ed25519_valid v = ed_check ref_ext (ed_public ref_ext (rs_signing_key sg)) b
        (ed_sign_raw ref_ext (rs_signing_key sg) (proxy_sig_base ref_ext sg (timestamp 0) ''n'' ''GET'' ''http://example.com/''))"
proof -
  let ?k = "replicate 32 CHR ''k''"
  let ?sg = "\<lparr>rs_signing_key = ?k, rs_pq_secret_key = None, rs_agent_id = ''a'', rs_key_id = ''clawid-a''\<rparr>"
  let ?b = "proxy_sig_base ref_ext ?sg (timestamp 0) ''n'' ''GET'' ''http://example.com/''"
  let ?hs = "proxy_sign_request ref_ext 0 ''now'' ''n'' ?sg ''GET'' ''http://example.com/'' []"
  let ?si = "''sig1='' @ proxy_params_text ?sg (timestamp 0) ''n''"
  let ?sig = "''sig1'' @ ''=:'' @ b64_encode ref_ext (ed_sign_raw ref_ext ?k ?b) @ '':''"
  have h: "map_of ?hs ''Signature-Input'' = Some ?si" "map_of ?hs ''Signature'' = Some ?sig"
    by (simp_all add: proxy_sign_request_def Let_def)
  have ok: "length (rs_signing_key ?sg) = 32" "param_text_ok (rs_key_id ?sg)" "param_text_ok ''n''" "i64_ok (timestamp 0)"
    by (simp_all add: param_text_ok_def i64_ok_def timestamp_def ns_per_sec_def)
  have "parse_signature ref_ext ?sig = Inr (''sig1'', ed_sign_raw ref_ext ?k ?b)"
    by (rule parse_sig_header [OF ref_b64_ok]) simp
  moreover obtain u where "url_parse ref_ext (req_url demo_request) = Some u" using demo_url by blast
  ultimately obtain v where "verify_request ref_ext 0 demo_request ?si ?sig
      (encode_public_key ref_ext (ed_public ref_ext (rs_signing_key ?sg))) = Inr v"
    unfolding verify_request_def proxy_input_parsed [OF ok(2-4)]
    using b64_okD(1) [OF ref_b64_ok] ed_okD [OF ref_ed_ok, of ?k]
    by (simp add: build_signature_base_def encode_public_key_def)
  from proxy_signature_not_verified [OF ref_b64_ok ref_ed_ok ok h this]
  show ?thesis unfolding Let_def by (elim exE) (rule exI, rule exI, assumption)
qed

end
