(* ===== verification/Proxy_Scope.thy ===== *)
theory Proxy_Scope
  imports External
begin

text \<open>
  The scope engine of the proxy, \<^verbatim>\<open>grokingclaw-proxy/src/scope.rs\<close>: the domain allowlist and the
  sliding-window rate limiter.  Instants are nanoseconds of the monotonic clock and an argument
  of each check.  The \<^verbatim>\<open>HashSet\<close> of domains is the list of its elements in its iteration order;
  no decision depends on that order.
\<close>

subsection \<open>State and decisions\<close>

record scope_config =
  allowed_domains :: "string list"
  max_requests_per_minute :: u32
  request_timestamps :: "int list"

datatype scope_decision =
    Allow
  | DenyDomain string "string list"
  | DenyRateLimit u32 nat

definition scope_new :: "string list \<Rightarrow> u32 \<Rightarrow> scope_config" where
  "scope_new domains limit =
     \<lparr>allowed_domains = remdups domains, max_requests_per_minute = limit, request_timestamps = []\<rparr>"

definition permissive :: scope_config where
  "permissive = \<lparr>allowed_domains = [], max_requests_per_minute = 0, request_timestamps = []\<rparr>"

subsection \<open>Operations\<close>

text \<open>\<^verbatim>\<open>Instant::duration_since\<close> saturates at zero.\<close>

definition duration_since :: "int \<Rightarrow> int \<Rightarrow> int" where
  "duration_since now t = max 0 (now - t)"

fun evict :: "int \<Rightarrow> int \<Rightarrow> int list \<Rightarrow> int list" where
  "evict window now [] = []"
| "evict window now (t # q) = (if window \<le> duration_since now t then evict window now q else t # q)"

definition rate_step :: "u32 \<Rightarrow> int \<Rightarrow> int \<Rightarrow> int list \<Rightarrow> nat option result \<times> int list" where
  "rate_step limit window now q0 =
     (let q = evict window now q0
      in if limit \<le> (of_nat (length q) :: u32)
         then case q of
             [] \<Rightarrow> (Inl (Panic ''called Option::unwrap() on a None value''), q)
           | oldest # _ \<Rightarrow>
               (let wait = max 0 (window - duration_since now oldest)
                in (Inr (Some (max (nat (wait div ns_per_sec)) 1)), q))
         else (Inr None, q @ [now]))"

definition check_rate_limit :: "int \<Rightarrow> scope_config \<Rightarrow> nat option result \<times> scope_config" where
  "check_rate_limit now cfg =
     (if max_requests_per_minute cfg = 0 then (Inr None, cfg)
      else let (r, q) = rate_step (max_requests_per_minute cfg) (seconds 60) now (request_timestamps cfg)
           in (r, cfg\<lparr>request_timestamps := q\<rparr>))"

definition extract_domain :: "ext \<Rightarrow> string \<Rightarrow> string" where
  "extract_domain E url_str =
     (case url_parse E url_str of
        Some url \<Rightarrow> (case url_host url of Some h \<Rightarrow> h | None \<Rightarrow> [])
      | None \<Rightarrow> hd (split_on CHR '':'' url_str))"

fun parent_allowed :: "string \<Rightarrow> string list \<Rightarrow> bool" where
  "parent_allowed domain [] = False"
| "parent_allowed domain (a # as) = (if ends_with domain (CHR ''.'' # a) then True else parent_allowed domain as)"

definition domain_decision :: "scope_config \<Rightarrow> string \<Rightarrow> scope_decision" where
  "domain_decision cfg domain =
     (if domain \<in> set (allowed_domains cfg) then Allow
      else if parent_allowed domain (allowed_domains cfg) then Allow
      else DenyDomain domain (allowed_domains cfg))"

definition check_url :: "ext \<Rightarrow> int \<Rightarrow> string \<Rightarrow> scope_config \<Rightarrow> scope_decision result \<times> scope_config" where
  "check_url E now url cfg0 =
     (let (r, cfg) = check_rate_limit now cfg0
      in (case r of
            Inl e \<Rightarrow> Inl e
          | Inr (Some wait_secs) \<Rightarrow> Inr (DenyRateLimit (max_requests_per_minute cfg) wait_secs)
          | Inr None \<Rightarrow>
              Inr (if allowed_domains cfg = [] then Allow
                   else let domain = extract_domain E url
                        in if domain = [] then Allow else domain_decision cfg domain), cfg))"

definition check_connect :: "int \<Rightarrow> string \<Rightarrow> scope_config \<Rightarrow> scope_decision result \<times> scope_config" where
  "check_connect now host_port cfg0 =
     (let host = hd (split_on CHR '':'' host_port); (r, cfg) = check_rate_limit now cfg0
      in (case r of
            Inl e \<Rightarrow> Inl e
          | Inr (Some wait_secs) \<Rightarrow> Inr (DenyRateLimit (max_requests_per_minute cfg) wait_secs)
          | Inr None \<Rightarrow>
              Inr (if allowed_domains cfg = [] then Allow else domain_decision cfg host), cfg))"

subsection \<open>The limiter is a sliding window\<close>

lemma evict_live: "sorted q \<Longrightarrow> 0 < w \<Longrightarrow> evict w now q = live w now q"
proof (induction q)
  case (Cons t q)
  have "live w now q = q" if "now - t < w"
    using that Cons.prems by (auto simp: live_def filter_id_conv)
  with Cons show ?case by (auto simp: live_def duration_since_def)
qed (simp add: live_def)

lemma length_word_le:
  fixes limit :: u32
  assumes "n \<le> unat limit"
  shows "limit \<le> (of_nat n :: u32) \<longleftrightarrow> unat limit \<le> n"
proof -
  have "n < 2 ^ 32" using assms unsigned_less [where 'a = nat, of limit] by simp
  then have "unat (of_nat n :: u32) = n" by (simp add: unat_of_nat take_bit_nat_eq_self)
  then show ?thesis by (simp add: word_le_nat_alt)
qed

lemma length_live: "length (live w now q) \<le> length q"
  by (simp add: live_def)

lemma rate_step_spec:
  assumes "sorted q" "length q \<le> unat limit" "0 < limit" "0 < w"
  shows "rate_step limit w now q =
     (if length (live w now q) < unat limit then (Inr None, live w now q @ [now])
      else (Inr (Some (max (nat (max 0 (w - duration_since now (hd (live w now q))) div ns_per_sec)) 1)),
            live w now q))"
proof -
  let ?l = "live w now q"
  have e: "evict w now q = ?l" using evict_live assms(1,4) by blast
  have "length ?l \<le> unat limit" using length_live assms(2) le_trans by blast
  then have c: "limit \<le> (of_nat (length ?l) :: u32) \<longleftrightarrow> \<not> length ?l < unat limit"
    using length_word_le by (simp add: linorder_not_less)
  have "?l \<noteq> []" if "\<not> length ?l < unat limit"
    using that assms(3) by (auto simp: word_less_nat_alt)
  then show ?thesis
    unfolding rate_step_def Let_def e c by (cases ?l) auto
qed

definition rate_admit :: "nat \<Rightarrow> int \<Rightarrow> int \<Rightarrow> int list \<Rightarrow> bool \<times> int list" where
  "rate_admit limit w now q = (let (r, q') = rate_step (of_nat limit) w now q in (r = Inr None, q'))"

interpretation limiter: sliding_window rate_admit
proof
  fix q :: "int list" and limit :: nat and w now :: int
  assume "sorted q" "length q \<le> limit" "0 < limit" "limit < 2 ^ 32" "0 < w"
  moreover from this have "unat (of_nat limit :: u32) = limit" by (simp add: unat_of_nat take_bit_nat_eq_self)
  moreover from calculation have "0 < (of_nat limit :: u32)" by (simp add: word_less_nat_alt)
  ultimately show "rate_admit limit w now q =
      (if length (live w now q) < limit then (True, live w now q @ [now]) else (False, live w now q))"
    using rate_step_spec [of q "of_nat limit" w now] by (simp add: rate_admit_def)
qed

subsection \<open>Runs of checks\<close>

datatype scope_request = Url string | Connect string

definition scope_check :: "ext \<Rightarrow> int \<Rightarrow> scope_request \<Rightarrow> scope_config \<Rightarrow> scope_decision result \<times> scope_config" where
  "scope_check E now rq cfg = (case rq of Url u \<Rightarrow> check_url E now u cfg | Connect h \<Rightarrow> check_connect now h cfg)"

definition request_host :: "ext \<Rightarrow> scope_request \<Rightarrow> string" where
  "request_host E rq = (case rq of Url u \<Rightarrow> extract_domain E u | Connect h \<Rightarrow> hd (split_on CHR '':'' h))"

text \<open>The states of a configuration, with the time of its last check.\<close>

inductive scope_step :: "ext \<Rightarrow> scope_config \<times> int \<Rightarrow> scope_config \<times> int \<Rightarrow> bool" for E where
  step_check: "prev \<le> now \<Longrightarrow> scope_check E now rq cfg = (r, cfg') \<Longrightarrow> scope_step E (cfg, prev) (cfg', now)"

inductive_cases scope_stepE: "scope_step E s t"

definition scope_init :: "string list \<Rightarrow> u32 \<Rightarrow> scope_config \<times> int \<Rightarrow> bool" where
  "scope_init domains limit s \<longleftrightarrow> fst s = scope_new domains limit"

definition queue_ok :: "u32 \<Rightarrow> int \<Rightarrow> int list \<Rightarrow> bool" where
  "queue_ok limit now q \<longleftrightarrow> sorted q \<and> (\<forall>t \<in> set q. t \<le> now) \<and> length q \<le> unat limit"

definition scope_ok :: "string list \<Rightarrow> u32 \<Rightarrow> scope_config \<times> int \<Rightarrow> bool" where
  "scope_ok domains limit s \<longleftrightarrow>
     allowed_domains (fst s) = remdups domains \<and> max_requests_per_minute (fst s) = limit
     \<and> queue_ok limit (snd s) (request_timestamps (fst s))"

lemma scope_check_cfg: "snd (scope_check E now rq cfg) = snd (check_rate_limit now cfg)"
  by (simp add: scope_check_def check_url_def check_connect_def split: scope_request.split prod.split)

lemma check_rate_limit_cfg:
  "allowed_domains (snd (check_rate_limit now cfg)) = allowed_domains cfg"
  "max_requests_per_minute (snd (check_rate_limit now cfg)) = max_requests_per_minute cfg"
  by (simp_all add: check_rate_limit_def split: prod.split)

lemma queue_ok_mono: "queue_ok limit prev q \<Longrightarrow> prev \<le> now \<Longrightarrow> queue_ok limit now q"
  by (auto simp: queue_ok_def)

lemma queue_ok_live: "queue_ok limit now q \<Longrightarrow> queue_ok limit now (live w now q)"
  by (auto simp: queue_ok_def live_def sorted_wrt_filter intro: le_trans [OF length_filter_le])

lemma queue_ok_grant: "queue_ok limit now q \<Longrightarrow> length q < unat limit \<Longrightarrow> queue_ok limit now (q @ [now])"
  by (auto simp: queue_ok_def sorted_append)

lemma check_rate_limit_eq:
  assumes "queue_ok (max_requests_per_minute cfg) now (request_timestamps cfg)"
  defines "l \<equiv> live (seconds 60) now (request_timestamps cfg)"
  shows "check_rate_limit now cfg =
     (if max_requests_per_minute cfg = 0 then (Inr None, cfg)
      else if length l < unat (max_requests_per_minute cfg)
      then (Inr None, cfg\<lparr>request_timestamps := l @ [now]\<rparr>)
      else (Inr (Some (max (nat (max 0 (seconds 60 - duration_since now (hd l)) div ns_per_sec)) 1)),
            cfg\<lparr>request_timestamps := l\<rparr>))"
  using assms rate_step_spec [of "request_timestamps cfg" "max_requests_per_minute cfg" "seconds 60" now]
  by (simp add: check_rate_limit_def queue_ok_def seconds_def ns_per_sec_def word_gt_0)

lemma check_rate_limit_queue:
  assumes "queue_ok (max_requests_per_minute cfg) now (request_timestamps cfg)"
  shows "queue_ok (max_requests_per_minute cfg) now (request_timestamps (snd (check_rate_limit now cfg)))"
  using assms queue_ok_live [OF assms] queue_ok_grant [OF queue_ok_live [OF assms]]
  by (auto simp: check_rate_limit_eq)

interpretation scope_inv: invariant "scope_init domains limit" "scope_step E" "scope_ok domains limit" for domains limit E
proof
  fix s assume "scope_init domains limit s"
  then show "scope_ok domains limit s" by (simp add: scope_init_def scope_ok_def scope_new_def queue_ok_def)
next
  fix s t assume s: "scope_ok domains limit s" and "scope_step E s t"
  from this(2) obtain cfg prev now rq r cfg' where
    st: "s = (cfg, prev)" "t = (cfg', now)" "prev \<le> now" "scope_check E now rq cfg = (r, cfg')"
    by (elim scope_stepE)
  have c: "cfg' = snd (check_rate_limit now cfg)" using st(4) scope_check_cfg [of E now rq cfg] by simp
  have q: "queue_ok (max_requests_per_minute cfg) now (request_timestamps cfg)"
    using s st(1,3) queue_ok_mono by (auto simp: scope_ok_def)
  show "scope_ok domains limit t"
    using s st(1,2) c check_rate_limit_queue [OF q] by (simp add: scope_ok_def check_rate_limit_cfg)
qed

subsection \<open>The decisions\<close>

text \<open>A host is covered by an allowed domain when it is that domain or a subdomain of it.\<close>

definition covered :: "string list \<Rightarrow> string \<Rightarrow> bool" where
  "covered domains host \<longleftrightarrow> (\<exists>a \<in> set domains. host = a \<or> (\<exists>sub. host = sub @ CHR ''.'' # a))"

lemma parent_allowed_iff: "parent_allowed h as \<longleftrightarrow> (\<exists>a \<in> set as. \<exists>sub. h = sub @ CHR ''.'' # a)"
  by (induction as) (auto simp: ends_with_iff)

lemma domain_decision_eq:
  "domain_decision cfg h = (if covered (allowed_domains cfg) h then Allow else DenyDomain h (allowed_domains cfg))"
  by (auto simp: domain_decision_def covered_def parent_allowed_iff)

lemma covered_remdups [simp]: "covered (remdups ds) h = covered ds h"
  by (simp add: covered_def)

text \<open>The decision, by what the invariant says of the state.\<close>

definition decide :: "ext \<Rightarrow> string list \<Rightarrow> scope_request \<Rightarrow> scope_decision" where
  "decide E domains rq =
     (if domains = [] \<or> (request_host E rq = [] \<and> (\<exists>u. rq = Url u)) \<or> covered domains (request_host E rq) then Allow
      else DenyDomain (request_host E rq) (remdups domains))"

lemma scope_decision:
  assumes ok: "scope_ok domains limit (cfg, prev)" and "prev \<le> now"
  shows "\<exists>wait. 1 \<le> wait \<and> wait \<le> 60 \<and>
     fst (scope_check E now rq cfg) =
       Inr (if limit \<noteq> 0 \<and> unat limit \<le> length (live (seconds 60) now (request_timestamps cfg))
            then DenyRateLimit limit wait else decide E domains rq)"
proof -
  let ?l = "live (seconds 60) now (request_timestamps cfg)"
  let ?wait = "max (nat (max 0 (seconds 60 - duration_since now (hd ?l)) div ns_per_sec)) 1"
  have cfg: "allowed_domains cfg = remdups domains" "max_requests_per_minute cfg = limit"
    and q: "queue_ok (max_requests_per_minute cfg) now (request_timestamps cfg)"
    using assms queue_ok_mono by (auto simp: scope_ok_def)
  have "max 0 (seconds 60 - duration_since now (hd ?l)) div ns_per_sec \<le> seconds 60 div ns_per_sec"
    by (rule zdiv_mono1) (auto simp: seconds_def ns_per_sec_def duration_since_def)
  then have "1 \<le> ?wait \<and> ?wait \<le> 60" by (simp add: seconds_def ns_per_sec_def)
  moreover have "fst (scope_check E now rq cfg) =
       Inr (if limit \<noteq> 0 \<and> unat limit \<le> length ?l then DenyRateLimit limit ?wait else decide E domains rq)"
    unfolding scope_check_def check_url_def check_connect_def check_rate_limit_eq [OF q] cfg request_host_def decide_def
    by (cases rq) (auto simp: cfg domain_decision_eq Let_def)
  ultimately show ?thesis by blast
qed



subsection \<open>The rate over any minute\<close>

fun scope_run :: "ext \<Rightarrow> (int \<times> scope_request) list \<Rightarrow> scope_config \<Rightarrow> (int \<times> scope_decision result) list" where
  "scope_run E [] cfg = []"
| "scope_run E ((now, rq) # rs) cfg =
     (let (d, cfg') = scope_check E now rq cfg in (now, d) # scope_run E rs cfg')"

definition within_rate :: "scope_decision result \<Rightarrow> bool" where
  "within_rate d = (case d of Inl _ \<Rightarrow> False | Inr (DenyRateLimit _ _) \<Rightarrow> False | Inr _ \<Rightarrow> True)"

lemma within_rate_domain [simp]:
  "within_rate (Inr (domain_decision cfg h))" "within_rate (Inr Allow)"
  "\<not> within_rate (Inr (DenyRateLimit l n))" "\<not> within_rate (Inl e)"
  by (simp_all add: domain_decision_def within_rate_def)

lemma scope_check_within:
  "within_rate (fst (scope_check E now rq cfg)) \<longleftrightarrow> fst (check_rate_limit now cfg) = Inr None"
  by (auto simp: scope_check_def check_url_def check_connect_def Let_def
      split: scope_request.split prod.split sum.split option.split)

lemma check_rate_limit_admit:
  assumes "max_requests_per_minute cfg \<noteq> 0"
  shows "rate_admit (unat (max_requests_per_minute cfg)) (seconds 60) now (request_timestamps cfg) =
     (fst (check_rate_limit now cfg) = Inr None, request_timestamps (snd (check_rate_limit now cfg)))"
  using assms by (simp add: rate_admit_def check_rate_limit_def split: prod.split)

lemma scope_run_grants:
  assumes "max_requests_per_minute cfg \<noteq> 0"
  shows "map fst (filter (\<lambda>(t, d). within_rate d) (scope_run E rs cfg)) =
     limiter.grants (unat (max_requests_per_minute cfg)) (seconds 60) (request_timestamps cfg) (map fst rs)"
  using assms
proof (induction rs arbitrary: cfg)
  case (Cons r rs)
  obtain now rq where r: "r = (now, rq)" by (cases r)
  obtain d cfg' where c: "scope_check E now rq cfg = (d, cfg')" by (cases "scope_check E now rq cfg")
  have cfg': "cfg' = snd (check_rate_limit now cfg)" using scope_check_cfg [of E now rq cfg] c by simp
  have w: "within_rate d \<longleftrightarrow> fst (check_rate_limit now cfg) = Inr None"
    using scope_check_within [of E now rq cfg] c by simp
  show ?case
    using Cons.IH [of cfg'] Cons.prems check_rate_limit_admit [OF Cons.prems, of now] cfg' w
    by (simp add: r c check_rate_limit_cfg)
qed simp

lemma length_filter_map: "length (filter P (map f xs)) = length (filter (P \<circ> f) xs)"
  by (simp add: filter_map)

lemma length_filter_mono: "(\<And>x. P x \<Longrightarrow> Q x) \<Longrightarrow> length (filter P xs) \<le> length (filter Q xs)"
  by (induction xs) auto

text \<open>
  The rate limit holds over every minute, not only over clock minutes.  Whatever requests
  arrive at a fresh configuration with a limit, in any order of times that does not run
  backwards, at most \<open>limit\<close> of those in any 60 seconds pass the limiter; in particular at most
  that many are allowed.
\<close>

theorem rate_bound_any_minute:
  assumes "limit \<noteq> 0" and "sorted (map fst rs)"
  shows "length (filter (\<lambda>(t, d). e - seconds 60 < t \<and> t \<le> e \<and> within_rate d)
            (scope_run E rs (scope_new domains limit))) \<le> unat limit
       \<and> length (filter (\<lambda>(t, d). e - seconds 60 < t \<and> t \<le> e \<and> d = Inr Allow)
            (scope_run E rs (scope_new domains limit))) \<le> unat limit"
proof -
  let ?run = "scope_run E rs (scope_new domains limit)"
  let ?in = "\<lambda>t. e - seconds 60 < t \<and> t \<le> e"
  let ?W = "filter (\<lambda>(t, d). ?in t \<and> within_rate d) ?run"
  have g: "map fst (filter (\<lambda>(t, d). within_rate d) ?run) = limiter.grants (unat limit) (seconds 60) [] (map fst rs)"
    using scope_run_grants [of "scope_new domains limit"] assms(1) by (simp add: scope_new_def)
  have "length ?W = length (filter ?in (map fst (filter (\<lambda>(t, d). within_rate d) ?run)))"
    unfolding length_filter_map filter_filter by (rule arg_cong [where f = length], rule filter_cong) auto
  also have "\<dots> \<le> unat limit"
    using limiter.window_bound [of "[]" "unat limit" "seconds 60" "map fst rs" e] assms
      unsigned_less [where 'a = nat, of limit]
    unfolding g by (simp add: seconds_def ns_per_sec_def unat_gt_0)
  finally have le: "length ?W \<le> unat limit" .
  have "length (filter (\<lambda>(t, d). ?in t \<and> d = Inr Allow) ?run) \<le> length ?W"
    by (rule length_filter_mono) auto
  with le show ?thesis unfolding conj_assoc by (meson le_trans)
qed

theorem rate_bound_any_minute_witness:
  "(let run = scope_run ref_ext [(0, Connect ''a.b:1''), (seconds 59, Url ''http://a.b/''), (seconds 60, Connect ''a.b:1'')]
              (scope_new [''a.b''] 1)
    in map snd run = [Inr Allow, Inr (DenyRateLimit 1 1), Inr Allow]
       \<and> length (filter (\<lambda>(t, d). seconds 60 - seconds 60 < t \<and> t \<le> seconds 60 \<and> d = Inr Allow) run) \<le> 1)"
proof -
  let ?rs = "[(0, Connect ''a.b:1''), (seconds 59, Url ''http://a.b/''), (seconds 60, Connect ''a.b:1'')]"
  have "map snd (scope_run ref_ext ?rs (scope_new [''a.b''] 1)) = [Inr Allow, Inr (DenyRateLimit 1 1), Inr Allow]"
    by code_simp
  moreover have "sorted (map fst ?rs)" by (simp add: seconds_def ns_per_sec_def)
  ultimately show ?thesis
    using rate_bound_any_minute [of 1 ?rs "seconds 60" ref_ext "[''a.b'']"] by (simp only: Let_def) simp
qed

end
