(* ===== verification/OAuth_Cache.thy ===== *)
theory OAuth_Cache
  imports External
begin

text \<open>
  The OAuth token cache of the proxy, \<^verbatim>\<open>grokingclaw-proxy/src/oauth.rs\<close>: domain bindings, the token of a
  request, and refreshes through the daemon, immediate or in the background.  The daemon is a
  function from the socket path and the request line to the line it answers; a background
  refresh is pending until a step of its own completes it.
\<close>

subsection \<open>State\<close>

record cached_oauth_token =
  ct_access_token :: string
  ct_expires_at :: int
  ct_scopes :: "string list"
  ct_provider :: string
  ct_registration_id :: string

record oauth_domain_binding =
  bind_domain :: string
  bind_registration_id :: string
  bind_required_scopes :: "string list"

record oauth_token_cache =
  tokens :: "string \<rightharpoonup> cached_oauth_token"
  bindings :: "oauth_domain_binding list"
  cache_agent_id :: string
  daemon_socket :: string
  refresh_buffer_secs :: int

type_synonym daemon_line = "string \<Rightarrow> string \<Rightarrow> string result"

text \<open>\<^verbatim>\<open>i64\<close> subtraction wraps in a release build.\<close>

definition wrap_i64 :: "int \<Rightarrow> int" where
  "wrap_i64 x = (x + 2 ^ 63) mod 2 ^ 64 - 2 ^ 63"

definition is_expired :: "datetime \<Rightarrow> int \<Rightarrow> cached_oauth_token \<Rightarrow> bool" where
  "is_expired now buffer_secs t \<longleftrightarrow> wrap_i64 (ct_expires_at t - buffer_secs) \<le> timestamp now"

definition is_hard_expired :: "datetime \<Rightarrow> cached_oauth_token \<Rightarrow> bool" where
  "is_hard_expired now t \<longleftrightarrow> ct_expires_at t \<le> timestamp now"

subsection \<open>Domains\<close>

definition domain_matches :: "string \<Rightarrow> string \<Rightarrow> bool" where
  "domain_matches pattern domain =
     (if pattern = domain then True
      else case strip_prefix pattern ''*.'' of
          Some suffix \<Rightarrow>
            (if ends_with domain suffix \<and> length suffix < length domain
             then ends_with (take (length domain - length suffix) domain) ''.''
             else False)
        | None \<Rightarrow> False)"

definition oauth_extract_domain :: "ext \<Rightarrow> string \<Rightarrow> string option" where
  "oauth_extract_domain E url = Option.bind (url_parse E url) (\<lambda>u. map_option to_lowercase (url_host u))"

fun find_binding :: "string \<Rightarrow> oauth_domain_binding list \<Rightarrow> oauth_domain_binding option" where
  "find_binding domain [] = None"
| "find_binding domain (b # bs) =
     (if domain_matches (bind_domain b) domain then Some b else find_binding domain bs)"

subsection \<open>Refreshing through the daemon\<close>

definition refresh_request :: "ext \<Rightarrow> string \<Rightarrow> string \<Rightarrow> string" where
  "refresh_request E agent_id registration_id =
     json_text (json_quote E)
       (json_object
          [(''jsonrpc'', JStr ''2.0''), (''id'', JNum 1), (''method'', JStr ''oauth.refresh''),
           (''params'', json_object [(''agent'', JStr agent_id), (''registration_id'', JStr registration_id)])])
     @ [nl]"

definition cached_token_from_json :: "json \<Rightarrow> cached_oauth_token option" where
  "cached_token_from_json v =
     (case struct_members [''access_token'', ''expires_at'', ''scopes'', ''provider'', ''registration_id''] v of
        Some [JStr a, e, s, JStr p, JStr r] \<Rightarrow>
          (case (as_i64 e, str_list s) of
             (Some exp, Some scopes) \<Rightarrow>
               Some \<lparr>ct_access_token = a, ct_expires_at = exp, ct_scopes = scopes, ct_provider = p,
                     ct_registration_id = r\<rparr>
           | _ \<Rightarrow> None)
      | _ \<Rightarrow> None)"

definition refresh_token_via_ipc :: "ext \<Rightarrow> daemon_line \<Rightarrow> string \<Rightarrow> string \<Rightarrow> string \<Rightarrow> cached_oauth_token result" where
  "refresh_token_via_ipc E daemon socket_path agent_id registration_id =
     bind_res (daemon socket_path (refresh_request E agent_id registration_id)) (\<lambda>line.
     bind_res (of_option (ParseError line) (json_parse E (trim line))) (\<lambda>resp.
     case json_get resp ''error'' of
       Some err \<Rightarrow> Inl (Rejected (case get_str err ''message'' of Some m \<Rightarrow> m | None \<Rightarrow> ''unknown error''))
     | None \<Rightarrow>
         bind_res (of_option (NotFound ''result'') (json_get resp ''result'')) (\<lambda>result.
         of_option (ParseError ''token'') (cached_token_from_json result))))"

definition refresh_token :: "ext \<Rightarrow> daemon_line \<Rightarrow> string \<Rightarrow> oauth_token_cache
    \<Rightarrow> cached_oauth_token result \<times> oauth_token_cache" where
  "refresh_token E daemon registration_id c =
     (case refresh_token_via_ipc E daemon (daemon_socket c) (cache_agent_id c) registration_id of
        Inl e \<Rightarrow> (Inl e, c)
      | Inr new_token \<Rightarrow> (Inr new_token, c\<lparr>tokens := (tokens c)(registration_id \<mapsto> new_token)\<rparr>))"

subsection \<open>Operations\<close>

definition cache_new :: "string \<Rightarrow> string \<Rightarrow> oauth_domain_binding list \<Rightarrow> (string \<rightharpoonup> cached_oauth_token) \<Rightarrow> int
    \<Rightarrow> oauth_token_cache" where
  "cache_new agent_id socket bs initial_tokens buffer =
     \<lparr>tokens = initial_tokens, bindings = bs, cache_agent_id = agent_id, daemon_socket = socket,
      refresh_buffer_secs = buffer\<rparr>"

text \<open>
  The token, the cache, and the registration whose refresh was started in the background.  The
  clock is read once for each of the two expiry tests.
\<close>

definition get_token :: "ext \<Rightarrow> daemon_line \<Rightarrow> datetime \<Rightarrow> datetime \<Rightarrow> string \<Rightarrow> oauth_token_cache
    \<Rightarrow> cached_oauth_token option \<times> oauth_token_cache \<times> string option" where
  "get_token E daemon now now' domain c =
     (case find_binding domain (bindings c) of
        None \<Rightarrow> (None, c, None)
      | Some binding \<Rightarrow>
          (let registration_id = bind_registration_id binding
           in case tokens c registration_id of
                None \<Rightarrow> (None, c, None)
              | Some token \<Rightarrow>
                  if is_hard_expired now token
                  then (case refresh_token E daemon registration_id c of
                          (Inr new_token, c') \<Rightarrow> (Some new_token, c', None)
                        | (Inl _, c') \<Rightarrow> (None, c', None))
                  else if is_expired now' (refresh_buffer_secs c) token
                  then (Some token, c, Some registration_id)
                  else (Some token, c, None)))"

text \<open>The spawned task: the token is inserted when the daemon has answered.\<close>

definition background_refresh :: "ext \<Rightarrow> daemon_line \<Rightarrow> string \<Rightarrow> oauth_token_cache \<Rightarrow> oauth_token_cache" where
  "background_refresh E daemon reg_id c =
     (case refresh_token_via_ipc E daemon (daemon_socket c) (cache_agent_id c) reg_id of
        Inr new_token \<Rightarrow> c\<lparr>tokens := (tokens c)(reg_id \<mapsto> new_token)\<rparr>
      | Inl _ \<Rightarrow> c)"

definition update_token :: "string \<Rightarrow> cached_oauth_token \<Rightarrow> oauth_token_cache \<Rightarrow> oauth_token_cache" where
  "update_token registration_id token c = c\<lparr>tokens := (tokens c)(registration_id \<mapsto> token)\<rparr>"

definition remove_token :: "string \<Rightarrow> oauth_token_cache \<Rightarrow> oauth_token_cache" where
  "remove_token registration_id c = c\<lparr>tokens := (tokens c)(registration_id := None)\<rparr>"

definition add_binding :: "oauth_domain_binding \<Rightarrow> oauth_token_cache \<Rightarrow> oauth_token_cache" where
  "add_binding b c = c\<lparr>bindings := bindings c @ [b]\<rparr>"

definition remove_bindings :: "string \<Rightarrow> oauth_token_cache \<Rightarrow> oauth_token_cache" where
  "remove_bindings registration_id c =
     c\<lparr>bindings := filter (\<lambda>b. bind_registration_id b \<noteq> registration_id) (bindings c)\<rparr>"

subsection \<open>Which token a request gets\<close>

text \<open>A pattern names its own domain, and a wildcard the domains that end in a dot and its suffix.\<close>

lemma domain_matches_iff:
  "domain_matches pattern domain \<longleftrightarrow>
     pattern = domain \<or> (\<exists>sub suffix. pattern = ''*.'' @ suffix \<and> domain = sub @ ''.'' @ suffix)"
proof -
  have w: "ends_with domain suffix \<and> length suffix < length domain
      \<and> ends_with (take (length domain - length suffix) domain) ''.''
      \<longleftrightarrow> (\<exists>sub. domain = sub @ ''.'' @ suffix)" for suffix
    by (auto simp: ends_with_iff)
  show ?thesis
  proof (cases "starts_with pattern ''*.''")
    case True
    then obtain suffix where p: "pattern = ''*.'' @ suffix" by (auto simp: starts_with_iff)
    then have "strip_prefix pattern ''*.'' = Some suffix" by (simp add: strip_prefix_def)
    then show ?thesis using w [of suffix] p by (auto simp: domain_matches_def)
  next
    case False
    then have "strip_prefix pattern ''*.'' = None" by (simp add: strip_prefix_def)
    with False show ?thesis by (auto simp: domain_matches_def)
  qed
qed

lemma find_binding_SomeD:
  "find_binding d bs = Some b \<Longrightarrow>
     \<exists>xs ys. bs = xs @ b # ys \<and> domain_matches (bind_domain b) d \<and> (\<forall>x \<in> set xs. \<not> domain_matches (bind_domain x) d)"
proof (induction bs)
  case (Cons a bs)
  show ?case
  proof (cases "domain_matches (bind_domain a) d")
    case True
    with Cons.prems show ?thesis by (intro exI [of _ "[]"] exI [of _ bs]) simp
  next
    case False
    with Cons obtain xs ys where "bs = xs @ b # ys" "domain_matches (bind_domain b) d"
      "\<forall>x \<in> set xs. \<not> domain_matches (bind_domain x) d" by auto
    with False show ?thesis by (intro exI [of _ "a # xs"] exI [of _ ys]) simp
  qed
qed simp

lemma find_binding_None: "find_binding d bs = None \<longleftrightarrow> (\<forall>b \<in> set bs. \<not> domain_matches (bind_domain b) d)"
  by (induction bs) auto

text \<open>
  C31: where a request's bearer token comes from.  A token is only given out for a domain that
  the first matching binding names, exactly or as a wildcard with a dot before the suffix; it is
  the unexpired cached token of that binding's registration, or, when the cached one is past its
  expiry, the one the daemon has just returned for that registration, which the cache then holds.
\<close>

theorem oauth_token_confined:
  assumes "get_token E daemon now now' d c = (Some t, c', bg)"
  shows "\<exists>xs b ys. bindings c = xs @ b # ys \<and> (\<forall>x \<in> set xs. \<not> domain_matches (bind_domain x) d)
     \<and> (bind_domain b = d \<or> (\<exists>sub suffix. bind_domain b = ''*.'' @ suffix \<and> d = sub @ ''.'' @ suffix))
     \<and> ((tokens c (bind_registration_id b) = Some t \<and> timestamp now < ct_expires_at t \<and> c' = c)
        \<or> (\<exists>old. tokens c (bind_registration_id b) = Some old \<and> ct_expires_at old \<le> timestamp now
             \<and> refresh_token_via_ipc E daemon (daemon_socket c) (cache_agent_id c) (bind_registration_id b) = Inr t
             \<and> c' = update_token (bind_registration_id b) t c \<and> bg = None))"
proof -
  obtain b where b: "find_binding d (bindings c) = Some b"
    using assms by (auto simp: get_token_def split: option.splits)
  have src: "(tokens c (bind_registration_id b) = Some t \<and> timestamp now < ct_expires_at t \<and> c' = c)
      \<or> (\<exists>old. tokens c (bind_registration_id b) = Some old \<and> ct_expires_at old \<le> timestamp now
           \<and> refresh_token_via_ipc E daemon (daemon_socket c) (cache_agent_id c) (bind_registration_id b) = Inr t
           \<and> c' = update_token (bind_registration_id b) t c \<and> bg = None)"
    using assms b
    by (auto simp: get_token_def refresh_token_def is_hard_expired_def update_token_def Let_def
        split: option.splits if_splits prod.splits sum.splits)
  from find_binding_SomeD [OF b] obtain xs ys where
    "bindings c = xs @ b # ys" "domain_matches (bind_domain b) d" "\<forall>x \<in> set xs. \<not> domain_matches (bind_domain x) d"
    by blast
  with src show ?thesis unfolding domain_matches_iff by blast
qed

abbreviation demo_token :: cached_oauth_token where
  "demo_token \<equiv> \<lparr>ct_access_token = ''tok'', ct_expires_at = 90, ct_scopes = [], ct_provider = ''p'', ct_registration_id = ''r''\<rparr>"

abbreviation demo_cache :: oauth_token_cache where
  "demo_cache \<equiv> cache_new ''agent'' ''sock'' [\<lparr>bind_domain = ''*.a.b'', bind_registration_id = ''r'', bind_required_scopes = []\<rparr>]
     [''r'' \<mapsto> demo_token] 60"

lemma demo_get: "get_token E daemon (seconds 50) (seconds 50) ''x.a.b'' demo_cache = (Some demo_token, demo_cache, Some ''r'')"
  by (simp add: get_token_def cache_new_def domain_matches_def strip_prefix_def ends_with_def is_hard_expired_def
      is_expired_def wrap_i64_def timestamp_def seconds_def ns_per_sec_def Let_def)

theorem oauth_token_confined_witness:
  "\<exists>c' bg sub. get_token ref_ext (\<lambda>_ _. Inl (IoError [])) (seconds 50) (seconds 50) ''x.a.b'' demo_cache = (Some demo_token, c', bg)
     \<and> timestamp (seconds 50) < ct_expires_at demo_token \<and> ''x.a.b'' = sub @ ''.'' @ ''a.b''"
proof -
  note g = demo_get [of ref_ext "\<lambda>_ _. Inl (IoError [])"]
  have "bg = Some ''r'' \<Longrightarrow> \<not> (bg = None)" for bg :: "string option" by simp
  with oauth_token_confined [OF g] have "timestamp (seconds 50) < ct_expires_at demo_token" by blast
  with g show ?thesis by (intro exI [of _ "demo_cache"] exI [of _ "Some ''r''"] exI [of _ "''x''"]) simp
qed

subsection \<open>Revoking a token\<close>

text \<open>A cache together with its pending background refreshes, and what can happen to them.\<close>

datatype cache_op =
    GetToken daemon_line datetime datetime string
  | RefreshDone daemon_line string
  | UpdateToken string cached_oauth_token
  | RemoveToken string
  | AddBinding oauth_domain_binding
  | RemoveBindings string

definition cache_exec :: "ext \<Rightarrow> cache_op \<Rightarrow> oauth_token_cache \<times> string list \<Rightarrow> oauth_token_cache \<times> string list" where
  "cache_exec E op s =
     (case s of (c, pending) \<Rightarrow>
       (case op of
          GetToken daemon now now' d \<Rightarrow>
            (case get_token E daemon now now' d c of
               (_, c', bg) \<Rightarrow> (c', pending @ (case bg of None \<Rightarrow> [] | Some r \<Rightarrow> [r])))
        | RefreshDone daemon r \<Rightarrow>
            (if r \<in> set pending then (background_refresh E daemon r c, remove1 r pending) else (c, pending))
        | UpdateToken r t \<Rightarrow> (update_token r t c, pending)
        | RemoveToken r \<Rightarrow> (remove_token r c, pending)
        | AddBinding b \<Rightarrow> (add_binding b c, pending)
        | RemoveBindings r \<Rightarrow> (remove_bindings r c, pending)))"

definition gone :: "string \<Rightarrow> oauth_token_cache \<times> string list \<Rightarrow> bool" where
  "gone r s \<longleftrightarrow> tokens (fst s) r = None \<and> r \<notin> set (snd s)"

lemma get_token_gone:
  assumes "tokens c r = None" and "get_token E daemon now now' d c = (t, c', bg)"
  shows "tokens c' r = None" "bg \<noteq> Some r"
  using assms by (auto simp: get_token_def refresh_token_def Let_def split: option.splits if_splits prod.splits sum.splits)

lemma cache_exec_gone:
  assumes "gone r s" "\<nexists>t. op = UpdateToken r t"
  shows "gone r (cache_exec E op s)"
proof (cases op)
  case (GetToken daemon now now' d)
  obtain t c' bg where "get_token E daemon now now' d (fst s) = (t, c', bg)" by (metis prod_cases3)
  with assms(1) GetToken get_token_gone [of "fst s" r E daemon now now' d t c' bg] show ?thesis
    by (auto simp: cache_exec_def gone_def split: option.split prod.splits)
qed (use assms in \<open>auto simp: cache_exec_def gone_def background_refresh_def update_token_def remove_token_def
       add_binding_def remove_bindings_def notin_set_remove1 split: sum.splits prod.splits\<close>)

lemma fold_gone:
  "gone r s \<Longrightarrow> \<forall>t. UpdateToken r t \<notin> set ops \<Longrightarrow> gone r (fold (cache_exec E) ops s)"
proof (induction ops arbitrary: s)
  case (Cons op ops)
  then have "gone r (cache_exec E op s)" by (intro cache_exec_gone) auto
  with Cons show ?case by simp
qed simp

text \<open>
  What removing a token from the cache achieves.  With no background refresh of it under
  way, no later request, refresh, binding change or removal brings it back, and every request
  whose binding names it gets no token, until the daemon sends a new one.  With a refresh under
  way the removal is undone: the refresh inserts what the daemon answers, and the next request
  gets it.
\<close>

theorem token_removal:
  "(r \<notin> set pending \<and> (\<forall>t. UpdateToken r t \<notin> set ops) \<longrightarrow>
      (let c' = fst (fold (cache_exec E) ops (remove_token r c, pending))
       in tokens c' r = None
          \<and> (\<forall>daemon now now' d b. find_binding d (bindings c') = Some b \<and> bind_registration_id b = r
               \<longrightarrow> get_token E daemon now now' d c' = (None, c', None))))
   \<and> (r \<in> set pending \<and> refresh_token_via_ipc E daemon (daemon_socket c) (cache_agent_id c) r = Inr t
        \<and> find_binding d (bindings c) = Some b \<and> bind_registration_id b = r
        \<and> timestamp now < ct_expires_at t \<longrightarrow>
      (let c' = fst (fold (cache_exec E) [RemoveToken r, RefreshDone daemon r] (c, pending))
       in fst (get_token E daemon' now now' d c') = Some t))"
proof (rule conjI; rule impI)
  let ?s = "fold (cache_exec E) ops (remove_token r c, pending)"
  assume "r \<notin> set pending \<and> (\<forall>t. UpdateToken r t \<notin> set ops)"
  then have "gone r ?s" by (intro fold_gone) (auto simp: gone_def remove_token_def)
  then show "let c' = fst ?s in tokens c' r = None
      \<and> (\<forall>daemon now now' d b. find_binding d (bindings c') = Some b \<and> bind_registration_id b = r
           \<longrightarrow> get_token E daemon now now' d c' = (None, c', None))"
    by (auto simp: gone_def get_token_def Let_def)
next
  assume "r \<in> set pending \<and> refresh_token_via_ipc E daemon (daemon_socket c) (cache_agent_id c) r = Inr t
        \<and> find_binding d (bindings c) = Some b \<and> bind_registration_id b = r \<and> timestamp now < ct_expires_at t"
  then show "let c' = fst (fold (cache_exec E) [RemoveToken r, RefreshDone daemon r] (c, pending))
       in fst (get_token E daemon' now now' d c') = Some t"
    by (auto simp: cache_exec_def remove_token_def background_refresh_def get_token_def is_hard_expired_def Let_def)
qed

definition answering :: ext where
  "answering = ref_ext\<lparr>json_parse := (\<lambda>_. Some (JObj [(''result'',
     JArr [JStr ''tok'', JNum 90, JArr [], JStr ''p'', JStr ''r''])]))\<rparr>"

lemma demo_refresh: "refresh_token_via_ipc answering (\<lambda>_ _. Inr []) socket agent reg = Inr demo_token"
  by (simp add: refresh_token_via_ipc_def answering_def cached_token_from_json_def struct_members_def str_list_def)

theorem token_removal_witness:
  "fst (get_token answering (\<lambda>_ _. Inr []) 0 0 ''x.a.b''
          (fst (fold (cache_exec answering) [GetToken (\<lambda>_ _. Inr []) 0 0 ''x.a.b''] (remove_token ''r'' demo_cache, [])))) = None
   \<and> fst (get_token answering (\<lambda>_ _. Inr []) 0 0 ''x.a.b''
          (fst (fold (cache_exec answering) [RemoveToken ''r'', RefreshDone (\<lambda>_ _. Inr []) ''r''] (demo_cache, [''r'']))))
     = Some demo_token"
proof
  let ?d = "\<lambda>_ _. Inr [] :: string result"
  have f: "find_binding ''x.a.b'' (bindings demo_cache)
      = Some \<lparr>bind_domain = ''*.a.b'', bind_registration_id = ''r'', bind_required_scopes = []\<rparr>"
    by (simp add: cache_new_def domain_matches_def strip_prefix_def ends_with_def)
  show "fst (get_token answering ?d 0 0 ''x.a.b''
          (fst (fold (cache_exec answering) [RemoveToken ''r'', RefreshDone ?d ''r''] (demo_cache, [''r''])))) = Some demo_token"
    by (rule token_removal [THEN conjunct2, THEN mp, unfolded Let_def, OF conjI [OF _ conjI [OF demo_refresh conjI [OF f]]]])
      (simp_all add: timestamp_def)
  let ?c = "fst (fold (cache_exec answering) [GetToken ?d 0 0 ''x.a.b''] (remove_token ''r'' demo_cache, []))"
  have "bindings ?c = bindings demo_cache"
    by (simp add: cache_exec_def get_token_def remove_token_def cache_new_def Let_def split: option.split)
  then have "find_binding ''x.a.b'' (bindings ?c) = Some \<lparr>bind_domain = ''*.a.b'', bind_registration_id = ''r'', bind_required_scopes = []\<rparr>"
    using f by (simp only:)
  then show "fst (get_token answering ?d 0 0 ''x.a.b'' ?c) = None"
    using token_removal [of "''r''" "[]" "[GetToken ?d 0 0 ''x.a.b'']" answering demo_cache, THEN conjunct1]
    unfolding Let_def by force
qed

end
