(* ===== verification/Proxy_Server.thy ===== *)
theory Proxy_Server
  imports Proxy_Scope OAuth_Cache Audit_Log Http_Sig
begin

text \<open>
  The request handlers of the proxy, \<^verbatim>\<open>grokingclaw-proxy/src/server.rs\<close>, over the scope engine, the token
  cache, the signer and the audit logger.  A handler maps the state, the request and what the
  network and the clocks answer to the response, the new state and the outside effects: tunnels
  opened and requests sent.  The \<^verbatim>\<open>hyper\<close> types are parameters: which texts are header names and
  values, and how a target URI is read.
\<close>

subsection \<open>State, requests, environment\<close>

type_synonym headers = "(string \<times> string) list"

record proxy_state =
  ps_scope :: scope_config
  ps_signer :: "request_signer option"
  ps_oauth :: "oauth_token_cache option"
  ps_pending :: "string list"
  ps_audit :: proxy_audit_logger
  ps_agent_id :: string

record proxy_request =
  pr_method :: string
  pr_uri :: string
  pr_authority :: "string option"
  pr_headers :: headers
  pr_body :: "bytes option"

record target_uri =
  tu_scheme :: "string option"
  tu_host :: "string option"
  tu_port :: "nat option"

record http_lib =
  header_name_ok :: "string \<Rightarrow> bool"
  header_value_ok :: "string \<Rightarrow> bool"
  value_to_str :: "string \<Rightarrow> string option"
  parse_uri :: "string \<Rightarrow> target_uri option"

text \<open>What leaves the proxy.\<close>

record sent_request =
  sent_method :: string
  sent_uri :: string
  sent_headers :: headers
  sent_body :: bytes

datatype effect =
    Tunnel string
  | Forward string sent_request

record proxy_response =
  resp_status :: nat
  resp_headers :: headers
  resp_body :: bytes

record network =
  net_daemon :: daemon_line
  net_connect :: "string \<Rightarrow> bool"
  net_handshake :: bool
  net_send :: "sent_request \<Rightarrow> (nat \<times> headers \<times> bytes option) option"

record clocks =
  clk_instant :: int
  clk_token :: datetime
  clk_token' :: datetime
  clk_sign :: datetime
  clk_date :: string
  clk_nonce :: uuid
  clk_elapsed_ms :: nat
  clk_audit :: datetime

definition proxy_new :: "scope_config \<Rightarrow> request_signer option \<Rightarrow> oauth_token_cache option \<Rightarrow> audit_db \<Rightarrow> uuid \<Rightarrow> bytes
    \<Rightarrow> proxy_state" where
  "proxy_new scope signer oauth db agent_id signing_key =
     \<lparr>ps_scope = scope, ps_signer = signer, ps_oauth = oauth, ps_pending = [],
      ps_audit = proxy_logger_new db agent_id signing_key, ps_agent_id = agent_id\<rparr>"

subsection \<open>Response helpers\<close>

definition json_response :: "nat \<Rightarrow> string \<Rightarrow> proxy_response" where
  "json_response status body =
     \<lparr>resp_status = status, resp_headers = [(''content-type'', ''application/json'')], resp_body = body\<rparr>"

definition deny_response :: "string \<Rightarrow> proxy_response" where
  "deny_response reason =
     json_response 403 (''{'' @ quoted ''error'' @ '':'' @ quoted ''scope_denied'' @ '','' @ quoted ''reason'' @ '':''
       @ quoted reason @ ''}'')"

definition rate_limit_response :: "string \<Rightarrow> proxy_response" where
  "rate_limit_response reason =
     json_response 429 (''{'' @ quoted ''error'' @ '':'' @ quoted ''rate_limited'' @ '','' @ quoted ''reason'' @ '':''
       @ quoted reason @ ''}'')"

definition error_response :: "string \<Rightarrow> proxy_response" where
  "error_response msg =
     json_response 502 (''{'' @ quoted ''error'' @ '':'' @ quoted ''proxy_error'' @ '','' @ quoted ''message'' @ '':''
       @ quoted msg @ ''}'')"

definition empty_response :: proxy_response where
  "empty_response = \<lparr>resp_status = 200, resp_headers = [], resp_body = []\<rparr>"

subsection \<open>Refusals\<close>

definition deny_domain_reason :: "string \<Rightarrow> string" where
  "deny_domain_reason domain = ''domain '' @ [CHR 0x27] @ domain @ [CHR 0x27] @ '' not in allowlist''"

definition rate_reason :: "u32 \<Rightarrow> string" where
  "rate_reason limit = ''rate limit exceeded ('' @ nat_str (unat limit) @ ''/min)''"

definition log_refusal :: "ext \<Rightarrow> clocks \<Rightarrow> string \<Rightarrow> string \<Rightarrow> string \<Rightarrow> proxy_state \<Rightarrow> proxy_state" where
  "log_refusal E k meth url reason st = st\<lparr>ps_audit := log_denial E (clk_audit k) (ps_audit st) meth url reason\<rparr>"

definition log_allowed :: "ext \<Rightarrow> clocks \<Rightarrow> string \<Rightarrow> string \<Rightarrow> nat \<Rightarrow> nat \<Rightarrow> nat \<Rightarrow> bool \<Rightarrow> bool \<Rightarrow> proxy_state \<Rightarrow> proxy_state" where
  "log_allowed E k meth url status req_size resp_size is_signed oauth_injected st =
     st\<lparr>ps_audit := log_request E (clk_audit k) (ps_audit st)
          \<lparr>pa_method = meth, pa_url = url, pa_status_code = Some status, pa_scope_decision = ''allow'',
           pa_request_size_bytes = req_size, pa_response_size_bytes = resp_size,
           pa_duration_ms = clk_elapsed_ms k, pa_signed = is_signed, pa_oauth_injected = oauth_injected\<rparr>\<rparr>"

subsection \<open>CONNECT\<close>

type_synonym handled = "proxy_response result \<times> effect list \<times> proxy_state"

definition handle_connect :: "ext \<Rightarrow> clocks \<Rightarrow> proxy_request \<Rightarrow> proxy_state \<Rightarrow> handled" where
  "handle_connect E k req st0 =
     (let host_port = (case pr_authority req of Some a \<Rightarrow> a | None \<Rightarrow> pr_uri req);
          (decision, scope) = check_connect (clk_instant k) host_port (ps_scope st0);
          st = st0\<lparr>ps_scope := scope\<rparr>
      in case decision of
           Inl e \<Rightarrow> (Inl e, [], st)
         | Inr Allow \<Rightarrow>
             (Inr empty_response, [Tunnel host_port], log_allowed E k ''CONNECT'' host_port 200 0 0 False False st)
         | Inr (DenyDomain domain _) \<Rightarrow>
             (let reason = deny_domain_reason domain
              in (Inr (deny_response reason), [], log_refusal E k ''CONNECT'' host_port reason st))
         | Inr (DenyRateLimit limit _) \<Rightarrow>
             (let reason = rate_reason limit
              in (Inr (rate_limit_response reason), [], log_refusal E k ''CONNECT'' host_port reason st)))"

subsection \<open>Forwarding\<close>

text \<open>\<^verbatim>\<open>HeaderMap\<close>: names are lower case, and inserting replaces every value of the name.\<close>

definition header_insert :: "string \<Rightarrow> string \<Rightarrow> headers \<Rightarrow> headers" where
  "header_insert name v hs =
     (let n = to_lowercase name in filter (\<lambda>h. fst h \<noteq> n) hs @ [(n, v)])"

definition header_get :: "string \<Rightarrow> headers \<Rightarrow> string option" where
  "header_get name hs = map_of hs (to_lowercase name)"

definition insert_valid :: "http_lib \<Rightarrow> string \<times> string \<Rightarrow> headers \<Rightarrow> headers" where
  "insert_valid H nv hs = (if header_name_ok H (fst nv) \<and> header_value_ok H (snd nv)
     then header_insert (fst nv) (snd nv) hs else hs)"

definition inject_oauth :: "ext \<Rightarrow> http_lib \<Rightarrow> network \<Rightarrow> clocks \<Rightarrow> string \<Rightarrow> headers \<Rightarrow> proxy_state
    \<Rightarrow> bool \<times> headers \<times> proxy_state" where
  "inject_oauth E H N k uri hs st =
     (case ps_oauth st of
        None \<Rightarrow> (False, hs, st)
      | Some oauth \<Rightarrow>
          (case oauth_extract_domain E uri of
             None \<Rightarrow> (False, hs, st)
           | Some domain \<Rightarrow>
               (case get_token E (net_daemon N) (clk_token k) (clk_token' k) domain oauth of
                  (token, oauth', bg) \<Rightarrow>
                    (let st' = st\<lparr>ps_oauth := Some oauth',
                                  ps_pending := ps_pending st @ (case bg of None \<Rightarrow> [] | Some r \<Rightarrow> [r])\<rparr>
                     in case token of
                          None \<Rightarrow> (False, hs, st')
                        | Some t \<Rightarrow>
                            (let val = ''Bearer '' @ ct_access_token t
                             in if header_value_ok H val
                                then (True, header_insert ''authorization'' val hs, st')
                                else (False, hs, st'))))))"

definition add_signature :: "ext \<Rightarrow> http_lib \<Rightarrow> clocks \<Rightarrow> string \<Rightarrow> string \<Rightarrow> headers \<Rightarrow> proxy_state \<Rightarrow> bool \<times> headers" where
  "add_signature E H k meth uri hs st =
     (case ps_signer st of
        None \<Rightarrow> (False, hs)
      | Some signer \<Rightarrow>
          (let existing_headers = map (\<lambda>(n, v). (n, case value_to_str H v of Some s \<Rightarrow> s | None \<Rightarrow> [])) hs;
               sig_headers = proxy_sign_request E (clk_sign k) (clk_date k) (clk_nonce k) signer meth uri existing_headers
           in (True, fold (insert_valid H) sig_headers hs)))"

text \<open>From reading the body to the response, once the headers are made.\<close>

definition forward_upstream :: "ext \<Rightarrow> http_lib \<Rightarrow> network \<Rightarrow> clocks \<Rightarrow> proxy_request \<Rightarrow> headers \<Rightarrow> bool \<Rightarrow> bool \<Rightarrow> proxy_state
    \<Rightarrow> handled" where
  "forward_upstream E H N k req hs is_signed oauth_injected st =
     (case pr_body req of
        None \<Rightarrow> (Inr (error_response ''Failed to read request body''), [], st)
      | Some body \<Rightarrow>
          (let req_size = length body
           in case parse_uri H (pr_uri req) of
                None \<Rightarrow> (Inr (error_response ''Invalid target URI''), [], st)
              | Some target \<Rightarrow>
                  if (case tu_scheme target of Some s \<Rightarrow> s | None \<Rightarrow> ''http'') = ''https''
                  then (Inr (error_response (''HTTPS forward proxy not supported. Configure your client to ''
                               @ ''use HTTP CONNECT tunneling for HTTPS targets.'')), [],
                        log_allowed E k (pr_method req) (pr_uri req) 400 req_size 0 is_signed oauth_injected st)
                  else
                    (let host = (case tu_host target of Some h \<Rightarrow> h | None \<Rightarrow> ''localhost'');
                         port = (case tu_port target of Some p \<Rightarrow> p | None \<Rightarrow> 80);
                         addr = host @ '':'' @ nat_str port;
                         out_req = \<lparr>sent_method = pr_method req, sent_uri = pr_uri req, sent_headers = hs,
                                    sent_body = body\<rparr>
                     in if \<not> net_connect N addr
                        then (Inr (error_response ''Failed to connect to upstream''), [],
                              log_allowed E k (pr_method req) (pr_uri req) 502 req_size 0 is_signed oauth_injected st)
                        else if \<not> net_handshake N
                        then (Inr (error_response ''Upstream handshake failed''), [], st)
                        else case net_send N out_req of
                            None \<Rightarrow> (Inr (error_response ''Upstream request failed''), [Forward addr out_req], st)
                          | Some (status, rhs, None) \<Rightarrow>
                              (Inr (error_response ''Failed to read response''), [Forward addr out_req], st)
                          | Some (status, rhs, Some rbody) \<Rightarrow>
                              (Inr \<lparr>resp_status = status, resp_headers = rhs, resp_body = rbody\<rparr>, [Forward addr out_req],
                               log_allowed E k (pr_method req) (pr_uri req) status req_size (length rbody)
                                 is_signed oauth_injected st))))"

definition handle_forward :: "ext \<Rightarrow> http_lib \<Rightarrow> network \<Rightarrow> clocks \<Rightarrow> proxy_request \<Rightarrow> proxy_state \<Rightarrow> handled" where
  "handle_forward E H N k req st0 =
     (let uri = pr_uri req;
          (decision, scope) = check_url E (clk_instant k) uri (ps_scope st0);
          st = st0\<lparr>ps_scope := scope\<rparr>
      in case decision of
           Inl e \<Rightarrow> (Inl e, [], st)
         | Inr Allow \<Rightarrow>
             (let (oauth_injected, hs1, st1) = inject_oauth E H N k uri (pr_headers req) st;
                  (is_signed, hs2) = add_signature E H k (pr_method req) uri hs1 st1
              in forward_upstream E H N k req hs2 is_signed oauth_injected st1)
         | Inr (DenyDomain domain _) \<Rightarrow>
             (let reason = deny_domain_reason domain
              in (Inr (deny_response reason), [], log_refusal E k (pr_method req) uri reason st))
         | Inr (DenyRateLimit limit _) \<Rightarrow>
             (let reason = rate_reason limit
              in (Inr (rate_limit_response reason), [], log_refusal E k (pr_method req) uri reason st)))"

definition handle_request :: "ext \<Rightarrow> http_lib \<Rightarrow> network \<Rightarrow> clocks \<Rightarrow> proxy_request \<Rightarrow> proxy_state \<Rightarrow> handled" where
  "handle_request E H N k req st =
     (if pr_method req = ''CONNECT'' then handle_connect E k req st else handle_forward E H N k req st)"

subsection \<open>What may leave the proxy\<close>

text \<open>The scope state of a running proxy, last checked at \<open>prev\<close>.\<close>

definition proxy_ok :: "ext \<Rightarrow> string list \<Rightarrow> u32 \<Rightarrow> int \<Rightarrow> proxy_state \<Rightarrow> bool" where
  "proxy_ok E domains limit prev st \<longleftrightarrow>
     scope_ok domains limit (ps_scope st, prev) \<and> audit_inv E (log_db (ps_audit st))"

definition request_of :: "proxy_request \<Rightarrow> scope_request" where
  "request_of req =
     (if pr_method req = ''CONNECT''
      then Connect (case pr_authority req of Some a \<Rightarrow> a | None \<Rightarrow> pr_uri req) else Url (pr_uri req))"

definition target_addr :: "target_uri \<Rightarrow> string" where
  "target_addr t = (case tu_host t of Some h \<Rightarrow> h | None \<Rightarrow> ''localhost'') @ '':''
     @ nat_str (case tu_port t of Some p \<Rightarrow> p | None \<Rightarrow> 80)"

lemma log_allowed_simps [simp]:
  "ps_scope (log_allowed E k m u s a b c d st) = ps_scope st"
  "audit_inv E (log_db (ps_audit st)) \<Longrightarrow> audit_inv E (log_db (ps_audit (log_allowed E k m u s a b c d st)))"
  by (simp_all add: log_allowed_def log_inv)

lemma log_refusal_simps [simp]:
  "ps_scope (log_refusal E k m u r st) = ps_scope st"
  "audit_inv E (log_db (ps_audit st)) \<Longrightarrow> audit_inv E (log_db (ps_audit (log_refusal E k m u r st)))"
  by (simp_all add: log_refusal_def log_inv)

lemma inject_oauth_keeps:
  "inject_oauth E H N k uri hs st = (b, hs', st') \<Longrightarrow>
     ps_scope st' = ps_scope st \<and> ps_audit st' = ps_audit st \<and> ps_signer st' = ps_signer st"
  by (auto simp: inject_oauth_def Let_def split: option.splits prod.splits if_splits)

text \<open>The two handlers by the scope decision.\<close>

lemma handle_cases:
  "handle_request E H N k req st0 =
     (let (decision, scope) = scope_check E (clk_instant k) (request_of req) (ps_scope st0);
          st = st0\<lparr>ps_scope := scope\<rparr>;
          url = (case request_of req of Url u \<Rightarrow> u | Connect h \<Rightarrow> h)
      in case decision of
           Inl e \<Rightarrow> (Inl e, [], st)
         | Inr Allow \<Rightarrow>
             (if pr_method req = ''CONNECT''
              then (Inr empty_response, [Tunnel url], log_allowed E k ''CONNECT'' url 200 0 0 False False st)
              else let (oauth_injected, hs1, st1) = inject_oauth E H N k url (pr_headers req) st;
                       (is_signed, hs2) = add_signature E H k (pr_method req) url hs1 st1
                   in forward_upstream E H N k req hs2 is_signed oauth_injected st1)
         | Inr (DenyDomain domain _) \<Rightarrow>
             (Inr (deny_response (deny_domain_reason domain)), [],
              log_refusal E k (pr_method req) url (deny_domain_reason domain) st)
         | Inr (DenyRateLimit limit _) \<Rightarrow>
             (Inr (rate_limit_response (rate_reason limit)), [],
              log_refusal E k (pr_method req) url (rate_reason limit) st))"
  by (simp add: handle_request_def handle_connect_def handle_forward_def request_of_def scope_check_def Let_def
      split: scope_decision.split sum.split prod.split)

lemma forward_upstream_effects:
  assumes "forward_upstream E H N k req hs sg oi st = (r, effs, st')" and "e \<in> set effs"
  shows "\<exists>t body. parse_uri H (pr_uri req) = Some t \<and> pr_body req = Some body
     \<and> e = Forward (target_addr t) \<lparr>sent_method = pr_method req, sent_uri = pr_uri req, sent_headers = hs, sent_body = body\<rparr>"
  using assms by (auto simp: forward_upstream_def target_addr_def Let_def split: option.splits prod.splits if_splits)

lemma forward_upstream_total: "\<exists>resp effs st'. forward_upstream E H N k req hs sg oi st = (Inr resp, effs, st')"
  by (auto simp: forward_upstream_def Let_def split: option.splits)

lemma forward_upstream_scope:
  "forward_upstream E H N k req hs sg oi st = (r, effs, st') \<Longrightarrow>
     ps_scope st' = ps_scope st
     \<and> (audit_inv E (log_db (ps_audit st)) \<longrightarrow> audit_inv E (log_db (ps_audit st')))"
  by (auto simp: forward_upstream_def Let_def split: option.splits prod.splits if_splits)

text \<open>A running proxy: requests in the order the scope lock serves them, and background refreshes.\<close>

inductive proxy_step :: "ext \<Rightarrow> http_lib \<Rightarrow> proxy_state \<times> int \<Rightarrow> proxy_state \<times> int \<Rightarrow> bool" for E H where
  step_request: "prev \<le> clk_instant k \<Longrightarrow> handle_request E H N k req st = (r, effs, st') \<Longrightarrow>
     proxy_step E H (st, prev) (st', clk_instant k)"
| step_refresh: "ps_oauth st = Some c \<Longrightarrow> reg \<in> set (ps_pending st) \<Longrightarrow>
     proxy_step E H (st, prev)
       (st\<lparr>ps_oauth := Some (background_refresh E daemon reg c), ps_pending := remove1 reg (ps_pending st)\<rparr>, prev)"

definition proxy_init :: "ext \<Rightarrow> string list \<Rightarrow> u32 \<Rightarrow> proxy_state \<times> int \<Rightarrow> bool" where
  "proxy_init E domains limit s \<longleftrightarrow>
     (\<exists>signer oauth db agent_id key. fst s = proxy_new (scope_new domains limit) signer oauth db agent_id key \<and> audit_inv E db)"

lemma handle_request_cfg:
  assumes "handle_request E H N k req st = (r, effs, st')"
  shows "ps_scope st' = snd (scope_check E (clk_instant k) (request_of req) (ps_scope st))"
    "audit_inv E (log_db (ps_audit st)) \<Longrightarrow> audit_inv E (log_db (ps_audit st'))"
  using assms unfolding handle_cases Let_def
  by (auto dest!: forward_upstream_scope inject_oauth_keeps split: prod.splits sum.splits scope_decision.splits if_splits)

lemma handle_request_ok:
  assumes "proxy_ok E domains limit prev st" "prev \<le> clk_instant k" "handle_request E H N k req st = (r, effs, st')"
  shows "proxy_ok E domains limit (clk_instant k) st'"
proof -
  let ?c = "scope_check E (clk_instant k) (request_of req) (ps_scope st)"
  have "scope_step E (ps_scope st, prev) (snd ?c, clk_instant k)"
    using assms(2) by (intro step_check [of _ _ _ "request_of req" _ "fst ?c"]) simp_all
  then have "scope_ok domains limit (snd ?c, clk_instant k)"
    using assms(1) scope_inv.inv_step unfolding proxy_ok_def by blast
  then show ?thesis using assms(1) handle_request_cfg [OF assms(3)] by (simp add: proxy_ok_def)
qed

interpretation proxy: invariant "proxy_init E domains limit" "proxy_step E H"
  "\<lambda>s. proxy_ok E domains limit (snd s) (fst s)" for E domains limit H
proof
  fix s assume "proxy_init E domains limit s"
  then show "proxy_ok E domains limit (snd s) (fst s)"
    using scope_inv.inv_init [of domains limit "(scope_new domains limit, snd s)"]
    by (auto simp: proxy_init_def proxy_ok_def proxy_new_def scope_init_def proxy_logger_new_def)
next
  fix s t assume "proxy_ok E domains limit (snd s) (fst s)" "proxy_step E H s t"
  from this(2,1) show "proxy_ok E domains limit (snd t) (fst t)"
  proof (cases rule: proxy_step.cases)
    case step_request
    with \<open>proxy_ok E domains limit (snd s) (fst s)\<close> show ?thesis by (auto intro: handle_request_ok)
  next
    case step_refresh
    with \<open>proxy_ok E domains limit (snd s) (fst s)\<close> show ?thesis by (auto simp: proxy_ok_def)
  qed
qed

lemma decide_Allow:
  "decide E domains rq = Allow \<Longrightarrow>
     domains = [] \<or> covered domains (request_host E rq) \<or> (request_host E rq = [] \<and> (\<exists>u. rq = Url u))"
  by (auto simp: decide_def split: if_splits)

lemma handle_request_decided:
  assumes "proxy_ok E domains limit prev st" "prev \<le> clk_instant k" "handle_request E H N k req st = (r, effs, st')"
  shows "\<exists>resp d. r = Inr resp \<and> fst (scope_check E (clk_instant k) (request_of req) (ps_scope st)) = Inr d
     \<and> (d \<noteq> Allow \<longrightarrow> effs = [] \<and> resp_status resp \<in> {403, 429})
     \<and> (d = Allow \<longrightarrow> decide E domains (request_of req) = Allow)"
proof -
  have ok: "scope_ok domains limit (ps_scope st, prev)" using assms(1) by (simp add: proxy_ok_def)
  obtain wait where d: "fst (scope_check E (clk_instant k) (request_of req) (ps_scope st)) =
      Inr (if limit \<noteq> 0 \<and> unat limit \<le> length (live (seconds 60) (clk_instant k) (request_timestamps (ps_scope st)))
           then DenyRateLimit limit wait else decide E domains (request_of req))"
    using scope_decision [OF ok assms(2)] by blast
  define dd where "dd = (if limit \<noteq> 0 \<and> unat limit \<le> length (live (seconds 60) (clk_instant k) (request_timestamps (ps_scope st)))
           then DenyRateLimit limit wait else decide E domains (request_of req))"
  have a: "dd = Allow \<longrightarrow> decide E domains (request_of req) = Allow" by (simp add: dd_def)
  have "\<exists>resp. r = Inr resp \<and> (dd \<noteq> Allow \<longrightarrow> effs = [] \<and> resp_status resp \<in> {403, 429})"
    using assms(3) forward_upstream_total [of E H N k req] d [folded dd_def]
    unfolding handle_cases Let_def
    by (cases dd) (auto simp: deny_response_def rate_limit_response_def json_response_def split: prod.splits if_splits; metis Pair_inject)+
  then show ?thesis using a d [folded dd_def] by blast
qed

lemma handle_request_effect:
  assumes "handle_request E H N k req st = (r, effs, st')" and "e \<in> set effs"
  shows "(e = Tunnel (case pr_authority req of Some a \<Rightarrow> a | None \<Rightarrow> pr_uri req) \<and> pr_method req = ''CONNECT'')
     \<or> (pr_method req \<noteq> ''CONNECT'' \<and> (\<exists>t sr. parse_uri H (pr_uri req) = Some t \<and> e = Forward (target_addr t) sr))"
  using assms unfolding handle_cases Let_def request_of_def
  by (auto dest!: forward_upstream_effects split: prod.splits sum.splits scope_decision.splits if_splits)

text \<open>
  C1: the proxy enforces its allowlist.  Every request to a running proxy is answered, and the
  invariants of the scope engine and of the audit chain survive it.  When the scope engine
  refuses, nothing leaves the proxy and the answer is 403 or 429.  A tunnel is opened only to a
  host that is an allowed domain or a subdomain of one; a request is forwarded only to the
  address its URI names, and only when the host the scope engine reads in that URI is covered by
  the allowlist or the engine reads none at all.
\<close>

theorem proxy_enforces_scope:
  assumes "reachable (proxy_init E domains limit) (proxy_step E H) (st, prev)" "prev \<le> clk_instant k"
    and "handle_request E H N k req st = (r, effs, st')"
  shows "\<exists>resp d. r = Inr resp \<and> fst (scope_check E (clk_instant k) (request_of req) (ps_scope st)) = Inr d
     \<and> proxy_ok E domains limit (clk_instant k) st'
     \<and> (d \<noteq> Allow \<longrightarrow> effs = [] \<and> resp_status resp \<in> {403, 429})
     \<and> (\<forall>hp. Tunnel hp \<in> set effs \<longrightarrow> domains = [] \<or> covered domains (hd (split_on CHR '':'' hp)))
     \<and> (\<forall>addr sr. Forward addr sr \<in> set effs \<longrightarrow>
          (\<exists>t. parse_uri H (pr_uri req) = Some t \<and> addr = target_addr t)
          \<and> (domains = [] \<or> covered domains (extract_domain E (pr_uri req)) \<or> extract_domain E (pr_uri req) = []))"
proof -
  have ok: "proxy_ok E domains limit prev st" using proxy.inv_reachable [OF assms(1)] by simp
  obtain resp d where d: "r = Inr resp" "fst (scope_check E (clk_instant k) (request_of req) (ps_scope st)) = Inr d"
    "d \<noteq> Allow \<longrightarrow> effs = [] \<and> resp_status resp \<in> {403, 429}" "d = Allow \<longrightarrow> decide E domains (request_of req) = Allow"
    using handle_request_decided [OF ok assms(2,3)] by blast
  have allow: "d = Allow" if "e \<in> set effs" for e using that d(3) by auto
  note host = decide_Allow [OF d(4) [rule_format, OF allow]]
  have t: "domains = [] \<or> covered domains (hd (split_on CHR '':'' hp))" if "Tunnel hp \<in> set effs" for hp
    using handle_request_effect [OF assms(3) that] host [OF that] by (auto simp: request_of_def request_host_def)
  have f: "(\<exists>t. parse_uri H (pr_uri req) = Some t \<and> addr = target_addr t)
      \<and> (domains = [] \<or> covered domains (extract_domain E (pr_uri req)) \<or> extract_domain E (pr_uri req) = [])"
    if "Forward addr sr \<in> set effs" for addr sr
    using handle_request_effect [OF assms(3) that] host [OF that] by (auto simp: request_of_def request_host_def)
  show ?thesis using d t f handle_request_ok [OF ok assms(2,3)] by blast
qed

text \<open>A small environment for the witnesses.\<close>

definition demo_lib :: http_lib where
  "demo_lib = \<lparr>header_name_ok = (\<lambda>_. True), header_value_ok = (\<lambda>_. True), value_to_str = Some,
     parse_uri = (\<lambda>_. Some \<lparr>tu_scheme = None, tu_host = Some ''evil.com'', tu_port = Some 80\<rparr>)\<rparr>"

definition demo_net :: network where
  "demo_net = \<lparr>net_daemon = (\<lambda>_ _. Inl (IoError [])), net_connect = (\<lambda>_. True), net_handshake = True,
     net_send = (\<lambda>_. None)\<rparr>"

definition demo_clocks :: clocks where
  "demo_clocks = \<lparr>clk_instant = 0, clk_token = 0, clk_token' = 0, clk_sign = 0, clk_date = [], clk_nonce = [],
     clk_elapsed_ms = 0, clk_audit = 0\<rparr>"

abbreviation demo_key :: bytes where "demo_key \<equiv> replicate 32 CHR ''k''"

definition demo_proxy :: "request_signer option \<Rightarrow> proxy_state" where
  "demo_proxy signer = proxy_new (scope_new [''a.b''] 0) signer None open_audit_db ''agent'' demo_key"

definition demo_http :: "string \<Rightarrow> string \<Rightarrow> proxy_request" where
  "demo_http meth uri =
     \<lparr>pr_method = meth, pr_uri = uri, pr_authority = None, pr_headers = [(''x-clawid-agent'', ''someone'')], pr_body = Some []\<rparr>"

lemma demo_reach: "reachable (proxy_init E [''a.b''] 0) (proxy_step E H) (demo_proxy signer, 0)"
proof (rule reach_init)
  have "audit_inv E open_audit_db" by (simp add: audit_inv_def open_audit_db_def)
  then show "proxy_init E [''a.b''] 0 (demo_proxy signer, 0)" unfolding proxy_init_def demo_proxy_def fst_conv by blast
qed

theorem proxy_enforces_scope_witness:
  "\<exists>resp st'. handle_request ref_ext demo_lib demo_net demo_clocks (demo_http ''CONNECT'' ''evil.com:443'') (demo_proxy None)
       = (Inr resp, [], st')
     \<and> resp_status resp \<in> {403, 429} \<and> proxy_ok ref_ext [''a.b''] 0 0 st'"
proof -
  let ?req = "demo_http ''CONNECT'' ''evil.com:443''"
  obtain r effs st' where h: "handle_request ref_ext demo_lib demo_net demo_clocks ?req (demo_proxy None) = (r, effs, st')"
    by (metis prod_cases3)
  have "fst (scope_check ref_ext (clk_instant demo_clocks) (request_of ?req) (ps_scope (demo_proxy None)))
      = Inr (DenyDomain ''evil.com'' [''a.b''])"
    by code_simp
  then show ?thesis
    using proxy_enforces_scope [OF demo_reach _ h] h by (auto simp: demo_clocks_def)
qed

lemma forward_allowed:
  assumes "pr_method req \<noteq> ''CONNECT''" "scope_check E (clk_instant k) (Url (pr_uri req)) (ps_scope st) = (Inr Allow, scope)"
  obtains oi hs1 st1 sg hs2 where
    "inject_oauth E H N k (pr_uri req) (pr_headers req) (st\<lparr>ps_scope := scope\<rparr>) = (oi, hs1, st1)"
    "add_signature E H k (pr_method req) (pr_uri req) hs1 st1 = (sg, hs2)"
    "handle_request E H N k req st = forward_upstream E H N k req hs2 sg oi st1"
    "ps_audit st1 = ps_audit st" "ps_signer st1 = ps_signer st"
proof -
  obtain oi hs1 st1 where i: "inject_oauth E H N k (pr_uri req) (pr_headers req) (st\<lparr>ps_scope := scope\<rparr>) = (oi, hs1, st1)"
    by (metis prod_cases3)
  obtain sg hs2 where g: "add_signature E H k (pr_method req) (pr_uri req) hs1 st1 = (sg, hs2)" by fastforce
  have "request_of req = Url (pr_uri req)" using assms(1) by (simp add: request_of_def)
  then have "handle_request E H N k req st = forward_upstream E H N k req hs2 sg oi st1"
    using assms i g by (simp add: handle_cases Let_def)
  then show thesis using that [OF i g] inject_oauth_keeps [OF i] by simp
qed

text \<open>
  The gap in that enforcement.  The scope engine lets pass what it reads no host in, while
  the address dialled is read from the same text by another parser.  For any URI that the first
  parser takes for a URL without a host and the second for one with a host, such as
  \<^verbatim>\<open>evil.com:80\<close> with \<^verbatim>\<open>evil.com\<close> read as a scheme, the request is sent to that host whatever the allowlist says.
\<close>

theorem allowlist_bypass:
  assumes "proxy_ok E domains 0 prev st" "prev \<le> clk_instant k" "pr_method req \<noteq> ''CONNECT''"
    and "url_parse E (pr_uri req) = Some u" "url_host u = None"
    and "parse_uri H (pr_uri req) = Some t" "tu_host t = Some host" "tu_scheme t \<noteq> Some ''https''"
    and "pr_body req = Some body" "net_connect N (target_addr t)" "net_handshake N"
  shows "\<exists>resp sr st'. handle_request E H N k req st = (Inr resp, [Forward (target_addr t) sr], st')
     \<and> sent_body sr = body \<and> (\<exists>port. target_addr t = host @ '':'' @ nat_str port)"
proof -
  let ?d = "scope_check E (clk_instant k) (request_of req) (ps_scope st)"
  have "request_of req = Url (pr_uri req)" using assms(3) by (simp add: request_of_def)
  moreover have "extract_domain E (pr_uri req) = []" using assms(4,5) by (simp add: extract_domain_def)
  ultimately have "decide E domains (request_of req) = Allow" by (simp add: decide_def request_host_def)
  then have d: "fst ?d = Inr Allow"
    using scope_decision [of domains 0 "ps_scope st" prev "clk_instant k" E "request_of req"] assms(1,2)
    by (auto simp: proxy_ok_def)
  obtain scope where c: "scope_check E (clk_instant k) (Url (pr_uri req)) (ps_scope st) = (Inr Allow, scope)"
    using d \<open>request_of req = Url (pr_uri req)\<close> by (metis prod.collapse)
  from forward_allowed [OF assms(3) c] obtain hs2 sg oi st1 where
    h: "handle_request E H N k req st = forward_upstream E H N k req hs2 sg oi st1" by metis
  show ?thesis
    unfolding h using assms(6-11)
    by (auto simp: forward_upstream_def target_addr_def Let_def split: option.splits)
qed

theorem allowlist_bypass_witness:
  "\<exists>resp sr st'.
     handle_request (ref_ext\<lparr>url_parse := (\<lambda>_. Some \<lparr>url_scheme = ''evil.com'', url_host = None, url_port = None, url_path = ''80'', url_query = None\<rparr>)\<rparr>)
       demo_lib demo_net demo_clocks (demo_http ''GET'' ''evil.com:80'') (demo_proxy None)
       = (Inr resp, [Forward ''evil.com:80'' sr], st') \<and> sent_body sr = []"
proof -
  let ?E = "ref_ext\<lparr>url_parse := (\<lambda>_. Some \<lparr>url_scheme = ''evil.com'', url_host = None, url_port = None, url_path = ''80'', url_query = None\<rparr>)\<rparr>"
  let ?t = "\<lparr>tu_scheme = None, tu_host = Some ''evil.com'', tu_port = Some 80\<rparr>"
  have "proxy_ok ?E [''a.b''] 0 0 (demo_proxy None)" using proxy.inv_reachable [OF demo_reach] by fastforce
  moreover have "target_addr ?t = ''evil.com:80''" by code_simp
  ultimately show ?thesis
    using allowlist_bypass [of ?E "[''a.b'']" 0 "demo_proxy None" demo_clocks "demo_http ''GET'' ''evil.com:80''"
        "\<lparr>url_scheme = ''evil.com'', url_host = None, url_port = None, url_path = ''80'', url_query = None\<rparr>"
        demo_lib ?t "''evil.com''" "[]" demo_net]
    by (auto simp: demo_clocks_def demo_http_def demo_lib_def demo_net_def)
qed

subsection \<open>What is recorded\<close>

definition unaudited_errors :: "string list" where
  "unaudited_errors = [''Failed to read request body'', ''Invalid target URI'', ''Upstream handshake failed'',
     ''Upstream request failed'', ''Failed to read response'']"

lemma log_rows:
  "\<exists>e. audit_rows (log_db (ps_audit (log_allowed E k m u s a b c d st))) = audit_rows (log_db (ps_audit st)) @ [e]"
  "\<exists>e. audit_rows (log_db (ps_audit (log_refusal E k m u r st))) = audit_rows (log_db (ps_audit st)) @ [e]"
  by (simp_all add: log_allowed_def log_refusal_def log_request_def log_denial_def record_entry_rows)

definition recorded :: "proxy_state \<Rightarrow> proxy_state \<Rightarrow> bool" where
  "recorded st st' \<longleftrightarrow>
     (\<exists>e. audit_rows (log_db (ps_audit st')) = audit_rows (log_db (ps_audit st)) @ [e])"

lemma recorded_log [simp]:
  "ps_audit st1 = ps_audit st \<Longrightarrow> recorded st (log_allowed E k m u s a b c d st1)"
  "ps_audit st1 = ps_audit st \<Longrightarrow> recorded st (log_refusal E k m u r st1)"
  using log_rows [of E k m u] by (auto simp: recorded_def) (metis log_rows)+

lemma forward_recorded:
  assumes "forward_upstream E H N k req hs sg oi st = (Inr resp, effs, st')"
  shows "recorded st st' \<or> (ps_audit st' = ps_audit st \<and> resp \<in> error_response ` set unaudited_errors)"
  using assms by (auto simp: forward_upstream_def unaudited_errors_def Let_def split: option.splits prod.splits if_splits)

text \<open>
  What the audit trail holds of a request.  Exactly one entry is appended, for refusals,
  tunnels, answered requests, HTTPS targets and failed connections, except that five failures
  leave no entry at all; among them are the two in which the request has already been sent, so
  that something left the proxy and nothing was recorded.
\<close>

theorem audit_trail_gaps:
  "(handle_request E H N k req st = (Inr resp, effs, st') \<longrightarrow>
      recorded st st'
      \<or> (ps_audit st' = ps_audit st \<and> pr_method req \<noteq> ''CONNECT'' \<and> resp \<in> error_response ` set unaudited_errors))
   \<and> (proxy_ok E [] 0 prev st \<and> prev \<le> clk_instant k \<and> pr_method req \<noteq> ''CONNECT'' \<and> pr_body req = Some body
        \<and> parse_uri H (pr_uri req) = Some t \<and> tu_scheme t \<noteq> Some ''https''
        \<and> net_connect N (target_addr t) \<and> net_handshake N \<and> (\<forall>sr. net_send N sr = None) \<longrightarrow>
      (\<exists>sr st'. handle_request E H N k req st =
           (Inr (error_response ''Upstream request failed''), [Forward (target_addr t) sr], st')
         \<and> ps_audit st' = ps_audit st))"
proof (rule conjI; rule impI)
  assume h: "handle_request E H N k req st = (Inr resp, effs, st')"
  then show "recorded st st'
      \<or> (ps_audit st' = ps_audit st \<and> pr_method req \<noteq> ''CONNECT'' \<and> resp \<in> error_response ` set unaudited_errors)"
    unfolding handle_cases Let_def
    by (auto dest!: forward_recorded inject_oauth_keeps simp: recorded_def [of _ st'] recorded_log [unfolded recorded_def]
        split: prod.splits sum.splits scope_decision.splits if_splits)
next
  assume a: "proxy_ok E [] 0 prev st \<and> prev \<le> clk_instant k \<and> pr_method req \<noteq> ''CONNECT'' \<and> pr_body req = Some body
        \<and> parse_uri H (pr_uri req) = Some t \<and> tu_scheme t \<noteq> Some ''https''
        \<and> net_connect N (target_addr t) \<and> net_handshake N \<and> (\<forall>sr. net_send N sr = None)"
  let ?d = "scope_check E (clk_instant k) (request_of req) (ps_scope st)"
  have "decide E [] (request_of req) = Allow" by (simp add: decide_def)
  then have d: "fst ?d = Inr Allow"
    using scope_decision [of "[]" 0 "ps_scope st" prev "clk_instant k" E "request_of req"] a
    by (auto simp: proxy_ok_def)
  have m: "pr_method req \<noteq> ''CONNECT''" using a by blast
  then have "request_of req = Url (pr_uri req)" by (simp add: request_of_def)
  then obtain scope where c: "scope_check E (clk_instant k) (Url (pr_uri req)) (ps_scope st) = (Inr Allow, scope)"
    using d by (metis prod.collapse)
  from forward_allowed [OF m c] obtain hs2 sg oi st1 where
    h: "handle_request E H N k req st = forward_upstream E H N k req hs2 sg oi st1" "ps_audit st1 = ps_audit st" by metis
  show "\<exists>sr st'. handle_request E H N k req st =
           (Inr (error_response ''Upstream request failed''), [Forward (target_addr t) sr], st')
         \<and> ps_audit st' = ps_audit st"
    unfolding h(1) using a h(2)
    by (auto simp: forward_upstream_def target_addr_def Let_def split: option.splits)
qed

theorem audit_trail_gaps_witness:
  "\<exists>sr st'. handle_request ref_ext demo_lib demo_net demo_clocks (demo_http ''GET'' ''http://evil.com/'')
       (proxy_new permissive None None open_audit_db ''agent'' demo_key)
     = (Inr (error_response ''Upstream request failed''), [Forward ''evil.com:80'' sr], st')
     \<and> audit_rows (log_db (ps_audit st')) = []"
proof -
  let ?st = "proxy_new permissive None None open_audit_db ''agent'' demo_key"
  let ?t = "\<lparr>tu_scheme = None, tu_host = Some ''evil.com'', tu_port = Some 80\<rparr>"
  have t: "target_addr ?t = ''evil.com:80''" by code_simp
  have "audit_inv ref_ext open_audit_db" by (simp add: audit_inv_def open_audit_db_def)
  moreover have "scope_ok [] 0 (permissive, 0)" by (simp add: scope_ok_def permissive_def queue_ok_def)
  ultimately have "proxy_ok ref_ext [] 0 0 ?st" by (simp add: proxy_ok_def proxy_new_def proxy_logger_new_def)
  then have "\<exists>sr st'. handle_request ref_ext demo_lib demo_net demo_clocks (demo_http ''GET'' ''http://evil.com/'') ?st
      = (Inr (error_response ''Upstream request failed''), [Forward ''evil.com:80'' sr], st') \<and> ps_audit st' = ps_audit ?st"
    unfolding t [symmetric]
    by (intro audit_trail_gaps [where t = ?t and body = "[]" and prev = 0, THEN conjunct2, rule_format])
      (simp add: demo_clocks_def demo_http_def demo_lib_def demo_net_def)
  then show ?thesis by (fastforce simp: proxy_new_def proxy_logger_new_def open_audit_db_def)
qed

subsection \<open>Whose name a request carries\<close>

definition header_values :: "string \<Rightarrow> headers \<Rightarrow> string list" where
  "header_values name hs = map snd (filter (\<lambda>h. fst h = to_lowercase name) hs)"

lemma header_values_insert:
  "header_values a (header_insert b v hs) = (if to_lowercase a = to_lowercase b then [v] else header_values a hs)"
  by (auto simp: header_values_def header_insert_def Let_def intro!: arg_cong [where f = "map snd"] filter_cong)

lemma add_signature_fold:
  assumes "ps_signer st = Some signer"
  shows "\<exists>xs. add_signature E H k meth uri hs st =
     (True, fold (insert_valid H)
       (proxy_sign_request E (clk_sign k) (clk_date k) (clk_nonce k) signer meth uri xs) hs)"
  using assms unfolding add_signature_def Let_def by auto

lemma fold_insert_other:
  "\<forall>nv \<in> set nvs. to_lowercase (fst nv) \<noteq> to_lowercase a \<Longrightarrow>
     header_values a (fold (insert_valid H) nvs hs) = header_values a hs"
  by (induction nvs arbitrary: hs) (auto simp: insert_valid_def header_values_insert)

lemma lower_names:
  "to_lowercase ''Signature-Input'' = ''signature-input''" "to_lowercase ''Signature'' = ''signature''"
  "to_lowercase ''X-ClawID-Agent'' = ''x-clawid-agent''" "to_lowercase ''Signature-PQ'' = ''signature-pq''"
  "to_lowercase ''Date'' = ''date''"
  by code_simp+

lemma proxy_sign_shape:
  "\<exists>a b rest. proxy_sign_request E now date nonce signer meth uri xs
      = [(''Signature-Input'', a), (''Signature'', b), (''X-ClawID-Agent'', rs_agent_id signer)] @ rest
     \<and> (\<forall>nv \<in> set rest. fst nv = ''Signature-PQ'' \<or> fst nv = ''Date'')"
  unfolding proxy_sign_request_def Let_def append.assoc
  by (intro exI conjI, rule refl) (auto split: option.splits sum.splits if_splits)

lemma add_signature_agent:
  assumes "ps_signer st = Some signer" "header_name_ok H ''X-ClawID-Agent''" "header_value_ok H (rs_agent_id signer)"
    and "add_signature E H k meth uri hs st = (sg, hs2)"
  shows "header_values ''X-ClawID-Agent'' hs2 = [rs_agent_id signer]"
proof -
  obtain xs where f: "hs2 = fold (insert_valid H)
      (proxy_sign_request E (clk_sign k) (clk_date k) (clk_nonce k) signer meth uri xs) hs"
    using add_signature_fold [OF assms(1)] assms(4) by (metis Pair_inject)
  obtain a b rest where p: "proxy_sign_request E (clk_sign k) (clk_date k) (clk_nonce k) signer meth uri xs
      = [(''Signature-Input'', a), (''Signature'', b), (''X-ClawID-Agent'', rs_agent_id signer)] @ rest"
    and r: "\<forall>nv \<in> set rest. fst nv = ''Signature-PQ'' \<or> fst nv = ''Date''"
    using proxy_sign_shape by blast
  have "\<forall>nv \<in> set rest. to_lowercase (fst nv) \<noteq> to_lowercase ''X-ClawID-Agent''"
    using r lower_names by auto
  from fold_insert_other [OF this] show ?thesis
    unfolding f p using assms(2,3) by (simp add: header_values_insert insert_valid_def)
qed

text \<open>
  Which agent a forwarded request names.  With a signer, its \<^verbatim>\<open>X-ClawID-Agent\<close> header has exactly one
  value, the signer's agent, whatever the client put there.  Without signer and token cache the
  headers go out as they came, so that a client may name any agent.
\<close>

theorem forwarded_agent_header:
  assumes "handle_request E H N k req st = (r, effs, st')" and "Forward addr sr \<in> set effs"
  shows "(\<forall>signer. ps_signer st = Some signer \<and> header_name_ok H ''X-ClawID-Agent'' \<and> header_value_ok H (rs_agent_id signer)
            \<longrightarrow> header_values ''X-ClawID-Agent'' (sent_headers sr) = [rs_agent_id signer])
     \<and> (ps_signer st = None \<and> ps_oauth st = None \<longrightarrow> sent_headers sr = pr_headers req)"
proof -
  have m: "pr_method req \<noteq> ''CONNECT''" using handle_request_effect [OF assms] by auto
  have req: "request_of req = Url (pr_uri req)" using m by (simp add: request_of_def)
  have "fst (scope_check E (clk_instant k) (Url (pr_uri req)) (ps_scope st)) = Inr Allow"
    using assms unfolding handle_cases Let_def req
    by (auto split: prod.splits sum.splits scope_decision.splits)
  then obtain scope where c: "scope_check E (clk_instant k) (Url (pr_uri req)) (ps_scope st) = (Inr Allow, scope)"
    by (metis prod.collapse)
  from forward_allowed [OF m c, of H N] obtain oi hs1 st1 sg hs2 where
    i: "inject_oauth E H N k (pr_uri req) (pr_headers req) (st\<lparr>ps_scope := scope\<rparr>) = (oi, hs1, st1)"
    and g: "add_signature E H k (pr_method req) (pr_uri req) hs1 st1 = (sg, hs2)"
    and h: "handle_request E H N k req st = forward_upstream E H N k req hs2 sg oi st1"
    and st1: "ps_signer st1 = ps_signer st" by metis
  have hs: "sent_headers sr = hs2"
    using forward_upstream_effects [of E H N k req hs2 sg oi st1 r effs st' "Forward addr sr"] assms h by auto
  have "hs2 = pr_headers req" if "ps_signer st = None" "ps_oauth st = None"
    using that i g st1 by (simp add: inject_oauth_def add_signature_def)
  then show ?thesis using add_signature_agent [of st1 _ H, OF _ _ _ g] st1 hs by auto
qed

definition open_proxy :: "request_signer option \<Rightarrow> proxy_state" where
  "open_proxy signer = proxy_new permissive signer None open_audit_db ''agent'' demo_key"

lemma open_proxy_forwards:
  "\<exists>resp sr st'. handle_request ref_ext demo_lib demo_net demo_clocks (demo_http ''GET'' ''http://evil.com/'') (open_proxy signer)
     = (resp, [Forward ''evil.com:80'' sr], st')"
proof -
  let ?req = "demo_http ''GET'' ''http://evil.com/''"
  have m: "pr_method ?req \<noteq> ''CONNECT''" by (simp add: demo_http_def)
  have "scope_check ref_ext (clk_instant demo_clocks) (Url (pr_uri ?req)) (ps_scope (open_proxy signer)) = (Inr Allow, permissive)"
    by (simp add: open_proxy_def proxy_new_def scope_check_def check_url_def check_rate_limit_def permissive_def)
  from forward_allowed [OF m this, of demo_lib demo_net] obtain oi st1 sg hs2 where
    h: "handle_request ref_ext demo_lib demo_net demo_clocks ?req (open_proxy signer)
      = forward_upstream ref_ext demo_lib demo_net demo_clocks ?req hs2 sg oi st1" by metis
  have "''evil.com'' @ '':'' @ nat_str 80 = ''evil.com:80''" by code_simp
  then show ?thesis unfolding h by (simp add: forward_upstream_def demo_http_def demo_lib_def demo_net_def)
qed

theorem forwarded_agent_header_witness:
  "\<exists>resp sr st' sr2 resp2 st2'.
     handle_request ref_ext demo_lib demo_net demo_clocks (demo_http ''GET'' ''http://evil.com/'')
       (open_proxy (Some \<lparr>rs_signing_key = demo_key, rs_pq_secret_key = None, rs_agent_id = ''agent'', rs_key_id = []\<rparr>))
       = (resp, [Forward ''evil.com:80'' sr], st')
     \<and> header_values ''X-ClawID-Agent'' (sent_headers sr) = [''agent'']
     \<and> handle_request ref_ext demo_lib demo_net demo_clocks (demo_http ''GET'' ''http://evil.com/'') (open_proxy None)
       = (resp2, [Forward ''evil.com:80'' sr2], st2')
     \<and> sent_headers sr2 = [(''x-clawid-agent'', ''someone'')]"
proof -
  let ?s = "Some \<lparr>rs_signing_key = demo_key, rs_pq_secret_key = None, rs_agent_id = ''agent'', rs_key_id = []\<rparr>"
  obtain resp sr st' where a: "handle_request ref_ext demo_lib demo_net demo_clocks (demo_http ''GET'' ''http://evil.com/'') (open_proxy ?s)
      = (resp, [Forward ''evil.com:80'' sr], st')" using open_proxy_forwards by blast
  obtain resp2 sr2 st2' where b: "handle_request ref_ext demo_lib demo_net demo_clocks (demo_http ''GET'' ''http://evil.com/'') (open_proxy None)
      = (resp2, [Forward ''evil.com:80'' sr2], st2')" using open_proxy_forwards by blast
  have "header_values ''X-ClawID-Agent'' (sent_headers sr) = [''agent'']"
    using forwarded_agent_header [OF a, of "''evil.com:80''" sr] by (simp add: open_proxy_def proxy_new_def demo_lib_def)
  moreover have "sent_headers sr2 = [(''x-clawid-agent'', ''someone'')]"
    using forwarded_agent_header [OF b, of "''evil.com:80''" sr2] by (simp add: open_proxy_def proxy_new_def demo_http_def)
  ultimately show ?thesis using a b by blast
qed

end
