(* ===== verification/OAuth_Store.thy ===== *)
theory OAuth_Store
  imports OAuth_Cache
begin

text \<open>
  The encrypted OAuth store of an agent, \<^verbatim>\<open>grokingclaw-daemon/src/oauth_store.rs\<close>: registrations and
  tokens, the cascade of a revocation over delegated registrations, and the file on disk.  The
  cipher, the key derivation and the derived serializer of the store are parameters.
\<close>

subsection \<open>State\<close>

record oauth_registration =
  reg_id :: string
  reg_provider :: string
  reg_client_id :: string
  reg_client_secret :: "string option"
  reg_authorization_url :: string
  reg_token_url :: string
  reg_revocation_url :: "string option"
  reg_device_authorization_url :: "string option"
  reg_scopes :: "string list"
  reg_domain_bindings :: "string list"
  reg_grant_type :: string
  reg_created_at :: datetime
  reg_parent_registration_id :: "string option"
  reg_max_scopes :: "string list option"

record stored_oauth_tokens =
  tok_registration_id :: string
  tok_access_token :: string
  tok_refresh_token :: "string option"
  tok_expires_at :: datetime
  tok_token_type :: string
  tok_granted_scopes :: "string list"
  tok_last_refreshed :: datetime

record oauth_store =
  store_version :: u32
  store_agent_id :: string
  registrations :: "oauth_registration list"
  store_tokens_list :: "stored_oauth_tokens list"

definition store_new :: "uuid \<Rightarrow> oauth_store" where
  "store_new agent_id =
     \<lparr>store_version = 1, store_agent_id = agent_id, registrations = [], store_tokens_list = []\<rparr>"

subsection \<open>Registrations and tokens\<close>

definition register_provider :: "oauth_registration \<Rightarrow> oauth_store \<Rightarrow> oauth_store result" where
  "register_provider reg s =
     (if list_ex (\<lambda>r. reg_id r = reg_id reg) (registrations s) then Inl (AlreadyExists (reg_id reg))
      else Inr (s\<lparr>registrations := registrations s @ [reg]\<rparr>))"

definition store_tokens :: "stored_oauth_tokens \<Rightarrow> oauth_store \<Rightarrow> oauth_store result" where
  "store_tokens toks s =
     (if \<not> list_ex (\<lambda>r. reg_id r = tok_registration_id toks) (registrations s)
      then Inl (NotFound (tok_registration_id toks))
      else Inr (s\<lparr>store_tokens_list :=
             filter (\<lambda>t. tok_registration_id t \<noteq> tok_registration_id toks) (store_tokens_list s) @ [toks]\<rparr>))"

definition get_tokens :: "string \<Rightarrow> oauth_store \<Rightarrow> stored_oauth_tokens option" where
  "get_tokens rid s = find (\<lambda>t. tok_registration_id t = rid) (store_tokens_list s)"

definition get_registration :: "string \<Rightarrow> oauth_store \<Rightarrow> oauth_registration option" where
  "get_registration rid s = find (\<lambda>r. reg_id r = rid) (registrations s)"

definition remove_registration :: "string \<Rightarrow> oauth_store \<Rightarrow> oauth_store result" where
  "remove_registration rid s =
     (if \<not> list_ex (\<lambda>r. reg_id r = rid) (registrations s) then Inl (NotFound rid)
      else Inr (s\<lparr>registrations := filter (\<lambda>r. reg_id r \<noteq> rid) (registrations s),
                  store_tokens_list := filter (\<lambda>t. tok_registration_id t \<noteq> rid) (store_tokens_list s)\<rparr>))"

text \<open>
  The recursion of \<^verbatim>\<open>cascade_remove\<close>, with a bound on its depth: \<open>None\<close> when the bound is reached, as it is for
  every bound when the code would recurse for ever.
\<close>

definition child_ids :: "string \<Rightarrow> oauth_store \<Rightarrow> string list" where
  "child_ids p s = map reg_id (filter (\<lambda>r. reg_parent_registration_id r = Some p) (registrations s))"

fun cascade_remove :: "nat \<Rightarrow> string \<Rightarrow> oauth_store \<Rightarrow> oauth_store option" where
  "cascade_remove 0 p s = None"
| "cascade_remove (Suc depth) p s =
     (case fold (\<lambda>c acc. Option.bind acc (cascade_remove depth c)) (child_ids p s) (Some s) of
        None \<Rightarrow> None
      | Some s' \<Rightarrow>
          Some (s'\<lparr>registrations := filter (\<lambda>r. reg_parent_registration_id r \<noteq> Some p) (registrations s'),
                   store_tokens_list :=
                     filter (\<lambda>t. tok_registration_id t \<notin> set (child_ids p s)) (store_tokens_list s')\<rparr>))"

definition get_domain_bindings :: "oauth_store \<Rightarrow> oauth_domain_binding list" where
  "get_domain_bindings s =
     concat (map (\<lambda>reg. map (\<lambda>domain. \<lparr>bind_domain = domain, bind_registration_id = reg_id reg,
                                       bind_required_scopes = reg_scopes reg\<rparr>) (reg_domain_bindings reg))
               (registrations s))"

definition cached_entry :: "oauth_store \<Rightarrow> stored_oauth_tokens \<Rightarrow> (string \<times> cached_oauth_token) option" where
  "cached_entry s t =
     map_option (\<lambda>reg. (tok_registration_id t,
        \<lparr>ct_access_token = tok_access_token t, ct_expires_at = timestamp (tok_expires_at t),
         ct_scopes = tok_granted_scopes t, ct_provider = reg_provider reg,
         ct_registration_id = tok_registration_id t\<rparr>)) (get_registration (tok_registration_id t) s)"

text \<open>Collecting pairs into a \<^verbatim>\<open>HashMap\<close>: the last pair of a key stays.\<close>

definition get_cached_tokens :: "oauth_store \<Rightarrow> string \<rightharpoonup> cached_oauth_token" where
  "get_cached_tokens s = map_of (rev (List.map_filter (cached_entry s) (store_tokens_list s)))"

fun validate_subset :: "string list \<Rightarrow> string list \<Rightarrow> unit result" where
  "validate_subset parent [] = Inr ()"
| "validate_subset parent (x # xs) = (if x \<notin> set parent then Inl (ScopeNotHeld x) else validate_subset parent xs)"

definition validate_delegation_scopes :: "string list \<Rightarrow> string list \<Rightarrow> unit result" where
  "validate_delegation_scopes parent_scopes requested_scopes = validate_subset parent_scopes requested_scopes"

definition validate_delegation_domains :: "string list \<Rightarrow> string list \<Rightarrow> unit result" where
  "validate_delegation_domains parent_domains requested_domains = validate_subset parent_domains requested_domains"

subsection \<open>The file\<close>

record vault_lib =
  hkdf :: "bytes \<Rightarrow> bytes \<Rightarrow> bytes"
  seal :: "bytes \<Rightarrow> bytes \<Rightarrow> bytes \<Rightarrow> bytes option"
  unseal :: "bytes \<Rightarrow> bytes \<Rightarrow> bytes \<Rightarrow> bytes option"
  store_to_json :: "oauth_store \<Rightarrow> bytes"
  store_from_json :: "bytes \<Rightarrow> oauth_store option"

definition derive_encryption_key :: "vault_lib \<Rightarrow> bytes \<Rightarrow> bytes" where
  "derive_encryption_key V signing_key = hkdf V signing_key ''grokingclaw-oauth-store-v1''"

text \<open>A store file and the temporary file beside it.\<close>

record store_files =
  store_file :: "bytes option"
  tmp_file :: "bytes option"

definition oauth_load :: "vault_lib \<Rightarrow> uuid \<Rightarrow> bytes option result \<Rightarrow> bytes \<Rightarrow> oauth_store result" where
  "oauth_load V fresh file signing_key =
     bind_res file (\<lambda>contents.
     case contents of
       None \<Rightarrow> Inr (store_new fresh)
     | Some ciphertext \<Rightarrow>
         if length ciphertext < 12 + 1 then Inl (ParseError ''OAuth store file too small (corrupted?)'')
         else
           (let nonce = take 12 ciphertext; encrypted = drop 12 ciphertext;
                key = derive_encryption_key V signing_key
            in bind_res (of_option (Rejected ''Failed to decrypt OAuth store (wrong key?)'') (unseal V key nonce encrypted)) (\<lambda>plaintext.
               of_option (ParseError ''Failed to parse decrypted OAuth store'') (store_from_json V plaintext))))"

text \<open>
  What the system answers to a save: the random bytes, how much of the temporary file was
  written before a failure, and whether the rename took place.
\<close>

record save_env =
  sv_mkdir_ok :: bool
  sv_nonce :: "bytes option"
  sv_written :: "nat option"
  sv_rename_ok :: bool

definition oauth_save :: "vault_lib \<Rightarrow> save_env \<Rightarrow> store_files \<Rightarrow> bytes \<Rightarrow> oauth_store \<Rightarrow> unit result \<times> store_files" where
  "oauth_save V e fs signing_key s =
     (if \<not> sv_mkdir_ok e then (Inl (IoError ''create_dir_all''), fs)
      else case sv_nonce e of
          None \<Rightarrow> (Inl (IoError ''Failed to generate nonce''), fs)
        | Some nonce \<Rightarrow>
            (case seal V (derive_encryption_key V signing_key) nonce (store_to_json V s) of
               None \<Rightarrow> (Inl (Rejected ''Failed to encrypt OAuth store''), fs)
             | Some ciphertext \<Rightarrow>
                 (let output = nonce @ ciphertext
                  in case sv_written e of
                       Some n \<Rightarrow> (Inl (IoError ''Failed to write temp file''), fs\<lparr>tmp_file := Some (take n output)\<rparr>)
                     | None \<Rightarrow>
                         if \<not> sv_rename_ok e then (Inl (IoError ''Failed to rename''), fs\<lparr>tmp_file := Some output\<rparr>)
                         else (Inr (), \<lparr>store_file = Some output, tmp_file = None\<rparr>))))"

subsection \<open>Descendants\<close>

text \<open>The identifiers that hang below \<open>p\<close>, directly or through other registrations.\<close>

inductive desc :: "oauth_registration list \<Rightarrow> string \<Rightarrow> string \<Rightarrow> bool" for regs p where
  desc_child: "r \<in> set regs \<Longrightarrow> reg_parent_registration_id r = Some p \<Longrightarrow> desc regs p (reg_id r)"
| desc_deeper: "desc regs p q \<Longrightarrow> r \<in> set regs \<Longrightarrow> reg_parent_registration_id r = Some q \<Longrightarrow> desc regs p (reg_id r)"

definition below :: "oauth_registration list \<Rightarrow> string \<Rightarrow> string set" where
  "below regs p = {q. desc regs p q}"

definition prune :: "oauth_registration list \<Rightarrow> string set \<Rightarrow> oauth_registration list" where
  "prune regs S = filter (\<lambda>r. case reg_parent_registration_id r of None \<Rightarrow> True | Some q \<Rightarrow> q \<notin> S) regs"

definition closed :: "oauth_registration list \<Rightarrow> string set \<Rightarrow> bool" where
  "closed regs S \<longleftrightarrow> (\<forall>r \<in> set regs. \<forall>q. reg_parent_registration_id r = Some q \<and> q \<in> S \<longrightarrow> reg_id r \<in> S)"

lemma desc_trans: "desc regs p q \<Longrightarrow> desc regs q r \<Longrightarrow> desc regs p r"
  by (rotate_tac, induction rule: desc.induct) (auto intro: desc.intros)

lemma desc_mono: "desc regs p q \<Longrightarrow> set regs \<subseteq> set regs' \<Longrightarrow> desc regs' p q"
  by (induction rule: desc.induct) (auto intro: desc.intros)

lemma set_prune: "set (prune regs S) \<subseteq> set regs"
  by (auto simp: prune_def)

lemma below_finite: "finite (below regs p)"
proof (rule finite_subset)
  show "below regs p \<subseteq> reg_id ` set regs" by (auto simp: below_def elim: desc.cases)
qed simp

lemma prune_keeps:
  "r \<in> set regs \<Longrightarrow> reg_parent_registration_id r = Some q \<Longrightarrow> q \<notin> S \<Longrightarrow> r \<in> set (prune regs S)"
  by (simp add: prune_def)

lemma closedD:
  "closed regs S \<Longrightarrow> r \<in> set regs \<Longrightarrow> reg_parent_registration_id r = Some q \<Longrightarrow> q \<in> S \<Longrightarrow> reg_id r \<in> S"
  by (auto simp: closed_def)

lemma desc_prune:
  assumes "closed regs S" "desc regs p q"
  shows "desc (prune regs S) p q \<or> q \<in> S"
  using assms(2)
proof induction
  case (desc_child r)
  then show ?case using closedD [OF assms(1)] prune_keeps desc.desc_child by metis
next
  case (desc_deeper q r)
  then show ?case using closedD [OF assms(1)] prune_keeps desc.desc_deeper by metis
qed

lemma prune_prune:
  assumes "closed regs S"
  shows "prune (prune regs S) (insert c (below (prune regs S) c)) = prune regs (S \<union> insert c (below regs c))"
proof -
  define B where "B = below (prune regs S) c"
  have "q \<in> B \<longleftrightarrow> q \<in> below regs c" if "q \<notin> S" for q
    using that desc_prune [OF assms, of c q] desc_mono [OF _ set_prune] by (auto simp: B_def below_def)
  then have "prune (prune regs S) (insert c B) = prune regs (S \<union> insert c (below regs c))"
    unfolding prune_def filter_filter by (intro filter_cong) (auto split: option.splits)
  then show ?thesis by (simp add: B_def)
qed

lemma closed_below: "closed regs S \<Longrightarrow> closed regs (S \<union> insert c (below regs c))"
  by (auto simp: closed_def below_def intro: desc.intros)

lemma below_children:
  "below (registrations s) p = (\<Union>c \<in> set (child_ids p s). insert c (below (registrations s) c))" (is "?l = ?r")
proof
  have "desc (registrations s) p q \<Longrightarrow> q \<in> ?r" for q
    by (induction rule: desc.induct) (auto simp: child_ids_def below_def intro: desc.intros)
  then show "?l \<subseteq> ?r" by (auto simp: below_def)
  show "?r \<subseteq> ?l" by (auto simp: below_def child_ids_def intro: desc_child desc_trans [OF desc_child])
qed

subsection \<open>The cascade\<close>

definition cascaded :: "string \<Rightarrow> oauth_store \<Rightarrow> oauth_store" where
  "cascaded p s =
     s\<lparr>registrations := prune (registrations s) (insert p (below (registrations s) p)),
       store_tokens_list := filter (\<lambda>t. tok_registration_id t \<notin> below (registrations s) p) (store_tokens_list s)\<rparr>"

definition no_cycle :: "oauth_registration list \<Rightarrow> string \<Rightarrow> bool" where
  "no_cycle regs p \<longleftrightarrow> (\<forall>q. q = p \<or> desc regs p q \<longrightarrow> \<not> desc regs q q)"

abbreviation pruned_store :: "oauth_store \<Rightarrow> string set \<Rightarrow> string set \<Rightarrow> oauth_store" where
  "pruned_store s S R \<equiv> s\<lparr>registrations := prune (registrations s) S,
     store_tokens_list := filter (\<lambda>t. tok_registration_id t \<notin> R) (store_tokens_list s)\<rparr>"

text \<open>The loop over the children, when each call does its part.\<close>

lemma cascade_loop:
  assumes IH: "\<And>c S R. c \<in> C \<Longrightarrow> f c (pruned_store s S R) = Some (cascaded c (pruned_store s S R))"
    and "set cs \<subseteq> C" "closed (registrations s) S" "S \<subseteq> R \<union> C"
  shows "\<exists>R'. fold (\<lambda>c acc. Option.bind acc (f c)) cs (Some (pruned_store s S R)) =
       Some (pruned_store s (S \<union> (\<Union>c \<in> set cs. insert c (below (registrations s) c))) R')
     \<and> R \<subseteq> R' \<and> R' \<subseteq> R \<union> (\<Union>c \<in> set cs. below (registrations s) c)
     \<and> S \<union> (\<Union>c \<in> set cs. insert c (below (registrations s) c)) \<subseteq> R' \<union> C"
  using assms(2-4)
proof (induction cs arbitrary: S R)
  case (Cons c cs)
  let ?regs = "registrations s" and ?S = "S \<union> insert c (below (registrations s) c)"
  let ?R = "R \<union> below (prune (registrations s) S) c"
  have step: "f c (pruned_store s S R) = Some (pruned_store s ?S ?R)"
    using IH [where c = c and S = S and R = R] Cons.prems(1) prune_prune [OF Cons.prems(2), of c] by (simp add: cascaded_def)
  have b: "below (prune ?regs S) c \<subseteq> below ?regs c" using desc_mono [OF _ set_prune] by (auto simp: below_def)
  have "below ?regs c \<subseteq> below (prune ?regs S) c \<union> S" using desc_prune [OF Cons.prems(2)] by (auto simp: below_def)
  then have "?S \<subseteq> ?R \<union> C" using Cons.prems(1,3) by auto
  then obtain R' where R': "fold (\<lambda>c acc. Option.bind acc (f c)) cs (Some (pruned_store s ?S ?R)) =
       Some (pruned_store s (?S \<union> (\<Union>c \<in> set cs. insert c (below ?regs c))) R')"
    "?R \<subseteq> R'" "R' \<subseteq> ?R \<union> (\<Union>c \<in> set cs. below ?regs c)"
    "?S \<union> (\<Union>c \<in> set cs. insert c (below ?regs c)) \<subseteq> R' \<union> C"
    using Cons.IH [of ?S ?R] Cons.prems(1) closed_below [OF Cons.prems(2)] by auto
  have u: "?S \<union> (\<Union>c \<in> set cs. insert c (below ?regs c)) = S \<union> (\<Union>c \<in> set (c # cs). insert c (below ?regs c))" by auto
  show ?case using R' b step unfolding u by (intro exI [of _ R']) auto
qed auto

lemma pruned_store_trivial: "pruned_store s {} {} = s"
  by (simp add: prune_def option.case_eq_if)

lemma below_child_psubset:
  assumes "no_cycle (registrations s) p" "c \<in> set (child_ids p s)"
  shows "below (registrations s) c \<subset> below (registrations s) p"
proof -
  have d: "desc (registrations s) p c" using assms(2) by (auto simp: child_ids_def intro: desc_child)
  then have "c \<notin> below (registrations s) c" using assms(1) by (auto simp: no_cycle_def below_def)
  then show ?thesis using d desc_trans by (auto simp: below_def)
qed

lemma no_cycle_prune:
  assumes "no_cycle regs p" "desc regs p c"
  shows "no_cycle (prune regs S) c"
  unfolding no_cycle_def
proof (intro allI impI notI)
  fix q assume q: "q = c \<or> desc (prune regs S) c q" and "desc (prune regs S) q q"
  then have cyc: "desc regs q q" using desc_mono [OF _ set_prune] by blast
  have "desc regs p q" using q assms(2) desc_mono [OF _ set_prune] desc_trans by blast
  with assms(1) cyc show False by (simp add: no_cycle_def)
qed

lemma prune_insert:
  "filter (\<lambda>r. reg_parent_registration_id r \<noteq> Some p) (prune regs B) = prune regs (insert p B)"
  unfolding prune_def filter_filter by (intro filter_cong) (auto split: option.splits)

lemma cascade_correct:
  "card (below (registrations s) p) < depth \<Longrightarrow> no_cycle (registrations s) p \<Longrightarrow>
     cascade_remove depth p s = Some (cascaded p s)"
proof (induction depth arbitrary: p s)
  case (Suc depth)
  let ?regs = "registrations s" and ?C = "set (child_ids p s)"
  have IH: "cascade_remove depth c (pruned_store s S R) = Some (cascaded c (pruned_store s S R))" if c: "c \<in> ?C" for c S R
  proof (rule Suc.IH)
    have "below (prune ?regs S) c \<subseteq> below ?regs c" using desc_mono [OF _ set_prune] by (auto simp: below_def)
    then have "card (below (prune ?regs S) c) < card (below ?regs p)"
      using below_child_psubset [OF Suc.prems(2) c] below_finite by (meson psubset_card_mono subset_psubset_trans)
    then show "card (below (registrations (pruned_store s S R)) c) < depth" using Suc.prems(1) by simp
    have "desc ?regs p c" using c by (auto simp: child_ids_def intro: desc_child)
    then show "no_cycle (registrations (pruned_store s S R)) c"
      using no_cycle_prune [OF Suc.prems(2)] by simp
  qed
  let ?U = "\<Union>c \<in> ?C. insert c (below ?regs c)"
  have U: "?U = below ?regs p" using below_children [of s p] by simp
  have "closed ?regs {}" by (simp add: closed_def)
  from cascade_loop [of ?C "cascade_remove depth" s "child_ids p s" "{}" "{}", OF IH subset_refl this]
  obtain R' where f: "fold (\<lambda>c acc. Option.bind acc (cascade_remove depth c)) (child_ids p s) (Some (pruned_store s {} {})) =
      Some (pruned_store s ({} \<union> ?U) R')"
    and R1: "R' \<subseteq> {} \<union> (\<Union>c \<in> ?C. below ?regs c)" and R2: "{} \<union> ?U \<subseteq> R' \<union> ?C"
    by blast
  have R: "R' \<subseteq> below ?regs p" "below ?regs p \<subseteq> R' \<union> ?C" using R1 R2 unfolding U [symmetric] by auto
  note f = f [unfolded pruned_store_trivial U Un_empty_left]
  have "R' \<union> ?C = below ?regs p" using R unfolding U [symmetric] by auto
  then have "filter (\<lambda>t. tok_registration_id t \<notin> R' \<and> tok_registration_id t \<notin> ?C) (store_tokens_list s)
      = filter (\<lambda>t. tok_registration_id t \<notin> below ?regs p) (store_tokens_list s)"
    by (intro filter_cong) auto
  then show ?case by (simp add: f cascaded_def prune_insert)
qed simp

subsection \<open>When the cascade ends\<close>

lemma fold_bind_None [simp]: "fold (\<lambda>c acc. Option.bind acc (f c)) cs None = None"
  by (induction cs) auto

lemma fold_bind_mono:
  "(\<And>c s x. f c s = Some x \<Longrightarrow> g c s = Some x) \<Longrightarrow>
   fold (\<lambda>c acc. Option.bind acc (f c)) cs (Some s) = Some y \<Longrightarrow>
   fold (\<lambda>c acc. Option.bind acc (g c)) cs (Some s) = Some y"
proof (induction cs arbitrary: s)
  case (Cons c cs)
  then obtain s' where "f c s = Some s'" by (cases "f c s") auto
  with Cons show ?case by simp
qed simp

lemma cascade_mono: "cascade_remove depth p s = Some x \<Longrightarrow> cascade_remove (Suc depth) p s = Some x"
proof (induction depth arbitrary: p s x)
  case (Suc depth)
  let ?g = "\<lambda>n c acc. Option.bind acc (cascade_remove n c)"
  obtain y where y: "fold (?g depth) (child_ids p s) (Some s) = Some y"
    using Suc.prems by (auto split: option.splits)
  have "fold (?g (Suc depth)) (child_ids p s) (Some s) = Some y"
    by (rule fold_bind_mono [OF _ y]) (rule Suc.IH)
  with y Suc.prems show ?case by (simp only: cascade_remove.simps option.case)
qed simp

lemma cascade_mono_le: "cascade_remove m p s = Some x \<Longrightarrow> m \<le> n \<Longrightarrow> cascade_remove n p s = Some x"
  by (rotate_tac, induction rule: dec_induct) (auto dest: cascade_mono simp del: cascade_remove.simps)

text \<open>A cascade that ends has done its work, and one that ends has met no cycle.\<close>

lemma cascade_Some_eq:
  assumes "cascade_remove depth p s = Some x" "no_cycle (registrations s) p"
  shows "x = cascaded p s"
proof -
  let ?n = "max depth (Suc (card (below (registrations s) p)))"
  have "cascade_remove ?n p s = Some x" using cascade_mono_le [OF assms(1)] by simp
  moreover have "cascade_remove ?n p s = Some (cascaded p s)" using cascade_correct [OF _ assms(2), of ?n] by simp
  ultimately show ?thesis by simp
qed

lemma no_cycle_unprune:
  assumes "closed regs S" "\<forall>q \<in> S. \<not> desc regs q q" "no_cycle (prune regs S) c"
  shows "no_cycle regs c"
  unfolding no_cycle_def
proof (intro allI impI notI)
  fix q assume "q = c \<or> desc regs c q" and cyc: "desc regs q q"
  with assms(2) have "q \<notin> S" by auto
  with desc_prune [OF assms(1)] \<open>q = c \<or> desc regs c q\<close> cyc
  have "q = c \<or> desc (prune regs S) c q" "desc (prune regs S) q q" by auto
  with assms(3) show False by (auto simp: no_cycle_def)
qed

lemma cascade_loop_no_cycle:
  assumes IH: "\<And>c s x. f c s = Some x \<Longrightarrow> no_cycle (registrations s) c \<and> x = cascaded c s"
    and "fold (\<lambda>c acc. Option.bind acc (f c)) cs (Some (pruned_store s S R)) = Some y"
    and "closed (registrations s) S" "\<forall>q \<in> S. \<not> desc (registrations s) q q"
  shows "\<forall>c \<in> set cs. no_cycle (registrations s) c"
  using assms(2-4)
proof (induction cs arbitrary: S R)
  case (Cons c cs)
  let ?regs = "registrations s" and ?S = "S \<union> insert c (below (registrations s) c)"
  obtain x where x: "f c (pruned_store s S R) = Some x" using Cons.prems(1) by (cases "f c (pruned_store s S R)") auto
  from IH [OF x] have "no_cycle (prune ?regs S) c" and xe: "x = cascaded c (pruned_store s S R)" by simp_all
  then have c: "no_cycle ?regs c" using no_cycle_unprune [OF Cons.prems(2,3)] by blast
  have "x = pruned_store s ?S (R \<union> below (prune ?regs S) c)"
    unfolding xe cascaded_def using prune_prune [OF Cons.prems(2), of c] by simp
  moreover have "\<forall>q \<in> ?S. \<not> desc ?regs q q" using Cons.prems(3) c by (auto simp: no_cycle_def below_def)
  ultimately have "\<forall>c \<in> set cs. no_cycle ?regs c"
    using Cons.IH [where S = ?S and R = "R \<union> below (prune ?regs S) c"] Cons.prems(1) x closed_below [OF Cons.prems(2), of c] by simp
  with c show ?case by simp
qed simp

lemma cascade_no_cycle: "cascade_remove depth p s = Some x \<Longrightarrow> no_cycle (registrations s) p"
proof (induction depth arbitrary: p s x)
  case (Suc depth)
  let ?regs = "registrations s"
  have ih: "no_cycle (registrations s') c \<and> x = cascaded c s'" if "cascade_remove depth c s' = Some x" for c s' x
    using Suc.IH [OF that] cascade_Some_eq [OF that] by blast
  obtain y where "fold (\<lambda>c acc. Option.bind acc (cascade_remove depth c)) (child_ids p s) (Some s) = Some y"
    using Suc.prems by (auto split: option.splits)
  then have "fold (\<lambda>c acc. Option.bind acc (cascade_remove depth c)) (child_ids p s) (Some (pruned_store s {} {})) = Some y"
    by (simp only: pruned_store_trivial)
  from cascade_loop_no_cycle [OF ih this] have cs: "\<forall>c \<in> set (child_ids p s). no_cycle ?regs c" by (simp add: closed_def)
  have "\<not> desc ?regs q q" if q: "q = p \<or> desc ?regs p q" for q
  proof
    assume cyc: "desc ?regs q q"
    have "desc ?regs p q" using q cyc by auto
    then obtain c where c: "c \<in> set (child_ids p s)" "q = c \<or> desc ?regs c q"
      using below_children [of s p] by (auto simp: below_def)
    with cs cyc show False by (auto simp: no_cycle_def)
  qed
  then show ?case by (simp add: no_cycle_def)
qed simp

text \<open>
  C33: the cascade of a revocation.  It ends exactly when no registration at or below the
  revoked one is its own ancestor; a depth of one more than the number of identifiers below
  it is then enough.  It leaves exactly the registrations whose parent is neither the revoked
  one nor below it, and exactly the tokens of registrations that are not below it.
\<close>

theorem cascade_remove_spec:
  "((\<exists>depth. cascade_remove depth p s \<noteq> None) \<longleftrightarrow> no_cycle (registrations s) p)
   \<and> (no_cycle (registrations s) p \<longrightarrow>
        cascade_remove (Suc (card (below (registrations s) p))) p s =
          Some (s\<lparr>registrations := filter (\<lambda>r. \<not> (\<exists>q. reg_parent_registration_id r = Some q
                                               \<and> (q = p \<or> desc (registrations s) p q))) (registrations s),
                  store_tokens_list := filter (\<lambda>t. \<not> desc (registrations s) p (tok_registration_id t))
                                         (store_tokens_list s)\<rparr>))"
proof -
  have eq: "cascade_remove (Suc (card (below (registrations s) p))) p s = Some (cascaded p s)" if "no_cycle (registrations s) p"
    using cascade_correct [OF lessI that] .
  have "prune (registrations s) (insert p (below (registrations s) p)) =
      filter (\<lambda>r. \<not> (\<exists>q. reg_parent_registration_id r = Some q \<and> (q = p \<or> desc (registrations s) p q))) (registrations s)"
    unfolding prune_def below_def by (intro filter_cong) (auto split: option.splits)
  then have "cascaded p s = s\<lparr>registrations := filter (\<lambda>r. \<not> (\<exists>q. reg_parent_registration_id r = Some q
                 \<and> (q = p \<or> desc (registrations s) p q))) (registrations s),
              store_tokens_list := filter (\<lambda>t. \<not> desc (registrations s) p (tok_registration_id t)) (store_tokens_list s)\<rparr>"
    by (simp add: cascaded_def below_def)
  then show ?thesis using eq cascade_no_cycle by (metis option.exhaust option.distinct(1))
qed

definition demo_reg :: "string \<Rightarrow> string option \<Rightarrow> oauth_registration" where
  "demo_reg i p = \<lparr>reg_id = i, reg_provider = ''prov'', reg_client_id = [], reg_client_secret = None, reg_authorization_url = [],
     reg_token_url = [], reg_revocation_url = None, reg_device_authorization_url = None, reg_scopes = [],
     reg_domain_bindings = [''a.b''], reg_grant_type = ''authorization_code'', reg_created_at = 0,
     reg_parent_registration_id = p, reg_max_scopes = None\<rparr>"

definition demo_tok :: "string \<Rightarrow> stored_oauth_tokens" where
  "demo_tok i = \<lparr>tok_registration_id = i, tok_access_token = ''secret'', tok_refresh_token = None, tok_expires_at = 0,
     tok_token_type = ''Bearer'', tok_granted_scopes = [], tok_last_refreshed = 0\<rparr>"

definition demo_store :: "string option \<Rightarrow> oauth_store" where
  "demo_store p = \<lparr>store_version = 1, store_agent_id = [],
     registrations = [demo_reg ''a'' p, demo_reg ''b'' (Some ''a''), demo_reg ''c'' (Some ''b'')],
     store_tokens_list = [demo_tok ''a'', demo_tok ''c'']\<rparr>"

lemmas demo_store_simps = demo_store_def demo_reg_def demo_tok_def

theorem cascade_remove_spec_witness:
  "no_cycle (registrations (demo_store None)) ''a''
   \<and> map reg_id (registrations (the (cascade_remove (Suc (card (below (registrations (demo_store None)) ''a''))) ''a'' (demo_store None)))) = [''a'']
   \<and> \<not> no_cycle (registrations (demo_store (Some ''c''))) ''a''"
proof -
  have "cascade_remove 3 ''a'' (demo_store None) = Some ((demo_store None)\<lparr>registrations := [demo_reg ''a'' None], store_tokens_list := [demo_tok ''a'']\<rparr>)"
    by (simp add: demo_store_simps child_ids_def numeral_3_eq_3)
  then have nc: "no_cycle (registrations (demo_store None)) ''a''"
    using cascade_remove_spec [of "''a''" "demo_store None"] by auto
  have "desc (registrations (demo_store None)) ''a'' ''b''"
    using desc_child [of "demo_reg ''b'' (Some ''a'')"] by (simp add: demo_store_simps)
  then have bc: "desc (registrations (demo_store None)) ''a'' ''c''"
    using desc_deeper [of _ "''a''" "''b''" "demo_reg ''c'' (Some ''b'')"] by (simp add: demo_store_simps)
  have r: "map reg_id (registrations (the (cascade_remove (Suc (card (below (registrations (demo_store None)) ''a''))) ''a'' (demo_store None)))) = [''a'']"
    using cascade_remove_spec [of "''a''" "demo_store None", THEN conjunct2, rule_format, OF nc]
      \<open>desc (registrations (demo_store None)) ''a'' ''b''\<close>
    by (simp add: demo_store_simps)
  let ?c = "registrations (demo_store (Some ''c''))"
  have "desc ?c ''a'' ''b''" using desc_child [of "demo_reg ''b'' (Some ''a'')"] by (simp add: demo_store_simps)
  then have "desc ?c ''a'' ''c''" using desc_deeper [of ?c "''a''" "''b''" "demo_reg ''c'' (Some ''b'')"] by (simp add: demo_store_simps)
  then have "desc ?c ''a'' ''a''" using desc_deeper [of ?c "''a''" "''c''" "demo_reg ''a'' (Some ''c'')"] by (simp add: demo_store_simps)
  then show ?thesis using nc r by (auto simp: no_cycle_def)
qed

subsection \<open>Consistency of the store\<close>

definition store_inv :: "oauth_store \<Rightarrow> bool" where
  "store_inv s \<longleftrightarrow>
     distinct (map reg_id (registrations s)) \<and> distinct (map tok_registration_id (store_tokens_list s))
     \<and> (\<forall>t \<in> set (store_tokens_list s). \<exists>r \<in> set (registrations s). reg_id r = tok_registration_id t)"

inductive store_step :: "oauth_store \<Rightarrow> oauth_store \<Rightarrow> bool" where
  step_register: "register_provider reg s = Inr s' \<Longrightarrow> store_step s s'"
| step_tokens: "store_tokens toks s = Inr s' \<Longrightarrow> store_step s s'"
| step_remove: "remove_registration rid s = Inr s' \<Longrightarrow> store_step s s'"
| step_cascade: "cascade_remove depth p s = Some s' \<Longrightarrow> store_step s s'"

lemma distinct_map_filter_id: "distinct (map f xs) \<Longrightarrow> distinct (map f (filter P xs))"
  by (induction xs) auto

lemma register_inv: "store_inv s \<Longrightarrow> register_provider reg s = Inr s' \<Longrightarrow> store_inv s'"
  by (force simp: store_inv_def register_provider_def list_ex_iff split: if_splits)

lemma store_tokens_inv: "store_inv s \<Longrightarrow> store_tokens toks s = Inr s' \<Longrightarrow> store_inv s'"
  by (auto simp: store_inv_def store_tokens_def list_ex_iff distinct_map_filter_id split: if_splits)

lemma remove_inv: "store_inv s \<Longrightarrow> remove_registration rid s = Inr s' \<Longrightarrow> store_inv s'"
  by (force simp: store_inv_def remove_registration_def distinct_map_filter_id split: if_splits)

lemma cascaded_inv:
  assumes "store_inv s"
  shows "store_inv (cascaded p s)"
proof -
  have "r \<in> set (prune (registrations s) (insert p (below (registrations s) p)))"
    if "r \<in> set (registrations s)" "reg_id r \<notin> below (registrations s) p" for r
    using that by (auto simp: prune_def below_def split: option.splits intro: desc.intros)
  moreover have "distinct (map reg_id (prune (registrations s) S))" for S
    using assms by (simp add: store_inv_def prune_def distinct_map_filter_id)
  ultimately show ?thesis
    using assms by (fastforce simp: store_inv_def cascaded_def distinct_map_filter_id)
qed

lemma cascade_inv: "store_inv s \<Longrightarrow> cascade_remove depth p s = Some s' \<Longrightarrow> store_inv s'"
  using cascade_Some_eq cascade_no_cycle cascaded_inv by blast

interpretation store: invariant "\<lambda>s. \<exists>a. s = store_new a" store_step store_inv
proof
  show "\<exists>a. s = store_new a \<Longrightarrow> store_inv s" for s by (auto simp: store_inv_def store_new_def)
  show "store_inv s \<Longrightarrow> store_step s t \<Longrightarrow> store_inv t" for s t
    by (erule store_step.cases) (auto intro: register_inv store_tokens_inv remove_inv cascade_inv)
qed

lemma find_unique:
  "distinct (map f xs) \<Longrightarrow> x \<in> set xs \<Longrightarrow> f x = k \<Longrightarrow> find (\<lambda>y. f y = k) xs = Some x"
  by (induction xs) auto

lemma find_absent: "(\<And>x. x \<in> set xs \<Longrightarrow> f x \<noteq> k) \<Longrightarrow> find (\<lambda>y. f y = k) xs = None"
  by (simp add: find_None_iff)

lemma find_filter_key:
  "find (\<lambda>y. f y = k) (filter (\<lambda>y. f y \<noteq> k') xs) = (if k = k' then None else find (\<lambda>y. f y = k) xs)"
  by (induction xs) auto

lemma find_append: "find P (xs @ ys) = (case find P xs of None \<Rightarrow> find P ys | Some x \<Rightarrow> Some x)"
  by (induction xs) auto

definition as_cached :: "oauth_registration \<Rightarrow> stored_oauth_tokens \<Rightarrow> cached_oauth_token" where
  "as_cached reg t = \<lparr>ct_access_token = tok_access_token t, ct_expires_at = timestamp (tok_expires_at t),
     ct_scopes = tok_granted_scopes t, ct_provider = reg_provider reg, ct_registration_id = tok_registration_id t\<rparr>"

text \<open>The abstract view of a store: what a registration has.\<close>

definition token_of :: "oauth_store \<Rightarrow> string \<rightharpoonup> cached_oauth_token" where
  "token_of s rid = (case (get_registration rid s, get_tokens rid s) of
     (Some reg, Some t) \<Rightarrow> Some (as_cached reg t) | _ \<Rightarrow> None)"

lemma get_tokens_rid: "get_tokens rid s = Some t \<Longrightarrow> tok_registration_id t = rid"
  by (auto simp: get_tokens_def find_Some_iff)

lemma cached_entry_eq:
  "cached_entry s t = map_option (\<lambda>reg. (tok_registration_id t, as_cached reg t)) (get_registration (tok_registration_id t) s)"
  by (simp add: cached_entry_def as_cached_def)

lemma map_filter_keys: "set (map fst (List.map_filter (cached_entry s) ts)) \<subseteq> tok_registration_id ` set ts"
  by (induction ts) (auto simp: map_filter_simps cached_entry_eq split: option.splits)

lemma map_filter_cached_Cons:
  "List.map_filter (cached_entry s) (t # ts) =
     (case get_registration (tok_registration_id t) s of
        None \<Rightarrow> List.map_filter (cached_entry s) ts
      | Some reg \<Rightarrow> (tok_registration_id t, as_cached reg t) # List.map_filter (cached_entry s) ts)"
  by (simp add: map_filter_simps cached_entry_eq split: option.split)

lemma map_of_rev_distinct:
  assumes "distinct (map fst xs)"
  shows "map_of (rev xs) = map_of xs"
proof
  fix k
  have "distinct (map fst (rev xs))" using assms by (simp add: rev_map [symmetric])
  then have "map_of (rev xs) k = Some y \<longleftrightarrow> map_of xs k = Some y" for y
    using assms by (simp add: map_of_eq_Some_iff)
  then show "map_of (rev xs) k = map_of xs k" by (metis not_None_eq)
qed

lemma map_of_cached:
  assumes "distinct (map tok_registration_id ts)"
  shows "distinct (map fst (List.map_filter (cached_entry s) ts))"
    and "map_of (List.map_filter (cached_entry s) ts) rid =
      Option.bind (find (\<lambda>t. tok_registration_id t = rid) ts) (\<lambda>t. map_option (\<lambda>reg. as_cached reg t) (get_registration rid s))"
  using assms
proof (induction ts)
  case (Cons t ts)
  { case 1 then show ?case unfolding map_filter_cached_Cons using Cons map_filter_keys [of s ts] by (auto split: option.splits) }
  { case 2
    have "rid \<notin> fst ` set (List.map_filter (cached_entry s) ts)" if "tok_registration_id t = rid"
      using that 2 map_filter_keys [of s ts] by auto
    then have "map_of (List.map_filter (cached_entry s) ts) rid = None" if "tok_registration_id t = rid"
      using that by (simp add: map_of_eq_None_iff)
    then show ?case unfolding map_filter_cached_Cons using Cons 2 by (auto split: option.splits) }
qed (simp_all add: map_filter_simps)

lemma cached_tokens_refine:
  assumes "store_inv s"
  shows "get_cached_tokens s = token_of s"
proof
  fix rid
  have d: "distinct (map tok_registration_id (store_tokens_list s))" using assms by (simp add: store_inv_def)
  have "get_cached_tokens s rid = map_of (List.map_filter (cached_entry s) (store_tokens_list s)) rid"
    unfolding get_cached_tokens_def using map_of_cached(1) [OF d] by (simp add: map_of_rev_distinct)
  then show "get_cached_tokens s rid = token_of s rid"
    by (simp add: map_of_cached(2) [OF d] token_of_def get_tokens_def split: option.split)
qed

text \<open>What is below a registration, by its parents; the cascade, as the map sees it.\<close>

lemma prune_below:
  assumes d: "distinct (map reg_id regs)"
  shows "prune regs (insert p (below regs p)) = filter (\<lambda>r. \<not> desc regs p (reg_id r)) regs"
  unfolding prune_def
proof (rule filter_cong [OF refl])
  fix r assume r: "r \<in> set regs"
  have "desc regs p (reg_id r) \<longleftrightarrow> (\<exists>q. reg_parent_registration_id r = Some q \<and> (q = p \<or> desc regs p q))"
  proof
    assume "desc regs p (reg_id r)"
    then obtain r' q where "r' \<in> set regs" "reg_id r' = reg_id r" "reg_parent_registration_id r' = Some q"
      "q = p \<or> desc regs p q" by (cases rule: desc.cases) auto
    moreover from this have "r' = r" using d r by (simp add: distinct_map inj_on_def)
    ultimately show "\<exists>q. reg_parent_registration_id r = Some q \<and> (q = p \<or> desc regs p q)" by blast
  qed (use r in \<open>auto intro: desc.intros\<close>)
  then show "(case reg_parent_registration_id r of None \<Rightarrow> True | Some q \<Rightarrow> q \<notin> insert p (below regs p)) = (\<not> desc regs p (reg_id r))"
    by (auto simp: below_def split: option.splits)
qed

lemma find_other: "find (\<lambda>y. f y = q) (filter (\<lambda>y. \<not> P (f y)) xs) = (if P q then None else find (\<lambda>y. f y = q) xs)"
  by (induction xs) auto

lemma token_of_cascaded:
  assumes "store_inv s"
  shows "token_of (cascaded p s) = (\<lambda>q. if desc (registrations s) p q then None else token_of s q)"
proof
  fix q
  have "registrations (cascaded p s) = filter (\<lambda>r. \<not> desc (registrations s) p (reg_id r)) (registrations s)"
    "store_tokens_list (cascaded p s) = filter (\<lambda>t. \<not> desc (registrations s) p (tok_registration_id t)) (store_tokens_list s)"
    using assms prune_below by (auto simp: cascaded_def store_inv_def below_def)
  then show "token_of (cascaded p s) q = (if desc (registrations s) p q then None else token_of s q)"
    by (simp add: token_of_def get_registration_def get_tokens_def find_other)
qed

text \<open>
  C34: the store refines a map from registrations to their token.  In every store reached from an
  empty one, registration identifiers are unique, every token belongs to a registration and
  there is at most one per registration; what a proxy is given at its start is exactly that map
  together with bindings that name registrations of the store, and each operation is an update of
  the map: registering changes nothing, storing tokens sets the key of their registration, removing clears the key of the one removed,
  and a cascade that ends clears the keys of everything delegated, at any depth, from the registration it is for.
\<close>

theorem oauth_store_refines_map:
  assumes "reachable (\<lambda>s. \<exists>a. s = store_new a) store_step s"
  shows "store_inv s \<and> get_cached_tokens s = token_of s
     \<and> (\<forall>b \<in> set (get_domain_bindings s). \<exists>reg. get_registration (bind_registration_id b) s = Some reg
           \<and> bind_domain b \<in> set (reg_domain_bindings reg))
     \<and> (\<forall>reg s'. register_provider reg s = Inr s' \<longrightarrow> token_of s' = token_of s)
     \<and> (\<forall>toks s'. store_tokens toks s = Inr s' \<longrightarrow>
          (\<exists>reg. get_registration (tok_registration_id toks) s = Some reg
             \<and> token_of s' = (token_of s)(tok_registration_id toks \<mapsto> as_cached reg toks)))
     \<and> (\<forall>rid s'. remove_registration rid s = Inr s' \<longrightarrow> token_of s' = (token_of s)(rid := None))
     \<and> (\<forall>depth p s'. cascade_remove depth p s = Some s' \<longrightarrow>
          token_of s' = (\<lambda>q. if desc (registrations s) p q then None else token_of s q))"
proof (intro conjI allI impI)
  show inv: "store_inv s" using store.inv_reachable [OF assms] .
  then show "get_cached_tokens s = token_of s" by (rule cached_tokens_refine)
  have d: "distinct (map reg_id (registrations s))" using inv by (simp add: store_inv_def)
  show "\<forall>b \<in> set (get_domain_bindings s). \<exists>reg. get_registration (bind_registration_id b) s = Some reg
      \<and> bind_domain b \<in> set (reg_domain_bindings reg)"
    using find_unique [OF d] by (fastforce simp: get_domain_bindings_def get_registration_def)
  fix reg s' assume "register_provider reg s = Inr s'"
  then have s': "s' = s\<lparr>registrations := registrations s @ [reg]\<rparr>" and n: "\<forall>r \<in> set (registrations s). reg_id r \<noteq> reg_id reg"
    by (auto simp: register_provider_def list_ex_iff split: if_splits)
  have "\<forall>t \<in> set (store_tokens_list s). tok_registration_id t \<noteq> reg_id reg"
    using inv n unfolding store_inv_def by metis
  then have "get_tokens (reg_id reg) s = None" by (auto simp: get_tokens_def intro: find_absent)
  moreover have "get_registration rid s' = (if get_registration rid s = None \<and> reg_id reg = rid then Some reg else get_registration rid s)" for rid
    by (simp add: s' get_registration_def find_append split: option.split)
  moreover have "get_tokens rid s' = get_tokens rid s" for rid by (simp add: s' get_tokens_def)
  ultimately show "token_of s' = token_of s" by (auto simp: token_of_def fun_eq_iff split: option.split)
next
  fix toks s' assume st: "store_tokens toks s = Inr s'"
  then obtain reg where reg: "get_registration (tok_registration_id toks) s = Some reg"
    by (cases "get_registration (tok_registration_id toks) s")
       (auto simp: store_tokens_def get_registration_def find_None_iff list_ex_iff split: if_splits)
  have s': "s' = s\<lparr>store_tokens_list := filter (\<lambda>t. tok_registration_id t \<noteq> tok_registration_id toks) (store_tokens_list s) @ [toks]\<rparr>"
    using st by (auto simp: store_tokens_def split: if_splits)
  have "get_tokens rid s' = (if rid = tok_registration_id toks then Some toks else get_tokens rid s)" for rid
    by (auto simp: s' get_tokens_def find_append find_filter_key split: option.split)
  moreover have "get_registration rid s' = get_registration rid s" for rid by (simp add: s' get_registration_def)
  ultimately show "\<exists>reg. get_registration (tok_registration_id toks) s = Some reg
       \<and> token_of s' = (token_of s)(tok_registration_id toks \<mapsto> as_cached reg toks)"
    using reg by (intro exI [of _ reg]) (auto simp: token_of_def fun_eq_iff)
next
  fix rid s' assume "remove_registration rid s = Inr s'"
  then have s': "s' = s\<lparr>registrations := filter (\<lambda>r. reg_id r \<noteq> rid) (registrations s),
                  store_tokens_list := filter (\<lambda>t. tok_registration_id t \<noteq> rid) (store_tokens_list s)\<rparr>"
    by (auto simp: remove_registration_def split: if_splits)
  show "token_of s' = (token_of s)(rid := None)"
    by (auto simp: token_of_def fun_eq_iff s' get_tokens_def get_registration_def find_filter_key)
next
  fix depth p s' assume c: "cascade_remove depth p s = Some s'"
  then have "s' = cascaded p s" using cascade_Some_eq cascade_no_cycle by blast
  then show "token_of s' = (\<lambda>q. if desc (registrations s) p q then None else token_of s q)"
    using token_of_cascaded [OF store.inv_reachable [OF assms]] by simp
qed

lemma demo_store_reach: "reachable (\<lambda>s. \<exists>a. s = store_new a) store_step (store_new a)"
  by (rule reach_init) blast

theorem oauth_store_refines_map_witness:
  "\<exists>s s'. register_provider (demo_reg ''a'' None) (store_new []) = Inr s \<and> store_tokens (demo_tok ''a'') s = Inr s'
     \<and> token_of s' = (token_of s)(''a'' \<mapsto> as_cached (demo_reg ''a'' None) (demo_tok ''a''))"
proof -
  define s where "s = (store_new [])\<lparr>registrations := [demo_reg ''a'' None]\<rparr>"
  have r: "register_provider (demo_reg ''a'' None) (store_new []) = Inr s"
    by (simp add: register_provider_def store_new_def s_def)
  have t: "store_tokens (demo_tok ''a'') s = Inr (s\<lparr>store_tokens_list := [demo_tok ''a'']\<rparr>)"
    by (simp add: store_tokens_def store_new_def s_def demo_reg_def demo_tok_def)
  have g: "get_registration (tok_registration_id (demo_tok ''a'')) s = Some (demo_reg ''a'' None)"
    by (simp add: get_registration_def s_def demo_reg_def demo_tok_def)
  have "reachable (\<lambda>s. \<exists>a. s = store_new a) store_step s"
    using reach_step [OF demo_store_reach step_register [OF r]] .
  from oauth_store_refines_map [OF this, THEN conjunct2, THEN conjunct2, THEN conjunct2, THEN conjunct2, THEN conjunct1, rule_format, OF t] g
  have "token_of (s\<lparr>store_tokens_list := [demo_tok ''a'']\<rparr>) = (token_of s)(''a'' \<mapsto> as_cached (demo_reg ''a'' None) (demo_tok ''a''))"
    by (simp add: demo_tok_def)
  then show ?thesis using r t by blast
qed

subsection \<open>The file on disk\<close>

text \<open>An authenticated cipher opens what it sealed, with a tag of its own; the derived parser reads back what was written.\<close>

definition aead_ok :: "vault_lib \<Rightarrow> bool" where
  "aead_ok V \<longleftrightarrow> (\<forall>k n p c. seal V k n p = Some c \<longrightarrow> c \<noteq> [] \<and> unseal V k n c = Some p)"

lemma aead_okD: "aead_ok V \<Longrightarrow> seal V k n p = Some c \<Longrightarrow> unseal V k n c = Some p"
  "aead_ok V \<Longrightarrow> seal V k n p = Some c \<Longrightarrow> length c \<noteq> 0"
  by (auto simp: aead_ok_def)

text \<open>
  Saving is atomic and loading inverts it.  A save that succeeds leaves a file from which
  the same key reads the same store; a save that fails, wherever it fails and however much of
  the temporary file was written, leaves the store file as it was.  A file of at most twelve
  bytes is refused without being decrypted.
\<close>

theorem oauth_file_atomic:
  assumes "aead_ok V" and "store_from_json V (store_to_json V s) = Some s"
    and "oauth_save V e fs key s = (r, fs')" and "\<forall>n. sv_nonce e = Some n \<longrightarrow> length n = 12"
  shows "(r = Inr () \<longrightarrow> oauth_load V fresh (Inr (store_file fs')) key = Inr s)
     \<and> (r \<noteq> Inr () \<longrightarrow> store_file fs' = store_file fs)
     \<and> (length c \<le> 12 \<longrightarrow> (\<exists>m. oauth_load V fresh (Inr (Some c)) key = Inl (ParseError m)))"
proof -
  have "oauth_load V fresh (Inr (store_file fs')) key = Inr s" if "r = Inr ()"
    using that assms aead_okD [OF assms(1)]
    by (auto simp: oauth_save_def oauth_load_def Let_def split: if_splits option.splits)
  moreover have "store_file fs' = store_file fs" if "r \<noteq> Inr ()"
    using that assms(3) by (auto simp: oauth_save_def Let_def split: if_splits option.splits)
  ultimately show ?thesis by (auto simp: oauth_load_def)
qed

definition toy_vault :: vault_lib where
  "toy_vault = \<lparr>hkdf = (\<lambda>k c. k), seal = (\<lambda>k n p. Some (CHR ''x'' # p)), unseal = (\<lambda>k n c. Some (tl c)),
     store_to_json = (\<lambda>_. ''{}''), store_from_json = (\<lambda>_. Some (demo_store None))\<rparr>"

theorem oauth_file_atomic_witness:
  "\<exists>fs'. oauth_save toy_vault \<lparr>sv_mkdir_ok = True, sv_nonce = Some (replicate 12 CHR ''n''), sv_written = None, sv_rename_ok = True\<rparr>
       \<lparr>store_file = None, tmp_file = None\<rparr> [] (demo_store None) = (Inr (), fs')
     \<and> oauth_load toy_vault [] (Inr (store_file fs')) [] = Inr (demo_store None)"
proof -
  let ?e = "\<lparr>sv_mkdir_ok = True, sv_nonce = Some (replicate 12 CHR ''n''), sv_written = None, sv_rename_ok = True\<rparr>"
  let ?fs = "\<lparr>store_file = None, tmp_file = None\<rparr>"
  obtain fs' where s: "oauth_save toy_vault ?e ?fs [] (demo_store None) = (Inr (), fs')"
    by (simp add: oauth_save_def toy_vault_def Let_def)
  have "aead_ok toy_vault" by (simp add: aead_ok_def toy_vault_def)
  from oauth_file_atomic [OF this _ s] have "oauth_load toy_vault [] (Inr (store_file fs')) [] = Inr (demo_store None)"
    by (simp add: toy_vault_def)
  with s show ?thesis by blast
qed

end
