(* ===== verification/OAuth_Flow.thy ===== *)
theory OAuth_Flow
  imports OAuth_Store Crypto "HOL-Library.Countable"
begin

text \<open>
  The OAuth flows of the daemon, \<^verbatim>\<open>grokingclaw-daemon/src/oauth_flow.rs\<close>, and the handlers of
  \<^verbatim>\<open>grokingclaw-daemon/src/daemon.rs\<close> that run them against an agent's store.  The HTTP client is a
  function from a request to the status and body; URL encodings are parameters; the clock and
  random bytes are arguments.
\<close>

subsection \<open>Requests to a provider\<close>

record post_request =
  post_url :: string
  post_form :: "(string \<times> string) list"
  post_basic :: "(string \<times> string) option"

type_synonym http_client = "post_request \<Rightarrow> (nat \<times> string result) result"

record flow_lib =
  urlencode :: "string \<Rightarrow> string"
  b64url :: "bytes \<Rightarrow> string"

definition with_secret :: "oauth_registration \<Rightarrow> (string \<times> string) list" where
  "with_secret reg = (case reg_client_secret reg of None \<Rightarrow> [] | Some s \<Rightarrow> [(''client_secret'', s)])"

text \<open>A request whose body is read before its status is looked at.\<close>

definition post_ok :: "http_client \<Rightarrow> string \<Rightarrow> post_request \<Rightarrow> string result" where
  "post_ok C what rq =
     bind_res (C rq) (\<lambda>(status, text).
     bind_res text (\<lambda>body.
     if is_success status then Inr body else Inl (Rejected what)))"

subsection \<open>Token responses\<close>

record token_response =
  tr_access_token :: string
  tr_token_type :: "string option"
  tr_expires_in :: "int option"
  tr_refresh_token :: "string option"
  tr_scope :: "string option"

definition token_response_from_json :: "json \<Rightarrow> token_response option" where
  "token_response_from_json v =
     (case (case v of
              JObj kvs \<Rightarrow> those [struct_field kvs ''access_token'', opt_field kvs ''token_type'', opt_field kvs ''expires_in'',
                              opt_field kvs ''refresh_token'', opt_field kvs ''scope'']
            | JArr vs \<Rightarrow> Some vs
            | _ \<Rightarrow> None) of
        Some [JStr a, t, e, r, s] \<Rightarrow>
          (case (opt_str t, opt_i64 e, opt_str r, opt_str s) of
             (Some tt, Some ei, Some rt, Some sc) \<Rightarrow>
               Some \<lparr>tr_access_token = a, tr_token_type = tt, tr_expires_in = ei, tr_refresh_token = rt, tr_scope = sc\<rparr>
           | _ \<Rightarrow> None)
      | _ \<Rightarrow> None)"

definition parse_token_response :: "ext \<Rightarrow> datetime \<Rightarrow> datetime \<Rightarrow> string \<Rightarrow> string \<Rightarrow> stored_oauth_tokens result" where
  "parse_token_response E now now' body registration_id =
     bind_res (of_option (ParseError ''Failed to parse token response'')
                (Option.bind (json_parse E body) token_response_from_json)) (\<lambda>resp.
     bind_res (case tr_expires_in resp of
                 Some secs \<Rightarrow> bind_res (duration_of secs 1) (plus_duration E now)
               | None \<Rightarrow> bind_res (duration_of 1 3600) (plus_duration E now)) (\<lambda>expires_at.
     Inr \<lparr>tok_registration_id = registration_id, tok_access_token = tr_access_token resp,
          tok_refresh_token = tr_refresh_token resp, tok_expires_at = expires_at,
          tok_token_type = (case tr_token_type resp of Some t \<Rightarrow> t | None \<Rightarrow> ''Bearer''),
          tok_granted_scopes = (case tr_scope resp of Some s \<Rightarrow> split_whitespace s | None \<Rightarrow> []),
          tok_last_refreshed = now'\<rparr>))"

subsection \<open>The grants\<close>

definition generate_code_verifier :: "flow_lib \<Rightarrow> bytes \<Rightarrow> string" where
  "generate_code_verifier F random = b64url F random"

definition compute_code_challenge :: "ext \<Rightarrow> flow_lib \<Rightarrow> string \<Rightarrow> string" where
  "compute_code_challenge E F verifier = b64url F (sha256 E verifier)"

record auth_code_start =
  acs_authorization_url :: string
  acs_code_verifier :: string
  acs_state :: string
  acs_redirect_uri :: string

definition start_auth_code_flow :: "ext \<Rightarrow> flow_lib \<Rightarrow> bytes \<Rightarrow> bytes \<Rightarrow> oauth_registration \<Rightarrow> string \<Rightarrow> auth_code_start" where
  "start_auth_code_flow E F random state_bytes reg redirect_uri =
     (let code_verifier = generate_code_verifier F random;
          code_challenge = compute_code_challenge E F code_verifier;
          state = b64url F state_bytes;
          scopes = join '' '' (reg_scopes reg)
      in \<lparr>acs_authorization_url =
            reg_authorization_url reg @ ''?response_type=code&client_id='' @ urlencode F (reg_client_id reg)
            @ ''&redirect_uri='' @ urlencode F redirect_uri @ ''&scope='' @ urlencode F scopes
            @ ''&state='' @ urlencode F state @ ''&code_challenge='' @ urlencode F code_challenge
            @ ''&code_challenge_method=S256'',
          acs_code_verifier = code_verifier, acs_state = state, acs_redirect_uri = redirect_uri\<rparr>)"

definition exchange_auth_code ::
    "ext \<Rightarrow> http_client \<Rightarrow> datetime \<Rightarrow> datetime \<Rightarrow> oauth_registration \<Rightarrow> string \<Rightarrow> string \<Rightarrow> string \<Rightarrow> stored_oauth_tokens result" where
  "exchange_auth_code E C now now' reg code redirect_uri code_verifier =
     bind_res (post_ok C ''Token exchange failed''
       \<lparr>post_url = reg_token_url reg,
        post_form = [(''grant_type'', ''authorization_code''), (''code'', code), (''redirect_uri'', redirect_uri),
                     (''client_id'', reg_client_id reg), (''code_verifier'', code_verifier)] @ with_secret reg,
        post_basic = None\<rparr>) (\<lambda>body.
     parse_token_response E now now' body (reg_id reg))"

record device_auth_pending =
  dap_device_code :: string
  dap_user_code :: string
  dap_verification_uri :: string
  dap_verification_uri_complete :: "string option"
  dap_expires_in :: nat
  dap_interval :: nat

definition device_auth_from_json :: "json \<Rightarrow> device_auth_pending option" where
  "device_auth_from_json v =
     (case (case v of
              JObj kvs \<Rightarrow> those [struct_field kvs ''device_code'', struct_field kvs ''user_code'',
                              struct_field kvs ''verification_uri'', opt_field kvs ''verification_uri_complete'',
                              struct_field kvs ''expires_in'', struct_field kvs ''interval'']
            | JArr vs \<Rightarrow> Some vs
            | _ \<Rightarrow> None) of
        Some [JStr d, JStr u, JStr vu, c, e, i] \<Rightarrow>
          (case (opt_str c, as_u64 e, as_u64 i) of
             (Some vc, Some ei, Some iv) \<Rightarrow>
               Some \<lparr>dap_device_code = d, dap_user_code = u, dap_verification_uri = vu,
                     dap_verification_uri_complete = vc, dap_expires_in = ei, dap_interval = iv\<rparr>
           | _ \<Rightarrow> None)
      | _ \<Rightarrow> None)"

definition start_device_auth :: "ext \<Rightarrow> http_client \<Rightarrow> oauth_registration \<Rightarrow> device_auth_pending result" where
  "start_device_auth E C reg =
     bind_res (of_option (NotFound ''device_authorization_url'') (reg_device_authorization_url reg)) (\<lambda>device_url.
     bind_res (post_ok C ''Device authorization failed''
       \<lparr>post_url = device_url,
        post_form = [(''client_id'', reg_client_id reg), (''scope'', join '' '' (reg_scopes reg))],
        post_basic = None\<rparr>) (\<lambda>body.
     of_option (ParseError ''Failed to parse device auth response'') (Option.bind (json_parse E body) device_auth_from_json)))"

text \<open>Polling looks at an error member whatever the status is.\<close>

definition poll_device_auth ::
    "ext \<Rightarrow> http_client \<Rightarrow> datetime \<Rightarrow> datetime \<Rightarrow> oauth_registration \<Rightarrow> string \<Rightarrow> stored_oauth_tokens option result" where
  "poll_device_auth E C now now' reg device_code =
     bind_res (C \<lparr>post_url = reg_token_url reg,
                  post_form = [(''grant_type'', ''urn:ietf:params:oauth:grant-type:device_code''), (''device_code'', device_code),
                               (''client_id'', reg_client_id reg)] @ with_secret reg,
                  post_basic = None\<rparr>) (\<lambda>(status, text).
     bind_res text (\<lambda>body.
     case Option.bind (json_parse E body) (\<lambda>v. get_str v ''error'') of
       Some err \<Rightarrow>
         (if err = ''authorization_pending'' \<or> err = ''slow_down'' then Inr None
          else if err = ''expired_token'' then Inl (Rejected ''Device code expired'')
          else if err = ''access_denied'' then Inl (Rejected ''User denied authorization'')
          else Inl (Rejected (''Device auth error: '' @ err @ '' - ''
                 @ (case Option.bind (json_parse E body) (\<lambda>v. get_str v ''error_description'') of Some d \<Rightarrow> d | None \<Rightarrow> ''unknown''))))
     | None \<Rightarrow> bind_res (parse_token_response E now now' body (reg_id reg)) (\<lambda>toks. Inr (Some toks))))"

definition client_credentials :: "ext \<Rightarrow> http_client \<Rightarrow> datetime \<Rightarrow> datetime \<Rightarrow> oauth_registration \<Rightarrow> stored_oauth_tokens result" where
  "client_credentials E C now now' reg =
     bind_res (of_option (NotFound ''client_secret'') (reg_client_secret reg)) (\<lambda>secret.
     bind_res (post_ok C ''Client credentials failed''
       \<lparr>post_url = reg_token_url reg,
        post_form = [(''grant_type'', ''client_credentials''), (''scope'', join '' '' (reg_scopes reg))],
        post_basic = Some (reg_client_id reg, secret)\<rparr>) (\<lambda>body.
     parse_token_response E now now' body (reg_id reg)))"

definition flow_refresh_token ::
    "ext \<Rightarrow> http_client \<Rightarrow> datetime \<Rightarrow> datetime \<Rightarrow> oauth_registration \<Rightarrow> string \<Rightarrow> stored_oauth_tokens result" where
  "flow_refresh_token E C now now' reg refresh_token_value =
     bind_res (post_ok C ''Token refresh failed''
       \<lparr>post_url = reg_token_url reg,
        post_form = [(''grant_type'', ''refresh_token''), (''refresh_token'', refresh_token_value),
                     (''client_id'', reg_client_id reg)] @ with_secret reg,
        post_basic = None\<rparr>) (\<lambda>body.
     bind_res (parse_token_response E now now' body (reg_id reg)) (\<lambda>toks.
     Inr (if tok_refresh_token toks = None then toks\<lparr>tok_refresh_token := Some refresh_token_value\<rparr> else toks)))"

definition clawid_token_exchange ::
    "ext \<Rightarrow> http_client \<Rightarrow> datetime \<Rightarrow> datetime \<Rightarrow> oauth_registration \<Rightarrow> string \<Rightarrow> string \<Rightarrow> string option \<Rightarrow> stored_oauth_tokens result" where
  "clawid_token_exchange E C now now' reg agent_card_json signed_assertion audience =
     bind_res (post_ok C ''Token exchange failed''
       \<lparr>post_url = reg_token_url reg,
        post_form = [(''grant_type'', ''urn:ietf:params:oauth:grant-type:token-exchange''), (''subject_token'', signed_assertion),
                     (''subject_token_type'', ''urn:grokingclaw:agent-identity''),
                     (''requested_token_type'', ''urn:ietf:params:oauth:token-type:access_token''),
                     (''scope'', join '' '' (reg_scopes reg)), (''client_id'', reg_client_id reg)]
                    @ (case audience of None \<Rightarrow> [] | Some aud \<Rightarrow> [(''audience'', aud)])
                    @ [(''agent_card'', agent_card_json)] @ with_secret reg,
        post_basic = None\<rparr>) (\<lambda>body.
     parse_token_response E now now' body (reg_id reg))"

text \<open>Revocation ignores the provider's answer, and its failure is only logged by the caller.\<close>

definition revoke_token_request :: "oauth_registration \<Rightarrow> string \<Rightarrow> string \<Rightarrow> post_request option" where
  "revoke_token_request reg token token_type_hint =
     map_option (\<lambda>url. \<lparr>post_url = url,
        post_form = [(''token'', token), (''token_type_hint'', token_type_hint), (''client_id'', reg_client_id reg)] @ with_secret reg,
        post_basic = None\<rparr>) (reg_revocation_url reg)"

definition flow_revoke_token :: "http_client \<Rightarrow> oauth_registration \<Rightarrow> string \<Rightarrow> string \<Rightarrow> unit result" where
  "flow_revoke_token C reg token token_type_hint =
     (case revoke_token_request reg token token_type_hint of
        None \<Rightarrow> Inr ()
      | Some rq \<Rightarrow> bind_res (C rq) (\<lambda>_. Inr ()))"

subsection \<open>The daemon's handlers\<close>

text \<open>What an agent's directory holds of this: the key file, the store and the card.\<close>

record agent_home =
  home_pem :: "string option result"
  home_store :: store_files
  home_card :: "string result"

record oauth_env =
  oe_client :: http_client
  oe_now :: datetime
  oe_now' :: datetime
  oe_fresh :: uuid
  oe_random :: bytes
  oe_state :: bytes
  oe_save :: save_env
  oe_stack :: nat

definition load_oauth_store :: "ext \<Rightarrow> vault_lib \<Rightarrow> uuid \<Rightarrow> agent_home \<Rightarrow> (oauth_store \<times> bytes) result" where
  "load_oauth_store E V fresh h =
     bind_res (home_pem h) (\<lambda>pem_file.
     bind_res (of_option (NotFound ''identity'') pem_file) (\<lambda>pem.
     bind_res (decode_private_key_pem E pem) (\<lambda>signing_key.
     bind_res (oauth_load V fresh (Inr (store_file (home_store h))) signing_key) (\<lambda>s.
     Inr (s, signing_key)))))"

definition save_oauth_store :: "vault_lib \<Rightarrow> save_env \<Rightarrow> agent_home \<Rightarrow> oauth_store \<Rightarrow> bytes \<Rightarrow> unit result \<times> agent_home" where
  "save_oauth_store V e h s signing_key =
     (let (r, fs) = oauth_save V e (home_store h) signing_key s in (r, h\<lparr>home_store := fs\<rparr>))"

text \<open>Storing a result and answering, or failing with the file as the save left it.\<close>

definition finish :: "vault_lib \<Rightarrow> oauth_env \<Rightarrow> agent_home \<Rightarrow> bytes \<Rightarrow> (oauth_store \<times> json) result \<Rightarrow> json result \<times> agent_home" where
  "finish V e h signing_key r =
     (case r of
        Inl err \<Rightarrow> (Inl err, h)
      | Inr (s, answer) \<Rightarrow>
          (case save_oauth_store V (oe_save e) h s signing_key of
             (Inl err, h') \<Rightarrow> (Inl err, h')
           | (Inr _, h') \<Rightarrow> (Inr answer, h')))"

definition str_or :: "string \<Rightarrow> json \<Rightarrow> string \<Rightarrow> string" where
  "str_or d params k = (case get_str params k of Some s \<Rightarrow> s | None \<Rightarrow> d)"

definition strings_of :: "json \<Rightarrow> string \<Rightarrow> string list option" where
  "strings_of params k = map_option (List.map_filter as_str) (Option.bind (json_get params k) as_array)"

definition registration_of_params :: "datetime \<Rightarrow> uuid \<Rightarrow> json \<Rightarrow> oauth_registration" where
  "registration_of_params now fresh params =
     \<lparr>reg_id = str_or fresh params ''registration_id'', reg_provider = str_or [] params ''provider'',
      reg_client_id = str_or [] params ''client_id'', reg_client_secret = get_str params ''client_secret'',
      reg_authorization_url = str_or [] params ''authorization_url'', reg_token_url = str_or [] params ''token_url'',
      reg_revocation_url = get_str params ''revocation_url'',
      reg_device_authorization_url = get_str params ''device_authorization_url'',
      reg_scopes = (case strings_of params ''scopes'' of Some xs \<Rightarrow> xs | None \<Rightarrow> []),
      reg_domain_bindings = (case strings_of params ''domain_bindings'' of Some xs \<Rightarrow> xs | None \<Rightarrow> []),
      reg_grant_type = str_or ''authorization_code'' params ''grant_type'', reg_created_at = now,
      reg_parent_registration_id = get_str params ''parent_registration_id'',
      reg_max_scopes = strings_of params ''max_scopes''\<rparr>"

definition oauth_register :: "ext \<Rightarrow> vault_lib \<Rightarrow> oauth_env \<Rightarrow> json \<Rightarrow> agent_home \<Rightarrow> json result \<times> agent_home" where
  "oauth_register E V e params h =
     (case load_oauth_store E V (oe_fresh e) h of
        Inl err \<Rightarrow> (Inl err, h)
      | Inr (s, signing_key) \<Rightarrow>
          (let reg = registration_of_params (oe_now e) (oe_fresh e) params
           in finish V e h signing_key
                (bind_res (register_provider reg s) (\<lambda>s'.
                 Inr (s', json_object [(''ok'', JBool True), (''registration_id'', JStr (reg_id reg))])))))"

definition oauth_callback :: "ext \<Rightarrow> vault_lib \<Rightarrow> oauth_env \<Rightarrow> string \<Rightarrow> string \<Rightarrow> string \<Rightarrow> string \<Rightarrow> agent_home
    \<Rightarrow> json result \<times> agent_home" where
  "oauth_callback E V e rid code code_verifier redirect_uri h =
     (case load_oauth_store E V (oe_fresh e) h of
        Inl err \<Rightarrow> (Inl err, h)
      | Inr (s, signing_key) \<Rightarrow>
          finish V e h signing_key
            (bind_res (of_option (NotFound rid) (get_registration rid s)) (\<lambda>reg.
             bind_res (exchange_auth_code E (oe_client e) (oe_now e) (oe_now' e) reg code redirect_uri code_verifier) (\<lambda>toks.
             bind_res (store_tokens toks s) (\<lambda>s'.
             Inr (s', json_object [(''ok'', JBool True), (''status'', JStr ''tokens_stored'')]))))))"

definition cached_value :: "cached_oauth_token \<Rightarrow> json" where
  "cached_value t = json_object [(''access_token'', JStr (ct_access_token t)), (''expires_at'', JNum (ct_expires_at t)),
     (''scopes'', JArr (map JStr (ct_scopes t))), (''provider'', JStr (ct_provider t)),
     (''registration_id'', JStr (ct_registration_id t))]"

definition oauth_refresh :: "ext \<Rightarrow> vault_lib \<Rightarrow> oauth_env \<Rightarrow> string \<Rightarrow> agent_home \<Rightarrow> json result \<times> agent_home" where
  "oauth_refresh E V e rid h =
     (case load_oauth_store E V (oe_fresh e) h of
        Inl err \<Rightarrow> (Inl err, h)
      | Inr (s, signing_key) \<Rightarrow>
          finish V e h signing_key
            (bind_res (of_option (NotFound rid) (get_registration rid s)) (\<lambda>reg.
             bind_res (of_option (NotFound ''tokens'') (get_tokens rid s)) (\<lambda>existing.
             bind_res (of_option (NotFound ''refresh token'') (tok_refresh_token existing)) (\<lambda>refresh_token_value.
             bind_res (flow_refresh_token E (oe_client e) (oe_now e) (oe_now' e) reg refresh_token_value) (\<lambda>new_tokens.
             bind_res (store_tokens new_tokens s) (\<lambda>s'.
             Inr (s', cached_value
                        \<lparr>ct_access_token = tok_access_token new_tokens, ct_expires_at = timestamp (tok_expires_at new_tokens),
                         ct_scopes = tok_granted_scopes new_tokens, ct_provider = reg_provider reg,
                         ct_registration_id = rid\<rparr>))))))))"

text \<open>A cascade that does not return exhausts the stack; the requests to the provider change nothing here.\<close>

definition oauth_revoke :: "ext \<Rightarrow> vault_lib \<Rightarrow> oauth_env \<Rightarrow> string \<Rightarrow> agent_home \<Rightarrow> json result \<times> agent_home" where
  "oauth_revoke E V e rid h =
     (case load_oauth_store E V (oe_fresh e) h of
        Inl err \<Rightarrow> (Inl err, h)
      | Inr (s, signing_key) \<Rightarrow>
          finish V e h signing_key
            (bind_res (of_option (NotFound rid) (get_registration rid s)) (\<lambda>reg.
             bind_res (of_option (Panic ''stack overflow'') (cascade_remove (oe_stack e) rid s)) (\<lambda>s1.
             bind_res (remove_registration rid s1) (\<lambda>s2.
             Inr (s2, json_object [(''ok'', JBool True), (''revoked'', JStr rid)]))))))"

definition revocation_requests :: "oauth_registration \<Rightarrow> stored_oauth_tokens option \<Rightarrow> post_request list" where
  "revocation_requests reg toks =
     (case toks of
        None \<Rightarrow> []
      | Some t \<Rightarrow>
          List.map_filter (\<lambda>(tok, hint). revoke_token_request reg tok hint)
            ((case tok_refresh_token t of None \<Rightarrow> [] | Some rt \<Rightarrow> [(rt, ''refresh_token'')])
             @ [(tok_access_token t, ''access_token'')]))"

definition oauth_authorize :: "ext \<Rightarrow> vault_lib \<Rightarrow> flow_lib \<Rightarrow> oauth_env \<Rightarrow> nat \<Rightarrow> string \<Rightarrow> agent_home
    \<Rightarrow> (json + auth_code_start + device_auth_pending) result \<times> agent_home" where
  "oauth_authorize E V F e callback_port rid h =
     (case bind_res (load_oauth_store E V (oe_fresh e) h) (\<lambda>(s, signing_key).
           bind_res (of_option (NotFound rid) (get_registration rid s)) (\<lambda>reg. Inr (reg, s, signing_key))) of
        Inl err \<Rightarrow> (Inl err, h)
      | Inr (reg, s, signing_key) \<Rightarrow>
          if reg_grant_type reg = ''device_code''
          then (bind_res (start_device_auth E (oe_client e) reg) (\<lambda>p. Inr (Inr (Inr p))), h)
          else if reg_grant_type reg = ''client_credentials''
          then
            (case finish V e h signing_key
                    (bind_res (client_credentials E (oe_client e) (oe_now e) (oe_now' e) reg) (\<lambda>toks.
                     bind_res (store_tokens toks s) (\<lambda>s'.
                     Inr (s', json_object [(''ok'', JBool True), (''status'', JStr ''tokens_acquired'')])))) of
               (r, h') \<Rightarrow> (bind_res r (\<lambda>v. Inr (Inl v)), h'))
          else if reg_grant_type reg = ''authorization_code''
          then (Inr (Inr (Inl (start_auth_code_flow E F (oe_random e) (oe_state e) reg
                  (''http://localhost:'' @ nat_str callback_port @ ''/oauth/callback'')))), h)
          else (Inl (Rejected (''Unsupported grant type: '' @ reg_grant_type reg)), h))"

definition oauth_list :: "ext \<Rightarrow> vault_lib \<Rightarrow> oauth_env \<Rightarrow> agent_home \<Rightarrow> json result" where
  "oauth_list E V e h =
     bind_res (load_oauth_store E V (oe_fresh e) h) (\<lambda>(s, _).
     Inr (json_object [(''registrations'', JArr (map (\<lambda>r.
       (let toks = get_tokens (reg_id r) s
        in json_object [(''id'', JStr (reg_id r)), (''provider'', JStr (reg_provider r)), (''grant_type'', JStr (reg_grant_type r)),
             (''scopes'', JArr (map JStr (reg_scopes r))), (''domain_bindings'', JArr (map JStr (reg_domain_bindings r))),
             (''has_tokens'', JBool (toks \<noteq> None)),
             (''token_status'', JStr (case toks of Some t \<Rightarrow> if tok_expires_at t < oe_now e then ''expired'' else ''valid''
                                            | None \<Rightarrow> ''missing''))])) (registrations s)))]))"

definition oauth_status :: "ext \<Rightarrow> vault_lib \<Rightarrow> oauth_env \<Rightarrow> string option \<Rightarrow> agent_home \<Rightarrow> json result" where
  "oauth_status E V e registration_id h =
     (case registration_id of
        None \<Rightarrow> oauth_list E V e h
      | Some rid \<Rightarrow>
          bind_res (load_oauth_store E V (oe_fresh e) h) (\<lambda>(s, _).
          bind_res (of_option (NotFound rid) (get_registration rid s)) (\<lambda>reg.
          (let toks = get_tokens rid s
           in Inr (json_object [(''registration_id'', JStr rid), (''provider'', JStr (reg_provider reg)),
                (''status'', JStr (case toks of Some t \<Rightarrow> if oe_now e < tok_expires_at t then ''valid'' else ''expired''
                                         | None \<Rightarrow> ''missing'')),
                (''expires_at'', case toks of Some t \<Rightarrow> JStr (rfc3339 E (tok_expires_at t)) | None \<Rightarrow> JNull)])))))"

definition oauth_exchange :: "ext \<Rightarrow> vault_lib \<Rightarrow> oauth_env \<Rightarrow> string \<Rightarrow> agent_home \<Rightarrow> json result \<times> agent_home" where
  "oauth_exchange E V e rid h =
     (case load_oauth_store E V (oe_fresh e) h of
        Inl err \<Rightarrow> (Inl err, h)
      | Inr (s, signing_key) \<Rightarrow>
          finish V e h signing_key
            (bind_res (of_option (NotFound rid) (get_registration rid s)) (\<lambda>reg.
             bind_res (home_card h) (\<lambda>card_json.
             bind_res (clawid_token_exchange E (oe_client e) (oe_now e) (oe_now' e) reg card_json
                         (sign E signing_key card_json) None) (\<lambda>toks.
             bind_res (store_tokens toks s) (\<lambda>s'.
             Inr (s', json_object [(''ok'', JBool True), (''status'', JStr ''token_exchanged'')])))))))"

subsection \<open>Saving and reading back\<close>

text \<open>The directory of an agent whose key works, and a system on which saves succeed.\<close>

definition home_ok :: "ext \<Rightarrow> agent_home \<Rightarrow> bytes \<Rightarrow> bool" where
  "home_ok E h key \<longleftrightarrow> (\<exists>pem. home_pem h = Inr (Some pem) \<and> decode_private_key_pem E pem = Inr key)"

definition holds :: "vault_lib \<Rightarrow> agent_home \<Rightarrow> bytes \<Rightarrow> oauth_store \<Rightarrow> bool" where
  "holds V h key s \<longleftrightarrow> (\<forall>fresh. oauth_load V fresh (Inr (store_file (home_store h))) key = Inr s)"

definition store_serde_ok :: "vault_lib \<Rightarrow> bool" where
  "store_serde_ok V \<longleftrightarrow> (\<forall>s. store_from_json V (store_to_json V s) = Some s)"

definition nonce_ok :: "oauth_env \<Rightarrow> bool" where
  "nonce_ok e \<longleftrightarrow> (\<forall>n. sv_nonce (oe_save e) = Some n \<longrightarrow> length n = 12)"

lemma load_store: "home_ok E h key \<Longrightarrow> holds V h key s \<Longrightarrow> load_oauth_store E V fresh h = Inr (s, key)"
  by (auto simp: load_oauth_store_def home_ok_def holds_def)

lemma save_load:
  assumes "aead_ok V" "store_from_json V (store_to_json V s) = Some s" "oauth_save V e fs key s = (Inr (), fs')"
    "\<forall>n. sv_nonce e = Some n \<longrightarrow> length n = 12"
  shows "oauth_load V fresh (Inr (store_file fs')) key = Inr s"
  using assms aead_okD [OF assms(1)]
  by (auto simp: oauth_save_def oauth_load_def Let_def split: if_splits option.splits)

lemma finish_ok:
  assumes "aead_ok V" "store_serde_ok V" "nonce_ok e" "finish V e h key (Inr (s, answer)) = (Inr v, h')"
  shows "v = answer" "holds V h' key s" "home_pem h' = home_pem h" "home_card h' = home_card h"
proof -
  obtain fs where sv: "oauth_save V (oe_save e) (home_store h) key s = (Inr (), fs)" "h' = h\<lparr>home_store := fs\<rparr>" "v = answer"
    using assms(4) by (auto simp: finish_def save_oauth_store_def split: prod.splits sum.splits)
  then show "v = answer" "home_pem h' = home_pem h" "home_card h' = home_card h" by simp_all
  show "holds V h' key s"
    using save_load [OF assms(1) _ sv(1)] assms(2,3) sv(2) by (simp add: holds_def store_serde_ok_def nonce_ok_def)
qed

lemma finish_Inl [simp]: "finish V e h key (Inl err) = (Inl err, h)"
  by (simp add: finish_def)

lemma finish_fail:
  assumes "finish V e h key r = (Inl err, h')"
  shows "store_file (home_store h') = store_file (home_store h)"
  using assms by (auto simp: finish_def save_oauth_store_def oauth_save_def Let_def split: sum.splits prod.splits option.splits if_splits)

lemma finish_Inr: "finish V e h key r = (Inr v, h') \<Longrightarrow> \<exists>s. r = Inr (s, v)"
  by (auto simp: finish_def split: sum.splits prod.splits)

subsection \<open>Revocation\<close>

lemma revoke_Inr:
  assumes "home_ok E h key" "holds V h key s" "oauth_revoke E V e rid h = (Inr v, h')"
  shows "\<exists>reg s2. get_registration rid s = Some reg \<and> no_cycle (registrations s) rid
     \<and> remove_registration rid (cascaded rid s) = Inr s2
     \<and> finish V e h key (Inr (s2, v)) = (Inr v, h')"
proof -
  let ?r = "bind_res (of_option (NotFound rid) (get_registration rid s)) (\<lambda>reg.
             bind_res (of_option (Panic ''stack overflow'') (cascade_remove (oe_stack e) rid s)) (\<lambda>s1.
             bind_res (remove_registration rid s1) (\<lambda>s2.
             Inr (s2, json_object [(''ok'', JBool True), (''revoked'', JStr rid)]))))"
  have f: "finish V e h key ?r = (Inr v, h')" using assms(3) load_store [OF assms(1,2)] by (simp add: oauth_revoke_def)
  obtain s2 where r: "?r = Inr (s2, v)" using finish_Inr [OF f] by blast
  then obtain reg s1 where "get_registration rid s = Some reg" and c: "cascade_remove (oe_stack e) rid s = Some s1"
    and "remove_registration rid s1 = Inr s2" by (auto simp: bind_res_Inr_iff)
  moreover have "no_cycle (registrations s) rid" using cascade_no_cycle [OF c] .
  moreover have "s1 = cascaded rid s" using cascade_Some_eq [OF c] calculation(4) by blast
  ultimately show ?thesis using f unfolding r by blast
qed

lemma revoked_store:
  assumes inv: "store_inv s" and rm: "remove_registration rid (cascaded rid s) = Inr s2"
  defines "revoked \<equiv> \<lambda>q. q = rid \<or> desc (registrations s) rid q"
  shows "s2 = s\<lparr>registrations := filter (\<lambda>r. \<not> revoked (reg_id r)) (registrations s),
                store_tokens_list := filter (\<lambda>t. \<not> revoked (tok_registration_id t)) (store_tokens_list s)\<rparr>"
    and "token_of s2 q = (if revoked q then None else token_of s q)"
    and "get_registration q s2 = (if revoked q then None else get_registration q s)"
proof -
  have "prune (registrations s) (insert rid (below (registrations s) rid))
      = filter (\<lambda>r. \<not> desc (registrations s) rid (reg_id r)) (registrations s)"
    using prune_below inv by (simp add: store_inv_def)
  then show s2: "s2 = s\<lparr>registrations := filter (\<lambda>r. \<not> revoked (reg_id r)) (registrations s),
                store_tokens_list := filter (\<lambda>t. \<not> revoked (tok_registration_id t)) (store_tokens_list s)\<rparr>"
    using rm by (auto simp: remove_registration_def cascaded_def below_def revoked_def conj_commute split: if_splits)
  then show g: "get_registration q s2 = (if revoked q then None else get_registration q s)"
    by (simp add: get_registration_def find_other)
  have "get_tokens q s2 = (if revoked q then None else get_tokens q s)" using s2 by (simp add: get_tokens_def find_other)
  with g show "token_of s2 q = (if revoked q then None else token_of s q)" by (simp add: token_of_def)
qed

text \<open>
  C35: what revoking a registration achieves.  When the daemon answers that a registration is
  revoked, the store on disk is the old one without that registration, everything delegated from it at any depth, and their
  tokens, and nothing else is changed in it:
  a proxy started from that store has no token of a revoked registration and no binding that
  names one, and keeps every other token.
\<close>

theorem oauth_revoke_complete:
  assumes "aead_ok V" "store_serde_ok V" "nonce_ok e" "home_ok E h key" "holds V h key s" "store_inv s"
    and "oauth_revoke E V e rid h = (Inr v, h')"
  shows "\<exists>s'. holds V h' key s' \<and> store_inv s'
     \<and> s' = s\<lparr>registrations := filter (\<lambda>r. \<not> (reg_id r = rid \<or> desc (registrations s) rid (reg_id r))) (registrations s),
               store_tokens_list := filter (\<lambda>t. \<not> (tok_registration_id t = rid \<or> desc (registrations s) rid (tok_registration_id t)))
                                      (store_tokens_list s)\<rparr>
     \<and> (\<forall>q. get_cached_tokens s' q =
            (if q = rid \<or> desc (registrations s) rid q then None else get_cached_tokens s q))
     \<and> (\<forall>b \<in> set (get_domain_bindings s'). bind_registration_id b \<noteq> rid \<and> \<not> desc (registrations s) rid (bind_registration_id b))"
proof -
  obtain s2 where rm: "remove_registration rid (cascaded rid s) = Inr s2" and f: "finish V e h key (Inr (s2, v)) = (Inr v, h')"
    using revoke_Inr [OF assms(4,5,7)] by blast
  note left = revoked_store [OF assms(6) rm]
  have inv: "store_inv s2" using remove_inv [OF cascaded_inv [OF assms(6)] rm] .
  have "\<exists>reg. get_registration (bind_registration_id b) s2 = Some reg" if "b \<in> set (get_domain_bindings s2)" for b
    using that find_unique [of reg_id "registrations s2"] inv
    by (fastforce simp: get_domain_bindings_def get_registration_def store_inv_def)
  then have "bind_registration_id b \<noteq> rid \<and> \<not> desc (registrations s) rid (bind_registration_id b)"
    if "b \<in> set (get_domain_bindings s2)" for b
    using that left(3) [of "bind_registration_id b"] by (metis option.distinct(1))
  moreover have "get_cached_tokens s2 q = (if q = rid \<or> desc (registrations s) rid q then None else get_cached_tokens s q)" for q
    using left(2) cached_tokens_refine [OF inv] cached_tokens_refine [OF assms(6)] by simp
  ultimately show ?thesis using finish_ok(2) [OF assms(1-3) f] inv left(1) by blast
qed

text \<open>An instance of the parameters, for the witnesses: stores are countable, so they have a text.\<close>

instance oauth_registration_ext :: (countable) countable
proof (rule countable_classI [of "\<lambda>r. to_nat (reg_id r, reg_provider r, reg_client_id r, reg_client_secret r,
    reg_authorization_url r, reg_token_url r, reg_revocation_url r, reg_device_authorization_url r, reg_scopes r,
    reg_domain_bindings r, reg_grant_type r, reg_created_at r, reg_parent_registration_id r, reg_max_scopes r,
    oauth_registration.more r)"])
qed (simp add: oauth_registration.equality)

instance stored_oauth_tokens_ext :: (countable) countable
proof (rule countable_classI [of "\<lambda>t. to_nat (tok_registration_id t, tok_access_token t, tok_refresh_token t, tok_expires_at t,
    tok_token_type t, tok_granted_scopes t, tok_last_refreshed t, stored_oauth_tokens.more t)"])
qed (simp add: stored_oauth_tokens.equality)

instance oauth_store_ext :: (countable) countable
proof (rule countable_classI [of "\<lambda>s. to_nat (store_version s, store_agent_id s, registrations s, store_tokens_list s,
    oauth_store.more s)"])
qed (simp add: oauth_store.equality)

definition nat_vault :: vault_lib where
  "nat_vault = \<lparr>hkdf = (\<lambda>k c. k), seal = (\<lambda>k n p. Some (CHR ''x'' # p)), unseal = (\<lambda>k n c. Some (tl c)),
     store_to_json = (\<lambda>s. nat_str (to_nat s)), store_from_json = (\<lambda>b. map_option from_nat (parse_nat b))\<rparr>"

lemma nat_vault_ok: "aead_ok nat_vault" "store_serde_ok nat_vault"
  by (simp_all add: aead_ok_def store_serde_ok_def nat_vault_def)

definition demo_env :: "http_client \<Rightarrow> oauth_env" where
  "demo_env C = \<lparr>oe_client = C, oe_now = 0, oe_now' = 0, oe_fresh = [], oe_random = [], oe_state = [],
     oe_save = \<lparr>sv_mkdir_ok = True, sv_nonce = Some (replicate 12 CHR ''n''), sv_written = None, sv_rename_ok = True\<rparr>,
     oe_stack = 3\<rparr>"

definition demo_home :: "oauth_store \<Rightarrow> agent_home" where
  "demo_home s = \<lparr>home_pem = Inr (Some (encode_private_key_pem ref_ext (replicate 32 CHR ''k''))),
     home_store = \<lparr>store_file = Some (replicate 12 CHR ''n'' @ CHR ''x'' # nat_str (to_nat s)), tmp_file = None\<rparr>,
     home_card = Inr []\<rparr>"

lemma demo_home_ok: "home_ok ref_ext (demo_home s) (replicate 32 CHR ''k'')" "holds nat_vault (demo_home s) k s"
  "nonce_ok (demo_env C)"
proof -
  show "holds nat_vault (demo_home s) k s"
    by (simp add: holds_def demo_home_def oauth_load_def nat_vault_def)
  show "nonce_ok (demo_env C)" by (simp add: nonce_ok_def demo_env_def)
  show "home_ok ref_ext (demo_home s) (replicate 32 CHR ''k'')"
    using decode_ed_section [OF ref_b64_ok, of "replicate 32 CHR ''k''" "[nl]"]
    by (simp add: home_ok_def demo_home_def encode_private_key_pem_def)
qed

lemma demo_store_inv: "store_inv (demo_store p)"
  by (simp add: store_inv_def demo_store_simps)

lemma finish_demo: "\<exists>h'. finish nat_vault (demo_env C) (demo_home s) key (Inr (s2, v)) = (Inr v, h')"
  by (simp add: finish_def save_oauth_store_def oauth_save_def nat_vault_def demo_env_def)

theorem oauth_revoke_complete_witness:
  "\<exists>v h' s'. oauth_revoke ref_ext nat_vault (demo_env (\<lambda>_. Inl (IoError []))) ''a'' (demo_home (demo_store None)) = (Inr v, h')
     \<and> holds nat_vault h' (replicate 32 CHR ''k'') s' \<and> get_cached_tokens s' ''a'' = None"
proof -
  let ?e = "demo_env (\<lambda>_. Inl (IoError []))" and ?h = "demo_home (demo_store None)"
  have c: "cascade_remove 3 ''a'' (demo_store None) = Some ((demo_store None)\<lparr>registrations := [demo_reg ''a'' None], store_tokens_list := [demo_tok ''a'']\<rparr>)"
    by (simp add: demo_store_simps child_ids_def numeral_3_eq_3)
  define s1 where "s1 = (demo_store None)\<lparr>registrations := [demo_reg ''a'' None], store_tokens_list := [demo_tok ''a'']\<rparr>"
  have g: "get_registration ''a'' (demo_store None) = Some (demo_reg ''a'' None)" by (simp add: get_registration_def demo_store_simps)
  obtain s2 where rm: "remove_registration ''a'' s1 = Inr s2" by (simp add: remove_registration_def s1_def demo_reg_def)
  have st: "oe_stack ?e = 3" by (simp add: demo_env_def)
  have "\<exists>v h'. oauth_revoke ref_ext nat_vault ?e ''a'' ?h = (Inr v, h')"
    unfolding oauth_revoke_def load_store [OF demo_home_ok(1,2)] st sum.case prod.case g c s1_def [symmetric] of_option_simps bind_res_simps rm
    using finish_demo by blast
  then obtain v h' where r: "oauth_revoke ref_ext nat_vault ?e ''a'' ?h = (Inr v, h')" by blast
  from oauth_revoke_complete [OF nat_vault_ok demo_home_ok(3) demo_home_ok(1,2) demo_store_inv r]
  obtain s' where "holds nat_vault h' (replicate 32 CHR ''k'') s'" "get_cached_tokens s' ''a'' = None" by auto
  with r show ?thesis by blast
qed

text \<open>
  A registration that names itself, or one of its descendants, as its parent cannot be
  revoked.  Registering accepts it, since only the identifier is checked; from then on every
  revocation of it recurses until the stack is exhausted, whatever its size, and the file stays
  as it is.
\<close>

theorem oauth_revoke_cycle:
  assumes "aead_ok V" "store_serde_ok V" "nonce_ok e" "home_ok E h key" "holds V h key s"
    and "get_str params ''registration_id'' = Some rid" "get_str params ''parent_registration_id'' = Some parent"
    and "parent = rid \<or> desc (registrations s) rid parent" "get_registration rid s = None"
    and "oauth_register E V e params h = (Inr v, h')"
  shows "oauth_revoke E V e' rid h' = (Inl (Panic ''stack overflow''), h')"
proof -
  define reg where "reg = registration_of_params (oe_now e) (oe_fresh e) params"
  have reg: "reg_id reg = rid" "reg_parent_registration_id reg = Some parent"
    using assms(6,7) by (simp_all add: reg_def registration_of_params_def str_or_def)
  define s' where "s' = s\<lparr>registrations := registrations s @ [reg]\<rparr>"
  have "\<not> list_ex (\<lambda>r. reg_id r = reg_id reg) (registrations s)"
    using assms(9) by (auto simp: reg(1) get_registration_def find_None_iff list_ex_iff)
  then have rp: "register_provider reg s = Inr s'" by (simp add: register_provider_def s'_def)
  have "finish V e h key (Inr (s', json_object [(''ok'', JBool True), (''registration_id'', JStr (reg_id reg))])) = (Inr v, h')"
    using assms(10) rp unfolding oauth_register_def load_store [OF assms(4,5)] by (simp add: reg_def Let_def)
  from finish_ok [OF assms(1-3) this] have h': "holds V h' key s'" "home_ok E h' key"
    using assms(4) by (auto simp: home_ok_def)
  have "desc (registrations s') rid parent \<or> parent = rid"
    using assms(8) desc_mono [of "registrations s" rid parent "registrations s'"] by (auto simp: s'_def)
  moreover have "reg \<in> set (registrations s')" by (simp add: s'_def)
  ultimately have "desc (registrations s') rid rid"
    using desc_child [of reg _ rid] desc_deeper [of _ rid parent reg] reg by metis
  then have "cascade_remove (oe_stack e') rid s' = None"
    using cascade_no_cycle [of "oe_stack e'" rid s'] by (cases "cascade_remove (oe_stack e') rid s'") (auto simp: no_cycle_def)
  moreover have "get_registration rid s' = Some reg"
    using assms(9) reg(1) by (simp add: get_registration_def s'_def find_append)
  ultimately show ?thesis by (simp add: oauth_revoke_def load_store [OF h'(2,1)])
qed

theorem oauth_revoke_cycle_witness:
  "\<exists>v h'. oauth_register ref_ext nat_vault (demo_env (\<lambda>_. Inl (IoError [])))
        (JObj [(''registration_id'', JStr ''r''), (''parent_registration_id'', JStr ''r'')]) (demo_home (demo_store None)) = (Inr v, h')
     \<and> oauth_revoke ref_ext nat_vault (demo_env (\<lambda>_. Inl (IoError []))) ''r'' h' = (Inl (Panic ''stack overflow''), h')"
proof -
  let ?e = "demo_env (\<lambda>_. Inl (IoError []))" and ?h = "demo_home (demo_store None)"
  let ?p = "JObj [(''registration_id'', JStr ''r''), (''parent_registration_id'', JStr ''r'')]"
  have p: "get_str ?p ''registration_id'' = Some ''r''" "get_str ?p ''parent_registration_id'' = Some ''r''" by (simp_all add: get_str_def)
  have n: "get_registration ''r'' (demo_store None) = None" by (simp add: get_registration_def demo_store_simps)
  then have "\<not> list_ex (\<lambda>r. reg_id r = ''r'') (registrations (demo_store None))" by (simp add: demo_store_simps)
  then obtain s2 where "register_provider (registration_of_params (oe_now ?e) (oe_fresh ?e) ?p) (demo_store None) = Inr s2"
    by (simp add: register_provider_def registration_of_params_def str_or_def p)
  then obtain v h' where r: "oauth_register ref_ext nat_vault ?e ?p ?h = (Inr v, h')"
    unfolding oauth_register_def load_store [OF demo_home_ok(1,2)] using finish_demo by (fastforce simp: Let_def)
  from oauth_revoke_cycle [OF nat_vault_ok demo_home_ok(3) demo_home_ok(1,2) p _ n r] r show ?thesis by blast
qed

subsection \<open>Refreshing\<close>

text \<open>The times of a \<^verbatim>\<open>DateTime\<close> have a timestamp in an \<^verbatim>\<open>i64\<close>.\<close>

definition chrono_range :: "ext \<Rightarrow> bool" where
  "chrono_range E \<longleftrightarrow> (\<forall>t. dt_in_range E t \<longrightarrow> - (2 ^ 63) \<le> timestamp t \<and> timestamp t < 2 ^ 63)"

lemma struct_field_object [simp]: "struct_field (sort_key fst kvs) k = struct_field kvs k"
  by (simp add: struct_field_def sort_key_stable)

lemma those_as_str [simp]: "those (map (as_str \<circ> JStr) xs) = Some xs"
  by (induction xs) auto

lemma cached_value_roundtrip:
  assumes "- (2 ^ 63) \<le> ct_expires_at t" "ct_expires_at t < 2 ^ 63"
  shows "cached_token_from_json (cached_value t) = Some t"
proof -
  have "those (map (struct_field (sort_key fst
      [(''access_token'', JStr (ct_access_token t)), (''expires_at'', JNum (ct_expires_at t)),
       (''scopes'', JArr (map JStr (ct_scopes t))), (''provider'', JStr (ct_provider t)),
       (''registration_id'', JStr (ct_registration_id t))]))
     [''access_token'', ''expires_at'', ''scopes'', ''provider'', ''registration_id''])
    = Some [JStr (ct_access_token t), JNum (ct_expires_at t), JArr (map JStr (ct_scopes t)), JStr (ct_provider t),
            JStr (ct_registration_id t)]"
    unfolding struct_field_object by (simp add: struct_field_def)
  then show ?thesis
    using assms by (simp add: cached_token_from_json_def cached_value_def json_object_def struct_members_def str_list_def)
qed

lemma parse_token_expiry:
  assumes "parse_token_response E now now' body rid = Inr t"
  shows "dt_in_range E (tok_expires_at t)" "tok_registration_id t = rid"
  using assms by (auto simp: parse_token_response_def bind_res_Inr_iff plus_duration_def split: option.splits if_splits)

lemma flow_refresh_Inr:
  assumes "flow_refresh_token E C now now' reg rt = Inr t"
  shows "dt_in_range E (tok_expires_at t)" "tok_registration_id t = reg_id reg" "tok_refresh_token t \<noteq> None"
proof -
  obtain body t0 where p: "parse_token_response E now now' body (reg_id reg) = Inr t0"
    and t: "t = (if tok_refresh_token t0 = None then t0\<lparr>tok_refresh_token := Some rt\<rparr> else t0)"
    using assms by (auto simp: flow_refresh_token_def bind_res_Inr_iff)
  show "dt_in_range E (tok_expires_at t)" "tok_registration_id t = reg_id reg" "tok_refresh_token t \<noteq> None"
    using parse_token_expiry [OF p] t by auto
qed

lemma refresh_Inr:
  assumes "home_ok E h key" "holds V h key s" "oauth_refresh E V e rid h = (Inr v, h')"
  shows "\<exists>reg old rt new s'. get_registration rid s = Some reg \<and> get_tokens rid s = Some old \<and> tok_refresh_token old = Some rt
     \<and> flow_refresh_token E (oe_client e) (oe_now e) (oe_now' e) reg rt = Inr new \<and> store_tokens new s = Inr s'
     \<and> v = cached_value (as_cached reg new) \<and> finish V e h key (Inr (s', v)) = (Inr v, h')"
proof -
  let ?c = "\<lambda>reg new. \<lparr>ct_access_token = tok_access_token new, ct_expires_at = timestamp (tok_expires_at new),
                         ct_scopes = tok_granted_scopes new, ct_provider = reg_provider reg,
                         ct_registration_id = rid\<rparr>"
  let ?r = "bind_res (of_option (NotFound rid) (get_registration rid s)) (\<lambda>reg.
             bind_res (of_option (NotFound ''tokens'') (get_tokens rid s)) (\<lambda>existing.
             bind_res (of_option (NotFound ''refresh token'') (tok_refresh_token existing)) (\<lambda>refresh_token_value.
             bind_res (flow_refresh_token E (oe_client e) (oe_now e) (oe_now' e) reg refresh_token_value) (\<lambda>new_tokens.
             bind_res (store_tokens new_tokens s) (\<lambda>s'. Inr (s', cached_value (?c reg new_tokens)))))))"
  have f: "finish V e h key ?r = (Inr v, h')" using assms(3) load_store [OF assms(1,2)] by (simp add: oauth_refresh_def)
  obtain s' where r: "?r = Inr (s', v)" using finish_Inr [OF f] by blast
  then obtain reg old rt new where a: "get_registration rid s = Some reg" "get_tokens rid s = Some old" "tok_refresh_token old = Some rt"
    "flow_refresh_token E (oe_client e) (oe_now e) (oe_now' e) reg rt = Inr new" "store_tokens new s = Inr s'"
    "v = cached_value (?c reg new)" by (auto simp: bind_res_Inr_iff)
  have "reg_id reg = rid" using a(1) by (auto simp: get_registration_def find_Some_iff)
  then have "?c reg new = as_cached reg new" using flow_refresh_Inr(2) [OF a(4)] by (simp add: as_cached_def)
  then show ?thesis using a f unfolding r by metis
qed

text \<open>
  A refresh through the daemon.  When the daemon answers a refresh, the proxy's parser reads
  from the answer exactly the token that the store on disk then holds for the registration, with
  a refresh token to go on with even when the provider sent none; the tokens of other
  registrations are untouched.
\<close>

theorem oauth_refresh_serves_proxy:
  assumes "aead_ok V" "store_serde_ok V" "nonce_ok e" "home_ok E h key" "holds V h key s" "store_inv s" "chrono_range E"
    and "oauth_refresh E V e rid h = (Inr v, h')"
  shows "\<exists>s' t. cached_token_from_json v = Some t \<and> holds V h' key s' \<and> store_inv s'
     \<and> get_cached_tokens s' = (get_cached_tokens s)(rid \<mapsto> t)
     \<and> (\<exists>st. get_tokens rid s' = Some st \<and> tok_refresh_token st \<noteq> None)"
proof -
  obtain reg rt new s' where g: "get_registration rid s = Some reg"
    and fr: "flow_refresh_token E (oe_client e) (oe_now e) (oe_now' e) reg rt = Inr new" and st: "store_tokens new s = Inr s'"
    and v: "v = cached_value (as_cached reg new)" and f: "finish V e h key (Inr (s', v)) = (Inr v, h')"
    using refresh_Inr [OF assms(4,5,8)] by blast
  note n = flow_refresh_Inr [OF fr]
  have rid: "reg_id reg = rid" using g by (auto simp: get_registration_def find_Some_iff)
  have p: "cached_token_from_json v = Some (as_cached reg new)"
    unfolding v using assms(7) n(1) by (intro cached_value_roundtrip) (auto simp: as_cached_def chrono_range_def)
  have inv: "store_inv s'" using store_tokens_inv [OF assms(6) st] .
  have s': "s' = s\<lparr>store_tokens_list := filter (\<lambda>t. tok_registration_id t \<noteq> rid) (store_tokens_list s) @ [new]\<rparr>"
    using st n(2) rid by (auto simp: store_tokens_def split: if_splits)
  have toks: "get_tokens q s' = (if q = rid then Some new else get_tokens q s)" for q
    using n(2) rid by (auto simp: s' get_tokens_def find_append find_filter_key split: option.split)
  have "get_registration q s' = get_registration q s" for q by (simp add: s' get_registration_def)
  then have "token_of s' = (token_of s)(rid \<mapsto> as_cached reg new)"
    using g toks by (auto simp: token_of_def fun_eq_iff)
  then have "get_cached_tokens s' = (get_cached_tokens s)(rid \<mapsto> as_cached reg new)"
    by (simp add: cached_tokens_refine inv assms(6))
  then show ?thesis using p finish_ok(2) [OF assms(1-3) f] inv toks n(3) by auto
qed

definition token_ext :: ext where
  "token_ext = ref_ext\<lparr>json_parse := (\<lambda>_. Some (JObj [(''access_token'', JStr ''new''), (''expires_in'', JNum 60)])),
     dt_in_range := (\<lambda>t. 0 \<le> t \<and> t < 2 ^ 63)\<rparr>"

theorem oauth_refresh_serves_proxy_witness:
  "\<exists>v h' t s0. s0 = (demo_store None)\<lparr>store_tokens_list := [(demo_tok ''a'')\<lparr>tok_refresh_token := Some ''rt''\<rparr>]\<rparr>
     \<and> oauth_refresh token_ext nat_vault (demo_env (\<lambda>_. Inr (200, Inr []))) ''a'' (demo_home s0) = (Inr v, h')
     \<and> cached_token_from_json v = Some t \<and> ct_access_token t = ''new'' \<and> ct_expires_at t = 60"
proof -
  define s0 where "s0 = (demo_store None)\<lparr>store_tokens_list := [(demo_tok ''a'')\<lparr>tok_refresh_token := Some ''rt''\<rparr>]\<rparr>"
  let ?e = "demo_env (\<lambda>_. Inr (200, Inr []))" and ?key = "replicate 32 CHR ''k''"
  define new where "new = \<lparr>tok_registration_id = ''a'', tok_access_token = ''new'', tok_refresh_token = Some ''rt'', tok_expires_at = seconds 60,
      tok_token_type = ''Bearer'', tok_granted_scopes = [], tok_last_refreshed = 0\<rparr>"
  have g: "get_registration ''a'' s0 = Some (demo_reg ''a'' None)" "get_tokens ''a'' s0 = Some ((demo_tok ''a'')\<lparr>tok_refresh_token := Some ''rt''\<rparr>)"
    by (simp_all add: s0_def get_registration_def get_tokens_def demo_store_simps)
  have fr: "flow_refresh_token token_ext (oe_client ?e) (oe_now ?e) (oe_now' ?e) (demo_reg ''a'' None) ''rt'' = Inr new"
    by (simp add: flow_refresh_token_def post_ok_def demo_env_def is_success_def parse_token_response_def token_ext_def
        token_response_from_json_def struct_field_def opt_field_def opt_str_def opt_i64_def duration_of_def plus_duration_def
        seconds_def ns_per_sec_def demo_reg_def new_def)
  obtain s' where st: "store_tokens new s0 = Inr s'" by (simp add: store_tokens_def s0_def new_def demo_store_simps)
  have home: "home_ok token_ext (demo_home s0) ?key"
  proof -
    have "decode_private_key_pem token_ext p = decode_private_key_pem ref_ext p" for p
      by (simp add: decode_private_key_pem_def token_ext_def)
    then show ?thesis using demo_home_ok(1) by (simp add: home_ok_def)
  qed
  have "\<exists>v h'. oauth_refresh token_ext nat_vault ?e ''a'' (demo_home s0) = (Inr v, h')"
    unfolding oauth_refresh_def load_store [OF home demo_home_ok(2)] sum.case prod.case g of_option_simps bind_res_simps
    by (simp add: fr st) (rule exI, rule finish_demo)
  then obtain v h' where r: "oauth_refresh token_ext nat_vault ?e ''a'' (demo_home s0) = (Inr v, h')" by blast
  have "store_inv s0" by (simp add: s0_def store_inv_def demo_store_simps)
  moreover have "chrono_range token_ext"
    by (auto simp: chrono_range_def token_ext_def timestamp_def ns_per_sec_def intro: order_trans [OF zdiv_mono2])
  ultimately have c: "\<exists>s' t. cached_token_from_json v = Some t \<and> holds nat_vault h' ?key s' \<and> get_cached_tokens s' = (get_cached_tokens s0)(''a'' \<mapsto> t)"
    using oauth_refresh_serves_proxy [OF nat_vault_ok demo_home_ok(3) home demo_home_ok(2) _ _ r] by blast
  from refresh_Inr [OF home demo_home_ok(2) r] g fr have "v = cached_value (as_cached (demo_reg ''a'' None) new)" by auto
  then have "cached_token_from_json v = Some (as_cached (demo_reg ''a'' None) new)"
    by (simp add: cached_value_roundtrip as_cached_def new_def timestamp_def seconds_def ns_per_sec_def)
  then show ?thesis using r c unfolding s0_def by (auto simp: as_cached_def new_def timestamp_def seconds_def ns_per_sec_def)
qed

text \<open>
  A token response of a provider can stop the daemon.  Parsing a response that is a
  token response panics exactly when its lifetime does not fit the durations of the clock library
  or leads outside its range of dates; without a lifetime, one hour is assumed.  It never
  yields tokens for another registration.
\<close>

theorem token_response_panics:
  assumes "Option.bind (json_parse E body) token_response_from_json = Some resp"
  defines "secs \<equiv> (case tr_expires_in resp of Some n \<Rightarrow> n | None \<Rightarrow> 3600)"
  shows "((\<exists>m. parse_token_response E now now' body rid = Inl (Panic m)) \<longleftrightarrow>
            (2 ^ 63 - 1) div 1000 < \<bar>secs\<bar> \<or> \<not> dt_in_range E (now + seconds secs))
     \<and> (\<forall>err. parse_token_response E now now' body rid = Inl err \<longrightarrow> (\<exists>m. err = Panic m))
     \<and> (\<forall>t. parse_token_response E now now' body rid = Inr t \<longrightarrow>
            tok_registration_id t = rid \<and> tok_expires_at t = now + seconds secs)"
  using assms(1) unfolding secs_def
  by (cases "tr_expires_in resp") (auto simp: parse_token_response_def duration_of_def plus_duration_def)

theorem token_response_panics_witness:
  "\<exists>m. parse_token_response (ref_ext\<lparr>json_parse := (\<lambda>_. Some (JArr [JStr ''t'', JNull, JNum (2 ^ 63 - 1), JNull, JNull]))\<rparr>) 0 0 [] ''r''
     = Inl (Panic m)"
proof -
  let ?E = "ref_ext\<lparr>json_parse := (\<lambda>_. Some (JArr [JStr ''t'', JNull, JNum (2 ^ 63 - 1), JNull, JNull]))\<rparr>"
  have "Option.bind (json_parse ?E []) token_response_from_json =
      Some \<lparr>tr_access_token = ''t'', tr_token_type = None, tr_expires_in = Some (2 ^ 63 - 1), tr_refresh_token = None, tr_scope = None\<rparr>"
    by (simp add: token_response_from_json_def opt_str_def opt_i64_def)
  from token_response_panics [OF this, of 0 0 "''r''"] show ?thesis by simp
qed

end
