(* ===== verification/Supervisor_Process.thy ===== *)
theory Supervisor_Process
  imports Proxy_Server OAuth_Store "HOL-Library.AList"
begin

text \<open>
  The agent supervisor of the daemon, \<^verbatim>\<open>grokingclaw-daemon/src/supervisor.rs\<close>.  Its table of agents is an
  association list with distinct names, in the iteration order of the \<^verbatim>\<open>HashMap\<close>; beside it stands what
  the operating system runs for it: the child processes alive, and the proxy tasks with their
  states.  What files, processes and clocks answer is an argument of each operation.
\<close>

subsection \<open>State\<close>

datatype agent_status = Creating | Starting | Running | Stopped | Crashed | Revoked

definition agent_status_display :: "agent_status \<Rightarrow> string" where
  "agent_status_display s = (case s of Creating \<Rightarrow> ''creating'' | Starting \<Rightarrow> ''starting'' | Running \<Rightarrow> ''running''
     | Stopped \<Rightarrow> ''stopped'' | Crashed \<Rightarrow> ''crashed'' | Revoked \<Rightarrow> ''revoked'')"

record model_config =
  mc_provider :: string
  mc_endpoint :: string
  mc_model :: string

definition default_model :: model_config where
  "default_model = \<lparr>mc_provider = ''ollama'', mc_endpoint = ''http://localhost:11434'', mc_model = ''qwen3.5''\<rparr>"

record resource_config =
  rc_memory_mb :: nat
  rc_cpu_percent :: u32
  rc_max_disk_gb :: nat
  rc_max_requests_per_minute :: u32

definition default_resources :: resource_config where
  "default_resources = \<lparr>rc_memory_mb = 2048, rc_cpu_percent = 50, rc_max_disk_gb = 10, rc_max_requests_per_minute = 60\<rparr>"

record restart_config =
  max_restarts :: u32
  restart_window_seconds :: nat
  restart_on_success :: bool

definition default_restart :: restart_config where
  "default_restart = \<lparr>max_restarts = 3, restart_window_seconds = 300, restart_on_success = False\<rparr>"

record agent_config =
  cfg_name :: string
  cfg_template :: string
  cfg_template_version :: string
  cfg_agent_id :: uuid
  cfg_did :: "string option"
  cfg_created_at :: datetime
  cfg_allowed_domains :: "string list"
  cfg_allowed_scopes :: "string list"
  cfg_expires_at :: "datetime option"
  cfg_model :: model_config
  cfg_resources :: resource_config
  cfg_restart :: restart_config

record agent_process =
  ap_config :: agent_config
  ap_status :: agent_status
  ap_child :: "nat option"
  ap_pid :: "nat option"
  ap_proxy_port :: "nat option"
  ap_proxy_handle :: "nat option"
  ap_restart_count :: u32
  ap_restart_timestamps :: "datetime list"
  ap_started_at :: "datetime option"

record supervisor =
  sup_agents :: "(string \<times> agent_process) list"
  os_children :: "nat list"
  os_proxies :: "(nat \<times> proxy_state) list"

record agent_info =
  ai_name :: string
  ai_agent_id :: uuid
  ai_did :: "string option"
  ai_template :: string
  ai_status :: agent_status
  ai_pid :: "nat option"
  ai_created_at :: datetime
  ai_started_at :: "datetime option"
  ai_restart_count :: u32
  ai_allowed_scopes :: "string list"

definition supervisor_new :: supervisor where
  "supervisor_new = \<lparr>sup_agents = [], os_children = [], os_proxies = []\<rparr>"

abbreviation put :: "string \<Rightarrow> 'a \<Rightarrow> (string \<times> 'a) list \<Rightarrow> (string \<times> 'a) list" where
  "put \<equiv> AList.update"

definition idle_process :: "agent_status \<Rightarrow> agent_config \<Rightarrow> agent_process" where
  "idle_process status config =
     \<lparr>ap_config = config, ap_status = status, ap_child = None, ap_pid = None, ap_proxy_port = None,
      ap_proxy_handle = None, ap_restart_count = 0, ap_restart_timestamps = [], ap_started_at = None\<rparr>"

text \<open>Dropping a child kills its process (\<^verbatim>\<open>kill_on_drop\<close>); dropping a proxy handle leaves the task running.\<close>

definition drop_child :: "nat option \<Rightarrow> supervisor \<Rightarrow> supervisor" where
  "drop_child child s = (case child of None \<Rightarrow> s | Some c \<Rightarrow> s\<lparr>os_children := filter (\<lambda>x. x \<noteq> c) (os_children s)\<rparr>)"

definition abort_proxy :: "nat option \<Rightarrow> supervisor \<Rightarrow> supervisor" where
  "abort_proxy h s = (case h of None \<Rightarrow> s | Some t \<Rightarrow> s\<lparr>os_proxies := filter (\<lambda>p. fst p \<noteq> t) (os_proxies s)\<rparr>)"

subsection \<open>Initialisation and registration\<close>

text \<open>The directories found: each with no \<^verbatim>\<open>agent.toml\<close>, or with one that parses, or with one that does not.\<close>

fun init_scan :: "agent_config result option list \<Rightarrow> supervisor \<Rightarrow> unit result \<times> supervisor" where
  "init_scan [] s = (Inr (), s)"
| "init_scan (None # ds) s = init_scan ds s"
| "init_scan (Some (Inl e) # ds) s = (Inl e, s)"
| "init_scan (Some (Inr config) # ds) s =
     init_scan ds (s\<lparr>sup_agents := put (cfg_name config) (idle_process Stopped config) (sup_agents s)\<rparr>)"

definition sup_init :: "agent_config result option list result option \<Rightarrow> supervisor \<Rightarrow> unit result \<times> supervisor" where
  "sup_init dir s =
     (case dir of None \<Rightarrow> (Inr (), s) | Some (Inl e) \<Rightarrow> (Inl e, s) | Some (Inr entries) \<Rightarrow> init_scan entries s)"

definition register :: "unit result \<Rightarrow> agent_config \<Rightarrow> supervisor \<Rightarrow> unit result \<times> supervisor" where
  "register files config s =
     (case files of
        Inl e \<Rightarrow> (Inl e, s)
      | Inr _ \<Rightarrow>
          (let old = map_of (sup_agents s) (cfg_name config);
               s1 = (case old of None \<Rightarrow> s | Some a \<Rightarrow> drop_child (ap_child a) s)
           in (Inr (), s1\<lparr>sup_agents := put (cfg_name config) (idle_process Creating config) (sup_agents s)\<rparr>)))"

subsection \<open>Starting\<close>

record start_env =
  se_run_script :: bool
  se_key_file :: "string result option"
  se_signer_file :: "string result"
  se_store_file :: "bytes option result"
  se_fresh :: uuid
  se_socket :: string
  se_audit_db :: "audit_db result"
  se_bind :: "(nat \<times> nat) result"
  se_logs :: "unit result"
  se_spawn :: "nat result"
  se_now :: datetime

definition agent_oauth :: "vault_lib \<Rightarrow> start_env \<Rightarrow> agent_config \<Rightarrow> bytes \<Rightarrow> oauth_token_cache option" where
  "agent_oauth V e config signing_key =
     (if se_store_file e = Inr None then None
      else case oauth_load V (se_fresh e) (se_store_file e) signing_key of
          Inl _ \<Rightarrow> None
        | Inr st \<Rightarrow>
            (let bs = get_domain_bindings st; toks = get_cached_tokens st
             in if bs \<noteq> [] then Some (cache_new (cfg_agent_id config) (se_socket e) bs toks 60) else None))"

text \<open>The proxy of an agent: none without a key file, and otherwise its port, task and state.\<close>

definition start_proxy :: "ext \<Rightarrow> vault_lib \<Rightarrow> start_env \<Rightarrow> agent_config \<Rightarrow> (nat \<times> nat \<times> proxy_state) option result" where
  "start_proxy E V e config =
     (case se_key_file e of
        None \<Rightarrow> Inr None
      | Some key_file \<Rightarrow>
          bind_res key_file (\<lambda>pem.
          bind_res (decode_private_key_pem E pem) (\<lambda>signing_key.
          (let scope = scope_new (cfg_allowed_domains config) (rc_max_requests_per_minute (cfg_resources config));
               signer = (case bind_res (se_signer_file e) (\<lambda>p. signer_from_pem E p (cfg_agent_id config)) of
                           Inr sg \<Rightarrow> Some sg | Inl _ \<Rightarrow> None);
               oauth = agent_oauth V e config signing_key
           in bind_res (se_audit_db e) (\<lambda>db.
              bind_res (se_bind e) (\<lambda>(port, task).
              Inr (Some (port, task, proxy_new scope signer oauth db (cfg_agent_id config) signing_key))))))))"

definition start_agent :: "ext \<Rightarrow> vault_lib \<Rightarrow> start_env \<Rightarrow> string \<Rightarrow> supervisor \<Rightarrow> unit result \<times> supervisor" where
  "start_agent E V e name s =
     (if \<not> se_run_script e then (Inl (NotFound ''run.sh''), s)
      else case map_of (sup_agents s) name of
          None \<Rightarrow> (Inl (NotFound name), s)
        | Some agent \<Rightarrow>
            if ap_status agent = Running then (Inl (AlreadyRunning name), s)
            else case start_proxy E V e (ap_config agent) of
                Inl err \<Rightarrow> (Inl err, s)
              | Inr proxy \<Rightarrow>
                  (let s1 = (case proxy of None \<Rightarrow> s
                               | Some (port, task, st) \<Rightarrow> s\<lparr>os_proxies := (task, st) # os_proxies s\<rparr>)
                   in case bind_res (se_logs e) (\<lambda>_. se_spawn e) of
                        Inl err \<Rightarrow> (Inl err, s1)
                      | Inr pid \<Rightarrow>
                          (let s2 = drop_child (ap_child agent) s1;
                               agent' = agent\<lparr>ap_child := Some pid, ap_pid := Some pid,
                                              ap_proxy_port := map_option fst proxy,
                                              ap_proxy_handle := map_option (fst \<circ> snd) proxy,
                                              ap_status := Running, ap_started_at := Some (se_now e)\<rparr>
                           in (Inr (), s2\<lparr>sup_agents := put name agent' (sup_agents s2),
                                          os_children := pid # os_children s2\<rparr>))))"

subsection \<open>Stopping\<close>

definition stop_agent :: "string \<Rightarrow> supervisor \<Rightarrow> unit result \<times> supervisor" where
  "stop_agent name s =
     (case map_of (sup_agents s) name of
        None \<Rightarrow> (Inl (NotFound name), s)
      | Some agent \<Rightarrow>
          (let s1 = abort_proxy (ap_proxy_handle agent) s;
               s2 = drop_child (ap_child agent) s1;
               agent' = agent\<lparr>ap_proxy_handle := None, ap_proxy_port := None, ap_child := None,
                              ap_status := Stopped, ap_pid := None\<rparr>
           in (Inr (), s2\<lparr>sup_agents := put name agent' (sup_agents s2)\<rparr>)))"

definition delete_agent :: "unit result \<Rightarrow> string \<Rightarrow> supervisor \<Rightarrow> unit result \<times> supervisor" where
  "delete_agent remove_dir name s =
     (let s1 = snd (stop_agent name s)
      in case remove_dir of
           Inl e \<Rightarrow> (Inl e, s1)
         | Inr _ \<Rightarrow> (Inr (), s1\<lparr>sup_agents := filter (\<lambda>na. fst na \<noteq> name) (sup_agents s1)\<rparr>))"

definition stop_all :: "supervisor \<Rightarrow> supervisor" where
  "stop_all s = fold (\<lambda>name s. snd (stop_agent name s)) (map fst (sup_agents s)) s"

subsection \<open>Health checks\<close>

datatype exit_status = StillRunning | WaitError | Exited bool

record health_env =
  he_exit :: "string \<Rightarrow> exit_status"
  he_now :: "string \<Rightarrow> datetime"
  he_now' :: "string \<Rightarrow> datetime"

text \<open>The restart budget of one agent: times in the window are kept, and a restart is granted while fewer than the limit remain.\<close>

definition restart_admit :: "nat \<Rightarrow> int \<Rightarrow> int \<Rightarrow> int list \<Rightarrow> bool \<times> int list" where
  "restart_admit limit window now q0 =
     (let q = filter (\<lambda>t. now - t < window) q0
      in if length q < limit then (True, q @ [now]) else (False, q))"

definition exited :: "agent_status \<Rightarrow> agent_process \<Rightarrow> agent_process" where
  "exited status a = a\<lparr>ap_status := status, ap_child := None, ap_pid := None\<rparr>"

definition handle_exit :: "datetime \<Rightarrow> bool \<Rightarrow> agent_process \<Rightarrow> agent_process result" where
  "handle_exit now success a =
     (let rc = cfg_restart (ap_config a)
      in if success \<and> \<not> restart_on_success rc then Inr (exited Stopped a)
         else bind_res (duration_of (wrap_i64 (int (restart_window_seconds rc))) 1) (\<lambda>window.
              (let admit = restart_admit (unat (max_restarts rc)) window now (ap_restart_timestamps a);
                   a1 = a\<lparr>ap_restart_timestamps := snd admit\<rparr>
               in Inr (if fst admit then exited Starting (a1\<lparr>ap_restart_count := ap_restart_count a1 + 1\<rparr>)
                       else exited Crashed a1))))"

definition check_agent :: "exit_status \<Rightarrow> datetime \<Rightarrow> datetime \<Rightarrow> agent_process \<Rightarrow> agent_process result" where
  "check_agent ex now now' a =
     (if ap_status a \<noteq> Running then Inr a
      else bind_res (case (ap_child a, ex) of
                       (Some _, Exited success) \<Rightarrow> handle_exit now success a
                     | _ \<Rightarrow> Inr a) (\<lambda>a1.
           Inr (case cfg_expires_at (ap_config a1) of
                  Some expires_at \<Rightarrow> if expires_at < now' then exited Stopped a1 else a1
                | None \<Rightarrow> a1)))"

text \<open>The child an agent loses in its check has exited, is killed, or is killed when dropped.\<close>

fun check_loop :: "health_env \<Rightarrow> string list \<Rightarrow> supervisor \<Rightarrow> unit result \<times> supervisor" where
  "check_loop e [] s = (Inr (), s)"
| "check_loop e (name # names) s =
     (case map_of (sup_agents s) name of
        None \<Rightarrow> check_loop e names s
      | Some a \<Rightarrow>
          (case check_agent (he_exit e name) (he_now e name) (he_now' e name) a of
             Inl err \<Rightarrow> (Inl err, s)
           | Inr a' \<Rightarrow>
               check_loop e names
                 ((if ap_child a' = None then drop_child (ap_child a) s else s)\<lparr>sup_agents := put name a' (sup_agents s)\<rparr>)))"

definition check_health :: "health_env \<Rightarrow> supervisor \<Rightarrow> unit result \<times> supervisor" where
  "check_health e s = check_loop e (map fst (sup_agents s)) s"

definition agents_needing_start :: "supervisor \<Rightarrow> string list" where
  "agents_needing_start s = map fst (filter (\<lambda>na. ap_status (snd na) = Starting) (sup_agents s))"

definition agent_info_of :: "agent_process \<Rightarrow> agent_info" where
  "agent_info_of a = (let c = ap_config a in
     \<lparr>ai_name = cfg_name c, ai_agent_id = cfg_agent_id c, ai_did = cfg_did c, ai_template = cfg_template c,
      ai_status = ap_status a, ai_pid = ap_pid a, ai_created_at = cfg_created_at c, ai_started_at = ap_started_at a,
      ai_restart_count = ap_restart_count a, ai_allowed_scopes = cfg_allowed_scopes c\<rparr>)"

definition list_agents :: "supervisor \<Rightarrow> agent_info list" where
  "list_agents s = map (agent_info_of \<circ> snd) (sup_agents s)"

definition get_agent :: "string \<Rightarrow> supervisor \<Rightarrow> agent_info option" where
  "get_agent name s = map_option agent_info_of (map_of (sup_agents s) name)"

subsection \<open>The table\<close>

lemma map_of_put [simp]: "map_of (put k v m) = (map_of m)(k \<mapsto> v)"
  by (rule update_conv')

lemma distinct_put: "distinct (map fst m) \<Longrightarrow> distinct (map fst (put k v m))"
  by (rule distinct_update)

lemma map_of_filter_key: "map_of (filter (\<lambda>na. fst na \<noteq> n) m) = (map_of m)(n := None)"
  by (induction m) (auto simp: fun_eq_iff)

lemma drop_child_simps [simp]:
  "sup_agents (drop_child c s) = sup_agents s" "os_proxies (drop_child c s) = os_proxies s"
  "set (os_children (drop_child c s)) = set (os_children s) - set_option c"
  by (auto simp: drop_child_def split: option.split)

lemma abort_proxy_simps [simp]:
  "sup_agents (abort_proxy h s) = sup_agents s" "os_children (abort_proxy h s) = os_children s"
  by (auto simp: abort_proxy_def split: option.split)

definition agent_ok :: "agent_process \<Rightarrow> bool" where
  "agent_ok a \<longleftrightarrow>
     (ap_child a \<noteq> None \<longleftrightarrow> ap_status a = Running) \<and> ap_pid a = ap_child a \<and> ap_status a \<noteq> Revoked"

definition owns :: "supervisor \<Rightarrow> string \<Rightarrow> nat \<Rightarrow> bool" where
  "owns s n c \<longleftrightarrow> (\<exists>a. map_of (sup_agents s) n = Some a \<and> ap_child a = Some c)"

definition sup_inv :: "supervisor \<Rightarrow> bool" where
  "sup_inv s \<longleftrightarrow>
     distinct (map fst (sup_agents s))
     \<and> (\<forall>n a. map_of (sup_agents s) n = Some a \<longrightarrow> agent_ok a)
     \<and> (\<forall>c. c \<in> set (os_children s) \<longleftrightarrow> (\<exists>n. owns s n c))
     \<and> (\<forall>n n' c. owns s n c \<and> owns s n' c \<longrightarrow> n = n')"

definition old_child :: "supervisor \<Rightarrow> string \<Rightarrow> nat option" where
  "old_child s n = Option.bind (map_of (sup_agents s) n) ap_child"

lemma owns_old: "owns s n c \<longleftrightarrow> old_child s n = Some c"
  by (auto simp: owns_def old_child_def bind_eq_Some_conv)

text \<open>An agent is replaced, its old child gone and its new one, if any, fresh.\<close>

lemma sup_inv_put:
  assumes "sup_inv s" "agent_ok a"
    and "sup_agents s' = put n a (sup_agents s)"
    and "set (os_children s') = (set (os_children s) - set_option (old_child s n)) \<union> set_option (ap_child a)"
    and "\<forall>c. ap_child a = Some c \<longrightarrow> c \<notin> set (os_children s) \<or> old_child s n = Some c"
  shows "sup_inv s'"
proof -
  have o: "old_child s' m = (if m = n then ap_child a else old_child s m)" for m
    by (simp add: old_child_def assms(3))
  have i: "c \<in> set (os_children s) \<longleftrightarrow> (\<exists>n. old_child s n = Some c)" "old_child s m = Some c \<Longrightarrow> old_child s m' = Some c \<Longrightarrow> m = m'" for c m m'
    using assms(1) by (auto simp: sup_inv_def owns_old)
  have "c \<in> set (os_children s') \<longleftrightarrow> (\<exists>n. old_child s' n = Some c)" for c
    unfolding assms(4) o using i by (auto split: if_splits) metis+
  moreover have "m = m'" if "old_child s' m = Some c" "old_child s' m' = Some c" for m m' c
    using that assms(5) i unfolding o by (metis option.sel)
  ultimately show ?thesis
    using assms(1,2,3) by (auto simp: sup_inv_def owns_old distinct_put split: if_splits)
qed

lemma sup_inv_clear:
  assumes "sup_inv s" "agent_ok a" "ap_child a = None"
    and "sup_agents s' = put n a (sup_agents s)" "set (os_children s') = set (os_children s) - set_option (old_child s n)"
  shows "sup_inv s'"
  using sup_inv_put [OF assms(1,2,4)] assms(3,5) by simp

lemma exited_ok: "st \<noteq> Running \<Longrightarrow> st \<noteq> Revoked \<Longrightarrow> agent_ok (exited st a)" "ap_child (exited st a) = None"
  by (simp_all add: agent_ok_def exited_def)

lemma idle_ok: "st \<noteq> Running \<Longrightarrow> st \<noteq> Revoked \<Longrightarrow> agent_ok (idle_process st c)" "ap_child (idle_process st c) = None"
  by (simp_all add: agent_ok_def idle_process_def)

subsection \<open>Every operation keeps the invariant\<close>

lemma sup_invD: "sup_inv s \<Longrightarrow> map_of (sup_agents s) n = Some a \<Longrightarrow> agent_ok a"
  by (simp add: sup_inv_def)

lemma sup_inv_children: "sup_inv s \<Longrightarrow> c \<in> set (os_children s) \<longleftrightarrow> (\<exists>n. old_child s n = Some c)"
  by (simp add: sup_inv_def owns_old)

lemma sup_inv_unique: "sup_inv s \<Longrightarrow> owns s m c \<Longrightarrow> owns s n c \<Longrightarrow> m = n"
  by (simp add: sup_inv_def) blast

lemma register_agent_inv [step_inv]: "sup_inv s \<Longrightarrow> sup_inv (snd (register files config s))"
proof (cases files)
  case (Inr u)
  assume "sup_inv s"
  then show ?thesis
    by (rule sup_inv_clear [where n = "cfg_name config" and a = "idle_process Creating config"])
      (auto simp: register_def Inr Let_def idle_ok old_child_def split: option.split)
qed (simp add: register_def)

lemma init_scan_inv: "sup_inv s \<Longrightarrow> os_children s = [] \<Longrightarrow> sup_inv (snd (init_scan ds s)) \<and> os_children (snd (init_scan ds s)) = []"
proof (induction ds s rule: init_scan.induct)
  case (4 config ds s)
  have "sup_inv (s\<lparr>sup_agents := put (cfg_name config) (idle_process Stopped config) (sup_agents s)\<rparr>)"
    using 4(2,3) by (intro sup_inv_clear [OF 4(2), where n = "cfg_name config" and a = "idle_process Stopped config"])
      (auto simp: idle_ok)
  with 4 show ?case by simp
qed auto

lemma start_agent_inv [step_inv]:
  assumes "sup_inv s" "\<forall>pid. se_spawn e = Inr pid \<longrightarrow> pid \<notin> set (os_children s)"
  shows "sup_inv (snd (start_agent E V e name s))"
proof (cases "map_of (sup_agents s) name")
  case (Some a)
  show ?thesis
  proof (cases "\<exists>pid proxy. se_run_script e \<and> ap_status a \<noteq> Running \<and> start_proxy E V e (ap_config a) = Inr proxy
      \<and> bind_res (se_logs e) (\<lambda>_. se_spawn e) = Inr pid")
    case True
    then obtain pid proxy where t: "se_run_script e" "ap_status a \<noteq> Running" "start_proxy E V e (ap_config a) = Inr proxy"
      "bind_res (se_logs e) (\<lambda>_. se_spawn e) = Inr pid" by blast
    have fresh: "pid \<notin> set (os_children s)" using t(4) assms(2) by (auto simp: bind_res_Inr_iff)
    have none: "ap_child a = None" using sup_invD [OF assms(1) Some] t(2) by (auto simp: agent_ok_def)
    define a' where "a' = a\<lparr>ap_child := Some pid, ap_pid := Some pid, ap_proxy_port := map_option fst proxy,
        ap_proxy_handle := map_option (fst \<circ> snd) proxy, ap_status := Running, ap_started_at := Some (se_now e)\<rparr>"
    show ?thesis
    proof (rule sup_inv_put [OF assms(1), of a' _ name])
      show "agent_ok a'" by (simp add: a'_def agent_ok_def)
      show "sup_agents (snd (start_agent E V e name s)) = put name a' (sup_agents s)"
        using Some t none by (auto simp: start_agent_def a'_def drop_child_def Let_def split: option.split)
      show "set (os_children (snd (start_agent E V e name s))) = set (os_children s) - set_option (old_child s name) \<union> set_option (ap_child a')"
        using Some t none by (auto simp: start_agent_def a'_def old_child_def drop_child_def Let_def split: option.splits)
      show "\<forall>c. ap_child a' = Some c \<longrightarrow> c \<notin> set (os_children s) \<or> old_child s name = Some c"
        using fresh by (simp add: a'_def)
    qed
  next
    case False
    then have "sup_agents (snd (start_agent E V e name s)) = sup_agents s \<and> os_children (snd (start_agent E V e name s)) = os_children s"
      using Some by (auto simp: start_agent_def Let_def split: sum.splits option.splits)
    then show ?thesis using assms(1) by (simp add: sup_inv_def owns_def)
  qed
qed (use assms(1) in \<open>simp add: start_agent_def\<close>)

lemma stop_agent_inv [step_inv]: "sup_inv s \<Longrightarrow> sup_inv (snd (stop_agent name s))"
proof (cases "map_of (sup_agents s) name")
  case (Some a)
  assume "sup_inv s"
  then show ?thesis
    by (rule sup_inv_clear [where n = name
          and a = "a\<lparr>ap_proxy_handle := None, ap_proxy_port := None, ap_child := None, ap_status := Stopped, ap_pid := None\<rparr>"])
      (auto simp: stop_agent_def Some Let_def agent_ok_def old_child_def)
qed (simp add: stop_agent_def)

lemma stop_agent_child: "old_child (snd (stop_agent name s)) m = (if m = name then None else old_child s m)"
  by (auto simp: stop_agent_def old_child_def Let_def split: option.split)

lemma delete_agent_inv [step_inv]:
  assumes "sup_inv s"
  shows "sup_inv (snd (delete_agent r name s))"
proof (cases r)
  case (Inr u)
  let ?s = "snd (stop_agent name s)"
  have i: "sup_inv ?s" using stop_agent_inv [OF assms] .
  have o: "old_child (snd (delete_agent r name s)) m = old_child ?s m" for m
    using stop_agent_child [of name s name] by (simp add: delete_agent_def Inr Let_def old_child_def map_of_filter_key)
  have "distinct (map fst (filter (\<lambda>na. fst na \<noteq> name) (sup_agents ?s)))"
    using i by (simp add: sup_inv_def distinct_map_filter_id)
  then show ?thesis
    using i o by (auto simp: sup_inv_def owns_old) (auto simp: delete_agent_def Inr Let_def map_of_filter_key split: if_splits)
qed (use stop_agent_inv [OF assms] in \<open>simp add: delete_agent_def Let_def\<close>)

lemma handle_exit_ok: "handle_exit now success a = Inr a' \<Longrightarrow> agent_ok a' \<and> ap_child a' = None"
  by (auto simp: handle_exit_def Let_def bind_res_Inr_iff exited_ok split: if_splits prod.splits)

text \<open>The check of a running agent: an exit, if one is seen, then the expiry of its delegation.\<close>

lemma check_agent_running:
  assumes "check_agent ex now now' a = Inr a'" "ap_status a = Running"
  obtains a1 where "a1 = a \<or> (\<exists>success. handle_exit now success a = Inr a1)"
    "a' = (case cfg_expires_at (ap_config a1) of Some x \<Rightarrow> if x < now' then exited Stopped a1 else a1 | None \<Rightarrow> a1)"
proof -
  obtain a1 where a1: "(case (ap_child a, ex) of (Some _, Exited success) \<Rightarrow> handle_exit now success a | _ \<Rightarrow> Inr a) = Inr a1"
    "a' = (case cfg_expires_at (ap_config a1) of Some x \<Rightarrow> if x < now' then exited Stopped a1 else a1 | None \<Rightarrow> a1)"
    using assms by (auto simp: check_agent_def bind_res_Inr_iff)
  show thesis using a1(1) by (intro that [OF _ a1(2)]) (auto split: option.splits exit_status.splits)
qed

lemma check_agent_idle: "ap_status a \<noteq> Running \<Longrightarrow> check_agent ex now now' a = Inr a"
  by (simp add: check_agent_def)

lemma check_agent_ok:
  assumes "agent_ok a" "check_agent ex now now' a = Inr a'"
  shows "agent_ok a' \<and> (ap_child a' = None \<or> ap_child a' = ap_child a)"
proof (cases "ap_status a = Running")
  case True
  from assms(2) True show ?thesis
    by (rule check_agent_running) (use assms(1) in \<open>auto simp: exited_ok dest: handle_exit_ok split: option.splits\<close>)
qed (use assms in \<open>simp add: check_agent_idle\<close>)

lemma check_loop_inv: "sup_inv s \<Longrightarrow> sup_inv (snd (check_loop e names s))"
proof (induction e names s rule: check_loop.induct)
  case (2 e name names s)
  show ?case
  proof (cases "map_of (sup_agents s) name")
    case (Some a)
    show ?thesis
    proof (cases "check_agent (he_exit e name) (he_now e name) (he_now' e name) a")
      case (Inr a')
      let ?s = "(if ap_child a' = None then drop_child (ap_child a) s else s)\<lparr>sup_agents := put name a' (sup_agents s)\<rparr>"
      have ok: "agent_ok a' \<and> (ap_child a' = None \<or> ap_child a' = ap_child a)"
        using check_agent_ok [OF sup_invD [OF 2(3) Some] Inr] .
      have i: "sup_inv s" by (rule 2(3))
      have sub: "set_option (ap_child a) \<subseteq> set (os_children s)"
        using i Some by (auto simp: sup_inv_def owns_def)
      have "sup_inv ?s"
      proof (rule sup_inv_put [OF i, of a' _ name])
        show "set (os_children ?s) = set (os_children s) - set_option (old_child s name) \<union> set_option (ap_child a')"
          using ok sub Some by (auto simp: old_child_def)
      qed (use ok Some in \<open>auto simp: old_child_def\<close>)
      then show ?thesis using 2(2) [OF Some Inr] Some Inr by simp
    qed (use Some 2(3) in simp)
  qed (use 2 in simp)
qed simp

lemma stop_all_inv: "sup_inv s \<Longrightarrow> sup_inv (fold (\<lambda>name s. snd (stop_agent name s)) names s)"
  by (induction names arbitrary: s) (auto intro: stop_agent_inv)

lemma stop_all_children: "old_child (fold (\<lambda>name s. snd (stop_agent name s)) names s) m = (if m \<in> set names then None else old_child s m)"
  by (induction names arbitrary: s) (auto simp: stop_agent_child)

subsection \<open>Processes\<close>

text \<open>
  Process and task identifiers that the system hands out are not in use.
\<close>

inductive sup_step :: "ext \<Rightarrow> vault_lib \<Rightarrow> supervisor \<Rightarrow> supervisor \<Rightarrow> bool" for E V where
  sup_register: "sup_step E V s (snd (register files config s))"
| sup_start: "(\<forall>pid. se_spawn e = Inr pid \<longrightarrow> pid \<notin> set (os_children s)) \<Longrightarrow>
     (\<forall>port task. se_bind e = Inr (port, task) \<longrightarrow> task \<notin> fst ` set (os_proxies s)) \<Longrightarrow>
     sup_step E V s (snd (start_agent E V e name s))"
| sup_stop: "sup_step E V s (snd (stop_agent name s))"
| sup_delete: "sup_step E V s (snd (delete_agent r name s))"
| sup_health: "sup_step E V s (snd (check_health h s))"
| sup_stop_all: "sup_step E V s (stop_all s)"

definition sup_start_state :: "supervisor \<Rightarrow> bool" where
  "sup_start_state s \<longleftrightarrow> (\<exists>dir. s = snd (sup_init dir supervisor_new))"

lemma sup_new_inv: "sup_inv supervisor_new"
  by (simp add: sup_inv_def supervisor_new_def owns_def)

interpretation sup: invariant sup_start_state "sup_step E V" sup_inv for E V
proof
  fix s assume "sup_start_state s"
  then obtain dir where "s = snd (sup_init dir supervisor_new)" by (auto simp: sup_start_state_def)
  then show "sup_inv s"
    using init_scan_inv [OF sup_new_inv] sup_new_inv
    by (auto simp: sup_init_def supervisor_new_def split: option.split sum.split)
next
  fix s t assume i: "sup_inv s" and "sup_step E V s t"
  from this(2) show "sup_inv t"
    by (cases rule: sup_step.cases)
      (use i in \<open>auto intro: step_inv check_loop_inv stop_all_inv simp: check_health_def stop_all_def\<close>)
qed

lemma stop_agent_status:
  "map_of (sup_agents (snd (stop_agent name s))) m =
     (if m = name then map_option (\<lambda>a. a\<lparr>ap_proxy_handle := None, ap_proxy_port := None, ap_child := None,
                              ap_status := Stopped, ap_pid := None\<rparr>) (map_of (sup_agents s) name)
      else map_of (sup_agents s) m)"
  by (auto simp: stop_agent_def Let_def split: option.split)

lemma stop_fold_status:
  "map_of (sup_agents (fold (\<lambda>name s. snd (stop_agent name s)) names s)) m =
     (if m \<in> set names then map_option (\<lambda>a. a\<lparr>ap_proxy_handle := None, ap_proxy_port := None, ap_child := None,
                              ap_status := Stopped, ap_pid := None\<rparr>) (map_of (sup_agents s) m)
      else map_of (sup_agents s) m)"
  by (induction names arbitrary: s) (auto simp: stop_agent_status option.map_comp comp_def)

text \<open>
  C29: the supervisor accounts for every process.  In every state it reaches, the agents have
  distinct names, an agent has a child exactly while it is marked running, and this child is one of the processes
  the supervisor has spawned and neither killed nor reaped (one that died on its own counts until the next health check reaps it,
  and its agent is marked running until then); no agent is ever marked
  revoked, and each of these processes belongs to exactly one agent.  Stopping all agents
  leaves none of them and every agent stopped.
\<close>

theorem supervisor_accounts:
  assumes "reachable sup_start_state (sup_step E V) s"
  shows "distinct (map fst (sup_agents s))
     \<and> (\<forall>n a. map_of (sup_agents s) n = Some a \<longrightarrow>
          (ap_child a \<noteq> None \<longleftrightarrow> ap_status a = Running) \<and> ap_pid a = ap_child a \<and> ap_status a \<noteq> Revoked)
     \<and> (\<forall>n a. map_of (sup_agents s) n = Some a \<and> ap_status a = Running \<longrightarrow>
          (\<exists>c. ap_child a = Some c \<and> c \<in> set (os_children s)))
     \<and> (\<forall>c \<in> set (os_children s). \<exists>!n. owns s n c)
     \<and> os_children (stop_all s) = []
     \<and> (\<forall>n a. map_of (sup_agents (stop_all s)) n = Some a \<longrightarrow> ap_status a = Stopped)"
proof -
  have i: "sup_inv s" using sup.inv_reachable [OF assms] .
  have "old_child (stop_all s) m = None" for m
  proof (cases "map_of (sup_agents s) m")
    case (Some a)
    then have "m \<in> set (map fst (sup_agents s))" using map_of_SomeD by force
    then show ?thesis by (simp add: stop_all_def stop_all_children)
  qed (simp add: stop_all_def stop_fold_status old_child_def)
  then have "\<forall>c. c \<notin> set (os_children (stop_all s))"
    using sup_inv_children [OF stop_all_inv [OF i], of _ "map fst (sup_agents s)"] by (simp add: stop_all_def)
  then have "os_children (stop_all s) = []" by (cases "os_children (stop_all s)") auto
  moreover have "ap_status a = Stopped" if m: "map_of (sup_agents (stop_all s)) n = Some a" for n a
  proof (cases "n \<in> set (map fst (sup_agents s))")
    case False
    then have "map_of (sup_agents s) n = None" by (simp add: map_of_eq_None_iff)
    with m show ?thesis by (simp add: stop_all_def stop_fold_status split: if_splits)
  qed (use m in \<open>auto simp: stop_all_def stop_fold_status\<close>)
  moreover have "\<forall>c \<in> set (os_children s). \<exists>!n. owns s n c"
    using i sup_inv_unique [OF i] sup_inv_children [OF i] by (auto simp: owns_old)
  moreover have "\<exists>c. ap_child a = Some c \<and> c \<in> set (os_children s)" if "map_of (sup_agents s) n = Some a" "ap_status a = Running" for n a
    using that i sup_invD [OF i that(1)] unfolding sup_inv_def agent_ok_def owns_def by blast
  moreover have "distinct (map fst (sup_agents s))" using i by (simp add: sup_inv_def)
  ultimately show ?thesis using sup_invD [OF i] unfolding agent_ok_def by blast
qed

definition demo_config :: "datetime option \<Rightarrow> agent_config" where
  "demo_config expires = \<lparr>cfg_name = ''n'', cfg_template = [], cfg_template_version = [], cfg_agent_id = [], cfg_did = None,
     cfg_created_at = 0, cfg_allowed_domains = [], cfg_allowed_scopes = [], cfg_expires_at = expires,
     cfg_model = default_model, cfg_resources = default_resources, cfg_restart = default_restart\<rparr>"

definition demo_start :: "nat \<Rightarrow> start_env" where
  "demo_start pid = \<lparr>se_run_script = True, se_key_file = None, se_signer_file = Inl (IoError []), se_store_file = Inr None,
     se_fresh = [], se_socket = [], se_audit_db = Inr open_audit_db, se_bind = Inl (IoError []), se_logs = Inr (),
     se_spawn = Inr pid, se_now = 0\<rparr>"

definition demo_running :: supervisor where
  "demo_running = snd (start_agent ref_ext toy_vault (demo_start 7) ''n'' (snd (register (Inr ()) (demo_config (Some 5)) supervisor_new)))"

lemma demo_running_reach: "reachable sup_start_state (sup_step ref_ext toy_vault) demo_running"
proof -
  have "sup_start_state supervisor_new" unfolding sup_start_state_def by (rule exI [of _ None]) (simp add: sup_init_def)
  then have "reachable sup_start_state (sup_step ref_ext toy_vault) supervisor_new" by (rule reach_init)
  from reach_step [OF this sup_register]
  have r: "reachable sup_start_state (sup_step ref_ext toy_vault) (snd (register (Inr ()) (demo_config (Some 5)) supervisor_new))" .
  show ?thesis
    unfolding demo_running_def
    by (rule reach_step [OF r], rule sup_start) (simp_all add: demo_start_def register_def supervisor_new_def)
qed

lemma demo_running_eq:
  "sup_agents demo_running = [(''n'', (idle_process Creating (demo_config (Some 5)))\<lparr>ap_child := Some 7, ap_pid := Some 7,
     ap_status := Running, ap_started_at := Some 0\<rparr>)]" "os_children demo_running = [7]"
  by (simp_all add: demo_running_def register_def supervisor_new_def start_agent_def demo_start_def start_proxy_def
      demo_config_def idle_process_def drop_child_def)

theorem supervisor_accounts_witness:
  "os_children demo_running = [7] \<and> os_children (stop_all demo_running) = []"
  using supervisor_accounts [OF demo_running_reach] demo_running_eq by simp

subsection \<open>Health checks agent by agent\<close>

lemma check_loop_pointwise:
  assumes "check_loop e names s = (Inr (), s')" "distinct names"
  shows "(m \<notin> set names \<or> map_of (sup_agents s) m = None \<longrightarrow> map_of (sup_agents s') m = map_of (sup_agents s) m)
     \<and> (\<forall>a. m \<in> set names \<and> map_of (sup_agents s) m = Some a \<longrightarrow>
          (\<exists>a'. check_agent (he_exit e m) (he_now e m) (he_now' e m) a = Inr a' \<and> map_of (sup_agents s') m = Some a'))"
  using assms
proof (induction e names s rule: check_loop.induct)
  case (2 e name names s)
  show ?case
  proof (cases "map_of (sup_agents s) name")
    case None
    with 2(1) [OF None] 2(3,4) show ?thesis by auto
  next
    case (Some a)
    then obtain a' where a': "check_agent (he_exit e name) (he_now e name) (he_now' e name) a = Inr a'"
      using 2(3) by (auto split: sum.splits)
    note IH = 2(2) [OF Some a']
    show ?thesis using IH 2(3,4) Some a' by (auto simp: fun_upd_def split: if_splits)
  qed
qed simp

lemma exited_status [simp]: "ap_status (exited st a) = st" "ap_config (exited st a) = ap_config a"
  by (simp_all add: exited_def)

lemma handle_exit_config: "handle_exit now success a = Inr a' \<Longrightarrow> ap_config a' = ap_config a"
  by (auto simp: handle_exit_def Let_def bind_res_Inr_iff split: if_splits)

lemma check_agent_expired:
  assumes "check_agent ex now now' a = Inr a'" "ap_status a = Running" "cfg_expires_at (ap_config a) = Some x" "x < now'"
  shows "ap_status a' = Stopped"
  using assms(1,2) by (rule check_agent_running) (use assms(3,4) in \<open>auto simp: handle_exit_config\<close>)

text \<open>
  A health check treats every agent on its own.  When it succeeds, each agent is in the
  state that its own check gives, whatever the order of the table; agents that were not running
  are untouched, and a running agent whose delegation has expired is stopped, its process gone.
\<close>

theorem health_check_pointwise:
  assumes "reachable sup_start_state (sup_step E V) s" and "check_health e s = (Inr (), s')"
  shows "(\<forall>n. map_of (sup_agents s) n = None \<longrightarrow> map_of (sup_agents s') n = None)
     \<and> (\<forall>n a. map_of (sup_agents s) n = Some a \<longrightarrow>
          (\<exists>a'. check_agent (he_exit e n) (he_now e n) (he_now' e n) a = Inr a' \<and> map_of (sup_agents s') n = Some a'
             \<and> (ap_status a \<noteq> Running \<longrightarrow> a' = a)
             \<and> (\<forall>x. ap_status a = Running \<and> cfg_expires_at (ap_config a) = Some x \<and> x < he_now' e n \<longrightarrow>
                   ap_status a' = Stopped \<and> (\<forall>c. ap_child a = Some c \<longrightarrow> c \<notin> set (os_children s')))))"
proof -
  have i: "sup_inv s" using sup.inv_reachable [OF assms(1)] .
  have d: "distinct (map fst (sup_agents s))" using i by (simp add: sup_inv_def)
  note pw = check_loop_pointwise [OF assms(2) [unfolded check_health_def] d]
  have i': "sup_inv s'" using check_loop_inv [OF i, of e "map fst (sup_agents s)"] assms(2) by (simp add: check_health_def)
  have none: "map_of (sup_agents s') n = None" if "map_of (sup_agents s) n = None" for n using pw [of n] that by simp
  have some: "\<exists>a'. check_agent (he_exit e n) (he_now e n) (he_now' e n) a = Inr a' \<and> map_of (sup_agents s') n = Some a'"
    if "map_of (sup_agents s) n = Some a" for n a
    using pw [of n] that map_of_SomeD [OF that] by force
  have expired: "ap_status a' = Stopped"
    if "check_agent ex t t' a = Inr a'" "ap_status a = Running" "cfg_expires_at (ap_config a) = Some x" "x < t'" for ex t t' a a' x
    using check_agent_expired [OF that] .
  have gone: "c \<notin> set (os_children s')"
    if a: "map_of (sup_agents s) n = Some a" "ap_child a = Some c" and a': "map_of (sup_agents s') n = Some a'" "ap_status a' = Stopped" for n a c a'
  proof
    assume "c \<in> set (os_children s')"
    then obtain m where m: "owns s' m c" using i' by (auto simp: sup_inv_def)
    have "ap_child a' = None" using sup_invD [OF i' a'(1)] a'(2) by (auto simp: agent_ok_def)
    then have "m \<noteq> n" using m a'(1) by (auto simp: owns_def)
    obtain b' where b': "map_of (sup_agents s') m = Some b'" "ap_child b' = Some c" using m by (auto simp: owns_def)
    then obtain b where b: "map_of (sup_agents s) m = Some b" using none by (metis not_Some_eq)
    from some [OF b] b' have "check_agent (he_exit e m) (he_now e m) (he_now' e m) b = Inr b'" by auto
    from check_agent_ok [OF sup_invD [OF i b] this] b' have "ap_child b = Some c" by auto
    then have "owns s m c" "owns s n c" using a b by (auto simp: owns_def)
    then show False using sup_inv_unique [OF i] \<open>m \<noteq> n\<close> by blast
  qed
  show ?thesis
  proof (intro conjI allI impI none)
    fix n a assume a: "map_of (sup_agents s) n = Some a"
    obtain a' where a': "check_agent (he_exit e n) (he_now e n) (he_now' e n) a = Inr a'" "map_of (sup_agents s') n = Some a'"
      using some [OF a] by blast
    show "\<exists>a'. check_agent (he_exit e n) (he_now e n) (he_now' e n) a = Inr a' \<and> map_of (sup_agents s') n = Some a'
             \<and> (ap_status a \<noteq> Running \<longrightarrow> a' = a)
             \<and> (\<forall>x. ap_status a = Running \<and> cfg_expires_at (ap_config a) = Some x \<and> x < he_now' e n \<longrightarrow>
                   ap_status a' = Stopped \<and> (\<forall>c. ap_child a = Some c \<longrightarrow> c \<notin> set (os_children s')))"
      using a' expired [OF a'(1)] gone [OF a _ a'(2)] by (intro exI [of _ a']) (auto simp: check_agent_def)
  qed
qed

definition demo_health :: "exit_status \<Rightarrow> datetime \<Rightarrow> health_env" where
  "demo_health ex now = \<lparr>he_exit = (\<lambda>_. ex), he_now = (\<lambda>_. now), he_now' = (\<lambda>_. now)\<rparr>"

theorem health_check_pointwise_witness:
  "\<exists>s' a'. check_health (demo_health StillRunning 6) demo_running = (Inr (), s')
     \<and> map_of (sup_agents s') ''n'' = Some a' \<and> ap_status a' = Stopped"
proof -
  let ?e = "demo_health StillRunning 6"
  obtain s' where s': "check_health ?e demo_running = (Inr (), s')"
    by (simp add: check_health_def demo_running_eq check_agent_def demo_health_def demo_config_def idle_process_def)
  define a where "a = (idle_process Creating (demo_config (Some 5)))\<lparr>ap_child := Some 7, ap_pid := Some 7,
     ap_status := Running, ap_started_at := Some 0\<rparr>"
  have "map_of (sup_agents demo_running) ''n'' = Some a" by (simp add: demo_running_eq a_def)
  moreover have "ap_status a = Running \<and> cfg_expires_at (ap_config a) = Some 5 \<and> 5 < he_now' ?e ''n''"
    by (simp add: a_def idle_process_def demo_config_def demo_health_def)
  ultimately show ?thesis using health_check_pointwise [OF demo_running_reach s'] s' by blast
qed

subsection \<open>The restart budget\<close>

interpretation restart: sliding_window restart_admit
  by standard (simp add: restart_admit_def live_def Let_def)

text \<open>
  The times at which an agent is given a restart, over any history of health checks: each with
  what its process did, the two clock readings, and the process it was started with afterwards,
  if it was.
\<close>

fun restart_times :: "(exit_status \<times> datetime \<times> datetime \<times> nat option) list \<Rightarrow> agent_process \<Rightarrow> datetime list" where
  "restart_times [] a = []"
| "restart_times ((ex, now, now', started) # es) a =
     (case check_agent ex now now' a of
        Inl _ \<Rightarrow> []
      | Inr a' \<Rightarrow>
          (let rest = restart_times es (case started of None \<Rightarrow> a' | Some pid \<Rightarrow> a'\<lparr>ap_status := Running, ap_child := Some pid\<rparr>)
           in if ap_restart_count a' \<noteq> ap_restart_count a then now # rest else rest))"

definition restart_limit :: "agent_process \<Rightarrow> nat" where
  "restart_limit a = unat (max_restarts (cfg_restart (ap_config a)))"

definition restart_seconds :: "agent_process \<Rightarrow> int" where
  "restart_seconds a = wrap_i64 (int (restart_window_seconds (cfg_restart (ap_config a))))"

lemma u32_succ_neq: "(x :: u32) + 1 \<noteq> x"
  by simp

text \<open>A check either leaves the budget alone or asks it once.\<close>

lemma check_agent_budget:
  assumes "check_agent ex now now' a = Inr a'"
  shows "ap_config a' = ap_config a
     \<and> ((ap_restart_count a' = ap_restart_count a \<and> ap_restart_timestamps a' = ap_restart_timestamps a)
        \<or> (let r = restart_admit (restart_limit a) (seconds (restart_seconds a)) now (ap_restart_timestamps a)
           in ap_restart_timestamps a' = snd r \<and> (ap_restart_count a' \<noteq> ap_restart_count a \<longleftrightarrow> fst r)))"
proof -
  have h: "ap_config b = ap_config a
     \<and> ((ap_restart_count b = ap_restart_count a \<and> ap_restart_timestamps b = ap_restart_timestamps a)
        \<or> (let r = restart_admit (restart_limit a) (seconds (restart_seconds a)) now (ap_restart_timestamps a)
           in ap_restart_timestamps b = snd r \<and> (ap_restart_count b \<noteq> ap_restart_count a \<longleftrightarrow> fst r)))"
    if "handle_exit now success a = Inr b" for success b
    using that by (auto simp: handle_exit_def restart_limit_def restart_seconds_def duration_of_def exited_def Let_def
        bind_res_Inr_iff u32_succ_neq split: if_splits)
  show ?thesis
  proof (cases "ap_status a = Running")
    case True
    from assms True show ?thesis
      by (rule check_agent_running) (use h in \<open>auto simp: exited_def split: option.splits\<close>)
  qed (use assms in \<open>simp add: check_agent_idle\<close>)
qed

lemma restart_times_grants:
  assumes "sorted (map (fst \<circ> snd) es)"
  shows "\<exists>ts. sorted ts \<and> set ts \<subseteq> (fst \<circ> snd) ` set es
     \<and> restart_times es a = restart.grants (restart_limit a) (seconds (restart_seconds a)) (ap_restart_timestamps a) ts"
  using assms
proof (induction es arbitrary: a)
  case (Cons ev es)
  obtain ex now now' started where ev: "ev = (ex, now, now', started)" by (cases ev)
  show ?case
  proof (cases "check_agent ex now now' a")
    case (Inl err)
    then show ?thesis by (intro exI [of _ "[]"]) (simp add: ev)
  next
    case (Inr a')
    let ?b = "case started of None \<Rightarrow> a' | Some pid \<Rightarrow> a'\<lparr>ap_status := Running, ap_child := Some pid\<rparr>"
    let ?L = "restart_limit a" and ?W = "seconds (restart_seconds a)"
    have cfg: "ap_config ?b = ap_config a" "ap_restart_timestamps ?b = ap_restart_timestamps a'"
      using check_agent_budget [OF Inr] by (auto split: option.split)
    then have lw: "restart_limit ?b = ?L" "restart_seconds ?b = restart_seconds a" by (simp_all add: restart_limit_def restart_seconds_def)
    obtain ts where ts: "sorted ts" "set ts \<subseteq> (fst \<circ> snd) ` set es"
      "restart_times es ?b = restart.grants ?L ?W (ap_restart_timestamps a') ts"
      using Cons.IH [of ?b] Cons.prems lw cfg(2) by auto
    consider (same) "ap_restart_count a' = ap_restart_count a" "ap_restart_timestamps a' = ap_restart_timestamps a"
      | (asked) "ap_restart_timestamps a' = snd (restart_admit ?L ?W now (ap_restart_timestamps a))"
          "ap_restart_count a' \<noteq> ap_restart_count a \<longleftrightarrow> fst (restart_admit ?L ?W now (ap_restart_timestamps a))"
      using check_agent_budget [OF Inr] by (auto simp: Let_def)
    then show ?thesis
    proof cases
      case same
      then show ?thesis using ts Inr by (intro exI [of _ ts]) (auto simp: ev Let_def)
    next
      case asked
      have "sorted (now # ts)" using ts(1,2) Cons.prems by (auto simp: ev)
      then show ?thesis using ts asked Inr
        by (intro exI [of _ "now # ts"]) (auto simp: ev Let_def case_prod_beta)
    qed
  qed
qed simp

text \<open>
  C30: the restart budget holds over any window.  Whatever happens to an agent, its health checks
  at times that do not run backwards grant at most \<^verbatim>\<open>max_restarts\<close> restarts within any period of the
  configured length, for every positive length that fits a signed 64-bit number of seconds.
\<close>

theorem restart_bound_any_window:
  assumes "ap_restart_timestamps a = []" "sorted (map (fst \<circ> snd) es)" "0 < restart_seconds a"
  shows "length (filter (\<lambda>t. e - seconds (restart_seconds a) < t \<and> t \<le> e) (restart_times es a)) \<le> restart_limit a"
proof -
  obtain ts where ts: "sorted ts" "restart_times es a = restart.grants (restart_limit a) (seconds (restart_seconds a)) [] ts"
    using restart_times_grants [OF assms(2), of a] assms(1) by auto
  show ?thesis
  proof (cases "restart_limit a = 0")
    case True
    have "restart.grants 0 w q ts = []" for w q by (induction ts arbitrary: q) (simp_all add: restart_admit_def Let_def)
    then show ?thesis using True ts(2) by simp
  next
    case False
    have "restart_limit a < 2 ^ 32" using unsigned_less [where 'a = nat, of "max_restarts (cfg_restart (ap_config a))"]
      by (simp add: restart_limit_def)
    moreover have "0 < seconds (restart_seconds a)" using assms(3) by (simp add: seconds_def ns_per_sec_def)
    ultimately show ?thesis
      using restart.window_bound [of "[]" "restart_limit a" "seconds (restart_seconds a)" ts e] False ts by simp
  qed
qed

theorem restart_bound_any_window_witness:
  "let a = (idle_process Running (demo_config None))\<lparr>ap_child := Some 1\<rparr>;
       es = map (\<lambda>t. (Exited False, seconds t, seconds t, Some 1)) [0, 1, 2, 3, 400]
   in restart_times es a = [0, seconds 1, seconds 2, seconds 400]
      \<and> length (filter (\<lambda>t. seconds 3 - seconds 300 < t \<and> t \<le> seconds 3) (restart_times es a)) \<le> 3"
proof -
  define a where "a = (idle_process Running (demo_config None))\<lparr>ap_child := Some 1\<rparr>"
  define es where "es = map (\<lambda>t. (Exited False, seconds t, seconds t, Some (1 :: nat))) [0, 1, 2, 3, 400]"
  have w: "restart_seconds a = 300" "restart_limit a = 3"
    by (simp_all add: restart_seconds_def restart_limit_def a_def idle_process_def demo_config_def default_restart_def wrap_i64_def)
  have r: "restart_times es a = [0, seconds 1, seconds 2, seconds 400]" unfolding es_def a_def by code_simp
  have "length (filter (\<lambda>t. seconds 3 - seconds 300 < t \<and> t \<le> seconds 3) (restart_times es a)) \<le> 3"
    using restart_bound_any_window [of a es "seconds 3"] w
    by (simp add: es_def seconds_def ns_per_sec_def a_def idle_process_def)
  then show ?thesis using r unfolding Let_def a_def es_def by blast
qed

subsection \<open>Proxies\<close>

text \<open>A proxy task that runs and that no agent holds the handle of.\<close>

definition leaked :: "nat \<Rightarrow> supervisor \<Rightarrow> bool" where
  "leaked h s \<longleftrightarrow>
     h \<in> fst ` set (os_proxies s) \<and> (\<forall>n a. map_of (sup_agents s) n = Some a \<longrightarrow> ap_proxy_handle a \<noteq> Some h)"

lemma leaked_put:
  "leaked h s \<Longrightarrow> sup_agents s' = put n a (sup_agents s) \<Longrightarrow> fst ` set (os_proxies s) \<subseteq> insert x (fst ` set (os_proxies s')) \<Longrightarrow>
   x \<noteq> h \<Longrightarrow> ap_proxy_handle a \<noteq> Some h \<Longrightarrow> leaked h s'"
  by (auto simp: leaked_def split: if_splits)

lemma handle_exit_handle: "handle_exit now success a = Inr a' \<Longrightarrow> ap_proxy_handle a' = ap_proxy_handle a"
  by (auto simp: handle_exit_def Let_def bind_res_Inr_iff exited_def split: if_splits)

lemma check_agent_handle:
  assumes "check_agent ex now now' a = Inr a'"
  shows "ap_proxy_handle a' = ap_proxy_handle a"
proof (cases "ap_status a = Running")
  case True
  with assms show ?thesis
    by (rule check_agent_running) (auto simp: exited_def dest: handle_exit_handle split: option.splits)
qed (use assms in \<open>simp add: check_agent_idle\<close>)

lemma leaked_stop: "leaked h s \<Longrightarrow> leaked h (snd (stop_agent name s))"
  by (auto simp: leaked_def stop_agent_def abort_proxy_def Let_def image_iff split: option.splits if_splits)

lemma leaked_stops: "leaked h s \<Longrightarrow> leaked h (fold (\<lambda>name s. snd (stop_agent name s)) names s)"
  by (induction names arbitrary: s) (auto intro: leaked_stop)

lemma leaked_loop: "leaked h s \<Longrightarrow> leaked h (snd (check_loop e names s))"
proof (induction e names s rule: check_loop.induct)
  case (2 e name names s)
  show ?case
  proof (cases "map_of (sup_agents s) name")
    case (Some a)
    show ?thesis
    proof (cases "check_agent (he_exit e name) (he_now e name) (he_now' e name) a")
      case (Inr a')
      have "ap_proxy_handle a' \<noteq> Some h" using 2(3) Some check_agent_handle [OF Inr] by (simp add: leaked_def)
      then have "leaked h ((if ap_child a' = None then drop_child (ap_child a) s else s)\<lparr>sup_agents := put name a' (sup_agents s)\<rparr>)"
        using 2(3) by (auto simp: leaked_def split: if_splits)
      then show ?thesis using 2(2) [OF Some Inr] Some Inr by simp
    qed (use Some 2(3) in simp)
  qed (use 2 in simp)
qed simp

lemma start_proxy_task:
  "start_proxy E V e c = Inr (Some (port, task, st)) \<Longrightarrow> se_bind e = Inr (port, task)"
  by (auto simp: start_proxy_def Let_def bind_res_Inr_iff split: option.splits)

lemma leaked_start:
  assumes "leaked h s" "\<forall>port task. se_bind e = Inr (port, task) \<longrightarrow> task \<notin> fst ` set (os_proxies s)"
  shows "leaked h (snd (start_agent E V e name s))"
proof -
  have t: "task \<noteq> h" if "start_proxy E V e c = Inr (Some (port, task, st))" for c port task st
    using assms start_proxy_task [OF that] by (auto simp: leaked_def)
  show ?thesis
    using assms(1) t
    by (auto simp: start_agent_def leaked_def Let_def split: option.splits sum.splits if_splits prod.splits)
qed

lemma leaked_register: "leaked h s \<Longrightarrow> leaked h (snd (register files config s))"
  by (auto simp: leaked_def register_def idle_process_def Let_def split: sum.splits option.splits if_splits)

lemma leaked_delete: "leaked h s \<Longrightarrow> leaked h (snd (delete_agent r name s))"
  using leaked_stop [of h s name]
  by (auto simp: leaked_def delete_agent_def Let_def map_of_filter_key split: sum.splits if_splits)

lemma leaked_step: "sup_step E V s t \<Longrightarrow> leaked h s \<Longrightarrow> leaked h t"
  by (induction rule: sup_step.induct)
    (auto intro: leaked_start leaked_stop leaked_delete leaked_register leaked_loop leaked_stops simp: check_health_def stop_all_def)

lemma leaked_reachable: "reachable ((=) s) (sup_step E V) t \<Longrightarrow> leaked h s \<Longrightarrow> leaked h t"
  by (induction rule: reachable.induct) (auto intro: leaked_step)

text \<open>
  Proxies of earlier runs are never stopped.  A health check that finds an agent's process
  gone keeps the handle of its proxy; starting the agent again overwrites it, and the old
  proxy, which still holds the agent's key and tokens, runs on without an owner.  No later
  operation, not even stopping all agents, ends it.
\<close>

theorem proxy_outlives_agent:
  assumes "map_of (sup_agents s) name = Some a" "ap_status a \<noteq> Running" "ap_proxy_handle a = Some h"
    and "h \<in> fst ` set (os_proxies s)" "\<forall>n b. n \<noteq> name \<and> map_of (sup_agents s) n = Some b \<longrightarrow> ap_proxy_handle b \<noteq> Some h"
    and "\<forall>port task. se_bind e = Inr (port, task) \<longrightarrow> task \<notin> fst ` set (os_proxies s)"
    and "start_agent E V e name s = (Inr (), s1)" and "reachable ((=) s1) (sup_step E V) t"
  shows "h \<in> fst ` set (os_proxies t) \<and> h \<in> fst ` set (os_proxies (stop_all t))
     \<and> (\<forall>ex now now' a'. check_agent ex now now' a = Inr a' \<longrightarrow> ap_proxy_handle a' = Some h)"
proof -
  have t: "task \<noteq> h" if "start_proxy E V e c = Inr (Some (port, task, st))" for c port task st
    using assms(4,6) start_proxy_task [OF that] by auto
  have "leaked h s1"
    using assms(1-7) t
    by (auto simp: start_agent_def leaked_def Let_def split: option.splits sum.splits if_splits prod.splits)
  then have "leaked h t" using leaked_reachable [OF assms(8)] by blast
  moreover from this have "leaked h (stop_all t)" by (simp add: stop_all_def leaked_stops)
  ultimately show ?thesis using check_agent_handle [of _ _ _ a] assms(3) by (auto simp: leaked_def)
qed

definition demo_leaky :: supervisor where
  "demo_leaky = \<lparr>sup_agents = [(''n'', (idle_process Starting (demo_config None))\<lparr>ap_proxy_handle := Some 3\<rparr>)], os_children = [],
     os_proxies = [(3, demo_proxy None)]\<rparr>"

theorem proxy_outlives_agent_witness:
  "3 \<in> fst ` set (os_proxies (stop_all (snd (start_agent ref_ext toy_vault (demo_start 7) ''n'' demo_leaky))))"
proof -
  let ?s1 = "snd (start_agent ref_ext toy_vault (demo_start 7) ''n'' demo_leaky)"
  have st: "start_agent ref_ext toy_vault (demo_start 7) ''n'' demo_leaky = (Inr (), ?s1)"
    by (simp add: start_agent_def demo_leaky_def demo_start_def start_proxy_def idle_process_def Let_def)
  have r: "reachable ((=) ?s1) (sup_step ref_ext toy_vault) ?s1" by (rule reach_init) (rule refl)
  show ?thesis
    by (rule proxy_outlives_agent [OF _ _ _ _ _ _ st r, THEN conjunct2, THEN conjunct1,
          of "(idle_process Starting (demo_config None))\<lparr>ap_proxy_handle := Some 3\<rparr>"])
      (auto simp: demo_leaky_def idle_process_def demo_start_def)
qed

end
