(* ===== verification/Daemon_Config.thy ===== *)
theory Daemon_Config
  imports External
begin

text \<open>
  The daemon's configuration, \<^verbatim>\<open>grokingclaw-daemon/src/config.rs\<close>: its sections with their defaults, loading,
  and the paths with a leading tilde.  Reading TOML is a parameter: the file is absent, or gives a
  configuration or an error.
\<close>

record daemon_section =
  ds_listen :: string
  ds_log_level :: string
  ds_pid_file :: string

record resources_section =
  rs_max_agents :: u32
  rs_default_memory_mb :: nat
  rs_default_cpu_percent :: u32

record anchoring_section =
  an_enabled :: bool
  an_interval_minutes :: u32
  an_iota_node :: string
  an_batch_size :: u32

record updates_section =
  up_check_interval_minutes :: u32
  up_auto_update_daemon :: bool
  up_auto_update_templates :: bool

record mesh_section =
  ms_enabled :: bool
  ms_coordination_server :: string
  ms_auto_connect :: bool

record registry_section =
  rg_url :: "string option"

record a2a_section =
  as_enabled :: bool
  as_port :: nat
  as_base_url :: string
  as_require_auth :: bool

record oauth_section =
  os_enabled :: bool
  os_refresh_buffer_seconds :: int
  os_allow_device_grant :: bool
  os_allow_token_exchange :: bool
  os_callback_port :: nat

record daemon_config =
  dc_daemon :: daemon_section
  dc_resources :: resources_section
  dc_mesh :: mesh_section
  dc_anchoring :: anchoring_section
  dc_updates :: updates_section
  dc_registry :: registry_section
  dc_a2a :: a2a_section
  dc_oauth :: oauth_section

definition default_daemon :: daemon_section where
  "default_daemon = \<lparr>ds_listen = ''~/.grokingclaw/daemon.sock'', ds_log_level = ''info'', ds_pid_file = ''~/.grokingclaw/daemon.pid''\<rparr>"

definition default_resource_limits :: resources_section where
  "default_resource_limits = \<lparr>rs_max_agents = 10, rs_default_memory_mb = 2048, rs_default_cpu_percent = 50\<rparr>"

definition default_anchoring :: anchoring_section where
  "default_anchoring = \<lparr>an_enabled = True, an_interval_minutes = 5, an_iota_node = ''https://api.iota-rebased.org'', an_batch_size = 100\<rparr>"

definition default_updates :: updates_section where
  "default_updates = \<lparr>up_check_interval_minutes = 30, up_auto_update_daemon = False, up_auto_update_templates = True\<rparr>"

definition default_mesh :: mesh_section where
  "default_mesh = \<lparr>ms_enabled = False, ms_coordination_server = ''https://mesh.grokingclaw.com'', ms_auto_connect = False\<rparr>"

definition default_registry :: registry_section where
  "default_registry = \<lparr>rg_url = None\<rparr>"

definition default_a2a :: a2a_section where
  "default_a2a = \<lparr>as_enabled = True, as_port = 9420, as_base_url = ''http://localhost:9420'', as_require_auth = True\<rparr>"

definition default_oauth :: oauth_section where
  "default_oauth = \<lparr>os_enabled = True, os_refresh_buffer_seconds = 60, os_allow_device_grant = True,
     os_allow_token_exchange = False, os_callback_port = 0\<rparr>"

definition default_daemon_config :: daemon_config where
  "default_daemon_config = \<lparr>dc_daemon = default_daemon, dc_resources = default_resource_limits, dc_mesh = default_mesh,
     dc_anchoring = default_anchoring, dc_updates = default_updates, dc_registry = default_registry,
     dc_a2a = default_a2a, dc_oauth = default_oauth\<rparr>"

definition config_load :: "daemon_config result option \<Rightarrow> daemon_config result" where
  "config_load file = (case file of Some parsed \<Rightarrow> parsed | None \<Rightarrow> Inr default_daemon_config)"

subsection \<open>Paths\<close>

text \<open>\<^verbatim>\<open>Path::join\<close> on Unix: an absolute path replaces the base.\<close>

definition path_join :: "string \<Rightarrow> string \<Rightarrow> string" where
  "path_join base p =
     (if starts_with p ''/'' then p
      else if base = [] \<or> ends_with base ''/'' then base @ p
      else base @ ''/'' @ p)"

text \<open>The home directory is unknown, or a path.\<close>

definition expand_tilde :: "string option \<Rightarrow> string \<Rightarrow> string result" where
  "expand_tilde home path =
     (if starts_with path ''~/''
      then bind_res (of_option (NotFound ''home directory'') home) (\<lambda>h. Inr (path_join h (drop 2 path)))
      else Inr path)"

definition daemon_root :: "string option \<Rightarrow> string result" where
  "daemon_root home = bind_res (of_option (NotFound ''home directory'') home) (\<lambda>h. Inr (path_join h ''.grokingclaw''))"

definition socket_path :: "string option \<Rightarrow> daemon_config \<Rightarrow> string result" where
  "socket_path home c = expand_tilde home (ds_listen (dc_daemon c))"

definition pid_path :: "string option \<Rightarrow> daemon_config \<Rightarrow> string result" where
  "pid_path home c = expand_tilde home (ds_pid_file (dc_daemon c))"

text \<open>The default socket and pid file lie in the daemon's directory.\<close>

lemma default_paths:
  "h \<noteq> [] \<Longrightarrow> \<not> ends_with h ''/'' \<Longrightarrow> socket_path (Some h) default_daemon_config = Inr (path_join (h @ ''/.grokingclaw'') ''daemon.sock'')"
  "h \<noteq> [] \<Longrightarrow> \<not> ends_with h ''/'' \<Longrightarrow> pid_path (Some h) default_daemon_config = Inr (path_join (h @ ''/.grokingclaw'') ''daemon.pid'')"
  by (simp_all add: socket_path_def pid_path_def expand_tilde_def path_join_def default_daemon_config_def default_daemon_def
      ends_with_def)

end
