(* ===== verification/File_System.thy ===== *)
theory File_System
  imports Daemon_Config
begin

text \<open>
  The part of \<^verbatim>\<open>std::fs\<close> the daemon's birth and template code uses, over a map from paths to nodes.
  A path is its text, so two texts that lead to the same file count as different paths.  An
  operation that writes may fail at any path: the argument \<open>io\<close> says where.  Operations are
  composed with \<open>then_io\<close>, the question mark of the code: the first failure ends the sequence and
  what was written before stays.
\<close>

datatype node = File bytes | Dir

type_synonym fs = "string \<Rightarrow> node option"
type_synonym 'a io_op = "fs \<Rightarrow> 'a result \<times> fs"
type_synonym io_faults = "string \<Rightarrow> unit result"

definition then_io :: "'a io_op \<Rightarrow> ('a \<Rightarrow> 'b io_op) \<Rightarrow> 'b io_op" where
  "then_io f g fs = (case f fs of (Inl e, fs') \<Rightarrow> (Inl e, fs') | (Inr x, fs') \<Rightarrow> g x fs')"

definition lift_io :: "'a result \<Rightarrow> 'a io_op" where
  "lift_io r fs = (r, fs)"

text \<open>An operation chosen by what the file system holds.\<close>

definition with_fs :: "(fs \<Rightarrow> 'a io_op) \<Rightarrow> 'a io_op" where
  "with_fs f fs = f fs fs"

definition exists_at :: "string \<Rightarrow> fs \<Rightarrow> bool" where
  "exists_at p fs \<longleftrightarrow> fs p \<noteq> None"

definition read_at :: "string \<Rightarrow> fs \<Rightarrow> bytes result" where
  "read_at p fs = (case fs p of Some (File b) \<Rightarrow> Inr b | _ \<Rightarrow> Inl (IoError p))"

definition write_file :: "io_faults \<Rightarrow> string \<Rightarrow> bytes \<Rightarrow> unit io_op" where
  "write_file io p b fs =
     (case io p of
        Inl e \<Rightarrow> (Inl e, fs)
      | Inr _ \<Rightarrow> if fs p = Some Dir then (Inl (IoError p), fs) else (Inr (), fs(p \<mapsto> File b)))"

definition copy_file :: "io_faults \<Rightarrow> string \<Rightarrow> string \<Rightarrow> unit io_op" where
  "copy_file io src dst = with_fs (\<lambda>fs. then_io (lift_io (read_at src fs)) (write_file io dst))"

text \<open>The directories above a path, outermost first.\<close>

definition ancestors :: "string \<Rightarrow> string list" where
  "ancestors p = map (\<lambda>i. take i p) (filter (\<lambda>i. 0 < i \<and> p ! i = CHR ''/'') [0..<length p])"

definition parent_dir :: "string \<Rightarrow> string option" where
  "parent_dir p = (case rev (ancestors p) of [] \<Rightarrow> None | d # _ \<Rightarrow> Some d)"

definition make_dir :: "string \<Rightarrow> fs \<Rightarrow> fs" where
  "make_dir p fs = (if fs p = None then fs(p \<mapsto> Dir) else fs)"

definition create_dir_all :: "io_faults \<Rightarrow> string \<Rightarrow> unit io_op" where
  "create_dir_all io p fs =
     (case io p of
        Inl e \<Rightarrow> (Inl e, fs)
      | Inr _ \<Rightarrow>
          if list_ex (\<lambda>q. fs q \<noteq> None \<and> fs q \<noteq> Some Dir) (ancestors p @ [p]) then (Inl (IoError p), fs)
          else (Inr (), fold make_dir (ancestors p @ [p]) fs))"

fun each_io :: "('a \<Rightarrow> unit io_op) \<Rightarrow> 'a list \<Rightarrow> unit io_op" where
  "each_io f [] = lift_io (Inr ())"
| "each_io f (x # xs) = then_io (f x) (\<lambda>_. each_io f xs)"

subsection \<open>What an operation may change\<close>

definition touches :: "string set \<Rightarrow> 'a io_op \<Rightarrow> bool" where
  "touches A f \<longleftrightarrow> (\<forall>fs p. p \<notin> A \<longrightarrow> snd (f fs) p = fs p)"

named_theorems touch \<open>frame rules of the file operations\<close>

lemma touches_mono: "touches A f \<Longrightarrow> A \<subseteq> B \<Longrightarrow> touches B f"
  by (auto simp: touches_def)

lemma touches_lift [touch]: "touches A (lift_io r)"
  by (simp add: touches_def lift_io_def)

lemma touches_then [touch]:
  "touches A f \<Longrightarrow> (\<And>x. touches A (g x)) \<Longrightarrow> touches A (then_io f g)"
  by (auto simp: touches_def then_io_def split: prod.splits sum.splits) (metis snd_conv)+

lemma touches_with [touch]: "(\<And>fs. touches A (f fs)) \<Longrightarrow> touches A (with_fs f)"
  by (simp add: touches_def with_fs_def)

lemma touches_write [touch]: "p \<in> A \<Longrightarrow> touches A (write_file io p b)"
  by (auto simp: touches_def write_file_def split: sum.splits)

lemma touches_copy [touch]: "dst \<in> A \<Longrightarrow> touches A (copy_file io src dst)"
  unfolding copy_file_def by (intro touch)

lemma fold_make_dir: "p \<notin> set ps \<Longrightarrow> fold make_dir ps fs p = fs p"
  by (induction ps arbitrary: fs) (auto simp: make_dir_def)

lemma touches_create_dir [touch]: "set (ancestors p) \<union> {p} \<subseteq> A \<Longrightarrow> touches A (create_dir_all io p)"
  unfolding touches_def
proof (intro allI impI)
  fix fs q assume A: "set (ancestors p) \<union> {p} \<subseteq> A" and q: "q \<notin> A"
  have "q \<notin> set (ancestors p @ [p])" using A q by auto
  then have "fold make_dir (ancestors p @ [p]) fs q = fs q" by (rule fold_make_dir)
  then show "snd (create_dir_all io p fs) q = fs q"
    by (simp add: create_dir_all_def split: sum.splits)
qed

lemma touches_each [touch]: "(\<And>x. x \<in> set xs \<Longrightarrow> touches A (f x)) \<Longrightarrow> touches A (each_io f xs)"
  by (induction xs) (auto intro: touch)

lemma touches_if [touch]: "(b \<Longrightarrow> touches A f) \<Longrightarrow> (\<not> b \<Longrightarrow> touches A g) \<Longrightarrow> touches A (if b then f else g)"
  by simp

text \<open>A file is never turned into a directory nor removed by these operations.\<close>

lemma then_io_ok_iff:
  "then_io f g fs = (Inr y, fs'') \<longleftrightarrow> (\<exists>x fs'. f fs = (Inr x, fs') \<and> g x fs' = (Inr y, fs''))"
  by (auto simp: then_io_def split: prod.splits sum.splits)

lemma lift_io_iff [simp]: "lift_io r fs = (r', fs') \<longleftrightarrow> r = r' \<and> fs = fs'"
  by (auto simp: lift_io_def)

lemma write_file_ok: "write_file io p b fs = (Inr u, fs') \<Longrightarrow> fs' = fs(p \<mapsto> File b)"
  by (auto simp: write_file_def split: sum.splits if_splits)

lemma copy_file_ok: "copy_file io s d fs = (Inr u, fs') \<Longrightarrow> \<exists>b. fs s = Some (File b) \<and> fs' = fs(d \<mapsto> File b)"
  by (auto simp: copy_file_def with_fs_def then_io_ok_iff read_at_def dest!: write_file_ok split: option.splits node.splits)

lemma fold_make_dir_file: "fs p = Some n \<Longrightarrow> fold make_dir ps fs p = Some n"
proof (induction ps arbitrary: fs)
  case (Cons a ps)
  then have "make_dir a fs p = Some n" by (auto simp: make_dir_def)
  then show ?case using Cons.IH by simp
qed simp

lemma create_dir_all_keeps: "create_dir_all io d fs = (r, fs') \<Longrightarrow> fs p = Some n \<Longrightarrow> fs' p = Some n"
  by (auto simp: create_dir_all_def fold_make_dir_file make_dir_def split: sum.splits if_splits)

end
