(* ===== verification/Templates.thy ===== *)
theory Templates
  imports File_System Crypto
begin

text \<open>
  The template registry, \<^verbatim>\<open>grokingclaw-daemon/src/templates.rs\<close>: the manifest with its defaults, listing and
  reading the installed templates, installing one from the remote registry or from a directory, and
  copying a template into an agent's directory.  TOML, HTTP, \<^verbatim>\<open>tar\<close> and the template's own install
  script are parameters.
\<close>

subsection \<open>Manifest\<close>

record template_info =
  ti_name :: string
  ti_version :: string
  ti_description :: string
  ti_author :: string
  ti_license :: string
  ti_tags :: "string list"

record template_requirements =
  tq_min_memory_mb :: nat
  tq_min_disk_gb :: nat
  tq_binaries :: "string list"
  tq_os :: "string list"

record install_config =
  ins_script :: string
  ins_files :: "string list"
  ins_env :: "(string \<times> string) list"

record run_config =
  run_script :: string
  run_workdir :: string
  run_env :: "(string \<times> string) list"
  run_restart_on_crash :: bool
  run_max_restarts :: u32

record health_config =
  hc_script :: string
  hc_interval_seconds :: nat
  hc_unhealthy_threshold :: u32

record scope_defaults =
  sd_allowed_domains :: "string list"
  sd_allowed_scopes :: "string list"
  sd_ttl_seconds :: int

record template_manifest =
  tm_template :: template_info
  tm_requirements :: template_requirements
  tm_install :: install_config
  tm_run :: run_config
  tm_health :: health_config
  tm_scope :: scope_defaults

definition default_requirements :: template_requirements where
  "default_requirements = \<lparr>tq_min_memory_mb = 512, tq_min_disk_gb = 1, tq_binaries = [], tq_os = []\<rparr>"

definition default_install :: install_config where
  "default_install = \<lparr>ins_script = ''install.sh'', ins_files = [], ins_env = []\<rparr>"

definition default_run :: run_config where
  "default_run = \<lparr>run_script = ''run.sh'', run_workdir = ''data'', run_env = [], run_restart_on_crash = True, run_max_restarts = 3\<rparr>"

definition default_health :: health_config where
  "default_health = \<lparr>hc_script = ''health.sh'', hc_interval_seconds = 30, hc_unhealthy_threshold = 3\<rparr>"

definition default_scope :: scope_defaults where
  "default_scope = \<lparr>sd_allowed_domains = [], sd_allowed_scopes = [''*''], sd_ttl_seconds = 30 * 24 * 3600\<rparr>"

record template_summary =
  ts_name :: string
  ts_version :: string
  ts_description :: string
  ts_path :: string
  ts_has_manifest :: bool

record template_registry =
  registry_path :: string
  registry_url :: "string option"

text \<open>Reading and writing TOML.\<close>

record manifest_toml =
  manifest_read :: "string \<Rightarrow> template_manifest result"
  manifest_write :: "template_manifest \<Rightarrow> string result"

subsection \<open>Reading the registry\<close>

definition template_init :: "io_faults \<Rightarrow> template_registry \<Rightarrow> unit io_op" where
  "template_init io reg = create_dir_all io (registry_path reg)"

definition template_dir :: "template_registry \<Rightarrow> string \<Rightarrow> string" where
  "template_dir reg name = path_join (registry_path reg) name"

definition parse_manifest :: "manifest_toml \<Rightarrow> string \<Rightarrow> fs \<Rightarrow> template_manifest result" where
  "parse_manifest M path fs = bind_res (read_at path fs) (manifest_read M)"

definition get_template :: "manifest_toml \<Rightarrow> template_registry \<Rightarrow> string \<Rightarrow> fs \<Rightarrow> template_manifest option result" where
  "get_template M reg name fs =
     (let manifest_path = path_join (template_dir reg name) ''manifest.toml''
      in if \<not> exists_at (template_dir reg name) fs then Inr None
         else if \<not> exists_at manifest_path fs then Inr None
         else bind_res (parse_manifest M manifest_path fs) (\<lambda>m. Inr (Some m)))"

definition get_template_version :: "manifest_toml \<Rightarrow> template_registry \<Rightarrow> string \<Rightarrow> fs \<Rightarrow> string option" where
  "get_template_version M reg name fs =
     (let manifest_path = path_join (template_dir reg name) ''manifest.toml''
      in if \<not> exists_at manifest_path fs then None
         else (case parse_manifest M manifest_path fs of
                 Inl _ \<Rightarrow> None | Inr m \<Rightarrow> Some (ti_version (tm_template m))))"

text \<open>
  The names of the directory's entries in the order it gives them; an entry that cannot be read is
  an error.
\<close>

definition summary_of :: "manifest_toml \<Rightarrow> template_registry \<Rightarrow> fs \<Rightarrow> string \<Rightarrow> template_summary" where
  "summary_of M reg fs name =
     (let path = template_dir reg name; manifest_path = path_join path ''manifest.toml''
      in if exists_at manifest_path fs
         then (case parse_manifest M manifest_path fs of
                 Inr m \<Rightarrow> \<lparr>ts_name = ti_name (tm_template m), ts_version = ti_version (tm_template m),
                           ts_description = ti_description (tm_template m), ts_path = path, ts_has_manifest = True\<rparr>
               | Inl _ \<Rightarrow> \<lparr>ts_name = name, ts_version = ''unknown'', ts_description = [], ts_path = path, ts_has_manifest = False\<rparr>)
         else \<lparr>ts_name = name, ts_version = ''unknown'', ts_description = ''(no manifest.toml)'', ts_path = path, ts_has_manifest = False\<rparr>)"

fun scan_entries :: "manifest_toml \<Rightarrow> template_registry \<Rightarrow> fs \<Rightarrow> string result list \<Rightarrow> template_summary list result" where
  "scan_entries M reg fs [] = Inr []"
| "scan_entries M reg fs (Inl e # es) = Inl e"
| "scan_entries M reg fs (Inr name # es) =
     (if fs (template_dir reg name) \<noteq> Some Dir then scan_entries M reg fs es
      else bind_res (scan_entries M reg fs es) (\<lambda>ts. Inr (summary_of M reg fs name # ts)))"

definition list_local :: "manifest_toml \<Rightarrow> template_registry \<Rightarrow> string result list result \<Rightarrow> fs \<Rightarrow> template_summary list result" where
  "list_local M reg entries fs =
     (if \<not> exists_at (registry_path reg) fs then Inr []
      else bind_res entries (\<lambda>es. bind_res (scan_entries M reg fs es) (\<lambda>ts. Inr (sort_key ts_name ts))))"

subsection \<open>Installing from the remote registry\<close>

text \<open>
  The HTTP client gives a status and a body; \<^verbatim>\<open>tar\<close> does not start, or changes the files and says
  whether it succeeded.
\<close>

definition archive_url :: "string \<Rightarrow> string \<Rightarrow> string \<Rightarrow> string" where
  "archive_url url name version =
     trim_end_matches (\<lambda>c. c = CHR ''/'') url @ ''/v1/templates/'' @ name @ ''/versions/'' @ version @ ''/archive''"

definition extract_archive :: "(string \<Rightarrow> string \<Rightarrow> fs \<Rightarrow> bool result \<times> fs) \<Rightarrow> string \<Rightarrow> string \<Rightarrow> unit io_op" where
  "extract_archive tar archive_path dir =
     then_io (tar archive_path dir) (\<lambda>ok. lift_io (require ok (Rejected ''Archive extraction failed'')))"

definition remove_file_at :: "string \<Rightarrow> unit io_op" where
  "remove_file_at p fs = (Inr (), case fs p of Some (File _) \<Rightarrow> fs(p := None) | _ \<Rightarrow> fs)"

definition install_template ::
    "io_faults \<Rightarrow> (string \<Rightarrow> (nat \<times> bytes result) result) \<Rightarrow> (string \<Rightarrow> string \<Rightarrow> fs \<Rightarrow> bool result \<times> fs)
     \<Rightarrow> template_registry \<Rightarrow> string \<Rightarrow> string \<Rightarrow> unit io_op" where
  "install_template io http tar reg name version =
     then_io (lift_io (of_option (NotFound ''registry URL'') (registry_url reg))) (\<lambda>url.
     then_io (lift_io (http (archive_url url name version))) (\<lambda>(status, body).
     then_io (lift_io (require (is_success status) (Rejected ''Template download failed''))) (\<lambda>_.
     then_io (lift_io body) (\<lambda>archive_bytes.
     then_io (create_dir_all io (template_dir reg name)) (\<lambda>_.
     then_io (write_file io (path_join (template_dir reg name) ''archive.tar.gz'') archive_bytes) (\<lambda>_.
     then_io (extract_archive tar (path_join (template_dir reg name) ''archive.tar.gz'') (template_dir reg name)) (\<lambda>_.
     remove_file_at (path_join (template_dir reg name) ''archive.tar.gz''))))))))"

subsection \<open>Installing for an agent\<close>

definition standard_files :: "string list" where
  "standard_files = [''run.sh'', ''install.sh'', ''health.sh'']"

definition copy_if_exists :: "io_faults \<Rightarrow> string \<Rightarrow> string \<Rightarrow> string \<Rightarrow> unit io_op" where
  "copy_if_exists io tdir agent_dir file =
     with_fs (\<lambda>fs. if exists_at (path_join tdir file) fs
            then copy_file io (path_join tdir file) (path_join agent_dir file) else lift_io (Inr ()))"

definition copy_listed :: "io_faults \<Rightarrow> string \<Rightarrow> string \<Rightarrow> string \<Rightarrow> unit io_op" where
  "copy_listed io tdir agent_dir file =
     with_fs (\<lambda>fs. if exists_at (path_join tdir file) fs
            then then_io (case parent_dir (path_join agent_dir file) of
                            None \<Rightarrow> lift_io (Inr ()) | Some d \<Rightarrow> create_dir_all io d) (\<lambda>_.
                 copy_file io (path_join tdir file) (path_join agent_dir file))
            else lift_io (Inr ()))"

text \<open>The files the manifest lists; a manifest that is missing or unreadable lists none.\<close>

definition listed_files :: "manifest_toml \<Rightarrow> template_registry \<Rightarrow> string \<Rightarrow> fs \<Rightarrow> string list" where
  "listed_files M reg name fs = (case get_template M reg name fs of Inr (Some m) \<Rightarrow> ins_files (tm_install m) | _ \<Rightarrow> [])"

text \<open>
  The install script runs in the agent's \<^verbatim>\<open>data\<close> directory and may change files; it does not start, or
  its exit status is only logged.
\<close>

definition run_install :: "(string \<Rightarrow> string \<Rightarrow> fs \<Rightarrow> bool result \<times> fs) \<Rightarrow> string \<Rightarrow> unit io_op" where
  "run_install bash agent_dir =
     with_fs (\<lambda>fs. if exists_at (path_join agent_dir ''install.sh'') fs
            then then_io (bash (path_join agent_dir ''install.sh'') (path_join agent_dir ''data'')) (\<lambda>_. lift_io (Inr ()))
            else lift_io (Inr ()))"

definition lines_text :: "string list \<Rightarrow> string" where
  "lines_text ls = concat (map (\<lambda>l. l @ [nl]) ls)"

definition stub_run :: "string \<Rightarrow> string" where
  "stub_run template_name = lines_text
     [''#!/bin/bash'',
      ''# Stub agent for template '' @ [CHR 0x27] @ template_name @ [CHR 0x27],
      ''echo '' @ [dquote] @ ''Agent $CLAWID_AGENT_NAME started (template: '' @ template_name @ '')'' @ [dquote],
      ''echo '' @ [dquote] @ ''Agent ID: $CLAWID_AGENT_ID'' @ [dquote],
      ''echo '' @ [dquote] @ ''Data dir: $CLAWID_DATA_DIR'' @ [dquote],
      '''',
      ''while true; do'',
      [CHR 0x09] @ ''sleep 30'',
      [CHR 0x09] @ ''echo '' @ [dquote] @ ''[$(date)] Agent $CLAWID_AGENT_NAME heartbeat'' @ [dquote],
      ''done'']"

definition copy_template :: "io_faults \<Rightarrow> manifest_toml \<Rightarrow> template_registry \<Rightarrow> string \<Rightarrow> string \<Rightarrow> unit io_op" where
  "copy_template io M reg template_name agent_dir =
     then_io (each_io (copy_if_exists io (template_dir reg template_name) agent_dir) standard_files) (\<lambda>_.
     with_fs (\<lambda>fs. each_io (copy_listed io (template_dir reg template_name) agent_dir) (listed_files M reg template_name fs)))"

definition install_for_agent ::
    "io_faults \<Rightarrow> manifest_toml \<Rightarrow> (string \<Rightarrow> string \<Rightarrow> fs \<Rightarrow> bool result \<times> fs) \<Rightarrow> template_registry
     \<Rightarrow> string \<Rightarrow> string \<Rightarrow> unit io_op" where
  "install_for_agent io M bash reg template_name agent_dir =
     with_fs (\<lambda>fs. if exists_at (template_dir reg template_name) fs
            then then_io (copy_template io M reg template_name agent_dir) (\<lambda>_. run_install bash agent_dir)
            else write_file io (path_join agent_dir ''run.sh'') (stub_run template_name))"

subsection \<open>Creating from a directory\<close>

text \<open>A source directory as the tree it holds.\<close>

datatype tree = Leaf bytes | Node "(string \<times> tree) list"

fun copy_dir_recursive :: "io_faults \<Rightarrow> tree \<Rightarrow> string \<Rightarrow> unit io_op" where
  "copy_dir_recursive io (Leaf b) dst = then_io (create_dir_all io dst) (\<lambda>_. lift_io (Inl (IoError ''not a directory'')))"
| "copy_dir_recursive io (Node es) dst =
     then_io (create_dir_all io dst) (\<lambda>_.
       each_io (\<lambda>f. f) (map (\<lambda>(n, t). case t of
            Node _ \<Rightarrow> copy_dir_recursive io t (path_join dst n)
          | Leaf b \<Rightarrow> write_file io (path_join dst n) b) es))"

definition local_manifest :: "string \<Rightarrow> string \<Rightarrow> template_manifest" where
  "local_manifest name source_dir =
     \<lparr>tm_template = \<lparr>ti_name = name, ti_version = ''0.1.0'', ti_description = ''Template created from '' @ source_dir,
                     ti_author = [], ti_license = ''Apache-2.0'', ti_tags = []\<rparr>,
      tm_requirements = default_requirements, tm_install = default_install, tm_run = default_run,
      tm_health = default_health, tm_scope = default_scope\<rparr>"

definition create_from_local ::
    "io_faults \<Rightarrow> manifest_toml \<Rightarrow> template_registry \<Rightarrow> string \<Rightarrow> string \<Rightarrow> tree option \<Rightarrow> unit io_op" where
  "create_from_local io M reg name source_dir source =
     (let dir = template_dir reg name; manifest_path = path_join dir ''manifest.toml''
      in then_io (lift_io (of_option (NotFound source_dir) source)) (\<lambda>t.
         with_fs (\<lambda>fs. if exists_at dir fs then lift_io (Inl (AlreadyExists name))
                else then_io (copy_dir_recursive io t dir) (\<lambda>_.
                     with_fs (\<lambda>fs'. if exists_at manifest_path fs' then lift_io (Inr ())
                             else then_io (lift_io (manifest_write M (local_manifest name source_dir))) (\<lambda>toml_str.
                                  write_file io manifest_path toml_str))))))"

subsection \<open>Listing\<close>

lemma scan_entries_ok:
  "scan_entries M reg fs es = Inr ts \<longleftrightarrow>
     (\<forall>e \<in> set es. \<exists>n. e = Inr n)
     \<and> ts = map (summary_of M reg fs) (filter (\<lambda>n. fs (template_dir reg n) = Some Dir) (map projr es))"
proof (induction M reg fs es arbitrary: ts rule: scan_entries.induct)
  case (3 M reg fs name es)
  then show ?case by (auto simp: bind_res_Inr_iff)
qed auto

text \<open>
  The list of the installed templates is sorted by name and has one entry for every directory of
  the registry and no other; a manifest that cannot be read hides none of them.
\<close>

theorem list_local_exact:
  assumes "exists_at (registry_path reg) fs"
  shows "list_local M reg (Inr (map Inr names)) fs = Inr ts \<longleftrightarrow>
     ts = sort_key ts_name (map (summary_of M reg fs) (filter (\<lambda>n. fs (template_dir reg n) = Some Dir) names))"
  using assms by (auto simp: list_local_def bind_res_Inr_iff scan_entries_ok comp_def)

subsection \<open>Installing for an agent\<close>

definition under_dir :: "string \<Rightarrow> string list \<Rightarrow> string set" where
  "under_dir dir files = (\<Union>f \<in> set files. insert (path_join dir f) (set (ancestors (path_join dir f))))"

lemma parent_ancestors:
  assumes "parent_dir p = Some d"
  shows "set (ancestors d) \<union> {d} \<subseteq> set (ancestors p)"
proof -
  obtain ds where r: "rev (ancestors p) = d # ds" using assms by (auto simp: parent_dir_def split: list.splits)
  then have "d \<in> set (ancestors p)" by (metis list.set_intros(1) set_rev)
  then obtain i where i: "d = take i p" "i < length p" by (auto simp: ancestors_def)
  have "set (ancestors (take i p)) \<subseteq> set (ancestors p)" using i by (auto simp: ancestors_def min_def image_iff intro!: bexI)
  then show ?thesis using i \<open>d \<in> set (ancestors p)\<close> by auto
qed

lemma touches_copy_if: "f \<in> set files \<Longrightarrow> touches (under_dir dir files) (copy_if_exists io tdir dir f)"
  unfolding copy_if_exists_def by (intro touch) (auto simp: under_dir_def)

lemma touches_copy_listed: "f \<in> set files \<Longrightarrow> touches (under_dir dir files) (copy_listed io tdir dir f)"
  unfolding copy_listed_def
proof (rule touches_with)
  fix fs assume f: "f \<in> set files"
  have "touches (under_dir dir files) (case parent_dir (path_join dir f) of None \<Rightarrow> lift_io (Inr ()) | Some d \<Rightarrow> create_dir_all io d)"
  proof (cases "parent_dir (path_join dir f)")
    case (Some d)
    then show ?thesis using parent_ancestors [OF Some] f by (simp, intro touch) (auto simp: under_dir_def)
  qed (simp add: touches_lift)
  moreover have "path_join dir f \<in> under_dir dir files" using f by (auto simp: under_dir_def)
  ultimately
  show "touches (under_dir dir files) (if exists_at (path_join tdir f) fs
      then then_io (case parent_dir (path_join dir f) of None \<Rightarrow> lift_io (Inr ()) | Some d \<Rightarrow> create_dir_all io d)
             (\<lambda>_. copy_file io (path_join tdir f) (path_join dir f)) else lift_io (Inr ()))"
    by (intro touches_if touches_then touches_copy touches_lift)
qed

text \<open>
  Copying a template into an agent's directory writes nothing but the three standard scripts and
  the files its manifest lists, under the agent's directory, and the directories above these.  The
  manifest's entries are joined to that directory unchecked: one that is absolute names its own
  place in the file system.
\<close>

theorem template_install_frame:
  fixes io M reg name dir fs
  defines "fs1 \<equiv> snd (each_io (copy_if_exists io (template_dir reg name) dir) standard_files fs)"
  assumes "p \<notin> under_dir dir (standard_files @ listed_files M reg name fs1)"
  shows "snd (copy_template io M reg name dir fs) p = fs p"
proof -
  let ?files = "standard_files @ listed_files M reg name fs1"
  have t1: "touches (under_dir dir ?files) (each_io (copy_if_exists io (template_dir reg name) dir) standard_files)"
    by (intro touch touches_copy_if) simp
  have t2: "touches (under_dir dir ?files) (each_io (copy_listed io (template_dir reg name) dir) (listed_files M reg name fs1))"
    by (intro touch touches_copy_listed) simp
  have p1: "fs1 p = fs p" using t1 assms(2) by (simp add: touches_def fs1_def)
  have p2: "snd (each_io (copy_listed io (template_dir reg name) dir) (listed_files M reg name fs1) fs1) p = fs1 p"
    using t2 assms(2) by (simp add: touches_def)
  show ?thesis
    using p1 p2 by (auto simp: copy_template_def with_fs_def then_io_def fs1_def split: prod.splits sum.splits)
qed

theorem template_install_frame_witness:
  "snd (copy_template (\<lambda>_. Inr ()) \<lparr>manifest_read = \<lambda>_. Inl LicenseFormat, manifest_write = \<lambda>_. Inl LicenseFormat\<rparr>
      \<lparr>registry_path = ''t'', registry_url = None\<rparr> ''x'' ''a'' (\<lambda>p. if p = ''t/x/run.sh'' then Some (File ''hi'') else None)) ''b'' = None"
proof -
  let ?M = "\<lparr>manifest_read = \<lambda>_. Inl LicenseFormat, manifest_write = \<lambda>_. Inl LicenseFormat\<rparr>" and ?reg = "\<lparr>registry_path = ''t'', registry_url = None\<rparr>"
  have "listed_files ?M ?reg ''x'' f = []" for f
    by (auto simp: listed_files_def get_template_def parse_manifest_def bind_res_def Let_def split: sum.splits)
  moreover have "''b'' \<notin> under_dir ''a'' standard_files" by code_simp
  ultimately show ?thesis by (subst template_install_frame) simp_all
qed

text \<open>An absolute entry of a manifest is written where it says, not in the agent's directory.\<close>

lemma manifest_entry_escapes: "path_join agent_dir (CHR ''/'' # f) = CHR ''/'' # f"
  by (simp add: path_join_def starts_with_def)

subsection \<open>Creating a template\<close>

definition grows :: "'a io_op \<Rightarrow> bool" where
  "grows f \<longleftrightarrow> (\<forall>fs p. fs p \<noteq> None \<longrightarrow> snd (f fs) p \<noteq> None)"

lemma grows_then: "grows f \<Longrightarrow> (\<And>x. grows (g x)) \<Longrightarrow> grows (then_io f g)"
  unfolding grows_def
proof (intro allI impI)
  fix fs :: fs and p assume f: "\<forall>fs p. fs p \<noteq> None \<longrightarrow> snd (f fs) p \<noteq> None" and p: "fs p \<noteq> None"
    and g: "\<And>x. \<forall>fs p. fs p \<noteq> None \<longrightarrow> snd (g x fs) p \<noteq> None"
  have "snd (f fs) p \<noteq> None" using f p by blast
  then show "snd (then_io f g fs) p \<noteq> None"
    using g by (cases "f fs"; cases "fst (f fs)") (auto simp: then_io_def)
qed

lemma grows_base: "grows (lift_io r)" "grows (write_file io p b)" "grows (create_dir_all io p)"
proof -
  show "grows (create_dir_all io p)"
    unfolding grows_def by (metis create_dir_all_keeps not_None_eq prod.collapse)
qed (auto simp: grows_def lift_io_def write_file_def split: sum.splits)

lemma grows_each: "(\<And>h. h \<in> set fs \<Longrightarrow> grows h) \<Longrightarrow> grows (each_io (\<lambda>f. f) fs)"
  by (induction fs) (auto intro!: grows_then grows_base)

lemmas grows_rules = grows_base grows_then grows_each

lemma grows_entries:
  assumes "\<And>n es'. (n, Node es') \<in> set es \<Longrightarrow> grows (copy_dir_recursive io (Node es') (path_join dst n))"
  shows "grows (each_io (\<lambda>f. f) (map (\<lambda>(n, t). case t of Node _ \<Rightarrow> copy_dir_recursive io t (path_join dst n)
          | Leaf b \<Rightarrow> write_file io (path_join dst n) b) es))"
proof (rule grows_each)
  fix h assume "h \<in> set (map (\<lambda>(n, t). case t of Node _ \<Rightarrow> copy_dir_recursive io t (path_join dst n)
          | Leaf b \<Rightarrow> write_file io (path_join dst n) b) es)"
  then obtain n t where nt: "(n, t) \<in> set es"
    and h: "h = (case t of Node _ \<Rightarrow> copy_dir_recursive io t (path_join dst n) | Leaf b \<Rightarrow> write_file io (path_join dst n) b)"
    by auto
  show "grows h"
  proof (cases t)
    case (Node es')
    then show ?thesis using assms nt unfolding h by (simp only: tree.case)
  qed (simp add: h grows_base)
qed

lemma grows_copy_dir: "grows (copy_dir_recursive io t dst)"
proof (induction io t dst rule: copy_dir_recursive.induct)
  case (1 io b dst)
  show ?case by (simp only: copy_dir_recursive.simps) (intro grows_then grows_base)
next
  case (2 io es dst)
  have "grows (copy_dir_recursive io (Node es') (path_join dst n))" if "(n, Node es') \<in> set es" for n es'
    by (rule 2 [OF that refl refl])
  then show ?case by (subst copy_dir_recursive.simps) (intro grows_then grows_base grows_entries)
qed

lemma copy_dir_makes: "copy_dir_recursive io t dst fs = (Inr u, fs') \<Longrightarrow> exists_at dst fs'"
proof (cases t)
  case (Node es)
  let ?entries = "each_io (\<lambda>f. f) (map (\<lambda>(n, t). case t of Node _ \<Rightarrow> copy_dir_recursive io t (path_join dst n)
          | Leaf b \<Rightarrow> write_file io (path_join dst n) b) es)"
  assume "copy_dir_recursive io t dst fs = (Inr u, fs')"
  then obtain fs1 where mk: "create_dir_all io dst fs = (Inr (), fs1)" and es: "?entries fs1 = (Inr u, fs')"
    unfolding Node copy_dir_recursive.simps then_io_ok_iff by auto
  have "fs1 dst \<noteq> None" using mk by (auto simp: create_dir_all_def make_dir_def split: sum.splits if_splits)
  moreover have "grows ?entries" by (rule grows_entries) (rule grows_copy_dir)
  ultimately have "snd (?entries fs1) dst \<noteq> None" unfolding grows_def by blast
  then show ?thesis unfolding es exists_at_def by simp
qed (simp add: then_io_ok_iff)

text \<open>
  Creating a template from a directory that brings no manifest succeeds only for a new name, and
  the registry then gives back the manifest the code makes up for it: that name, version 0.1.0 and
  the defaults.
\<close>

theorem create_then_get:
  assumes "create_from_local io M reg name source_dir (Some t) fs = (Inr (), fs')"
    and "copy_dir_recursive io t (template_dir reg name) fs = (Inr (), fs1)"
    and "\<not> exists_at (path_join (template_dir reg name) ''manifest.toml'') fs1"
    and toml: "\<And>m s. manifest_write M m = Inr s \<Longrightarrow> manifest_read M s = Inr m"
  shows "\<not> exists_at (template_dir reg name) fs
    \<and> get_template M reg name fs' = Inr (Some (local_manifest name source_dir))
    \<and> get_template_version M reg name fs' = Some ''0.1.0''"
proof -
  let ?dir = "template_dir reg name" let ?p = "path_join ?dir ''manifest.toml''"
  have new: "\<not> exists_at ?dir fs"
    using assms(1) by (auto simp: create_from_local_def with_fs_def then_io_ok_iff Let_def split: if_splits)
  obtain s where s: "manifest_write M (local_manifest name source_dir) = Inr s" "write_file io ?p s fs1 = (Inr (), fs')"
    using assms(1-3) new by (auto simp: create_from_local_def with_fs_def then_io_ok_iff Let_def dest: sym)
  have fs': "fs' = fs1(?p \<mapsto> File s)" by (rule write_file_ok [OF s(2)])
  have "exists_at ?dir fs1" by (rule copy_dir_makes [OF assms(2)])
  then have "exists_at ?dir fs'" by (simp add: fs' exists_at_def)
  moreover have "parse_manifest M ?p fs' = Inr (local_manifest name source_dir)"
    using toml [OF s(1)] by (simp add: parse_manifest_def read_at_def fs')
  moreover have "exists_at ?p fs'" by (simp add: fs' exists_at_def)
  ultimately show ?thesis using new
    by (simp add: get_template_def get_template_version_def Let_def) (simp add: local_manifest_def)
qed

definition one_manifest :: manifest_toml where
  "one_manifest = \<lparr>manifest_read = (\<lambda>s. Inr (local_manifest ''bot'' ''src'')),
     manifest_write = (\<lambda>m. if m = local_manifest ''bot'' ''src'' then Inr ''toml'' else Inl LicenseFormat)\<rparr>"

theorem create_then_get_witness:
  "\<exists>fs'. create_from_local (\<lambda>_. Inr ()) one_manifest \<lparr>registry_path = ''t'', registry_url = None\<rparr> ''bot'' ''src''
       (Some (Node [(''run.sh'', Leaf ''hi'')])) (\<lambda>_. None) = (Inr (), fs')
     \<and> get_template_version one_manifest \<lparr>registry_path = ''t'', registry_url = None\<rparr> ''bot'' fs' = Some ''0.1.0''"
proof -
  let ?io = "\<lambda>_. Inr ()" and ?reg = "\<lparr>registry_path = ''t'', registry_url = None\<rparr>" and ?t = "Node [(''run.sh'', Leaf ''hi'')]"
  have dir: "template_dir ?reg ''bot'' = ''t/bot''" by (simp add: template_dir_def path_join_def starts_with_def ends_with_def)
  have an: "ancestors ''t/bot'' = [''t'']" by code_simp
  have jn: "path_join ''t/bot'' f = ''t/bot/'' @ f" if "hd (f @ ''x'') \<noteq> CHR ''/''" for f
    using that by (cases f) (auto simp: path_join_def starts_with_def ends_with_def)
  obtain fs1 where fs1: "copy_dir_recursive ?io ?t (template_dir ?reg ''bot'') (\<lambda>_. None) = (Inr (), fs1)"
      "fs1 ''t/bot/manifest.toml'' = None"
    by (simp add: dir then_io_def create_dir_all_def an make_dir_def write_file_def jn lift_io_def)
  have "create_from_local ?io one_manifest ?reg ''bot'' ''src'' (Some ?t) (\<lambda>_. None) = (Inr (), fs1(''t/bot/manifest.toml'' \<mapsto> File ''toml''))"
    using fs1 unfolding create_from_local_def Let_def dir
    by (simp add: then_io_def with_fs_def lift_io_def exists_at_def jn one_manifest_def write_file_def dir)
  moreover have "\<not> exists_at (path_join (template_dir ?reg ''bot'') ''manifest.toml'') fs1" using fs1(2) by (simp add: dir jn exists_at_def)
  moreover have "manifest_read one_manifest s = Inr m" if "manifest_write one_manifest m = Inr s" for m s
    using that by (simp add: one_manifest_def split: if_splits)
  ultimately show ?thesis using create_then_get [OF _ fs1(1)] by blast
qed

end
