(* ===== verification/Updates.thy ===== *)
theory Updates
  imports Templates
begin

text \<open>
  The update checker, \<^verbatim>\<open>grokingclaw-daemon/src/updates.rs\<close>: asking the registry for newer versions of the daemon
  and of the installed templates, and installing the updates of templates that are not major.  The
  registry's answers, the clock at each of them and the directory listing are the environment.
\<close>

subsection \<open>Types\<close>

datatype update_kind = TemplateUpdate | DaemonUpdate

record update_info =
  up_kind :: update_kind
  up_name :: string
  up_current_version :: string
  up_latest_version :: string
  up_is_major :: bool
  up_changelog_url :: "string option"
  up_checked_at :: datetime

record update_result =
  ur_available_updates :: "update_info list"
  ur_checked_at :: datetime
  ur_next_check_at :: datetime

record version_response =
  vr_version :: string
  vr_changelog_url :: "string option"

definition version_from_json :: "json \<Rightarrow> version_response option" where
  "version_from_json v =
     (case (case v of JArr [x] \<Rightarrow> Some [x, JNull]
            | _ \<Rightarrow> struct_opt_members [(''version'', False), (''changelog_url'', True)] v) of
        Some [JStr ver, c] \<Rightarrow> map_option (\<lambda>url. \<lparr>vr_version = ver, vr_changelog_url = url\<rparr>) (opt_str c)
      | _ \<Rightarrow> None)"

definition update_info_value :: "ext \<Rightarrow> update_info \<Rightarrow> json" where
  "update_info_value E u = json_object
     [(''kind'', JStr (case up_kind u of TemplateUpdate \<Rightarrow> ''template'' | DaemonUpdate \<Rightarrow> ''daemon'')), (''name'', JStr (up_name u)),
      (''current_version'', JStr (up_current_version u)), (''latest_version'', JStr (up_latest_version u)),
      (''is_major'', JBool (up_is_major u)),
      (''changelog_url'', (case up_changelog_url u of None \<Rightarrow> JNull | Some c \<Rightarrow> JStr c)),
      (''checked_at'', JStr (dt_serde E (up_checked_at u)))]"

definition update_result_value :: "ext \<Rightarrow> update_result \<Rightarrow> json" where
  "update_result_value E r = json_object
     [(''available_updates'', JArr (map (update_info_value E) (ur_available_updates r))),
      (''checked_at'', JStr (dt_serde E (ur_checked_at r))), (''next_check_at'', JStr (dt_serde E (ur_next_check_at r)))]"

subsection \<open>The checker\<close>

record update_checker =
  uc_config :: daemon_config
  uc_templates :: template_registry
  uc_registry_url :: "string option"
  uc_last_check :: "datetime option"
  uc_available_updates :: "update_info list"

definition update_checker_new :: "daemon_config \<Rightarrow> template_registry \<Rightarrow> string option \<Rightarrow> update_checker" where
  "update_checker_new config templates url =
     \<lparr>uc_config = config, uc_templates = templates, uc_registry_url = url,
      uc_last_check = None, uc_available_updates = []\<rparr>"

text \<open>
  \<open>ue_get\<close> is an HTTP GET: it fails, or gives the status and the body's JSON; \<open>ue_at\<close> the time of an
  answer, \<open>ue_now\<close> that of the check's end.
\<close>

record update_env =
  ue_version :: string
  ue_get :: "string \<Rightarrow> (nat \<times> json result) result"
  ue_at :: "string \<Rightarrow> datetime"
  ue_now :: datetime
  ue_entries :: "string result list result"
  ue_manifest :: manifest_toml
  ue_archive :: "string \<Rightarrow> (nat \<times> bytes result) result"
  ue_tar :: "string \<Rightarrow> string \<Rightarrow> fs \<Rightarrow> bool result \<times> fs"
  ue_io :: io_faults

definition no_slash :: "string \<Rightarrow> string" where
  "no_slash url = trim_end_matches (\<lambda>c. c = CHR ''/'') url"

definition is_major_update :: "string \<Rightarrow> string \<Rightarrow> bool" where
  "is_major_update current latest =
     (case (parse_u32 (hd (split_on (CHR ''.'') current)), parse_u32 (hd (split_on (CHR ''.'') latest))) of
        (Some c, Some l) \<Rightarrow> c < l
      | _ \<Rightarrow> False)"

text \<open>The version the registry gives at a URL: nothing unless the answer is a success with a readable body.\<close>

definition latest_at :: "update_env \<Rightarrow> string \<Rightarrow> version_response option" where
  "latest_at V url =
     (case ue_get V url of
        Inr (status, body) \<Rightarrow>
          if is_success status then (case body of Inr v \<Rightarrow> version_from_json v | Inl _ \<Rightarrow> None) else None
      | Inl _ \<Rightarrow> None)"

definition newer :: "update_kind \<Rightarrow> update_env \<Rightarrow> string \<Rightarrow> string \<Rightarrow> string \<Rightarrow> update_info option" where
  "newer k V url name current =
     (case latest_at V url of
        None \<Rightarrow> None
      | Some v \<Rightarrow>
          if vr_version v = current then None
          else Some \<lparr>up_kind = k, up_name = name, up_current_version = current, up_latest_version = vr_version v,
                     up_is_major = is_major_update current (vr_version v), up_changelog_url = vr_changelog_url v,
                     up_checked_at = ue_at V url\<rparr>)"

definition check_daemon_update :: "update_env \<Rightarrow> update_checker \<Rightarrow> update_info option" where
  "check_daemon_update V c =
     (case uc_registry_url c of
        None \<Rightarrow> None
      | Some url \<Rightarrow> newer DaemonUpdate V (no_slash url @ ''/v1/daemon/latest'') ''grokingclaw'' (ue_version V))"

definition template_url :: "string \<Rightarrow> string \<Rightarrow> string" where
  "template_url url name = no_slash url @ ''/v1/templates/'' @ name @ ''/latest''"

definition template_update :: "update_env \<Rightarrow> string \<Rightarrow> template_summary \<Rightarrow> update_info option" where
  "template_update V url t =
     (if ts_version t = ''unknown'' then None
      else newer TemplateUpdate V (template_url url (ts_name t)) (ts_name t) (ts_version t))"

definition check_template_updates :: "update_env \<Rightarrow> update_checker \<Rightarrow> fs \<Rightarrow> update_info list result" where
  "check_template_updates V c fs =
     (case uc_registry_url c of
        None \<Rightarrow> Inr []
      | Some url \<Rightarrow>
          bind_res (list_local (ue_manifest V) (uc_templates c) (ue_entries V) fs) (\<lambda>local_templates.
          Inr (List.map_filter (template_update V url) local_templates)))"

definition check_updates :: "ext \<Rightarrow> update_env \<Rightarrow> fs \<Rightarrow> update_checker \<Rightarrow> update_result result \<times> update_checker" where
  "check_updates E V fs c =
     (let updates = (case check_daemon_update V c of Some u \<Rightarrow> [u] | None \<Rightarrow> [])
                    @ unwrap_or [] (check_template_updates V c fs);
          interval = seconds (60 * uint (up_check_interval_minutes (dc_updates (uc_config c))))
      in case plus_duration E (ue_now V) interval of
           Inl e \<Rightarrow> (Inl e, c)
         | Inr next_check \<Rightarrow>
             (Inr \<lparr>ur_available_updates = updates, ur_checked_at = ue_now V, ur_next_check_at = next_check\<rparr>,
              c\<lparr>uc_last_check := Some (ue_now V), uc_available_updates := updates\<rparr>))"

definition get_status :: "update_checker \<Rightarrow> update_info list" where
  "get_status c = uc_available_updates c"

subsection \<open>Applying\<close>

definition applicable :: "update_info \<Rightarrow> bool" where
  "applicable u \<longleftrightarrow> up_kind u = TemplateUpdate \<and> \<not> up_is_major u"

definition applied_text :: "update_info \<Rightarrow> string" where
  "applied_text u = up_name u @ '': '' @ up_current_version u @ '' '' @ map char_of [226, 134, 146 :: nat] @ '' '' @ up_latest_version u"

fun apply_each :: "update_env \<Rightarrow> template_registry \<Rightarrow> update_info list \<Rightarrow> fs \<Rightarrow> string list \<times> fs" where
  "apply_each V reg [] fs = ([], fs)"
| "apply_each V reg (u # us) fs =
     (let r = install_template (ue_io V) (ue_archive V) (ue_tar V) reg (up_name u) (up_latest_version u) fs;
          rest = apply_each V reg us (snd r)
      in (case fst r of Inr _ \<Rightarrow> applied_text u # fst rest | Inl _ \<Rightarrow> fst rest, snd rest))"

definition apply_template_updates :: "update_env \<Rightarrow> update_checker \<Rightarrow> fs \<Rightarrow> string list \<times> fs" where
  "apply_template_updates V c fs = apply_each V (uc_templates c) (filter applicable (uc_available_updates c)) fs"

text \<open>One turn of the background loop, after its sleep; \<open>V'\<close> is the world of the installation.\<close>

definition update_cycle :: "ext \<Rightarrow> update_env \<Rightarrow> update_env \<Rightarrow> update_checker \<times> fs \<Rightarrow> update_checker \<times> fs" where
  "update_cycle E V V' w =
     (let r = check_updates E V (snd w) (fst w)
      in case fst r of
           Inl _ \<Rightarrow> (snd r, snd w)
         | Inr result \<Rightarrow>
             if ur_available_updates result \<noteq> [] \<and> up_auto_update_templates (dc_updates (uc_config (fst w)))
             then (snd r, snd (apply_template_updates V' (snd r) (snd w)))
             else (snd r, snd w))"

subsection \<open>What a check finds\<close>

lemma newer_iff:
  "newer k V url name current = Some u \<longleftrightarrow>
     (\<exists>v. latest_at V url = Some v \<and> vr_version v \<noteq> current
        \<and> u = \<lparr>up_kind = k, up_name = name, up_current_version = current, up_latest_version = vr_version v,
               up_is_major = is_major_update current (vr_version v), up_changelog_url = vr_changelog_url v,
               up_checked_at = ue_at V url\<rparr>)"
  by (auto simp: newer_def split: option.splits if_splits)

lemma map_filter_member: "u \<in> set (List.map_filter f ts) \<longleftrightarrow> (\<exists>t \<in> set ts. f t = Some u)"
  by (induction ts) (auto simp: map_filter_simps split: option.splits)

text \<open>
  What an update check reports.  The updates of templates in the checker's state after a check are
  exactly those of the listed templates of known version for which the registry answers with a
  different version; an answer that fails hides no other template, and a check that cannot list the
  templates reports none.
\<close>

theorem update_check_exact:
  assumes "check_updates E V fs c = (Inr result, c')" and "uc_registry_url c = Some url"
    and "list_local (ue_manifest V) (uc_templates c) (ue_entries V) fs = Inr ts"
  shows "uc_available_updates c' = ur_available_updates result
    \<and> (u \<in> set (uc_available_updates c') \<and> up_kind u = TemplateUpdate \<longleftrightarrow>
        (\<exists>t \<in> set ts. \<exists>v. ts_version t \<noteq> ''unknown'' \<and> latest_at V (template_url url (ts_name t)) = Some v
           \<and> vr_version v \<noteq> ts_version t
           \<and> u = \<lparr>up_kind = TemplateUpdate, up_name = ts_name t, up_current_version = ts_version t,
                  up_latest_version = vr_version v, up_is_major = is_major_update (ts_version t) (vr_version v),
                  up_changelog_url = vr_changelog_url v, up_checked_at = ue_at V (template_url url (ts_name t))\<rparr>))"
proof -
  let ?d = "case check_daemon_update V c of Some u \<Rightarrow> [u] | None \<Rightarrow> []"
  have "ur_available_updates result = ?d @ List.map_filter (template_update V url) ts"
    and same: "uc_available_updates c' = ur_available_updates result"
    using assms by (auto simp: check_updates_def check_template_updates_def Let_def split: sum.splits)
  then have "uc_available_updates c' = ?d @ List.map_filter (template_update V url) ts" by simp
  moreover have "up_kind u = DaemonUpdate" if "u \<in> set ?d" for u
    using that by (cases "check_daemon_update V c") (auto simp: check_daemon_update_def newer_iff split: option.splits)
  moreover have "up_kind u = TemplateUpdate" if "template_update V url t = Some u" for t u
    using that by (auto simp: template_update_def newer_iff split: if_splits)
  ultimately have "u \<in> set (uc_available_updates c') \<and> up_kind u = TemplateUpdate \<longleftrightarrow> (\<exists>t \<in> set ts. template_update V url t = Some u)"
    by (auto simp: map_filter_member)
  then show ?thesis using same by (simp add: template_update_def newer_iff split: if_splits) blast
qed

lemma check_updates_total:
  assumes "dt_in_range E (ue_now V + seconds (60 * uint (up_check_interval_minutes (dc_updates (uc_config c)))))"
  shows "\<exists>result c'. check_updates E V fs c = (Inr result, c')"
  using assms by (simp add: check_updates_def plus_duration_def Let_def)

subsection \<open>What is applied\<close>

text \<open>A registry of one template, \<^verbatim>\<open>bot\<close> in version 0.1.0, whose server offers version 0.0.9.\<close>

definition demo_templates :: template_registry where
  "demo_templates = \<lparr>registry_path = ''t'', registry_url = Some ''u''\<rparr>"

definition demo_update_env :: update_env where
  "demo_update_env = \<lparr>ue_version = ''1.0.0'',
     ue_get = (\<lambda>_. Inr (200, Inr (JObj [(''version'', JStr ''0.0.9'')]))), ue_at = (\<lambda>_. 0), ue_now = 0,
     ue_entries = Inr [Inr ''bot''], ue_manifest = one_manifest, ue_archive = (\<lambda>_. Inr (200, Inr ''tgz'')),
     ue_tar = (\<lambda>_ _ fs. (Inr True, fs)), ue_io = (\<lambda>_. Inr ())\<rparr>"

definition demo_update_fs :: fs where
  "demo_update_fs = [''t'' \<mapsto> Dir, ''t/bot'' \<mapsto> Dir, ''t/bot/manifest.toml'' \<mapsto> File ''toml'']"

definition demo_checker :: update_checker where
  "demo_checker = update_checker_new default_daemon_config demo_templates (Some ''u'')"

definition demo_summary :: template_summary where
  "demo_summary = \<lparr>ts_name = ''bot'', ts_version = ''0.1.0'', ts_description = ''Template created from src'',
     ts_path = ''t/bot'', ts_has_manifest = True\<rparr>"

lemma demo_list_local:
  "list_local (ue_manifest demo_update_env) (uc_templates demo_checker) (ue_entries demo_update_env) demo_update_fs = Inr [demo_summary]"
proof -
  have dir: "template_dir demo_templates ''bot'' = ''t/bot''"
    by (simp add: demo_templates_def template_dir_def path_join_def starts_with_def ends_with_def)
  have m: "path_join ''t/bot'' ''manifest.toml'' = ''t/bot/manifest.toml''" by code_simp
  have "parse_manifest one_manifest ''t/bot/manifest.toml'' demo_update_fs = Inr (local_manifest ''bot'' ''src'')"
    by (simp add: parse_manifest_def read_at_def demo_update_fs_def one_manifest_def)
  then show ?thesis
    by (simp add: list_local_def demo_checker_def update_checker_new_def demo_update_env_def exists_at_def summary_of_def dir m)
       (simp add: demo_update_fs_def demo_templates_def demo_summary_def local_manifest_def)
qed

lemma demo_check:
  "\<exists>result c'. check_updates ref_ext demo_update_env demo_update_fs demo_checker = (Inr result, c')"
  by (rule check_updates_total)
     (simp add: demo_update_env_def demo_checker_def update_checker_new_def default_daemon_config_def default_updates_def seconds_def ns_per_sec_def ref_ext_def)

lemma demo_latest: "latest_at demo_update_env url = Some \<lparr>vr_version = ''0.0.9'', vr_changelog_url = None\<rparr>"
  by (simp add: latest_at_def demo_update_env_def is_success_def version_from_json_def struct_opt_members_def struct_field_def
      opt_field_def opt_str_def)

theorem update_check_exact_witness:
  "\<exists>result c' u. check_updates ref_ext demo_update_env demo_update_fs demo_checker = (Inr result, c')
     \<and> u \<in> set (uc_available_updates c') \<and> up_name u = ''bot'' \<and> up_latest_version u = ''0.0.9''"
proof -
  obtain result c' where r: "check_updates ref_ext demo_update_env demo_update_fs demo_checker = (Inr result, c')"
    using demo_check by blast
  have url: "uc_registry_url demo_checker = Some ''u''" by (simp add: demo_checker_def update_checker_new_def)
  let ?u = "\<lparr>up_kind = TemplateUpdate, up_name = ''bot'', up_current_version = ''0.1.0'', up_latest_version = ''0.0.9'',
    up_is_major = is_major_update ''0.1.0'' ''0.0.9'', up_changelog_url = None, up_checked_at = 0\<rparr>"
  have "ue_at demo_update_env x = 0" for x by (simp add: demo_update_env_def)
  then have "?u \<in> set (uc_available_updates c')"
    using update_check_exact [OF r url demo_list_local, of ?u, THEN conjunct2] by (simp add: demo_latest demo_summary_def)
  then show ?thesis using r by force
qed

text \<open>
  Applying installs no major update and nothing of the daemon.  Only the archives of the
  templates' updates that are not major are asked for: whatever the registry has elsewhere, the
  files and the answer are the same.
\<close>

theorem apply_minor_only:
  assumes "\<forall>u \<in> set (uc_available_updates c). up_kind u = TemplateUpdate \<and> \<not> up_is_major u \<longrightarrow>
      (\<forall>url. registry_url (uc_templates c) = Some url \<longrightarrow>
        archive (archive_url url (up_name u) (up_latest_version u)) = ue_archive V (archive_url url (up_name u) (up_latest_version u)))"
  shows "apply_template_updates (V\<lparr>ue_archive := archive\<rparr>) c fs = apply_template_updates V c fs"
proof -
  have "apply_each (V\<lparr>ue_archive := archive\<rparr>) reg us fs = apply_each V reg us fs"
    if "\<forall>u \<in> set us. \<forall>url. registry_url reg = Some url \<longrightarrow>
        archive (archive_url url (up_name u) (up_latest_version u)) = ue_archive V (archive_url url (up_name u) (up_latest_version u))"
    for us reg fs
    using that
  proof (induction us arbitrary: fs)
    case (Cons u us)
    then have "install_template (ue_io V) archive (ue_tar V) reg (up_name u) (up_latest_version u)
        = install_template (ue_io V) (ue_archive V) (ue_tar V) reg (up_name u) (up_latest_version u)"
      by (cases "registry_url reg") (simp_all add: install_template_def then_io_def lift_io_def fun_eq_iff)
    then show ?case using Cons by (simp add: Let_def)
  qed simp
  then show ?thesis using assms by (auto simp: apply_template_updates_def applicable_def)
qed

theorem apply_minor_only_witness:
  "apply_template_updates (demo_update_env\<lparr>ue_archive := \<lambda>_. Inl (IoError [])\<rparr>) (demo_checker\<lparr>uc_available_updates :=
      [\<lparr>up_kind = TemplateUpdate, up_name = ''bot'', up_current_version = ''0.1.0'', up_latest_version = ''1.0.0'',
        up_is_major = True, up_changelog_url = None, up_checked_at = 0\<rparr>]\<rparr>) demo_update_fs = ([], demo_update_fs)"
proof -
  let ?c = "demo_checker\<lparr>uc_available_updates :=
      [\<lparr>up_kind = TemplateUpdate, up_name = ''bot'', up_current_version = ''0.1.0'', up_latest_version = ''1.0.0'',
        up_is_major = True, up_changelog_url = None, up_checked_at = 0\<rparr>]\<rparr>"
  have "apply_template_updates (demo_update_env\<lparr>ue_archive := \<lambda>_. Inl (IoError [])\<rparr>) ?c demo_update_fs
      = apply_template_updates demo_update_env ?c demo_update_fs"
    by (rule apply_minor_only) simp
  then show ?thesis by (simp add: apply_template_updates_def applicable_def)
qed

text \<open>
  What counts as major.  An update is major only when both versions begin with a number that fits
  32 bits and the new one is greater.  So a registry that offers an older version, or a version whose
  text begins with a letter, is offering a minor update, and the background loop installs it when it
  may update templates.
\<close>

theorem downgrade_is_minor:
  fixes E :: ext and c :: update_checker
  assumes "check_updates E V fs c = (Inr result, c')" and "uc_registry_url c = Some url"
    and "list_local (ue_manifest V) (uc_templates c) (ue_entries V) fs = Inr [t]" and "ts_version t \<noteq> ''unknown''"
    and "latest_at V (template_url url (ts_name t)) = Some v" and "vr_version v \<noteq> ts_version t"
    and "\<forall>m n. parse_u32 (hd (split_on (CHR ''.'') (ts_version t))) = Some m \<and> parse_u32 (hd (split_on (CHR ''.'') (vr_version v))) = Some n \<longrightarrow> n \<le> m"
    and "up_auto_update_templates (dc_updates (uc_config c))"
  shows "snd (update_cycle E V V' (c, fs))
    = snd (install_template (ue_io V') (ue_archive V') (ue_tar V') (uc_templates c) (ts_name t) (vr_version v) fs)"
proof -
  have minor: "\<not> is_major_update (ts_version t) (vr_version v)"
    using assms(7) by (force simp: is_major_update_def split: option.splits)
  have "filter applicable (case check_daemon_update V c of Some u \<Rightarrow> [u] | None \<Rightarrow> []) = []"
    by (auto simp: check_daemon_update_def newer_iff applicable_def split: option.splits)
  moreover obtain u where u: "template_update V url t = Some u" "applicable u" "up_name u = ts_name t" "up_latest_version u = vr_version v"
    using assms(4-6) minor by (auto simp: template_update_def newer_def applicable_def)
  have "uc_available_updates c' = (case check_daemon_update V c of Some u \<Rightarrow> [u] | None \<Rightarrow> []) @ [u]"
    "uc_templates c' = uc_templates c" "ur_available_updates result \<noteq> []"
    using assms(1-3) u(1) by (auto simp: check_updates_def check_template_updates_def Let_def map_filter_simps split: sum.splits)
  ultimately show ?thesis using assms(1,8) u by (simp add: update_cycle_def apply_template_updates_def Let_def)
qed

theorem downgrade_is_minor_witness:
  "snd (update_cycle ref_ext demo_update_env demo_update_env (demo_checker, demo_update_fs))
    = snd (install_template (\<lambda>_. Inr ()) (\<lambda>_. Inr (200, Inr ''tgz'')) (\<lambda>_ _ fs. (Inr True, fs)) demo_templates ''bot'' ''0.0.9'' demo_update_fs)"
proof -
  obtain result c' where r: "check_updates ref_ext demo_update_env demo_update_fs demo_checker = (Inr result, c')"
    using demo_check by blast
  have c: "uc_registry_url demo_checker = Some ''u''" "uc_templates demo_checker = demo_templates"
    "up_auto_update_templates (dc_updates (uc_config demo_checker))"
    by (simp_all add: demo_checker_def update_checker_new_def default_daemon_config_def default_updates_def)
  let ?V = demo_update_env
  have "snd (update_cycle ref_ext ?V ?V (demo_checker, demo_update_fs))
      = snd (install_template (ue_io ?V) (ue_archive ?V) (ue_tar ?V) (uc_templates demo_checker) (ts_name demo_summary)
          (vr_version \<lparr>vr_version = ''0.0.9'', vr_changelog_url = None\<rparr>) demo_update_fs)"
    by (rule downgrade_is_minor [OF r c(1) demo_list_local _ demo_latest _ _ c(3)]) (auto simp: demo_summary_def)
  then show ?thesis unfolding c(2) by (simp add: demo_summary_def demo_update_env_def)
qed

end
