(* ===== verification/Iota_Wallet.thy ===== *)
theory Iota_Wallet
  imports Audit_Log
begin

text \<open>
  The IOTA client of \<^verbatim>\<open>grokingclawid-core/src/iota.rs\<close> and the wallet commands of
  \<^verbatim>\<open>grokingclawid-cli/src/commands/wallet.rs\<close> that use it.  BLAKE2b is a parameter, and so is the node: a
  function from a URL and a posted body to the status and body of the answer.
\<close>

type_synonym blake = "bytes \<Rightarrow> bytes"
type_synonym http_post = "string \<Rightarrow> string \<Rightarrow> (nat \<times> string) result"

subsection \<open>Addresses, digests and attestations\<close>

definition TESTNET_RPC :: string where "TESTNET_RPC = ''https://api.testnet.iota.cafe''"
definition TESTNET_FAUCET :: string where "TESTNET_FAUCET = ''https://faucet.testnet.iota.cafe/gas''"
definition DEVNET_RPC :: string where "DEVNET_RPC = ''https://api.devnet.iota.cafe''"
definition DEVNET_FAUCET :: string where "DEVNET_FAUCET = ''https://faucet.devnet.iota.cafe/gas''"

definition derive_iota_address :: "ext \<Rightarrow> blake \<Rightarrow> bytes \<Rightarrow> string" where
  "derive_iota_address E B pub_bytes = ''0x'' @ hex_encode E (B (nul # pub_bytes))"

definition INTENT_PREFIX :: bytes where "INTENT_PREFIX = [nul, nul, nul]"

record pq_transaction_attestation =
  pta_tx_digest :: string
  pta_mldsa65_signature :: string
  pta_mldsa65_public_key :: string
  pta_attested_at :: string

definition compute_tx_digest :: "blake \<Rightarrow> bytes \<Rightarrow> bytes" where
  "compute_tx_digest B tx_bytes = B (INTENT_PREFIX @ tx_bytes)"

definition sign_transaction :: "ext \<Rightarrow> blake \<Rightarrow> bytes \<Rightarrow> bytes \<Rightarrow> string" where
  "sign_transaction E B signing_key tx_bytes =
     (let digest = compute_tx_digest B tx_bytes;
          signature = ed_sign_raw E signing_key digest
      in b64_encode E (nul # signature @ ed_public E signing_key))"

definition create_pq_attestation ::
    "ext \<Rightarrow> blake \<Rightarrow> datetime \<Rightarrow> bytes \<Rightarrow> bytes \<Rightarrow> bytes \<Rightarrow> pq_transaction_attestation result" where
  "create_pq_attestation E B now mldsa_secret_key mldsa_public_key tx_bytes =
     (let digest = compute_tx_digest B tx_bytes
      in bind_res (mldsa_sign E mldsa_secret_key digest) (\<lambda>mldsa_sig.
         Inr \<lparr>pta_tx_digest = hex_encode E digest, pta_mldsa65_signature = mldsa_sig,
              pta_mldsa65_public_key = b64_encode E mldsa_public_key, pta_attested_at = rfc3339 E now\<rparr>))"

definition verify_pq_attestation :: "ext \<Rightarrow> blake \<Rightarrow> pq_transaction_attestation \<Rightarrow> bytes \<Rightarrow> bool result" where
  "verify_pq_attestation E B attestation tx_bytes =
     (let digest = compute_tx_digest B tx_bytes;
          expected_digest = hex_encode E digest
      in if pta_tx_digest attestation \<noteq> expected_digest then Inr False
         else mldsa_verify E (pta_mldsa65_public_key attestation) digest (pta_mldsa65_signature attestation))"

subsection \<open>JSON-RPC\<close>

text \<open>The request body, in the order of the fields of \<^verbatim>\<open>RpcRequest\<close>.\<close>

definition rpc_request :: "ext \<Rightarrow> string \<Rightarrow> json \<Rightarrow> string" where
  "rpc_request E rpc_method params =
     json_text (json_quote E)
       (JObj [(''jsonrpc'', JStr ''2.0''), (''id'', JNum 1), (''method'', JStr rpc_method), (''params'', params)])"

record rpc_error =
  rpc_code :: int
  rpc_message :: string

definition rpc_error_from_json :: "json \<Rightarrow> rpc_error option" where
  "rpc_error_from_json v =
     (case struct_members [''code'', ''message''] v of
        Some [c, JStr msg] \<Rightarrow> map_option (\<lambda>n. \<lparr>rpc_code = n, rpc_message = msg\<rparr>) (as_i64 c)
      | _ \<Rightarrow> None)"

text \<open>An \<^verbatim>\<open>Option\<close> field: null or absent is \<^verbatim>\<open>None\<close>, and anything else must decode.\<close>

definition opt_of_json :: "(json \<Rightarrow> 'a option) \<Rightarrow> json \<Rightarrow> 'a option option" where
  "opt_of_json dec v = (case v of JNull \<Rightarrow> Some None | _ \<Rightarrow> map_option Some (dec v))"

definition rpc_response :: "(json \<Rightarrow> 'a option) \<Rightarrow> json \<Rightarrow> ('a option \<times> rpc_error option) option" where
  "rpc_response dec v =
     (case struct_opt_members [(''jsonrpc'', False), (''id'', False), (''result'', True), (''error'', True)] v of
        Some [JStr _, i, r, e] \<Rightarrow>
          (case (as_u64 i, opt_of_json dec r, opt_of_json rpc_error_from_json e) of
             (Some _, Some result, Some err) \<Rightarrow> Some (result, err)
           | _ \<Rightarrow> None)
      | _ \<Rightarrow> None)"

definition rpc_call :: "ext \<Rightarrow> http_post \<Rightarrow> string \<Rightarrow> string \<Rightarrow> json \<Rightarrow> (json \<Rightarrow> 'a option) \<Rightarrow> string \<Rightarrow> 'a result" where
  "rpc_call E N rpc_url rpc_method params dec what =
     bind_res (N rpc_url (rpc_request E rpc_method params)) (\<lambda>(_, text).
     bind_res (of_option (ParseError what) (Option.bind (json_parse E text) (rpc_response dec))) (\<lambda>(result, err).
     case err of
       Some er \<Rightarrow> Inl (Rejected (rpc_message er))
     | None \<Rightarrow> of_option (NotFound what) result))"

subsection \<open>The client\<close>

record iota_client =
  ic_rpc_url :: string
  ic_faucet_url :: string

definition client_new :: "string \<Rightarrow> iota_client" where
  "client_new rpc_url =
     \<lparr>ic_rpc_url = trim_end_matches (\<lambda>c. c = CHR ''/'') rpc_url, ic_faucet_url = TESTNET_FAUCET\<rparr>"

definition client_testnet :: iota_client where
  "client_testnet = \<lparr>ic_rpc_url = TESTNET_RPC, ic_faucet_url = TESTNET_FAUCET\<rparr>"

definition client_devnet :: iota_client where
  "client_devnet = \<lparr>ic_rpc_url = DEVNET_RPC, ic_faucet_url = DEVNET_FAUCET\<rparr>"

record balance_response =
  br_total_balance :: string
  br_coin_type :: string
  br_coin_object_count :: nat

definition balance_from_json :: "json \<Rightarrow> balance_response option" where
  "balance_from_json v =
     (case struct_members [''totalBalance'', ''coinType'', ''coinObjectCount''] v of
        Some [JStr t, JStr c, n] \<Rightarrow>
          map_option (\<lambda>k. \<lparr>br_total_balance = t, br_coin_type = c, br_coin_object_count = k\<rparr>) (as_u64 n)
      | _ \<Rightarrow> None)"

definition transfer_from_json :: "json \<Rightarrow> string option" where
  "transfer_from_json v =
     (case struct_members [''txBytes'', ''gas''] v of
        Some [JStr t, JArr _] \<Rightarrow> Some t
      | _ \<Rightarrow> None)"

definition execute_from_json :: "json \<Rightarrow> string option" where
  "execute_from_json v =
     (case struct_members [''digest''] v of Some [JStr d] \<Rightarrow> Some d | _ \<Rightarrow> None)"

definition get_balance :: "ext \<Rightarrow> http_post \<Rightarrow> iota_client \<Rightarrow> string \<Rightarrow> balance_response result" where
  "get_balance E N c address =
     rpc_call E N (ic_rpc_url c) ''iotax_getBalance'' (JArr [JStr address]) balance_from_json ''balance''"

definition request_faucet :: "ext \<Rightarrow> http_post \<Rightarrow> iota_client \<Rightarrow> string \<Rightarrow> string result" where
  "request_faucet E N c address =
     bind_res (N (ic_faucet_url c)
       (json_text (json_quote E) (JObj [(''FixedAmountRequest'', JObj [(''recipient'', JStr address)])]))) (\<lambda>(status, body).
     if is_success status then Inr body else Inl (Rejected body))"

definition get_coins :: "ext \<Rightarrow> http_post \<Rightarrow> iota_client \<Rightarrow> string \<Rightarrow> json result" where
  "get_coins E N c address =
     rpc_call E N (ic_rpc_url c) ''iotax_getCoins'' (JArr [JStr address]) Some ''coins''"

definition first_coin :: "json \<Rightarrow> string option" where
  "first_coin coins =
     Option.bind (json_get coins ''data'') (\<lambda>d.
     Option.bind (as_array d) (\<lambda>arr.
     case arr of [] \<Rightarrow> None | coin # _ \<Rightarrow> get_str coin ''coinObjectId''))"

definition build_transfer :: "ext \<Rightarrow> http_post \<Rightarrow> iota_client \<Rightarrow> string \<Rightarrow> string \<Rightarrow> nat \<Rightarrow> nat \<Rightarrow> bytes result" where
  "build_transfer E N c sender recipient amount gas_budget =
     bind_res (get_coins E N c sender) (\<lambda>coins.
     bind_res (of_option (NotFound ''coin objects'') (first_coin coins)) (\<lambda>coin_id.
     bind_res (rpc_call E N (ic_rpc_url c) ''unsafe_transferIota''
                 (JArr [JStr sender, JStr coin_id, JStr (nat_str gas_budget), JStr recipient, JStr (nat_str amount)])
                 transfer_from_json ''transfer'') (\<lambda>tx.
     of_option (BadBase64 ''transaction bytes'') (b64_decode E tx))))"

definition execute_transaction :: "ext \<Rightarrow> http_post \<Rightarrow> iota_client \<Rightarrow> bytes \<Rightarrow> string \<Rightarrow> string result" where
  "execute_transaction E N c tx_bytes signature =
     rpc_call E N (ic_rpc_url c) ''iota_executeTransactionBlock''
       (JArr [JStr (b64_encode E tx_bytes), JArr [JStr signature], JObj [(''showEffects'', JBool True)],
              JStr ''WaitForLocalExecution''])
       execute_from_json ''execution''"

definition transfer_iota ::
    "ext \<Rightarrow> blake \<Rightarrow> http_post \<Rightarrow> iota_client \<Rightarrow> bytes \<Rightarrow> string \<Rightarrow> string \<Rightarrow> nat \<Rightarrow> nat \<Rightarrow> string result" where
  "transfer_iota E B N c signing_key sender recipient amount gas_budget =
     bind_res (build_transfer E N c sender recipient amount gas_budget) (\<lambda>tx_bytes.
     execute_transaction E N c tx_bytes (sign_transaction E B signing_key tx_bytes))"

definition transfer_iota_pq ::
    "ext \<Rightarrow> blake \<Rightarrow> http_post \<Rightarrow> datetime \<Rightarrow> iota_client \<Rightarrow> bytes \<Rightarrow> bytes \<Rightarrow> bytes \<Rightarrow> string \<Rightarrow> string \<Rightarrow> nat \<Rightarrow> nat
      \<Rightarrow> (string \<times> pq_transaction_attestation) result" where
  "transfer_iota_pq E B N now c ed_signing_key mldsa_secret_key mldsa_public_key sender recipient amount gas_budget =
     bind_res (build_transfer E N c sender recipient amount gas_budget) (\<lambda>tx_bytes.
     bind_res (create_pq_attestation E B now mldsa_secret_key mldsa_public_key tx_bytes) (\<lambda>pq_attestation.
     bind_res (execute_transaction E N c tx_bytes (sign_transaction E B ed_signing_key tx_bytes)) (\<lambda>digest.
     Inr (digest, pq_attestation))))"

subsection \<open>Wallet commands\<close>

record wallet_receipt =
  wr_tx_digest :: string
  wr_sender :: string
  wr_recipient :: string
  wr_amount_nanos :: nat
  wr_network :: string
  wr_agent_id :: string
  wr_agent_name :: string
  wr_crypto_scheme :: crypto_scheme
  wr_pq_attestation :: "pq_transaction_attestation option"
  wr_timestamp :: string

definition derive_address_from_card :: "ext \<Rightarrow> blake \<Rightarrow> agent_card \<Rightarrow> string result" where
  "derive_address_from_card E B crd =
     bind_res (of_option (BadBase64 ''public key'') (b64_decode E (card_public_key crd))) (\<lambda>pub_bytes.
     bind_res (require (length pub_bytes = 32) BadKeyLength) (\<lambda>_.
     Inr (derive_iota_address E B pub_bytes)))"

definition make_client :: "string \<Rightarrow> iota_client" where
  "make_client network = (if network = ''devnet'' then client_devnet else client_testnet)"

text \<open>A byte index inside a UTF-8 sequence is no place to cut: slicing there panics.\<close>

definition is_char_boundary :: "string \<Rightarrow> nat \<Rightarrow> bool" where
  "is_char_boundary s i \<longleftrightarrow>
     i = length s \<or> (i < length s \<and> \<not> (128 \<le> (of_char (s ! i) :: nat) \<and> (of_char (s ! i) :: nat) < 192))"

definition wallet_truncate :: "string \<Rightarrow> nat \<Rightarrow> string result" where
  "wallet_truncate s n =
     (if length s > n then (if is_char_boundary s n then Inr (take n s) else Inl (Panic ''byte index is not a char boundary''))
      else Inr s)"

text \<open>\<^verbatim>\<open>str::parse::<u64>\<close>.\<close>

definition parse_u64 :: "string \<Rightarrow> nat option" where
  "parse_u64 s =
     (let v = (case s of [] \<Rightarrow> None | c # r \<Rightarrow> (if c = CHR ''+'' then parse_nat r else parse_nat s))
      in (case v of None \<Rightarrow> None | Some n \<Rightarrow> (if n < 2 ^ 64 then Some n else None)))"

definition wallet_balance :: "ext \<Rightarrow> blake \<Rightarrow> http_post \<Rightarrow> agent_card \<Rightarrow> string \<Rightarrow> (nat \<times> balance_response) result" where
  "wallet_balance E B N crd network =
     bind_res (derive_address_from_card E B crd) (\<lambda>address.
     bind_res (get_balance E N (make_client network) address) (\<lambda>balance.
     Inr (case parse_u64 (br_total_balance balance) of Some n \<Rightarrow> n | None \<Rightarrow> 0, balance)))"

definition wallet_faucet :: "ext \<Rightarrow> blake \<Rightarrow> http_post \<Rightarrow> agent_card \<Rightarrow> string \<Rightarrow> string result" where
  "wallet_faucet E B N crd network =
     bind_res (derive_address_from_card E B crd) (\<lambda>address.
     bind_res (request_faucet E N (make_client network) address) (\<lambda>response.
     wallet_truncate response 200))"

text \<open>
  The amount: nanos as an unsigned 64-bit number, or a decimal number of IOTA, whose floating
  point conversion \<open>float_nanos\<close> is a parameter.
\<close>

definition parse_amount :: "(string \<Rightarrow> nat option) \<Rightarrow> string \<Rightarrow> nat result" where
  "parse_amount float_nanos amount_str =
     (if CHR ''.'' \<in> set amount_str then of_option (ParseError ''IOTA amount'') (float_nanos amount_str)
      else of_option (ParseError ''amount in nanos'') (parse_u64 amount_str))"

definition wallet_keys :: "ext \<Rightarrow> agent_card \<Rightarrow> string \<Rightarrow> (bytes \<times> (bytes \<times> bytes) option) result" where
  "wallet_keys E crd key_pem =
     (case card_crypto_scheme crd of
        Ed25519 \<Rightarrow> bind_res (decode_private_key_pem E key_pem) (\<lambda>ed. Inr (ed, None))
      | MlDsa65 \<Rightarrow> Inl (Rejected ''ML-DSA-65 only identity cannot sign IOTA transactions'')
      | Hybrid \<Rightarrow>
          bind_res (decode_hybrid_private_key_pem E key_pem) (\<lambda>(ed, mldsa_sk).
          bind_res (of_option MissingPqKey (card_pq_public_key crd)) (\<lambda>mldsa_pk.
          bind_res (of_option (BadBase64 ''ML-DSA public key'') (b64_decode E mldsa_pk)) (\<lambda>pk_bytes.
          Inr (ed, Some (mldsa_sk, pk_bytes))))))"

definition gas_budget :: nat where "gas_budget = 10000000"

text \<open>\<open>audit\<close> is the audit database, absent when it cannot be opened; \<open>written\<close> says whether the receipt was.\<close>

definition wallet_send ::
    "ext \<Rightarrow> blake \<Rightarrow> http_post \<Rightarrow> (string \<Rightarrow> nat option) \<Rightarrow> datetime \<Rightarrow> datetime \<Rightarrow> datetime \<Rightarrow> unit result
      \<Rightarrow> agent_card \<Rightarrow> string \<Rightarrow> string \<Rightarrow> string \<Rightarrow> string \<Rightarrow> audit_db option \<Rightarrow> (wallet_receipt \<times> audit_db option) result" where
  "wallet_send E B N float_nanos now now' now'' written crd key_pem recipient amount_str network audit =
     bind_res (derive_address_from_card E B crd) (\<lambda>sender.
     bind_res (parse_amount float_nanos amount_str) (\<lambda>amount_nanos.
     bind_res (wallet_keys E crd key_pem) (\<lambda>(ed_key, mldsa).
     (let client = make_client network
      in bind_res (case mldsa of
                     Some (mldsa_sk, mldsa_pk) \<Rightarrow>
                       bind_res (transfer_iota_pq E B N now client ed_key mldsa_sk mldsa_pk sender recipient
                                   amount_nanos gas_budget) (\<lambda>(digest, attestation).
                       Inr (digest, Some attestation))
                   | None \<Rightarrow>
                       bind_res (transfer_iota E B N client ed_key sender recipient amount_nanos gas_budget) (\<lambda>digest.
                       Inr (digest, None))) (\<lambda>(digest, pq_attestation).
         bind_res written (\<lambda>_.
         Inr (\<lparr>wr_tx_digest = digest, wr_sender = sender, wr_recipient = recipient, wr_amount_nanos = amount_nanos,
               wr_network = network, wr_agent_id = card_id crd, wr_agent_name = card_name crd,
               wr_crypto_scheme = card_crypto_scheme crd, wr_pq_attestation = pq_attestation,
               wr_timestamp = rfc3339 E now'\<rparr>,
              map_option (\<lambda>db. snd (record_entry E now'' db (card_id crd) ''wallet_transfer''
                (''transfer:'' @ recipient @ '':'' @ nat_str amount_nanos @ '':'' @ network @ '':'' @ digest) ed_key)) audit)))))))"

subsection \<open>What a transfer leaves behind\<close>

lemma attestation_verifies:
  assumes "b64_ok E" "pq_pair_ok E pk sk" "create_pq_attestation E B now sk pk tx = Inr att"
  shows "verify_pq_attestation E B att tx = Inr True"
  using assms(3) pq.sign_then_verify [of E "(pk, sk)" "compute_tx_digest B tx"] assms(1,2)
  by (auto simp: create_pq_attestation_def verify_pq_attestation_def bind_res_Inr_iff Let_def encode_mldsa_public_key_def)

lemma attestation_digest:
  assumes "hash_ok E" "create_pq_attestation E B now sk pk tx = Inr att" "verify_pq_attestation E B att tx' = Inr True"
  shows "compute_tx_digest B tx' = compute_tx_digest B tx"
  using assms by (auto simp: create_pq_attestation_def verify_pq_attestation_def bind_res_Inr_iff Let_def hash_ok_def inj_eq
      split: if_splits)

lemma wallet_send_hybrid:
  assumes "card_crypto_scheme crd = Hybrid" "decode_hybrid_private_key_pem E key_pem = Inr (ed, sk)"
    and "card_pq_public_key crd = Some pk64" "b64_decode E pk64 = Some pk"
    and "wallet_send E B N fl now now' now'' written crd key_pem recipient amount network audit = Inr (r, audit')"
  obtains tx att where
    "build_transfer E N (make_client network) (wr_sender r) recipient (wr_amount_nanos r) gas_budget = Inr tx"
    "create_pq_attestation E B now sk pk tx = Inr att" "wr_pq_attestation r = Some att"
    "execute_transaction E N (make_client network) tx (sign_transaction E B ed tx) = Inr (wr_tx_digest r)"
    "audit' = map_option (\<lambda>db. snd (record_entry E now'' db (card_id crd) ''wallet_transfer''
       (''transfer:'' @ recipient @ '':'' @ nat_str (wr_amount_nanos r) @ '':'' @ network @ '':'' @ wr_tx_digest r) ed)) audit"
  using assms by (auto simp: wallet_send_def wallet_keys_def transfer_iota_pq_def bind_res_Inr_iff Let_def)

text \<open>
  The post-quantum receipt of a transfer is good.  When a hybrid identity sends, the
  attestation of the receipt verifies for the very transaction bytes the node built and executed
  under the Ed25519 signature, and for no others, unless the two texts collide under BLAKE2b.  The audit
  log has one entry more, naming recipient, amount, network and digest.
\<close>

theorem wallet_send_attested:
  assumes "b64_ok E" "hash_ok E" "pq_pair_ok E pk sk" "card_crypto_scheme crd = Hybrid"
    and "decode_hybrid_private_key_pem E key_pem = Inr (ed, sk)" "card_pq_public_key crd = Some (encode_mldsa_public_key E pk)"
    and "wallet_send E B N fl now now' now'' written crd key_pem recipient amount network (Some db) = Inr (r, audit')"
  shows "\<exists>tx att.
       build_transfer E N (make_client network) (wr_sender r) recipient (wr_amount_nanos r) gas_budget = Inr tx
     \<and> execute_transaction E N (make_client network) tx (sign_transaction E B ed tx) = Inr (wr_tx_digest r)
     \<and> wr_pq_attestation r = Some att \<and> verify_pq_attestation E B att tx = Inr True
     \<and> (\<forall>tx'. verify_pq_attestation E B att tx' = Inr True \<longrightarrow>
          tx' = tx \<or> (INTENT_PREFIX @ tx' \<noteq> INTENT_PREFIX @ tx \<and> B (INTENT_PREFIX @ tx') = B (INTENT_PREFIX @ tx)))
     \<and> (\<exists>e db'. audit' = Some db' \<and> audit_rows db' = audit_rows db @ [e] \<and> ae_agent_id e = card_id crd
          \<and> ae_action e = ''wallet_transfer''
          \<and> ae_target e = ''transfer:'' @ recipient @ '':'' @ nat_str (wr_amount_nanos r) @ '':'' @ network @ '':'' @ wr_tx_digest r)"
proof -
  have pk: "b64_decode E (encode_mldsa_public_key E pk) = Some pk"
    using assms(1) by (simp add: encode_mldsa_public_key_def b64_okD)
  obtain tx att where tx:
      "build_transfer E N (make_client network) (wr_sender r) recipient (wr_amount_nanos r) gas_budget = Inr tx"
      "create_pq_attestation E B now sk pk tx = Inr att" "wr_pq_attestation r = Some att"
      "execute_transaction E N (make_client network) tx (sign_transaction E B ed tx) = Inr (wr_tx_digest r)"
    and audit: "audit' = map_option (\<lambda>db. snd (record_entry E now'' db (card_id crd) ''wallet_transfer''
       (''transfer:'' @ recipient @ '':'' @ nat_str (wr_amount_nanos r) @ '':'' @ network @ '':'' @ wr_tx_digest r) ed)) (Some db)"
    by (rule wallet_send_hybrid [OF assms(4,5,6) pk assms(7)])
  have "tx' = tx \<or> (INTENT_PREFIX @ tx' \<noteq> INTENT_PREFIX @ tx \<and> B (INTENT_PREFIX @ tx') = B (INTENT_PREFIX @ tx))"
    if "verify_pq_attestation E B att tx' = Inr True" for tx'
    using attestation_digest [OF assms(2) tx(2) that] by (auto simp: compute_tx_digest_def)
  then show ?thesis
    using tx audit attestation_verifies [OF assms(1,3) tx(2)]
    by (intro exI [of _ tx] exI [of _ att]) (simp add: record_entry_def Let_def)
qed

text \<open>A node that answers every request with one object.\<close>

definition demo_node_ext :: ext where
  "demo_node_ext = ref_ext\<lparr>json_parse := (\<lambda>_. Some (JObj [(''jsonrpc'', JStr ''2.0''), (''id'', JNum 1), (''result'',
     JObj [(''data'', JArr [JObj [(''coinObjectId'', JStr ''0x7'')]]), (''txBytes'', JStr ''gbgc''), (''gas'', JArr []),
           (''digest'', JStr ''d'')])]))\<rparr>"

definition demo_wallet_card :: agent_card where
  "demo_wallet_card = \<lparr>card_id = replicate 36 CHR ''a'', card_name = ''n'', card_owner = ''o'', card_scopes = [],
     card_public_key = nibbles (replicate 32 CHR ''k''), card_pq_public_key = Some (nibbles (replicate 1952 CHR ''p'')),
     card_signature = [], card_pq_signature = None, card_crypto_scheme = Hybrid, card_issued_at = 0, card_expires_at = 1,
     card_agent_type = Instance, card_parent_id = None, card_spiffe_id = None\<rparr>"

lemma demo_node_ok:
  "b64_ok demo_node_ext" "hash_ok demo_node_ext" "pq_pair_ok demo_node_ext (replicate 1952 CHR ''p'') (replicate 4032 CHR ''p'')"
  using ref_b64_ok ref_hash_ok ref_pq_pair_ok [of "CHR ''p''"]
  by (simp_all add: demo_node_ext_def b64_ok_def hash_ok_def pq_pair_ok_def)


abbreviation demo_node :: http_post where
  "demo_node \<equiv> \<lambda>_ _. Inr (200, [])"

lemmas demo_rpc = rpc_call_def rpc_response_def struct_opt_members_def struct_members_def struct_field_def opt_field_def
  opt_of_json_def get_str_def first_coin_def transfer_from_json_def execute_from_json_def

lemma demo_transfer:
  "build_transfer demo_node_ext demo_node c s t n g = Inr ''ab''"
  "execute_transaction demo_node_ext demo_node c tx sig = Inr ''d''"
  by (simp_all add: build_transfer_def get_coins_def execute_transaction_def demo_rpc demo_node_ext_def ref_ext_def) code_simp

lemma demo_keys_decode:
  "decode_hybrid_private_key_pem demo_node_ext
     (encode_hybrid_private_key_pem demo_node_ext (replicate 32 CHR ''k'') (replicate 4032 CHR ''p''))
   = Inr (replicate 32 CHR ''k'', replicate 4032 CHR ''p'')"
  by (rule hybrid_pem_decode_encode) (simp_all add: demo_node_ok)

theorem wallet_send_attested_witness:
  "\<exists>r audit' tx att.
     wallet_send demo_node_ext (pad 32) demo_node (\<lambda>_. None) 0 0 0 (Inr ()) demo_wallet_card
       (encode_hybrid_private_key_pem demo_node_ext (replicate 32 CHR ''k'') (replicate 4032 CHR ''p''))
       ''0x9'' ''5'' ''testnet'' (Some open_audit_db) = Inr (r, audit')
     \<and> wr_amount_nanos r = 5 \<and> wr_tx_digest r = ''d'' \<and> wr_pq_attestation r = Some att
     \<and> verify_pq_attestation demo_node_ext (pad 32) att tx = Inr True"
proof -
  let ?E = demo_node_ext and ?pem = "encode_hybrid_private_key_pem demo_node_ext (replicate 32 CHR ''k'') (replicate 4032 CHR ''p'')"
  have pk: "card_pq_public_key demo_wallet_card = Some (encode_mldsa_public_key ?E (replicate 1952 CHR ''p''))"
    by (simp add: demo_wallet_card_def demo_node_ext_def ref_ext_def encode_mldsa_public_key_def)
  have dec: "b64_decode ?E (encode_mldsa_public_key ?E b) = Some b" for b
    by (simp add: encode_mldsa_public_key_def b64_okD demo_node_ok)
  have addr: "derive_address_from_card ?E (pad 32) demo_wallet_card = Inr (derive_iota_address ?E (pad 32) (replicate 32 CHR ''k''))"
    using dec [of "replicate 32 CHR ''k''"]
    by (simp add: derive_address_from_card_def demo_wallet_card_def encode_mldsa_public_key_def demo_node_ext_def ref_ext_def)
  obtain s where s: "mldsa_sign ?E (replicate 4032 CHR ''p'') (compute_tx_digest (pad 32) ''ab'') = Inr s"
    using pq.sign_succeeds [of ?E "(replicate 1952 CHR ''p'', replicate 4032 CHR ''p'')"] demo_node_ok by auto
  have amount: "parse_amount (\<lambda>_. None) ''5'' = Inr 5" by (simp add: parse_amount_def parse_u64_def parse_nat_def is_digit_def digits_val_def digit_val_def)
  have keys: "wallet_keys ?E demo_wallet_card ?pem = Inr (replicate 32 CHR ''k'', Some (replicate 4032 CHR ''p'', replicate 1952 CHR ''p''))"
    using pk dec demo_keys_decode by (simp add: wallet_keys_def demo_wallet_card_def)
  obtain r a where run: "wallet_send ?E (pad 32) demo_node (\<lambda>_. None) 0 0 0 (Inr ()) demo_wallet_card ?pem ''0x9'' ''5'' ''testnet'' (Some open_audit_db) = Inr (r, a)"
    and r: "wr_amount_nanos r = 5" "wr_tx_digest r = ''d''"
    using addr amount keys s by (simp add: wallet_send_def transfer_iota_pq_def demo_transfer create_pq_attestation_def Let_def)
  have scheme: "card_crypto_scheme demo_wallet_card = Hybrid" by (simp add: demo_wallet_card_def)
  show ?thesis
    using wallet_send_attested [OF demo_node_ok scheme demo_keys_decode pk run] run r by blast
qed

end
