(* ===== verification/Anchor.thy ===== *)
theory Anchor
  imports Iota_Wallet Daemon_Config
begin

text \<open>
  Anchoring of the audit logs, \<^verbatim>\<open>grokingclaw-daemon/src/anchor.rs\<close>: Merkle roots of batches of audit
  entries, the table of anchors, and the worker that scans the agents' logs and submits anchors.
  The table is the list of its rows in key order; of the database only saving an anchor may fail.
\<close>

subsection \<open>Merkle roots\<close>

text \<open>One round of the loop: an odd level repeats its last hash, and neighbours are hashed together.\<close>

definition even_out :: "string list \<Rightarrow> string list" where
  "even_out hs = (if length hs mod 2 \<noteq> 0 then hs @ [last hs] else hs)"

definition next_level :: "ext \<Rightarrow> string list \<Rightarrow> string list" where
  "next_level E hs = map (\<lambda>chunk. sha256_hex E (chunk ! 0 @ chunk ! 1)) (chunks 2 (even_out hs))"

lemma length_even_out: "length (even_out hs) = 2 * ((length hs + 1) div 2)"
  by (simp add: even_out_def) presburger

lemma length_next_level: "length (next_level E hs) = (length hs + 1) div 2"
proof -
  have "length (chunks 2 xs) = n" if "length xs = 2 * n" for n and xs :: "string list"
    using that
  proof (induction n arbitrary: xs)
    case (Suc n)
    then have "length (chunks 2 (drop 2 xs)) = n" by simp
    then show ?case using Suc.prems by (subst chunks.simps) auto
  qed simp
  from this [OF length_even_out] show ?thesis by (simp add: next_level_def)
qed

function merkle_loop :: "ext \<Rightarrow> string list \<Rightarrow> string list" where
  "merkle_loop E hs = (if length hs > 1 then merkle_loop E (next_level E hs) else hs)"
  by pat_completeness auto

termination
  by (relation "measure (\<lambda>(E, hs). length hs)") (auto simp: length_next_level)

declare merkle_loop.simps [simp del]

definition compute_merkle_root :: "ext \<Rightarrow> string list \<Rightarrow> string" where
  "compute_merkle_root E hashes =
     (if hashes = [] then sha256_hex E ''empty''
      else if length hashes = 1 then hashes ! 0
      else case merkle_loop E hashes of [] \<Rightarrow> [] | h # _ \<Rightarrow> h)"

subsection \<open>The table of anchors\<close>

datatype anchor_status = Pending | Submitted | Confirmed | Failed

definition anchor_status_display :: "anchor_status \<Rightarrow> string" where
  "anchor_status_display s =
     (case s of Pending \<Rightarrow> ''pending'' | Submitted \<Rightarrow> ''submitted'' | Confirmed \<Rightarrow> ''confirmed'' | Failed \<Rightarrow> ''failed'')"

record breadcrumb_anchor =
  ba_id :: int
  ba_merkle_root :: string
  ba_entry_count :: u32
  ba_agent_ids :: "string list"
  ba_first_entry_at :: int
  ba_last_entry_at :: int
  ba_computed_at :: datetime
  ba_iota_tx_digest :: "string option"
  ba_status :: anchor_status

text \<open>A row keeps the agents, the time and the status as text.\<close>

record anchor_row =
  ar_id :: int
  ar_merkle_root :: string
  ar_entry_count :: u32
  ar_agent_ids :: string
  ar_first_entry_at :: int
  ar_last_entry_at :: int
  ar_computed_at :: string
  ar_iota_tx_digest :: "string option"
  ar_status :: string

record anchor_db =
  anchor_rows :: "anchor_row list"
  anchor_seq :: int

definition open_state_db :: "anchor_db option \<Rightarrow> anchor_db" where
  "open_state_db file = (case file of Some db \<Rightarrow> db | None \<Rightarrow> \<lparr>anchor_rows = [], anchor_seq = 0\<rparr>)"

definition save_anchor :: "ext \<Rightarrow> anchor_db \<Rightarrow> breadcrumb_anchor \<Rightarrow> int \<times> anchor_db" where
  "save_anchor E db a =
     (let row_id = anchor_seq db + 1
      in (row_id,
          \<lparr>anchor_rows = anchor_rows db @
             [\<lparr>ar_id = row_id, ar_merkle_root = ba_merkle_root a, ar_entry_count = ba_entry_count a,
               ar_agent_ids = json_text (json_quote E) (JArr (map JStr (ba_agent_ids a))),
               ar_first_entry_at = ba_first_entry_at a, ar_last_entry_at = ba_last_entry_at a,
               ar_computed_at = rfc3339 E (ba_computed_at a), ar_iota_tx_digest = ba_iota_tx_digest a,
               ar_status = anchor_status_display (ba_status a)\<rparr>],
           anchor_seq = row_id\<rparr>))"

definition anchor_of_row :: "ext \<Rightarrow> datetime \<Rightarrow> anchor_row \<Rightarrow> breadcrumb_anchor" where
  "anchor_of_row E now r =
     \<lparr>ba_id = ar_id r, ba_merkle_root = ar_merkle_root r, ba_entry_count = ar_entry_count r,
      ba_agent_ids = (case Option.bind (json_parse E (ar_agent_ids r)) str_list of Some ids \<Rightarrow> ids | None \<Rightarrow> []),
      ba_first_entry_at = ar_first_entry_at r, ba_last_entry_at = ar_last_entry_at r,
      ba_computed_at = (case rfc3339_parse E (ar_computed_at r) of Some t \<Rightarrow> t | None \<Rightarrow> now),
      ba_iota_tx_digest = ar_iota_tx_digest r,
      ba_status = (if ar_status r = ''submitted'' then Submitted else if ar_status r = ''confirmed'' then Confirmed
                   else if ar_status r = ''failed'' then Failed else Pending)\<rparr>"

definition is_pending :: "anchor_row \<Rightarrow> bool" where
  "is_pending r \<longleftrightarrow> ar_status r = ''pending'' \<or> ar_status r = ''failed''"

definition get_pending_anchors :: "ext \<Rightarrow> datetime \<Rightarrow> anchor_db \<Rightarrow> breadcrumb_anchor list" where
  "get_pending_anchors E now db = map (anchor_of_row E now) (take 10 (filter is_pending (anchor_rows db)))"

definition update_anchor_status :: "int \<Rightarrow> anchor_status \<Rightarrow> string option \<Rightarrow> anchor_db \<Rightarrow> anchor_db" where
  "update_anchor_status i status tx_digest db =
     db\<lparr>anchor_rows := map (\<lambda>r. if ar_id r = i
          then r\<lparr>ar_status := anchor_status_display status, ar_iota_tx_digest := tx_digest\<rparr> else r) (anchor_rows db)\<rparr>"

subsection \<open>Reading the logs\<close>

text \<open>A log that cannot be read, that is not there, or its rows.\<close>

definition read_audit_hashes :: "audit_db option result \<Rightarrow> int \<Rightarrow> (string \<times> string \<times> int) list result" where
  "read_audit_hashes file since_timestamp =
     bind_res file (\<lambda>f. Inr (case f of
         None \<Rightarrow> []
       | Some db \<Rightarrow> map (\<lambda>e. (ae_entry_hash e, ae_agent_id e, ae_timestamp e))
                      (filter (\<lambda>e. since_timestamp < ae_timestamp e) (audit_rows db))))"

subsection \<open>The worker\<close>

record anchor_worker =
  aw_config :: anchoring_section
  aw_db :: "anchor_db option"
  aw_last_anchor_at :: "datetime option"
  aw_pending_count :: u32
  aw_total_anchored :: "64 word"

definition anchor_new :: "anchoring_section \<Rightarrow> anchor_db option \<Rightarrow> anchor_worker" where
  "anchor_new config file = \<lparr>aw_config = config, aw_db = file, aw_last_anchor_at = None, aw_pending_count = 0, aw_total_anchored = 0\<rparr>"

definition get_last_anchored_timestamp :: "anchor_worker \<Rightarrow> int" where
  "get_last_anchored_timestamp w =
     (case aw_db w of
        None \<Rightarrow> 0
      | Some db \<Rightarrow> (case map ar_last_entry_at (anchor_rows db) of [] \<Rightarrow> 0 | t # ts \<Rightarrow> fold max ts t))"

text \<open>\<open>key_file\<close> is the daemon's key: absent, unreadable, or its text.\<close>

definition submit_to_iota :: "ext \<Rightarrow> blake \<Rightarrow> http_post \<Rightarrow> string result option \<Rightarrow> anchoring_section \<Rightarrow> breadcrumb_anchor \<Rightarrow> string result" where
  "submit_to_iota E B N key_file config anchor =
     bind_res (of_option (NotFound ''daemon signing key'') key_file) (\<lambda>read.
     bind_res read (\<lambda>pem.
     bind_res (decode_private_key_pem E pem) (\<lambda>signing_key.
     (let sender = derive_iota_address E B (ed_public E signing_key);
          client = client_new (an_iota_node config)
      in transfer_iota E B N client signing_key sender sender 1 10000000))))"

text \<open>What a cycle meets: the logs, the outcome of each save, the node at each submission, the key, the clock.\<close>

record cycle_env =
  ce_logs :: "audit_db option result list result option"
  ce_save :: "nat \<Rightarrow> unit result"
  ce_node :: "int \<Rightarrow> http_post"
  ce_key :: "string result option"
  ce_now :: datetime

fun submit_loop :: "ext \<Rightarrow> blake \<Rightarrow> cycle_env \<Rightarrow> breadcrumb_anchor list \<Rightarrow> anchor_worker \<Rightarrow> anchor_worker" where
  "submit_loop E B e [] w = w"
| "submit_loop E B e (a # as) w =
     submit_loop E B e as
       (case submit_to_iota E B (ce_node e (ba_id a)) (ce_key e) (aw_config w) a of
          Inr tx_digest \<Rightarrow>
            w\<lparr>aw_db := map_option (update_anchor_status (ba_id a) Submitted (Some tx_digest)) (aw_db w),
              aw_pending_count := (if aw_pending_count w > 0 then aw_pending_count w - 1 else aw_pending_count w)\<rparr>
        | Inl _ \<Rightarrow> w\<lparr>aw_db := map_option (update_anchor_status (ba_id a) Failed None) (aw_db w)\<rparr>)"

definition submit_pending :: "ext \<Rightarrow> blake \<Rightarrow> cycle_env \<Rightarrow> anchor_worker \<Rightarrow> anchor_worker" where
  "submit_pending E B e w =
     (let db = open_state_db (aw_db w)
      in submit_loop E B e (get_pending_anchors E (ce_now e) db) (w\<lparr>aw_db := Some db\<rparr>))"

text \<open>The entries after the last anchored time, log by log; a log that fails is passed over.\<close>

definition collect_entries :: "audit_db option result list \<Rightarrow> int \<Rightarrow> (string \<times> string \<times> int) list" where
  "collect_entries logs since = concat (map (\<lambda>l. unwrap_or [] (read_audit_hashes l since)) logs)"

definition anchor_of_chunk :: "ext \<Rightarrow> datetime \<Rightarrow> (string \<times> string \<times> int) list \<Rightarrow> breadcrumb_anchor" where
  "anchor_of_chunk E now chunk =
     (let ts = map (\<lambda>x. snd (snd x)) chunk
      in \<lparr>ba_id = 0, ba_merkle_root = compute_merkle_root E (map fst chunk), ba_entry_count = of_nat (length chunk),
          ba_agent_ids = remdups_adj (sort (map (\<lambda>x. fst (snd x)) chunk)),
          ba_first_entry_at = (case ts of [] \<Rightarrow> 0 | t # r \<Rightarrow> fold min r t),
          ba_last_entry_at = (case ts of [] \<Rightarrow> 0 | t # r \<Rightarrow> fold max r t),
          ba_computed_at = now, ba_iota_tx_digest = None, ba_status = Pending\<rparr>)"

fun anchor_chunks :: "ext \<Rightarrow> cycle_env \<Rightarrow> nat \<Rightarrow> (string \<times> string \<times> int) list list \<Rightarrow> anchor_worker \<Rightarrow> unit result \<times> anchor_worker" where
  "anchor_chunks E e n [] w = (Inr (), w)"
| "anchor_chunks E e n (chunk # cs) w =
     (case ce_save e n of
        Inl err \<Rightarrow> (Inl err, w)
      | Inr _ \<Rightarrow>
          anchor_chunks E e (Suc n) cs
            (w\<lparr>aw_db := Some (snd (save_anchor E (open_state_db (aw_db w)) (anchor_of_chunk E (ce_now e) chunk))),
               aw_last_anchor_at := Some (ce_now e),
               aw_pending_count := aw_pending_count w + 1,
               aw_total_anchored := aw_total_anchored w + of_nat (length chunk)\<rparr>))"

definition anchor_cycle :: "ext \<Rightarrow> blake \<Rightarrow> cycle_env \<Rightarrow> anchor_worker \<Rightarrow> unit result \<times> anchor_worker" where
  "anchor_cycle E B e w =
     (if \<not> an_enabled (aw_config w) then (Inr (), w)
      else let last_timestamp = get_last_anchored_timestamp w
           in case (case ce_logs e of None \<Rightarrow> Inr [] | Some logs \<Rightarrow> logs) of
                Inl err \<Rightarrow> (Inl err, w)
              | Inr logs \<Rightarrow>
                  (let all_entries = collect_entries logs last_timestamp;
                       batch_size = unat (an_batch_size (aw_config w))
                   in if all_entries = [] then (Inr (), w)
                      else if batch_size = 0 then (Inl (Panic ''chunk size must be non-zero''), w)
                      else let r = anchor_chunks E e 0 (chunks batch_size all_entries) w
                           in case fst r of
                                Inl err \<Rightarrow> (Inl err, snd r)
                              | Inr _ \<Rightarrow> (Inr (), submit_pending E B e (snd r))))"

definition anchor_status_value :: "ext \<Rightarrow> anchor_worker \<Rightarrow> json" where
  "anchor_status_value E w =
     json_object [(''enabled'', JBool (an_enabled (aw_config w))),
       (''interval_minutes'', JNum (uint (an_interval_minutes (aw_config w)))),
       (''batch_size'', JNum (uint (an_batch_size (aw_config w)))),
       (''last_anchor_at'', case aw_last_anchor_at w of None \<Rightarrow> JNull | Some t \<Rightarrow> JStr (rfc3339 E t)),
       (''pending_count'', JNum (uint (aw_pending_count w))),
       (''total_anchored'', JNum (uint (aw_total_anchored w)))]"

text \<open>The background loop: a cycle at each tick, and one more when the daemon shuts down.\<close>

definition is_panic :: "'a result \<Rightarrow> bool" where
  "is_panic r = (case r of Inl (Panic _) \<Rightarrow> True | _ \<Rightarrow> False)"

fun run_loop :: "ext \<Rightarrow> blake \<Rightarrow> cycle_env list \<Rightarrow> anchor_worker \<Rightarrow> unit result \<times> anchor_worker" where
  "run_loop E B [] w = (Inr (), w)"
| "run_loop E B (e # es) w =
     (let r = anchor_cycle E B e w
      in if is_panic (fst r) then r else run_loop E B es (snd r))"

subsection \<open>The loop computes a Merkle tree\<close>

text \<open>
  The tree of depth \<open>k\<close> over at most \<open>2 ^ k\<close> leaves, from the root down: where the right half is empty,
  the left half stands in for it.
\<close>

fun merkle_tree :: "ext \<Rightarrow> nat \<Rightarrow> string list \<Rightarrow> string" where
  "merkle_tree E 0 hs = hs ! 0"
| "merkle_tree E (Suc k) hs =
     (if length hs \<le> 2 ^ k then sha256_hex E (merkle_tree E k hs @ merkle_tree E k hs)
      else sha256_hex E (merkle_tree E k (take (2 ^ k) hs) @ merkle_tree E k (drop (2 ^ k) hs)))"

lemma chunks_step: "xs \<noteq> [] \<Longrightarrow> 0 < n \<Longrightarrow> chunks n xs = take n xs # chunks n (drop n xs)"
  by (simp add: chunks.simps)

lemma chunks_append: "length xs = n * m \<Longrightarrow> 0 < n \<Longrightarrow> chunks n (xs @ ys) = chunks n xs @ chunks n ys"
proof (induction m arbitrary: xs)
  case (Suc m)
  then have "chunks n (drop n xs @ ys) = chunks n (drop n xs) @ chunks n ys" by simp
  moreover have "xs \<noteq> []" using Suc.prems by auto
  ultimately show ?case using Suc.prems by (simp add: chunks_step)
qed simp

lemma next_level_append:
  assumes "length xs = 2 * m" "ys \<noteq> []"
  shows "next_level E (xs @ ys) = next_level E xs @ next_level E ys"
proof -
  have "even_out (xs @ ys) = xs @ even_out ys" "even_out xs = xs"
    using assms by (auto simp: even_out_def)
  then show ?thesis using chunks_append [OF assms(1)] by (simp add: next_level_def)
qed

lemma next_level_pair: "next_level E [a] = [sha256_hex E (a @ a)]" "next_level E [a, b] = [sha256_hex E (a @ b)]"
  by (simp_all add: next_level_def even_out_def chunks_step)

lemma next_level_tree: "hs \<noteq> [] \<Longrightarrow> length hs \<le> 2 ^ Suc k \<Longrightarrow> merkle_tree E k (next_level E hs) = merkle_tree E (Suc k) hs"
proof (induction k arbitrary: hs)
  case 0
  then consider a where "hs = [a]" | a b where "hs = [a, b]"
    by (cases hs; cases "tl hs") auto
  then show ?case by cases (simp_all add: next_level_pair)
next
  case (Suc k)
  show ?case
  proof (cases "length hs \<le> 2 ^ Suc k")
    case True
    then have "length (next_level E hs) \<le> 2 ^ k" by (simp add: length_next_level)
    then show ?thesis using Suc.IH [OF Suc.prems(1) True] True by simp
  next
    case False
    let ?l = "take (2 ^ Suc k) hs" and ?r = "drop (2 ^ Suc k) hs"
    have l: "length ?l = 2 * 2 ^ k" "?l \<noteq> []" and r: "?r \<noteq> []" "length ?r \<le> 2 ^ Suc k"
      using False Suc.prems by (auto simp: not_le)
    have n: "next_level E hs = next_level E ?l @ next_level E ?r"
      using next_level_append [OF l(1) r(1)] by simp
    have len: "length (next_level E ?l) = 2 ^ k" using l(1) by (simp only: length_next_level)
    have "next_level E ?r \<noteq> []" using r(1) length_next_level [of E ?r] by (auto simp flip: length_greater_0_conv)
    then have "\<not> length (next_level E hs) \<le> 2 ^ k" using n len by simp
    then show ?thesis
      using Suc.IH [OF l(2)] Suc.IH [OF r] l(1) n len False by simp
  qed
qed

lemma merkle_loop_tree: "hs \<noteq> [] \<Longrightarrow> length hs \<le> 2 ^ k \<Longrightarrow> (k = 0 \<or> 2 ^ (k - 1) < length hs) \<Longrightarrow> merkle_loop E hs = [merkle_tree E k hs]"
proof (induction k arbitrary: hs)
  case 0
  then show ?case by (cases hs) (auto simp: merkle_loop.simps)
next
  case (Suc k)
  let ?n = "next_level E hs"
  have big: "2 ^ k < length hs" using Suc.prems(3) by simp
  then have two: "1 < length hs" using one_le_power [of "2 :: nat" k] by linarith
  have "?n \<noteq> []" using Suc.prems(1) length_next_level [of E hs] by (auto simp flip: length_greater_0_conv)
  moreover have "length ?n \<le> 2 ^ k" using Suc.prems(2) by (simp add: length_next_level)
  moreover have "k = 0 \<or> 2 ^ (k - 1) < length ?n"
    using big by (cases k) (auto simp: length_next_level)
  ultimately have "merkle_loop E ?n = [merkle_tree E k ?n]" by (rule Suc.IH)
  then show ?case
    using next_level_tree [OF Suc.prems(1,2)] two by (subst merkle_loop.simps) simp
qed

text \<open>
  The level-by-level loop computes the Merkle tree.  For every batch of hashes, the root
  is that of the balanced tree of the least depth that holds them, built from the root down,
  in which an empty right half repeats the left one.
\<close>

theorem merkle_root_is_tree:
  assumes "hs \<noteq> []" "length hs \<le> 2 ^ k" "k = 0 \<or> 2 ^ (k - 1) < length hs"
  shows "compute_merkle_root E hs = merkle_tree E k hs"
proof (cases "length hs = 1")
  case True
  then have "k = 0" using assms(3) one_le_power [of "2 :: nat" "k - 1"] by (cases k) auto
  then show ?thesis using True assms(1) by (simp add: compute_merkle_root_def)
next
  case False
  then show ?thesis using merkle_loop_tree [OF assms] assms(1) by (simp add: compute_merkle_root_def)
qed

theorem merkle_root_is_tree_witness:
  "compute_merkle_root ref_ext [''a'', ''b'', ''c'', ''d'', ''e''] = merkle_tree ref_ext 3 [''a'', ''b'', ''c'', ''d'', ''e'']"
  by (rule merkle_root_is_tree) simp_all

subsection \<open>The root determines the batch\<close>

text \<open>The texts that are hashed on the way to the root.\<close>

definition pair_texts :: "string list \<Rightarrow> string list" where
  "pair_texts hs = map (\<lambda>chunk. chunk ! 0 @ chunk ! 1) (chunks 2 (even_out hs))"

function merkle_texts :: "ext \<Rightarrow> string list \<Rightarrow> string list" where
  "merkle_texts E hs = (if length hs > 1 then pair_texts hs @ merkle_texts E (next_level E hs) else [])"
  by pat_completeness auto

termination
  by (relation "measure (\<lambda>(E, hs). length hs)") (auto simp: length_next_level)

declare merkle_texts.simps [simp del]

lemma next_level_texts: "next_level E hs = map (sha256_hex E) (pair_texts hs)"
  by (simp add: next_level_def pair_texts_def)

lemma length_sha256_hex: "hash_ok E \<Longrightarrow> length (sha256_hex E d) = 64"
  by (simp add: hash_ok_def sha256_hex_def)

lemma set_even_out: "set (even_out hs) = set hs"
  by (cases hs rule: rev_cases) (auto simp: even_out_def)

lemma pair_texts_inj:
  assumes "length xs = length ys" "\<forall>h \<in> set xs \<union> set ys. length h = d" "pair_texts xs = pair_texts ys"
  shows "xs = ys"
proof -
  have flat: "us = vs" if "length us = 2 * n" "length vs = 2 * n" "\<forall>h \<in> set us \<union> set vs. length h = d"
      "map (\<lambda>c. c ! 0 @ c ! 1) (chunks 2 us) = map (\<lambda>c. c ! 0 @ c ! 1) (chunks 2 vs)" for n and us vs :: "string list"
    using that
  proof (induction n arbitrary: us vs)
    case (Suc n)
    obtain a b us' where us: "us = a # b # us'" using Suc.prems(1) by (cases us; cases "tl us") auto
    obtain c e vs' where vs: "vs = c # e # vs'" using Suc.prems(2) by (cases vs; cases "tl vs") auto
    have "a @ b = c @ e \<and> map (\<lambda>c. c ! 0 @ c ! 1) (chunks 2 us') = map (\<lambda>c. c ! 0 @ c ! 1) (chunks 2 vs')"
      using Suc.prems(4) by (simp add: us vs chunks_step)
    moreover have "length a = length c" using Suc.prems(3) by (simp add: us vs)
    ultimately show ?case using Suc.IH [of us' vs'] Suc.prems by (simp add: us vs)
  qed simp
  have "even_out xs = even_out ys"
  proof (rule flat [of _ "(length xs + 1) div 2"])
    show "\<forall>h \<in> set (even_out xs) \<union> set (even_out ys). length h = d"
      using assms(2) by (simp add: set_even_out)
  qed (use assms in \<open>simp_all add: length_even_out pair_texts_def\<close>)
  then show ?thesis using assms(1) by (auto simp: even_out_def split: if_splits)
qed

lemma map_eq_collision: "map f us = map f vs \<Longrightarrow> us = vs \<or> (\<exists>u \<in> set us. \<exists>v \<in> set vs. u \<noteq> v \<and> f u = f v)"
proof (induction us arbitrary: vs)
  case (Cons u us)
  obtain v vs' where vs: "vs = v # vs'" "f u = f v" "map f us = map f vs'" using Cons.prems by (cases vs) auto
  from Cons.IH [OF vs(3)] show ?case using vs(1,2) by auto
qed simp

lemma merkle_loop_inj:
  assumes "hash_ok E" "length xs = length ys" "\<forall>h \<in> set xs \<union> set ys. length h = 64" "merkle_loop E xs = merkle_loop E ys"
  shows "xs = ys \<or> (\<exists>u \<in> set (merkle_texts E xs). \<exists>v \<in> set (merkle_texts E ys). u \<noteq> v \<and> sha256_hex E u = sha256_hex E v)"
  using assms(2-)
proof (induction "length xs" arbitrary: xs ys rule: less_induct)
  case less
  show ?case
  proof (cases "length xs > 1")
    case True
    let ?x = "next_level E xs" and ?y = "next_level E ys"
    have "merkle_loop E ?x = merkle_loop E ?y"
      using less.prems(1,3) True by (simp add: merkle_loop.simps [of E xs] merkle_loop.simps [of E ys])
    moreover have "length ?x = length ?y" "length ?x < length xs" using less.prems(1) True by (simp_all add: length_next_level)
    moreover have "\<forall>h \<in> set ?x \<union> set ?y. length h = 64" using length_sha256_hex [OF assms(1)] by (auto simp: next_level_texts)
    ultimately have IH: "?x = ?y \<or> (\<exists>u \<in> set (merkle_texts E ?x). \<exists>v \<in> set (merkle_texts E ?y). u \<noteq> v \<and> sha256_hex E u = sha256_hex E v)"
      using less.hyps by blast
    have "pair_texts xs = pair_texts ys \<or> (\<exists>u \<in> set (pair_texts xs). \<exists>v \<in> set (pair_texts ys). u \<noteq> v \<and> sha256_hex E u = sha256_hex E v)"
      if "?x = ?y" using that map_eq_collision by (simp add: next_level_texts)
    with IH show ?thesis
      using pair_texts_inj [OF less.prems(1,2)] True less.prems(1)
      by (simp add: merkle_texts.simps [of E xs] merkle_texts.simps [of E ys]) blast
  next
    case False
    then show ?thesis using less.prems by (simp add: merkle_loop.simps [of E xs] merkle_loop.simps [of E ys])
  qed
qed

lemma merkle_loop_single: "hs \<noteq> [] \<Longrightarrow> merkle_loop E hs = [compute_merkle_root E hs]"
proof -
  assume hs: "hs \<noteq> []"
  have "length (merkle_loop E hs) = 1"
    using hs
  proof (induction E hs rule: merkle_loop.induct)
    case (1 E hs)
    have "next_level E hs \<noteq> []" using 1(2) length_next_level [of E hs] by (auto simp flip: length_greater_0_conv)
    then show ?case using 1 by (subst merkle_loop.simps) (auto simp: Suc_leI le_antisym not_less_eq_eq)
  qed
  then show ?thesis using hs by (cases "merkle_loop E hs") (auto simp: compute_merkle_root_def merkle_loop.simps)
qed

text \<open>
  An anchor binds its batch.  Two batches of the same number of 64-digit hashes that have
  one root are the same batch, or two different texts hashed on the way to it collide.  The
  number of entries is needed: a batch of odd length has the root of the batch in which its last
  entry stands twice.
\<close>

theorem merkle_root_binds:
  assumes "hash_ok E" "length xs = length ys" "\<forall>h \<in> set xs \<union> set ys. length h = 64"
    and "compute_merkle_root E xs = compute_merkle_root E ys" and "odd (length zs)" "1 < length zs"
  shows "(xs = ys \<or> (\<exists>u \<in> set (merkle_texts E xs). \<exists>v \<in> set (merkle_texts E ys). u \<noteq> v \<and> sha256_hex E u = sha256_hex E v))
     \<and> compute_merkle_root E (zs @ [last zs]) = compute_merkle_root E zs"
proof
  show "xs = ys \<or> (\<exists>u \<in> set (merkle_texts E xs). \<exists>v \<in> set (merkle_texts E ys). u \<noteq> v \<and> sha256_hex E u = sha256_hex E v)"
  proof (cases "xs = []")
    case False
    then have "ys \<noteq> []" using assms(2) by auto
    then have "merkle_loop E xs = merkle_loop E ys"
      using assms(4) False merkle_loop_single [of xs E] merkle_loop_single [of ys E] by simp
    then show ?thesis by (rule merkle_loop_inj [OF assms(1-3)])
  qed (use assms(2) in simp)
  have "even_out (zs @ [last zs]) = even_out zs" using assms(5) by (auto simp: even_out_def odd_iff_mod_2_eq_one)
  then have "merkle_loop E (zs @ [last zs]) = merkle_loop E zs"
    using assms(6) by (auto simp: merkle_loop.simps [of E "zs @ [last zs]"] merkle_loop.simps [of E zs] next_level_def)
  then show "compute_merkle_root E (zs @ [last zs]) = compute_merkle_root E zs"
    using assms(6) by (auto simp: compute_merkle_root_def)
qed

theorem merkle_root_binds_witness:
  "compute_merkle_root ref_ext [''a'', ''b'', ''c'', ''c''] = compute_merkle_root ref_ext [''a'', ''b'', ''c'']
   \<and> [replicate 64 CHR ''a''] = [replicate 64 CHR ''a'']"
  using merkle_root_binds [of ref_ext "[replicate 64 CHR ''a'']" "[replicate 64 CHR ''a'']" "[''a'', ''b'', ''c'']"] by simp

subsection \<open>Cycles\<close>

text \<open>The time of the last anchored entry, over the rows.\<close>

lemma fold_max_ge: "(t :: int) \<in> set (x # xs) \<Longrightarrow> t \<le> fold max xs x"
  unfolding Max.set_eq_fold [symmetric] by (rule Max_ge) simp_all

lemma fold_max_in: "fold max xs (x :: int) \<in> set (x # xs)"
  unfolding Max.set_eq_fold [symmetric] by (rule Max_in) simp_all

definition db_rows :: "anchor_worker \<Rightarrow> anchor_row list" where
  "db_rows w = anchor_rows (open_state_db (aw_db w))"

lemma watermark_rows: "get_last_anchored_timestamp w = (case map ar_last_entry_at (db_rows w) of [] \<Rightarrow> 0 | t # ts \<Rightarrow> fold max ts t)"
  by (simp add: get_last_anchored_timestamp_def db_rows_def open_state_db_def split: option.split)

lemma watermark_ge: "r \<in> set (db_rows w) \<Longrightarrow> ar_last_entry_at r \<le> get_last_anchored_timestamp w"
  using fold_max_ge by (cases "db_rows w") (auto simp: watermark_rows)

text \<open>What an anchor says of its batch, which submission leaves alone.\<close>

definition row_key :: "anchor_row \<Rightarrow> string \<times> u32 \<times> int \<times> int" where
  "row_key r = (ar_merkle_root r, ar_entry_count r, ar_first_entry_at r, ar_last_entry_at r)"

definition batch_key :: "ext \<Rightarrow> (string \<times> string \<times> int) list \<Rightarrow> string \<times> u32 \<times> int \<times> int" where
  "batch_key E c = (let a = anchor_of_chunk E 0 c in (ba_merkle_root a, ba_entry_count a, ba_first_entry_at a, ba_last_entry_at a))"

lemma submit_loop_key: "map row_key (db_rows (submit_loop E B e as w)) = map row_key (db_rows w)"
proof (induction as arbitrary: w)
  case (Cons a as)
  have "map row_key (anchor_rows (update_anchor_status i st d db)) = map row_key (anchor_rows db)" for i st d db
    by (simp add: update_anchor_status_def row_key_def)
  then show ?case using Cons by (auto simp: db_rows_def open_state_db_def split: sum.split option.split)
qed simp

lemma submit_key: "map row_key (db_rows (submit_pending E B e w)) = map row_key (db_rows w)"
  using submit_loop_key [of E B e] by (simp add: submit_pending_def Let_def) (simp add: db_rows_def open_state_db_def)

lemma anchor_chunks_key:
  "\<exists>k. map row_key (db_rows (snd (anchor_chunks E e n cs w))) = map row_key (db_rows w) @ map (batch_key E) (take k cs)
     \<and> (fst (anchor_chunks E e n cs w) = Inr () \<longrightarrow> k = length cs)
     \<and> aw_config (snd (anchor_chunks E e n cs w)) = aw_config w"
proof (induction E e n cs w rule: anchor_chunks.induct)
  case (2 E e n c cs w)
  show ?case
  proof (cases "ce_save e n")
    case (Inr u)
    let ?w = "w\<lparr>aw_db := Some (snd (save_anchor E (open_state_db (aw_db w)) (anchor_of_chunk E (ce_now e) c))),
       aw_last_anchor_at := Some (ce_now e), aw_pending_count := aw_pending_count w + 1,
       aw_total_anchored := aw_total_anchored w + of_nat (length c)\<rparr>"
    obtain k where k: "map row_key (db_rows (snd (anchor_chunks E e (Suc n) cs ?w))) = map row_key (db_rows ?w) @ map (batch_key E) (take k cs)"
      "fst (anchor_chunks E e (Suc n) cs ?w) = Inr () \<longrightarrow> k = length cs"
      "aw_config (snd (anchor_chunks E e (Suc n) cs ?w)) = aw_config w"
      using 2 [OF Inr] by auto
    have "map row_key (db_rows ?w) = map row_key (db_rows w) @ [batch_key E c]"
      by (simp add: db_rows_def open_state_db_def save_anchor_def row_key_def batch_key_def anchor_of_chunk_def Let_def)
    then show ?thesis using k Inr by (intro exI [of _ "Suc k"]) simp
  qed (auto intro: exI [of _ 0])
qed (auto intro: exI [of _ 0])

lemma cycle_key:
  assumes "logs = (case ce_logs e of Some (Inr ls) \<Rightarrow> ls | _ \<Rightarrow> [])"
  shows "\<exists>k. map row_key (db_rows (snd (anchor_cycle E B e w))) = map row_key (db_rows w)
           @ map (batch_key E) (take k (chunks (unat (an_batch_size (aw_config w))) (collect_entries logs (get_last_anchored_timestamp w))))
     \<and> (fst (anchor_cycle E B e w) = Inr () \<and> an_enabled (aw_config w) \<longrightarrow>
          k = length (chunks (unat (an_batch_size (aw_config w))) (collect_entries logs (get_last_anchored_timestamp w))))"
proof -
  let ?es = "collect_entries logs (get_last_anchored_timestamp w)" and ?b = "unat (an_batch_size (aw_config w))"
  have nothing: "collect_entries [] t = []" for t by (simp add: collect_entries_def)
  obtain k where k: "map row_key (db_rows (snd (anchor_chunks E e 0 (chunks ?b ?es) w))) = map row_key (db_rows w) @ map (batch_key E) (take k (chunks ?b ?es))"
      "fst (anchor_chunks E e 0 (chunks ?b ?es) w) = Inr () \<longrightarrow> k = length (chunks ?b ?es)"
    using anchor_chunks_key by blast
  show ?thesis
  proof (cases "an_enabled (aw_config w) \<and> (case ce_logs e of Some (Inl _) \<Rightarrow> False | _ \<Rightarrow> True) \<and> ?es \<noteq> [] \<and> ?b \<noteq> 0")
    case True
    then have "anchor_cycle E B e w = (let r = anchor_chunks E e 0 (chunks ?b ?es) w
        in case fst r of Inl err \<Rightarrow> (Inl err, snd r) | Inr _ \<Rightarrow> (Inr (), submit_pending E B e (snd r)))"
      using assms nothing by (auto simp: anchor_cycle_def Let_def split: option.splits sum.splits)
    then show ?thesis using k by (intro exI [of _ k]) (auto simp: Let_def submit_key split: sum.split)
  next
    case False
    then have "snd (anchor_cycle E B e w) = w \<and> (fst (anchor_cycle E B e w) = Inr () \<and> an_enabled (aw_config w) \<longrightarrow> ?es = [])"
      using assms nothing by (auto simp: anchor_cycle_def Let_def split: option.splits sum.splits)
    then show ?thesis by (intro exI [of _ 0]) auto
  qed
qed

text \<open>An entry to anchor and a batch size of zero: the worker panics.\<close>

lemma anchor_cycle_panic:
  "an_enabled (aw_config w) \<Longrightarrow> ce_logs e = Some (Inr logs) \<Longrightarrow> collect_entries logs (get_last_anchored_timestamp w) \<noteq> [] \<Longrightarrow>
   unat (an_batch_size (aw_config w)) = 0 \<Longrightarrow> anchor_cycle E B e w = (Inl (Panic ''chunk size must be non-zero''), w)"
  by (simp add: anchor_cycle_def Let_def)

lemma collect_after: "(h, a, t) \<in> set (collect_entries logs since) \<Longrightarrow> since < t"
proof -
  assume "(h, a, t) \<in> set (collect_entries logs since)"
  then obtain l where l: "(h, a, t) \<in> set (unwrap_or [] (read_audit_hashes l since))" by (auto simp: collect_entries_def)
  then show "since < t"
  proof (cases l)
    case (Inr f)
    with l show ?thesis by (cases f) (auto simp: read_audit_hashes_def)
  qed (simp add: read_audit_hashes_def)
qed

lemma batch_key_last: "c \<noteq> [] \<Longrightarrow> \<exists>x \<in> set c. snd (snd (snd (batch_key E c))) = snd (snd x)"
  "x \<in> set c \<Longrightarrow> snd (snd x) \<le> snd (snd (snd (batch_key E c)))"
proof -
  show "c \<noteq> [] \<Longrightarrow> \<exists>x \<in> set c. snd (snd (snd (batch_key E c))) = snd (snd x)"
    using fold_max_in [of "map (\<lambda>x. snd (snd x)) (tl c)" "snd (snd (hd c))"]
    by (cases c) (auto simp: batch_key_def anchor_of_chunk_def Let_def)
  show "x \<in> set c \<Longrightarrow> snd (snd x) \<le> snd (snd (snd (batch_key E c)))"
    using fold_max_ge [of "snd (snd x)" "snd (snd (hd c))" "map (\<lambda>x. snd (snd x)) (tl c)"]
    by (cases c) (auto simp: batch_key_def anchor_of_chunk_def Let_def)
qed

lemma watermark_key: "get_last_anchored_timestamp w =
  (case map (\<lambda>k. snd (snd (snd k))) (map row_key (db_rows w)) of [] \<Rightarrow> 0 | t # ts \<Rightarrow> fold max ts t)"
  by (simp add: watermark_rows row_key_def comp_def)

lemma watermark_append:
  assumes "map row_key (db_rows w') = map row_key (db_rows w) @ ks" "\<forall>k \<in> set ks. get_last_anchored_timestamp w < snd (snd (snd k))"
  shows "get_last_anchored_timestamp w \<le> get_last_anchored_timestamp w'"
    and "k \<in> set ks \<Longrightarrow> snd (snd (snd k)) \<le> get_last_anchored_timestamp w'"
proof -
  have ge: "snd (snd (snd k)) \<le> get_last_anchored_timestamp w'" if "k \<in> set (map row_key (db_rows w'))" for k
    using that watermark_ge [of _ w'] by (auto simp: row_key_def)
  then show k: "k \<in> set ks \<Longrightarrow> snd (snd (snd k)) \<le> get_last_anchored_timestamp w'" for k using assms(1) by simp
  show "get_last_anchored_timestamp w \<le> get_last_anchored_timestamp w'"
  proof (cases "db_rows w")
    case Nil
    then have 0: "get_last_anchored_timestamp w = 0" by (simp add: watermark_rows)
    show ?thesis
    proof (cases ks)
      case Nil
      then show ?thesis using assms(1) by (simp add: watermark_key)
    next
      case (Cons k' ks')
      then show ?thesis using k [of k'] assms(2) 0 by fastforce
    qed
  next
    case (Cons r rs)
    have "get_last_anchored_timestamp w \<in> ar_last_entry_at ` set (db_rows w)"
      using fold_max_in [of "map ar_last_entry_at rs" "ar_last_entry_at r"] by (auto simp: watermark_rows Cons)
    then obtain x where x: "x \<in> set (db_rows w)" "get_last_anchored_timestamp w = ar_last_entry_at x" by blast
    then have "row_key x \<in> set (map row_key (db_rows w'))" using assms(1) by simp
    from ge [OF this] show ?thesis using x(2) by (simp add: row_key_def)
  qed
qed

lemma new_batches_later:
  assumes "k \<in> set (map (batch_key E) (take n (chunks b (collect_entries logs since))))"
  shows "since < snd (snd (snd k))"
proof -
  obtain c where c: "c \<in> set (chunks b (collect_entries logs since))" "k = batch_key E c" using assms by (auto dest: in_set_takeD)
  then obtain x where "x \<in> set c" "snd (snd (snd k)) = snd (snd x)" using set_chunks [OF c(1)] batch_key_last(1) by blast
  then show ?thesis using set_chunks [OF c(1)] collect_after [of "fst x" "fst (snd x)" "snd (snd x)" logs since] by auto
qed

lemma cycle_watermark: "get_last_anchored_timestamp w \<le> get_last_anchored_timestamp (snd (anchor_cycle E B e w))"
  using cycle_key [OF refl, of E B e w] watermark_append(1) new_batches_later by metis

text \<open>
  C38: a successful cycle anchors everything new, once.  The entries of all readable logs that
  are later than the last anchored time are cut, in their order, into batches of at most the
  configured size; exactly one anchor is added per batch, with its Merkle root, its count and its
  first and last time; and the last anchored time moves past every one of them.
\<close>

theorem anchor_cycle_covers:
  assumes "anchor_cycle E B e w = (Inr (), w')" "an_enabled (aw_config w)" "ce_logs e = Some (Inr logs)"
  shows "\<exists>cs. concat cs = collect_entries logs (get_last_anchored_timestamp w)
     \<and> list_all (\<lambda>c. c \<noteq> [] \<and> length c \<le> unat (an_batch_size (aw_config w))) cs
     \<and> map row_key (db_rows w') = map row_key (db_rows w) @ map (batch_key E) cs
     \<and> list_all (\<lambda>(h, a, t). get_last_anchored_timestamp w < t \<and> t \<le> get_last_anchored_timestamp w') (concat cs)"
proof -
  let ?es = "collect_entries logs (get_last_anchored_timestamp w)" and ?b = "unat (an_batch_size (aw_config w))"
  let ?cs = "chunks ?b ?es"
  have key: "map row_key (db_rows w') = map row_key (db_rows w) @ map (batch_key E) ?cs"
    using cycle_key [of logs e E B w] assms by auto
  have cs: "concat ?cs = ?es"
  proof (cases "?es = []")
    case False
    then have "?b \<noteq> 0" using assms by (metis (no_types) Inl_Inr_False anchor_cycle_panic prod.inject)
    then show ?thesis by (simp add: concat_chunks)
  qed simp
  have later: "\<forall>k \<in> set (map (batch_key E) ?cs). get_last_anchored_timestamp w < snd (snd (snd k))"
    using new_batches_later [of _ E "length ?cs" ?b logs "get_last_anchored_timestamp w"] by (simp only: take_all order.refl) blast
  have upper: "t \<le> get_last_anchored_timestamp w'" if "c \<in> set ?cs" "(h, a, t) \<in> set c" for c h a t
    using watermark_append(2) [OF key later, of "batch_key E c"] batch_key_last(2) [OF that(2), of E] that(1) by fastforce
  have "list_all (\<lambda>(h, a, t). get_last_anchored_timestamp w < t \<and> t \<le> get_last_anchored_timestamp w') (concat ?cs)"
    unfolding list_all_iff
  proof (intro ballI, clarify)
    fix h a t
    assume new: "(h, a, t) \<in> set (concat ?cs)"
    then show "get_last_anchored_timestamp w < t \<and> t \<le> get_last_anchored_timestamp w'"
      using upper collect_after [of h a t logs "get_last_anchored_timestamp w"] unfolding cs by (metis cs UN_E set_concat)
  qed
  moreover have "list_all (\<lambda>c. c \<noteq> [] \<and> length c \<le> ?b) ?cs" using set_chunks [of _ ?b ?es] by (simp add: list_all_iff)
  ultimately show ?thesis using key cs by blast
qed

lemma run_watermark: "get_last_anchored_timestamp w \<le> get_last_anchored_timestamp (snd (run_loop E B es w))"
proof (induction es arbitrary: w)
  case (Cons e es)
  have "get_last_anchored_timestamp w \<le> get_last_anchored_timestamp (snd (anchor_cycle E B e w))" by (rule cycle_watermark)
  also have "get_last_anchored_timestamp (snd (anchor_cycle E B e w)) \<le> get_last_anchored_timestamp (snd (run_loop E B (e # es) w))"
    using Cons [of "snd (anchor_cycle E B e w)"] by (simp add: Let_def)
  finally show ?case .
qed simp

text \<open>
  C39: what falls behind the last anchored time is never anchored.  However many cycles run,
  with whatever failures, a later cycle collects only entries later than the last anchored time of
  any earlier moment.  An entry is therefore anchored at most once; and one logged in the same
  second as an anchored entry, or left over by a failed save while a later entry was saved, is
  never anchored.
\<close>

theorem anchored_once_or_never:
  assumes "(h, a, t) \<in> set (collect_entries logs (get_last_anchored_timestamp (snd (run_loop E B es w))))"
  shows "get_last_anchored_timestamp w < t"
  using collect_after [OF assms] run_watermark [of w E B es] by linarith

definition demo_entry :: "string \<Rightarrow> string \<Rightarrow> int \<Rightarrow> audit_entry" where
  "demo_entry h a t = \<lparr>ae_id = 1, ae_agent_id = a, ae_action = ''x'', ae_target = ''y'', ae_timestamp = t,
     ae_prev_hash = ''genesis'', ae_entry_hash = h, ae_signature = []\<rparr>"

definition demo_log :: "string \<Rightarrow> string \<Rightarrow> int \<Rightarrow> audit_db option result" where
  "demo_log h a t = Inr (Some \<lparr>audit_rows = [demo_entry h a t], audit_seq = 1\<rparr>)"

text \<open>Two agents' logs, batches of one entry; \<open>saves\<close> says which saves work.  There is no key, so nothing is submitted.\<close>

definition demo_cycle :: "(nat \<Rightarrow> unit result) \<Rightarrow> cycle_env" where
  "demo_cycle saves = \<lparr>ce_logs = Some (Inr [demo_log ''h'' ''a'' 10, demo_log ''g'' ''b'' 5]), ce_save = saves,
     ce_node = (\<lambda>_ _ _. Inl InvalidUrl), ce_key = None, ce_now = 0\<rparr>"

definition demo_worker :: anchor_worker where
  "demo_worker = anchor_new \<lparr>an_enabled = True, an_interval_minutes = 5, an_iota_node = ''http://x/'', an_batch_size = 1\<rparr> None"

lemmas demo_anchor = demo_worker_def demo_cycle_def demo_log_def demo_entry_def anchor_new_def anchor_cycle_def
  get_last_anchored_timestamp_def collect_entries_def read_audit_hashes_def chunks_step open_state_db_def save_anchor_def
  anchor_of_chunk_def submit_pending_def get_pending_anchors_def anchor_of_row_def is_pending_def submit_to_iota_def
  update_anchor_status_def anchor_status_display_def compute_merkle_root_def Let_def

theorem anchor_cycle_covers_witness:
  "\<exists>cs. concat cs = [(''h'', ''a'', 10), (''g'', ''b'', 5)] \<and> list_all (\<lambda>c. length c \<le> 1) cs
     \<and> map row_key (db_rows (snd (anchor_cycle ref_ext (pad 32) (demo_cycle (\<lambda>_. Inr ())) demo_worker))) = map (batch_key ref_ext) cs"
proof -
  let ?e = "demo_cycle (\<lambda>_. Inr ())"
  have run: "anchor_cycle ref_ext (pad 32) ?e demo_worker = (Inr (), snd (anchor_cycle ref_ext (pad 32) ?e demo_worker))"
    by (simp add: demo_anchor)
  have en: "an_enabled (aw_config demo_worker)" "ce_logs ?e = Some (Inr [demo_log ''h'' ''a'' 10, demo_log ''g'' ''b'' 5])"
    and b: "unat (an_batch_size (aw_config demo_worker)) = 1" "db_rows demo_worker = []"
    "collect_entries [demo_log ''h'' ''a'' 10, demo_log ''g'' ''b'' 5] (get_last_anchored_timestamp demo_worker) = [(''h'', ''a'', 10), (''g'', ''b'', 5)]"
    by (simp_all add: demo_anchor db_rows_def)
  show ?thesis
    using anchor_cycle_covers [OF run en] unfolding b by (auto simp: list_all_iff)
qed

text \<open>The second save fails: the entry of agent \<^verbatim>\<open>b\<close> is in no anchor, and no later cycle collects it.\<close>

theorem anchored_once_or_never_witness:
  "let w = snd (anchor_cycle ref_ext (pad 32) (demo_cycle (\<lambda>n. if n = 0 then Inr () else Inl (DbError ''disk full''))) demo_worker)
   in map row_key (db_rows w) = [(''h'', 1, 10, 10)]
      \<and> (''g'', ''b'', 5) \<notin> set (collect_entries [demo_log ''h'' ''a'' 10, demo_log ''g'' ''b'' 5]
            (get_last_anchored_timestamp (snd (run_loop ref_ext (pad 32) [demo_cycle (\<lambda>_. Inr ())] w))))
      \<and> get_last_anchored_timestamp w < 11"
proof -
  define w where "w = snd (anchor_cycle ref_ext (pad 32) (demo_cycle (\<lambda>n. if n = 0 then Inr () else Inl (DbError ''disk full''))) demo_worker)"
  have rows: "map row_key (db_rows w) = [(''h'', 1, 10, 10)]"
    by (simp add: w_def demo_anchor row_key_def db_rows_def)
  then have 10: "get_last_anchored_timestamp w = 10" by (simp only: watermark_key) simp
  have "(''g'', ''b'', 5) \<notin> set (collect_entries [demo_log ''h'' ''a'' 10, demo_log ''g'' ''b'' 5]
            (get_last_anchored_timestamp (snd (run_loop ref_ext (pad 32) [demo_cycle (\<lambda>_. Inr ())] w))))"
    using anchored_once_or_never [of "''g''" "''b''" 5 "[demo_log ''h'' ''a'' 10, demo_log ''g'' ''b'' 5]" ref_ext "pad 32" "[demo_cycle (\<lambda>_. Inr ())]" w] 10
    by linarith
  moreover have "get_last_anchored_timestamp w < 11"
    by (rule anchored_once_or_never [of "''k''" "''c''" 11 "[demo_log ''k'' ''c'' 11]" ref_ext "pad 32" "[]" w])
      (simp add: collect_entries_def read_audit_hashes_def demo_log_def demo_entry_def 10)
  ultimately show ?thesis using rows unfolding Let_def w_def by blast
qed

subsection \<open>Submission\<close>

text \<open>The worker's life: cycles, and restarts of the daemon, which keep the table only.\<close>

inductive anchor_step :: "ext \<Rightarrow> blake \<Rightarrow> anchor_worker \<Rightarrow> anchor_worker \<Rightarrow> bool" for E B where
  cycle: "anchor_step E B w (snd (anchor_cycle E B e w))"
| restart: "anchor_step E B w (anchor_new config (aw_db w))"

definition anchor_db_inv :: "anchor_db \<Rightarrow> bool" where
  "anchor_db_inv db \<longleftrightarrow> distinct (map ar_id (anchor_rows db))
     \<and> (\<forall>r \<in> set (anchor_rows db). ar_id r \<le> anchor_seq db \<and> (is_pending r \<or> ar_status r = ''submitted'')
          \<and> (is_pending r \<longrightarrow> ar_iota_tx_digest r = None))"

abbreviation anchor_inv :: "anchor_worker \<Rightarrow> bool" where
  "anchor_inv w \<equiv> anchor_db_inv (open_state_db (aw_db w))"

lemma open_state_db_simps [simp]: "open_state_db (Some db) = db" "anchor_rows (open_state_db None) = []"
  by (simp_all add: open_state_db_def)

lemma update_ids [simp]: "map ar_id (anchor_rows (update_anchor_status i st d db)) = map ar_id (anchor_rows db)"
  by (simp add: update_anchor_status_def)

lemma update_inv:
  assumes "anchor_db_inv db" "st = Submitted \<or> st = Failed \<and> d = None"
  shows "anchor_db_inv (update_anchor_status i st d db)"
  unfolding anchor_db_inv_def
proof
  show "distinct (map ar_id (anchor_rows (update_anchor_status i st d db)))" using assms(1) by (simp add: anchor_db_inv_def)
qed (use assms in \<open>auto simp: anchor_db_inv_def update_anchor_status_def is_pending_def anchor_status_display_def\<close>)

lemma submit_loop_step:
  assumes "aw_db w = Some db"
  obtains v where "submit_loop E B e (a # as) w = submit_loop E B e as v" "aw_config v = aw_config w"
    "aw_db v = Some (case submit_to_iota E B (ce_node e (ba_id a)) (ce_key e) (aw_config w) a of
        Inr d \<Rightarrow> update_anchor_status (ba_id a) Submitted (Some d) db | Inl _ \<Rightarrow> update_anchor_status (ba_id a) Failed None db)"
proof
  show "submit_loop E B e (a # as) w = submit_loop E B e as
       (case submit_to_iota E B (ce_node e (ba_id a)) (ce_key e) (aw_config w) a of
          Inr tx_digest \<Rightarrow>
            w\<lparr>aw_db := map_option (update_anchor_status (ba_id a) Submitted (Some tx_digest)) (aw_db w),
              aw_pending_count := (if aw_pending_count w > 0 then aw_pending_count w - 1 else aw_pending_count w)\<rparr>
        | Inl _ \<Rightarrow> w\<lparr>aw_db := map_option (update_anchor_status (ba_id a) Failed None) (aw_db w)\<rparr>)"
    by simp
qed (use assms in \<open>simp_all split: sum.split\<close>)

lemma submit_loop_inv: "anchor_db_inv db \<Longrightarrow> aw_db w = Some db \<Longrightarrow> anchor_inv (submit_loop E B e as w)"
proof (induction as arbitrary: w db)
  case (Cons a as)
  obtain v where v: "submit_loop E B e (a # as) w = submit_loop E B e as v"
    "aw_db v = Some (case submit_to_iota E B (ce_node e (ba_id a)) (ce_key e) (aw_config w) a of
        Inr d \<Rightarrow> update_anchor_status (ba_id a) Submitted (Some d) db | Inl _ \<Rightarrow> update_anchor_status (ba_id a) Failed None db)"
    using submit_loop_step [OF Cons.prems(2)] by metis
  show ?case unfolding v(1)
    by (rule Cons.IH [OF _ v(2)]) (auto intro: update_inv [OF Cons.prems(1)] split: sum.split)
qed simp

lemma save_inv: "anchor_db_inv db \<Longrightarrow> anchor_db_inv (snd (save_anchor E db (anchor_of_chunk E now c)))"
  by (fastforce simp: anchor_db_inv_def save_anchor_def anchor_of_chunk_def is_pending_def anchor_status_display_def Let_def)

lemma anchor_chunks_inv: "anchor_inv w \<Longrightarrow> anchor_inv (snd (anchor_chunks E e n cs w))"
proof (induction E e n cs w rule: anchor_chunks.induct)
  case (2 E e n c cs w)
  then show ?case using save_inv [OF 2(2)] by (cases "ce_save e n") auto
qed simp

lemma submit_pending_inv: "anchor_inv w \<Longrightarrow> anchor_inv (submit_pending E B e w)"
  unfolding submit_pending_def Let_def by (rule submit_loop_inv) simp_all

lemma cycle_inv [step_inv]: "anchor_inv w \<Longrightarrow> anchor_inv (snd (anchor_cycle E B e w))"
  using anchor_chunks_inv submit_pending_inv
  by (auto simp: anchor_cycle_def Let_def split: option.split sum.split)

lemma restart_inv [step_inv]: "anchor_inv w \<Longrightarrow> anchor_inv (anchor_new config (aw_db w))"
  by (simp add: anchor_new_def)

interpretation anchors: invariant "\<lambda>w. \<exists>config. w = anchor_new config None" "anchor_step E B" anchor_inv for E B
proof
  show "anchor_inv w" if "\<exists>config. w = anchor_new config None" for w
    using that by (auto simp: anchor_db_inv_def anchor_new_def)
  show "anchor_inv v" if "anchor_inv w" "anchor_step E B w v" for w v
    using that(2,1) by (induction rule: anchor_step.induct) (auto intro: step_inv)
qed

text \<open>What one submission makes of a row.\<close>

definition submitted_row :: "ext \<Rightarrow> blake \<Rightarrow> cycle_env \<Rightarrow> anchoring_section \<Rightarrow> anchor_row \<Rightarrow> anchor_row" where
  "submitted_row E B e config r =
     (case submit_to_iota E B (ce_node e (ar_id r)) (ce_key e) config (anchor_of_row E (ce_now e) r) of
        Inr d \<Rightarrow> r\<lparr>ar_status := ''submitted'', ar_iota_tx_digest := Some d\<rparr>
      | Inl _ \<Rightarrow> r\<lparr>ar_status := ''failed'', ar_iota_tx_digest := None\<rparr>)"

lemma submitted_row_id [simp]: "ar_id (submitted_row E B e config r) = ar_id r"
  by (simp add: submitted_row_def split: sum.split)

lemma submit_loop_rows:
  assumes "distinct (map ar_id rows)" "distinct (ps @ dn)" "set (ps @ dn) \<subseteq> set rows" "aw_db w = Some db"
    and "anchor_rows db = map (\<lambda>r. if r \<in> set dn then submitted_row E B e (aw_config w) r else r) rows"
  shows "db_rows (submit_loop E B e (map (anchor_of_row E (ce_now e)) ps) w)
    = map (\<lambda>r. if r \<in> set (ps @ dn) then submitted_row E B e (aw_config w) r else r) rows"
  using assms(2-)
proof (induction ps arbitrary: dn w db)
  case Nil
  then show ?case by (simp add: db_rows_def)
next
  case (Cons p ps)
  let ?a = "anchor_of_row E (ce_now e) p"
  have id: "ba_id ?a = ar_id p" by (simp add: anchor_of_row_def)
  obtain v where v: "submit_loop E B e (?a # map (anchor_of_row E (ce_now e)) ps) w = submit_loop E B e (map (anchor_of_row E (ce_now e)) ps) v"
    "aw_config v = aw_config w"
    "aw_db v = Some (case submit_to_iota E B (ce_node e (ar_id p)) (ce_key e) (aw_config w) ?a of
        Inr d \<Rightarrow> update_anchor_status (ar_id p) Submitted (Some d) db | Inl _ \<Rightarrow> update_anchor_status (ar_id p) Failed None db)"
    using submit_loop_step [OF Cons.prems(3), of E B e ?a] unfolding id by metis
  have p: "p \<in> set rows" "p \<notin> set dn" and only: "\<And>r. r \<in> set rows \<Longrightarrow> ar_id r = ar_id p \<longleftrightarrow> r = p"
    using Cons.prems(1,2) assms(1) by (auto simp: distinct_map inj_on_def)
  have rows: "anchor_rows (case submit_to_iota E B (ce_node e (ar_id p)) (ce_key e) (aw_config w) ?a of
        Inr d \<Rightarrow> update_anchor_status (ar_id p) Submitted (Some d) db | Inl _ \<Rightarrow> update_anchor_status (ar_id p) Failed None db)
      = map (\<lambda>r. if r \<in> set (p # dn) then submitted_row E B e (aw_config v) r else r) rows"
    using p only by (auto simp: update_anchor_status_def Cons.prems(4) submitted_row_def anchor_status_display_def v(2) split: sum.split)
  have "db_rows (submit_loop E B e (map (anchor_of_row E (ce_now e)) ps) v)
      = map (\<lambda>r. if r \<in> set (ps @ p # dn) then submitted_row E B e (aw_config v) r else r) rows"
    by (rule Cons.IH [OF _ _ v(3) rows]) (use Cons.prems(1,2) in auto)
  then show ?case using v(1,2) by (simp cong: if_cong)
qed

text \<open>
  Submission acts on each anchor alone.  In every state the worker reaches, submitting
  gives each of the ten oldest anchors not yet submitted the outcome of its own submission, and
  leaves every other row as it is: what is submitted stays so with its digest.  What goes out
  does not depend on the anchor: the Merkle root is part of no request.
\<close>

theorem submission_exact:
  assumes "reachable (\<lambda>w. \<exists>config. w = anchor_new config None) (anchor_step E B) w"
  shows "db_rows (submit_pending E B e w) =
       map (\<lambda>r. if r \<in> set (take 10 (filter is_pending (db_rows w))) then submitted_row E B e (aw_config w) r else r) (db_rows w)
     \<and> list_all (\<lambda>r. is_pending r \<or> ar_status r = ''submitted'') (db_rows (submit_pending E B e w))
     \<and> submit_to_iota E B N key config a = submit_to_iota E B N key config b"
proof -
  have inv: "anchor_inv w" using anchors.inv_reachable [OF assms] .
  let ?ps = "take 10 (filter is_pending (db_rows w))"
  have d: "distinct (map ar_id (db_rows w))" using inv by (simp add: db_rows_def anchor_db_inv_def)
  then have "distinct ?ps" by (auto simp: distinct_map)
  moreover have "set ?ps \<subseteq> set (db_rows w)" by (auto dest: in_set_takeD)
  ultimately have "db_rows (submit_pending E B e w) = map (\<lambda>r. if r \<in> set ?ps then submitted_row E B e (aw_config w) r else r) (db_rows w)"
    using submit_loop_rows [OF d, of ?ps "[]" "w\<lparr>aw_db := Some (open_state_db (aw_db w))\<rparr>" "open_state_db (aw_db w)" E B e]
    by (simp add: submit_pending_def get_pending_anchors_def Let_def flip: db_rows_def)
  moreover have "anchor_inv (submit_pending E B e w)" using submit_pending_inv [OF inv] .
  ultimately show ?thesis by (auto simp: db_rows_def anchor_db_inv_def list_all_iff submit_to_iota_def)
qed

theorem submission_exact_witness:
  "let w = snd (anchor_cycle ref_ext (pad 32) (demo_cycle (\<lambda>_. Inr ())) demo_worker)
   in map ar_status (db_rows w) = [''failed'', ''failed'']
      \<and> list_all (\<lambda>r. is_pending r \<or> ar_status r = ''submitted'') (db_rows (submit_pending ref_ext (pad 32) (demo_cycle (\<lambda>_. Inr ())) w))"
proof -
  let ?w = "snd (anchor_cycle ref_ext (pad 32) (demo_cycle (\<lambda>_. Inr ())) demo_worker)"
  have "map ar_status (db_rows ?w) = [''failed'', ''failed'']" by (simp add: demo_anchor db_rows_def)
  moreover have "reachable (\<lambda>w. \<exists>config. w = anchor_new config None) (anchor_step ref_ext (pad 32)) ?w"
    by (rule reach_step, rule reach_init) (auto simp: demo_worker_def intro: cycle)
  ultimately show ?thesis using submission_exact [of ref_ext "pad 32" ?w] unfolding Let_def by blast
qed

end
