(* ===== verification/Mesh.thy ===== *)
theory Mesh
  imports License Daemon_Config
begin

text \<open>
  Mesh networking, \<^verbatim>\<open>grokingclaw-daemon/src/mesh.rs\<close>: the transport interface with its two implementations,
  and the client with its connection state.  The trait \<^verbatim>\<open>MeshTransport\<close> is a record of operations on
  the transport's own state; the locale \<open>mesh_transport\<close> states what the client relies on, and is
  interpreted on the Headscale and on the mock transport.  HTTP answers, files and the clock are
  arguments.
\<close>

subsection \<open>Types\<close>

record mesh_config =
  mc_coordination_server :: string
  mc_daemon_card_path :: string
  mc_daemon_key_path :: string
  mc_wireguard_key_path :: string
  mc_mesh_dir :: string
  mc_auto_connect :: bool

definition default_mesh_config :: "string option \<Rightarrow> mesh_config" where
  "default_mesh_config home_dir =
     (let home = (case home_dir of Some h \<Rightarrow> h | None \<Rightarrow> ''.'');
          root = path_join home ''.grokingclaw''
      in \<lparr>mc_coordination_server = ''https://mesh.grokingclaw.com'',
          mc_daemon_card_path = path_join (path_join root ''identity'') ''daemon.card.json'',
          mc_daemon_key_path = path_join (path_join root ''identity'') ''daemon.pem'',
          mc_wireguard_key_path = path_join (path_join root ''mesh'') ''wg-private.key'',
          mc_mesh_dir = path_join root ''mesh'', mc_auto_connect = True\<rparr>)"

record mesh_peer =
  mp_name :: string
  mp_did :: string
  mp_mesh_ip :: string
  mp_last_seen :: datetime
  mp_agent_count :: nat

datatype mesh_state = Disconnected | Connecting | Connected string "mesh_peer list" datetime

fun mesh_is_connected :: "mesh_state \<Rightarrow> bool" where
  "mesh_is_connected (Connected _ _ _) = True"
| "mesh_is_connected _ = False"

record auth_result =
  ar_success :: bool
  ar_mesh_ip :: "string option"
  ar_token :: "string option"
  ar_error :: "string option"

record node_registration =
  nr_node_id :: string
  nr_mesh_ip :: string
  nr_wireguard_config :: string

record ping_result =
  pr_peer_did :: string
  pr_reachable :: bool
  pr_latency_ms :: "nat option"
  pr_error :: "string option"

definition auth_result_from_json :: "json \<Rightarrow> auth_result option" where
  "auth_result_from_json v =
     (case struct_opt_members [(''success'', False), (''mesh_ip'', True), (''token'', True), (''error'', True)] v of
        Some [JBool s, ip, t, e] \<Rightarrow>
          (case (opt_str ip, opt_str t, opt_str e) of
             (Some ip', Some t', Some e') \<Rightarrow>
               Some \<lparr>ar_success = s, ar_mesh_ip = ip', ar_token = t', ar_error = e'\<rparr>
           | _ \<Rightarrow> None)
      | _ \<Rightarrow> None)"

definition node_registration_from_json :: "json \<Rightarrow> node_registration option" where
  "node_registration_from_json v =
     (case struct_members [''node_id'', ''mesh_ip'', ''wireguard_config''] v of
        Some [JStr n, JStr ip, JStr w] \<Rightarrow>
          Some \<lparr>nr_node_id = n, nr_mesh_ip = ip, nr_wireguard_config = w\<rparr>
      | _ \<Rightarrow> None)"

definition opt_u64 :: "json \<Rightarrow> nat option option" where
  "opt_u64 v = (case v of JNull \<Rightarrow> Some None | _ \<Rightarrow> map_option Some (as_u64 v))"

definition ping_result_from_json :: "json \<Rightarrow> ping_result option" where
  "ping_result_from_json v =
     (case struct_opt_members [(''peer_did'', False), (''reachable'', False), (''latency_ms'', True), (''error'', True)] v of
        Some [JStr d, JBool r, l, e] \<Rightarrow>
          (case (opt_u64 l, opt_str e) of
             (Some l', Some e') \<Rightarrow>
               Some \<lparr>pr_peer_did = d, pr_reachable = r, pr_latency_ms = l', pr_error = e'\<rparr>
           | _ \<Rightarrow> None)
      | _ \<Rightarrow> None)"

definition mesh_peer_from_json :: "ext \<Rightarrow> json \<Rightarrow> mesh_peer option" where
  "mesh_peer_from_json E v =
     (case struct_members [''name'', ''did'', ''mesh_ip'', ''last_seen'', ''agent_count''] v of
        Some [JStr n, JStr d, JStr ip, JStr t, c] \<Rightarrow>
          (case (dt_serde_parse E t, as_u64 c) of
             (Some seen, Some k) \<Rightarrow>
               (if k < 2 ^ 32
                then Some \<lparr>mp_name = n, mp_did = d, mp_mesh_ip = ip, mp_last_seen = seen, mp_agent_count = k\<rparr>
                else None)
           | _ \<Rightarrow> None)
      | _ \<Rightarrow> None)"

subsection \<open>The transport interface\<close>

record 't transport =
  t_authenticate :: "'t \<Rightarrow> bytes \<Rightarrow> bytes \<Rightarrow> auth_result result \<times> 't"
  t_register_node :: "'t \<Rightarrow> string \<Rightarrow> node_registration result \<times> 't"
  t_register_agent :: "'t \<Rightarrow> string \<Rightarrow> string \<Rightarrow> unit result \<times> 't"
  t_deregister_agent :: "'t \<Rightarrow> string \<Rightarrow> unit result \<times> 't"
  t_list_peers :: "'t \<Rightarrow> mesh_peer list result \<times> 't"
  t_ping_peer :: "'t \<Rightarrow> string \<Rightarrow> ping_result result \<times> 't"

definition granted :: "auth_result result \<Rightarrow> bool" where
  "granted r = (case r of Inr a \<Rightarrow> ar_success a | Inl _ \<Rightarrow> False)"

locale mesh_transport =
  fixes T :: "'t transport"
  assumes refused_keeps: "\<not> granted (fst (t_authenticate T t cb resp)) \<Longrightarrow> snd (t_authenticate T t cb resp) = t"
    and list_reads: "snd (t_list_peers T t) = t"
    and ping_reads: "snd (t_ping_peer T t did) = t"
    and failed_register: "fst (t_register_agent T t a d) = Inl e \<Longrightarrow> snd (t_register_agent T t a d) = t"
    and failed_deregister: "fst (t_deregister_agent T t a) = Inl e \<Longrightarrow> snd (t_deregister_agent T t a) = t"

subsection \<open>Headscale\<close>

datatype http_method = Get | Post | Delete

record mesh_request =
  mr_method :: http_method
  mr_url :: string
  mr_bearer :: "string option"
  mr_body :: "json option"

text \<open>The HTTP client: the status and the body, either of which may fail, and the text of a status.\<close>

record mesh_http =
  mh_send :: "mesh_request \<Rightarrow> (nat \<times> string result) result"
  mh_status_text :: "nat \<Rightarrow> string"

record headscale =
  hs_coordination_server :: string
  hs_auth_token :: "string option"

definition headscale_new :: "string \<Rightarrow> headscale" where
  "headscale_new coordination_server =
     \<lparr>hs_coordination_server = trim_end_matches (\<lambda>c. c = CHR ''/'') coordination_server, hs_auth_token = None\<rparr>"

definition hs_url :: "headscale \<Rightarrow> string \<Rightarrow> string" where
  "hs_url h path = hs_coordination_server h @ path"

definition resp_json :: "ext \<Rightarrow> (json \<Rightarrow> 'a option) \<Rightarrow> string result \<Rightarrow> 'a result" where
  "resp_json E rd text =
     bind_res text (\<lambda>body. of_option (ParseError ''response'') (Option.bind (json_parse E body) rd))"

definition hs_authenticate :: "ext \<Rightarrow> mesh_http \<Rightarrow> headscale \<Rightarrow> bytes \<Rightarrow> bytes \<Rightarrow> auth_result result \<times> headscale" where
  "hs_authenticate E H h card_bytes challenge_response =
     (let payload = json_object [(''card'', JStr (b64_encode E card_bytes)), (''challenge_response'', JStr (b64_encode E challenge_response))]
      in case mh_send H \<lparr>mr_method = Post, mr_url = hs_url h ''/v1/auth/challenge'', mr_bearer = None, mr_body = Some payload\<rparr> of
           Inl e \<Rightarrow> (Inl e, h)
         | Inr (status, text) \<Rightarrow>
             if \<not> is_success status
             then (Inr \<lparr>ar_success = False, ar_mesh_ip = None, ar_token = None,
                        ar_error = Some (''HTTP '' @ mh_status_text H status @ '': '' @ unwrap_or [] text)\<rparr>, h)
             else (case resp_json E auth_result_from_json text of
                     Inl e \<Rightarrow> (Inl e, h)
                   | Inr result \<Rightarrow>
                       (Inr result,
                        if ar_success result
                        then (case ar_token result of Some token \<Rightarrow> h\<lparr>hs_auth_token := Some token\<rparr> | None \<Rightarrow> h)
                        else h)))"

definition hs_token :: "headscale \<Rightarrow> string result" where
  "hs_token h = of_option (NotFound ''Not authenticated'') (hs_auth_token h)"

definition hs_register_node :: "ext \<Rightarrow> mesh_http \<Rightarrow> headscale \<Rightarrow> string \<Rightarrow> node_registration result \<times> headscale" where
  "hs_register_node E H h wireguard_pubkey =
     (bind_res (hs_token h) (\<lambda>token.
      bind_res (mh_send H \<lparr>mr_method = Post, mr_url = hs_url h ''/v1/mesh/register'', mr_bearer = Some token,
                           mr_body = Some (json_object [(''wireguard_pubkey'', JStr wireguard_pubkey)])\<rparr>) (\<lambda>(_, text).
      resp_json E node_registration_from_json text)), h)"

definition hs_register_agent :: "mesh_http \<Rightarrow> headscale \<Rightarrow> string \<Rightarrow> string \<Rightarrow> unit result \<times> headscale" where
  "hs_register_agent H h agent_id agent_did =
     (bind_res (hs_token h) (\<lambda>token.
      bind_res (mh_send H \<lparr>mr_method = Post, mr_url = hs_url h ''/v1/agents/register'', mr_bearer = Some token,
                           mr_body = Some (json_object [(''agent_id'', JStr agent_id), (''agent_did'', JStr agent_did)])\<rparr>)
        (\<lambda>(status, text). require (is_success status) (Rejected (''Agent registration failed: '' @ unwrap_or [] text)))), h)"

definition hs_deregister_agent :: "mesh_http \<Rightarrow> headscale \<Rightarrow> string \<Rightarrow> unit result \<times> headscale" where
  "hs_deregister_agent H h agent_id =
     (bind_res (hs_token h) (\<lambda>token.
      bind_res (mh_send H \<lparr>mr_method = Delete, mr_url = hs_url h (''/v1/agents/'' @ agent_id), mr_bearer = Some token, mr_body = None\<rparr>)
        (\<lambda>(status, text). require (is_success status) (Rejected (''Agent deregistration failed: '' @ unwrap_or [] text)))), h)"

definition json_list :: "(json \<Rightarrow> 'a option) \<Rightarrow> json \<Rightarrow> 'a list option" where
  "json_list rd v = Option.bind (as_array v) (\<lambda>vs. those (map rd vs))"

definition hs_list_peers :: "ext \<Rightarrow> mesh_http \<Rightarrow> headscale \<Rightarrow> mesh_peer list result \<times> headscale" where
  "hs_list_peers E H h =
     (bind_res (hs_token h) (\<lambda>token.
      bind_res (mh_send H \<lparr>mr_method = Get, mr_url = hs_url h ''/v1/mesh/peers'', mr_bearer = Some token, mr_body = None\<rparr>)
        (\<lambda>(_, text). resp_json E (json_list (mesh_peer_from_json E)) text)), h)"

definition hs_ping_peer :: "ext \<Rightarrow> mesh_http \<Rightarrow> headscale \<Rightarrow> string \<Rightarrow> ping_result result \<times> headscale" where
  "hs_ping_peer E H h peer_did =
     (bind_res (hs_token h) (\<lambda>token.
      bind_res (mh_send H \<lparr>mr_method = Post, mr_url = hs_url h ''/v1/mesh/ping'', mr_bearer = Some token,
                           mr_body = Some (json_object [(''peer_did'', JStr peer_did)])\<rparr>)
        (\<lambda>(_, text). resp_json E ping_result_from_json text)), h)"

definition headscale_transport :: "ext \<Rightarrow> mesh_http \<Rightarrow> headscale transport" where
  "headscale_transport E H = \<lparr>
     t_authenticate = hs_authenticate E H, t_register_node = hs_register_node E H,
     t_register_agent = hs_register_agent H, t_deregister_agent = hs_deregister_agent H,
     t_list_peers = hs_list_peers E H, t_ping_peer = hs_ping_peer E H\<rparr>"

interpretation headscale: mesh_transport "headscale_transport E H" for E H
proof
  fix h cb resp
  assume "\<not> granted (fst (t_authenticate (headscale_transport E H) h cb resp))"
  then show "snd (t_authenticate (headscale_transport E H) h cb resp) = h"
    by (auto simp: headscale_transport_def hs_authenticate_def granted_def split: sum.splits prod.splits if_splits)
qed (simp_all add: headscale_transport_def hs_list_peers_def hs_ping_peer_def hs_register_agent_def hs_deregister_agent_def)

subsection \<open>The mock transport\<close>

record mock =
  mk_peers :: "mesh_peer list"
  mk_agents :: "(string \<times> string) list"

definition mock_new :: mock where
  "mock_new = \<lparr>mk_peers = [], mk_agents = []\<rparr>"

definition mock_with_peers :: "mesh_peer list \<Rightarrow> mock" where
  "mock_with_peers peers = \<lparr>mk_peers = peers, mk_agents = []\<rparr>"

definition mock_transport :: "mock transport" where
  "mock_transport = \<lparr>
     t_authenticate = (\<lambda>m _ _. (Inr \<lparr>ar_success = True, ar_mesh_ip = Some ''100.64.0.1'',
                                       ar_token = Some ''mock-token-12345'', ar_error = None\<rparr>, m)),
     t_register_node = (\<lambda>m _. (Inr \<lparr>nr_node_id = ''mock-node-001'', nr_mesh_ip = ''100.64.0.1'',
                                     nr_wireguard_config = ''[Interface]'' @ [nl] @ ''Address = 100.64.0.1/32'' @ [nl]\<rparr>, m)),
     t_register_agent = (\<lambda>m agent_id agent_did. (Inr (), m\<lparr>mk_agents := mk_agents m @ [(agent_id, agent_did)]\<rparr>)),
     t_deregister_agent = (\<lambda>m agent_id. (Inr (), m\<lparr>mk_agents := filter (\<lambda>(i, _). i \<noteq> agent_id) (mk_agents m)\<rparr>)),
     t_list_peers = (\<lambda>m. (Inr (mk_peers m), m)),
     t_ping_peer = (\<lambda>m peer_did.
       let reachable = list_ex (\<lambda>p. mp_did p = peer_did) (mk_peers m)
       in (Inr \<lparr>pr_peer_did = peer_did, pr_reachable = reachable,
                pr_latency_ms = (if reachable then Some 1 else None),
                pr_error = (if reachable then None else Some ''Peer not found'')\<rparr>, m))\<rparr>"

interpretation mock: mesh_transport mock_transport
  by unfold_locales (simp_all add: mock_transport_def granted_def Let_def)

subsection \<open>The client\<close>

text \<open>The commands \<^verbatim>\<open>wg-quick\<close> is run with are logged in \<open>cl_wg\<close>; their outcome changes nothing.\<close>

record 't mesh_client =
  cl_config :: mesh_config
  cl_state :: mesh_state
  cl_transport :: 't
  cl_wg :: "(string \<times> string) list"

definition mesh_client_new :: "mesh_config \<Rightarrow> 't \<Rightarrow> 't mesh_client" where
  "mesh_client_new config transport =
     \<lparr>cl_config = config, cl_state = Disconnected, cl_transport = transport, cl_wg = []\<rparr>"

definition with_headscale :: "mesh_config \<Rightarrow> headscale mesh_client" where
  "with_headscale config = mesh_client_new config (headscale_new (mc_coordination_server config))"

definition client_is_connected :: "'t mesh_client \<Rightarrow> bool" where
  "client_is_connected c = mesh_is_connected (cl_state c)"

text \<open>What a connection attempt finds on disk, and its clock.\<close>

record mesh_env =
  me_card_file :: "bytes result"
  me_key_file :: "string result"
  me_wg_key_exists :: bool
  me_wg_conf_exists :: bool
  me_now :: datetime

definition wg_config :: "'t mesh_client \<Rightarrow> string" where
  "wg_config c = path_join (mc_mesh_dir (cl_config c)) ''wg0.conf''"

definition setup_wireguard :: "mesh_env \<Rightarrow> 't mesh_client \<Rightarrow> 't mesh_client" where
  "setup_wireguard V c = (if me_wg_conf_exists V then c\<lparr>cl_wg := cl_wg c @ [(''up'', wg_config c)]\<rparr> else c)"

definition load_daemon_identity :: "ext \<Rightarrow> mesh_env \<Rightarrow> (bytes \<times> string) result" where
  "load_daemon_identity E V =
     bind_res (me_card_file V) (\<lambda>card_bytes.
     bind_res (me_key_file V) (\<lambda>key_pem.
     bind_res (decode_private_key_pem E key_pem) (\<lambda>signing_key.
     Inr (card_bytes, sign E signing_key card_bytes))))"

definition do_connect :: "ext \<Rightarrow> 't transport \<Rightarrow> mesh_env \<Rightarrow> 't mesh_client \<Rightarrow> unit result \<times> 't mesh_client" where
  "do_connect E T V c =
     (case load_daemon_identity E V of
        Inl e \<Rightarrow> (Inl e, c)
      | Inr (card_bytes, challenge_response) \<Rightarrow>
          (let r = t_authenticate T (cl_transport c) card_bytes challenge_response;
               c1 = c\<lparr>cl_transport := snd r\<rparr>
           in case fst r of
                Inl e \<Rightarrow> (Inl e, c1)
              | Inr auth \<Rightarrow>
                  if \<not> ar_success auth
                  then (Inl (Rejected (case ar_error auth of Some m \<Rightarrow> m | None \<Rightarrow> ''unknown reason'')), c1)
                  else (case ar_mesh_ip auth of
                          None \<Rightarrow> (Inl (NotFound ''mesh IP''), c1)
                        | Some mesh_ip \<Rightarrow>
                            let c2 = (if me_wg_key_exists V then setup_wireguard V c1 else c1);
                                p = t_list_peers T (cl_transport c2)
                            in (Inr (), c2\<lparr>cl_transport := snd p,
                                           cl_state := Connected mesh_ip (unwrap_or [] (fst p)) (me_now V)\<rparr>))))"

definition connect_begin :: "ext \<Rightarrow> license_disk \<Rightarrow> 't mesh_client \<Rightarrow> unit result \<times> 't mesh_client" where
  "connect_begin E disk c =
     (case check_feature license_feature.Mesh (load_license E disk) of
        Inl e \<Rightarrow> (Inl e, c)
      | Inr _ \<Rightarrow> (Inr (), c\<lparr>cl_state := Connecting\<rparr>))"

definition connect_finish :: "ext \<Rightarrow> 't transport \<Rightarrow> mesh_env \<Rightarrow> 't mesh_client \<Rightarrow> unit result \<times> 't mesh_client" where
  "connect_finish E T V c =
     (let r = do_connect E T V c
      in case fst r of Inr _ \<Rightarrow> r | Inl e \<Rightarrow> (Inl e, (snd r)\<lparr>cl_state := Disconnected\<rparr>))"

definition mesh_connect :: "ext \<Rightarrow> license_disk \<Rightarrow> 't transport \<Rightarrow> mesh_env \<Rightarrow> 't mesh_client \<Rightarrow> unit result \<times> 't mesh_client" where
  "mesh_connect E disk T V c =
     (let b = connect_begin E disk c
      in case fst b of Inl e \<Rightarrow> b | Inr _ \<Rightarrow> connect_finish E T V (snd b))"

definition mesh_disconnect :: "bool \<Rightarrow> 't mesh_client \<Rightarrow> 't mesh_client" where
  "mesh_disconnect wg_conf_exists c =
     (if wg_conf_exists then c\<lparr>cl_wg := cl_wg c @ [(''down'', wg_config c)]\<rparr> else c)\<lparr>cl_state := Disconnected\<rparr>"

definition mesh_register_agent :: "'t transport \<Rightarrow> 't mesh_client \<Rightarrow> string \<Rightarrow> string \<Rightarrow> unit result \<times> 't mesh_client" where
  "mesh_register_agent T c agent_id agent_did =
     (if \<not> client_is_connected c then (Inr (), c)
      else let r = t_register_agent T (cl_transport c) agent_id agent_did
           in (fst r, c\<lparr>cl_transport := snd r\<rparr>))"

definition mesh_deregister_agent :: "'t transport \<Rightarrow> 't mesh_client \<Rightarrow> string \<Rightarrow> unit result \<times> 't mesh_client" where
  "mesh_deregister_agent T c agent_id =
     (if \<not> client_is_connected c then (Inr (), c)
      else let r = t_deregister_agent T (cl_transport c) agent_id
           in (fst r, c\<lparr>cl_transport := snd r\<rparr>))"

definition cache_peers :: "mesh_peer list \<Rightarrow> mesh_state \<Rightarrow> mesh_state" where
  "cache_peers peers s = (case s of Connected ip _ t \<Rightarrow> Connected ip peers t | _ \<Rightarrow> s)"

definition mesh_list_peers :: "'t transport \<Rightarrow> 't mesh_client \<Rightarrow> mesh_peer list result \<times> 't mesh_client" where
  "mesh_list_peers T c =
     (if \<not> client_is_connected c then (Inr [], c)
      else let r = t_list_peers T (cl_transport c);
               c1 = c\<lparr>cl_transport := snd r\<rparr>
           in case fst r of
                Inl e \<Rightarrow> (Inl e, c1)
              | Inr peers \<Rightarrow> (Inr peers, c1\<lparr>cl_state := cache_peers peers (cl_state c1)\<rparr>))"

definition mesh_ping :: "'t transport \<Rightarrow> 't mesh_client \<Rightarrow> string \<Rightarrow> ping_result result \<times> 't mesh_client" where
  "mesh_ping T c peer_did =
     (if \<not> client_is_connected c
      then (Inr \<lparr>pr_peer_did = peer_did, pr_reachable = False, pr_latency_ms = None,
                 pr_error = Some ''Not connected to mesh''\<rparr>, c)
      else let r = t_ping_peer T (cl_transport c) peer_did
           in (fst r, c\<lparr>cl_transport := snd r\<rparr>))"

subsection \<open>Connecting\<close>

lemmas client_ops = mesh_register_agent_def mesh_deregister_agent_def mesh_list_peers_def mesh_ping_def

lemma do_connect_frame:
  "cl_config (snd (do_connect E T V c)) = cl_config c"
  "fst (do_connect E T V c) = Inl e \<Longrightarrow> cl_wg (snd (do_connect E T V c)) = cl_wg c \<and> cl_state (snd (do_connect E T V c)) = cl_state c"
  "fst (do_connect E T V c) = Inr u \<Longrightarrow> client_is_connected (snd (do_connect E T V c))"
  by (auto simp: do_connect_def setup_wireguard_def client_is_connected_def Let_def split: result_split prod.splits)

text \<open>The answer to the authentication request of a connection attempt.\<close>

definition auth_answer :: "ext \<Rightarrow> 't transport \<Rightarrow> mesh_env \<Rightarrow> 't \<Rightarrow> auth_result result" where
  "auth_answer E T V t =
     bind_res (load_daemon_identity E V) (\<lambda>(card_bytes, challenge_response). fst (t_authenticate T t card_bytes challenge_response))"

lemma connect_finish_settled:
  "cl_state (snd (connect_finish E T V c)) \<noteq> Connecting"
  "cl_config (snd (connect_finish E T V c)) = cl_config c"
  using do_connect_frame [of E T V c]
  by (auto simp: connect_finish_def client_is_connected_def Let_def split: sum.splits)

lemma connect_finish_ok_iff:
  "fst (connect_finish E T V c) = Inr () \<longleftrightarrow>
     (\<exists>a. auth_answer E T V (cl_transport c) = Inr a \<and> ar_success a \<and> ar_mesh_ip a \<noteq> None)"
  by (auto simp: connect_finish_def do_connect_def auth_answer_def Let_def split: sum.splits prod.splits option.splits)

context mesh_transport
begin

lemma connect_failed:
  assumes "fst (connect_finish E T V c) = Inl e"
  shows "cl_state (snd (connect_finish E T V c)) = Disconnected"
    and "cl_wg (snd (connect_finish E T V c)) = cl_wg c"
    and "\<not> granted (auth_answer E T V (cl_transport c)) \<Longrightarrow> cl_transport (snd (connect_finish E T V c)) = cl_transport c"
  using assms do_connect_frame(2) [of E T V c] refused_keeps [of "cl_transport c"]
  by (auto simp: connect_finish_def do_connect_def auth_answer_def granted_def Let_def split: sum.splits prod.splits option.splits if_splits)

lemma connect_ok:
  assumes "auth_answer E T V (cl_transport c) = Inr a" "ar_success a" "ar_mesh_ip a = Some ip"
  shows "fst (connect_finish E T V c) = Inr ()"
    and "cl_state (snd (connect_finish E T V c)) =
           Connected ip (unwrap_or [] (fst (t_list_peers T (cl_transport (snd (connect_finish E T V c)))))) (me_now V)"
    and "cl_wg (snd (connect_finish E T V c)) =
           cl_wg c @ (if me_wg_key_exists V \<and> me_wg_conf_exists V then [(''up'', wg_config c)] else [])"
  using assms list_reads
  by (auto simp: connect_finish_def do_connect_def auth_answer_def bind_res_Inr_iff setup_wireguard_def wg_config_def Let_def)

text \<open>An operation that reports an error has changed nothing; reading ones keep the transport.\<close>

lemma failed_op_keeps:
  "fst (mesh_register_agent T c a d) = Inl e \<Longrightarrow> snd (mesh_register_agent T c a d) = c"
  "fst (mesh_deregister_agent T c a) = Inl e \<Longrightarrow> snd (mesh_deregister_agent T c a) = c"
  "fst (mesh_list_peers T c) = Inl e \<Longrightarrow> snd (mesh_list_peers T c) = c"
  "snd (mesh_ping T c d) = c"
  using failed_register failed_deregister list_reads ping_reads
  by (auto simp: client_ops Let_def split: if_splits sum.splits)

end

text \<open>
  C26: Connecting to the mesh, exactly.  A licence without the feature changes nothing.  Otherwise
  the attempt succeeds exactly when the daemon's card and key can be read, the coordination server
  answers that the authentication succeeded, and names an address; the client is then connected with
  that address and the peers the server lists (none, if it cannot say).  Every other attempt fails,
  leaves the client disconnected, runs no \<^verbatim>\<open>wg-quick\<close>, and keeps the stored token unless the server had
  accepted the authentication.
\<close>

theorem mesh_connect_exact:
  fixes E H V disk c
  defines "T \<equiv> headscale_transport E H"
  defines "r \<equiv> mesh_connect E disk T V c"
  defines "a \<equiv> auth_answer E T V (cl_transport c)"
  shows "(if check_feature license_feature.Mesh (load_license E disk) \<noteq> Inr () then \<exists>e. r = (Inl e, c)
          else if \<exists>x. a = Inr x \<and> ar_success x \<and> ar_mesh_ip x \<noteq> None
          then fst r = Inr ()
               \<and> cl_state (snd r) = Connected (the (ar_mesh_ip (projr a)))
                    (unwrap_or [] (fst (t_list_peers T (cl_transport (snd r))))) (me_now V)
          else (\<exists>e. fst r = Inl e) \<and> cl_state (snd r) = Disconnected \<and> cl_wg (snd r) = cl_wg c
               \<and> (granted a \<or> cl_transport (snd r) = cl_transport c))"
proof (cases "check_feature license_feature.Mesh (load_license E disk)")
  case (Inl e)
  then show ?thesis by (simp add: r_def mesh_connect_def connect_begin_def)
next
  case (Inr u)
  define c1 where "c1 = c\<lparr>cl_state := Connecting\<rparr>"
  have r: "r = connect_finish E T V c1" using Inr by (simp add: r_def mesh_connect_def connect_begin_def c1_def)
  have a: "a = auth_answer E T V (cl_transport c1)" by (simp add: a_def c1_def)
  have c1: "cl_wg c1 = cl_wg c" "cl_transport c1 = cl_transport c" by (simp_all add: c1_def)
  show ?thesis
  proof (cases "\<exists>x. a = Inr x \<and> ar_success x \<and> ar_mesh_ip x \<noteq> None")
    case True
    then obtain x ip where x: "auth_answer E T V (cl_transport c1) = Inr x" "ar_success x" "ar_mesh_ip x = Some ip"
      by (auto simp: a)
    then show ?thesis
      using headscale.connect_ok(1,2) [folded T_def, OF x [unfolded T_def]] Inr by (simp add: r a T_def)
  next
    case False
    then obtain e where e: "fst (connect_finish E T V c1) = Inl e"
      using connect_finish_ok_iff [of E T V c1] by (cases "fst (connect_finish E T V c1)") (auto simp: a)
    then show ?thesis
      using headscale.connect_failed [OF e [unfolded T_def]] False Inr by (auto simp: r a c1 T_def)
  qed
qed

text \<open>A licence, a key file and a server for the witnesses.\<close>

definition mesh_ext :: ext where
  "mesh_ext = lic_ext\<lparr>json_parse := (\<lambda>_. Some (JObj [(''success'', JBool True), (''mesh_ip'', JStr ''100.64.0.7'')]))\<rparr>"

definition yes_http :: mesh_http where
  "yes_http = \<lparr>mh_send = (\<lambda>_. Inr (200, Inr ''body'')), mh_status_text = nat_str\<rparr>"

definition demo_mesh_env :: mesh_env where
  "demo_mesh_env = \<lparr>me_card_file = Inr ''card'',
     me_key_file = Inr (ed_begin @ nl # b64_encode mesh_ext (replicate 32 CHR ''k'') @ nl # ed_end @ []),
     me_wg_key_exists = True, me_wg_conf_exists = True, me_now = 9\<rparr>"

lemma mesh_ext_b64: "b64_ok mesh_ext"
  using lic_b64_ok by (simp add: b64_ok_def mesh_ext_def)

lemma mesh_licensed: "check_feature license_feature.Mesh (load_license mesh_ext (Some (Inr demo_license))) = Inr ()"
proof -
  have "signed_license mesh_ext demo_license = signed_license lic_ext demo_license"
    by (simp add: signed_license_def verify_def mesh_ext_def license_payload_json_def license_payload_value_def payload_of_def)
  then show ?thesis
    by (simp add: load_license_cases demo_license_signed check_feature_def) (simp add: demo_license_def for_tier_def has_feature_def)
qed

lemma demo_auth_answer:
  "auth_answer mesh_ext (headscale_transport mesh_ext yes_http) demo_mesh_env t
     = Inr \<lparr>ar_success = True, ar_mesh_ip = Some ''100.64.0.7'', ar_token = None, ar_error = None\<rparr>"
proof -
  have "decode_private_key_pem mesh_ext (ed_begin @ nl # b64_encode mesh_ext (replicate 32 CHR ''k'') @ nl # ed_end @ [])
      = Inr (replicate 32 CHR ''k'')"
    by (rule decode_ed_section) (simp_all add: mesh_ext_b64)
  then have "\<exists>s. load_daemon_identity mesh_ext demo_mesh_env = Inr (''card'', s)"
    by (simp add: load_daemon_identity_def demo_mesh_env_def)
  moreover have "resp_json mesh_ext auth_result_from_json (Inr ''body'')
      = Inr \<lparr>ar_success = True, ar_mesh_ip = Some ''100.64.0.7'', ar_token = None, ar_error = None\<rparr>"
    by (simp add: resp_json_def mesh_ext_def auth_result_from_json_def struct_opt_members_def struct_field_def opt_field_def opt_str_def)
  ultimately show ?thesis
    by (auto simp: auth_answer_def headscale_transport_def hs_authenticate_def yes_http_def is_success_def Let_def)
qed

theorem mesh_connect_exact_witness:
  "fst (mesh_connect mesh_ext (Some (Inr demo_license)) (headscale_transport mesh_ext yes_http) demo_mesh_env
      (with_headscale (default_mesh_config None))) = Inr ()"
  using mesh_connect_exact [of mesh_ext "Some (Inr demo_license)" yes_http demo_mesh_env "with_headscale (default_mesh_config None)"]
  by (simp add: mesh_licensed demo_auth_answer)

text \<open>
  A server that grants the authentication and names an address but gives no token leaves a fresh
  client connected with an empty list of peers, and every further operation on the mesh fails.
\<close>

theorem tokenless_connection:
  fixes config :: mesh_config
  assumes "check_feature license_feature.Mesh (load_license E disk) = Inr ()"
    and "auth_answer E (headscale_transport E H) V (headscale_new url) = Inr a"
    and "ar_success a" and "ar_mesh_ip a = Some ip" and "ar_token a = None"
  defines "r \<equiv> mesh_connect E disk (headscale_transport E H) V (mesh_client_new config (headscale_new url))"
  shows "fst r = Inr () \<and> cl_state (snd r) = Connected ip [] (me_now V)
    \<and> fst (mesh_register_agent (headscale_transport E H') (snd r) i d) = Inl (NotFound ''Not authenticated'')
    \<and> fst (mesh_list_peers (headscale_transport E H') (snd r)) = Inl (NotFound ''Not authenticated'')
    \<and> fst (mesh_ping (headscale_transport E H') (snd r) d) = Inl (NotFound ''Not authenticated'')"
proof -
  let ?h = "headscale_new url" and ?T = "headscale_transport E H"
  obtain card_bytes resp where id: "load_daemon_identity E V = Inr (card_bytes, resp)"
    and au: "fst (hs_authenticate E H ?h card_bytes resp) = Inr a"
    using assms(2) by (auto simp: auth_answer_def bind_res_Inr_iff headscale_transport_def)
  have same: "snd (hs_authenticate E H ?h card_bytes resp) = ?h"
    using au assms(5) by (auto simp: hs_authenticate_def Let_def split: sum.splits prod.splits if_splits)
  have tok: "hs_token ?h = Inl (NotFound ''Not authenticated'')" by (simp add: hs_token_def headscale_new_def)
  have "fst r = Inr ()" and st: "cl_state (snd r) = Connected ip [] (me_now V)" and tr: "cl_transport (snd r) = ?h"
    using assms(1,3,4) id au same tok
    by (auto simp: r_def mesh_connect_def connect_begin_def connect_finish_def do_connect_def mesh_client_new_def
        headscale_transport_def hs_list_peers_def setup_wireguard_def Let_def)
  then show ?thesis using tok
    by (simp add: client_ops client_is_connected_def headscale_transport_def hs_register_agent_def hs_list_peers_def
        hs_ping_peer_def Let_def)
qed

theorem tokenless_connection_witness:
  "cl_state (snd (mesh_connect mesh_ext (Some (Inr demo_license)) (headscale_transport mesh_ext yes_http) demo_mesh_env
      (mesh_client_new (default_mesh_config None) (headscale_new [])))) = Connected ''100.64.0.7'' [] 9
   \<and> fst (mesh_register_agent (headscale_transport mesh_ext yes_http)
        (snd (mesh_connect mesh_ext (Some (Inr demo_license)) (headscale_transport mesh_ext yes_http) demo_mesh_env
          (mesh_client_new (default_mesh_config None) (headscale_new [])))) ''a'' ''d'') = Inl (NotFound ''Not authenticated'')"
  using tokenless_connection [OF mesh_licensed demo_auth_answer, where H' = yes_http and i = "''a''" and d = "''d''" and url = "[]" and config = "default_mesh_config None"]
  by (simp add: demo_mesh_env_def)

subsection \<open>Interleaving\<close>

text \<open>
  Tasks of the daemon share the client.  A connection attempt is two atomic parts, the check with
  the change to \<open>Connecting\<close> and the rest, whose only write to the state comes last; the list of peers
  arrives while other operations run.  A configuration of the system is the client and the number of
  attempts in flight.
\<close>

inductive mesh_step :: "ext \<Rightarrow> ('t transport \<Rightarrow> bool) \<Rightarrow> 't mesh_client \<times> nat \<Rightarrow> 't mesh_client \<times> nat \<Rightarrow> bool"
  for E :: ext and Ts :: "'t transport \<Rightarrow> bool" where
  begin_connect: "fst (connect_begin E disk c) = Inr () \<Longrightarrow> mesh_step E Ts (c, n) (snd (connect_begin E disk c), Suc n)"
| finish_connect: "Ts T \<Longrightarrow> mesh_step E Ts (c, Suc n) (snd (connect_finish E T V c), n)"
| do_disconnect: "mesh_step E Ts (c, n) (mesh_disconnect b c, n)"
| do_register: "Ts T \<Longrightarrow> mesh_step E Ts (c, n) (snd (mesh_register_agent T c a d), n)"
| do_deregister: "Ts T \<Longrightarrow> mesh_step E Ts (c, n) (snd (mesh_deregister_agent T c a), n)"
| do_list: "Ts T \<Longrightarrow> mesh_step E Ts (c, n) (snd (mesh_list_peers T c), n)"
| peers_arrive: "mesh_step E Ts (c, n) (c\<lparr>cl_state := cache_peers ps (cl_state c)\<rparr>, n)"
| do_ping: "Ts T \<Longrightarrow> mesh_step E Ts (c, n) (snd (mesh_ping T c d), n)"

inductive_cases mesh_step_cases: "mesh_step E Ts (c, n) s"

definition connecting_inv :: "mesh_config \<Rightarrow> 't mesh_client \<times> nat \<Rightarrow> bool" where
  "connecting_inv config s \<longleftrightarrow> cl_config (fst s) = config \<and> (cl_state (fst s) = Connecting \<longrightarrow> 0 < snd s)"

lemma cache_peers_connecting [simp]: "cache_peers ps s = Connecting \<longleftrightarrow> s = Connecting"
  by (simp add: cache_peers_def split: mesh_state.splits)

lemma client_ops_keep:
  "cl_config (snd (mesh_register_agent T c a d)) = cl_config c" "cl_state (snd (mesh_register_agent T c a d)) = cl_state c"
  "cl_config (snd (mesh_deregister_agent T c a)) = cl_config c" "cl_state (snd (mesh_deregister_agent T c a)) = cl_state c"
  "cl_config (snd (mesh_ping T c d)) = cl_config c" "cl_state (snd (mesh_ping T c d)) = cl_state c"
  "cl_config (snd (mesh_list_peers T c)) = cl_config c"
  "cl_state (snd (mesh_list_peers T c)) = Connecting \<longleftrightarrow> cl_state c = Connecting"
  "cl_config (mesh_disconnect b c) = cl_config c" "cl_state (mesh_disconnect b c) = Disconnected"
  "cl_config (snd (connect_begin E disk c)) = cl_config c"
  by (simp_all add: client_ops mesh_disconnect_def connect_begin_def Let_def split: sum.splits)

interpretation mesh_client: invariant "\<lambda>s. s = (mesh_client_new config t, 0)" "mesh_step E Ts" "connecting_inv config"
  for config :: mesh_config and t :: 't and E Ts
proof
  fix s s' :: "'t mesh_client \<times> nat"
  assume "connecting_inv config s" "mesh_step E Ts s s'"
  then show "connecting_inv config s'"
    by (cases s; auto elim!: mesh_step_cases simp: connecting_inv_def client_ops_keep connect_finish_settled)
qed (simp add: connecting_inv_def mesh_client_new_def)

text \<open>
  No interleaving of the daemon's tasks leaves the mesh client between two states: in every state
  the client can reach, over any transport and any answers, it is \<open>Connecting\<close> only while an attempt
  is in flight; once none is, it is connected or disconnected, with the configuration it was made
  with.
\<close>

theorem connecting_is_transient:
  assumes "reachable (\<lambda>s. s = (mesh_client_new config t, 0)) (mesh_step E Ts) (c, n)"
  shows "cl_config c = config \<and> (cl_state c = Connecting \<longrightarrow> 0 < n)
    \<and> (n = 0 \<longrightarrow> cl_state c = Disconnected \<or> client_is_connected c)"
  using mesh_client.inv_reachable [OF assms]
  by (cases "cl_state c") (auto simp: connecting_inv_def client_is_connected_def)

theorem connecting_is_transient_witness:
  "cl_state (snd (connect_begin mesh_ext (Some (Inr demo_license)) (mesh_client_new (default_mesh_config None) mock_new))) = Connecting
   \<and> (0::nat) < 1"
proof -
  let ?c = "mesh_client_new (default_mesh_config None) mock_new"
  have "reachable (\<lambda>s. s = (?c, 0)) (mesh_step mesh_ext (\<lambda>T. T = mock_transport)) (snd (connect_begin mesh_ext (Some (Inr demo_license)) ?c), Suc 0)"
    by (rule reach_step, rule reach_init, rule refl, rule begin_connect) (simp add: connect_begin_def mesh_licensed)
  from connecting_is_transient [OF this] show ?thesis by (simp add: connect_begin_def mesh_licensed)
qed

text \<open>
  A disconnection asked for while an attempt is in flight is lost when the attempt succeeds.
\<close>

lemma disconnect_overtaken:
  assumes "auth_answer E T V (cl_transport c) = Inr a" "ar_success a" "ar_mesh_ip a = Some ip"
  shows "client_is_connected (snd (connect_finish E T V (mesh_disconnect b c)))"
proof -
  have t: "cl_transport (mesh_disconnect b c) = cl_transport c" by (simp add: mesh_disconnect_def)
  have "fst (connect_finish E T V (mesh_disconnect b c)) = Inr ()" using assms by (subst connect_finish_ok_iff) (simp add: t)
  then show ?thesis using do_connect_frame(3) [of E T V "mesh_disconnect b c"] by (auto simp: connect_finish_def Let_def split: sum.splits)
qed

text \<open>
  When the mesh is down the daemon works on alone: a client that is not connected answers every
  operation without an error and without touching the transport, and a failed connection attempt of
  such a client leaves it in that condition.
\<close>

theorem mesh_offline:
  assumes "\<not> client_is_connected c"
    and "fst (mesh_connect E disk T V c) = Inl e"
    and "c' \<in> {c, snd (mesh_connect E disk T V c)}"
  shows "\<not> client_is_connected c'
    \<and> mesh_register_agent T c' a d = (Inr (), c') \<and> mesh_deregister_agent T c' a = (Inr (), c')
    \<and> mesh_list_peers T c' = (Inr [], c')
    \<and> (\<exists>p. mesh_ping T c' d = (Inr p, c') \<and> \<not> pr_reachable p)"
proof -
  have "cl_state (snd (mesh_connect E disk T V c)) \<in> {cl_state c, Disconnected}"
    using assms(2) by (auto simp: mesh_connect_def connect_begin_def connect_finish_def Let_def split: sum.splits)
  then have "\<not> client_is_connected c'" using assms(1,3) by (auto simp: client_is_connected_def)
  then show ?thesis by (simp add: client_ops)
qed

theorem mesh_offline_witness:
  "mesh_list_peers mock_transport (snd (mesh_connect ref_ext None mock_transport demo_mesh_env (mesh_client_new (default_mesh_config None) mock_new)))
     = (Inr [], snd (mesh_connect ref_ext None mock_transport demo_mesh_env (mesh_client_new (default_mesh_config None) mock_new)))"
proof -
  let ?c = "mesh_client_new (default_mesh_config None) mock_new"
  have "\<exists>e. fst (mesh_connect ref_ext None mock_transport demo_mesh_env ?c) = Inl e"
    by (simp add: mesh_connect_def connect_begin_def check_feature_def load_license_cases default_license_state_def for_tier_def has_feature_def)
  then obtain e where e: "fst (mesh_connect ref_ext None mock_transport demo_mesh_env ?c) = Inl e" by blast
  have "\<not> client_is_connected ?c" by (simp add: client_is_connected_def mesh_client_new_def)
  from mesh_offline [OF this e] show ?thesis by blast
qed

text \<open>An agent registered on the mock transport and deregistered again is gone.\<close>

lemma mock_register_deregister:
  assumes "client_is_connected c" "a \<notin> fst ` set (mk_agents (cl_transport c))"
  shows "cl_transport (snd (mesh_deregister_agent mock_transport (snd (mesh_register_agent mock_transport c a d)) a)) = cl_transport c"
proof -
  have "filter (\<lambda>(i, _). i \<noteq> a) (mk_agents (cl_transport c)) = mk_agents (cl_transport c)"
    using assms(2) by (intro filter_True) (auto simp: image_iff)
  then show ?thesis using assms(1) by (simp add: client_ops client_is_connected_def mock_transport_def Let_def)
qed

end
