(* ===== verification/Guard.thy ===== *)
theory Guard
  imports Cards Challenge_Response
begin

text \<open>
  The MCP guard, \<^verbatim>\<open>grokingclawid-cli/src/commands/guard.rs\<close>: a filter between an agent and a tool server that
  forwards a line, answers it itself, or drops it.  The derived JSON reader of a card, which the guard
  and the other commands use, is here too.  What the clocks and the revocation registry say, how
  errors print and how JSON is pretty-printed are arguments.
\<close>

subsection \<open>Reading a card\<close>

text \<open>A unit variant of an enum: its name, or an object with its name and null.\<close>

definition enum_name :: "json \<Rightarrow> string option" where
  "enum_name v = (case v of JStr s \<Rightarrow> Some s | JObj [(k, JNull)] \<Rightarrow> Some k | _ \<Rightarrow> None)"

definition crypto_scheme_of_json :: "json \<Rightarrow> crypto_scheme option" where
  "crypto_scheme_of_json v =
     Option.bind (enum_name v) (\<lambda>s.
       if s = ''ed25519'' then Some Ed25519 else if s = ''ml-dsa-65'' then Some MlDsa65
       else if s = ''hybrid'' then Some Hybrid else None)"

definition agent_type_of_json :: "json \<Rightarrow> agent_type option" where
  "agent_type_of_json v =
     Option.bind (enum_name v) (\<lambda>s.
       if s = ''type'' then Some Type else if s = ''instance'' then Some Instance
       else if s = ''session'' then Some Session else None)"

definition opt_uuid :: "ext \<Rightarrow> json \<Rightarrow> uuid option option" where
  "opt_uuid E v = (case v of JNull \<Rightarrow> Some None | JStr s \<Rightarrow> map_option Some (uuid_parse E s) | _ \<Rightarrow> None)"

definition card_fields :: "(string \<times> bool) list" where
  "card_fields = [(''id'', False), (''name'', False), (''owner'', False), (''scopes'', False), (''public_key'', False),
     (''pq_public_key'', True), (''signature'', False), (''pq_signature'', True), (''crypto_scheme'', False),
     (''issued_at'', False), (''expires_at'', False), (''agent_type'', False), (''parent_id'', True), (''spiffe_id'', True)]"

definition card_from_json :: "ext \<Rightarrow> json \<Rightarrow> agent_card option" where
  "card_from_json E v =
     (case struct_opt_members card_fields v of
        Some [JStr i, JStr n, JStr ow, sc, JStr pk, pqk, JStr sg, pqs, cs, JStr iat, JStr eat, ty, par, sp] \<Rightarrow>
          Option.bind (uuid_parse E i) (\<lambda>card_id'.
          Option.bind (str_list sc) (\<lambda>scopes.
          Option.bind (opt_str pqk) (\<lambda>pq_public_key.
          Option.bind (opt_str pqs) (\<lambda>pq_signature.
          Option.bind (crypto_scheme_of_json cs) (\<lambda>crypto_scheme.
          Option.bind (dt_serde_parse E iat) (\<lambda>issued_at.
          Option.bind (dt_serde_parse E eat) (\<lambda>expires_at.
          Option.bind (agent_type_of_json ty) (\<lambda>agent_type.
          Option.bind (opt_uuid E par) (\<lambda>parent_id.
          Option.bind (opt_str sp) (\<lambda>spiffe_id.
          Some \<lparr>card_id = card_id', card_name = n, card_owner = ow, card_scopes = scopes, card_public_key = pk,
                card_pq_public_key = pq_public_key, card_signature = sg, card_pq_signature = pq_signature,
                card_crypto_scheme = crypto_scheme, card_issued_at = issued_at, card_expires_at = expires_at,
                card_agent_type = agent_type, card_parent_id = parent_id, card_spiffe_id = spiffe_id\<rparr>))))))))))
      | _ \<Rightarrow> None)"

subsection \<open>Requests and answers\<close>

record rpc_req =
  rq_jsonrpc :: string
  rq_id :: json
  rq_method :: string
  rq_params :: json

definition request_from_json :: "json \<Rightarrow> rpc_req option" where
  "request_from_json v =
     (case (case v of
              JObj kvs \<Rightarrow> those [struct_field kvs ''jsonrpc'', opt_field kvs ''id'', struct_field kvs ''method'', opt_field kvs ''params'']
            | JArr [j, i, mt] \<Rightarrow> Some [j, i, mt, JNull]
            | JArr vs \<Rightarrow> Some vs
            | _ \<Rightarrow> None) of
        Some [JStr j, i, JStr mt, p] \<Rightarrow> Some \<lparr>rq_jsonrpc = j, rq_id = i, rq_method = mt, rq_params = p\<rparr>
      | _ \<Rightarrow> None)"

definition ok_response :: "json \<Rightarrow> json \<Rightarrow> json" where
  "ok_response i result = JObj [(''jsonrpc'', JStr ''2.0''), (''id'', i), (''result'', result)]"

definition rpc_error_object :: "json \<Rightarrow> int \<Rightarrow> string \<Rightarrow> json option \<Rightarrow> json" where
  "rpc_error_object i code message data =
     JObj [(''jsonrpc'', JStr ''2.0''), (''id'', i),
       (''error'', JObj ([(''code'', JNum code), (''message'', JStr message)] @ (case data of None \<Rightarrow> [] | Some d \<Rightarrow> [(''data'', d)])))]"

definition guard_error_response :: "json \<Rightarrow> int \<Rightarrow> string \<Rightarrow> json" where
  "guard_error_response i code message = rpc_error_object i code message None"

definition text_content :: "string \<Rightarrow> json" where
  "text_content t = json_object [(''content'', JArr [json_object [(''type'', JStr ''text''), (''text'', JStr t)]])]"

subsection \<open>State\<close>

record guard_state =
  gs_authenticated :: bool
  gs_agent_card :: "agent_card option"
  gs_allowed_scopes :: "string list"
  gs_require_pq :: bool
  gs_request_count :: "64 word"
  gs_blocked_count :: "64 word"
  gs_auth_failures :: u32
  gs_last_failure_time :: "int option"

definition guard_new :: "string list \<Rightarrow> bool \<Rightarrow> guard_state" where
  "guard_new scopes require_pq =
     \<lparr>gs_authenticated = False, gs_agent_card = None, gs_allowed_scopes = scopes, gs_require_pq = require_pq,
      gs_request_count = 0, gs_blocked_count = 0, gs_auth_failures = 0, gs_last_failure_time = None\<rparr>"

text \<open>Instants, the wall clock, the registry (absent when it cannot be opened), and the printers.\<close>

record guard_env =
  ge_instant :: int
  ge_now :: datetime
  ge_registry :: "revocation_db option"
  ge_show_error :: "error \<Rightarrow> string"
  ge_pretty :: "json \<Rightarrow> string"

definition elapsed_secs :: "int \<Rightarrow> int \<Rightarrow> int" where
  "elapsed_secs now since = (if now < since then 0 else (now - since) div ns_per_sec)"

subsection \<open>Authentication\<close>

text \<open>The guard's signed text: the card without signatures, in the order of the struct's fields.\<close>

definition guard_payload :: "ext \<Rightarrow> agent_card \<Rightarrow> string" where
  "guard_payload E crd = json_text (json_quote E) (JObj (card_members E (unsigned crd)))"

definition auth_failure :: "guard_env \<Rightarrow> guard_state \<Rightarrow> guard_state" where
  "auth_failure e s = s\<lparr>gs_auth_failures := gs_auth_failures s + 1, gs_last_failure_time := Some (ge_instant e)\<rparr>"

definition has_required_scope :: "string list \<Rightarrow> agent_card \<Rightarrow> bool" where
  "has_required_scope allowed crd =
     list_all (\<lambda>required. list_ex (\<lambda>s. s = required \<or> s = ''*'' \<or> s = ''admin'') (card_scopes crd)) allowed"

definition check_pq :: "ext \<Rightarrow> guard_env \<Rightarrow> bool \<Rightarrow> agent_card \<Rightarrow> string option" where
  "check_pq E e required crd =
     (if \<not> (required \<or> card_crypto_scheme crd = Hybrid) then None
      else case card_pq_public_key crd of
             None \<Rightarrow> Some ''Post-quantum signature required but card has no PQ public key.''
           | Some pq_pub \<Rightarrow>
               (case card_pq_signature crd of
                  None \<Rightarrow> Some ''Post-quantum signature required but card has no PQ signature.''
                | Some pq_sig \<Rightarrow>
                    (case mldsa_verify E pq_pub (guard_payload E crd) pq_sig of
                       Inr True \<Rightarrow> None
                     | Inr False \<Rightarrow> Some ''Invalid ML-DSA-65 signature on agent card.''
                     | Inl er \<Rightarrow> Some (''ML-DSA-65 verification error: '' @ ge_show_error e er))))"

definition authenticate_card :: "ext \<Rightarrow> guard_env \<Rightarrow> json \<Rightarrow> agent_card \<Rightarrow> guard_state \<Rightarrow> json \<times> guard_state" where
  "authenticate_card E e i crd s =
     (case verify E (card_public_key crd) (guard_payload E crd) (card_signature crd) of
        Inl er \<Rightarrow> (guard_error_response i (-32002) (''Ed25519 verification error: '' @ ge_show_error e er), s)
      | Inr False \<Rightarrow> (guard_error_response i (-32002) ''Invalid Ed25519 signature on agent card.'', auth_failure e s)
      | Inr True \<Rightarrow>
          (case check_pq E e (gs_require_pq s) crd of
             Some message \<Rightarrow> (guard_error_response i (-32002) message, s)
           | None \<Rightarrow>
               if card_expires_at crd \<le> ge_now e
               then (guard_error_response i (-32002) (''Agent card expired at '' @ rfc3339 E (card_expires_at crd)), auth_failure e s)
               else if (case ge_registry e of None \<Rightarrow> False | Some db \<Rightarrow> is_revoked db (card_id crd))
               then (guard_error_response i (-32002) ''Agent card has been revoked.'', s)
               else if \<not> has_required_scope (gs_allowed_scopes s) crd
               then (guard_error_response i (-32003) (''Insufficient scopes. Agent has '' @ debug_list E (card_scopes crd)
                       @ '', guard requires '' @ debug_list E (gs_allowed_scopes s) @ ''.''), s)
               else (ok_response i (text_content ([CHR 0xE2, CHR 0x9C, CHR 0x85] @ '' Authenticated as '' @ [CHR 0x27] @ card_name crd
                       @ [CHR 0x27] @ '' ('' @ card_id crd @ ''). Scopes: '' @ debug_list E (card_scopes crd)
                       @ ''. Session active until '' @ rfc3339 E (card_expires_at crd) @ ''.'')),
                     s\<lparr>gs_auth_failures := 0, gs_last_failure_time := None, gs_authenticated := True, gs_agent_card := Some crd\<rparr>)))"

text \<open>Ten failures close the door for sixty seconds after the last.\<close>

definition locked_out :: "guard_env \<Rightarrow> guard_state \<Rightarrow> int option" where
  "locked_out e s =
     (if gs_auth_failures s \<ge> 10
      then (case gs_last_failure_time s of
              Some t \<Rightarrow> (if elapsed_secs (ge_instant e) t < 60 then Some (60 - elapsed_secs (ge_instant e) t) else None)
            | None \<Rightarrow> None)
      else None)"

definition lift_lock :: "guard_state \<Rightarrow> guard_state" where
  "lift_lock s =
     (if gs_auth_failures s \<ge> 10 \<and> gs_last_failure_time s \<noteq> None
      then s\<lparr>gs_auth_failures := 0, gs_last_failure_time := None\<rparr> else s)"

definition presented_card :: "ext \<Rightarrow> rpc_req \<Rightarrow> string option" where
  "presented_card E rq =
     (let args = (case json_get (rq_params rq) ''arguments'' of Some a \<Rightarrow> a | None \<Rightarrow> JNull)
      in case json_get args ''agent_card'' of
           Some (JStr t) \<Rightarrow> Some t
         | Some (JObj kvs) \<Rightarrow> Some (json_text (json_quote E) (JObj kvs))
         | _ \<Rightarrow> None)"

definition handle_authenticate :: "ext \<Rightarrow> guard_env \<Rightarrow> rpc_req \<Rightarrow> guard_state \<Rightarrow> json \<times> guard_state" where
  "handle_authenticate E e rq s0 =
     (case locked_out e s0 of
        Some wait \<Rightarrow>
          (guard_error_response (rq_id rq) (-32005) (''Too many auth failures. Try again in '' @ int_str wait @ '' seconds.''), s0)
      | None \<Rightarrow>
          (let s = lift_lock s0
           in case presented_card E rq of
                None \<Rightarrow> (guard_error_response (rq_id rq) (-32002) (''Missing '' @ [CHR 0x27] @ ''agent_card'' @ [CHR 0x27]
                           @ '' in arguments. Provide the agent card JSON.''), s)
              | Some card_json \<Rightarrow>
                  (case Option.bind (json_parse E card_json) (card_from_json E) of
                     None \<Rightarrow> (guard_error_response (rq_id rq) (-32002)
                                (''Invalid agent card JSON: '' @ ge_show_error e (ParseError ''agent card'')), s)
                   | Some crd \<Rightarrow> authenticate_card E e (rq_id rq) crd s)))"

definition handle_guard_status :: "ext \<Rightarrow> guard_env \<Rightarrow> rpc_req \<Rightarrow> guard_state \<Rightarrow> json" where
  "handle_guard_status E e rq s =
     ok_response (rq_id rq) (text_content (ge_pretty e (json_object
       [(''authenticated'', JBool (gs_authenticated s)),
        (''agent'', case gs_agent_card s of None \<Rightarrow> JNull | Some c \<Rightarrow> json_object
           [(''name'', JStr (card_name c)), (''id'', JStr (card_id c)), (''scopes'', JArr (map JStr (card_scopes c))),
            (''expires_at'', JStr (rfc3339 E (card_expires_at c))), (''crypto_scheme'', JStr (crypto_scheme_display (card_crypto_scheme c)))]),
        (''guard'', json_object
           [(''required_scopes'', JArr (map JStr (gs_allowed_scopes s))), (''require_pq'', JBool (gs_require_pq s)),
            (''requests_total'', JNum (uint (gs_request_count s))), (''requests_blocked'', JNum (uint (gs_blocked_count s)))])])))"

definition check_scope :: "guard_state \<Rightarrow> string \<Rightarrow> bool" where
  "check_scope s tool_name = gs_authenticated s"

subsection \<open>The filter\<close>

datatype guard_out = Drop | Forward string | Reply json

definition is_init :: "string \<Rightarrow> bool" where
  "is_init mt \<longleftrightarrow> mt = ''initialize'' \<or> mt = ''initialized'' \<or> mt = ''tools/list'' \<or> mt = ''ping''"

definition tool_name :: "rpc_req \<Rightarrow> string option" where
  "tool_name rq = (if rq_method rq = ''tools/call'' then get_str (rq_params rq) ''name'' else None)"

definition block :: "guard_state \<Rightarrow> guard_state" where
  "block s = s\<lparr>gs_blocked_count := gs_blocked_count s + 1\<rparr>"

definition scope_data :: "guard_state \<Rightarrow> json" where
  "scope_data s = json_object [(''agent_scopes'', case gs_agent_card s of None \<Rightarrow> JNull | Some c \<Rightarrow> JArr (map JStr (card_scopes c))),
     (''required_scopes'', JArr (map JStr (gs_allowed_scopes s)))]"

definition handle_request_line :: "ext \<Rightarrow> guard_env \<Rightarrow> bool \<Rightarrow> string \<Rightarrow> rpc_req \<Rightarrow> guard_state \<Rightarrow> guard_out \<times> guard_state" where
  "handle_request_line E e allow_unauthenticated_init line rq s =
     (if tool_name rq = Some ''clawid_authenticate''
      then (let r = handle_authenticate E e rq s in (Reply (fst r), snd r))
      else if tool_name rq = Some ''clawid_guard_status'' then (Reply (handle_guard_status E e rq s), s)
      else if is_init (rq_method rq) \<or> (allow_unauthenticated_init \<and> \<not> gs_authenticated s) then (Forward line, s)
      else if \<not> gs_authenticated s
      then (Reply (rpc_error_object (rq_id rq) (-32001)
              (''Authentication required. Call '' @ [CHR 0x27] @ ''clawid_authenticate'' @ [CHR 0x27] @ '' first with your agent card.'') None),
            block s)
      else case tool_name rq of
             Some name \<Rightarrow>
               (if check_scope s name then (Forward line, s)
                else (Reply (rpc_error_object (rq_id rq) (-32003)
                        (''Insufficient scope. Tool '' @ [CHR 0x27] @ name @ [CHR 0x27] @ '' requires scopes not held by agent '' @ [CHR 0x27]
                         @ (case gs_agent_card s of Some c \<Rightarrow> card_name c | None \<Rightarrow> ''?'') @ [CHR 0x27] @ ''.'')
                        (Some (scope_data s))), block s))
           | None \<Rightarrow> (Forward line, s))"

definition guard_line :: "ext \<Rightarrow> guard_env \<Rightarrow> bool \<Rightarrow> string \<Rightarrow> guard_state \<Rightarrow> guard_out \<times> guard_state" where
  "guard_line E e allow_unauthenticated_init line s =
     (if trim line = [] then (Drop, s)
      else case Option.bind (json_parse E line) request_from_json of
             None \<Rightarrow> (Forward line, s)
           | Some rq \<Rightarrow>
               handle_request_line E e allow_unauthenticated_init line rq (s\<lparr>gs_request_count := gs_request_count s + 1\<rparr>))"

definition guard_start :: "string \<Rightarrow> bool \<Rightarrow> string list \<Rightarrow> guard_state result" where
  "guard_start scope require_pq server_cmd =
     (if server_cmd = [] then Inl (BadParams ''No MCP server command specified'')
      else Inr (guard_new (map trim (split_on (CHR '','') scope)) require_pq))"

subsection \<open>The JSON form of a card is read back\<close>

lemma map_filter_fst: "k \<notin> fst ` set xs \<Longrightarrow> filter (\<lambda>kv. fst kv = k) xs = []"
  by (auto simp: filter_empty_conv)

lemma scopes_read [simp]: "str_list (JArr (map JStr xs)) = Some xs"
  by (induction xs) (auto simp: str_list_def)

lemma opt_member_field:
  "filter (\<lambda>kv. fst kv = k) (opt_member k' v) = (if k = k' then opt_member k v else [])"
  by (simp add: opt_member_def split: option.split)

lemma opt_member_read: "(case opt_member k v of [] \<Rightarrow> Some JNull | [(_, x)] \<Rightarrow> Some x | _ \<Rightarrow> None) = Some (case v of None \<Rightarrow> JNull | Some s \<Rightarrow> JStr s)"
  by (simp add: opt_member_def split: option.split)

lemma card_members_read:
  "struct_opt_members card_fields (JObj (card_members E c)) =
     Some [JStr (card_id c), JStr (card_name c), JStr (card_owner c), JArr (map JStr (card_scopes c)), JStr (card_public_key c),
       (case card_pq_public_key c of None \<Rightarrow> JNull | Some s \<Rightarrow> JStr s), JStr (card_signature c),
       (case card_pq_signature c of None \<Rightarrow> JNull | Some s \<Rightarrow> JStr s), JStr (crypto_scheme_serde (card_crypto_scheme c)),
       JStr (dt_serde E (card_issued_at c)), JStr (dt_serde E (card_expires_at c)), JStr (agent_type_display (card_agent_type c)),
       (case card_parent_id c of None \<Rightarrow> JNull | Some s \<Rightarrow> JStr s), (case card_spiffe_id c of None \<Rightarrow> JNull | Some s \<Rightarrow> JStr s)]"
  by (simp add: struct_opt_members_def card_fields_def struct_field_def opt_field_def card_members_def opt_member_field opt_member_read)

lemma card_read:
  assumes "dt_serde_ok E" "rfc3339_range (card_issued_at c)" "rfc3339_range (card_expires_at c)"
    and "uuid_ok E (card_id c)" "\<forall>p. card_parent_id c = Some p \<longrightarrow> uuid_ok E p"
  shows "card_from_json E (JObj (card_members E c)) = Some c"
proof -
  have "opt_str (case v of None \<Rightarrow> JNull | Some s \<Rightarrow> JStr s) = Some v" for v
    by (simp add: opt_str_def split: option.split)
  moreover have "opt_uuid E (case card_parent_id c of None \<Rightarrow> JNull | Some s \<Rightarrow> JStr s) = Some (card_parent_id c)"
    using assms(5) by (auto simp: opt_uuid_def uuid_ok_def split: option.split)
  moreover have "crypto_scheme_of_json (JStr (crypto_scheme_serde s)) = Some s" for s
    by (cases s) (simp_all add: crypto_scheme_of_json_def enum_name_def crypto_scheme_serde_def)
  moreover have "agent_type_of_json (JStr (agent_type_display a)) = Some a" for a
    by (cases a) (simp_all add: agent_type_of_json_def enum_name_def agent_type_display_def)
  moreover have "dt_serde_parse E (dt_serde E (card_issued_at c)) = Some (card_issued_at c)"
    "dt_serde_parse E (dt_serde E (card_expires_at c)) = Some (card_expires_at c)"
    using assms(1-3) by (simp_all add: dt_serde_ok_def)
  moreover have "uuid_parse E (card_id c) = Some (card_id c)" using assms(4) by (simp add: uuid_ok_def)
  ultimately show ?thesis by (simp add: card_from_json_def card_members_read)
qed

text \<open>
  A card survives its JSON form.  Every card whose identifiers are UUIDs and whose times lie
  in the years that RFC 3339 covers is read back from its serialised members unchanged.
\<close>

theorem card_json_roundtrip:
  assumes "dt_serde_ok E" "rfc3339_range (card_issued_at c)" "rfc3339_range (card_expires_at c)"
    and "uuid_ok E (card_id c)" "\<forall>p. card_parent_id c = Some p \<longrightarrow> uuid_ok E p"
  shows "card_from_json E (JObj (card_members E c)) = Some c"
  by (rule card_read [OF assms])

theorem card_json_roundtrip_witness:
  "card_from_json ref_ext (JObj (card_members ref_ext (demo_card\<lparr>card_parent_id := Some (replicate 36 CHR ''b'')\<rparr>)))
     = Some (demo_card\<lparr>card_parent_id := Some (replicate 36 CHR ''b'')\<rparr>)"
  by (rule card_json_roundtrip) (simp_all add: demo_card_def rfc3339_range_def seconds_def ns_per_sec_def)

subsection \<open>What passes the guard\<close>

inductive guard_step :: "ext \<Rightarrow> bool \<Rightarrow> guard_state \<Rightarrow> guard_state \<Rightarrow> bool" for E allow where
  line: "guard_step E allow s (snd (guard_line E e allow l s))"

text \<open>The checks a card passed, those of time and revocation apart.\<close>

definition card_accepted :: "ext \<Rightarrow> string list \<Rightarrow> bool \<Rightarrow> agent_card \<Rightarrow> bool" where
  "card_accepted E scopes pq c \<longleftrightarrow>
     verify E (card_public_key c) (guard_payload E c) (card_signature c) = Inr True
     \<and> (pq \<or> card_crypto_scheme c = Hybrid \<longrightarrow>
          (\<exists>k sg. card_pq_public_key c = Some k \<and> card_pq_signature c = Some sg \<and> mldsa_verify E k (guard_payload E c) sg = Inr True))
     \<and> has_required_scope scopes c"

definition guard_inv :: "ext \<Rightarrow> string list \<Rightarrow> bool \<Rightarrow> guard_state \<Rightarrow> bool" where
  "guard_inv E scopes pq s \<longleftrightarrow> gs_allowed_scopes s = scopes \<and> gs_require_pq s = pq \<and> (gs_authenticated s \<longleftrightarrow> gs_agent_card s \<noteq> None)
     \<and> (\<forall>c. gs_agent_card s = Some c \<longrightarrow> card_accepted E scopes pq c)"

lemma check_pq_None:
  "check_pq E e pq c = None \<longleftrightarrow> (pq \<or> card_crypto_scheme c = Hybrid \<longrightarrow>
     (\<exists>k sg. card_pq_public_key c = Some k \<and> card_pq_signature c = Some sg \<and> mldsa_verify E k (guard_payload E c) sg = Inr True))"
  by (auto simp: check_pq_def split: option.splits sum.splits bool.splits)

lemma authenticate_inv:
  assumes "guard_inv E scopes pq s"
  shows "guard_inv E scopes pq (snd (authenticate_card E e i c s))"
proof -
  have "guard_inv E scopes pq (auth_failure e s)" using assms by (simp add: guard_inv_def auth_failure_def)
  moreover have "guard_inv E scopes pq (s\<lparr>gs_auth_failures := 0, gs_last_failure_time := None, gs_authenticated := True, gs_agent_card := Some c\<rparr>)"
    if "verify E (card_public_key c) (guard_payload E c) (card_signature c) = Inr True" "check_pq E e (gs_require_pq s) c = None"
      "has_required_scope (gs_allowed_scopes s) c"
    using assms that by (auto simp: guard_inv_def card_accepted_def check_pq_None)
  ultimately show ?thesis using assms by (auto simp: authenticate_card_def split: sum.split bool.split option.split)
qed

lemma handle_authenticate_inv: "guard_inv E scopes pq s \<Longrightarrow> guard_inv E scopes pq (snd (handle_authenticate E e rq s))"
proof -
  assume s: "guard_inv E scopes pq s"
  then have "guard_inv E scopes pq (lift_lock s)" by (simp add: guard_inv_def lift_lock_def)
  then show ?thesis using s authenticate_inv
    by (auto simp: handle_authenticate_def Let_def split: option.split)
qed

lemma guard_line_inv [step_inv]: "guard_inv E scopes pq s \<Longrightarrow> guard_inv E scopes pq (snd (guard_line E e allow l s))"
proof -
  assume "guard_inv E scopes pq s"
  then have s: "guard_inv E scopes pq (s\<lparr>gs_request_count := gs_request_count s + 1\<rparr>)"
    and "guard_inv E scopes pq s" by (simp_all add: guard_inv_def)
  then have "guard_inv E scopes pq (block (s\<lparr>gs_request_count := gs_request_count s + 1\<rparr>))" by (simp add: guard_inv_def block_def)
  then show ?thesis using s \<open>guard_inv E scopes pq s\<close> handle_authenticate_inv [OF s]
    by (auto simp: guard_line_def handle_request_line_def Let_def split: option.split)
qed

interpretation guard: invariant "\<lambda>s. s = guard_new scopes pq" "guard_step E allow" "guard_inv E scopes pq" for scopes pq E allow
proof
  show "guard_inv E scopes pq s" if "s = guard_new scopes pq" for s using that by (simp add: guard_inv_def guard_new_def)
  show "guard_inv E scopes pq t" if "guard_inv E scopes pq s" "guard_step E allow s t" for s t
    using that(2,1) by (induction rule: guard_step.induct) (rule step_inv)
qed

text \<open>
  C28: exactly what the guard lets through.  A line reaches the tool server just when it is not
  blank and either is no JSON-RPC request (a batch is none), or is not addressed to the guard
  and is one of the four opening methods, or comes after an authentication, or the guard was told to
  admit unauthenticated sessions.  An authenticated session holds a card whose signatures verify
  and whose scopes cover the guard's; that the card has not expired or been revoked since is not
  asked again.
\<close>

theorem guard_gate:
  assumes "reachable (\<lambda>s. s = guard_new scopes pq) (guard_step E allow) s"
  shows "(fst (guard_line E e allow l s) = Forward l' \<longleftrightarrow>
       l' = l \<and> trim l \<noteq> []
       \<and> (case Option.bind (json_parse E l) request_from_json of
            None \<Rightarrow> True
          | Some rq \<Rightarrow> tool_name rq \<noteq> Some ''clawid_authenticate'' \<and> tool_name rq \<noteq> Some ''clawid_guard_status''
              \<and> (is_init (rq_method rq) \<or> gs_authenticated s \<or> allow)))
     \<and> (gs_authenticated s \<longrightarrow> (\<exists>c. gs_agent_card s = Some c \<and> card_accepted E scopes pq c))"
proof
  show "gs_authenticated s \<longrightarrow> (\<exists>c. gs_agent_card s = Some c \<and> card_accepted E scopes pq c)"
    using guard.inv_reachable [OF assms] by (auto simp: guard_inv_def)
qed (auto simp: guard_line_def handle_request_line_def check_scope_def Let_def split: option.split)

definition demo_env :: guard_env where
  "demo_env = \<lparr>ge_instant = 0, ge_now = 0, ge_registry = None, ge_show_error = (\<lambda>_. []), ge_pretty = (\<lambda>_. [])\<rparr>"

definition batch_ext :: ext where
  "batch_ext = ref_ext\<lparr>json_parse := (\<lambda>_. Some (JArr [JObj [(''jsonrpc'', JStr ''2.0''), (''id'', JNum 1), (''method'', JStr ''tools/call'')]]))\<rparr>"

text \<open>A JSON-RPC batch passes a guard nobody has authenticated to.\<close>

theorem guard_gate_witness:
  "fst (guard_line batch_ext demo_env False ''[]'' (guard_new [''read''] True)) = Forward ''[]''"
proof -
  have r: "reachable (\<lambda>s. s = guard_new [''read''] True) (guard_step batch_ext False) (guard_new [''read''] True)"
    by (rule reach_init) (rule refl)
  show ?thesis
    using guard_gate [OF r, of demo_env "''[]''" "''[]''"]
    by (simp add: batch_ext_def request_from_json_def trim_def trim_matches_def trim_start_matches_def trim_end_matches_def is_space_def)
qed

subsection \<open>Cards that are issued do not authenticate\<close>

lemma guard_payload_differs:
  assumes "quote_ok (json_quote E)"
  shows "guard_payload E c \<noteq> card_signing_payload E c"
proof
  assume eq: "guard_payload E c = card_signing_payload E c"
  let ?m = "card_members E (unsigned c)"
  have "JObj ?m = sort_members (json_object ?m)"
    using eq json_text_inj [OF assms] unfolding guard_payload_def card_signing_payload_def canonical_json_def by blast
  then have "?m = sort_key fst (map (\<lambda>(k, v). (k, sort_members v)) (sort_key fst ?m))" by (simp add: json_object_def)
  then have "sorted (map fst ?m)" by (metis sorted_sort_key)
  moreover obtain ms where "map fst ?m = ''id'' # ms" "''agent_type'' \<in> set ms" by (simp add: card_members_def)
  ultimately have "\<forall>x \<in> set ms. ''id'' \<le> x" "''agent_type'' \<in> set ms" by simp_all
  then have "''id'' \<le> (''agent_type'' :: string)" by blast
  moreover have "\<not> ''id'' \<le> (''agent_type'' :: string)" by code_simp
  ultimately show False by blast
qed

text \<open>
  The guard and the issuer sign different texts.  A card signed as \<^verbatim>\<open>issue\<close> signs it, over the canonical
  JSON, never authenticates: the guard looks for a signature over the JSON in the order of the
  struct, and finding none counts a failed attempt, unless the signature happens to verify for that
  other text too.
\<close>

theorem guard_rejects_issued:
  assumes "quote_ok (json_quote E)" "verify E (card_public_key c) (card_signing_payload E c) (card_signature c) = Inr True"
  shows "authenticate_card E e i c s = (guard_error_response i (-32002) ''Invalid Ed25519 signature on agent card.'', auth_failure e s)
     \<or> (card_signing_payload E c \<noteq> guard_payload E c \<and> verify E (card_public_key c) (guard_payload E c) (card_signature c) = Inr True)"
proof (cases "verify E (card_public_key c) (guard_payload E c) (card_signature c)")
  case (Inl er)
  then show ?thesis using assms(2)
    by (auto simp: verify_def bind_res_def of_option_def require_def split: option.splits sum.splits if_splits)
next
  case (Inr ok)
  then show ?thesis using guard_payload_differs [OF assms(1), of c] by (cases ok) (auto simp: authenticate_card_def)
qed

text \<open>A signature scheme under which one text has been signed.\<close>

definition signed_ext :: ext where
  "signed_ext = ref_ext\<lparr>ed_check := (\<lambda>_ msg _. msg = card_signing_payload ref_ext demo_issued)\<rparr>"

theorem guard_rejects_issued_witness:
  "authenticate_card signed_ext demo_env (JNum 1) demo_signed (guard_new [] False)
     = (guard_error_response (JNum 1) (-32002) ''Invalid Ed25519 signature on agent card.'', auth_failure demo_env (guard_new [] False))"
proof -
  have q: "quote_ok (json_quote signed_ext)" using demo_card_wf(1) by (simp add: card_wf_def signed_ext_def)
  have p: "card_signing_payload signed_ext demo_signed = card_signing_payload ref_ext demo_issued"
    by (simp add: card_signing_payload_def card_members_def signed_ext_def unsigned_def demo_signed_def)
  have checked: "verify signed_ext (card_public_key demo_signed) msg (card_signature demo_signed) = Inr (msg = card_signing_payload ref_ext demo_issued)" for msg
    using ref_b64_ok ref_ed_ok b64_okD(1) [OF ref_b64_ok]
    by (simp add: verify_def signed_ext_def demo_signed_def demo_issued_def sign_def encode_public_key_def ed_ok_def)
  have "verify signed_ext (card_public_key demo_signed) (guard_payload signed_ext demo_signed) (card_signature demo_signed) \<noteq> Inr True"
    using guard_payload_differs [OF q, of demo_signed] checked p by simp
  then show ?thesis
    using guard_rejects_issued [OF q, of demo_signed demo_env "JNum 1" "guard_new [] False"] checked p by simp
qed

subsection \<open>The lock on failed attempts\<close>

definition counted :: "ext \<Rightarrow> guard_env \<Rightarrow> rpc_req \<Rightarrow> guard_state \<Rightarrow> bool" where
  "counted E e rq s \<longleftrightarrow> locked_out e s = None \<and> snd (handle_authenticate E e rq s) = auth_failure e (lift_lock s)"

text \<open>A run of attempts: the times at which one was counted as a failure, and the state at the end.\<close>

fun failures :: "ext \<Rightarrow> (guard_env \<times> rpc_req) list \<Rightarrow> guard_state \<Rightarrow> int list" where
  "failures E [] s = []"
| "failures E ((e, rq) # as) s =
     (if counted E e rq s then [ge_instant e] else []) @ failures E as (snd (handle_authenticate E e rq s))"

fun attempts :: "ext \<Rightarrow> (guard_env \<times> rpc_req) list \<Rightarrow> guard_state \<Rightarrow> guard_state" where
  "attempts E [] s = s"
| "attempts E ((e, rq) # as) s = attempts E as (snd (handle_authenticate E e rq s))"

lemma authenticate_card_cases:
  "snd (authenticate_card E e i c s) \<in> {s, auth_failure e s} \<or> gs_authenticated (snd (authenticate_card E e i c s))"
  by (auto simp: authenticate_card_def split: sum.split bool.split option.split)

lemma handle_authenticate_cases:
  "locked_out e s \<noteq> None \<Longrightarrow> snd (handle_authenticate E e rq s) = s"
  "locked_out e s = None \<Longrightarrow> snd (handle_authenticate E e rq s) \<in> {lift_lock s, auth_failure e (lift_lock s)}
     \<or> gs_authenticated (snd (handle_authenticate E e rq s))"
  using authenticate_card_cases [of E e "rq_id rq" _ "lift_lock s"]
  by (auto simp: handle_authenticate_def Let_def split: option.split)

lemma authenticated_stays: "gs_authenticated s \<Longrightarrow> gs_authenticated (snd (handle_authenticate E e rq s))"
proof -
  assume s: "gs_authenticated s"
  then have "gs_authenticated (lift_lock s)" "gs_authenticated (auth_failure e (lift_lock s))"
    by (simp_all add: lift_lock_def auth_failure_def)
  then show ?thesis using handle_authenticate_cases [of e s E rq] s by (cases "locked_out e s") auto
qed

lemma authenticated_attempts: "gs_authenticated s \<Longrightarrow> gs_authenticated (attempts E as s)"
  by (induction E as s rule: attempts.induct) (auto intro: authenticated_stays)

lemma failures_times: "t \<in> set (failures E as s) \<Longrightarrow> t \<in> ge_instant ` fst ` set as"
  by (induction E as s rule: failures.induct) (auto split: if_splits)

lemma not_counted: "locked_out e s = None \<Longrightarrow> snd (handle_authenticate E e rq s) = lift_lock s \<Longrightarrow> \<not> counted E e rq s"
proof
  assume "counted E e rq s" "snd (handle_authenticate E e rq s) = lift_lock s"
  then have "gs_auth_failures (auth_failure e (lift_lock s)) = gs_auth_failures (lift_lock s)" by (simp add: counted_def)
  then show False by (simp add: auth_failure_def)
qed

text \<open>The counter and the time go together, the counter stops at ten, and the clock does not run backwards.\<close>

definition attempts_ok :: "(guard_env \<times> rpc_req) list \<Rightarrow> guard_state \<Rightarrow> bool" where
  "attempts_ok as s \<longleftrightarrow> sorted (map (ge_instant \<circ> fst) as) \<and> gs_auth_failures s \<le> 10
     \<and> (gs_auth_failures s = 0 \<longleftrightarrow> gs_last_failure_time s = None)
     \<and> (\<forall>t. gs_last_failure_time s = Some t \<longrightarrow> (\<forall>a \<in> set as. t \<le> ge_instant (fst a)))"

lemma u32_succ_small: "(n :: u32) < 10 \<Longrightarrow> unat (n + 1) = unat n + 1" "(n :: u32) < 10 \<Longrightarrow> n + 1 \<noteq> 0"
proof -
  assume "n < 10"
  then have "unat n < 10" by (simp add: word_less_nat_alt)
  then show u: "unat (n + 1) = unat n + 1" by (simp add: unat_word_ariths)
  then show "n + 1 \<noteq> 0" by (metis Suc_eq_plus1 nat.distinct(1) unat_0)
qed

lemma lock_over:
  assumes "attempts_ok ((e, rq) # as) s" "locked_out e s = None"
  shows "lift_lock s = s \<and> gs_auth_failures s < 10
     \<or> (\<exists>t. gs_last_failure_time s = Some t \<and> t + seconds 60 \<le> ge_instant e \<and> gs_auth_failures s = 10
          \<and> lift_lock s = s\<lparr>gs_auth_failures := 0, gs_last_failure_time := None\<rparr>)"
proof (cases "gs_auth_failures s = 10")
  case True
  then obtain t where t: "gs_last_failure_time s = Some t" "t \<le> ge_instant e" using assms(1) by (auto simp: attempts_ok_def)
  then have "60 \<le> (ge_instant e - t) div ns_per_sec" using assms(2) True by (auto simp: locked_out_def elapsed_secs_def split: if_splits)
  then have "t + seconds 60 \<le> ge_instant e" by (simp add: seconds_def ns_per_sec_def)
  then show ?thesis using t True by (simp add: lift_lock_def)
next
  case False
  then have "gs_auth_failures s < 10" using assms(1) unfolding attempts_ok_def by (blast intro: order.not_eq_order_implies_strict)
  then show ?thesis by (auto simp: lift_lock_def)
qed

lemma attempts_ok_step:
  assumes "attempts_ok ((e, rq) # as) s" "\<not> gs_authenticated (snd (handle_authenticate E e rq s))"
  shows "attempts_ok as (snd (handle_authenticate E e rq s))"
proof (cases "locked_out e s")
  case None
  have "attempts_ok as (lift_lock s)" "attempts_ok as (auth_failure e (lift_lock s))"
    using lock_over [OF assms(1) None] assms(1)
    by (auto simp: attempts_ok_def auth_failure_def lift_lock_def inc_le u32_succ_small split: if_splits)
  then show ?thesis using handle_authenticate_cases(2) [OF None, of E rq] assms(2) by auto
qed (use assms handle_authenticate_cases(1) in \<open>auto simp: attempts_ok_def\<close>)

abbreviation in_minute :: "int \<Rightarrow> int \<Rightarrow> bool" where
  "in_minute x t \<equiv> x \<le> t \<and> t < x + seconds 60"

lemma failures_late:
  assumes "sorted (map (ge_instant \<circ> fst) ((e, rq) # as))" "x + seconds 60 \<le> ge_instant e"
  shows "filter (in_minute x) (failures E ((e, rq) # as) s) = []"
proof -
  have "\<forall>t \<in> set (failures E ((e, rq) # as) s). ge_instant e \<le> t"
    using failures_times [of _ E "(e, rq) # as" s] assms(1) by fastforce
  then show ?thesis using assms(2) unfolding filter_empty_conv by fastforce
qed

text \<open>At most ten, and when the last counted failure lies in the window, what the counter leaves.\<close>

lemma failures_window:
  assumes "attempts_ok as s" "\<not> gs_authenticated (attempts E as s)"
  shows "length (filter (in_minute x) (failures E as s))
     \<le> (if \<exists>t. gs_last_failure_time s = Some t \<and> in_minute x t then 10 - unat (gs_auth_failures s) else 10)"
  using assms
proof (induction as arbitrary: s)
  case (Cons a as)
  obtain e rq where a: "a = (e, rq)" by (cases a)
  let ?s = "snd (handle_authenticate E e rq s)" and ?now = "ge_instant e"
  have live: "\<not> gs_authenticated ?s" using Cons.prems(2) authenticated_attempts by (auto simp: a)
  have ok: "attempts_ok as ?s" using attempts_ok_step Cons.prems(1) live by (simp add: a)
  note IH = Cons.IH [OF ok] Cons.prems(2) [unfolded a, simplified]
  have sorted: "sorted (map (ge_instant \<circ> fst) ((e, rq) # as))" using Cons.prems(1) by (simp add: attempts_ok_def a)
  have late: "length (filter (in_minute x) (failures E ((e, rq) # as) s)) = 0" if "x + seconds 60 \<le> ?now"
    using failures_late [OF sorted that] by simp
  show ?case
  proof (cases "locked_out e s")
    case (Some w)
    then have "?s = s" "\<not> counted E e rq s" using handle_authenticate_cases(1) by (simp_all add: counted_def)
    then show ?thesis using IH by (auto simp: a split: if_splits)
  next
    case None
    note over = lock_over [OF Cons.prems(1) [unfolded a] None]
    consider (kept) "?s = lift_lock s" "\<not> counted E e rq s" | (failed) "?s = auth_failure e (lift_lock s)" "counted E e rq s"
      using handle_authenticate_cases(2) [OF None, of E rq] live not_counted [OF None] None by (auto simp: counted_def)
    then show ?thesis
    proof cases
      case kept
      show ?thesis using over
      proof
        assume "lift_lock s = s \<and> gs_auth_failures s < 10"
        then show ?thesis using IH kept by (auto simp: a split: if_splits)
      next
        assume "\<exists>t. gs_last_failure_time s = Some t \<and> t + seconds 60 \<le> ?now \<and> gs_auth_failures s = 10
          \<and> lift_lock s = s\<lparr>gs_auth_failures := 0, gs_last_failure_time := None\<rparr>"
        then show ?thesis using IH kept late by (cases "x + seconds 60 \<le> ?now") (auto simp: a)
      qed
    next
      case failed
      show ?thesis using over
      proof
        assume same: "lift_lock s = s \<and> gs_auth_failures s < 10"
        then have "unat (gs_auth_failures s) < 10" by (simp add: word_less_nat_alt)
        then show ?thesis using IH failed same late Cons.prems(1) u32_succ_small(1) [of "gs_auth_failures s"]
          by (cases "x + seconds 60 \<le> ?now") (auto simp: a auth_failure_def attempts_ok_def split: if_splits)
      next
        assume "\<exists>t. gs_last_failure_time s = Some t \<and> t + seconds 60 \<le> ?now \<and> gs_auth_failures s = 10
          \<and> lift_lock s = s\<lparr>gs_auth_failures := 0, gs_last_failure_time := None\<rparr>"
        then show ?thesis using IH failed late
          by (cases "x + seconds 60 \<le> ?now") (auto simp: a auth_failure_def split: if_splits)
      qed
    qed
  qed
qed simp

text \<open>
  The lock holds.  As long as nobody authenticates, and the clock does not run backwards, at
  most ten attempts are counted as failures within any sixty seconds, however many are made.
\<close>

theorem guard_lockout:
  assumes "sorted (map (ge_instant \<circ> fst) as)" "\<not> gs_authenticated (attempts E as (guard_new scopes pq))"
  shows "length (filter (in_minute x) (failures E as (guard_new scopes pq))) \<le> 10"
proof -
  have "attempts_ok as (guard_new scopes pq)" using assms(1) by (simp add: attempts_ok_def guard_new_def)
  from failures_window [OF this assms(2), of x] show ?thesis by (simp add: guard_new_def)
qed

text \<open>Twelve attempts at one instant with a card whose signature is wrong: ten are counted.\<close>

definition wrong_card :: agent_card where
  "wrong_card = demo_card\<lparr>card_signature := nibbles (replicate 64 CHR ''x'')\<rparr>"

definition wrong_ext :: ext where
  "wrong_ext = ref_ext\<lparr>json_parse := (\<lambda>_. Some (JObj (card_members ref_ext wrong_card))), ed_check := (\<lambda>_ _ _. False)\<rparr>"

definition demo_attempt :: "guard_env \<times> rpc_req" where
  "demo_attempt = (demo_env, \<lparr>rq_jsonrpc = ''2.0'', rq_id = JNum 1, rq_method = ''tools/call'',
     rq_params = JObj [(''arguments'', JObj [(''agent_card'', JStr ''c'')])]\<rparr>)"

lemma wrong_attempt:
  assumes "gs_auth_failures s < 10"
  shows "snd (handle_authenticate wrong_ext demo_env (snd demo_attempt) s) = auth_failure demo_env s"
    and "counted wrong_ext demo_env (snd demo_attempt) s"
proof -
  have unlocked: "locked_out demo_env s = None" "lift_lock s = s" using assms by (auto simp: locked_out_def lift_lock_def)
  have m: "card_members wrong_ext wrong_card = card_members ref_ext wrong_card" by (simp add: card_members_def wrong_ext_def)
  have "dt_serde_ok wrong_ext" "uuid_ok wrong_ext (card_id wrong_card)"
    using ref_dt_serde_ok by (simp_all add: wrong_ext_def dt_serde_ok_def uuid_ok_def wrong_card_def demo_card_def) (simp add: ref_ext_def)
  then have read: "card_from_json wrong_ext (JObj (card_members ref_ext wrong_card)) = Some wrong_card"
    using card_read [of wrong_ext wrong_card, unfolded m]
    by (simp add: wrong_card_def demo_card_def rfc3339_range_def seconds_def ns_per_sec_def)
  have parse: "json_parse wrong_ext t = Some (JObj (card_members ref_ext wrong_card))" for t by (simp add: wrong_ext_def)
  have "b64_decode ref_ext (b64_encode ref_ext b) = Some b" for b by (rule b64_okD(1) [OF ref_b64_ok])
  then have "verify wrong_ext (card_public_key wrong_card) msg (card_signature wrong_card) = Inr False" for msg
    using ref_ed_ok by (simp add: verify_def wrong_ext_def wrong_card_def demo_card_def encode_public_key_def ed_ok_def)
      (simp add: ref_ext_def unnibbles_nibbles)
  then show "snd (handle_authenticate wrong_ext demo_env (snd demo_attempt) s) = auth_failure demo_env s"
    using unlocked read parse
    by (simp add: handle_authenticate_def presented_card_def demo_attempt_def Let_def authenticate_card_def)
  then show "counted wrong_ext demo_env (snd demo_attempt) s" using unlocked by (simp add: counted_def)
qed

lemma locked_attempt:
  assumes "gs_auth_failures s = 10" "gs_last_failure_time s = Some 0"
  shows "snd (handle_authenticate wrong_ext demo_env (snd demo_attempt) s) = s" "\<not> counted wrong_ext demo_env (snd demo_attempt) s"
  using assms handle_authenticate_cases(1) [of demo_env s]
  by (auto simp: locked_out_def demo_env_def elapsed_secs_def counted_def)

theorem guard_lockout_witness:
  "failures wrong_ext (replicate 12 demo_attempt) (guard_new [] False) = replicate 10 0
   \<and> length (filter (in_minute 0) (failures wrong_ext (replicate 12 demo_attempt) (guard_new [] False))) \<le> 10"
proof -
  have a: "demo_attempt = (demo_env, snd demo_attempt)" by (simp add: demo_attempt_def)
  have step: "failures wrong_ext (demo_attempt # as) s = 0 # failures wrong_ext as (auth_failure demo_env s)"
    "attempts wrong_ext (demo_attempt # as) s = attempts wrong_ext as (auth_failure demo_env s)"
    if "gs_auth_failures s < 10" for as s
    using wrong_attempt [OF that] by (subst a; simp add: demo_env_def)+
  have stop: "failures wrong_ext (demo_attempt # as) s = failures wrong_ext as s"
    "attempts wrong_ext (demo_attempt # as) s = attempts wrong_ext as s"
    if "gs_auth_failures s = 10" "gs_last_failure_time s = Some 0" for as s
    using locked_attempt [OF that] by (subst a; simp)+
  have twelve: "replicate 12 x = [x, x, x, x, x, x, x, x, x, x, x, x]" "replicate 10 x = [x, x, x, x, x, x, x, x, x, x]" for x :: 'b
    by (simp_all add: eval_nat_numeral)
  have "failures wrong_ext (replicate 12 demo_attempt) (guard_new [] False) = replicate 10 0"
    and "\<not> gs_authenticated (attempts wrong_ext (replicate 12 demo_attempt) (guard_new [] False))"
    by (simp_all add: twelve step stop auth_failure_def guard_new_def demo_env_def)
  then show ?thesis
    using guard_lockout [of "replicate 12 demo_attempt" wrong_ext "[]" False 0] by simp
qed

end
