(* ===== verification/Birth.thy ===== *)
theory Birth
  imports Templates Mesh Guard Supervisor_Process
begin

text \<open>
  The birth of an agent, \<^verbatim>\<open>grokingclaw-daemon/src/birth.rs\<close>, and the daemon's entry to it,
  \<^verbatim>\<open>DaemonState::birth_agent\<close> of \<^verbatim>\<open>daemon.rs\<close>: over the mesh with a certificate of the coordination server,
  or locally with a card the new agent signs itself.  An operation takes the file system and
  returns it changed; TOML, pretty-printing, HTTP, the install script, random bytes and clocks are
  arguments.
\<close>

subsection \<open>Messages\<close>

record birth_request =
  br_request_id :: string
  br_daemon_did :: string
  br_daemon_name :: string
  br_agent_name :: string
  br_template :: string
  br_template_version :: string
  br_requested_scopes :: "string list"
  br_allowed_domains :: "string list"
  br_model :: model_config
  br_resources :: resource_config
  br_ttl_seconds :: int
  br_agent_public_key :: string
  br_agent_pq_public_key :: "string option"
  br_crypto_scheme :: string
  br_requested_at :: datetime
  br_daemon_signature :: string

definition json_strings :: "string list \<Rightarrow> json" where
  "json_strings ss = JArr (map JStr ss)"

definition birth_request_members :: "ext \<Rightarrow> birth_request \<Rightarrow> (string \<times> json) list" where
  "birth_request_members E r =
     [(''request_id'', JStr (br_request_id r)), (''daemon_did'', JStr (br_daemon_did r)),
      (''daemon_name'', JStr (br_daemon_name r)), (''agent_name'', JStr (br_agent_name r)),
      (''template'', JStr (br_template r)), (''template_version'', JStr (br_template_version r)),
      (''requested_scopes'', json_strings (br_requested_scopes r)), (''allowed_domains'', json_strings (br_allowed_domains r)),
      (''model'', JObj [(''provider'', JStr (mc_provider (br_model r))), (''model'', JStr (mc_model (br_model r))),
                        (''endpoint'', JStr (mc_endpoint (br_model r)))]),
      (''resources'', JObj [(''memory_mb'', JNum (int (rc_memory_mb (br_resources r)))),
                            (''cpu_percent'', JNum (uint (rc_cpu_percent (br_resources r)))),
                            (''max_disk_gb'', JNum (int (rc_max_disk_gb (br_resources r))))]),
      (''ttl_seconds'', JNum (br_ttl_seconds r)), (''agent_public_key'', JStr (br_agent_public_key r))]
     @ opt_member ''agent_pq_public_key'' (br_agent_pq_public_key r)
     @ [(''crypto_scheme'', JStr (br_crypto_scheme r)), (''requested_at'', JStr (dt_serde E (br_requested_at r))),
        (''daemon_signature'', JStr (br_daemon_signature r))]"

record birth_certificate =
  bc_certificate_id :: string
  bc_agent_did :: string
  bc_agent_id :: string
  bc_agent_name :: string
  bc_daemon_did :: string
  bc_template :: string
  bc_approved_scopes :: "string list"
  bc_approved_domains :: "string list"
  bc_issued_at :: datetime
  bc_expires_at :: datetime
  bc_issuer_signature :: string
  bc_validator_ref :: string
  bc_trust_chain :: "string list"

definition certificate_fields :: "string list" where
  "certificate_fields = [''certificate_id'', ''agent_did'', ''agent_id'', ''agent_name'', ''daemon_did'', ''template'',
     ''approved_scopes'', ''approved_domains'', ''issued_at'', ''expires_at'', ''issuer_signature'', ''validator_ref'', ''trust_chain'']"

definition certificate_from_json :: "ext \<Rightarrow> json \<Rightarrow> birth_certificate option" where
  "certificate_from_json E v =
     (case struct_members certificate_fields v of
        Some [JStr c, JStr did, JStr aid, JStr n, JStr dd, JStr t, sc, doms, JStr iat, JStr eat, JStr sg, JStr vr, tc] \<Rightarrow>
          (case (str_list sc, str_list doms, dt_serde_parse E iat, dt_serde_parse E eat, str_list tc) of
             (Some scopes, Some domains, Some issued, Some expires, Some chain) \<Rightarrow>
               Some \<lparr>bc_certificate_id = c, bc_agent_did = did, bc_agent_id = aid, bc_agent_name = n, bc_daemon_did = dd,
                     bc_template = t, bc_approved_scopes = scopes, bc_approved_domains = domains, bc_issued_at = issued,
                     bc_expires_at = expires, bc_issuer_signature = sg, bc_validator_ref = vr, bc_trust_chain = chain\<rparr>
           | _ \<Rightarrow> None)
      | _ \<Rightarrow> None)"

definition certificate_members :: "ext \<Rightarrow> birth_certificate \<Rightarrow> (string \<times> json) list" where
  "certificate_members E c =
     [(''certificate_id'', JStr (bc_certificate_id c)), (''agent_did'', JStr (bc_agent_did c)),
      (''agent_id'', JStr (bc_agent_id c)), (''agent_name'', JStr (bc_agent_name c)),
      (''daemon_did'', JStr (bc_daemon_did c)), (''template'', JStr (bc_template c)),
      (''approved_scopes'', json_strings (bc_approved_scopes c)), (''approved_domains'', json_strings (bc_approved_domains c)),
      (''issued_at'', JStr (dt_serde E (bc_issued_at c))), (''expires_at'', JStr (dt_serde E (bc_expires_at c))),
      (''issuer_signature'', JStr (bc_issuer_signature c)), (''validator_ref'', JStr (bc_validator_ref c)),
      (''trust_chain'', json_strings (bc_trust_chain c))]"

subsection \<open>Parameters\<close>

record oauth_delegation =
  od_parent_registration_id :: string
  od_max_scopes :: "string list"
  od_domain_bindings :: "string list"

record birth_params =
  bp_template :: string
  bp_name :: string
  bp_allowed_domains :: "string list"
  bp_allowed_scopes :: "string list"
  bp_ttl_seconds :: int
  bp_model :: model_config
  bp_resources :: resource_config
  bp_oauth_delegations :: "oauth_delegation list"

definition u32_of :: "json \<Rightarrow> u32 option" where
  "u32_of v = Option.bind (as_u64 v) (\<lambda>n. if n < 2 ^ 32 then Some (of_nat n) else None)"

definition model_from_json :: "json \<Rightarrow> model_config option" where
  "model_from_json v =
     (case struct_members [''provider'', ''endpoint'', ''model''] v of
        Some [JStr p, JStr e, JStr m] \<Rightarrow> Some \<lparr>mc_provider = p, mc_endpoint = e, mc_model = m\<rparr>
      | _ \<Rightarrow> None)"

definition resources_from_json :: "json \<Rightarrow> resource_config option" where
  "resources_from_json v =
     (case struct_members [''memory_mb'', ''cpu_percent'', ''max_disk_gb'', ''max_requests_per_minute''] v of
        Some [m, c, d, r] \<Rightarrow>
          (case (as_u64 m, u32_of c, as_u64 d, u32_of r) of
             (Some m', Some c', Some d', Some r') \<Rightarrow>
               Some \<lparr>rc_memory_mb = m', rc_cpu_percent = c', rc_max_disk_gb = d', rc_max_requests_per_minute = r'\<rparr>
           | _ \<Rightarrow> None)
      | _ \<Rightarrow> None)"

definition delegation_from_json :: "json \<Rightarrow> oauth_delegation option" where
  "delegation_from_json v =
     (case struct_members [''parent_registration_id'', ''max_scopes'', ''domain_bindings''] v of
        Some [JStr p, ms, db] \<Rightarrow>
          (case (str_list ms, str_list db) of
             (Some m, Some d) \<Rightarrow> Some \<lparr>od_parent_registration_id = p, od_max_scopes = m, od_domain_bindings = d\<rparr>
           | _ \<Rightarrow> None)
      | _ \<Rightarrow> None)"

definition scope_param :: "json \<Rightarrow> string \<Rightarrow> json option" where
  "scope_param params k = Option.bind (json_get params ''scope'') (\<lambda>s. json_get s k)"

definition read_or :: "'a \<Rightarrow> (json \<Rightarrow> 'a option) \<Rightarrow> json option \<Rightarrow> 'a" where
  "read_or d rd v = (case Option.bind v rd of Some x \<Rightarrow> x | None \<Rightarrow> d)"

definition birth_params_from_json :: "json \<Rightarrow> birth_params result" where
  "birth_params_from_json params =
     bind_res (of_option (NotFound ''template'') (get_str params ''template'')) (\<lambda>template.
     bind_res (of_option (NotFound ''name'') (get_str params ''name'')) (\<lambda>name.
     Inr \<lparr>bp_template = template, bp_name = name,
          bp_allowed_domains = read_or [] str_list (scope_param params ''allowed_domains''),
          bp_allowed_scopes = read_or [''*''] str_list (scope_param params ''allowed_scopes''),
          bp_ttl_seconds = read_or (30 * 24 * 3600) as_i64 (scope_param params ''ttl_seconds''),
          bp_model = read_or default_model model_from_json (json_get params ''model''),
          bp_resources = read_or default_resources resources_from_json (json_get params ''resources''),
          bp_oauth_delegations = read_or [] (json_list delegation_from_json) (json_get params ''oauth_delegations'')\<rparr>))"

subsection \<open>Results and environment\<close>

datatype birth_mode = MeshBirth | LocalBirth | QueuedBirth

record birth_result =
  bir_agent_info :: agent_info
  bir_mode :: birth_mode
  bir_certificate :: "birth_certificate option"

record birth_lib =
  bl_config_write :: "agent_config \<Rightarrow> string result"
  bl_config_read :: "string \<Rightarrow> agent_config result"
  bl_pretty :: "json \<Rightarrow> string"
  bl_manifest :: manifest_toml
  bl_bash :: "string \<Rightarrow> string \<Rightarrow> fs \<Rightarrow> bool result \<times> fs"
  bl_io :: io_faults

record birth_env =
  be_http :: mesh_http
  be_mesh_seed :: bytes
  be_seed :: bytes
  be_request_id :: uuid
  be_mesh_agent_id :: uuid
  be_agent_id :: uuid
  be_hostname :: "string option"
  be_requested_at :: datetime
  be_mesh_created_at :: datetime
  be_now :: datetime

definition agent_dir_of :: "string \<Rightarrow> string \<Rightarrow> string" where
  "agent_dir_of root name = path_join (path_join root ''agents'') name"

definition identity_file :: "string \<Rightarrow> string \<Rightarrow> string" where
  "identity_file dir f = path_join (path_join dir ''identity'') f"

definition make_dirs :: "io_faults \<Rightarrow> string \<Rightarrow> string list \<Rightarrow> unit io_op" where
  "make_dirs io dir subdirs = each_io (\<lambda>d. create_dir_all io (path_join dir d)) subdirs"

text \<open>The agent as the birth reports it.\<close>

definition born_info :: "agent_config \<Rightarrow> agent_info" where
  "born_info config =
     \<lparr>ai_name = cfg_name config, ai_agent_id = cfg_agent_id config, ai_did = cfg_did config,
      ai_template = cfg_template config, ai_status = Creating, ai_pid = None, ai_created_at = cfg_created_at config,
      ai_started_at = None, ai_restart_count = 0, ai_allowed_scopes = cfg_allowed_scopes config\<rparr>"

definition write_config :: "birth_lib \<Rightarrow> string \<Rightarrow> agent_config \<Rightarrow> unit io_op" where
  "write_config L dir config =
     then_io (lift_io (bl_config_write L config)) (\<lambda>toml_str. write_file (bl_io L) (path_join dir ''agent.toml'') toml_str)"

subsection \<open>Birth over the mesh\<close>

definition get_daemon_did :: "ext \<Rightarrow> string \<Rightarrow> fs \<Rightarrow> string option" where
  "get_daemon_did E root fs =
     (case read_at (identity_file root ''daemon.card.json'') fs of
        Inl _ \<Rightarrow> None
      | Inr content \<Rightarrow> Option.bind (json_parse E content) (\<lambda>card_value. get_str card_value ''did''))"

definition birth_sign_payload :: "birth_env \<Rightarrow> birth_params \<Rightarrow> string \<Rightarrow> string" where
  "birth_sign_payload V params agent_public_key =
     join '':'' [be_request_id V, bp_name params, bp_template params, agent_public_key, int_str (bp_ttl_seconds params)]"

definition daemon_signature :: "ext \<Rightarrow> string \<Rightarrow> string \<Rightarrow> fs \<Rightarrow> string result" where
  "daemon_signature E root payload fs =
     (let path = identity_file root ''daemon.pem''
      in if exists_at path fs
         then bind_res (read_at path fs) (\<lambda>pem. bind_res (decode_private_key_pem E pem) (\<lambda>k. Inr (sign E k payload)))
         else Inr ''unsigned'')"

definition build_birth_request ::
    "ext \<Rightarrow> birth_lib \<Rightarrow> birth_env \<Rightarrow> string \<Rightarrow> template_registry \<Rightarrow> birth_params \<Rightarrow> string \<Rightarrow> fs \<Rightarrow> birth_request result" where
  "build_birth_request E L V root reg params agent_public_key fs =
     bind_res (daemon_signature E root (birth_sign_payload V params agent_public_key) fs) (\<lambda>signature.
     Inr \<lparr>br_request_id = be_request_id V,
          br_daemon_did = (case get_daemon_did E root fs of Some d \<Rightarrow> d | None \<Rightarrow> ''local''),
          br_daemon_name = (case be_hostname V of Some h \<Rightarrow> h | None \<Rightarrow> ''unknown''),
          br_agent_name = bp_name params, br_template = bp_template params,
          br_template_version = (case get_template_version (bl_manifest L) reg (bp_template params) fs of Some v \<Rightarrow> v | None \<Rightarrow> ''latest''),
          br_requested_scopes = bp_allowed_scopes params, br_allowed_domains = bp_allowed_domains params,
          br_model = bp_model params, br_resources = bp_resources params, br_ttl_seconds = bp_ttl_seconds params,
          br_agent_public_key = agent_public_key, br_agent_pq_public_key = None, br_crypto_scheme = ''hybrid'',
          br_requested_at = be_requested_at V, br_daemon_signature = signature\<rparr>)"

definition request_certificate :: "ext \<Rightarrow> mesh_http \<Rightarrow> string \<Rightarrow> birth_request \<Rightarrow> birth_certificate result" where
  "request_certificate E H coord_server request =
     bind_res (mh_send H \<lparr>mr_method = Post, mr_url = coord_server @ ''/v1/birth'', mr_bearer = None,
                          mr_body = Some (JObj (birth_request_members E request))\<rparr>) (\<lambda>(status, text).
     bind_res (require (is_success status) (Rejected ''birth request'')) (\<lambda>_.
     resp_json E (certificate_from_json E) text))"

definition mesh_card_json :: "ext \<Rightarrow> uuid \<Rightarrow> birth_params \<Rightarrow> string \<Rightarrow> birth_certificate \<Rightarrow> json" where
  "mesh_card_json E agent_id params agent_public_key cert = json_object
     [(''id'', JStr agent_id), (''name'', JStr (bp_name params)), (''did'', JStr (bc_agent_did cert)),
      (''public_key'', JStr agent_public_key), (''crypto_scheme'', JStr ''ed25519''),
      (''issued_at'', JStr (rfc3339 E (bc_issued_at cert))), (''issuer'', JStr ''daemon''),
      (''birth_certificate_id'', JStr (bc_certificate_id cert))]"

definition mesh_config_of :: "birth_env \<Rightarrow> birth_params \<Rightarrow> uuid \<Rightarrow> birth_certificate \<Rightarrow> agent_config" where
  "mesh_config_of V params agent_id cert =
     \<lparr>cfg_name = bp_name params, cfg_template = bp_template params, cfg_template_version = ''mesh'', cfg_agent_id = agent_id,
      cfg_did = Some (bc_agent_did cert), cfg_created_at = be_mesh_created_at V, cfg_allowed_domains = bc_approved_domains cert,
      cfg_allowed_scopes = bc_approved_scopes cert, cfg_expires_at = Some (bc_expires_at cert), cfg_model = bp_model params,
      cfg_resources = bp_resources params, cfg_restart = default_restart\<rparr>"

definition mesh_agent_id :: "ext \<Rightarrow> birth_env \<Rightarrow> birth_certificate \<Rightarrow> uuid" where
  "mesh_agent_id E V cert = (case uuid_parse E (bc_agent_id cert) of Some u \<Rightarrow> u | None \<Rightarrow> be_mesh_agent_id V)"

definition write_mesh_agent ::
    "ext \<Rightarrow> birth_lib \<Rightarrow> birth_env \<Rightarrow> string \<Rightarrow> template_registry \<Rightarrow> birth_params \<Rightarrow> birth_certificate \<Rightarrow> unit io_op" where
  "write_mesh_agent E L V root reg params cert =
     (let io = bl_io L; dir = agent_dir_of root (bp_name params); agent_id = mesh_agent_id E V cert;
          agent_public_key = encode_public_key E (ed_public E (be_mesh_seed V))
      in then_io (make_dirs io dir [''identity'']) (\<lambda>_.
         then_io (write_file io (identity_file dir ''birth.cert.json'') (bl_pretty L (JObj (certificate_members E cert)))) (\<lambda>_.
         then_io (write_file io (identity_file dir ''agent.pem'') (encode_private_key_pem E (be_mesh_seed V))) (\<lambda>_.
         then_io (write_file io (identity_file dir ''agent.card.json'')
                    (bl_pretty L (mesh_card_json E agent_id params agent_public_key cert))) (\<lambda>_.
         then_io (make_dirs io dir [''audit'', ''data'', ''logs'', ''breadcrumbs'']) (\<lambda>_.
         then_io (write_config L dir (mesh_config_of V params agent_id cert)) (\<lambda>_.
         install_for_agent io (bl_manifest L) (bl_bash L) reg (bp_template params) dir)))))))"

definition birth_via_mesh ::
    "ext \<Rightarrow> birth_lib \<Rightarrow> birth_env \<Rightarrow> string \<Rightarrow> 't transport \<Rightarrow> 't mesh_client \<Rightarrow> template_registry \<Rightarrow> birth_params \<Rightarrow> fs
     \<Rightarrow> birth_result result \<times> fs \<times> 't mesh_client" where
  "birth_via_mesh E L V root T mesh reg params fs =
     (let agent_public_key = encode_public_key E (ed_public E (be_mesh_seed V))
      in case bind_res (build_birth_request E L V root reg params agent_public_key fs)
                (request_certificate E (be_http V) (mc_coordination_server (cl_config mesh))) of
           Inl e \<Rightarrow> (Inl e, fs, mesh)
         | Inr cert \<Rightarrow>
             (case write_mesh_agent E L V root reg params cert fs of
                (Inl e, fs') \<Rightarrow> (Inl e, fs', mesh)
              | (Inr _, fs') \<Rightarrow>
                  (Inr \<lparr>bir_agent_info = born_info (mesh_config_of V params (mesh_agent_id E V cert) cert),
                        bir_mode = MeshBirth, bir_certificate = Some cert\<rparr>,
                   fs', snd (mesh_register_agent T mesh (mesh_agent_id E V cert) (bc_agent_did cert)))))"

subsection \<open>Local birth\<close>

text \<open>The canonical text of this file, a copy of the one of the command line.\<close>

function canonical_json_string :: "(string \<Rightarrow> string) \<Rightarrow> json \<Rightarrow> string" where
  "canonical_json_string q (JObj kvs) =
     ''{'' @ join '','' (map (\<lambda>(k, v). q k @ '':'' @ canonical_json_string q v) (sort_key fst kvs)) @ ''}''"
| "canonical_json_string q (JArr vs) = ''['' @ join '','' (map (canonical_json_string q) vs) @ '']''"
| "canonical_json_string q JNull = json_text q JNull"
| "canonical_json_string q (JBool b) = json_text q (JBool b)"
| "canonical_json_string q (JNum n) = json_text q (JNum n)"
| "canonical_json_string q (JStr s) = json_text q (JStr s)"
  by pat_completeness auto
termination
proof (relation "measure (size \<circ> snd)")
  fix q :: "string \<Rightarrow> string" and kvs :: "(string \<times> json) list" and x k v assume x: "x \<in> set (sort_key fst kvs)" and kv: "(k, v) = x"
  then have "(k, v) \<in> set kvs" by simp
  then have "size v < size (JObj kvs)" by (induction kvs) auto
  then show "((q, v), q, JObj kvs) \<in> measure (size \<circ> snd)" by simp
next
  fix q :: "string \<Rightarrow> string" and vs :: "json list" and v assume "v \<in> set vs"
  then have "size v < size (JArr vs)" by (induction vs) auto
  then show "((q, v), q, JArr vs) \<in> measure (size \<circ> snd)" by simp
qed simp

definition local_card :: "ext \<Rightarrow> birth_env \<Rightarrow> birth_params \<Rightarrow> datetime \<Rightarrow> agent_card" where
  "local_card E V params expires_at =
     \<lparr>card_id = be_agent_id V, card_name = bp_name params, card_owner = ''local'', card_scopes = bp_allowed_scopes params,
      card_public_key = encode_public_key E (ed_public E (be_seed V)), card_pq_public_key = None, card_signature = [],
      card_pq_signature = None, card_crypto_scheme = Ed25519, card_issued_at = be_now V, card_expires_at = expires_at,
      card_agent_type = Instance, card_parent_id = None, card_spiffe_id = None\<rparr>"

definition self_sign :: "ext \<Rightarrow> bytes \<Rightarrow> agent_card \<Rightarrow> agent_card" where
  "self_sign E seed c =
     c\<lparr>card_signature := sign E seed (canonical_json_string (json_quote E) (json_object (card_members E (unsigned c))))\<rparr>"

definition local_config_of :: "birth_env \<Rightarrow> birth_params \<Rightarrow> datetime \<Rightarrow> agent_config" where
  "local_config_of V params expires_at =
     \<lparr>cfg_name = bp_name params, cfg_template = bp_template params, cfg_template_version = ''local'',
      cfg_agent_id = be_agent_id V, cfg_did = None, cfg_created_at = be_now V,
      cfg_allowed_domains = bp_allowed_domains params, cfg_allowed_scopes = bp_allowed_scopes params,
      cfg_expires_at = Some expires_at, cfg_model = bp_model params, cfg_resources = bp_resources params,
      cfg_restart = default_restart\<rparr>"

text \<open>The expiry, or the panic of the addition.\<close>

definition birth_expiry :: "ext \<Rightarrow> birth_env \<Rightarrow> birth_params \<Rightarrow> datetime result" where
  "birth_expiry E V params = bind_res (duration_of (bp_ttl_seconds params) 1) (plus_duration E (be_now V))"

definition write_local_agent :: "ext \<Rightarrow> birth_lib \<Rightarrow> birth_env \<Rightarrow> string \<Rightarrow> birth_params \<Rightarrow> datetime \<Rightarrow> unit io_op" where
  "write_local_agent E L V root params expires_at =
     (let io = bl_io L; dir = agent_dir_of root (bp_name params)
      in then_io (make_dirs io dir [''identity'', ''audit'', ''data'', ''logs'', ''breadcrumbs'']) (\<lambda>_.
         then_io (write_config L dir (local_config_of V params expires_at)) (\<lambda>_.
         then_io (write_file io (identity_file dir ''agent.pem'') (encode_private_key_pem E (be_seed V))) (\<lambda>_.
         write_file io (identity_file dir ''agent.card.json'')
           (bl_pretty L (JObj (card_members E (self_sign E (be_seed V) (local_card E V params expires_at)))))))))"

definition birth_local ::
    "ext \<Rightarrow> birth_lib \<Rightarrow> birth_env \<Rightarrow> string \<Rightarrow> template_registry \<Rightarrow> birth_params \<Rightarrow> birth_result io_op" where
  "birth_local E L V root reg params =
     then_io (lift_io (birth_expiry E V params)) (\<lambda>expires_at.
     then_io (write_local_agent E L V root params expires_at) (\<lambda>_.
     then_io (install_for_agent (bl_io L) (bl_manifest L) (bl_bash L) reg (bp_template params) (agent_dir_of root (bp_name params))) (\<lambda>_.
     lift_io (Inr \<lparr>bir_agent_info = born_info (local_config_of V params expires_at), bir_mode = LocalBirth,
                   bir_certificate = None\<rparr>))))"

subsection \<open>Birth\<close>

definition birth_agent ::
    "ext \<Rightarrow> license_disk \<Rightarrow> birth_lib \<Rightarrow> birth_env \<Rightarrow> string \<Rightarrow> 't transport \<Rightarrow> 't mesh_client option
     \<Rightarrow> template_registry \<Rightarrow> birth_params \<Rightarrow> fs \<Rightarrow> birth_result result \<times> fs \<times> 't mesh_client option" where
  "birth_agent E disk L V root T mesh reg params fs =
     (let locally = (\<lambda>fs mesh. case birth_local E L V root reg params fs of (r, fs') \<Rightarrow> (r, fs', mesh))
      in case mesh of
           None \<Rightarrow> locally fs None
         | Some c \<Rightarrow>
             if client_is_connected c \<and> check_feature license_feature.BirthMesh (load_license E disk) = Inr ()
             then (case birth_via_mesh E L V root T c reg params fs of
                     (Inr r, fs', c') \<Rightarrow> (Inr r, fs', Some c')
                   | (Inl e, fs', c') \<Rightarrow> locally fs' (Some c'))
             else locally fs mesh)"

definition queue_birth :: "ext \<Rightarrow> birth_lib \<Rightarrow> string \<Rightarrow> datetime \<Rightarrow> uuid \<Rightarrow> birth_params \<Rightarrow> unit io_op" where
  "queue_birth E L root now fresh params =
     (let dir = path_join (path_join root ''state'') ''birth-queue'';
          entry = json_object [(''name'', JStr (bp_name params)), (''template'', JStr (bp_template params)),
            (''allowed_domains'', json_strings (bp_allowed_domains params)),
            (''allowed_scopes'', json_strings (bp_allowed_scopes params)),
            (''ttl_seconds'', JNum (bp_ttl_seconds params)), (''queued_at'', JStr (rfc3339 E now))]
      in then_io (create_dir_all (bl_io L) dir) (\<lambda>_.
         write_file (bl_io L) (path_join dir (bp_name params @ ''-'' @ fresh @ ''.json'')) (bl_pretty L entry)))"

subsection \<open>The daemon's entry\<close>

record 't daemon_world =
  dw_supervisor :: supervisor
  dw_fs :: fs
  dw_mesh :: "'t mesh_client option"

definition agent_limits :: "ext \<Rightarrow> license_disk \<Rightarrow> daemon_config \<Rightarrow> supervisor \<Rightarrow> unit result" where
  "agent_limits E disk config agents =
     (let n = length (list_agents agents)
      in bind_res (check_limit ''agents'' (of_nat n) (load_license E disk)) (\<lambda>_.
         if unat (rs_max_agents (dc_resources config)) \<le> n
         then Inl (LimitReached ''max_agents'' (rs_max_agents (dc_resources config)) (of_nat n)) else Inr ()))"

text \<open>Registering writes the agent's directories and \<^verbatim>\<open>agent.toml\<close> anew.\<close>

definition register_files :: "birth_lib \<Rightarrow> string \<Rightarrow> agent_config \<Rightarrow> unit io_op" where
  "register_files L root config =
     (let dir = agent_dir_of root (cfg_name config)
      in then_io (make_dirs (bl_io L) dir [''identity'', ''audit'', ''data'', ''logs'', ''breadcrumbs'']) (\<lambda>_.
         write_config L dir config))"

definition register_born :: "birth_lib \<Rightarrow> string \<Rightarrow> birth_result \<Rightarrow> 't daemon_world \<Rightarrow> birth_result result \<times> 't daemon_world" where
  "register_born L root result w =
     (let path = path_join (agent_dir_of root (ai_name (bir_agent_info result))) ''agent.toml''
      in if \<not> exists_at path (dw_fs w) then (Inr result, w)
         else case bind_res (read_at path (dw_fs w)) (bl_config_read L) of
                Inl e \<Rightarrow> (Inl e, w)
              | Inr config \<Rightarrow>
                  (let f = register_files L root config (dw_fs w);
                       r = register (fst f) config (dw_supervisor w)
                   in (bind_res (fst r) (\<lambda>_. Inr result), w\<lparr>dw_supervisor := snd r, dw_fs := snd f\<rparr>)))"

text \<open>What is left of a birth once its checks have passed; the table of agents is not looked at again.\<close>

definition finish_birth ::
    "ext \<Rightarrow> license_disk \<Rightarrow> birth_lib \<Rightarrow> birth_env \<Rightarrow> string \<Rightarrow> 't transport \<Rightarrow> template_registry
     \<Rightarrow> birth_params \<Rightarrow> 't daemon_world \<Rightarrow> birth_result result \<times> 't daemon_world" where
  "finish_birth E disk L V root T reg params w =
     (case birth_agent E disk L V root T (dw_mesh w) reg params (dw_fs w) of
        (r, fs', mesh') \<Rightarrow>
          let w' = w\<lparr>dw_fs := fs', dw_mesh := mesh'\<rparr>
          in case r of Inl e \<Rightarrow> (Inl e, w') | Inr result \<Rightarrow> register_born L root result w')"

definition daemon_birth_agent ::
    "ext \<Rightarrow> license_disk \<Rightarrow> daemon_config \<Rightarrow> birth_lib \<Rightarrow> birth_env \<Rightarrow> string \<Rightarrow> 't transport \<Rightarrow> template_registry
     \<Rightarrow> birth_params \<Rightarrow> 't daemon_world \<Rightarrow> birth_result result \<times> 't daemon_world" where
  "daemon_birth_agent E disk config L V root T reg params w =
     (if get_agent (bp_name params) (dw_supervisor w) \<noteq> None then (Inl (AlreadyExists (bp_name params)), w)
      else case agent_limits E disk config (dw_supervisor w) of
             Inl e \<Rightarrow> (Inl e, w)
           | Inr _ \<Rightarrow> finish_birth E disk L V root T reg params w)"

subsection \<open>Paths of an agent\<close>

lemma path_join_inj:
  "\<not> starts_with f ''/'' \<Longrightarrow> \<not> starts_with g ''/'' \<Longrightarrow> path_join d f = path_join d g \<longleftrightarrow> f = g"
  by (auto simp: path_join_def)

lemma identity_file_join:
  "\<not> starts_with f ''/'' \<Longrightarrow> identity_file d f = path_join d (''identity/'' @ f)"
  by (auto simp: identity_file_def path_join_def starts_with_def ends_with_def)

lemma birth_paths_distinct:
  "path_join d ''agent.toml'' \<noteq> identity_file d ''agent.pem''"
  "path_join d ''agent.toml'' \<noteq> identity_file d ''agent.card.json''"
  "identity_file d ''agent.pem'' \<noteq> identity_file d ''agent.card.json''"
  by (simp_all add: identity_file_join starts_with_def path_join_inj)

subsection \<open>The copy of the canonical text\<close>

lemma sort_key_map_members:
  fixes f :: "'a \<Rightarrow> 'b" and kvs :: "(string \<times> 'a) list"
  shows "sort_key fst (map (\<lambda>(k, v). (k, f v)) kvs) = map (\<lambda>(k, v). (k, f v)) (sort_key fst kvs)"
proof -
  have ins: "insort_key fst ((\<lambda>(k, v). (k, f v)) x) (map (\<lambda>(k, v). (k, f v)) xs) = map (\<lambda>(k, v). (k, f v)) (insort_key fst x xs)"
    for x :: "string \<times> 'a" and xs :: "(string \<times> 'a) list"
    by (induction xs) (auto split: prod.splits)
  show ?thesis by (induction kvs) (simp_all add: ins)
qed

text \<open>The birth's own canonical text is the one the command line signs with.\<close>

lemma canonical_copy_eq: "canonical_json_string q v = canonical_json q v"
proof (induction q v rule: canonical_json_string.induct)
  case (1 q kvs)
  have "canonical_json_string q v = json_text q (sort_members v)" if "(k, v) \<in> set kvs" for k v
    using 1 [of "(k, v)" k v] that by (simp add: canonical_json_def)
  then have "map (\<lambda>(k, v). q k @ '':'' @ canonical_json_string q v) (sort_key fst kvs)
      = map (\<lambda>(k, v). q k @ '':'' @ json_text q v) (map (\<lambda>(k, v). (k, sort_members v)) (sort_key fst kvs))"
    unfolding map_map comp_def by (intro map_cong) auto
  then show ?case by (simp only: canonical_json_string.simps canonical_json_def sort_members.simps json_text.simps sort_key_map_members)
next
  case (2 q vs)
  then have "map (canonical_json_string q) vs = map (json_text q) (map sort_members vs)"
    unfolding map_map comp_def by (intro map_cong) (auto simp: canonical_json_def)
  then show ?case by (simp only: canonical_json_string.simps canonical_json_def sort_members.simps json_text.simps)
qed (simp_all add: canonical_json_def)

subsection \<open>What a local birth leaves\<close>

lemma self_signature: "card_signature (self_sign E seed c) = sign E seed (card_signing_payload E (self_sign E seed c))"
  by (simp add: self_sign_def canonical_copy_eq card_signing_payload_def unsigned_def)

lemma local_card_verifies:
  assumes "b64_ok E" "ed_ok E" "length seed = 32" "card_crypto_scheme c = Ed25519"
    and "card_public_key c = encode_public_key E (ed_public E seed)"
    and "card_issued_at c \<le> t" "t < card_expires_at c" "\<not> is_revoked registry (card_id c)"
  shows "verify_card E t (Some registry) (self_sign E seed c) = Inr True"
proof -
  have p: "card_signing_payload E (self_sign E seed c) = card_signing_payload E c"
    by (simp add: card_signing_payload_def self_sign_def unsigned_def)
  have "card_signature (self_sign E seed c) = sign E seed (card_signing_payload E c)"
    by (simp add: self_sign_def canonical_copy_eq card_signing_payload_def)
  moreover have "card_public_key (self_sign E seed c) = card_public_key c" "card_crypto_scheme (self_sign E seed c) = Ed25519"
    "card_issued_at (self_sign E seed c) = card_issued_at c" "card_expires_at (self_sign E seed c) = card_expires_at c"
    "card_id (self_sign E seed c) = card_id c" using assms(4) by (simp_all add: self_sign_def)
  ultimately show ?thesis
    using assms verify_sign [OF assms(1-3)] by (simp add: verify_card_def card_signatures_def p)
qed

lemma write_config_ok:
  "write_config L dir config fs = (Inr u, fs') \<Longrightarrow>
     \<exists>toml. bl_config_write L config = Inr toml \<and> fs' = fs(path_join dir ''agent.toml'' \<mapsto> File toml)"
  by (auto simp: write_config_def then_io_ok_iff dest!: write_file_ok)

lemma write_local_ok:
  assumes "write_local_agent E L V root params x fs = (Inr (), fs1)"
  shows "\<exists>toml. bl_config_write L (local_config_of V params x) = Inr toml
    \<and> fs1 (path_join (agent_dir_of root (bp_name params)) ''agent.toml'') = Some (File toml)"
    and "fs1 (identity_file (agent_dir_of root (bp_name params)) ''agent.pem'') = Some (File (encode_private_key_pem E (be_seed V)))"
    and "fs1 (identity_file (agent_dir_of root (bp_name params)) ''agent.card.json'')
      = Some (File (bl_pretty L (JObj (card_members E (self_sign E (be_seed V) (local_card E V params x))))))"
  using assms birth_paths_distinct [of "agent_dir_of root (bp_name params)"]
  by (auto simp: write_local_agent_def Let_def then_io_ok_iff dest!: write_file_ok write_config_ok)

text \<open>
  C27: what a local birth leaves.  When it succeeds it has written, before the template's files were
  installed, the agent's key, its configuration with the scopes and domains asked for, and a card
  signed with that key: the card of the agent in the configuration, with the public key of the key file and
  the birth as its beginning.  The command line's verification accepts this card from the birth to the
  expiry, unless it is revoked.
\<close>

theorem local_birth_identity:
  assumes "birth_local E L V root reg params fs = (Inr r, fs')"
    and "b64_ok E" "ed_ok E" "length (be_seed V) = 32"
  defines "dir \<equiv> agent_dir_of root (bp_name params)"
  shows "\<exists>x fs1 c toml. birth_expiry E V params = Inr x
    \<and> install_for_agent (bl_io L) (bl_manifest L) (bl_bash L) reg (bp_template params) dir fs1 = (Inr (), fs')
    \<and> fs1 (identity_file dir ''agent.pem'') = Some (File (encode_private_key_pem E (be_seed V)))
    \<and> fs1 (identity_file dir ''agent.card.json'') = Some (File (bl_pretty L (JObj (card_members E c))))
    \<and> fs1 (path_join dir ''agent.toml'') = Some (File toml) \<and> bl_config_write L (local_config_of V params x) = Inr toml
    \<and> c = self_sign E (be_seed V) (local_card E V params x)
    \<and> card_id c = cfg_agent_id (local_config_of V params x) \<and> card_public_key c = encode_public_key E (ed_public E (be_seed V))
    \<and> card_name c = bp_name params \<and> card_owner c = ''local'' \<and> card_scopes c = bp_allowed_scopes params
    \<and> card_issued_at c = be_now V \<and> card_expires_at c = x
    \<and> card_signature c = sign E (be_seed V) (card_signing_payload E c) \<and> card_pq_signature c = None
    \<and> bir_agent_info r = born_info (local_config_of V params x)
    \<and> (\<forall>t registry. be_now V \<le> t \<and> t < x \<and> \<not> is_revoked registry (card_id c)
         \<longrightarrow> verify_card E t (Some registry) c = Inr True)"
proof -
  obtain x fs1 where x: "birth_expiry E V params = Inr x" and w: "write_local_agent E L V root params x fs = (Inr (), fs1)"
    and i: "install_for_agent (bl_io L) (bl_manifest L) (bl_bash L) reg (bp_template params) dir fs1 = (Inr (), fs')"
    and r: "bir_agent_info r = born_info (local_config_of V params x)"
    using assms(1) by (auto simp: birth_local_def then_io_ok_iff dir_def)
  let ?c = "self_sign E (be_seed V) (local_card E V params x)"
  have "verify_card E t (Some registry) ?c = Inr True"
    if "be_now V \<le> t" "t < x" "\<not> is_revoked registry (card_id ?c)" for t registry
    by (rule local_card_verifies [OF assms(2-4)]) (use that in \<open>simp_all add: local_card_def self_sign_def\<close>)
  moreover have "card_id ?c = cfg_agent_id (local_config_of V params x) \<and> card_public_key ?c = encode_public_key E (ed_public E (be_seed V))
      \<and> card_name ?c = bp_name params \<and> card_owner ?c = ''local'' \<and> card_scopes ?c = bp_allowed_scopes params
      \<and> card_issued_at ?c = be_now V \<and> card_expires_at ?c = x \<and> card_pq_signature ?c = None"
    by (simp add: self_sign_def local_card_def local_config_of_def)
  moreover have "card_signature ?c = sign E (be_seed V) (card_signing_payload E ?c)" by (rule self_signature)
  ultimately show ?thesis using x i r write_local_ok [OF w, folded dir_def] by blast
qed

definition demo_birth_lib :: birth_lib where
  "demo_birth_lib = \<lparr>bl_config_write = (\<lambda>_. Inr ''toml''), bl_config_read = (\<lambda>_. Inl LicenseFormat), bl_pretty = (\<lambda>_. ''json''),
     bl_manifest = one_manifest, bl_bash = (\<lambda>_ _ fs. (Inr True, fs)), bl_io = (\<lambda>_. Inr ())\<rparr>"

definition demo_birth_env :: birth_env where
  "demo_birth_env = \<lparr>be_http = \<lparr>mh_send = (\<lambda>_. Inr (403, Inr ''rejected'')), mh_status_text = nat_str\<rparr>,
     be_mesh_seed = replicate 32 CHR ''m'', be_seed = replicate 32 CHR ''k'', be_request_id = ''q'', be_mesh_agent_id = ''i'',
     be_agent_id = replicate 36 CHR ''a'', be_hostname = None, be_requested_at = 0, be_mesh_created_at = 0, be_now = 0\<rparr>"

definition demo_birth_params :: birth_params where
  "demo_birth_params = \<lparr>bp_template = ''t'', bp_name = ''bot'', bp_allowed_domains = [], bp_allowed_scopes = [''read''],
     bp_ttl_seconds = 60, bp_model = default_model, bp_resources = default_resources, bp_oauth_delegations = []\<rparr>"

abbreviation demo_reg :: template_registry where
  "demo_reg \<equiv> \<lparr>registry_path = ''t'', registry_url = None\<rparr>"

definition no_files :: "string set \<Rightarrow> fs \<Rightarrow> bool" where
  "no_files P fs \<longleftrightarrow> (\<forall>p \<in> P. fs p = None \<or> fs p = Some Dir)"

lemma no_files_make_dirs: "no_files P fs \<Longrightarrow> no_files P (fold make_dir ps fs)"
  by (induction ps arbitrary: fs) (auto simp: no_files_def make_dir_def)

lemma create_dir_all_possible:
  "no_files P fs \<Longrightarrow> insert p (set (ancestors p)) \<subseteq> P \<Longrightarrow>
     create_dir_all (\<lambda>_. Inr ()) p fs = (Inr (), fold make_dir (ancestors p @ [p]) fs)"
  by (auto simp: create_dir_all_def no_files_def list_ex_iff)

abbreviation dir_paths :: "string \<Rightarrow> string list \<Rightarrow> string set" where
  "dir_paths dir ds \<equiv> (\<Union>d \<in> set ds. insert (path_join dir d) (set (ancestors (path_join dir d))))"

lemma make_dirs_possible:
  "no_files P fs \<Longrightarrow> dir_paths dir ds \<subseteq> P \<Longrightarrow> \<exists>fs'. make_dirs (\<lambda>_. Inr ()) dir ds fs = (Inr (), fs') \<and> no_files P fs'"
  unfolding make_dirs_def
proof (induction ds arbitrary: fs)
  case (Cons d ds)
  let ?fs = "fold make_dir (ancestors (path_join dir d) @ [path_join dir d]) fs"
  have "create_dir_all (\<lambda>_. Inr ()) (path_join dir d) fs = (Inr (), ?fs)"
    using Cons.prems(2) by (intro create_dir_all_possible [OF Cons.prems(1)]) simp
  moreover have rest: "dir_paths dir ds \<subseteq> P" using Cons.prems(2) by simp
  obtain fs' where "each_io (\<lambda>d. create_dir_all (\<lambda>_. Inr ()) (path_join dir d)) ds ?fs = (Inr (), fs') \<and> no_files P fs'"
    using Cons.IH [OF no_files_make_dirs [OF Cons.prems(1)] rest] by blast
  ultimately show ?case by (simp only: each_io.simps then_io_def prod.case sum.case) blast
qed simp

lemma touches_make_dirs:
  "touches (dir_paths dir ds) (make_dirs io dir ds)"
  unfolding make_dirs_def by (intro touch) auto

lemma demo_expiry_born:
  "birth_expiry ref_ext demo_birth_env demo_birth_params = Inr (seconds 60)"
  "birth_expiry lic_ext demo_birth_env demo_birth_params = Inr (seconds 60)"
  by (simp_all add: birth_expiry_def demo_birth_params_def demo_birth_env_def duration_of_def plus_duration_def lic_ext_def ref_ext_def
      seconds_def ns_per_sec_def)

abbreviation agent_subdirs :: "string list" where
  "agent_subdirs \<equiv> [''identity'', ''audit'', ''data'', ''logs'', ''breadcrumbs'']"

lemma demo_birth_leaves:
  assumes x: "birth_expiry E demo_birth_env demo_birth_params = Inr (seconds 60)"
    and L: "bl_io L = (\<lambda>_. Inr ())" "\<And>c. bl_config_write L c = Inr ''toml''"
  shows "\<exists>r fs'. birth_local E L demo_birth_env ''r'' demo_reg demo_birth_params (\<lambda>_. None) = (Inr r, fs')
    \<and> ai_name (bir_agent_info r) = ''bot'' \<and> fs' ''r/agents/bot/agent.toml'' = Some (File ''toml'')
    \<and> no_files (dir_paths ''r/agents/bot'' agent_subdirs) fs'"
proof -
  let ?dir = "''r/agents/bot''" let ?P = "dir_paths ?dir agent_subdirs"
  have dir: "agent_dir_of ''r'' ''bot'' = ?dir" by code_simp
  have files: "path_join ?dir ''agent.toml'' = ''r/agents/bot/agent.toml''" "identity_file ?dir ''agent.pem'' = ''r/agents/bot/identity/agent.pem''"
    "identity_file ?dir ''agent.card.json'' = ''r/agents/bot/identity/agent.card.json''" "path_join ?dir ''run.sh'' = ''r/agents/bot/run.sh''"
    "template_dir demo_reg ''t'' = ''t/t''" by (code_simp)+
  obtain fs1 where mk: "make_dirs (\<lambda>_. Inr ()) ?dir agent_subdirs (\<lambda>_. None) = (Inr (), fs1)" and nf: "no_files ?P fs1"
    using make_dirs_possible [of ?P "\<lambda>_. None" ?dir agent_subdirs] by (auto simp: no_files_def)
  have out: "''r/agents/bot/agent.toml'' \<notin> ?P" "''r/agents/bot/identity/agent.pem'' \<notin> ?P"
    "''r/agents/bot/identity/agent.card.json'' \<notin> ?P" "''r/agents/bot/run.sh'' \<notin> ?P" "''t/t'' \<notin> ?P" by code_simp+
  have free: "fs1 p = None" if "p \<notin> ?P" for p
    using touches_make_dirs [of ?dir agent_subdirs "\<lambda>_. Inr ()", unfolded touches_def, rule_format, OF that, of "\<lambda>_. None"] unfolding mk by simp
  note none = out [THEN free]
  have d: "bp_name demo_birth_params = ''bot''" "bp_template demo_birth_params = ''t''"
    by (simp_all add: demo_birth_params_def)
  have r: "cfg_name (local_config_of demo_birth_env demo_birth_params t) = ''bot''" for t by (simp add: local_config_of_def d)
  have keep: "no_files ?P (fs(p \<mapsto> n))" if "no_files ?P fs" "p \<notin> ?P" for fs p n
    using that unfolding no_files_def by auto
  have "birth_local E L demo_birth_env ''r'' demo_reg demo_birth_params (\<lambda>_. None)
      = (Inr \<lparr>bir_agent_info = born_info (local_config_of demo_birth_env demo_birth_params (seconds 60)), bir_mode = LocalBirth,
              bir_certificate = None\<rparr>,
         fs1(''r/agents/bot/agent.toml'' \<mapsto> File ''toml'', ''r/agents/bot/identity/agent.pem'' \<mapsto> File (encode_private_key_pem E (be_seed demo_birth_env)),
             ''r/agents/bot/identity/agent.card.json'' \<mapsto> File (bl_pretty L (JObj (card_members E (self_sign E (be_seed demo_birth_env)
               (local_card E demo_birth_env demo_birth_params (seconds 60)))))), ''r/agents/bot/run.sh'' \<mapsto> File (stub_run ''t'')))"
    unfolding birth_local_def write_local_agent_def write_config_def install_for_agent_def with_fs_def
    by (simp add: x then_io_def lift_io_def Let_def d L dir files mk write_file_def none exists_at_def)
  then show ?thesis using keep [OF keep [OF keep [OF keep [OF nf out(1)] out(2)] out(3)] out(4)] r
    by (simp add: born_info_def)
qed

lemma demo_birth_ok:
  assumes "birth_expiry E demo_birth_env demo_birth_params = Inr (seconds 60)"
  shows "\<exists>r fs'. birth_local E demo_birth_lib demo_birth_env ''r'' demo_reg demo_birth_params (\<lambda>_. None) = (Inr r, fs')"
  using demo_birth_leaves [OF assms, of demo_birth_lib] by (auto simp: demo_birth_lib_def)

theorem local_birth_identity_witness:
  "\<exists>fs1 c. fs1 ''r/agents/bot/identity/agent.card.json'' = Some (File (bl_pretty demo_birth_lib (JObj (card_members ref_ext c))))
     \<and> card_name c = ''bot'' \<and> verify_card ref_ext 5 (Some []) c = Inr True"
proof -
  obtain r fs' where b: "birth_local ref_ext demo_birth_lib demo_birth_env ''r'' demo_reg demo_birth_params (\<lambda>_. None) = (Inr r, fs')"
    using demo_birth_ok [OF demo_expiry_born(1)] by blast
  have f: "identity_file (agent_dir_of ''r'' (bp_name demo_birth_params)) ''agent.card.json'' = ''r/agents/bot/identity/agent.card.json''"
    by code_simp
  note x = demo_expiry_born(1)
  have n: "be_now demo_birth_env \<le> 5" "5 < seconds 60" "bp_name demo_birth_params = ''bot''" "length (be_seed demo_birth_env) = 32"
    by (simp_all add: demo_birth_env_def demo_birth_params_def seconds_def ns_per_sec_def)
  have nr: "\<not> is_revoked [] i" for i by (simp add: is_revoked_def)
  show ?thesis
    using local_birth_identity [OF b ref_b64_ok ref_ed_ok n(4)] n(1-3) nr unfolding f x by fastforce
qed

subsection \<open>The coordination server's answer\<close>

text \<open>
  A refusal of the coordination server is not a refusal.  Whatever the server answers other than
  success, or sends that is not a certificate, the agent is born locally, with every scope and
  domain that was asked for, exactly as if there were no mesh.
\<close>

theorem mesh_refusal_ignored:
  assumes "client_is_connected c" "check_feature license_feature.BirthMesh (load_license E disk) = Inr ()"
    and "mh_send (be_http V) = (\<lambda>_. Inr (status, text))" "\<not> is_success status"
  shows "birth_agent E disk L V root T (Some c) reg params fs
      = (let r = birth_local E L V root reg params fs in (fst r, snd r, Some c))
    \<and> (\<forall>r fs' m. birth_agent E disk L V root T (Some c) reg params fs = (Inr r, fs', m)
         \<longrightarrow> bir_mode r = LocalBirth \<and> ai_allowed_scopes (bir_agent_info r) = bp_allowed_scopes params)"
proof -
  have "\<exists>e. bind_res (build_birth_request E L V root reg params k fs) (request_certificate E (be_http V) url) = Inl e" for k url
    using assms(3,4) by (auto simp: request_certificate_def bind_res_def require_def split: sum.splits)
  then obtain e where "birth_via_mesh E L V root T c reg params fs = (Inl e, fs, c)"
    by (auto simp: birth_via_mesh_def Let_def) (metis (no_types, lifting) old.sum.simps(5))
  then have eq: "birth_agent E disk L V root T (Some c) reg params fs
      = (let r = birth_local E L V root reg params fs in (fst r, snd r, Some c))"
    using assms(1,2) by (simp add: birth_agent_def Let_def split: prod.split)
  moreover have "bir_mode r = LocalBirth \<and> ai_allowed_scopes (bir_agent_info r) = bp_allowed_scopes params"
    if "fst (birth_local E L V root reg params fs) = Inr r" for r
  proof -
    have "birth_local E L V root reg params fs = (Inr r, snd (birth_local E L V root reg params fs))"
      using that by (simp add: prod_eq_iff)
    then show ?thesis by (auto simp: birth_local_def then_io_ok_iff born_info_def local_config_of_def)
  qed
  ultimately show ?thesis by (auto simp: Let_def)
qed

definition connected_mock :: "mock mesh_client" where
  "connected_mock = (mesh_client_new (default_mesh_config None) mock_new)\<lparr>cl_state := Connected ''100.64.0.1'' [] 0\<rparr>"

theorem mesh_refusal_ignored_witness:
  "\<exists>r fs'. birth_agent lic_ext (Some (Inr demo_license)) demo_birth_lib demo_birth_env ''r'' mock_transport (Some connected_mock) demo_reg
       demo_birth_params (\<lambda>_. None) = (Inr r, fs', Some connected_mock)
     \<and> bir_mode r = LocalBirth \<and> ai_allowed_scopes (bir_agent_info r) = [''read'']"
proof -
  obtain r fs' where b: "birth_local lic_ext demo_birth_lib demo_birth_env ''r'' demo_reg demo_birth_params (\<lambda>_. None) = (Inr r, fs')"
    using demo_birth_ok [OF demo_expiry_born(2)] by blast
  have c: "client_is_connected connected_mock" by (simp add: client_is_connected_def connected_mock_def)
  have l: "check_feature license_feature.BirthMesh (load_license lic_ext (Some (Inr demo_license))) = Inr ()"
    by (simp add: load_license_cases demo_license_signed check_feature_def) (simp add: demo_license_def for_tier_def has_feature_def)
  have h: "mh_send (be_http demo_birth_env) = (\<lambda>_. Inr (403, Inr ''rejected''))" "\<not> is_success 403"
    by (simp_all add: demo_birth_env_def is_success_def)
  show ?thesis
    using mesh_refusal_ignored [OF c l h, of demo_birth_lib "''r''" mock_transport demo_reg demo_birth_params "\<lambda>_. None"] b
    by (simp add: demo_birth_params_def)
qed

text \<open>A certificate decides the scopes alone, whatever was asked for, and its signature is not looked at.\<close>

lemma mesh_scopes_from_certificate:
  assumes "birth_via_mesh E L V root T c reg params fs = (Inr r, fs', c')"
  shows "\<exists>cert. bir_certificate r = Some cert \<and> ai_allowed_scopes (bir_agent_info r) = bc_approved_scopes cert"
  using assms by (auto simp: birth_via_mesh_def Let_def born_info_def mesh_config_of_def split: sum.splits prod.splits)

text \<open>The card of a mesh birth is not one that the rest of the program reads.\<close>

lemma mesh_card_unreadable: "card_from_json E (mesh_card_json E i params k cert) = None"
  by (simp add: card_from_json_def mesh_card_json_def struct_opt_members_def card_fields_def struct_field_def
      json_object_def filter_sort)

subsection \<open>The daemon's limits\<close>

lemma length_put: "length (put k v m) \<le> Suc (length m)"
  by (induction m) auto

definition birth_room :: "ext \<Rightarrow> license_disk \<Rightarrow> daemon_config \<Rightarrow> birth_params \<Rightarrow> supervisor \<Rightarrow> bool" where
  "birth_room E disk config params agents \<longleftrightarrow> get_agent (bp_name params) agents = None
     \<and> under (of_nat (length (sup_agents agents))) (max_agents (st_limits (load_license E disk)))
     \<and> length (sup_agents agents) < unat (rs_max_agents (dc_resources config))"

lemma finish_adds_one:
  "length (sup_agents (dw_supervisor (snd (finish_birth E disk L V root T reg params w)))) \<le> Suc (length (sup_agents (dw_supervisor w)))"
proof -
  have reg: "length (sup_agents (dw_supervisor (snd (register_born L root result w')))) \<le> Suc (length (sup_agents (dw_supervisor w')))"
    for result and w' :: "'t daemon_world"
    using length_put by (auto simp: register_born_def register_def Let_def split: sum.splits)
  then show ?thesis
    by (auto simp: finish_birth_def Let_def split: sum.splits prod.splits intro!: order_trans [OF reg])
qed

lemma agent_limits_ok_iff:
  "agent_limits E disk config agents = Inr ()
     \<longleftrightarrow> under (of_nat (length (sup_agents agents))) (max_agents (st_limits (load_license E disk)))
       \<and> length (sup_agents agents) < unat (rs_max_agents (dc_resources config))"
  using below_max_iff by (auto simp: agent_limits_def check_limit_def list_agents_def bind_res_Inr_iff Let_def split: if_splits)

text \<open>A birth is its checks and then its work.\<close>

lemma birth_split:
  "birth_room E disk config params (dw_supervisor w) \<Longrightarrow>
     daemon_birth_agent E disk config L V root T reg params w = finish_birth E disk L V root T reg params w"
  "\<not> birth_room E disk config params (dw_supervisor w) \<Longrightarrow>
     \<exists>e. daemon_birth_agent E disk config L V root T reg params w = (Inl e, w)"
  using agent_limits_ok_iff [of E disk config "dw_supervisor w"]
  by (auto simp: birth_room_def daemon_birth_agent_def split: sum.splits)

text \<open>The table of agents does not enter into the work: what a birth does and answers is the same whatever was registered meanwhile.\<close>

lemma finish_ignores_agents:
  "fst (finish_birth E disk L V root T reg params (w\<lparr>dw_supervisor := agents\<rparr>)) = fst (finish_birth E disk L V root T reg params w)"
  "dw_fs (snd (finish_birth E disk L V root T reg params (w\<lparr>dw_supervisor := agents\<rparr>))) = dw_fs (snd (finish_birth E disk L V root T reg params w))"
  by (auto simp: finish_birth_def register_born_def register_def Let_def split: sum.splits prod.splits)

lemma agent_limits_refusal:
  "(case max_agents (st_limits (load_license E disk)) of Some m \<Rightarrow> m \<le> of_nat (length (sup_agents agents)) | None \<Rightarrow> False) \<Longrightarrow>
     agent_limits E disk config agents = Inl (LimitReached ''agents'' (the (max_agents (st_limits (load_license E disk))))
       (of_nat (length (sup_agents agents))))"
  "under (of_nat (length (sup_agents agents))) (max_agents (st_limits (load_license E disk))) \<Longrightarrow>
     unat (rs_max_agents (dc_resources config)) \<le> length (sup_agents agents) \<Longrightarrow>
     agent_limits E disk config agents
       = Inl (LimitReached ''max_agents'' (rs_max_agents (dc_resources config)) (of_nat (length (sup_agents agents))))"
  by (auto simp: agent_limits_def check_limit_def below_max_def list_agents_def Let_def split: option.splits)

text \<open>What the work answers, by how the birth went and what it left in \<^verbatim>\<open>agent.toml\<close>.\<close>

lemma finish_outcome:
  assumes "birth_agent E disk L V root T (dw_mesh w) reg params (dw_fs w) = (born, fs', mesh')"
  defines "out \<equiv> finish_birth E disk L V root T reg params w" and "w' \<equiv> w\<lparr>dw_fs := fs', dw_mesh := mesh'\<rparr>"
  shows "case born of
      Inl e \<Rightarrow> out = (Inl e, w')
    | Inr r \<Rightarrow>
       (let toml = path_join (agent_dir_of root (ai_name (bir_agent_info r))) ''agent.toml''
        in if fs' toml = None then out = (Inr r, w')
           else case bind_res (read_at toml fs') (bl_config_read L) of
                  Inl e \<Rightarrow> out = (Inl e, w')
                | Inr c \<Rightarrow>
                   (case register_files L root c fs' of
                      (Inl e, fs'') \<Rightarrow> out = (Inl e, w'\<lparr>dw_fs := fs''\<rparr>)
                    | (Inr _, fs'') \<Rightarrow> fst out = Inr r \<and> dw_fs (snd out) = fs'' \<and> dw_mesh (snd out) = mesh'
                        \<and> sup_agents (dw_supervisor (snd out)) = put (cfg_name c) (idle_process Creating c) (sup_agents (dw_supervisor w))))"
  unfolding out_def w'_def
  by (auto simp: finish_birth_def assms(1) register_born_def register_def exists_at_def drop_child_def Let_def
      split: sum.splits prod.splits option.splits)

text \<open>
  C24: the daemon gives birth only within its limits, and refuses for nothing else.  A name in use, the licence's
  bound on agents and the configured bound, looked at in this order, stop the birth with the error of that before anything is
  written.  Otherwise the answer is that of the birth itself: its error; or its result, once the configuration it left was read
  and the agent written under the name in it; or its result alone, when it left no configuration.  The table grows by at most one agent,
  and where the birth, the reading or the writing fails it stays as it was.
\<close>

theorem birth_within_limits:
  fixes w :: "'t daemon_world" and E :: ext and disk :: license_disk and config :: daemon_config and params :: birth_params
  assumes "birth_agent E disk L V root T (dw_mesh w) reg params (dw_fs w) = (born, fs', mesh')"
  defines "agents \<equiv> sup_agents (dw_supervisor w)" and "licensed \<equiv> max_agents (st_limits (load_license E disk))"
    and "configured \<equiv> rs_max_agents (dc_resources config)" and "w' \<equiv> w\<lparr>dw_fs := fs', dw_mesh := mesh'\<rparr>"
    and "out \<equiv> daemon_birth_agent E disk config L V root T reg params w"
  shows "(if bp_name params \<in> fst ` set agents then out = (Inl (AlreadyExists (bp_name params)), w)
     else if (case licensed of Some m \<Rightarrow> m \<le> of_nat (length agents) | None \<Rightarrow> False)
       then out = (Inl (LimitReached ''agents'' (the licensed) (of_nat (length agents))), w)
     else if unat configured \<le> length agents then out = (Inl (LimitReached ''max_agents'' configured (of_nat (length agents))), w)
     else case born of
        Inl e \<Rightarrow> out = (Inl e, w')
      | Inr r \<Rightarrow>
         (let toml = path_join (agent_dir_of root (ai_name (bir_agent_info r))) ''agent.toml''
          in if fs' toml = None then out = (Inr r, w')
             else case bind_res (read_at toml fs') (bl_config_read L) of
                    Inl e \<Rightarrow> out = (Inl e, w')
                  | Inr c \<Rightarrow>
                     (case register_files L root c fs' of
                        (Inl e, fs'') \<Rightarrow> out = (Inl e, w'\<lparr>dw_fs := fs''\<rparr>)
                      | (Inr _, fs'') \<Rightarrow> fst out = Inr r \<and> dw_fs (snd out) = fs'' \<and> dw_mesh (snd out) = mesh'
                          \<and> sup_agents (dw_supervisor (snd out)) = put (cfg_name c) (idle_process Creating c) agents)))
    \<and> length (sup_agents (dw_supervisor (snd out))) \<le> Suc (length agents)"
proof -
  note outcome = finish_outcome [OF assms(1), folded agents_def w'_def]
  have one: "length (sup_agents (dw_supervisor (snd out))) \<le> Suc (length agents)"
    using finish_adds_one [of E disk L V root T reg params w]
    by (auto simp: out_def agents_def daemon_birth_agent_def split: sum.splits)
  show ?thesis
  proof (cases "bp_name params \<in> fst ` set agents")
    case True
    then have "get_agent (bp_name params) (dw_supervisor w) \<noteq> None" by (simp add: get_agent_def agents_def map_of_eq_None_iff)
    then show ?thesis using True one by (simp add: out_def daemon_birth_agent_def)
  next
    case False
    then have out: "out = (case agent_limits E disk config (dw_supervisor w) of Inl e \<Rightarrow> (Inl e, w)
        | Inr _ \<Rightarrow> finish_birth E disk L V root T reg params w)"
      by (simp add: out_def daemon_birth_agent_def get_agent_def agents_def map_of_eq_None_iff)
    consider (lic) "case licensed of Some m \<Rightarrow> m \<le> of_nat (length agents) | None \<Rightarrow> False"
      | (conf) "under (of_nat (length agents)) licensed" "unat configured \<le> length agents"
      | (free) "under (of_nat (length agents)) licensed" "length agents < unat configured"
      by (cases licensed; cases "unat configured \<le> length agents") (auto simp: not_le, (metis not_le)+)
    then show ?thesis
    proof cases
      case lic
      then have "agent_limits E disk config (dw_supervisor w) = Inl (LimitReached ''agents'' (the licensed) (of_nat (length agents)))"
        using agent_limits_refusal(1) unfolding agents_def licensed_def by blast
      then show ?thesis using False one lic by (simp add: out)
    next
      case conf
      then have "\<not> (case licensed of Some m \<Rightarrow> m \<le> of_nat (length agents) | None \<Rightarrow> False)" by (cases licensed) auto
      moreover have "agent_limits E disk config (dw_supervisor w) = Inl (LimitReached ''max_agents'' configured (of_nat (length agents)))"
        using conf agent_limits_refusal(2) unfolding agents_def licensed_def configured_def by blast
      ultimately show ?thesis using False one conf by (simp add: out)
    next
      case free
      then have "agent_limits E disk config (dw_supervisor w) = Inr ()"
        by (simp add: agent_limits_ok_iff agents_def licensed_def configured_def)
      then have "out = finish_birth E disk L V root T reg params w" by (simp add: out)
      moreover have "\<not> (case licensed of Some m \<Rightarrow> m \<le> of_nat (length agents) | None \<Rightarrow> False)"
        using free(1) by (cases licensed) auto
      moreover have "\<not> unat configured \<le> length agents" using free(2) by simp
      ultimately show ?thesis using False one outcome by (simp only: if_False)
    qed
  qed
qed

text \<open>The first agent of a daemon, with its configuration read back; and the second of the same name.\<close>

definition demo_config_lib :: birth_lib where
  "demo_config_lib = demo_birth_lib\<lparr>bl_config_read := (\<lambda>_. Inr (local_config_of demo_birth_env demo_birth_params (seconds 60)))\<rparr>"

abbreviation demo_birth :: "mock daemon_world \<Rightarrow> birth_result result \<times> mock daemon_world" where
  "demo_birth \<equiv> daemon_birth_agent ref_ext None default_daemon_config demo_config_lib demo_birth_env ''r'' mock_transport demo_reg demo_birth_params"

theorem birth_within_limits_witness:
  "\<exists>r w. demo_birth \<lparr>dw_supervisor = supervisor_new, dw_fs = \<lambda>_. None, dw_mesh = None\<rparr> = (Inr r, w)
     \<and> sup_agents (dw_supervisor w)
        = [(''bot'', idle_process Creating (local_config_of demo_birth_env demo_birth_params (seconds 60)))]"
proof -
  let ?w = "\<lparr>dw_supervisor = supervisor_new, dw_fs = \<lambda>_. None, dw_mesh = None :: mock mesh_client option\<rparr>"
  let ?c = "local_config_of demo_birth_env demo_birth_params (seconds 60)"
  have L: "bl_io demo_config_lib = (\<lambda>_. Inr ())" "bl_config_write demo_config_lib c = Inr ''toml''"
    "bl_config_read demo_config_lib t = Inr ?c" for c t
    by (simp_all add: demo_config_lib_def demo_birth_lib_def)
  obtain r fs' where b: "birth_local ref_ext demo_config_lib demo_birth_env ''r'' demo_reg demo_birth_params (\<lambda>_. None) = (Inr r, fs')"
    and r: "ai_name (bir_agent_info r) = ''bot''" and toml: "fs' ''r/agents/bot/agent.toml'' = Some (File ''toml'')"
    and nf: "no_files (dir_paths ''r/agents/bot'' agent_subdirs) fs'"
    using demo_birth_leaves [OF demo_expiry_born(1) L(1,2)] by blast
  have n: "cfg_name ?c = ''bot''" by (simp add: local_config_of_def demo_birth_params_def)
  have dir: "agent_dir_of ''r'' ''bot'' = ''r/agents/bot''" "path_join ''r/agents/bot'' ''agent.toml'' = ''r/agents/bot/agent.toml''"
    "''r/agents/bot/agent.toml'' \<notin> dir_paths ''r/agents/bot'' agent_subdirs" by code_simp+
  obtain fs2 where mk: "make_dirs (\<lambda>_. Inr ()) ''r/agents/bot'' agent_subdirs fs' = (Inr (), fs2)"
    using make_dirs_possible [OF nf subset_refl] by blast
  have "fs2 ''r/agents/bot/agent.toml'' = Some (File ''toml'')"
    using touches_make_dirs [of "''r/agents/bot''" agent_subdirs "\<lambda>_. Inr ()", unfolded touches_def, rule_format, OF dir(3), of fs'] toml
    unfolding mk by simp
  then have reg: "register_files demo_config_lib ''r'' ?c fs' = (Inr (), fs2(''r/agents/bot/agent.toml'' \<mapsto> File ''toml''))"
    by (simp add: register_files_def write_config_def write_file_def then_io_def lift_io_def Let_def n dir(1,2) mk L)
  have "birth_agent ref_ext None demo_config_lib demo_birth_env ''r'' mock_transport (dw_mesh ?w) demo_reg demo_birth_params (dw_fs ?w)
      = (Inr r, fs', None)"
    by (simp add: birth_agent_def b)
  note out = birth_within_limits [OF this, of default_daemon_config]
  have lim: "max_agents (st_limits (load_license ref_ext None)) = Some 5" "0 < unat (rs_max_agents (dc_resources default_daemon_config))"
    "sup_agents (dw_supervisor ?w) = []"
    by (simp_all add: load_license_cases default_license_state_def for_tier_def default_daemon_config_def default_resource_limits_def supervisor_new_def)
  have "read_at ''r/agents/bot/agent.toml'' fs' = Inr ''toml''" using toml by (simp add: read_at_def)
  with out lim have "fst (demo_birth ?w) = Inr r \<and> sup_agents (dw_supervisor (snd (demo_birth ?w))) = [(''bot'', idle_process Creating ?c)]"
    by (simp add: r dir(1,2) toml L(3) reg n Let_def)
  then show ?thesis by (metis prod.collapse)
qed

end
