(* ===== verification/Daemon_Core.thy ===== *)
theory Daemon_Core
  imports Birth OAuth_Flow
begin

text \<open>
  What the daemon's two servers share: JSON-RPC answers (\<^verbatim>\<open>ipc.rs\<close> and \<^verbatim>\<open>a2a.rs\<close> have the same types),
  the JSON forms of the values they return, and the rest of \<^verbatim>\<open>grokingclaw-daemon/src/daemon.rs\<close>: an
  agent's log, its audit trail, the shutdown flag and the pid file.
\<close>

subsection \<open>JSON-RPC answers\<close>

record rpc_response =
  resp_id :: "json option"
  resp_outcome :: "(int \<times> string) + json"

definition rpc_success :: "json option \<Rightarrow> json \<Rightarrow> rpc_response" where
  "rpc_success i r = \<lparr>resp_id = i, resp_outcome = Inr r\<rparr>"

definition rpc_error :: "json option \<Rightarrow> int \<Rightarrow> string \<Rightarrow> rpc_response" where
  "rpc_error i code message = \<lparr>resp_id = i, resp_outcome = Inl (code, message)\<rparr>"

definition rpc_response_json :: "rpc_response \<Rightarrow> json" where
  "rpc_response_json r = JObj
     ([(''jsonrpc'', JStr ''2.0'')]
      @ (case resp_id r of None \<Rightarrow> [] | Some i \<Rightarrow> [(''id'', i)])
      @ (case resp_outcome r of
           Inr v \<Rightarrow> [(''result'', v)]
         | Inl (code, message) \<Rightarrow> [(''error'', JObj [(''code'', JNum code), (''message'', JStr message)])]))"

text \<open>The \<^verbatim>\<open>Option\<close> of a request's id: null is no id.\<close>

definition rpc_id :: "rpc_req \<Rightarrow> json option" where
  "rpc_id rq = (if rq_id rq = JNull then None else Some (rq_id rq))"

definition name_param :: "json \<Rightarrow> string \<Rightarrow> string" where
  "name_param params k = (case get_str params k of Some s \<Rightarrow> s | None \<Rightarrow> [])"

definition q_name :: "string \<Rightarrow> string" where
  "q_name s = [CHR 0x27] @ s @ [CHR 0x27]"

subsection \<open>JSON forms\<close>

definition opt_json :: "('a \<Rightarrow> json) \<Rightarrow> 'a option \<Rightarrow> json" where
  "opt_json f v = (case v of None \<Rightarrow> JNull | Some x \<Rightarrow> f x)"

definition agent_info_value :: "ext \<Rightarrow> agent_info \<Rightarrow> json" where
  "agent_info_value E i = json_object
     [(''name'', JStr (ai_name i)), (''agent_id'', JStr (ai_agent_id i)), (''did'', opt_json JStr (ai_did i)),
      (''template'', JStr (ai_template i)), (''status'', JStr (agent_status_display (ai_status i))),
      (''pid'', opt_json (\<lambda>p. JNum (int p)) (ai_pid i)), (''created_at'', JStr (dt_serde E (ai_created_at i))),
      (''started_at'', opt_json (\<lambda>t. JStr (dt_serde E t)) (ai_started_at i)),
      (''restart_count'', JNum (uint (ai_restart_count i))), (''allowed_scopes'', json_strings (ai_allowed_scopes i))]"

definition audit_entry_value :: "audit_entry \<Rightarrow> json" where
  "audit_entry_value e = json_object
     [(''id'', JNum (ae_id e)), (''agent_id'', JStr (ae_agent_id e)), (''action'', JStr (ae_action e)),
      (''target'', JStr (ae_target e)), (''timestamp'', JNum (ae_timestamp e)), (''prev_hash'', JStr (ae_prev_hash e)),
      (''entry_hash'', JStr (ae_entry_hash e)), (''signature'', JStr (ae_signature e))]"

subsection \<open>Logs and audit trail\<close>

definition last_lines :: "nat \<Rightarrow> string list \<Rightarrow> string list" where
  "last_lines n ls = drop (if n < length ls then length ls - n else 0) ls"

definition read_agent_logs :: "string \<Rightarrow> string \<Rightarrow> nat \<Rightarrow> fs \<Rightarrow> string result" where
  "read_agent_logs root name lines fs =
     (let log_path = path_join (path_join (agent_dir_of root name) ''logs'') ''stdout.log''
      in if \<not> exists_at log_path fs then Inr []
         else bind_res (read_at log_path fs) (\<lambda>content. Inr (join [nl] (last_lines lines (str_lines content)))))"

text \<open>The audit database of an agent: absent, or what opening it gives.\<close>

type_synonym audit_files = "string \<Rightarrow> audit_db result option"

definition daemon_query_audit :: "ext \<Rightarrow> audit_files \<Rightarrow> datetime \<Rightarrow> supervisor \<Rightarrow> string \<Rightarrow> nat \<Rightarrow> bool \<Rightarrow> json result" where
  "daemon_query_audit E A now agents agent_name n check =
     (case A agent_name of
        None \<Rightarrow> Inr (json_object [(''entries'', JArr []), (''message'', JStr ''No audit database found for this agent'')])
      | Some opened \<Rightarrow>
          bind_res opened (\<lambda>db.
          (let ans = query_audit E now db (map_option ai_agent_id (get_agent agent_name agents)) n check
           in Inr (json_object
                ([(''entries'', JArr (map audit_entry_value (ans_entries ans))), (''total'', JNum (int (ans_total ans)))]
                 @ (case ans_chain_valid ans of None \<Rightarrow> [] | Some b \<Rightarrow> [(''chain_valid'', JBool b)]))))))"

subsection \<open>The pid file\<close>

definition write_pid_file :: "io_faults \<Rightarrow> string \<Rightarrow> nat \<Rightarrow> unit io_op" where
  "write_pid_file io path pid = write_file io path (nat_str pid)"

text \<open>Removing a file fails where the system refuses it, and on anything but a file; the faults of a removal are its own.\<close>

definition remove_file :: "io_faults \<Rightarrow> string \<Rightarrow> unit io_op" where
  "remove_file io p fs =
     (case io p of
        Inl e \<Rightarrow> (Inl e, fs)
      | Inr _ \<Rightarrow> (case fs p of Some (File _) \<Rightarrow> (Inr (), fs(p := None)) | _ \<Rightarrow> (Inl (IoError p), fs)))"

definition remove_pid_file :: "io_faults \<Rightarrow> string \<Rightarrow> fs \<Rightarrow> fs" where
  "remove_pid_file rm path fs = snd (remove_file rm path fs)"

text \<open>Signal 0 tells whether a process is alive (also one that may not be signalled).\<close>

definition check_already_running :: "io_faults \<Rightarrow> (nat \<Rightarrow> bool) \<Rightarrow> string \<Rightarrow> nat option io_op" where
  "check_already_running rm alive path =
     with_fs (\<lambda>fs. if \<not> exists_at path fs then lift_io (Inr None)
       else then_io (lift_io (bind_res (read_at path fs) (\<lambda>pid_str.
                       of_option (ParseError ''Invalid PID in file'') (parse_u32 (trim pid_str))))) (\<lambda>pid.
            if alive pid then lift_io (Inr (Some pid)) else (\<lambda>fs. (Inr None, remove_pid_file rm path fs))))"

subsection \<open>Facts\<close>

lemma last_lines_spec: "length (last_lines n ls) = min n (length ls) \<and> (\<exists>before. ls = before @ last_lines n ls)"
  by (auto simp: last_lines_def) (metis append_take_drop_id)

text \<open>
  The log of an agent: at most the number of lines asked for, the last ones of its file; an agent
  without a log file has an empty one.
\<close>

lemma read_agent_logs_tail:
  assumes "fs (path_join (path_join (agent_dir_of root name) ''logs'') ''stdout.log'') = Some (File content)"
  shows "\<exists>before tail. read_agent_logs root name n fs = Inr (join [nl] tail)
    \<and> str_lines content = before @ tail \<and> length tail = min n (length (str_lines content))"
  using last_lines_spec [of n "str_lines content"] assms
  by (auto simp: read_agent_logs_def exists_at_def read_at_def Let_def)

lemma parse_u32_nat_str: "n < 2 ^ 32 \<Longrightarrow> parse_u32 (trim (nat_str n)) = Some n"
proof -
  assume n: "n < 2 ^ 32"
  have "trim (nat_str n) = nat_str n"
    using nat_str_digits [of n] by (intro trim_id_all) (auto simp: is_digit_def is_space_def)
  then show ?thesis using n parse_nat_str [of n] nat_str_digits [of n]
    by (cases "nat_str n") (auto simp: parse_u32_def is_digit_def)
qed

text \<open>
  The pid file keeps a second daemon out for as long as the first one lives: after a pid was
  written, the check reports exactly that pid while its process is alive, and otherwise reports that
  nothing runs and removes the stale file, unless it cannot be removed: then it stays, and is not an error.
\<close>

lemma check_stale:
  assumes "fs pid_file = Some (File (nat_str pid))" "pid < 2 ^ 32"
  shows "check_already_running rm alive pid_file fs =
     (if alive pid then (Inr (Some pid), fs) else (Inr None, if rm pid_file = Inr () then fs(pid_file := None) else fs))"
  by (cases "rm pid_file")
     (simp_all add: check_already_running_def with_fs_def exists_at_def read_at_def then_io_def lift_io_def remove_pid_file_def
        remove_file_def assms(1) parse_u32_nat_str [OF assms(2)])

lemma check_none: "fs pid_file = None \<Longrightarrow> check_already_running rm alive pid_file fs = (Inr None, fs)"
  by (simp add: check_already_running_def with_fs_def exists_at_def lift_io_def)

theorem pid_file_roundtrip:
  assumes "write_pid_file io path pid fs = (Inr (), fs')" and "pid < 2 ^ 32"
  shows "check_already_running rm alive path fs' =
     (if alive pid then (Inr (Some pid), fs') else (Inr None, if rm path = Inr () then fs'(path := None) else fs'))"
proof -
  have "fs' = fs(path \<mapsto> File (nat_str pid))" using assms(1) by (auto simp: write_pid_file_def dest: write_file_ok)
  then show ?thesis using check_stale [OF _ assms(2)] by simp
qed

theorem pid_file_roundtrip_witness:
  "fst (check_already_running (\<lambda>_. Inr ()) (\<lambda>p. p = 77) ''p'' (snd (write_pid_file (\<lambda>_. Inr ()) ''p'' 77 (\<lambda>_. None)))) = Inr (Some 77)"
proof -
  have "write_pid_file (\<lambda>_. Inr ()) ''p'' 77 (\<lambda>_. None) = (Inr (), snd (write_pid_file (\<lambda>_. Inr ()) ''p'' 77 (\<lambda>_. None)))"
    by (simp add: write_pid_file_def write_file_def)
  from pid_file_roundtrip [OF this, of "\<lambda>_. Inr ()" "\<lambda>p. p = 77"] show ?thesis by simp
qed

end
