(* ===== verification/A2a_Server.thy ===== *)
theory A2a_Server
  imports Daemon_Core
begin

text \<open>
  The agent-to-agent server of the daemon, \<^verbatim>\<open>grokingclaw-daemon/src/a2a.rs\<close>: its tasks, the signature check of
  a request, the JSON-RPC methods, card discovery and the control channel.  The table of tasks is an
  association list in the iteration order of the \<^verbatim>\<open>HashMap\<close>; the tasks of one \<^verbatim>\<open>message/send\<close> are handled under the
  table's write lock, so a handler is one step.
\<close>

subsection \<open>Tasks\<close>

datatype task_state = Submitted | Working | InputRequired | Completed | Canceled | Failed | Rejected

definition task_state_display :: "task_state \<Rightarrow> string" where
  "task_state_display s = (case s of Submitted \<Rightarrow> ''submitted'' | Working \<Rightarrow> ''working'' | InputRequired \<Rightarrow> ''input-required''
     | Completed \<Rightarrow> ''completed'' | Canceled \<Rightarrow> ''canceled'' | Failed \<Rightarrow> ''failed'' | Rejected \<Rightarrow> ''rejected'')"

definition task_state_serde :: "task_state \<Rightarrow> string" where
  "task_state_serde s = (if s = InputRequired then ''inputrequired'' else task_state_display s)"

datatype message_role = UserRole | AgentRole

datatype a2a_part = TextPart string | DataPart json

record a2a_message =
  am_role :: message_role
  am_parts :: "a2a_part list"
  am_metadata :: "json option"

record a2a_artifact =
  aa_name :: "string option"
  aa_parts :: "a2a_part list"

record a2a_task_status =
  st_state :: task_state
  st_message :: "a2a_message option"

record a2a_task =
  task_id :: string
  task_context_id :: "string option"
  task_status :: a2a_task_status
  task_messages :: "a2a_message list"
  task_artifacts :: "a2a_artifact list"
  task_created_at :: datetime
  task_updated_at :: datetime

fun part_value :: "a2a_part \<Rightarrow> json" where
  "part_value (TextPart t) = json_object [(''type'', JStr ''text''), (''text'', JStr t)]"
| "part_value (DataPart d) = json_object [(''type'', JStr ''data''), (''data'', d)]"

definition message_value :: "a2a_message \<Rightarrow> json" where
  "message_value m = json_object
     ([(''role'', JStr (case am_role m of UserRole \<Rightarrow> ''user'' | AgentRole \<Rightarrow> ''agent'')),
       (''parts'', JArr (map part_value (am_parts m)))]
      @ (case am_metadata m of None \<Rightarrow> [] | Some d \<Rightarrow> [(''metadata'', d)]))"

definition artifact_value :: "a2a_artifact \<Rightarrow> json" where
  "artifact_value a = json_object [(''name'', opt_json JStr (aa_name a)), (''parts'', JArr (map part_value (aa_parts a)))]"

definition task_value :: "ext \<Rightarrow> a2a_task \<Rightarrow> json" where
  "task_value E t = json_object
     [(''id'', JStr (task_id t)), (''contextId'', opt_json JStr (task_context_id t)),
      (''status'', json_object ([(''state'', JStr (task_state_serde (st_state (task_status t))))]
         @ (case st_message (task_status t) of None \<Rightarrow> [] | Some m \<Rightarrow> [(''message'', message_value m)]))),
      (''messages'', JArr (map message_value (task_messages t))), (''artifacts'', JArr (map artifact_value (task_artifacts t))),
      (''createdAt'', JStr (dt_serde E (task_created_at t))), (''updatedAt'', JStr (dt_serde E (task_updated_at t)))]"

subsection \<open>State and environment\<close>

record a2a_config =
  ac_base_url :: string
  ac_require_auth :: bool
  ac_root :: string

text \<open>The daemon behind the server: its supervisor and its files.\<close>

record a2a_state =
  as_tasks :: "(string \<times> a2a_task) list"
  as_daemon_card :: "agent_card option"
  as_agents :: supervisor
  as_fs :: fs

definition a2a_new :: "supervisor \<Rightarrow> fs \<Rightarrow> a2a_state" where
  "a2a_new agents fs = \<lparr>as_tasks = [], as_daemon_card = None, as_agents = agents, as_fs = fs\<rparr>"

record a2a_env =
  av_http :: http_lib
  av_now :: datetime
  av_now' :: datetime
  av_fresh :: uuid
  av_version :: string
  av_uptime :: nat
  av_audit :: audit_files
  av_err :: "error \<Rightarrow> string"

text \<open>A request as \<^verbatim>\<open>hyper\<close> gives it: the URI's text, its path and authority, and the body when it can be read.\<close>

record a2a_request =
  aq_method :: string
  aq_uri :: string
  aq_path :: string
  aq_authority :: "string option"
  aq_headers :: headers
  aq_body :: "bytes result"

record http_response =
  hr_status :: nat
  hr_headers :: "(string \<times> string) list"
  hr_body :: "json option"

definition allow_headers :: string where
  "allow_headers = ''Content-Type, Authorization, Signature, Signature-Input, X-ClawID-Agent, X-ClawID-PQ-Signature''"

definition a2a_json_response :: "nat \<Rightarrow> json \<Rightarrow> http_response" where
  "a2a_json_response status body = \<lparr>hr_status = status,
     hr_headers = [(''Content-Type'', ''application/json''), (''Access-Control-Allow-Origin'', ''*''),
                   (''Access-Control-Allow-Methods'', ''GET, POST, OPTIONS''), (''Access-Control-Allow-Headers'', allow_headers)],
     hr_body = Some body\<rparr>"

definition cors_response :: "nat \<Rightarrow> http_response" where
  "cors_response status = \<lparr>hr_status = status,
     hr_headers = [(''Access-Control-Allow-Origin'', ''*''), (''Access-Control-Allow-Methods'', ''GET, POST, OPTIONS''),
                   (''Access-Control-Allow-Headers'', allow_headers)],
     hr_body = None\<rparr>"

definition error_body :: "string \<Rightarrow> json" where
  "error_body m = json_object [(''error'', JStr m)]"

subsection \<open>The signature check\<close>

definition a2a_authority :: "http_lib \<Rightarrow> a2a_request \<Rightarrow> string" where
  "a2a_authority H rq =
     (case aq_authority rq of
        Some a \<Rightarrow> a
      | None \<Rightarrow> (case Option.bind (header_get ''host'' (aq_headers rq)) (value_to_str H) of Some h \<Rightarrow> h | None \<Rightarrow> []))"

definition a2a_sig_base :: "http_lib \<Rightarrow> a2a_request \<Rightarrow> string \<Rightarrow> string" where
  "a2a_sig_base H rq input_value =
     quoted ''@method'' @ '': '' @ aq_method rq @ [nl]
     @ quoted ''@target-uri'' @ '': '' @ aq_uri rq @ [nl]
     @ quoted ''@authority'' @ '': '' @ a2a_authority H rq @ [nl]
     @ quoted ''@signature-params'' @ '': '' @ input_value"

definition agent_card_path :: "string \<Rightarrow> string \<Rightarrow> string" where
  "agent_card_path root name = identity_file (agent_dir_of root name) ''agent.card.json''"

definition read_card :: "ext \<Rightarrow> string \<Rightarrow> fs \<Rightarrow> agent_card result" where
  "read_card E path fs =
     bind_res (read_at path fs) (\<lambda>text.
     of_option (ParseError ''card'') (Option.bind (json_parse E text) (card_from_json E)))"

text \<open>The card of the agent a request names, if the daemon manages one of that name and its file is there.\<close>

definition caller_card :: "ext \<Rightarrow> http_lib \<Rightarrow> a2a_config \<Rightarrow> a2a_state \<Rightarrow> a2a_request \<Rightarrow> agent_card option result" where
  "caller_card E H g s rq =
     (case Option.bind (header_get ''x-clawid-agent'' (aq_headers rq)) (value_to_str H) of
        None \<Rightarrow> Inr None
      | Some agent_id \<Rightarrow>
          (case get_agent agent_id (as_agents s) of
             None \<Rightarrow> Inr None
           | Some info \<Rightarrow>
               (let key_path = agent_card_path (ac_root g) (ai_name info)
                in if exists_at key_path (as_fs s)
                   then bind_res (read_card E key_path (as_fs s)) (\<lambda>crd. Inr (Some crd)) else Inr None)))"

definition check_card_signature :: "ext \<Rightarrow> http_lib \<Rightarrow> a2a_request \<Rightarrow> string \<Rightarrow> bytes \<Rightarrow> agent_card \<Rightarrow> bool result" where
  "check_card_signature E H rq sig_base sig_bytes crd =
     bind_res (verify E (card_public_key crd) sig_base (b64_encode E sig_bytes)) (\<lambda>verified.
     bind_res (require verified (Prelude.Rejected ''Ed25519 signature verification failed'')) (\<lambda>_.
     case (header_get ''x-clawid-pq-signature'' (aq_headers rq), card_pq_public_key crd) of
       (Some pq_header, Some pq_pk) \<Rightarrow>
         bind_res (of_option (BadHeader ''PQ signature'') (value_to_str H pq_header)) (\<lambda>pq_sig.
         bind_res (mldsa_verify E pq_pk sig_base pq_sig) (\<lambda>pq_verified.
         bind_res (require pq_verified (Prelude.Rejected ''ML-DSA-65 (PQ) signature verification failed'')) (\<lambda>_. Inr True)))
     | _ \<Rightarrow> Inr True))"

definition verify_request_signature :: "ext \<Rightarrow> http_lib \<Rightarrow> a2a_config \<Rightarrow> a2a_state \<Rightarrow> a2a_request \<Rightarrow> bool result" where
  "verify_request_signature E H g s rq =
     (case (header_get ''signature'' (aq_headers rq), header_get ''signature-input'' (aq_headers rq)) of
        (Some sig_header, Some sig_input) \<Rightarrow>
          bind_res (of_option (BadHeader ''Signature'') (value_to_str H sig_header)) (\<lambda>sig_value.
          bind_res (of_option (BadHeader ''Signature-Input'') (value_to_str H sig_input)) (\<lambda>input_value.
          bind_res (of_option (BadHeader ''Signature format'')
                      (Option.bind (strip_prefix sig_value ''sig1=:'') (\<lambda>v. strip_suffix v '':''))) (\<lambda>sig_b64.
          bind_res (of_option (BadBase64 sig_b64) (b64_decode E sig_b64)) (\<lambda>sig_bytes.
          bind_res (caller_card E H g s rq) (\<lambda>caller.
          case caller of
            None \<Rightarrow> Inr False
          | Some crd \<Rightarrow> check_card_signature E H rq (a2a_sig_base H rq input_value) sig_bytes crd)))))
      | _ \<Rightarrow> Inr False)"

subsection \<open>Card discovery\<close>

definition load_daemon_card :: "ext \<Rightarrow> a2a_config \<Rightarrow> a2a_state \<Rightarrow> unit result \<times> a2a_state" where
  "load_daemon_card E g s =
     (let path = identity_file (ac_root g) ''daemon.card.json''
      in if exists_at path (as_fs s)
         then (case read_card E path (as_fs s) of Inl e \<Rightarrow> (Inl e, s) | Inr crd \<Rightarrow> (Inr (), s\<lparr>as_daemon_card := Some crd\<rparr>))
         else (Inr (), s))"

definition a2a_card_value :: "a2a_agent_card \<Rightarrow> json" where
  "a2a_card_value c = JObj
     [(''name'', JStr (a2a_name c)), (''description'', JStr (a2a_description c)), (''url'', JStr (a2a_url c)),
      (''provider'', JObj [(''organization'', JStr (prov_organization (a2a_provider_info c))), (''url'', JStr (prov_url (a2a_provider_info c)))]),
      (''capabilities'', JObj [(''streaming'', JBool (cap_streaming (a2a_capability_info c))),
         (''pushNotifications'', JBool (cap_push_notifications (a2a_capability_info c))),
         (''stateTransitionHistory'', JBool (cap_state_transition_history (a2a_capability_info c)))]),
      (''authentication'', JObj ([(''schemes'', json_strings (auth_schemes (a2a_authentication_info c))),
         (''public_key'', JStr (auth_public_key (a2a_authentication_info c)))]
         @ opt_member ''pq_public_key'' (auth_pq_public_key (a2a_authentication_info c))
         @ [(''crypto_scheme'', JStr (crypto_scheme_serde (auth_crypto_scheme (a2a_authentication_info c))))])),
      (''skills'', JArr (map (\<lambda>k. JObj [(''id'', JStr (skill_id k)), (''name'', JStr (skill_name k)),
                                        (''description'', JStr (skill_description k))]) (a2a_skills c)))]"

definition handle_daemon_card :: "a2a_config \<Rightarrow> a2a_state \<Rightarrow> http_response" where
  "handle_daemon_card g s =
     (case as_daemon_card s of
        Some crd \<Rightarrow> a2a_json_response 200 (a2a_card_value (to_a2a crd (ac_base_url g)))
      | None \<Rightarrow> a2a_json_response 404 (error_body ''Daemon card not configured. Run `grokingclawid issue` first.''))"

definition minimal_card :: "a2a_config \<Rightarrow> string \<Rightarrow> agent_info \<Rightarrow> json" where
  "minimal_card g name i = json_object
     [(''name'', JStr (ai_name i)),
      (''description'', JStr (''Agent '' @ ai_name i @ '' (template: '' @ ai_template i @ '')'')),
      (''url'', JStr (ac_base_url g @ ''/agents/'' @ name)),
      (''provider'', json_object [(''organization'', JStr ''GrokingClaw''), (''url'', JStr (ac_base_url g))]),
      (''capabilities'', json_object [(''streaming'', JBool False), (''pushNotifications'', JBool False), (''stateTransitionHistory'', JBool True)]),
      (''authentication'', json_object [(''schemes'', json_strings [''clawid-pq'']), (''cryptoScheme'', JStr ''hybrid'')]),
      (''skills'', JArr (map (\<lambda>(n, sc). json_object [(''id'', JStr (''skill-'' @ nat_str n)), (''name'', JStr sc),
         (''description'', JStr (''Authorized scope: '' @ sc))]) (enumerate 0 (ai_allowed_scopes i)))),
      (''version'', JStr ''1.0.0'')]"

definition handle_agent_card :: "ext \<Rightarrow> a2a_config \<Rightarrow> string \<Rightarrow> a2a_state \<Rightarrow> http_response result" where
  "handle_agent_card E g name s =
     (case get_agent name (as_agents s) of
        None \<Rightarrow> Inr (a2a_json_response 404 (error_body (''Agent '' @ q_name name @ '' not found'')))
      | Some info \<Rightarrow>
          (let card_path = agent_card_path (ac_root g) name
           in if exists_at card_path (as_fs s)
              then bind_res (read_card E card_path (as_fs s)) (\<lambda>crd.
                   Inr (a2a_json_response 200 (a2a_card_value (to_a2a crd (ac_base_url g @ ''/agents/'' @ name)))))
              else Inr (a2a_json_response 200 (minimal_card g name info))))"

subsection \<open>Task processing\<close>

definition agents_value :: "ext \<Rightarrow> a2a_state \<Rightarrow> json" where
  "agents_value E s = JArr (map (agent_info_value E) (list_agents (as_agents s)))"

definition process_daemon_task :: "ext \<Rightarrow> a2a_env \<Rightarrow> a2a_state \<Rightarrow> string \<Rightarrow> string \<times> a2a_artifact list" where
  "process_daemon_task E V s text =
     (let lower = to_lowercase text; n = length (list_agents (as_agents s))
      in if contains_str lower ''status''
         then (''Daemon status retrieved.'',
               [\<lparr>aa_name = Some ''daemon-status'', aa_parts = [DataPart (json_object
                  [(''daemon'', JStr ''running''), (''version'', JStr (av_version V)), (''agents_count'', JNum (int n)),
                   (''agents'', agents_value E s), (''uptime_seconds'', JNum (int (av_uptime V)))])]\<rparr>])
         else if contains_str lower ''list agents'' \<or> contains_str lower ''agents list''
         then (nat_str n @ '' agent(s) registered.'', [\<lparr>aa_name = Some ''agent-list'', aa_parts = [DataPart (agents_value E s)]\<rparr>])
         else (''Received: '' @ quoted text @ ''. No handler matched.'', []))"

definition process_agent_task :: "ext \<Rightarrow> a2a_env \<Rightarrow> a2a_config \<Rightarrow> a2a_state \<Rightarrow> string \<Rightarrow> string \<Rightarrow> string \<times> a2a_artifact list" where
  "process_agent_task E V g s agent_name text =
     (let lower = to_lowercase text
      in if contains_str lower ''status'' \<or> contains_str lower ''health''
         then (case get_agent agent_name (as_agents s) of
                 Some info \<Rightarrow> (''Agent '' @ q_name agent_name @ '' status: '' @ agent_status_display (ai_status info),
                               [\<lparr>aa_name = Some ''agent-status'', aa_parts = [DataPart (agent_info_value E info)]\<rparr>])
               | None \<Rightarrow> (''Agent '' @ q_name agent_name @ '' not found.'', []))
         else if contains_str lower ''rotate'' \<and> contains_str lower ''key''
         then (''Key rotation requested for agent '' @ q_name agent_name
               @ ''. This is a daemon-level operation '' @ map char_of [226, 128, 148 :: nat] @ '' the agent will be restarted with new keys.'', [])
         else if contains_str lower ''logs''
         then (case read_agent_logs (ac_root g) agent_name 50 (as_fs s) of
                 Inr logs \<Rightarrow> (''Logs for agent '' @ q_name agent_name @ '':'',
                              [\<lparr>aa_name = Some ''agent-logs'', aa_parts = [TextPart logs]\<rparr>])
               | Inl e \<Rightarrow> (''Failed to read logs for '' @ q_name agent_name @ '': '' @ av_err V e, []))
         else if contains_str lower ''audit''
         then (case daemon_query_audit E (av_audit V) (av_now V) (as_agents s) agent_name 20 True of
                 Inr result \<Rightarrow> (''Audit trail for agent '' @ q_name agent_name @ '':'',
                                [\<lparr>aa_name = Some ''agent-audit'', aa_parts = [DataPart result]\<rparr>])
               | Inl e \<Rightarrow> (''Failed to query audit for '' @ q_name agent_name @ '': '' @ av_err V e, []))
         else (''Task received for agent '' @ q_name agent_name @ '': '' @ quoted text
               @ ''. Available commands: status, rotate keys, logs, audit.'', []))"

definition first_text :: "a2a_task \<Rightarrow> string" where
  "first_text t = (case task_messages t of
      m # _ \<Rightarrow> (case am_parts m of TextPart x # _ \<Rightarrow> x | _ \<Rightarrow> [])
    | [] \<Rightarrow> [])"

definition process_task :: "ext \<Rightarrow> a2a_env \<Rightarrow> a2a_config \<Rightarrow> a2a_state \<Rightarrow> a2a_task \<Rightarrow> string option \<Rightarrow> a2a_task" where
  "process_task E V g s t target_agent =
     (let text = first_text t;
          answer = (case target_agent of
              Some agent_name \<Rightarrow> process_agent_task E V g s agent_name text
            | None \<Rightarrow> process_daemon_task E V s text)
      in t\<lparr>task_messages := task_messages t @ [\<lparr>am_role = AgentRole, am_parts = [TextPart (fst answer)], am_metadata = None\<rparr>],
           task_artifacts := snd answer, task_status := (task_status t)\<lparr>st_state := Completed\<rparr>, task_updated_at := av_now' V\<rparr>)"

subsection \<open>Methods\<close>

definition target_agent_of :: "json \<Rightarrow> string option" where
  "target_agent_of params =
     (case get_str params ''agent'' of
        Some a \<Rightarrow> Some a
      | None \<Rightarrow> Option.bind (json_get params ''message'') (\<lambda>m.
                Option.bind (json_get m ''metadata'') (\<lambda>md. get_str md ''target_agent'')))"

fun first_text_part :: "json list \<Rightarrow> string option" where
  "first_text_part [] = None"
| "first_text_part (p # ps) =
     (case (if get_str p ''type'' = Some ''text'' then get_str p ''text'' else None) of
        Some t \<Rightarrow> Some t | None \<Rightarrow> first_text_part ps)"

definition text_of_message :: "json \<Rightarrow> string" where
  "text_of_message message =
     (case Option.bind (Option.bind (json_get message ''parts'') as_array) first_text_part of Some t \<Rightarrow> t | None \<Rightarrow> [])"

definition user_message :: "ext \<Rightarrow> datetime \<Rightarrow> bool \<Rightarrow> string \<Rightarrow> a2a_message" where
  "user_message E now caller_verified text =
     \<lparr>am_role = UserRole, am_parts = [TextPart text],
      am_metadata = Some (json_object [(''clawid_verified'', JBool caller_verified), (''received_at'', JStr (rfc3339 E now))])\<rparr>"

definition new_task :: "ext \<Rightarrow> a2a_env \<Rightarrow> json \<Rightarrow> bool \<Rightarrow> string \<Rightarrow> a2a_task" where
  "new_task E V params caller_verified text =
     \<lparr>task_id = (case get_str params ''id'' of Some i \<Rightarrow> i | None \<Rightarrow> av_fresh V),
      task_context_id = get_str params ''contextId'', task_status = \<lparr>st_state = Submitted, st_message = None\<rparr>,
      task_messages = [user_message E (av_now V) caller_verified text], task_artifacts = [],
      task_created_at = av_now V, task_updated_at = av_now V\<rparr>"

definition handle_message_send :: "ext \<Rightarrow> a2a_env \<Rightarrow> a2a_config \<Rightarrow> json \<Rightarrow> bool \<Rightarrow> a2a_state \<Rightarrow> rpc_response \<times> a2a_state" where
  "handle_message_send E V g params caller_verified s =
     (case json_get params ''message'' of
        None \<Rightarrow> (rpc_error None (-32602) (''Missing '' @ q_name ''message'' @ '' parameter''), s)
      | Some message \<Rightarrow>
          (let target = target_agent_of params
           in case Option.bind target (\<lambda>n. if get_agent n (as_agents s) = None then Some n else None) of
                Some n \<Rightarrow> (rpc_error None (-32001) (''Agent '' @ q_name n @ '' not found''), s)
              | None \<Rightarrow>
                  (let t = new_task E V params caller_verified (text_of_message message);
                       r = process_task E V g s t target
                   in (rpc_success None (task_value E r),
                       s\<lparr>as_tasks := put (task_id t) r (put (task_id t) t (as_tasks s))\<rparr>))))"

definition task_not_found :: "string \<Rightarrow> rpc_response" where
  "task_not_found i = rpc_error None (-32001) (''Task '' @ q_name i @ '' not found'')"

definition missing_id :: rpc_response where
  "missing_id = rpc_error None (-32602) (''Missing '' @ q_name ''id'' @ '' parameter'')"

definition handle_tasks_get :: "ext \<Rightarrow> json \<Rightarrow> a2a_state \<Rightarrow> rpc_response" where
  "handle_tasks_get E params s =
     (case get_str params ''id'' of
        None \<Rightarrow> missing_id
      | Some i \<Rightarrow> (case map_of (as_tasks s) i of Some t \<Rightarrow> rpc_success None (task_value E t) | None \<Rightarrow> task_not_found i))"

definition select_tasks :: "string option \<Rightarrow> nat \<Rightarrow> (string \<times> a2a_task) list \<Rightarrow> a2a_task list" where
  "select_tasks context_id limit ts =
     take limit (sort_key (\<lambda>t. - task_updated_at t)
       (filter (\<lambda>t. context_id = None \<or> task_context_id t = context_id) (map snd ts)))"

definition handle_tasks_list :: "ext \<Rightarrow> json \<Rightarrow> a2a_state \<Rightarrow> rpc_response" where
  "handle_tasks_list E params s =
     (let limit = (case Option.bind (json_get params ''limit'') as_u64 of Some n \<Rightarrow> n | None \<Rightarrow> 50)
      in rpc_success None (json_object [(''tasks'', JArr (map (task_value E)
           (select_tasks (get_str params ''contextId'') limit (as_tasks s))))]))"

definition handle_tasks_cancel :: "ext \<Rightarrow> a2a_env \<Rightarrow> json \<Rightarrow> a2a_state \<Rightarrow> rpc_response \<times> a2a_state" where
  "handle_tasks_cancel E V params s =
     (case get_str params ''id'' of
        None \<Rightarrow> (missing_id, s)
      | Some i \<Rightarrow>
          (case map_of (as_tasks s) i of
             None \<Rightarrow> (task_not_found i, s)
           | Some t \<Rightarrow>
               if st_state (task_status t) \<in> {Completed, Canceled, Failed}
               then (rpc_error None (-32003) (''Task '' @ q_name i @ '' is already in terminal state: ''
                       @ task_state_display (st_state (task_status t))), s)
               else (let t' = t\<lparr>task_status := (task_status t)\<lparr>st_state := Canceled\<rparr>, task_updated_at := av_now V\<rparr>
                     in (rpc_success None (task_value E t'), s\<lparr>as_tasks := put i t' (as_tasks s)\<rparr>))))"

definition dispatch_rpc :: "ext \<Rightarrow> a2a_env \<Rightarrow> a2a_config \<Rightarrow> rpc_req \<Rightarrow> bool \<Rightarrow> a2a_state \<Rightarrow> rpc_response \<times> a2a_state" where
  "dispatch_rpc E V g rq caller_verified s =
     (if rq_method rq = ''message/send'' then handle_message_send E V g (rq_params rq) caller_verified s
      else if rq_method rq = ''tasks/get'' then (handle_tasks_get E (rq_params rq) s, s)
      else if rq_method rq = ''tasks/list'' then (handle_tasks_list E (rq_params rq) s, s)
      else if rq_method rq = ''tasks/cancel'' then handle_tasks_cancel E V (rq_params rq) s
      else (rpc_error (rpc_id rq) (-32601) (''Method not found: '' @ rq_method rq), s))"

definition auth_required :: rpc_response where
  "auth_required = rpc_error None (-32000)
     ''Authentication required. Sign requests with a ClawID key (Signature + Signature-Input headers).''"

definition handle_a2a_rpc :: "ext \<Rightarrow> a2a_env \<Rightarrow> a2a_config \<Rightarrow> a2a_request \<Rightarrow> a2a_state \<Rightarrow> http_response result \<times> a2a_state" where
  "handle_a2a_rpc E V g rq s =
     (let caller_verified = unwrap_or False (verify_request_signature E (av_http V) g s rq)
      in if ac_require_auth g \<and> \<not> caller_verified
         then (Inr (a2a_json_response 401 (rpc_response_json auth_required)), s)
         else case aq_body rq of
             Inl e \<Rightarrow> (Inl e, s)
           | Inr body \<Rightarrow>
               (case Option.bind (json_parse E body) request_from_json of
                  None \<Rightarrow> (Inr (a2a_json_response 200 (rpc_response_json
                            (rpc_error None (-32700) (''Parse error: '' @ av_err V (ParseError body))))), s)
                | Some rpc \<Rightarrow>
                    (let r = dispatch_rpc E V g rpc caller_verified s;
                         resp = (fst r)\<lparr>resp_id := (case rpc_id rpc of Some i \<Rightarrow> Some i | None \<Rightarrow> resp_id (fst r))\<rparr>
                     in (Inr (a2a_json_response 200 (rpc_response_json resp)), snd r))))"

subsection \<open>The control channel\<close>

definition revoke_from_json :: "json \<Rightarrow> (string \<times> string option) option" where
  "revoke_from_json v =
     (case struct_opt_members [(''agent_name'', False), (''reason'', True)] v of
        Some [JStr n, r] \<Rightarrow> map_option (\<lambda>reason. (n, reason)) (opt_str r)
      | _ \<Rightarrow> None)"

definition handle_control_revoke :: "ext \<Rightarrow> a2a_env \<Rightarrow> a2a_config \<Rightarrow> a2a_request \<Rightarrow> a2a_state \<Rightarrow> http_response result \<times> a2a_state" where
  "handle_control_revoke E V g rq s =
     (if \<not> unwrap_or False (verify_request_signature E (av_http V) g s rq)
      then (Inr (a2a_json_response 401 (json_object
              [(''error'', JStr ''Revocation requires a valid ClawID PQ signature.''),
               (''hint'', JStr ''Sign the request with the parent agent's hybrid key.'')])), s)
      else case bind_res (aq_body rq) (\<lambda>body. of_option (ParseError ''Invalid revoke request body'')
                  (Option.bind (json_parse E body) revoke_from_json)) of
          Inl e \<Rightarrow> (Inl e, s)
        | Inr (agent_name, reason) \<Rightarrow>
            (let r = stop_agent agent_name (as_agents s)
             in case fst r of
                  Inr _ \<Rightarrow> (Inr (a2a_json_response 200 (json_object
                      [(''status'', JStr ''revoked''), (''agent'', JStr agent_name),
                       (''reason'', JStr (case reason of Some x \<Rightarrow> x | None \<Rightarrow> ''Parent-initiated revocation''))])),
                     s\<lparr>as_agents := snd r\<rparr>)
                | Inl e \<Rightarrow> (Inr (a2a_json_response 500 (error_body
                      (''Failed to revoke agent '' @ q_name agent_name @ '': '' @ av_err V e))), s\<lparr>as_agents := snd r\<rparr>)))"

subsection \<open>The router\<close>

definition card_suffix :: string where
  "card_suffix = ''/.well-known/agent-card.json''"

definition card_name_of_path :: "string \<Rightarrow> string" where
  "card_name_of_path path =
     (case Option.bind (strip_prefix path ''/agents/'') (\<lambda>r. strip_suffix r card_suffix) of Some n \<Rightarrow> n | None \<Rightarrow> [])"

definition a2a_route :: "ext \<Rightarrow> a2a_env \<Rightarrow> a2a_config \<Rightarrow> a2a_request \<Rightarrow> a2a_state \<Rightarrow> http_response result \<times> a2a_state" where
  "a2a_route E V g rq s =
     (let path = aq_path rq
      in if aq_method rq = ''GET'' \<and> path = card_suffix then (Inr (handle_daemon_card g s), s)
         else if aq_method rq = ''GET'' \<and> starts_with path ''/agents/'' \<and> ends_with path card_suffix
         then (handle_agent_card E g (card_name_of_path path) s, s)
         else if aq_method rq = ''POST'' \<and> path = ''/a2a/rpc'' then handle_a2a_rpc E V g rq s
         else if aq_method rq = ''POST'' \<and> path = ''/control/revoke'' then handle_control_revoke E V g rq s
         else (Inr (a2a_json_response 404 (error_body ''not found'')), s))"

definition a2a_handle :: "ext \<Rightarrow> a2a_env \<Rightarrow> a2a_config \<Rightarrow> a2a_request \<Rightarrow> a2a_state \<Rightarrow> http_response \<times> a2a_state" where
  "a2a_handle E V g rq s =
     (if aq_method rq = ''OPTIONS'' then (cors_response 204, s)
      else let r = a2a_route E V g rq s
           in (case fst r of
                 Inr resp \<Rightarrow> (resp, snd r)
               | Inl e \<Rightarrow> (a2a_json_response 500 (error_body (av_err V e)), snd r)))"


subsection \<open>What passes the signature check\<close>

text \<open>
  The request names an agent the daemon manages, whose card on disk has a key under which the
  signature is valid for the method, the target, the authority and the text of \<^verbatim>\<open>Signature-Input\<close>; the
  post-quantum signature too, when both the request and the card have one.
\<close>

definition a2a_authenticated :: "ext \<Rightarrow> http_lib \<Rightarrow> a2a_config \<Rightarrow> a2a_state \<Rightarrow> a2a_request \<Rightarrow> bool" where
  "a2a_authenticated E H g s rq \<longleftrightarrow>
     (\<exists>name info crd sig_value input_value sig_b64 sig_bytes.
        Option.bind (header_get ''x-clawid-agent'' (aq_headers rq)) (value_to_str H) = Some name
        \<and> get_agent name (as_agents s) = Some info
        \<and> exists_at (agent_card_path (ac_root g) (ai_name info)) (as_fs s)
        \<and> read_card E (agent_card_path (ac_root g) (ai_name info)) (as_fs s) = Inr crd
        \<and> Option.bind (header_get ''signature'' (aq_headers rq)) (value_to_str H) = Some sig_value
        \<and> Option.bind (header_get ''signature-input'' (aq_headers rq)) (value_to_str H) = Some input_value
        \<and> Option.bind (strip_prefix sig_value ''sig1=:'') (\<lambda>v. strip_suffix v '':'') = Some sig_b64
        \<and> b64_decode E sig_b64 = Some sig_bytes
        \<and> verify E (card_public_key crd) (a2a_sig_base H rq input_value) (b64_encode E sig_bytes) = Inr True
        \<and> (\<forall>pq_pk pq_header. card_pq_public_key crd = Some pq_pk \<and> header_get ''x-clawid-pq-signature'' (aq_headers rq) = Some pq_header
             \<longrightarrow> (\<exists>pq_sig. value_to_str H pq_header = Some pq_sig
                   \<and> mldsa_verify E pq_pk (a2a_sig_base H rq input_value) pq_sig = Inr True)))"

lemma check_card_signature_iff:
  "check_card_signature E H rq base sig crd = Inr True \<longleftrightarrow>
     verify E (card_public_key crd) base (b64_encode E sig) = Inr True
     \<and> (\<forall>pq_pk pq_header. card_pq_public_key crd = Some pq_pk \<and> header_get ''x-clawid-pq-signature'' (aq_headers rq) = Some pq_header
          \<longrightarrow> (\<exists>pq_sig. value_to_str H pq_header = Some pq_sig \<and> mldsa_verify E pq_pk base pq_sig = Inr True))"
  by (auto simp: check_card_signature_def bind_res_Inr_iff split: option.splits)

lemma caller_card_iff:
  "caller_card E H g s rq = Inr (Some crd) \<longleftrightarrow>
     (\<exists>name info. Option.bind (header_get ''x-clawid-agent'' (aq_headers rq)) (value_to_str H) = Some name
        \<and> get_agent name (as_agents s) = Some info
        \<and> exists_at (agent_card_path (ac_root g) (ai_name info)) (as_fs s)
        \<and> read_card E (agent_card_path (ac_root g) (ai_name info)) (as_fs s) = Inr crd)"
  by (auto simp: caller_card_def bind_res_Inr_iff Let_def split: option.splits)

lemma authenticated_card_iff:
  "a2a_authenticated E H g s rq \<longleftrightarrow>
     (\<exists>crd sig_value input_value sig_b64 sig_bytes. caller_card E H g s rq = Inr (Some crd)
        \<and> Option.bind (header_get ''signature'' (aq_headers rq)) (value_to_str H) = Some sig_value
        \<and> Option.bind (header_get ''signature-input'' (aq_headers rq)) (value_to_str H) = Some input_value
        \<and> Option.bind (strip_prefix sig_value ''sig1=:'') (\<lambda>v. strip_suffix v '':'') = Some sig_b64
        \<and> b64_decode E sig_b64 = Some sig_bytes
        \<and> check_card_signature E H rq (a2a_sig_base H rq input_value) sig_bytes crd = Inr True)"
  unfolding a2a_authenticated_def check_card_signature_iff [symmetric] caller_card_iff by blast

lemma verify_request_iff: "verify_request_signature E H g s rq = Inr True \<longleftrightarrow> a2a_authenticated E H g s rq"
proof (cases "header_get ''signature'' (aq_headers rq) = None \<or> header_get ''signature-input'' (aq_headers rq) = None")
  case True
  then show ?thesis by (auto simp: verify_request_signature_def authenticated_card_iff split: option.splits)
next
  case False
  moreover have "(case caller of None \<Rightarrow> Inr False | Some crd \<Rightarrow> check_card_signature E H rq base sig crd) = Inr True
      \<longleftrightarrow> (\<exists>crd. caller = Some crd \<and> check_card_signature E H rq base sig crd = Inr True)" for caller base sig
    by (cases caller) auto
  ultimately show ?thesis
    unfolding verify_request_signature_def authenticated_card_iff by (auto simp: bind_res_Inr_iff)
qed

lemma caller_verified_iff: "unwrap_or False (verify_request_signature E H g s rq) \<longleftrightarrow> a2a_authenticated E H g s rq"
  by (simp only: unwrap_or_False_iff verify_request_iff)

lemma a2a_sig_base_body [simp]: "a2a_sig_base H (rq\<lparr>aq_body := b\<rparr>) input = a2a_sig_base H rq input"
  by (simp add: a2a_sig_base_def a2a_authority_def split: option.split)

lemma a2a_authenticated_body [simp]: "a2a_authenticated E H g s (rq\<lparr>aq_body := b\<rparr>) \<longleftrightarrow> a2a_authenticated E H g s rq"
  by (simp add: a2a_authenticated_def)

text \<open>
  C23: the gate.  When authentication is required, a request changes nothing in the daemon unless it
  is authenticated: it names a managed agent and bears a signature that is valid under that agent's
  card.  An unauthenticated call of the JSON-RPC endpoint is answered 401; the control channel demands
  the same whatever the configuration.
\<close>

theorem a2a_gate:
  assumes "\<not> a2a_authenticated E (av_http V) g s rq"
  shows "(ac_require_auth g \<longrightarrow> snd (a2a_handle E V g rq s) = s)
    \<and> (ac_require_auth g \<and> aq_method rq = ''POST'' \<and> aq_path rq = ''/a2a/rpc''
         \<longrightarrow> fst (a2a_handle E V g rq s) = a2a_json_response 401 (rpc_response_json auth_required))
    \<and> (aq_method rq = ''POST'' \<and> aq_path rq = ''/control/revoke''
         \<longrightarrow> hr_status (fst (a2a_handle E V g rq s)) = 401 \<and> snd (a2a_handle E V g rq s) = s)"
  using assms
  by (auto simp: a2a_handle_def a2a_route_def handle_a2a_rpc_def handle_control_revoke_def caller_verified_iff card_suffix_def
      a2a_json_response_def Let_def split: sum.splits)

text \<open>A daemon with one managed agent and its card, and a request that agent signed.\<close>

definition a2a_ext :: "json \<Rightarrow> ext" where
  "a2a_ext body = ref_ext\<lparr>json_parse := (\<lambda>t. Some (if t = ''card'' then JObj (card_members ref_ext demo_signed) else body))\<rparr>"

definition demo_a2a :: a2a_config where
  "demo_a2a = \<lparr>ac_base_url = ''http://d'', ac_require_auth = True, ac_root = ''r''\<rparr>"

definition demo_a2a_state :: a2a_state where
  "demo_a2a_state = a2a_new demo_running [''r/agents/n/identity/agent.card.json'' \<mapsto> File ''card'']"

definition demo_a2a_env :: a2a_env where
  "demo_a2a_env = \<lparr>av_http = demo_lib, av_now = 0, av_now' = 1, av_fresh = ''u'', av_version = ''1'', av_uptime = 0,
     av_audit = (\<lambda>_. None), av_err = (\<lambda>_. [])\<rparr>"

definition demo_a2a_base :: "string \<Rightarrow> string" where
  "demo_a2a_base path = quoted ''@method'' @ '': '' @ ''POST'' @ [nl] @ quoted ''@target-uri'' @ '': '' @ path @ [nl]
     @ quoted ''@authority'' @ '': '' @ ''d'' @ [nl] @ quoted ''@signature-params'' @ '': '' @ ''p''"

definition demo_signed_request :: "string \<Rightarrow> a2a_request" where
  "demo_signed_request path = \<lparr>aq_method = ''POST'', aq_uri = path, aq_path = path, aq_authority = Some ''d'',
     aq_headers = [(''x-clawid-agent'', ''n''), (''signature-input'', ''p''),
       (''signature'', ''sig1=:'' @ sign ref_ext demo_seed (demo_a2a_base path) @ '':'')], aq_body = Inr ''body''\<rparr>"

lemma demo_signed_read: "card_from_json (a2a_ext body) (JObj (card_members ref_ext demo_signed)) = Some demo_signed"
proof -
  have m: "card_members (a2a_ext body) demo_signed = card_members ref_ext demo_signed" by (simp add: card_members_def a2a_ext_def)
  have "dt_serde_ok (a2a_ext body)" "uuid_ok (a2a_ext body) (card_id demo_signed)"
    using ref_dt_serde_ok
    by (simp_all add: a2a_ext_def dt_serde_ok_def uuid_ok_def demo_signed_def demo_issued_def) (simp add: ref_ext_def)
  then show ?thesis
    using card_read [of "a2a_ext body" demo_signed, unfolded m]
    by (simp add: demo_signed_def demo_issued_def rfc3339_range_def seconds_def ns_per_sec_def)
qed

lemma demo_a2a_authenticated: "a2a_authenticated (a2a_ext body) demo_lib demo_a2a demo_a2a_state (demo_signed_request path)"
proof -
  let ?E = "a2a_ext body" and ?rq = "demo_signed_request path"
  let ?raw = "ed_sign_raw ref_ext demo_seed (demo_a2a_base path)"
  have path: "agent_card_path ''r'' ''n'' = ''r/agents/n/identity/agent.card.json''" by code_simp
  have agent: "map_option ai_name (get_agent ''n'' demo_running) = Some ''n''"
    by (simp add: get_agent_def demo_running_eq agent_info_of_def idle_process_def demo_config_def)
  then obtain info where info: "get_agent ''n'' demo_running = Some info" "ai_name info = ''n''" by auto
  have "caller_card ?E demo_lib demo_a2a demo_a2a_state ?rq = Inr (Some demo_signed)"
    using info demo_signed_read [of body]
    by (simp add: caller_card_def demo_signed_request_def header_get_def demo_lib_def demo_a2a_def demo_a2a_state_def a2a_new_def
        path exists_at_def read_card_def read_at_def bind_res_def of_option_def to_lowercase_def lower_char_def) (simp add: a2a_ext_def)
  moreover have "verify ?E (card_public_key demo_signed) (demo_a2a_base path) (b64_encode ?E ?raw) = Inr True"
    using verify_sign [OF ref_b64_ok ref_ed_ok, of demo_seed "demo_a2a_base path"]
    by (simp add: verify_def a2a_ext_def demo_signed_def demo_issued_def sign_def)
  then have "check_card_signature ?E demo_lib ?rq (demo_a2a_base path) ?raw demo_signed = Inr True"
    by (simp add: check_card_signature_iff demo_signed_def demo_issued_def)
  moreover have "a2a_sig_base demo_lib ?rq ''p'' = demo_a2a_base path"
    by (simp add: a2a_sig_base_def a2a_authority_def demo_signed_request_def demo_a2a_base_def)
  moreover have "b64_decode ?E (sign ref_ext demo_seed (demo_a2a_base path)) = Some ?raw"
    using b64_okD(1) [OF ref_b64_ok] by (simp add: a2a_ext_def sign_def)
  moreover have "Option.bind (strip_prefix (''sig1=:'' @ x @ '':'') ''sig1=:'') (\<lambda>v. strip_suffix v '':'') = Some x" for x
    by (simp add: strip_prefix_def strip_suffix_def ends_with_def)
  ultimately show ?thesis
    unfolding authenticated_card_iff
    by (intro exI [of _ demo_signed] exI [of _ "''sig1=:'' @ sign ref_ext demo_seed (demo_a2a_base path) @ '':''"] exI [of _ "''p''"]
        exI [of _ "sign ref_ext demo_seed (demo_a2a_base path)"] exI [of _ ?raw])
      (simp add: demo_signed_request_def header_get_def demo_lib_def to_lowercase_def lower_char_def)
qed

theorem a2a_gate_witness:
  "hr_status (fst (a2a_handle ref_ext demo_a2a_env demo_a2a ((demo_signed_request ''/control/revoke'')\<lparr>aq_headers := []\<rparr>) demo_a2a_state)) = 401"
proof -
  have "\<not> a2a_authenticated ref_ext (av_http demo_a2a_env) demo_a2a demo_a2a_state ((demo_signed_request ''/control/revoke'')\<lparr>aq_headers := []\<rparr>)"
    by (simp add: a2a_authenticated_def header_get_def)
  from a2a_gate [OF this] show ?thesis by (simp add: demo_signed_request_def)
qed

subsection \<open>The table of tasks\<close>

inductive a2a_step :: "ext \<Rightarrow> a2a_config \<Rightarrow> a2a_state \<Rightarrow> a2a_state \<Rightarrow> bool" for E g where
  request: "a2a_step E g s (snd (a2a_handle E V g rq s))"
| load_card: "a2a_step E g s (snd (load_daemon_card E g s))"
| daemon: "a2a_step E g s (s\<lparr>as_agents := agents, as_fs := files\<rparr>)"

definition task_done :: "string \<Rightarrow> a2a_task \<Rightarrow> bool" where
  "task_done i t \<longleftrightarrow> task_id t = i \<and> st_state (task_status t) = Completed \<and> map am_role (task_messages t) = [UserRole, AgentRole]"

definition a2a_inv :: "a2a_state \<Rightarrow> bool" where
  "a2a_inv s \<longleftrightarrow> distinct (map fst (as_tasks s)) \<and> (\<forall>i t. map_of (as_tasks s) i = Some t \<longrightarrow> task_done i t)"

lemma process_new_done: "task_done (task_id (new_task E V params v text)) (process_task E V g s (new_task E V params v text) target)"
  by (simp add: task_done_def process_task_def new_task_def user_message_def Let_def)

lemma message_send_cases:
  "snd (handle_message_send E V g params v s) = s
   \<or> (\<exists>i r. task_done i r \<and> snd (handle_message_send E V g params v s) = s\<lparr>as_tasks := put i r (as_tasks s)\<rparr>)"
  using process_new_done by (fastforce simp: handle_message_send_def Let_def split: option.splits)

lemma a2a_inv_put: "a2a_inv s \<Longrightarrow> task_done i r \<Longrightarrow> a2a_inv (s\<lparr>as_tasks := put i r (as_tasks s)\<rparr>)"
  unfolding a2a_inv_def by (auto simp: distinct_put dest: map_of_SomeD split: if_splits)

lemma message_send_inv: "a2a_inv s \<Longrightarrow> a2a_inv (snd (handle_message_send E V g params v s))"
  using message_send_cases [of E V g params v s] a2a_inv_put by metis

lemma cancel_refused:
  assumes "a2a_inv s"
  shows "snd (handle_tasks_cancel E V params s) = s \<and> (\<exists>c m. resp_outcome (fst (handle_tasks_cancel E V params s)) = Inl (c, m))"
proof (cases "get_str params ''id''")
  case None
  then show ?thesis by (simp add: handle_tasks_cancel_def missing_id_def rpc_error_def)
next
  case (Some i)
  then show ?thesis using assms
    by (cases "map_of (as_tasks s) i") (auto simp: handle_tasks_cancel_def task_not_found_def rpc_error_def a2a_inv_def task_done_def)
qed

lemma a2a_handle_inv: "a2a_inv s \<Longrightarrow> a2a_inv (snd (a2a_handle E V g rq s))"
proof -
  assume inv: "a2a_inv s"
  have rpc: "a2a_inv (snd (handle_a2a_rpc E V g rq s))"
    using inv message_send_inv cancel_refused by (auto simp: handle_a2a_rpc_def dispatch_rpc_def Let_def split: sum.splits option.splits)
  have revoke: "a2a_inv (snd (handle_control_revoke E V g rq s))"
    using inv by (auto simp: handle_control_revoke_def a2a_inv_def Let_def split: sum.splits)
  show ?thesis using inv rpc revoke by (auto simp: a2a_handle_def a2a_route_def Let_def split: sum.splits)
qed

interpretation a2a: invariant "\<lambda>s. \<exists>agents files. s = a2a_new agents files" "a2a_step E g" a2a_inv for E g
proof
  fix s t assume "a2a_inv s" "a2a_step E g s t"
  then show "a2a_inv t"
    by (cases rule: a2a_step.cases [OF \<open>a2a_step E g s t\<close>])
       (auto simp: a2a_handle_inv, auto simp: a2a_inv_def load_daemon_card_def Let_def split: sum.splits)
qed (auto simp: a2a_inv_def a2a_new_def)

text \<open>
  C25: the life of a task.  In every state the server can reach, each task is stored under its own
  identifier, is completed, and holds the caller's message and the answer: no client ever sees one of
  the other six states, and a cancellation is always refused, with nothing changed.
\<close>

theorem a2a_tasks_completed:
  assumes "reachable (\<lambda>s. \<exists>agents files. s = a2a_new agents files) (a2a_step E g) s"
  shows "(\<forall>i t. map_of (as_tasks s) i = Some t \<longrightarrow> task_done i t)
    \<and> snd (handle_tasks_cancel E' V params s) = s
    \<and> (\<exists>c m. resp_outcome (fst (handle_tasks_cancel E' V params s)) = Inl (c, m))"
  using a2a.inv_reachable [OF assms] cancel_refused by (simp add: a2a_inv_def)

subsection \<open>What a signature does not cover\<close>

lemma send_stored:
  assumes "a2a_authenticated E (av_http V) g s rq"
    and "aq_method rq = ''POST''" "aq_path rq = ''/a2a/rpc''" "aq_body rq = Inr body"
    and "json_parse E body = Some v" "request_from_json v = Some rpc" "rq_method rpc = ''message/send''"
    and "json_get (rq_params rpc) ''message'' = Some message" "target_agent_of (rq_params rpc) = None"
    and "get_str (rq_params rpc) ''id'' = Some i"
  shows "\<exists>t. hr_status (fst (a2a_handle E V g rq s)) = 200
    \<and> map_of (as_tasks (snd (a2a_handle E V g rq s))) i = Some t \<and> task_done i t
    \<and> task_messages t ! 0 = user_message E (av_now V) True (text_of_message message)"
proof -
  let ?t = "new_task E V (rq_params rpc) True (text_of_message message)"
  let ?r = "process_task E V g s ?t None"
  have id: "task_id ?t = i" using assms(10) by (simp add: new_task_def)
  have "handle_message_send E V g (rq_params rpc) True s
      = (rpc_success None (task_value E ?r), s\<lparr>as_tasks := put i ?r (put i ?t (as_tasks s))\<rparr>)"
    using assms(8,9) id by (simp add: handle_message_send_def Let_def)
  then have "\<exists>resp. a2a_handle E V g rq s = (a2a_json_response 200 resp, s\<lparr>as_tasks := put i ?r (put i ?t (as_tasks s))\<rparr>)"
    using assms(1-7)
    by (simp add: a2a_handle_def a2a_route_def handle_a2a_rpc_def dispatch_rpc_def caller_verified_iff card_suffix_def) (rule exI, rule refl)
  moreover have "task_done i ?r" using process_new_done [of E V "rq_params rpc" True] id by metis
  moreover have "task_messages ?r ! 0 = user_message E (av_now V) True (text_of_message message)"
    by (simp add: process_task_def new_task_def Let_def)
  ultimately show ?thesis by (auto simp: a2a_json_response_def)
qed

text \<open>
  A signed request is a licence for others.  The body is not under the signature and nothing
  makes it fresh: once a call of the JSON-RPC endpoint is authenticated, the same headers with any other body
  send any other message, at any time and as long as the agent's card lasts, and a task identifier
  of the sender's choice replaces the task that had it.
\<close>

theorem a2a_request_replayable:
  assumes "a2a_authenticated E (av_http V) g s rq"
    and "aq_method rq = ''POST''" "aq_path rq = ''/a2a/rpc''"
    and "json_parse E body = Some v" "request_from_json v = Some rpc" "rq_method rpc = ''message/send''"
    and "json_get (rq_params rpc) ''message'' = Some message" "target_agent_of (rq_params rpc) = None"
    and "get_str (rq_params rpc) ''id'' = Some i"
  shows "\<exists>t. hr_status (fst (a2a_handle E V g (rq\<lparr>aq_body := Inr body\<rparr>) s)) = 200
    \<and> map_of (as_tasks (snd (a2a_handle E V g (rq\<lparr>aq_body := Inr body\<rparr>) s))) i = Some t \<and> task_done i t
    \<and> task_messages t ! 0 = user_message E (av_now V) True (text_of_message message)"
  by (rule send_stored [where v = v and rpc = rpc]) (use assms in simp_all)

text \<open>A call that sends an empty message under the identifier \<^verbatim>\<open>t\<close>.\<close>

definition demo_send :: json where
  "demo_send = JObj [(''jsonrpc'', JStr ''2.0''), (''method'', JStr ''message/send''),
     (''params'', JObj [(''id'', JStr ''t''), (''message'', JObj [])])]"

lemma demo_send_rpc: "request_from_json demo_send = Some \<lparr>rq_jsonrpc = ''2.0'', rq_id = JNull, rq_method = ''message/send'',
    rq_params = JObj [(''id'', JStr ''t''), (''message'', JObj [])]\<rparr>"
  by (simp add: demo_send_def request_from_json_def struct_field_def opt_field_def)

lemma demo_send_params:
  "json_get (JObj [(''id'', JStr ''t''), (''message'', JObj [])]) ''message'' = Some (JObj [])"
  "target_agent_of (JObj [(''id'', JStr ''t''), (''message'', JObj [])]) = None"
  "get_str (JObj [(''id'', JStr ''t''), (''message'', JObj [])]) ''id'' = Some ''t''"
  by (simp_all add: target_agent_of_def get_str_def)

lemma demo_send_stored:
  "map_of (as_tasks (snd (a2a_handle (a2a_ext demo_send) demo_a2a_env demo_a2a (demo_signed_request ''/a2a/rpc'') demo_a2a_state))) ''t'' \<noteq> None"
proof -
  have auth: "a2a_authenticated (a2a_ext demo_send) (av_http demo_a2a_env) demo_a2a demo_a2a_state (demo_signed_request ''/a2a/rpc'')"
    using demo_a2a_authenticated by (simp add: demo_a2a_env_def)
  have "json_parse (a2a_ext demo_send) ''body'' = Some demo_send" by (simp add: a2a_ext_def)
  from send_stored [OF auth _ _ _ this demo_send_rpc, where message = "JObj []" and i = "''t''"] show ?thesis
    by (auto simp: demo_signed_request_def demo_send_params)
qed

theorem a2a_tasks_completed_witness:
  "let s = snd (a2a_handle (a2a_ext demo_send) demo_a2a_env demo_a2a (demo_signed_request ''/a2a/rpc'') demo_a2a_state)
   in map_of (as_tasks s) ''t'' \<noteq> None
      \<and> snd (handle_tasks_cancel ref_ext demo_a2a_env (JObj [(''id'', JStr ''t'')]) s) = s"
proof -
  let ?s = "snd (a2a_handle (a2a_ext demo_send) demo_a2a_env demo_a2a (demo_signed_request ''/a2a/rpc'') demo_a2a_state)"
  have "reachable (\<lambda>s. \<exists>agents files. s = a2a_new agents files) (a2a_step (a2a_ext demo_send) demo_a2a) ?s"
    by (rule reach_step, rule reach_init, unfold demo_a2a_state_def, rule exI, rule exI, rule refl, rule a2a_step.request)
  from a2a_tasks_completed [OF this] have "snd (handle_tasks_cancel ref_ext demo_a2a_env (JObj [(''id'', JStr ''t'')]) ?s) = ?s" by blast
  then show ?thesis using demo_send_stored by (simp only: Let_def simp_thms)
qed

theorem a2a_request_replayable_witness:
  "hr_status (fst (a2a_handle (a2a_ext demo_send) demo_a2a_env demo_a2a
      ((demo_signed_request ''/a2a/rpc'')\<lparr>aq_body := Inr ''other''\<rparr>) demo_a2a_state)) = 200"
proof -
  have auth: "a2a_authenticated (a2a_ext demo_send) (av_http demo_a2a_env) demo_a2a demo_a2a_state (demo_signed_request ''/a2a/rpc'')"
    using demo_a2a_authenticated by (simp add: demo_a2a_env_def)
  have "json_parse (a2a_ext demo_send) ''other'' = Some demo_send" by (simp add: a2a_ext_def)
  from a2a_request_replayable [OF auth _ _ this demo_send_rpc, where message = "JObj []" and i = "''t''"] show ?thesis
    by (auto simp: demo_signed_request_def demo_send_params)
qed

text \<open>
  The control channel.  An authenticated caller stops any managed agent, whoever its parent is:
  its process and proxy are ended and the answer says \<^verbatim>\<open>revoked\<close>.  Nothing else of the daemon changes: no
  card is revoked and no entry is written, and the agent is merely stopped, free to be started again.
\<close>

theorem a2a_revoke_is_stop:
  assumes "a2a_authenticated E (av_http V) g s rq"
    and "aq_method rq = ''POST''" "aq_path rq = ''/control/revoke''" "aq_body rq = Inr body"
    and "json_parse E body = Some v" "revoke_from_json v = Some (name, reason)"
    and "map_of (sup_agents (as_agents s)) name = Some a"
  shows "hr_status (fst (a2a_handle E V g rq s)) = 200
    \<and> snd (a2a_handle E V g rq s) = s\<lparr>as_agents := snd (stop_agent name (as_agents s))\<rparr>
    \<and> map_option ap_status (map_of (sup_agents (as_agents (snd (a2a_handle E V g rq s)))) name) = Some Stopped
    \<and> old_child (as_agents (snd (a2a_handle E V g rq s))) name = None"
proof -
  have "fst (stop_agent name (as_agents s)) = Inr ()" using assms(7) by (simp add: stop_agent_def Let_def)
  then have "\<exists>resp. a2a_handle E V g rq s = (a2a_json_response 200 resp, s\<lparr>as_agents := snd (stop_agent name (as_agents s))\<rparr>)"
    using assms(1-6)
    by (simp add: a2a_handle_def a2a_route_def handle_control_revoke_def caller_verified_iff card_suffix_def Let_def) (rule exI, rule refl)
  then show ?thesis using assms(7) by (auto simp: a2a_json_response_def stop_agent_status stop_agent_child)
qed

theorem a2a_revoke_is_stop_witness:
  "let s' = snd (a2a_handle (a2a_ext (JObj [(''agent_name'', JStr ''n'')])) demo_a2a_env demo_a2a (demo_signed_request ''/control/revoke'') demo_a2a_state)
   in old_child (as_agents demo_a2a_state) ''n'' = Some 7 \<and> old_child (as_agents s') ''n'' = None"
proof -
  let ?E = "a2a_ext (JObj [(''agent_name'', JStr ''n'')])"
  have auth: "a2a_authenticated ?E (av_http demo_a2a_env) demo_a2a demo_a2a_state (demo_signed_request ''/control/revoke'')"
    using demo_a2a_authenticated by (simp add: demo_a2a_env_def)
  have parse: "json_parse ?E ''body'' = Some (JObj [(''agent_name'', JStr ''n'')])" by (simp add: a2a_ext_def)
  have read: "revoke_from_json (JObj [(''agent_name'', JStr ''n'')]) = Some (''n'', None)"
    by (simp add: revoke_from_json_def struct_opt_members_def struct_field_def opt_field_def opt_str_def)
  have agents: "as_agents demo_a2a_state = demo_running" by (simp add: demo_a2a_state_def a2a_new_def)
  then obtain a where a: "map_of (sup_agents (as_agents demo_a2a_state)) ''n'' = Some a" "ap_child a = Some 7"
    by (simp add: demo_running_eq)
  have "old_child (as_agents (snd (a2a_handle ?E demo_a2a_env demo_a2a (demo_signed_request ''/control/revoke'') demo_a2a_state))) ''n'' = None"
    by (rule a2a_revoke_is_stop [OF auth _ _ _ parse read a(1), THEN conjunct2, THEN conjunct2, THEN conjunct2])
       (simp_all add: demo_signed_request_def)
  then show ?thesis using a by (simp add: old_child_def)
qed

text \<open>
  The proxy's signatures are not these.  The daemon takes the label as part of the signature
  parameters, so its base differs from the one the proxy signs, for every request: an answer that
  the signature is valid would be a forgery.
\<close>

lemma a2a_base_not_proxied:
  assumes "param_text_ok (rs_key_id sg)" "param_text_ok nonce"
  shows "a2a_sig_base H rq (''sig1='' @ proxy_params_text sg created nonce) \<noteq> proxy_sig_base E sg created nonce meth uri"
proof
  let ?last = "quoted ''@signature-params'' @ '': '' @ ''sig1='' @ proxy_params_text sg created nonce"
  let ?last' = "quoted ''@signature-params'' @ '': '' @ proxy_params_text sg created nonce"
  assume eq: "a2a_sig_base H rq (''sig1='' @ proxy_params_text sg created nonce) = proxy_sig_base E sg created nonce meth uri"
  obtain a a' where b: "a2a_sig_base H rq (''sig1='' @ proxy_params_text sg created nonce) = a @ nl # ?last"
    and b': "proxy_sig_base E sg created nonce meth uri = a' @ nl # ?last'"
    by (simp add: a2a_sig_base_def proxy_sig_base_def)
  have n: "nl \<notin> set ?last" "nl \<notin> set ?last'"
    using assms int_str_no(3) [of created] by (auto simp: proxy_params_text_def quoted_def param_text_ok_def)
  have "count_list ?last nl = count_list ?last' nl" using n [THEN count_list_0_iff [THEN iffD2]] by (simp only:)
  from count_split_unique [OF trans [OF b [symmetric] trans [OF eq b']] this] have "?last = ?last'" ..
  then show False by (simp add: quoted_def)
qed

subsection \<open>Listing\<close>

text \<open>
  A list of tasks holds those of the asked context, the latest first, and no more than the limit; it
  is complete when there are no more.
\<close>

theorem tasks_list_exact:
  "length (select_tasks ctx limit ts) \<le> limit
   \<and> sorted_wrt (\<lambda>t u. task_updated_at u \<le> task_updated_at t) (select_tasks ctx limit ts)
   \<and> set (select_tasks ctx limit ts) \<subseteq> {t \<in> snd ` set ts. ctx = None \<or> task_context_id t = ctx}
   \<and> (length ts \<le> limit \<longrightarrow> set (select_tasks ctx limit ts) = {t \<in> snd ` set ts. ctx = None \<or> task_context_id t = ctx})"
proof -
  let ?sel = "sort_key (\<lambda>t. - task_updated_at t) (filter (\<lambda>t. ctx = None \<or> task_context_id t = ctx) (map snd ts))"
  have "sorted (map (\<lambda>t. - task_updated_at t) ?sel)" by simp
  then have "sorted_wrt (\<lambda>t u. task_updated_at u \<le> task_updated_at t) ?sel" by (simp add: sorted_map)
  then have sorted: "sorted_wrt (\<lambda>t u. task_updated_at u \<le> task_updated_at t) (take limit ?sel)" by (simp only: sorted_wrt_take)
  have "length ?sel \<le> length ts" using length_filter_le [of "\<lambda>t. ctx = None \<or> task_context_id t = ctx" "map snd ts"] by simp
  then have whole: "length ts \<le> limit \<Longrightarrow> take limit ?sel = ?sel" by (intro take_all) (rule le_trans)
  have members: "set ?sel = {t \<in> snd ` set ts. ctx = None \<or> task_context_id t = ctx}"
    by (simp only: set_sort set_filter set_map)
  show ?thesis
    unfolding select_tasks_def using sorted whole members set_take_subset [of limit ?sel] by (intro conjI impI) (simp_all only: length_take min.cobounded2 members)
qed

end
