(* ===== verification/Ipc.thy ===== *)
theory Ipc
  imports Updates Anchor A2a_Server
begin

text \<open>
  The daemon's control socket, \<^verbatim>\<open>grokingclaw-daemon/src/ipc.rs\<close>: every method of its dispatcher over the
  daemon's whole state, and the loop that answers a connection line by line.  The handlers call the
  models of the other parts; what these take from outside (clocks, random values, HTTP, the operating
  system) is gathered in \<open>ipc_env\<close>, one for each request.
\<close>

subsection \<open>The daemon's state\<close>

record 't ipc_world =
  iw_daemon :: "'t daemon_world"
  iw_shutdown :: bool
  iw_updates :: "update_checker option"
  iw_anchor :: "anchor_worker option"

definition daemon_new :: "'t mesh_client option \<Rightarrow> fs \<Rightarrow> 't ipc_world" where
  "daemon_new mesh fs = \<lparr>iw_daemon = \<lparr>dw_supervisor = supervisor_new, dw_fs = fs, dw_mesh = mesh\<rparr>,
     iw_shutdown = False, iw_updates = None, iw_anchor = None\<rparr>"

definition request_shutdown :: "'t ipc_world \<Rightarrow> 't ipc_world" where
  "request_shutdown w = w\<lparr>iw_shutdown := True\<rparr>"

definition should_shutdown :: "'t ipc_world \<Rightarrow> bool" where
  "should_shutdown w = iw_shutdown w"

abbreviation agents_of :: "'t ipc_world \<Rightarrow> supervisor" where "agents_of w \<equiv> dw_supervisor (iw_daemon w)"
abbreviation files_of :: "'t ipc_world \<Rightarrow> fs" where "files_of w \<equiv> dw_fs (iw_daemon w)"
abbreviation mesh_of :: "'t ipc_world \<Rightarrow> 't mesh_client option" where "mesh_of w \<equiv> dw_mesh (iw_daemon w)"

definition set_agents :: "'t ipc_world \<Rightarrow> supervisor \<Rightarrow> 't ipc_world" where
  "set_agents w s = w\<lparr>iw_daemon := (iw_daemon w)\<lparr>dw_supervisor := s\<rparr>\<rparr>"

definition set_files :: "'t ipc_world \<Rightarrow> fs \<Rightarrow> 't ipc_world" where
  "set_files w fs = w\<lparr>iw_daemon := (iw_daemon w)\<lparr>dw_fs := fs\<rparr>\<rparr>"

definition set_mesh :: "'t ipc_world \<Rightarrow> 't mesh_client \<Rightarrow> 't ipc_world" where
  "set_mesh w c = w\<lparr>iw_daemon := (iw_daemon w)\<lparr>dw_mesh := Some c\<rparr>\<rparr>"

text \<open>
  \<open>ie_kept\<close>: the paths that survive a removal of a directory that fails; \<open>ie_source\<close>: the directory a
  template is created from.
\<close>

record 't ipc_env =
  ie_config :: daemon_config
  ie_root :: string
  ie_version :: string
  ie_uptime :: nat
  ie_now :: datetime
  ie_disk :: license_disk
  ie_agent_dirs :: "agent_dir_entry list option"
  ie_templates :: template_registry
  ie_birth_lib :: birth_lib
  ie_birth_env :: birth_env
  ie_transport :: "'t transport"
  ie_mesh_env :: mesh_env
  ie_start :: start_env
  ie_kept :: "string \<Rightarrow> bool"
  ie_vault :: vault_lib
  ie_flow :: flow_lib
  ie_oauth :: oauth_env
  ie_update :: update_env
  ie_source :: "string \<Rightarrow> tree option"
  ie_audit :: audit_files
  ie_err :: "error \<Rightarrow> string"

type_synonym rpc_outcome = "(int \<times> string) + json"

definition answered :: "'t ipc_env \<Rightarrow> string \<Rightarrow> json result \<Rightarrow> rpc_outcome" where
  "answered N what r = (case r of Inr v \<Rightarrow> Inr v | Inl e \<Rightarrow> Inl (-32000, what @ ie_err N e))"

definition missing_param :: "string \<Rightarrow> rpc_outcome" where
  "missing_param k = Inl (-32602, ''Missing '' @ q_name k @ '' parameter'')"

definition u64_param :: "json \<Rightarrow> string \<Rightarrow> nat \<Rightarrow> nat" where
  "u64_param params k d = (case Option.bind (json_get params k) as_u64 of Some n \<Rightarrow> n | None \<Rightarrow> d)"

subsection \<open>JSON forms\<close>

definition mesh_state_value :: "ext \<Rightarrow> mesh_state \<Rightarrow> json" where
  "mesh_state_value E s =
     (case s of
        Connected ip peers at \<Rightarrow> json_object
          [(''state'', JStr ''connected''), (''mesh_ip'', JStr ip), (''peer_count'', JNum (int (length peers))),
           (''connected_at'', JStr (rfc3339 E at))]
      | Connecting \<Rightarrow> json_object [(''state'', JStr ''connecting'')]
      | Disconnected \<Rightarrow> json_object [(''state'', JStr ''disconnected'')])"

definition mesh_peer_value :: "ext \<Rightarrow> mesh_peer \<Rightarrow> json" where
  "mesh_peer_value E p = json_object
     [(''name'', JStr (mp_name p)), (''did'', JStr (mp_did p)), (''mesh_ip'', JStr (mp_mesh_ip p)),
      (''last_seen'', JStr (dt_serde E (mp_last_seen p))), (''agent_count'', JNum (int (mp_agent_count p)))]"

definition ping_value :: "ping_result \<Rightarrow> json" where
  "ping_value p = json_object
     [(''peer_did'', JStr (pr_peer_did p)), (''reachable'', JBool (pr_reachable p)),
      (''latency_ms'', opt_json (\<lambda>n. JNum (int n)) (pr_latency_ms p)), (''error'', opt_json JStr (pr_error p))]"

definition u32_value :: "u32 option \<Rightarrow> json" where
  "u32_value n = opt_json (\<lambda>n. JNum (uint n)) n"

definition env_value :: "(string \<times> string) list \<Rightarrow> json" where
  "env_value kvs = json_object (map (\<lambda>(k, v). (k, JStr v)) kvs)"

definition manifest_value :: "template_manifest \<Rightarrow> json" where
  "manifest_value m =
     (let t = tm_template m; q = tm_requirements m; i = tm_install m; r = tm_run m; h = tm_health m; s = tm_scope m
      in json_object
        [(''template'', json_object [(''name'', JStr (ti_name t)), (''version'', JStr (ti_version t)),
            (''description'', JStr (ti_description t)), (''author'', JStr (ti_author t)), (''license'', JStr (ti_license t)),
            (''tags'', json_strings (ti_tags t))]),
         (''requirements'', json_object [(''min_memory_mb'', JNum (int (tq_min_memory_mb q))),
            (''min_disk_gb'', JNum (int (tq_min_disk_gb q))), (''binaries'', json_strings (tq_binaries q)), (''os'', json_strings (tq_os q))]),
         (''install'', json_object [(''script'', JStr (ins_script i)), (''files'', json_strings (ins_files i)), (''env'', env_value (ins_env i))]),
         (''run'', json_object [(''script'', JStr (run_script r)), (''workdir'', JStr (run_workdir r)), (''env'', env_value (run_env r)),
            (''restart_on_crash'', JBool (run_restart_on_crash r)), (''max_restarts'', JNum (uint (run_max_restarts r)))]),
         (''health'', json_object [(''script'', JStr (hc_script h)), (''interval_seconds'', JNum (int (hc_interval_seconds h))),
            (''unhealthy_threshold'', JNum (uint (hc_unhealthy_threshold h)))]),
         (''scope'', json_object [(''allowed_domains'', json_strings (sd_allowed_domains s)),
            (''allowed_scopes'', json_strings (sd_allowed_scopes s)), (''ttl_seconds'', JNum (sd_ttl_seconds s))])])"

definition authorize_value :: "json + auth_code_start + device_auth_pending \<Rightarrow> json" where
  "authorize_value r =
     (case r of
        Inl v \<Rightarrow> v
      | Inr (Inl s) \<Rightarrow> json_object
          [(''authorization_url'', JStr (acs_authorization_url s)), (''code_verifier'', JStr (acs_code_verifier s)),
           (''state'', JStr (acs_state s)), (''redirect_uri'', JStr (acs_redirect_uri s))]
      | Inr (Inr p) \<Rightarrow> json_object
          ([(''device_code'', JStr (dap_device_code p)), (''user_code'', JStr (dap_user_code p)),
            (''verification_uri'', JStr (dap_verification_uri p))]
           @ (case dap_verification_uri_complete p of None \<Rightarrow> [] | Some u \<Rightarrow> [(''verification_uri_complete'', JStr u)])
           @ [(''expires_in'', JNum (int (dap_expires_in p))), (''interval'', JNum (int (dap_interval p)))]))"

subsection \<open>Daemon and agents\<close>

definition ipc_status :: "ext \<Rightarrow> 't ipc_env \<Rightarrow> json \<Rightarrow> 't ipc_world \<Rightarrow> rpc_outcome \<times> 't ipc_world" where
  "ipc_status E N params w =
     (let agents = list_agents (agents_of w);
          mesh_status = (case mesh_of w of Some c \<Rightarrow> mesh_state_value E (cl_state c)
                         | None \<Rightarrow> json_object [(''state'', JStr ''disabled'')]);
          anchor = (case iw_anchor w of Some a \<Rightarrow> anchor_status_value E a | None \<Rightarrow> json_object [(''enabled'', JBool False)]);
          lic = load_license E (ie_disk N)
      in (Inr (json_object
            [(''daemon'', JStr ''running''), (''version'', JStr (ie_version N)), (''agents_count'', JNum (int (length agents))),
             (''agents'', JArr (map (agent_info_value E) agents)), (''uptime_seconds'', JNum (int (ie_uptime N))),
             (''mesh'', mesh_status), (''anchor'', anchor),
             (''license'', json_object [(''tier'', JStr (license_tier_display (st_tier lic))),
                (''agent_count'', JNum (uint (count_agents (ie_agent_dirs N)))), (''max_agents'', u32_value (max_agents (st_limits lic)))])]), w))"

definition ipc_shutdown :: "json \<Rightarrow> 't ipc_world \<Rightarrow> rpc_outcome \<times> 't ipc_world" where
  "ipc_shutdown params w = (Inr (json_object [(''status'', JStr ''shutting_down'')]), request_shutdown w)"

definition ipc_agents_list :: "ext \<Rightarrow> json \<Rightarrow> 't ipc_world \<Rightarrow> rpc_outcome \<times> 't ipc_world" where
  "ipc_agents_list E params w = (Inr (JArr (map (agent_info_value E) (list_agents (agents_of w)))), w)"

definition ipc_agents_get :: "ext \<Rightarrow> json \<Rightarrow> 't ipc_world \<Rightarrow> rpc_outcome \<times> 't ipc_world" where
  "ipc_agents_get E params w =
     (let name = name_param params ''name''
      in (case get_agent name (agents_of w) of
            Some info \<Rightarrow> Inr (agent_info_value E info)
          | None \<Rightarrow> Inl (-32001, ''Agent '' @ q_name name @ '' not found''), w))"

definition birth_value :: "ext \<Rightarrow> birth_result \<Rightarrow> json" where
  "birth_value E r =
     (case agent_info_value E (bir_agent_info r) of
        JObj kvs \<Rightarrow> json_object (kvs
          @ [(''birth_mode'', JStr (case bir_mode r of MeshBirth \<Rightarrow> ''mesh'' | LocalBirth \<Rightarrow> ''local'' | QueuedBirth \<Rightarrow> ''queued''))]
          @ (case bir_certificate r of None \<Rightarrow> [] | Some c \<Rightarrow> [(''certificate_id'', JStr (bc_certificate_id c))]))
      | v \<Rightarrow> v)"

definition ipc_birth :: "ext \<Rightarrow> 't ipc_env \<Rightarrow> json \<Rightarrow> 't ipc_world \<Rightarrow> rpc_outcome \<times> 't ipc_world" where
  "ipc_birth E N params w =
     (case birth_params_from_json params of
        Inl e \<Rightarrow> (Inl (-32602, ''Invalid birth params: '' @ ie_err N e), w)
      | Inr p \<Rightarrow>
          (let r = daemon_birth_agent E (ie_disk N) (ie_config N) (ie_birth_lib N) (ie_birth_env N) (ie_root N) (ie_transport N)
                     (ie_templates N) p (iw_daemon w)
           in (answered N ''Birth failed: '' (bind_res (fst r) (\<lambda>b. Inr (birth_value E b))), w\<lparr>iw_daemon := snd r\<rparr>)))"

definition done_value :: "string \<Rightarrow> string \<Rightarrow> json" where
  "done_value status name = json_object [(''status'', JStr status), (''agent'', JStr name)]"

text \<open>What starting an agent finds in its directory.\<close>

definition file_at :: "string \<Rightarrow> fs \<Rightarrow> bytes option" where
  "file_at p fs = (case fs p of Some (File b) \<Rightarrow> Some b | _ \<Rightarrow> None)"

definition read_if_exists :: "string \<Rightarrow> fs \<Rightarrow> bytes option result" where
  "read_if_exists p fs = (if exists_at p fs then bind_res (read_at p fs) (\<lambda>b. Inr (Some b)) else Inr None)"

definition store_path :: "string \<Rightarrow> string" where
  "store_path agent_dir = identity_file agent_dir ''oauth-tokens.enc''"

definition start_env_of :: "'t ipc_env \<Rightarrow> string \<Rightarrow> fs \<Rightarrow> start_env" where
  "start_env_of N name fs =
     (let dir = agent_dir_of (ie_root N) name; key = identity_file dir ''agent.pem''
      in (ie_start N)\<lparr>se_run_script := exists_at (path_join dir ''run.sh'') fs,
           se_key_file := (if exists_at key fs then Some (read_at key fs) else None), se_signer_file := read_at key fs,
           se_store_file := read_if_exists (store_path dir) fs\<rparr>)"

definition ipc_agents_start :: "ext \<Rightarrow> 't ipc_env \<Rightarrow> json \<Rightarrow> 't ipc_world \<Rightarrow> rpc_outcome \<times> 't ipc_world" where
  "ipc_agents_start E N params w =
     (let name = name_param params ''name'';
          r = start_agent E (ie_vault N) (start_env_of N name (files_of w)) name (agents_of w)
      in (answered N [] (bind_res (fst r) (\<lambda>_. Inr (done_value ''started'' name))), set_agents w (snd r)))"

definition ipc_agents_stop :: "'t ipc_env \<Rightarrow> json \<Rightarrow> 't ipc_world \<Rightarrow> rpc_outcome \<times> 't ipc_world" where
  "ipc_agents_stop N params w =
     (let name = name_param params ''name''; r = stop_agent name (agents_of w)
      in (answered N [] (bind_res (fst r) (\<lambda>_. Inr (done_value ''stopped'' name))), set_agents w (snd r)))"

text \<open>\<^verbatim>\<open>remove_dir_all\<close>: everything below the directory; when it fails, some of it.\<close>

definition under_path :: "string \<Rightarrow> string \<Rightarrow> bool" where
  "under_path dir p \<longleftrightarrow> p = dir \<or> starts_with p (dir @ ''/'')"

definition remove_dir_all :: "io_faults \<Rightarrow> (string \<Rightarrow> bool) \<Rightarrow> string \<Rightarrow> unit io_op" where
  "remove_dir_all io kept dir fs =
     (if fs dir \<noteq> Some Dir then (Inl (IoError dir), fs)
      else case io dir of
             Inl e \<Rightarrow> (Inl e, \<lambda>p. if under_path dir p \<and> \<not> kept p then None else fs p)
           | Inr _ \<Rightarrow> (Inr (), \<lambda>p. if under_path dir p then None else fs p))"

text \<open>The operating system ignores the slash at the end of a directory's path.\<close>

definition remove_agent_dir :: "'t ipc_env \<Rightarrow> string \<Rightarrow> unit io_op" where
  "remove_agent_dir N name =
     (let dir = no_slash (agent_dir_of (ie_root N) name)
      in with_fs (\<lambda>fs. if exists_at dir fs then remove_dir_all (bl_io (ie_birth_lib N)) (ie_kept N) dir else lift_io (Inr ())))"

definition ipc_agents_delete :: "'t ipc_env \<Rightarrow> json \<Rightarrow> 't ipc_world \<Rightarrow> rpc_outcome \<times> 't ipc_world" where
  "ipc_agents_delete N params w =
     (let name = name_param params ''name''; f = remove_agent_dir N name (files_of w);
          r = delete_agent (fst f) name (agents_of w)
      in (answered N [] (bind_res (fst r) (\<lambda>_. Inr (done_value ''deleted'' name))), set_files (set_agents w (snd r)) (snd f)))"

definition ipc_agents_logs :: "'t ipc_env \<Rightarrow> json \<Rightarrow> 't ipc_world \<Rightarrow> rpc_outcome \<times> 't ipc_world" where
  "ipc_agents_logs N params w =
     (answered N [] (bind_res (read_agent_logs (ie_root N) (name_param params ''name'') (u64_param params ''lines'' 50) (files_of w))
        (\<lambda>logs. Inr (json_object [(''logs'', JStr logs)]))), w)"

subsection \<open>Mesh\<close>

definition mesh_off :: rpc_outcome where
  "mesh_off = Inl (-32000, ''Mesh networking is not enabled'')"

definition ipc_mesh_status :: "ext \<Rightarrow> json \<Rightarrow> 't ipc_world \<Rightarrow> rpc_outcome \<times> 't ipc_world" where
  "ipc_mesh_status E params w =
     (Inr (case mesh_of w of
        Some c \<Rightarrow> mesh_state_value E (cl_state c)
      | None \<Rightarrow> json_object [(''state'', JStr ''disabled''),
          (''message'', JStr ''Mesh networking is not enabled. Set [mesh] enabled = true in daemon.toml'')]), w)"

definition ipc_mesh_connect :: "ext \<Rightarrow> 't ipc_env \<Rightarrow> json \<Rightarrow> 't ipc_world \<Rightarrow> rpc_outcome \<times> 't ipc_world" where
  "ipc_mesh_connect E N params w =
     (case mesh_of w of
        None \<Rightarrow> (mesh_off, w)
      | Some c \<Rightarrow>
          (let r = mesh_connect E (ie_disk N) (ie_transport N) (ie_mesh_env N) c
           in (answered N ''Mesh connection failed: '' (bind_res (fst r) (\<lambda>_. Inr (json_object [(''status'', JStr ''connected'')]))),
               set_mesh w (snd r))))"

definition ipc_mesh_disconnect :: "'t ipc_env \<Rightarrow> json \<Rightarrow> 't ipc_world \<Rightarrow> rpc_outcome \<times> 't ipc_world" where
  "ipc_mesh_disconnect N params w =
     (case mesh_of w of
        None \<Rightarrow> (mesh_off, w)
      | Some c \<Rightarrow> (Inr (json_object [(''status'', JStr ''disconnected'')]),
                    set_mesh w (mesh_disconnect (me_wg_conf_exists (ie_mesh_env N)) c)))"

definition ipc_mesh_peers :: "ext \<Rightarrow> 't ipc_env \<Rightarrow> json \<Rightarrow> 't ipc_world \<Rightarrow> rpc_outcome \<times> 't ipc_world" where
  "ipc_mesh_peers E N params w =
     (case mesh_of w of
        None \<Rightarrow> (Inr (json_object [(''peers'', JArr [])]), w)
      | Some c \<Rightarrow>
          (let r = mesh_list_peers (ie_transport N) c
           in (answered N ''Failed to list peers: ''
                 (bind_res (fst r) (\<lambda>ps. Inr (json_object [(''peers'', JArr (map (mesh_peer_value E) ps))]))), set_mesh w (snd r))))"

definition ipc_mesh_ping :: "'t ipc_env \<Rightarrow> json \<Rightarrow> 't ipc_world \<Rightarrow> rpc_outcome \<times> 't ipc_world" where
  "ipc_mesh_ping N params w =
     (let did = name_param params ''did''
      in if did = [] then (missing_param ''did'', w)
         else case mesh_of w of
           None \<Rightarrow> (mesh_off, w)
         | Some c \<Rightarrow>
             (let r = mesh_ping (ie_transport N) c did
              in (answered N ''Ping failed: '' (bind_res (fst r) (\<lambda>p. Inr (ping_value p))), set_mesh w (snd r))))"

subsection \<open>Templates\<close>

definition ipc_templates_list :: "'t ipc_env \<Rightarrow> json \<Rightarrow> 't ipc_world \<Rightarrow> rpc_outcome \<times> 't ipc_world" where
  "ipc_templates_list N params w =
     (answered N ''Failed to list templates: ''
        (bind_res (list_local (ue_manifest (ie_update N)) (ie_templates N) (ue_entries (ie_update N)) (files_of w)) (\<lambda>ts.
         Inr (json_object [(''templates'', JArr (map (\<lambda>t. json_object
           [(''name'', JStr (ts_name t)), (''version'', JStr (ts_version t)), (''description'', JStr (ts_description t)),
            (''has_manifest'', JBool (ts_has_manifest t))]) ts))]))), w)"

definition ipc_templates_inspect :: "'t ipc_env \<Rightarrow> json \<Rightarrow> 't ipc_world \<Rightarrow> rpc_outcome \<times> 't ipc_world" where
  "ipc_templates_inspect N params w =
     (let name = name_param params ''name''
      in (if name = [] then missing_param ''name''
          else case get_template (ue_manifest (ie_update N)) (ie_templates N) name (files_of w) of
            Inr (Some m) \<Rightarrow> Inr (manifest_value m)
          | Inr None \<Rightarrow> Inl (-32001, ''Template '' @ q_name name @ '' not found'')
          | Inl e \<Rightarrow> Inl (-32000, ''Failed to inspect template: '' @ ie_err N e), w))"

definition ipc_templates_install :: "'t ipc_env \<Rightarrow> json \<Rightarrow> 't ipc_world \<Rightarrow> rpc_outcome \<times> 't ipc_world" where
  "ipc_templates_install N params w =
     (let name = name_param params ''name'';
          version = (case get_str params ''version'' of Some v \<Rightarrow> v | None \<Rightarrow> ''latest'');
          U = ie_update N
      in if name = [] then (missing_param ''name'', w)
         else let r = install_template (ue_io U) (ue_archive U) (ue_tar U) (ie_templates N) name version (files_of w)
              in (answered N ''Install failed: '' (bind_res (fst r) (\<lambda>_. Inr (json_object
                    [(''status'', JStr ''installed''), (''template'', JStr name), (''version'', JStr version)]))), set_files w (snd r)))"

definition ipc_templates_create :: "'t ipc_env \<Rightarrow> json \<Rightarrow> 't ipc_world \<Rightarrow> rpc_outcome \<times> 't ipc_world" where
  "ipc_templates_create N params w =
     (let name = name_param params ''name''; source = name_param params ''source''; U = ie_update N
      in if name = [] \<or> source = []
         then (Inl (-32602, ''Missing '' @ q_name ''name'' @ '' or '' @ q_name ''source'' @ '' parameter''), w)
         else let r = create_from_local (ue_io U) (ue_manifest U) (ie_templates N) name source (ie_source N source) (files_of w)
              in (answered N ''Create failed: '' (bind_res (fst r) (\<lambda>_. Inr (json_object
                    [(''status'', JStr ''created''), (''template'', JStr name)]))), set_files w (snd r)))"

subsection \<open>Audit, updates and licence\<close>

definition ipc_audit_query :: "ext \<Rightarrow> 't ipc_env \<Rightarrow> json \<Rightarrow> 't ipc_world \<Rightarrow> rpc_outcome \<times> 't ipc_world" where
  "ipc_audit_query E N params w =
     (let name = name_param params ''name'';
          check = (case Option.bind (json_get params ''verify'') as_bool of Some b \<Rightarrow> b | None \<Rightarrow> False)
      in (if name = [] then missing_param ''name''
          else answered N ''Audit query failed: ''
                 (daemon_query_audit E (ie_audit N) (ie_now N) (agents_of w) name (u64_param params ''last'' 20) check), w))"

definition ipc_update_check :: "ext \<Rightarrow> 't ipc_env \<Rightarrow> json \<Rightarrow> 't ipc_world \<Rightarrow> rpc_outcome \<times> 't ipc_world" where
  "ipc_update_check E N params w =
     (case iw_updates w of
        None \<Rightarrow> (Inr (json_object [(''available_updates'', JArr []), (''message'', JStr ''Update checker not initialized'')]), w)
      | Some c \<Rightarrow>
          (let r = check_updates E (ie_update N) (files_of w) c
           in (answered N ''Update check failed: '' (bind_res (fst r) (\<lambda>u. Inr (update_result_value E u))),
               w\<lparr>iw_updates := Some (snd r)\<rparr>)))"

definition ipc_update_apply :: "'t ipc_env \<Rightarrow> json \<Rightarrow> 't ipc_world \<Rightarrow> rpc_outcome \<times> 't ipc_world" where
  "ipc_update_apply N params w =
     (case iw_updates w of
        None \<Rightarrow> (Inl (-32000, ''Update checker not initialized''), w)
      | Some c \<Rightarrow>
          (let r = apply_template_updates (ie_update N) c (files_of w)
           in (Inr (json_object [(''applied'', json_strings (fst r)), (''count'', JNum (int (length (fst r))))]), set_files w (snd r))))"

definition ipc_update_status :: "ext \<Rightarrow> json \<Rightarrow> 't ipc_world \<Rightarrow> rpc_outcome \<times> 't ipc_world" where
  "ipc_update_status E params w =
     (Inr (json_object [(''available_updates'', JArr (case iw_updates w of
        None \<Rightarrow> [] | Some c \<Rightarrow> map (update_info_value E) (get_status c)))]), w)"

definition ipc_license_status :: "ext \<Rightarrow> 't ipc_env \<Rightarrow> json \<Rightarrow> 't ipc_world \<Rightarrow> rpc_outcome \<times> 't ipc_world" where
  "ipc_license_status E N params w =
     (let lic = load_license E (ie_disk N); lim = st_limits lic
      in (Inr (json_object
            [(''tier'', JStr (license_tier_display (st_tier lic))),
             (''licensee'', JStr (case st_licensee_email lic of Some e \<Rightarrow> e | None \<Rightarrow> ''(free tier)'')),
             (''agent_count'', JNum (uint (count_agents (ie_agent_dirs N)))), (''max_agents'', u32_value (max_agents lim)),
             (''max_mesh_nodes'', u32_value (max_mesh_nodes lim)), (''max_proxies'', u32_value (max_proxy_agents lim)),
             (''features'', json_strings (map license_feature_display (features lim)))]), w))"

subsection \<open>OAuth\<close>

text \<open>
  An agent's directory as the OAuth methods see it, and its store written back.  That a directory
  stands in the place of the store is not considered.
\<close>

definition store_tmp_path :: "string \<Rightarrow> string" where
  "store_tmp_path agent_dir = identity_file agent_dir ''oauth-tokens.enc.tmp''"

definition home_of :: "string \<Rightarrow> string \<Rightarrow> fs \<Rightarrow> agent_home" where
  "home_of root name fs =
     (let dir = agent_dir_of root name
      in \<lparr>home_pem = read_if_exists (identity_file dir ''agent.pem'') fs,
          home_store = \<lparr>store_file = file_at (store_path dir) fs, tmp_file = file_at (store_tmp_path dir) fs\<rparr>,
          home_card = read_at (identity_file dir ''agent-card.json'') fs\<rparr>)"

definition put_file :: "string \<Rightarrow> bytes option \<Rightarrow> fs \<Rightarrow> fs" where
  "put_file p b fs = (if file_at p fs = b then fs else fs(p := map_option File b))"

definition put_store :: "string \<Rightarrow> string \<Rightarrow> store_files \<Rightarrow> fs \<Rightarrow> fs" where
  "put_store root name s fs =
     (let dir = agent_dir_of root name
      in put_file (store_path dir) (store_file s) (put_file (store_tmp_path dir) (tmp_file s) fs))"

definition oauth_call ::
    "'t ipc_env \<Rightarrow> string \<Rightarrow> (agent_home \<Rightarrow> json result \<times> agent_home) \<Rightarrow> json \<Rightarrow> 't ipc_world \<Rightarrow> rpc_outcome \<times> 't ipc_world" where
  "oauth_call N meth f params w =
     (if \<not> os_enabled (dc_oauth (ie_config N)) then (Inl (-32000, ''OAuth bridge is disabled''), w)
      else let name = name_param params ''agent'';
               r = f (home_of (ie_root N) name (files_of w))
           in (answered N (meth @ '' failed: '') (fst r),
               set_files w (put_store (ie_root N) name (home_store (snd r)) (files_of w))))"

definition ipc_oauth_register :: "ext \<Rightarrow> 't ipc_env \<Rightarrow> json \<Rightarrow> 't ipc_world \<Rightarrow> rpc_outcome \<times> 't ipc_world" where
  "ipc_oauth_register E N params = oauth_call N ''oauth.register'' (oauth_register E (ie_vault N) (ie_oauth N) params) params"

definition ipc_oauth_authorize :: "ext \<Rightarrow> 't ipc_env \<Rightarrow> json \<Rightarrow> 't ipc_world \<Rightarrow> rpc_outcome \<times> 't ipc_world" where
  "ipc_oauth_authorize E N params = oauth_call N ''oauth.authorize''
     (\<lambda>h. let r = oauth_authorize E (ie_vault N) (ie_flow N) (ie_oauth N) (os_callback_port (dc_oauth (ie_config N)))
                   (name_param params ''registration_id'') h
          in (bind_res (fst r) (\<lambda>v. Inr (authorize_value v)), snd r)) params"

definition ipc_oauth_callback :: "ext \<Rightarrow> 't ipc_env \<Rightarrow> json \<Rightarrow> 't ipc_world \<Rightarrow> rpc_outcome \<times> 't ipc_world" where
  "ipc_oauth_callback E N params = oauth_call N ''oauth.callback''
     (oauth_callback E (ie_vault N) (ie_oauth N) (name_param params ''registration_id'') (name_param params ''code'')
        (name_param params ''code_verifier'') (name_param params ''redirect_uri'')) params"

definition ipc_oauth_refresh :: "ext \<Rightarrow> 't ipc_env \<Rightarrow> json \<Rightarrow> 't ipc_world \<Rightarrow> rpc_outcome \<times> 't ipc_world" where
  "ipc_oauth_refresh E N params = oauth_call N ''oauth.refresh''
     (oauth_refresh E (ie_vault N) (ie_oauth N) (name_param params ''registration_id'')) params"

definition ipc_oauth_revoke :: "ext \<Rightarrow> 't ipc_env \<Rightarrow> json \<Rightarrow> 't ipc_world \<Rightarrow> rpc_outcome \<times> 't ipc_world" where
  "ipc_oauth_revoke E N params = oauth_call N ''oauth.revoke''
     (oauth_revoke E (ie_vault N) (ie_oauth N) (name_param params ''registration_id'')) params"

definition ipc_oauth_list :: "ext \<Rightarrow> 't ipc_env \<Rightarrow> json \<Rightarrow> 't ipc_world \<Rightarrow> rpc_outcome \<times> 't ipc_world" where
  "ipc_oauth_list E N params = oauth_call N ''oauth.list'' (\<lambda>h. (oauth_list E (ie_vault N) (ie_oauth N) h, h)) params"

definition ipc_oauth_status :: "ext \<Rightarrow> 't ipc_env \<Rightarrow> json \<Rightarrow> 't ipc_world \<Rightarrow> rpc_outcome \<times> 't ipc_world" where
  "ipc_oauth_status E N params = oauth_call N ''oauth.status''
     (\<lambda>h. (oauth_status E (ie_vault N) (ie_oauth N) (get_str params ''registration_id'') h, h)) params"

definition ipc_oauth_exchange :: "ext \<Rightarrow> 't ipc_env \<Rightarrow> json \<Rightarrow> 't ipc_world \<Rightarrow> rpc_outcome \<times> 't ipc_world" where
  "ipc_oauth_exchange E N params w =
     (if \<not> os_enabled (dc_oauth (ie_config N)) \<or> \<not> os_allow_token_exchange (dc_oauth (ie_config N))
      then (Inl (-32000, ''OAuth token exchange is disabled''), w)
      else oauth_call N ''oauth.exchange''
             (oauth_exchange E (ie_vault N) (ie_oauth N) (name_param params ''registration_id'')) params w)"

subsection \<open>Dispatch\<close>

definition read_methods :: "ext \<Rightarrow> 't ipc_env \<Rightarrow> (string \<times> (json \<Rightarrow> 't ipc_world \<Rightarrow> rpc_outcome \<times> 't ipc_world)) list" where
  "read_methods E N =
     [(''status'', ipc_status E N), (''agents.list'', ipc_agents_list E), (''agents.get'', ipc_agents_get E),
      (''agents.logs'', ipc_agents_logs N), (''mesh.status'', ipc_mesh_status E), (''templates.list'', ipc_templates_list N),
      (''templates.inspect'', ipc_templates_inspect N), (''audit.query'', ipc_audit_query E N),
      (''update.status'', ipc_update_status E), (''license.status'', ipc_license_status E N),
      (''oauth.list'', ipc_oauth_list E N), (''oauth.status'', ipc_oauth_status E N)]"

definition agent_methods :: "ext \<Rightarrow> 't ipc_env \<Rightarrow> (string \<times> (json \<Rightarrow> 't ipc_world \<Rightarrow> rpc_outcome \<times> 't ipc_world)) list" where
  "agent_methods E N =
     [(''birth'', ipc_birth E N), (''agents.start'', ipc_agents_start E N), (''agents.stop'', ipc_agents_stop N),
      (''agents.delete'', ipc_agents_delete N)]"

definition other_methods :: "ext \<Rightarrow> 't ipc_env \<Rightarrow> (string \<times> (json \<Rightarrow> 't ipc_world \<Rightarrow> rpc_outcome \<times> 't ipc_world)) list" where
  "other_methods E N =
     [(''shutdown'', ipc_shutdown), (''mesh.connect'', ipc_mesh_connect E N), (''mesh.disconnect'', ipc_mesh_disconnect N),
      (''mesh.peers'', ipc_mesh_peers E N), (''mesh.ping'', ipc_mesh_ping N), (''templates.install'', ipc_templates_install N),
      (''templates.create'', ipc_templates_create N), (''update.check'', ipc_update_check E N), (''update.apply'', ipc_update_apply N)]"

definition oauth_methods :: "ext \<Rightarrow> 't ipc_env \<Rightarrow> (string \<times> (json \<Rightarrow> 't ipc_world \<Rightarrow> rpc_outcome \<times> 't ipc_world)) list" where
  "oauth_methods E N =
     [(''oauth.register'', ipc_oauth_register E N), (''oauth.authorize'', ipc_oauth_authorize E N),
      (''oauth.callback'', ipc_oauth_callback E N), (''oauth.refresh'', ipc_oauth_refresh E N),
      (''oauth.revoke'', ipc_oauth_revoke E N), (''oauth.exchange'', ipc_oauth_exchange E N)]"

definition ipc_methods :: "ext \<Rightarrow> 't ipc_env \<Rightarrow> (string \<times> (json \<Rightarrow> 't ipc_world \<Rightarrow> rpc_outcome \<times> 't ipc_world)) list" where
  "ipc_methods E N = read_methods E N @ agent_methods E N @ other_methods E N @ oauth_methods E N"

definition ipc_dispatch :: "ext \<Rightarrow> 't ipc_env \<Rightarrow> rpc_req \<Rightarrow> 't ipc_world \<Rightarrow> rpc_response \<times> 't ipc_world" where
  "ipc_dispatch E N rq w =
     (case map_of (ipc_methods E N) (rq_method rq) of
        Some handler \<Rightarrow> (let r = handler (rq_params rq) w in (\<lparr>resp_id = rpc_id rq, resp_outcome = fst r\<rparr>, snd r))
      | None \<Rightarrow> (rpc_error (rpc_id rq) (-32601) (''Method not found: '' @ rq_method rq), w))"

text \<open>A connection: its lines, each with what the world outside is while it is handled.\<close>

definition ipc_line :: "ext \<Rightarrow> 't ipc_env \<Rightarrow> string \<Rightarrow> 't ipc_world \<Rightarrow> rpc_response option \<times> 't ipc_world" where
  "ipc_line E N line w =
     (let trimmed = trim line
      in if trimmed = [] then (None, w)
         else case Option.bind (json_parse E trimmed) request_from_json of
                Some rq \<Rightarrow> (let r = ipc_dispatch E N rq w in (Some (fst r), snd r))
              | None \<Rightarrow> (Some (rpc_error None (-32700) (''Parse error: '' @ ie_err N (ParseError trimmed))), w))"

definition response_line :: "ext \<Rightarrow> rpc_response \<Rightarrow> string" where
  "response_line E r = json_text (json_quote E) (rpc_response_json r) @ [nl]"

fun handle_connection :: "ext \<Rightarrow> ('t ipc_env \<times> string) list \<Rightarrow> 't ipc_world \<Rightarrow> rpc_response list \<times> 't ipc_world" where
  "handle_connection E [] w = ([], w)"
| "handle_connection E ((N, line) # ls) w =
     (let r = ipc_line E N line w; rest = handle_connection E ls (snd r)
      in (case fst r of None \<Rightarrow> fst rest | Some a \<Rightarrow> a # fst rest, snd rest))"

text \<open>A world for the witnesses: every system call succeeds, nothing answers.\<close>

definition demo_ipc_env :: "mock ipc_env" where
  "demo_ipc_env = \<lparr>ie_config = default_daemon_config, ie_root = ''r'', ie_version = ''1'', ie_uptime = 0, ie_now = 0, ie_disk = None,
     ie_agent_dirs = None, ie_templates = demo_templates, ie_birth_lib = demo_birth_lib, ie_birth_env = demo_birth_env,
     ie_transport = mock_transport, ie_mesh_env = demo_mesh_env, ie_start = demo_start 7, ie_kept = (\<lambda>_. False), ie_vault = nat_vault,
     ie_flow = \<lparr>urlencode = (\<lambda>s. s), b64url = nibbles\<rparr>, ie_oauth = OAuth_Flow.demo_env (\<lambda>_. Inl (IoError [])),
     ie_update = demo_update_env, ie_source = (\<lambda>_. None), ie_audit = (\<lambda>_. None), ie_err = (\<lambda>_. [])\<rparr>"

definition demo_world :: "mock ipc_world" where
  "demo_world = daemon_new None [''r/agents'' \<mapsto> Dir, ''r/agents/b/identity/agent.pem'' \<mapsto> File ''key'']"

definition demo_request :: "string \<Rightarrow> json \<Rightarrow> rpc_req" where
  "demo_request meth params = \<lparr>rq_jsonrpc = ''2.0'', rq_id = JNum 1, rq_method = meth, rq_params = params\<rparr>"

subsection \<open>Requests and answers\<close>

lemma dispatch_id [simp]: "resp_id (fst (ipc_dispatch E N rq w)) = rpc_id rq"
  by (auto simp: ipc_dispatch_def rpc_error_def Let_def split: option.split)

definition line_id :: "ext \<Rightarrow> string \<Rightarrow> json option" where
  "line_id E line = (case Option.bind (json_parse E (trim line)) request_from_json of Some rq \<Rightarrow> rpc_id rq | None \<Rightarrow> None)"

lemma ipc_line_answer:
  "map_option resp_id (fst (ipc_line E N line w)) = (if trim line = [] then None else Some (line_id E line))"
  by (cases "Option.bind (json_parse E (trim line)) request_from_json")
     (simp_all add: ipc_line_def line_id_def rpc_error_def Let_def)

text \<open>
  A connection is answered line by line.  Every line that is not blank gets exactly one answer,
  in the order of the lines and under the identifier of its request, whatever the line, the method
  and the state.
\<close>

theorem ipc_answers_each_line:
  "map resp_id (fst (handle_connection E ls w)) = map (\<lambda>(N, line). line_id E line) (filter (\<lambda>(N, line). trim line \<noteq> []) ls)"
proof (induction ls arbitrary: w)
  case (Cons l ls)
  obtain N line where l: "l = (N, line)" by (cases l)
  show ?case using ipc_line_answer [of E N line w] Cons [of "snd (ipc_line E N line w)"] unfolding l
    by (cases "fst (ipc_line E N line w)") (auto simp: Let_def split: if_splits)
qed simp

text \<open>A line that is no request, or names no method, changes nothing.\<close>

lemma ipc_unknown_method:
  assumes "rq_method rq \<notin> fst ` set (ipc_methods E N)"
  shows "ipc_dispatch E N rq w = (rpc_error (rpc_id rq) (-32601) (''Method not found: '' @ rq_method rq), w)"
  using map_of_eq_None_iff [THEN iffD2, OF assms] by (simp add: ipc_dispatch_def)

lemma ipc_no_request: "Option.bind (json_parse E (trim line)) request_from_json = None \<Longrightarrow> snd (ipc_line E N line w) = w"
  by (simp add: ipc_line_def Let_def)

subsection \<open>Queries\<close>

lemma put_file_same [simp]: "put_file p (file_at p fs) fs = fs"
  by (simp add: put_file_def)

lemma put_store_same [simp]: "put_store root name (home_store (home_of root name fs)) fs = fs"
  by (simp add: put_store_def home_of_def Let_def)

lemma set_files_same [simp]: "set_files w (files_of w) = w"
  by (simp add: set_files_def)

lemma oauth_call_read:
  "(\<And>h. snd (f h) = h) \<Longrightarrow> snd (oauth_call N meth f params w) = w"
  by (simp add: oauth_call_def Let_def)

lemma read_method_pure: "(m, h) \<in> set (read_methods E N) \<Longrightarrow> snd (h params w) = w"
  by (auto simp: read_methods_def ipc_status_def ipc_agents_list_def ipc_agents_get_def ipc_agents_logs_def ipc_mesh_status_def
      ipc_templates_list_def ipc_templates_inspect_def ipc_audit_query_def ipc_update_status_def ipc_license_status_def
      ipc_oauth_list_def ipc_oauth_status_def oauth_call_read Let_def)

definition query_names :: "string list" where
  "query_names = [''status'', ''agents.list'', ''agents.get'', ''agents.logs'', ''mesh.status'', ''templates.list'', ''templates.inspect'',
     ''audit.query'', ''update.status'', ''license.status'', ''oauth.list'', ''oauth.status'']"

lemma query_names_eq: "map fst (read_methods E N) = query_names"
  by (simp add: read_methods_def query_names_def)

lemma map_of_append_mem: "k \<in> fst ` set xs \<Longrightarrow> map_of (xs @ ys) k = map_of xs k"
  by (auto simp: map_add_def map_of_eq_None_iff split: option.split)

text \<open>
  Queries change nothing.  None of the twelve reading methods changes the daemon: its agents,
  files, mesh connection, update checker and shutdown flag stay as they are, also when the query fails.
\<close>

theorem ipc_queries_pure:
  assumes "rq_method rq \<in> set query_names"
  shows "snd (ipc_dispatch E N rq w) = w"
proof -
  have "rq_method rq \<in> fst ` set (read_methods E N)" using assms query_names_eq [of E N] by (metis set_map)
  then have "map_of (ipc_methods E N) (rq_method rq) = map_of (read_methods E N) (rq_method rq)"
    unfolding ipc_methods_def by (rule map_of_append_mem)
  moreover obtain h where "map_of (read_methods E N) (rq_method rq) = Some h"
    using \<open>rq_method rq \<in> fst ` set (read_methods E N)\<close> by (metis map_of_eq_None_iff not_None_eq)
  ultimately show ?thesis using read_method_pure [OF map_of_SomeD] by (simp add: ipc_dispatch_def Let_def)
qed

theorem ipc_queries_pure_witness:
  "snd (ipc_dispatch ref_ext demo_ipc_env (demo_request ''agents.get'' (JObj [(''name'', JStr ''b'')])) demo_world) = demo_world"
  by (rule ipc_queries_pure) (simp add: query_names_def demo_request_def)

subsection \<open>OAuth methods\<close>

definition oauth_names :: "string list" where
  "oauth_names = [''oauth.register'', ''oauth.authorize'', ''oauth.callback'', ''oauth.refresh'', ''oauth.revoke'', ''oauth.exchange'',
     ''oauth.list'', ''oauth.status'']"

text \<open>What the OAuth methods have in common: their gate, and a call over the agent's directory.\<close>

definition oauth_shape :: "'t ipc_env \<Rightarrow> string \<Rightarrow> json \<Rightarrow> ('t ipc_world \<Rightarrow> rpc_outcome \<times> 't ipc_world) \<Rightarrow> bool" where
  "oauth_shape N m params h \<longleftrightarrow> (\<exists>meth f. \<forall>w. h w =
      (if m = ''oauth.exchange'' \<and> (\<not> os_enabled (dc_oauth (ie_config N)) \<or> \<not> os_allow_token_exchange (dc_oauth (ie_config N)))
       then (Inl (-32000, ''OAuth token exchange is disabled''), w) else oauth_call N meth f params w))"

lemma oauth_shapeI: "m \<noteq> ''oauth.exchange'' \<Longrightarrow> h = oauth_call N meth f params \<Longrightarrow> oauth_shape N m params h"
  unfolding oauth_shape_def by (intro exI [of _ meth] exI [of _ f]) simp

lemma oauth_exchange_shape: "oauth_shape N ''oauth.exchange'' params (ipc_oauth_exchange E N params)"
  unfolding oauth_shape_def ipc_oauth_exchange_def
  by (intro exI [of _ "''oauth.exchange''"] exI [of _ "oauth_exchange E (ie_vault N) (ie_oauth N) (name_param params ''registration_id'')"])
     simp

lemma oauth_handler:
  assumes "m \<in> set oauth_names"
  obtains h where "map_of (ipc_methods E N) m = Some h" "oauth_shape N m params (h params)"
proof -
  have list: "map_of (ipc_methods E N) ''oauth.list'' = Some (ipc_oauth_list E N)"
    "map_of (ipc_methods E N) ''oauth.status'' = Some (ipc_oauth_status E N)"
    "map_of (ipc_methods E N) ''oauth.exchange'' = Some (ipc_oauth_exchange E N)"
    "map_of (ipc_methods E N) ''oauth.register'' = Some (ipc_oauth_register E N)"
    "map_of (ipc_methods E N) ''oauth.authorize'' = Some (ipc_oauth_authorize E N)"
    "map_of (ipc_methods E N) ''oauth.callback'' = Some (ipc_oauth_callback E N)"
    "map_of (ipc_methods E N) ''oauth.refresh'' = Some (ipc_oauth_refresh E N)"
    "map_of (ipc_methods E N) ''oauth.revoke'' = Some (ipc_oauth_revoke E N)"
    by (simp_all add: ipc_methods_def read_methods_def agent_methods_def other_methods_def oauth_methods_def)
  note shape = oauth_shapeI [OF _ ipc_oauth_list_def] oauth_shapeI [OF _ ipc_oauth_status_def] oauth_shapeI [OF _ ipc_oauth_register_def]
    oauth_shapeI [OF _ ipc_oauth_authorize_def] oauth_shapeI [OF _ ipc_oauth_callback_def] oauth_shapeI [OF _ ipc_oauth_refresh_def]
    oauth_shapeI [OF _ ipc_oauth_revoke_def] oauth_exchange_shape
  consider "m = ''oauth.list''" | "m = ''oauth.status''" | "m = ''oauth.exchange''" | "m = ''oauth.register''"
    | "m = ''oauth.authorize''" | "m = ''oauth.callback''" | "m = ''oauth.refresh''" | "m = ''oauth.revoke''"
    using assms unfolding oauth_names_def by fastforce
  then show thesis by cases (rule that, hypsubst, rule list, hypsubst, rule shape, simp?)+
qed

text \<open>
  The OAuth bridge can be switched off.  When the configuration disables it, each of its eight
  methods is refused and changes nothing; the exchange of an identity for a token also needs a
  permission of its own, which the default configuration does not give.
\<close>

theorem ipc_oauth_gate:
  assumes "rq_method rq \<in> set oauth_names"
    and "\<not> os_enabled (dc_oauth (ie_config N))
      \<or> rq_method rq = ''oauth.exchange'' \<and> \<not> os_allow_token_exchange (dc_oauth (ie_config N))"
  shows "snd (ipc_dispatch E N rq w) = w \<and> (\<exists>message. resp_outcome (fst (ipc_dispatch E N rq w)) = Inl (-32000, message))"
proof -
  obtain h where "map_of (ipc_methods E N) (rq_method rq) = Some h" "oauth_shape N (rq_method rq) (rq_params rq) (h (rq_params rq))"
    using oauth_handler [OF assms(1)] .
  then show ?thesis using assms(2) by (auto simp: ipc_dispatch_def oauth_shape_def oauth_call_def Let_def)
qed

theorem ipc_oauth_gate_witness:
  "snd (ipc_dispatch ref_ext demo_ipc_env (demo_request ''oauth.exchange'' (JObj [(''agent'', JStr ''b'')])) demo_world) = demo_world"
  by (rule ipc_oauth_gate [THEN conjunct1])
     (simp_all add: oauth_names_def demo_request_def demo_ipc_env_def default_daemon_config_def default_oauth_def)

lemma oauth_dispatch_frame:
  assumes "rq_method rq \<in> set oauth_names"
  shows "p \<noteq> store_path (agent_dir_of (ie_root N) (name_param (rq_params rq) ''agent'')) \<Longrightarrow>
      p \<noteq> store_tmp_path (agent_dir_of (ie_root N) (name_param (rq_params rq) ''agent'')) \<Longrightarrow>
      files_of (snd (ipc_dispatch E N rq w)) p = files_of w p"
    and "set_files (snd (ipc_dispatch E N rq w)) (files_of w) = w"
proof -
  obtain h where h: "map_of (ipc_methods E N) (rq_method rq) = Some h" "oauth_shape N (rq_method rq) (rq_params rq) (h (rq_params rq))"
    using oauth_handler [OF assms] .
  show "set_files (snd (ipc_dispatch E N rq w)) (files_of w) = w"
    using h by (auto simp: ipc_dispatch_def oauth_shape_def oauth_call_def set_files_def Let_def)
  have "put_store root name st fs q = fs q"
    if "q \<noteq> store_path (agent_dir_of root name)" "q \<noteq> store_tmp_path (agent_dir_of root name)" for root name st q and fs :: fs
    using that by (simp add: put_store_def put_file_def Let_def)
  then show "files_of (snd (ipc_dispatch E N rq w)) p = files_of w p"
    if "p \<noteq> store_path (agent_dir_of (ie_root N) (name_param (rq_params rq) ''agent''))"
      "p \<noteq> store_tmp_path (agent_dir_of (ie_root N) (name_param (rq_params rq) ''agent''))"
    using h that by (auto simp: ipc_dispatch_def oauth_shape_def oauth_call_def set_files_def Let_def)
qed

text \<open>Where the files of an agent's identity are.\<close>

lemma agent_file_path:
  assumes "n \<noteq> []" "CHR ''/'' \<notin> set n" "f \<noteq> []" "hd f \<noteq> CHR ''/''"
  shows "identity_file (agent_dir_of root n) f = path_join root ''agents'' @ ''/'' @ n @ ''/identity/'' @ f"
proof -
  have n: "\<not> starts_with n ''/''" "\<And>x. \<not> ends_with (x @ n) ''/''" "\<And>x. x @ n \<noteq> []"
    using assms(1,2) by (cases n, auto simp: starts_with_def, cases n rule: rev_cases, auto simp: ends_with_def)
  have "\<not> ends_with (path_join root ''agents'') ''/''" "path_join root ''agents'' \<noteq> []"
    by (auto simp: path_join_def starts_with_def ends_with_def)
  then have dir: "agent_dir_of root n = (path_join root ''agents'' @ ''/'') @ n"
    using n(1) unfolding agent_dir_of_def by (subst path_join_def) simp
  have f: "\<not> starts_with f ''/''" using assms(3,4) by (cases f) (auto simp: starts_with_def)
  have ident: "path_join (x @ n) ''identity'' = x @ n @ ''/identity''" for x
    using n by (simp add: path_join_def starts_with_def)
  have inner: "path_join (x @ n @ ''/identity'') f = x @ n @ ''/identity/'' @ f" for x
    using f by (simp add: path_join_def ends_with_def)
  show ?thesis unfolding identity_file_def dir ident inner by simp
qed

lemma agent_paths_differ:
  assumes "a \<noteq> []" "CHR ''/'' \<notin> set a" "b \<noteq> []" "CHR ''/'' \<notin> set b" "a \<noteq> b"
    and "f \<noteq> []" "hd f \<noteq> CHR ''/''" "g \<noteq> []" "hd g \<noteq> CHR ''/''"
  shows "identity_file (agent_dir_of root a) f \<noteq> identity_file (agent_dir_of root b) g"
proof
  assume "identity_file (agent_dir_of root a) f = identity_file (agent_dir_of root b) g"
  then have "a @ ''/identity/'' @ f = b @ ''/identity/'' @ g" using assms by (simp add: agent_file_path)
  moreover have "takeWhile (\<lambda>c. c \<noteq> CHR ''/'') (x @ ''/identity/'' @ r) = x" if "CHR ''/'' \<notin> set x" for x r
    using that by (induction x) auto
  ultimately show False using assms(2,4,5) by metis
qed

text \<open>
  C22: an OAuth method stays in the directory it is named for.  It changes no agent, no connection and
  no file but the token store of the agent it names, and the file that store is first written to; what any
  other agent has of keys, tokens and card is the same after it.
\<close>

theorem ipc_oauth_isolated:
  assumes "rq_method rq \<in> set oauth_names" and "name_param (rq_params rq) ''agent'' = a"
    and "a \<noteq> []" "CHR ''/'' \<notin> set a" "b \<noteq> []" "CHR ''/'' \<notin> set b" "a \<noteq> b"
  shows "set_files (snd (ipc_dispatch E N rq w)) (files_of w) = w
    \<and> (\<forall>p. p \<notin> {store_path (agent_dir_of (ie_root N) a), store_tmp_path (agent_dir_of (ie_root N) a)} \<longrightarrow>
          files_of (snd (ipc_dispatch E N rq w)) p = files_of w p)
    \<and> home_of (ie_root N) b (files_of (snd (ipc_dispatch E N rq w))) = home_of (ie_root N) b (files_of w)"
proof -
  let ?fs = "files_of (snd (ipc_dispatch E N rq w))"
  have "identity_file (agent_dir_of (ie_root N) b) f \<noteq> store_path (agent_dir_of (ie_root N) a)"
    "identity_file (agent_dir_of (ie_root N) b) f \<noteq> store_tmp_path (agent_dir_of (ie_root N) a)" if "f \<noteq> []" "hd f \<noteq> CHR ''/''" for f
    unfolding store_path_def store_tmp_path_def using assms(3-7) that by (intro agent_paths_differ; simp)+
  then have same: "?fs (identity_file (agent_dir_of (ie_root N) b) f) = files_of w (identity_file (agent_dir_of (ie_root N) b) f)"
    if "f \<noteq> []" "hd f \<noteq> CHR ''/''" for f
    using oauth_dispatch_frame(1) [OF assms(1)] assms(2) that by metis
  have "home_of (ie_root N) b ?fs = home_of (ie_root N) b (files_of w)"
    by (simp add: home_of_def read_if_exists_def exists_at_def read_at_def file_at_def store_path_def store_tmp_path_def same Let_def)
  then show ?thesis using oauth_dispatch_frame [OF assms(1)] assms(2) by auto
qed

theorem ipc_oauth_isolated_witness:
  "home_of ''r'' ''b'' (files_of (snd (ipc_dispatch ref_ext demo_ipc_env (demo_request ''oauth.revoke'' (JObj [(''agent'', JStr ''a'')])) demo_world)))
     = home_of ''r'' ''b'' (files_of demo_world)"
proof -
  have "home_of (ie_root demo_ipc_env) ''b'' (files_of (snd (ipc_dispatch ref_ext demo_ipc_env (demo_request ''oauth.revoke'' (JObj [(''agent'', JStr ''a'')])) demo_world)))
     = home_of (ie_root demo_ipc_env) ''b'' (files_of demo_world)"
    by (rule ipc_oauth_isolated [of _ "''a''", THEN conjunct2, THEN conjunct2])
       (simp_all add: oauth_names_def name_param_def get_str_def demo_request_def)
  then show ?thesis by (simp add: demo_ipc_env_def)
qed

subsection \<open>Deleting\<close>

lemma dispatch_at:
  "map_of (ipc_methods E N) (rq_method rq) = Some h \<Longrightarrow>
     fst (ipc_dispatch E N rq w) = \<lparr>resp_id = rpc_id rq, resp_outcome = fst (h (rq_params rq) w)\<rparr>
     \<and> snd (ipc_dispatch E N rq w) = snd (h (rq_params rq) w)"
  by (simp add: ipc_dispatch_def Let_def)

lemma unnamed_dir: "no_slash (agent_dir_of root []) = path_join root ''agents''"
proof -
  have "\<not> ends_with (path_join root ''agents'') ''/''" "path_join root ''agents'' \<noteq> []" "last (path_join root ''agents'') = CHR ''s''"
    by (auto simp: path_join_def starts_with_def ends_with_def)
  then show ?thesis
    by (cases "path_join root ''agents''" rule: rev_cases)
       (simp_all add: agent_dir_of_def no_slash_def trim_end_matches_def path_join_def [of _ "[]"] starts_with_def)
qed

text \<open>
  A deletion that names no agent deletes them all.  Without a name the directory of the agent is
  the directory of the agents: everything in it is removed, keys, cards, stores and logs of every
  agent, and the answer is that the agent with the empty name was deleted.  The table keeps the agents,
  whose processes go on without their files.
\<close>

theorem ipc_delete_unnamed:
  assumes "rq_method rq = ''agents.delete''" and "get_str (rq_params rq) ''name'' = None"
    and "files_of w (path_join (ie_root N) ''agents'') = Some Dir" and "bl_io (ie_birth_lib N) (path_join (ie_root N) ''agents'') = Inr ()"
    and "map_of (sup_agents (agents_of w)) [] = None"
  shows "resp_outcome (fst (ipc_dispatch E N rq w)) = Inr (done_value ''deleted'' [])
    \<and> (\<forall>p. files_of (snd (ipc_dispatch E N rq w)) p
          = (if under_path (path_join (ie_root N) ''agents'') p then None else files_of w p))
    \<and> agents_of (snd (ipc_dispatch E N rq w)) = agents_of w"
proof -
  have h: "map_of (ipc_methods E N) (rq_method rq) = Some (ipc_agents_delete N)"
    unfolding assms(1) by (simp add: ipc_methods_def read_methods_def agent_methods_def)
  have rm: "remove_agent_dir N [] (files_of w)
      = (Inr (), \<lambda>p. if under_path (path_join (ie_root N) ''agents'') p then None else files_of w p)"
    using assms(3,4) by (simp add: remove_agent_dir_def unnamed_dir with_fs_def exists_at_def remove_dir_all_def Let_def)
  have "filter (\<lambda>na. fst na \<noteq> []) (sup_agents (agents_of w)) = sup_agents (agents_of w)"
    using assms(5) by (intro filter_True ballI) (force simp: map_of_eq_None_iff)
  then have del: "delete_agent (Inr ()) [] (agents_of w) = (Inr (), agents_of w)"
    using assms(5) by (simp add: delete_agent_def stop_agent_def)
  have "name_param (rq_params rq) ''name'' = []" using assms(2) by (simp add: name_param_def)
  then show ?thesis using dispatch_at [OF h]
    by (simp add: ipc_agents_delete_def rm del answered_def set_files_def set_agents_def Let_def)
qed

theorem ipc_delete_unnamed_witness:
  "files_of demo_world ''r/agents/b/identity/agent.pem'' \<noteq> None
   \<and> files_of (snd (ipc_dispatch ref_ext demo_ipc_env (demo_request ''agents.delete'' JNull) demo_world)) ''r/agents/b/identity/agent.pem'' = None"
proof -
  have root: "path_join (ie_root demo_ipc_env) ''agents'' = ''r/agents''"
    by (simp add: demo_ipc_env_def path_join_def starts_with_def ends_with_def)
  have io: "bl_io (ie_birth_lib demo_ipc_env) p = Inr ()" for p by (simp add: demo_ipc_env_def demo_birth_lib_def)
  have "\<forall>p. files_of (snd (ipc_dispatch ref_ext demo_ipc_env (demo_request ''agents.delete'' JNull) demo_world)) p
      = (if under_path (path_join (ie_root demo_ipc_env) ''agents'') p then None else files_of demo_world p)"
    by (rule ipc_delete_unnamed [THEN conjunct2, THEN conjunct1])
       (simp_all only: root io, simp_all add: demo_request_def demo_world_def daemon_new_def supervisor_new_def get_str_def)
  then show ?thesis by (simp add: root under_path_def starts_with_def demo_world_def daemon_new_def)
qed

subsection \<open>The supervisor under the requests\<close>

definition os_fresh :: "'t ipc_env \<Rightarrow> 't ipc_world \<Rightarrow> bool" where
  "os_fresh N w \<longleftrightarrow> (\<forall>pid. se_spawn (ie_start N) = Inr pid \<longrightarrow> pid \<notin> set (os_children (agents_of w)))
     \<and> (\<forall>port task. se_bind (ie_start N) = Inr (port, task) \<longrightarrow> task \<notin> fst ` set (os_proxies (agents_of w)))"

lemma other_methods_agents: "(m, h) \<in> set (other_methods E N) \<Longrightarrow> agents_of (snd (h params w)) = agents_of w"
  by (auto simp: other_methods_def ipc_shutdown_def request_shutdown_def ipc_mesh_connect_def ipc_mesh_disconnect_def ipc_mesh_peers_def
      ipc_mesh_ping_def ipc_templates_install_def ipc_templates_create_def ipc_update_check_def ipc_update_apply_def
      set_mesh_def set_files_def Let_def split: option.splits)

lemma birth_agents:
  "dw_supervisor (snd (daemon_birth_agent E disk config L V root T reg params d)) = dw_supervisor d
   \<or> (\<exists>files c. dw_supervisor (snd (daemon_birth_agent E disk config L V root T reg params d)) = snd (register files c (dw_supervisor d)))"
  by (auto simp: daemon_birth_agent_def finish_birth_def register_born_def Let_def split: sum.splits prod.splits)

lemma agent_methods_step:
  assumes "(m, h) \<in> set (agent_methods E N)" "os_fresh N w"
  shows "agents_of (snd (h params w)) = agents_of w \<or> sup_step E (ie_vault N) (agents_of w) (agents_of (snd (h params w)))"
proof -
  have "sup_step E (ie_vault N) (agents_of w) (agents_of (snd (ipc_agents_start E N params w)))"
    using sup_start [of "start_env_of N (name_param params ''name'') (files_of w)" "agents_of w"] assms(2)
    by (simp add: ipc_agents_start_def os_fresh_def start_env_of_def set_agents_def Let_def)
  moreover have "sup_step E (ie_vault N) (agents_of w) (agents_of (snd (ipc_agents_stop N params w)))"
    by (simp add: ipc_agents_stop_def set_agents_def sup_stop Let_def)
  moreover have "sup_step E (ie_vault N) (agents_of w) (agents_of (snd (ipc_agents_delete N params w)))"
    by (simp add: ipc_agents_delete_def set_agents_def set_files_def sup_delete Let_def)
  moreover have "agents_of (snd (ipc_birth E N params w)) = agents_of w
      \<or> sup_step E (ie_vault N) (agents_of w) (agents_of (snd (ipc_birth E N params w)))"
    using birth_agents sup_register by (fastforce simp: ipc_birth_def Let_def split: sum.splits)
  ultimately show ?thesis using assms(1) by (auto simp: agent_methods_def)
qed

lemma dispatch_agents:
  assumes "os_fresh N w"
  shows "agents_of (snd (ipc_dispatch E N rq w)) = agents_of w
    \<or> sup_step E (ie_vault N) (agents_of w) (agents_of (snd (ipc_dispatch E N rq w)))"
proof (cases "map_of (ipc_methods E N) (rq_method rq)")
  case None
  then show ?thesis by (simp add: ipc_dispatch_def)
next
  case (Some h)
  consider "(rq_method rq, h) \<in> set (read_methods E N)" | "(rq_method rq, h) \<in> set (agent_methods E N)"
    | "(rq_method rq, h) \<in> set (other_methods E N)" | "(rq_method rq, h) \<in> set (oauth_methods E N)"
    using map_of_SomeD [OF Some] by (auto simp: ipc_methods_def)
  then show ?thesis
  proof cases
    case 4
    then have "rq_method rq \<in> set oauth_names" by (auto simp: oauth_methods_def oauth_names_def)
    from arg_cong [OF oauth_dispatch_frame(2) [OF this, of E N w], of agents_of] show ?thesis by (simp add: set_files_def)
  qed (use Some assms in \<open>simp_all add: dispatch_at read_method_pure other_methods_agents agent_methods_step\<close>)
qed

end
