(* ===== verification/Daemon_Main.thy ===== *)
theory Daemon_Main
  imports Ipc
begin

text \<open>
  The daemon's program, \<^verbatim>\<open>grokingclaw-daemon/src/main.rs\<close>: its command line, each command the request it
  sends over the control socket, the start of the daemon and its main loop.  At the end stands
  the daemon as a whole: control requests, agent-to-agent requests, health checks, restarts and background
  workers, in any order.
\<close>

subsection \<open>Commands\<close>

text \<open>A lifetime in seconds; arithmetic wraps as in a release build.\<close>

definition daemon_parse_ttl :: "string \<Rightarrow> int result" where
  "daemon_parse_ttl ttl0 =
     (let ttl = trim ttl0
      in if ttl = [] then Inr (30 * 24 * 3600)
         else let unit = last ttl
              in if 128 \<le> (of_char unit :: nat) then Inl (Panic ''byte index is not a char boundary'')
                 else bind_res (of_option (BadTtlNumber (butlast ttl)) (parse_i64 (butlast ttl))) (\<lambda>num.
                      if unit = CHR ''s'' then Inr num
                      else if unit = CHR ''m'' then Inr (wrap_i64 (num * 60))
                      else if unit = CHR ''h'' then Inr (wrap_i64 (num * 3600))
                      else if unit = CHR ''d'' then Inr (wrap_i64 (num * 86400))
                      else if unit = CHR ''w'' then Inr (wrap_i64 (num * 604800))
                      else Inl (BadTtlUnit [unit])))"

datatype daemon_command =
    CmdStop | CmdStatus | CmdLicense
  | CmdBirth string string "string option" "string option" "string option" "nat option" string
  | CmdAgentsList | CmdAgentsInspect string | CmdAgentsLogs string nat | CmdAgentsStart string | CmdAgentsStop string
  | CmdAgentsDelete string bool
  | CmdMeshStatus | CmdMeshConnect | CmdMeshDisconnect | CmdMeshPeers | CmdMeshPing string
  | CmdTemplatesList | CmdTemplatesInspect string | CmdTemplatesInstall string string | CmdTemplatesCreate string string
  | CmdAudit string nat bool
  | CmdUpdateCheck | CmdUpdateApply | CmdUpdateStatus

definition comma_list :: "string \<Rightarrow> string list" where
  "comma_list s = map trim (split_on (CHR '','') s)"

definition model_endpoint :: "string \<Rightarrow> string" where
  "model_endpoint p =
     (if p = ''ollama'' then ''http://localhost:11434''
      else if p = ''openai'' then ''https://api.openai.com/v1''
      else if p = ''anthropic'' then ''https://api.anthropic.com''
      else ''http://localhost:11434'')"

definition model_param :: "string option \<Rightarrow> json" where
  "model_param model =
     (case Option.bind model (split_once (CHR ''/'')) of
        None \<Rightarrow> JObj []
      | Some (p, m) \<Rightarrow> json_object [(''provider'', JStr p), (''model'', JStr m), (''endpoint'', JStr (model_endpoint p))])"

definition resources_param :: "nat option \<Rightarrow> json" where
  "resources_param memory = (case memory of None \<Rightarrow> JObj [] | Some m \<Rightarrow> json_object [(''memory_mb'', JNum (int m))])"

definition birth_command_params ::
    "string \<Rightarrow> string \<Rightarrow> string option \<Rightarrow> string option \<Rightarrow> string option \<Rightarrow> nat option \<Rightarrow> int \<Rightarrow> json" where
  "birth_command_params template name scope scopes model memory ttl_seconds =
     json_object
       [(''template'', JStr template), (''name'', JStr name),
        (''scope'', json_object
           [(''allowed_domains'', json_strings (case scope of None \<Rightarrow> [] | Some s \<Rightarrow> comma_list s)),
            (''allowed_scopes'', json_strings (case scopes of None \<Rightarrow> [''*''] | Some s \<Rightarrow> comma_list s)),
            (''ttl_seconds'', JNum ttl_seconds)]),
        (''model'', model_param model), (''resources'', resources_param memory)]"

definition named :: "string \<Rightarrow> json" where
  "named name = json_object [(''name'', JStr name)]"

text \<open>The method and the parameters of a command; a deletion without \<^verbatim>\<open>--force\<close> only warns.\<close>

fun command_request :: "daemon_command \<Rightarrow> (string \<times> json) result" where
  "command_request CmdStop = Inr (''shutdown'', JObj [])"
| "command_request CmdStatus = Inr (''status'', JObj [])"
| "command_request CmdLicense = Inr (''license.status'', JObj [])"
| "command_request (CmdBirth template name scope scopes model memory ttl) =
     bind_res (daemon_parse_ttl ttl) (\<lambda>ttl_seconds.
     Inr (''birth'', birth_command_params template name scope scopes model memory ttl_seconds))"
| "command_request CmdAgentsList = Inr (''agents.list'', JObj [])"
| "command_request (CmdAgentsInspect name) = Inr (''agents.get'', named name)"
| "command_request (CmdAgentsLogs name lines) = Inr (''agents.logs'', json_object [(''name'', JStr name), (''lines'', JNum (int lines))])"
| "command_request (CmdAgentsStart name) = Inr (''agents.start'', named name)"
| "command_request (CmdAgentsStop name) = Inr (''agents.stop'', named name)"
| "command_request (CmdAgentsDelete name force) =
     (if force then Inr (''agents.delete'', named name) else Inl (Prelude.Rejected ''Use --force to skip this confirmation.''))"
| "command_request CmdMeshStatus = Inr (''mesh.status'', JObj [])"
| "command_request CmdMeshConnect = Inr (''mesh.connect'', JObj [])"
| "command_request CmdMeshDisconnect = Inr (''mesh.disconnect'', JObj [])"
| "command_request CmdMeshPeers = Inr (''mesh.peers'', JObj [])"
| "command_request (CmdMeshPing did) = Inr (''mesh.ping'', json_object [(''did'', JStr did)])"
| "command_request CmdTemplatesList = Inr (''templates.list'', JObj [])"
| "command_request (CmdTemplatesInspect name) = Inr (''templates.inspect'', named name)"
| "command_request (CmdTemplatesInstall name version) =
     Inr (''templates.install'', json_object [(''name'', JStr name), (''version'', JStr version)])"
| "command_request (CmdTemplatesCreate name source) =
     Inr (''templates.create'', json_object [(''name'', JStr name), (''source'', JStr source)])"
| "command_request (CmdAudit name n check) =
     Inr (''audit.query'', json_object [(''name'', JStr name), (''last'', JNum (int n)), (''verify'', JBool check)])"
| "command_request CmdUpdateCheck = Inr (''update.check'', JObj [])"
| "command_request CmdUpdateApply = Inr (''update.apply'', JObj [])"
| "command_request CmdUpdateStatus = Inr (''update.status'', JObj [])"

subsection \<open>A command over the socket\<close>

definition request_value :: "string \<Rightarrow> json \<Rightarrow> json" where
  "request_value meth params = json_object
     [(''jsonrpc'', JStr ''2.0''), (''id'', JNum 1), (''method'', JStr meth), (''params'', params)]"

definition request_line :: "ext \<Rightarrow> string \<Rightarrow> json \<Rightarrow> string" where
  "request_line E meth params = json_text (json_quote E) (request_value meth params) @ [nl]"

text \<open>What the command makes of the answer: an error ends it with a message, a result is printed.\<close>

definition reply_of :: "json \<Rightarrow> json option result" where
  "reply_of response =
     (case json_get response ''error'' of
        Some e \<Rightarrow> Inl (Prelude.Rejected (case get_str e ''message'' of Some m \<Rightarrow> m | None \<Rightarrow> ''Unknown error''))
      | None \<Rightarrow> Inr (json_get response ''result''))"

definition cmd_ipc :: "ext \<Rightarrow> 't ipc_env \<Rightarrow> bool \<Rightarrow> string \<Rightarrow> json \<Rightarrow> 't ipc_world \<Rightarrow> json option result \<times> 't ipc_world" where
  "cmd_ipc E N socket_exists meth params w =
     (if \<not> socket_exists then (Inl (NotFound ''daemon''), w)
      else let a = ipc_line E N (request_line E meth params) w
           in case fst a of
                None \<Rightarrow> (Inl (ParseError ''response''), snd a)
              | Some r \<Rightarrow> (bind_res (of_option (ParseError ''response'') (json_parse E (trim (response_line E r)))) reply_of, snd a))"

definition run_command :: "ext \<Rightarrow> 't ipc_env \<Rightarrow> bool \<Rightarrow> daemon_command \<Rightarrow> 't ipc_world \<Rightarrow> json option result \<times> 't ipc_world" where
  "run_command E N socket_exists cmd w =
     (case command_request cmd of
        Inl e \<Rightarrow> (Inl e, w)
      | Inr (meth, params) \<Rightarrow> cmd_ipc E N socket_exists meth params w)"

subsection \<open>Starting\<close>

definition daemon_dirs :: "string list" where
  "daemon_dirs = [''agents'', ''templates'', ''identity'', ''mesh'', ''state'']"

definition daemon_mesh_config :: "daemon_config \<Rightarrow> string \<Rightarrow> mesh_config" where
  "daemon_mesh_config config root =
     \<lparr>mc_coordination_server = ms_coordination_server (dc_mesh config),
      mc_daemon_card_path = identity_file root ''daemon.card.json'', mc_daemon_key_path = identity_file root ''daemon.pem'',
      mc_wireguard_key_path = path_join (path_join root ''mesh'') ''wg-private.key'',
      mc_mesh_dir = path_join root ''mesh'', mc_auto_connect = ms_auto_connect (dc_mesh config)\<rparr>"

definition daemon_registry :: "daemon_config \<Rightarrow> string \<Rightarrow> template_registry" where
  "daemon_registry config root = \<lparr>registry_path = path_join root ''templates'', registry_url = rg_url (dc_registry config)\<rparr>"

text \<open>The files a start writes, once no daemon is running: directories, the pid file, the template registry.\<close>

definition start_files :: "io_faults \<Rightarrow> io_faults \<Rightarrow> (nat \<Rightarrow> bool) \<Rightarrow> string \<Rightarrow> daemon_config \<Rightarrow> string \<Rightarrow> nat \<Rightarrow> unit io_op" where
  "start_files io rm alive root config pid_file pid =
     then_io (check_already_running rm alive pid_file) (\<lambda>running.
     then_io (lift_io (require (running = None) (AlreadyRunning ''daemon''))) (\<lambda>_.
     then_io (each_io (\<lambda>d. create_dir_all io (path_join root d)) daemon_dirs) (\<lambda>_.
     then_io (write_pid_file io pid_file pid) (\<lambda>_.
     template_init io (daemon_registry config root)))))"

definition cmd_start ::
    "ext \<Rightarrow> headscale ipc_env \<Rightarrow> io_faults \<Rightarrow> (nat \<Rightarrow> bool) \<Rightarrow> string \<Rightarrow> nat \<Rightarrow> agent_config result option list result option \<Rightarrow> anchor_db option
     \<Rightarrow> fs \<Rightarrow> headscale ipc_world result \<times> fs" where
  "cmd_start E N rm alive pid_file pid agent_dirs anchors fs =
     (let config = ie_config N; root = ie_root N
      in case start_files (bl_io (ie_birth_lib N)) rm alive root config pid_file pid fs of
           (Inl e, fs') \<Rightarrow> (Inl e, fs')
         | (Inr _, fs') \<Rightarrow>
             (let mesh = (if ms_enabled (dc_mesh config) then Some (with_headscale (daemon_mesh_config config root)) else None);
                  loaded = sup_init agent_dirs supervisor_new
              in case fst loaded of
                   Inl e \<Rightarrow> (Inl e, fs')
                 | Inr _ \<Rightarrow>
                     (let mesh' = (case mesh of
                            Some c \<Rightarrow> Some (if ms_auto_connect (dc_mesh config)
                                            then snd (mesh_connect E (ie_disk N) (ie_transport N) (ie_mesh_env N) c) else c)
                          | None \<Rightarrow> None)
                      in (Inr \<lparr>iw_daemon = \<lparr>dw_supervisor = snd loaded, dw_fs = fs', dw_mesh = mesh'\<rparr>, iw_shutdown = False,
                             iw_updates = Some (update_checker_new config (daemon_registry config root) (rg_url (dc_registry config))),
                             iw_anchor = (if an_enabled (dc_anchoring config) then Some (anchor_new (dc_anchoring config) anchors) else None)\<rparr>,
                          fs'))))"

subsection \<open>The main loop\<close>

definition restart_agents :: "ext \<Rightarrow> (string \<Rightarrow> 't ipc_env) \<Rightarrow> string list \<Rightarrow> 't ipc_world \<Rightarrow> 't ipc_world" where
  "restart_agents E N names w =
     fold (\<lambda>name w. set_agents w (snd (start_agent E (ie_vault (N name)) (start_env_of (N name) name (files_of w)) name (agents_of w)))) names w"

text \<open>One turn: the loop ends when a shutdown was asked for, and breaks off when a check fails.\<close>

datatype turn = Goes_on | Shut_down | Failed_with error

definition main_turn :: "ext \<Rightarrow> (string \<Rightarrow> 't ipc_env) \<Rightarrow> health_env \<Rightarrow> 't ipc_world \<Rightarrow> turn \<times> 't ipc_world" where
  "main_turn E N h w =
     (if should_shutdown w then (Shut_down, set_agents w (stop_all (agents_of w)))
      else let r = check_health h (agents_of w); w1 = set_agents w (snd r)
           in case fst r of
                Inl e \<Rightarrow> (Failed_with e, w1)
              | Inr _ \<Rightarrow> (Goes_on, restart_agents E N (agents_needing_start (agents_of w1)) w1))"

text \<open>The end of a run: the files that cannot be removed stay, and that is not an error.\<close>

definition cleanup :: "io_faults \<Rightarrow> string \<Rightarrow> string \<Rightarrow> fs \<Rightarrow> fs" where
  "cleanup rm pid_file socket_file fs =
     (let fs1 = remove_pid_file rm pid_file fs
      in if exists_at socket_file fs1 then snd (remove_file rm socket_file fs1) else fs1)"

subsection \<open>The commands reach the daemon\<close>

lemma trim_json_object: "trim (json_text q (JObj kvs) @ [nl]) = json_text q (JObj kvs)" "trim (json_text q (JObj kvs)) = json_text q (JObj kvs)"
proof -
  have t: "trim (CHR ''{'' # x @ ''}'' @ [nl]) = CHR ''{'' # x @ ''}''" "trim (CHR ''{'' # x @ ''}'') = CHR ''{'' # x @ ''}''" for x
    by (simp_all add: trim_def trim_matches_def trim_start_matches_def trim_end_matches_def is_space_def)
  show "trim (json_text q (JObj kvs) @ [nl]) = json_text q (JObj kvs)" "trim (json_text q (JObj kvs)) = json_text q (JObj kvs)"
    using t by simp_all
qed

text \<open>Reading members does not depend on their order.\<close>

lemma struct_field_sort [simp]: "struct_field (sort_key fst kvs) k = struct_field kvs k" "opt_field (sort_key fst kvs) k = opt_field kvs k"
  by (simp_all add: struct_field_def opt_field_def sort_key_stable)

lemma map_of_insort: "map_of (insort_key fst x xs) = (map_of xs)(fst x \<mapsto> snd x)"
  by (induction xs) (auto simp: fun_eq_iff)

lemma map_of_sort [simp]: "map_of (sort_key fst kvs) = map_of kvs"
  by (induction kvs) (simp_all add: map_of_insort)

lemma json_get_object [simp]: "json_get (json_object kvs) k = map_of kvs k"
  by (simp add: json_object_def)

lemma request_read:
  "request_from_json (sort_members (request_value meth params)) =
     Some \<lparr>rq_jsonrpc = ''2.0'', rq_id = JNum 1, rq_method = meth, rq_params = sort_members params\<rparr>"
  by (simp add: request_value_def json_object_def request_from_json_def) (simp add: struct_field_def opt_field_def filter_map comp_def split_def sort_key_stable)

text \<open>The request as the daemon reads it.\<close>

definition read_request :: "string \<Rightarrow> json \<Rightarrow> rpc_req" where
  "read_request meth params = \<lparr>rq_jsonrpc = ''2.0'', rq_id = JNum 1, rq_method = meth, rq_params = sort_members params\<rparr>"

text \<open>One exchange over the socket, when both texts are read as the values they were written from.\<close>

lemma exchange:
  assumes "json_parse E (json_text (json_quote E) (request_value meth params)) = Some (sort_members (request_value meth params))"
    and "json_parse E (json_text (json_quote E) (rpc_response_json (fst (ipc_dispatch E N (read_request meth params) w))))
      = Some (sort_members (rpc_response_json (fst (ipc_dispatch E N (read_request meth params) w))))"
  shows "ipc_line E N (request_line E meth params) w
      = (Some (fst (ipc_dispatch E N (read_request meth params) w)), snd (ipc_dispatch E N (read_request meth params) w))"
    and "json_parse E (trim (response_line E (fst (ipc_dispatch E N (read_request meth params) w))))
      = Some (sort_members (rpc_response_json (fst (ipc_dispatch E N (read_request meth params) w))))"
proof -
  let ?r = "ipc_dispatch E N (read_request meth params) w"
  obtain kvs where kvs: "request_value meth params = JObj kvs" by (simp add: request_value_def json_object_def)
  then have "trim (request_line E meth params) = json_text (json_quote E) (request_value meth params)"
    unfolding request_line_def by (simp only: trim_json_object)
  moreover have "json_text (json_quote E) (request_value meth params) \<noteq> []" by (simp add: kvs)
  ultimately show "ipc_line E N (request_line E meth params) w = (Some (fst ?r), snd ?r)"
    using assms(1) by (simp add: ipc_line_def request_read read_request_def Let_def)
  have "trim (response_line E (fst ?r)) = json_text (json_quote E) (rpc_response_json (fst ?r))"
    unfolding response_line_def rpc_response_json_def by (simp only: trim_json_object)
  then show "json_parse E (trim (response_line E (fst ?r))) = Some (sort_members (rpc_response_json (fst ?r)))"
    using assms(2) by simp
qed

lemma response_members:
  "json_get (sort_members (rpc_response_json x)) ''error''
     = (case resp_outcome x of Inl (code, message) \<Rightarrow> Some (sort_members (json_object [(''code'', JNum code), (''message'', JStr message)])) | Inr v \<Rightarrow> None)"
  "json_get (sort_members (rpc_response_json x)) ''result'' = (case resp_outcome x of Inl _ \<Rightarrow> None | Inr v \<Rightarrow> Some (sort_members v))"
  by (auto simp: rpc_response_json_def json_object_def split: sum.split option.split)

subsection \<open>Births from the command line\<close>

text \<open>
  What a birth command asks for.  The daemon reads from the request the template, the name, the domains,
  the scopes, the lifetime and the model as they were given; but the memory limit is lost: a limit alone
  is no complete set of resources, so the defaults stand, whatever was asked.
\<close>

theorem birth_command_params_read:
  assumes "- (2 ^ 63) \<le> ttl" "ttl < 2 ^ 63"
  shows "birth_params_from_json (birth_command_params template name scope scopes model memory ttl) =
     Inr \<lparr>bp_template = template, bp_name = name,
          bp_allowed_domains = (case scope of None \<Rightarrow> [] | Some s \<Rightarrow> comma_list s),
          bp_allowed_scopes = (case scopes of None \<Rightarrow> [''*''] | Some s \<Rightarrow> comma_list s), bp_ttl_seconds = ttl,
          bp_model = (case Option.bind model (split_once (CHR ''/'')) of
                        None \<Rightarrow> default_model | Some (p, m) \<Rightarrow> \<lparr>mc_provider = p, mc_endpoint = model_endpoint p, mc_model = m\<rparr>),
          bp_resources = default_resources, bp_oauth_delegations = []\<rparr>"
proof -
  have strs: "str_list (json_strings xs) = Some xs" for xs
    by (simp add: str_list_def json_strings_def)
  have model: "read_or default_model model_from_json (Some (model_param model)) = (case Option.bind model (split_once (CHR ''/'')) of
      None \<Rightarrow> default_model | Some (p, m) \<Rightarrow> \<lparr>mc_provider = p, mc_endpoint = model_endpoint p, mc_model = m\<rparr>)"
    by (auto simp: model_param_def read_or_def model_from_json_def struct_members_def json_object_def struct_field_def split: option.split)
  have resources: "read_or default_resources resources_from_json (Some (resources_param memory)) = default_resources"
    by (auto simp: resources_param_def read_or_def resources_from_json_def struct_members_def json_object_def struct_field_def split: option.split)
  show ?thesis
    using assms by (simp add: birth_params_from_json_def birth_command_params_def get_str_def scope_param_def strs model resources)
      (simp add: read_or_def strs)
qed

theorem birth_command_params_read_witness:
  "\<exists>p. birth_params_from_json (birth_command_params ''swe'' ''bot'' None (Some ''read, write'') (Some ''openai/gpt'') (Some 4096) 60) = Inr p
     \<and> bp_allowed_scopes p = [''read'', ''write''] \<and> mc_model (bp_model p) = ''gpt'' \<and> rc_memory_mb (bp_resources p) = 2048"
proof -
  have "comma_list ''read, write'' = [''read'', ''write'']" by code_simp
  then show ?thesis
    using birth_command_params_read [of 60 "''swe''" "''bot''" None "Some ''read, write''" "Some ''openai/gpt''" "Some 4096"]
    by (simp add: default_resources_def)
qed

subsection \<open>What the commands ask for\<close>

text \<open>
  The operation of the daemon that a command stands for, on the command's own arguments: what the daemon answers and the state it
  is left in.
\<close>

fun daemon_serves :: "ext \<Rightarrow> 't ipc_env \<Rightarrow> daemon_command \<Rightarrow> 't ipc_world \<Rightarrow> rpc_outcome \<times> 't ipc_world" where
  "daemon_serves E N CmdStop w = (Inr (json_object [(''status'', JStr ''shutting_down'')]), request_shutdown w)"
| "daemon_serves E N CmdStatus w = ipc_status E N JNull w"
| "daemon_serves E N CmdLicense w = ipc_license_status E N JNull w"
| "daemon_serves E N (CmdBirth template name scope scopes model memory ttl) w =
     (let p = \<lparr>bp_template = template, bp_name = name,
                bp_allowed_domains = (case scope of None \<Rightarrow> [] | Some s \<Rightarrow> comma_list s),
                bp_allowed_scopes = (case scopes of None \<Rightarrow> [''*''] | Some s \<Rightarrow> comma_list s),
                bp_ttl_seconds = projr (daemon_parse_ttl ttl),
                bp_model = (case Option.bind model (split_once (CHR ''/'')) of
                   None \<Rightarrow> default_model | Some (p, m) \<Rightarrow> \<lparr>mc_provider = p, mc_endpoint = model_endpoint p, mc_model = m\<rparr>),
                bp_resources = default_resources, bp_oauth_delegations = []\<rparr>;
          r = daemon_birth_agent E (ie_disk N) (ie_config N) (ie_birth_lib N) (ie_birth_env N) (ie_root N) (ie_transport N)
                (ie_templates N) p (iw_daemon w)
      in (answered N ''Birth failed: '' (bind_res (fst r) (\<lambda>b. Inr (birth_value E b))), w\<lparr>iw_daemon := snd r\<rparr>))"
| "daemon_serves E N CmdAgentsList w = ipc_agents_list E JNull w"
| "daemon_serves E N (CmdAgentsInspect name) w =
     (case get_agent name (agents_of w) of
        Some info \<Rightarrow> Inr (agent_info_value E info) | None \<Rightarrow> Inl (-32001, ''Agent '' @ q_name name @ '' not found''), w)"
| "daemon_serves E N (CmdAgentsLogs name lines) w =
     (answered N [] (bind_res (read_agent_logs (ie_root N) name lines (files_of w)) (\<lambda>logs. Inr (json_object [(''logs'', JStr logs)]))), w)"
| "daemon_serves E N (CmdAgentsStart name) w =
     (let r = start_agent E (ie_vault N) (start_env_of N name (files_of w)) name (agents_of w)
      in (answered N [] (bind_res (fst r) (\<lambda>_. Inr (done_value ''started'' name))), set_agents w (snd r)))"
| "daemon_serves E N (CmdAgentsStop name) w =
     (let r = stop_agent name (agents_of w)
      in (answered N [] (bind_res (fst r) (\<lambda>_. Inr (done_value ''stopped'' name))), set_agents w (snd r)))"
| "daemon_serves E N (CmdAgentsDelete name force) w =
     (let f = remove_agent_dir N name (files_of w); r = delete_agent (fst f) name (agents_of w)
      in (answered N [] (bind_res (fst r) (\<lambda>_. Inr (done_value ''deleted'' name))), set_files (set_agents w (snd r)) (snd f)))"
| "daemon_serves E N CmdMeshStatus w = ipc_mesh_status E JNull w"
| "daemon_serves E N CmdMeshConnect w = ipc_mesh_connect E N JNull w"
| "daemon_serves E N CmdMeshDisconnect w = ipc_mesh_disconnect N JNull w"
| "daemon_serves E N CmdMeshPeers w = ipc_mesh_peers E N JNull w"
| "daemon_serves E N (CmdMeshPing did) w =
     (if did = [] then (missing_param ''did'', w)
      else case mesh_of w of
        None \<Rightarrow> (mesh_off, w)
      | Some c \<Rightarrow> (let r = mesh_ping (ie_transport N) c did
                   in (answered N ''Ping failed: '' (bind_res (fst r) (\<lambda>p. Inr (ping_value p))), set_mesh w (snd r))))"
| "daemon_serves E N CmdTemplatesList w = ipc_templates_list N JNull w"
| "daemon_serves E N (CmdTemplatesInspect name) w =
     (if name = [] then missing_param ''name''
      else case get_template (ue_manifest (ie_update N)) (ie_templates N) name (files_of w) of
        Inr (Some m) \<Rightarrow> Inr (manifest_value m)
      | Inr None \<Rightarrow> Inl (-32001, ''Template '' @ q_name name @ '' not found'')
      | Inl e \<Rightarrow> Inl (-32000, ''Failed to inspect template: '' @ ie_err N e), w)"
| "daemon_serves E N (CmdTemplatesInstall name version) w =
     (if name = [] then (missing_param ''name'', w)
      else let U = ie_update N; r = install_template (ue_io U) (ue_archive U) (ue_tar U) (ie_templates N) name version (files_of w)
           in (answered N ''Install failed: '' (bind_res (fst r) (\<lambda>_. Inr (json_object
                 [(''status'', JStr ''installed''), (''template'', JStr name), (''version'', JStr version)]))), set_files w (snd r)))"
| "daemon_serves E N (CmdTemplatesCreate name source) w =
     (if name = [] \<or> source = []
      then (Inl (-32602, ''Missing '' @ q_name ''name'' @ '' or '' @ q_name ''source'' @ '' parameter''), w)
      else let U = ie_update N; r = create_from_local (ue_io U) (ue_manifest U) (ie_templates N) name source (ie_source N source) (files_of w)
           in (answered N ''Create failed: '' (bind_res (fst r) (\<lambda>_. Inr (json_object
                 [(''status'', JStr ''created''), (''template'', JStr name)]))), set_files w (snd r)))"
| "daemon_serves E N (CmdAudit name n check) w =
     (if name = [] then missing_param ''name''
      else answered N ''Audit query failed: '' (daemon_query_audit E (ie_audit N) (ie_now N) (agents_of w) name n check), w)"
| "daemon_serves E N CmdUpdateCheck w = ipc_update_check E N JNull w"
| "daemon_serves E N CmdUpdateApply w = ipc_update_apply N JNull w"
| "daemon_serves E N CmdUpdateStatus w = ipc_update_status E JNull w"

text \<open>A number of lines or entries is a \<^verbatim>\<open>usize\<close>.\<close>

fun usize_args :: "daemon_command \<Rightarrow> bool" where
  "usize_args (CmdAgentsLogs name lines) \<longleftrightarrow> lines < 2 ^ 64"
| "usize_args (CmdAudit name n check) \<longleftrightarrow> n < 2 ^ 64"
| "usize_args _ \<longleftrightarrow> True"

text \<open>The daemon reads the arguments of a command from its request, as they were given.\<close>

lemma wrap_i64_range: "- (2 ^ 63) \<le> wrap_i64 x \<and> wrap_i64 x < 2 ^ 63"
  using pos_mod_bound [of "2 ^ 64" "x + 2 ^ 63"] pos_mod_sign [of "2 ^ 64" "x + 2 ^ 63"] by (simp add: wrap_i64_def)

lemma parse_i64_range: "parse_i64 s = Some n \<Longrightarrow> - (2 ^ 63) \<le> n \<and> n < 2 ^ 63"
  by (auto simp: parse_i64_def Let_def split: option.splits if_splits)

lemma ttl_i64: "daemon_parse_ttl ttl = Inr n \<Longrightarrow> - (2 ^ 63) \<le> n \<and> n < 2 ^ 63"
  using wrap_i64_range parse_i64_range
  by (auto simp: daemon_parse_ttl_def Let_def bind_res_Inr_iff of_option_Inr_iff split: if_splits)

lemma params_sorted: "command_request cmd = Inr (meth, params) \<Longrightarrow> sort_members params = params"
  by (cases cmd)
     (auto simp: named_def birth_command_params_def json_object_def json_strings_def model_param_def resources_param_def bind_res_Inr_iff
        split: option.splits if_splits)

text \<open>The methods of the commands, and what their handlers read from the requests.\<close>

lemma methods_at:
  "map_of (ipc_methods E N) ''status'' = Some (ipc_status E N)"
  "map_of (ipc_methods E N) ''agents.list'' = Some (ipc_agents_list E)"
  "map_of (ipc_methods E N) ''agents.get'' = Some (ipc_agents_get E)"
  "map_of (ipc_methods E N) ''agents.logs'' = Some (ipc_agents_logs N)"
  "map_of (ipc_methods E N) ''mesh.status'' = Some (ipc_mesh_status E)"
  "map_of (ipc_methods E N) ''templates.list'' = Some (ipc_templates_list N)"
  "map_of (ipc_methods E N) ''templates.inspect'' = Some (ipc_templates_inspect N)"
  "map_of (ipc_methods E N) ''audit.query'' = Some (ipc_audit_query E N)"
  "map_of (ipc_methods E N) ''update.status'' = Some (ipc_update_status E)"
  "map_of (ipc_methods E N) ''license.status'' = Some (ipc_license_status E N)"
  "map_of (ipc_methods E N) ''birth'' = Some (ipc_birth E N)"
  "map_of (ipc_methods E N) ''agents.start'' = Some (ipc_agents_start E N)"
  "map_of (ipc_methods E N) ''agents.stop'' = Some (ipc_agents_stop N)"
  "map_of (ipc_methods E N) ''agents.delete'' = Some (ipc_agents_delete N)"
  "map_of (ipc_methods E N) ''shutdown'' = Some ipc_shutdown"
  "map_of (ipc_methods E N) ''mesh.connect'' = Some (ipc_mesh_connect E N)"
  "map_of (ipc_methods E N) ''mesh.disconnect'' = Some (ipc_mesh_disconnect N)"
  "map_of (ipc_methods E N) ''mesh.peers'' = Some (ipc_mesh_peers E N)"
  "map_of (ipc_methods E N) ''mesh.ping'' = Some (ipc_mesh_ping N)"
  "map_of (ipc_methods E N) ''templates.install'' = Some (ipc_templates_install N)"
  "map_of (ipc_methods E N) ''templates.create'' = Some (ipc_templates_create N)"
  "map_of (ipc_methods E N) ''update.check'' = Some (ipc_update_check E N)"
  "map_of (ipc_methods E N) ''update.apply'' = Some (ipc_update_apply N)"
  by (simp_all add: ipc_methods_def read_methods_def agent_methods_def other_methods_def)

lemma params_read:
  "name_param (named x) ''name'' = x"
  "name_param (json_object [(''name'', JStr x), (''lines'', JNum (int n))]) ''name'' = x"
  "n < 2 ^ 64 \<Longrightarrow> u64_param (json_object [(''name'', JStr x), (''lines'', JNum (int n))]) ''lines'' 50 = n"
  "name_param (json_object [(''did'', JStr x)]) ''did'' = x"
  "name_param (json_object [(''name'', JStr x), (''version'', JStr y)]) ''name'' = x"
  "get_str (json_object [(''name'', JStr x), (''version'', JStr y)]) ''version'' = Some y"
  "name_param (json_object [(''name'', JStr x), (''source'', JStr y)]) ''name'' = x"
  "name_param (json_object [(''name'', JStr x), (''source'', JStr y)]) ''source'' = y"
  "name_param (json_object [(''name'', JStr x), (''last'', JNum (int n)), (''verify'', JBool b)]) ''name'' = x"
  "n < 2 ^ 64 \<Longrightarrow> u64_param (json_object [(''name'', JStr x), (''last'', JNum (int n)), (''verify'', JBool b)]) ''last'' 20 = n"
  "Option.bind (json_get (json_object [(''name'', JStr x), (''last'', JNum (int n)), (''verify'', JBool b)]) ''verify'') as_bool = Some b"
  by (simp_all add: name_param_def get_str_def u64_param_def named_def)

lemma served:
  assumes "command_request cmd = Inr (meth, params)" "usize_args cmd"
  shows "\<exists>h. map_of (ipc_methods E N) meth = Some h \<and> h params w = daemon_serves E N cmd w"
proof (cases cmd)
  case (CmdBirth template name scope scopes model memory ttl)
  then obtain n where n: "daemon_parse_ttl ttl = Inr n" and p: "meth = ''birth''"
    "params = birth_command_params template name scope scopes model memory n"
    using assms(1) by (auto simp: bind_res_Inr_iff)
  show ?thesis unfolding p CmdBirth methods_at
    using ttl_i64 [OF n] by (simp add: n ipc_birth_def birth_command_params_read Let_def)
next
  case (CmdAgentsLogs name lines)
  with assms have p: "meth = ''agents.logs''" "params = json_object [(''name'', JStr name), (''lines'', JNum (int lines))]" "lines < 2 ^ 64" by simp_all
  show ?thesis unfolding p(1,2) methods_at CmdAgentsLogs
    by (simp add: ipc_agents_logs_def params_read(2) params_read(3) [OF p(3)])
next
  case (CmdAudit name n check)
  with assms have p: "meth = ''audit.query''"
    "params = json_object [(''name'', JStr name), (''last'', JNum (int n)), (''verify'', JBool check)]" "n < 2 ^ 64" by simp_all
  show ?thesis unfolding p(1,2) methods_at CmdAudit
    by (simp add: ipc_audit_query_def params_read(9,11) params_read(10) [OF p(3)] del: json_get_object)
next
  case (CmdAgentsDelete name force)
  with assms(1) have p: "meth = ''agents.delete''" "params = named name" by (simp_all split: if_splits)
  show ?thesis unfolding p methods_at CmdAgentsDelete
    by (simp only: ipc_agents_delete_def daemon_serves.simps params_read option.simps Let_def simp_thms ex_simps)
qed ((use assms(1) in \<open>simp only: command_request.simps sum.inject prod.inject, elim conjE, hypsubst,
      simp only: methods_at daemon_serves.simps params_read ipc_agents_get_def ipc_agents_start_def ipc_agents_stop_def ipc_shutdown_def
        ipc_mesh_ping_def ipc_templates_inspect_def ipc_templates_install_def ipc_templates_create_def Let_def option.simps
        ipc_status_def ipc_license_status_def ipc_agents_list_def ipc_mesh_status_def ipc_mesh_connect_def ipc_mesh_disconnect_def ipc_mesh_peers_def
        ipc_templates_list_def ipc_update_check_def ipc_update_apply_def ipc_update_status_def simp_thms ex_simps\<close>)+)

lemma request_served:
  assumes "command_request cmd = Inr (meth, params)" "usize_args cmd"
  shows "ipc_dispatch E N (read_request meth params) w
    = (\<lparr>resp_id = Some (JNum 1), resp_outcome = fst (daemon_serves E N cmd w)\<rparr>, snd (daemon_serves E N cmd w))"
proof -
  obtain h where h: "map_of (ipc_methods E N) meth = Some h" "h params w = daemon_serves E N cmd w" using served [OF assms] by blast
  show ?thesis by (simp add: ipc_dispatch_def read_request_def rpc_id_def params_sorted [OF assms(1)] h Let_def)
qed

text \<open>
  C19: a command does what it stands for.  If the two texts that cross the socket are read as the values they were written from, a
  command that can be sent has the daemon carry out, once, the operation it stands for on the command's own arguments
  (\<open>daemon_serves\<close>: the agent named is started, stopped or deleted, a birth has the scopes and the lifetime given, and so on); what
  it prints is the answer of that operation, and it fails with that operation's message.  A command that cannot be sent (a lifetime
  that cannot be read, a deletion without the flag) reaches nothing.
\<close>

theorem command_roundtrip:
  fixes E :: ext and N :: "'t ipc_env" and w :: "'t ipc_world" and cmd :: daemon_command
  defines "answer \<equiv> \<lparr>resp_id = Some (JNum 1), resp_outcome = fst (daemon_serves E N cmd w)\<rparr>"
  assumes "\<And>meth params. command_request cmd = Inr (meth, params) \<Longrightarrow>
      json_parse E (json_text (json_quote E) (request_value meth params)) = Some (sort_members (request_value meth params))"
    and "json_parse E (json_text (json_quote E) (rpc_response_json answer)) = Some (sort_members (rpc_response_json answer))"
    and "usize_args cmd"
  shows "run_command E N True cmd w =
     (case command_request cmd of
        Inl e \<Rightarrow> (Inl e, w)
      | Inr _ \<Rightarrow> (case fst (daemon_serves E N cmd w) of
                    Inl (code, message) \<Rightarrow> Inl (Prelude.Rejected message)
                  | Inr v \<Rightarrow> Inr (Some (sort_members v)), snd (daemon_serves E N cmd w)))"
proof (cases "command_request cmd")
  case (Inr p)
  obtain meth params where p: "p = (meth, params)" by (cases p)
  note request = Inr [unfolded p]
  let ?r = "ipc_dispatch E N (read_request meth params) w"
  have r: "?r = (\<lparr>resp_id = Some (JNum 1), resp_outcome = fst (daemon_serves E N cmd w)\<rparr>, snd (daemon_serves E N cmd w))"
    by (rule request_served [OF request assms(4)])
  then have "json_parse E (json_text (json_quote E) (rpc_response_json (fst ?r))) = Some (sort_members (rpc_response_json (fst ?r)))"
    using assms(3) by (simp add: answer_def)
  then have "cmd_ipc E N True meth params w = (reply_of (sort_members (rpc_response_json (fst ?r))), snd ?r)"
    by (simp add: cmd_ipc_def exchange [OF assms(2) [OF request]] Let_def)
  moreover have "reply_of (sort_members (rpc_response_json x)) =
      (case resp_outcome x of Inl (code, message) \<Rightarrow> Inl (Prelude.Rejected message) | Inr v \<Rightarrow> Inr (Some (sort_members v)))" for x
    by (auto simp: reply_of_def response_members get_str_def json_object_def split: sum.split)
  ultimately show ?thesis using request r by (simp add: run_command_def)
qed (simp add: run_command_def)

text \<open>A wire that reads a request and its answer.\<close>

definition demo_wire :: "string \<Rightarrow> json \<Rightarrow> rpc_response \<Rightarrow> ext" where
  "demo_wire meth params r = ref_ext\<lparr>json_parse := (\<lambda>s.
     if s = json_text ref_quote (request_value meth params) then Some (sort_members (request_value meth params))
     else Some (sort_members (rpc_response_json r)))\<rparr>"

lemma demo_wire_reads:
  "json_parse (demo_wire meth params r) (json_text (json_quote (demo_wire meth params r)) (request_value meth params))
     = Some (sort_members (request_value meth params))"
  "json_parse (demo_wire meth params r) (json_text (json_quote (demo_wire meth params r)) (rpc_response_json r))
     = Some (sort_members (rpc_response_json r))"
proof -
  have q: "json_quote (demo_wire meth params r) = ref_quote" by (simp add: demo_wire_def ref_ext_def)
  show "json_parse (demo_wire meth params r) (json_text (json_quote (demo_wire meth params r)) (request_value meth params))
     = Some (sort_members (request_value meth params))"
    unfolding q by (simp add: demo_wire_def)
  show "json_parse (demo_wire meth params r) (json_text (json_quote (demo_wire meth params r)) (rpc_response_json r))
     = Some (sort_members (rpc_response_json r))"
    unfolding q by (cases "resp_id r"; cases "resp_outcome r")
      (auto simp: demo_wire_def request_value_def rpc_response_json_def json_object_def ref_quote_def ref_esc_def)
qed

definition stop_response :: rpc_response where
  "stop_response = \<lparr>resp_id = Some (JNum 1), resp_outcome = Inr (json_object [(''status'', JStr ''shutting_down'')])\<rparr>"

lemma stop_dispatch: "ipc_dispatch E N (read_request ''shutdown'' params) w = (stop_response, request_shutdown w)"
  by (simp add: ipc_dispatch_def ipc_methods_def read_methods_def agent_methods_def other_methods_def read_request_def
      ipc_shutdown_def rpc_id_def stop_response_def)

theorem command_roundtrip_witness:
  "run_command (demo_wire ''shutdown'' (JObj []) stop_response) demo_ipc_env True CmdStop demo_world =
     (Inr (Some (JObj [(''status'', JStr ''shutting_down'')])), request_shutdown demo_world)"
proof -
  let ?E = "demo_wire ''shutdown'' (JObj []) stop_response"
  have a: "\<lparr>resp_id = Some (JNum 1), resp_outcome = fst (daemon_serves ?E demo_ipc_env CmdStop demo_world)\<rparr> = stop_response"
    by (simp add: stop_response_def)
  have "run_command ?E demo_ipc_env True CmdStop demo_world =
     (case command_request CmdStop of
        Inl e \<Rightarrow> (Inl e, demo_world)
      | Inr _ \<Rightarrow> (case fst (daemon_serves ?E demo_ipc_env CmdStop demo_world) of
                    Inl (code, message) \<Rightarrow> Inl (Prelude.Rejected message)
                  | Inr v \<Rightarrow> Inr (Some (sort_members v)), snd (daemon_serves ?E demo_ipc_env CmdStop demo_world)))"
    by (rule command_roundtrip, unfold a) (auto simp: demo_wire_reads)
  then show ?thesis by (simp add: json_object_def)
qed

subsection \<open>One daemon at a time\<close>

lemma create_dir_keeps_file: "fs p = Some (File b) \<Longrightarrow> snd (create_dir_all io d fs) p = Some (File b)"
proof -
  have one: "make_dir d fs p = Some (File b)" if "fs p = Some (File b)" for d and fs :: fs
    using that by (auto simp: make_dir_def)
  have "fold make_dir ps fs p = Some (File b)" if "fs p = Some (File b)" for ps and fs :: fs
    using that by (induction ps arbitrary: fs) (simp_all add: one)
  then show "fs p = Some (File b) \<Longrightarrow> snd (create_dir_all io d fs) p = Some (File b)"
    by (auto simp: create_dir_all_def one split: sum.split)
qed

text \<open>
  A second daemon does not start.  After a start that succeeded, as long as its process lives and
  its pid file is left alone, another start with the same pid file is refused and changes no file, whoever
  starts it and under whatever configuration.
\<close>

theorem second_start_refused:
  assumes "start_files io rm alive root config pid_file pid fs = (Inr (), fs')" and "pid < 2 ^ 32"
    and "alive' pid" and "fs'' pid_file = fs' pid_file"
  shows "start_files io' rm' alive' root' config' pid_file pid' fs'' = (Inl (AlreadyRunning ''daemon''), fs'')"
proof -
  obtain fs1 where w: "write_pid_file io pid_file pid fs1 = (Inr (), fs1(pid_file \<mapsto> File (nat_str pid)))"
    and t: "template_init io (daemon_registry config root) (fs1(pid_file \<mapsto> File (nat_str pid))) = (Inr (), fs')"
    using assms(1) by (auto simp: start_files_def then_io_ok_iff write_pid_file_def dest: write_file_ok)
  have "fs' pid_file = Some (File (nat_str pid))"
    using create_dir_keeps_file [of "fs1(pid_file \<mapsto> File (nat_str pid))" pid_file "nat_str pid" io] t
    by (metis fun_upd_same snd_conv template_init_def)
  then have "check_already_running rm' alive' pid_file fs'' = (Inr (Some pid), fs'')"
    using assms(2-4) by (simp add: check_stale)
  then show ?thesis by (simp add: start_files_def then_io_def lift_io_def)
qed

theorem second_start_refused_witness:
  "fst (start_files (\<lambda>_. Inr ()) (\<lambda>_. Inr ()) (\<lambda>p. p = 77) ''r'' default_daemon_config ''p'' 78
      (snd (start_files (\<lambda>_. Inr ()) (\<lambda>_. Inr ()) (\<lambda>p. p = 77) ''r'' default_daemon_config ''p'' 77 (\<lambda>_. None)))) = Inl (AlreadyRunning ''daemon'')"
proof -
  let ?s = "start_files (\<lambda>_. Inr ()) (\<lambda>_. Inr ()) (\<lambda>p. p = 77) ''r'' default_daemon_config ''p'' 77 (\<lambda>_. None)"
  have "fst ?s = Inr ()" by code_simp
  then have "?s = (Inr (), snd ?s)" by (metis prod.collapse)
  from second_start_refused [OF this, of "\<lambda>p. p = 77" "snd ?s" "\<lambda>_. Inr ()" "\<lambda>_. Inr ()" "''r''" default_daemon_config 78] show ?thesis by simp
qed

subsection \<open>The daemon as a whole\<close>

text \<open>
  What can happen to a daemon: a request on the control socket, a request of the agent-to-agent server, a
  health check, the restart of an agent, a turn of the update checker or the anchor worker, and the stop of all
  agents.  Connections are served at the same time, and a birth gives up the table of agents between its
  checks and its work, so a birth is two steps and the state keeps the births under way.
  Configuration, licence and vault are those of the start; the identifiers that the system hands
  out are not in use.  \<open>K\<close> bounds how many births are under way at once; the code sets no such bound.
\<close>

definition finish_request :: "ext \<Rightarrow> 't ipc_env \<Rightarrow> birth_params \<Rightarrow> 't ipc_world \<Rightarrow> 't ipc_world" where
  "finish_request E N p w = w\<lparr>iw_daemon := snd (finish_birth E (ie_disk N) (ie_birth_lib N) (ie_birth_env N) (ie_root N) (ie_transport N)
     (ie_templates N) p (iw_daemon w))\<rparr>"

inductive daemon_step ::
    "ext \<Rightarrow> daemon_config \<Rightarrow> license_disk \<Rightarrow> vault_lib \<Rightarrow> nat \<Rightarrow> 't ipc_world \<times> birth_params list \<Rightarrow> 't ipc_world \<times> birth_params list \<Rightarrow> bool"
  for E config disk V K where
  control: "ie_config N = config \<Longrightarrow> ie_disk N = disk \<Longrightarrow> ie_vault N = V \<Longrightarrow> os_fresh N w \<Longrightarrow> rq_method rq \<noteq> ''birth'' \<Longrightarrow>
     daemon_step E config disk V K (w, bs) (snd (ipc_dispatch E N rq w), bs)"
| admit: "birth_room E disk config p (agents_of w) \<Longrightarrow> length bs < K \<Longrightarrow> daemon_step E config disk V K (w, bs) (w, p # bs)"
| finish: "p \<in> set bs \<Longrightarrow> ie_disk N = disk \<Longrightarrow> daemon_step E config disk V K (w, bs) (finish_request E N p w, remove1 p bs)"
| a2a_call: "as_agents s = agents_of w \<Longrightarrow> as_fs s = files_of w \<Longrightarrow>
     daemon_step E config disk V K (w, bs) (set_agents w (as_agents (snd (a2a_handle E A g q s))), bs)"
| health: "daemon_step E config disk V K (w, bs) (set_agents w (snd (check_health h (agents_of w))), bs)"
| restart: "ie_vault N = V \<Longrightarrow> os_fresh N w \<Longrightarrow>
     daemon_step E config disk V K (w, bs)
       (set_agents w (snd (start_agent E V (start_env_of N name (files_of w)) name (agents_of w))), bs)"
| workers: "daemon_step E config disk V K (w, bs) (set_files (w\<lparr>iw_updates := c, iw_anchor := a\<rparr>) files, bs)"
| stopping: "daemon_step E config disk V K (w, bs) (set_agents w (stop_all (agents_of w)), bs)"

text \<open>A request for a birth changes nothing, or is the two steps one after the other.\<close>

lemma birth_request_steps:
  "snd (ipc_birth E N params w) = w
   \<or> (\<exists>p. birth_room E (ie_disk N) (ie_config N) p (agents_of w) \<and> snd (ipc_birth E N params w) = finish_request E N p w)"
proof (cases "birth_params_from_json params")
  case (Inr p)
  show ?thesis
  proof (cases "birth_room E (ie_disk N) (ie_config N) p (agents_of w)")
    case True
    then show ?thesis using Inr by (auto simp: ipc_birth_def finish_request_def birth_split(1) Let_def)
  next
    case False
    from birth_split(2) [OF this, of "ie_birth_lib N" "ie_birth_env N" "ie_root N" "ie_transport N" "ie_templates N"]
    show ?thesis using Inr by (auto simp: ipc_birth_def Let_def)
  qed
qed (simp add: ipc_birth_def)

definition agent_bound :: "ext \<Rightarrow> daemon_config \<Rightarrow> license_disk \<Rightarrow> nat" where
  "agent_bound E config disk =
     (case max_agents (st_limits (load_license E disk)) of
        None \<Rightarrow> unat (rs_max_agents (dc_resources config))
      | Some m \<Rightarrow> min (unat m) (unat (rs_max_agents (dc_resources config))))"

lemma birth_room_bound: "birth_room E disk config params s \<Longrightarrow> length (sup_agents s) < agent_bound E config disk"
proof -
  assume room: "birth_room E disk config params s"
  let ?n = "length (sup_agents s)"
  have n: "?n < unat (rs_max_agents (dc_resources config))" using room by (simp add: birth_room_def)
  moreover have "unat (rs_max_agents (dc_resources config)) < 2 ^ LENGTH(32)" by (rule unsigned_less)
  ultimately have "unat (of_nat ?n :: u32) = ?n" by (simp add: unat_of_nat take_bit_nat_eq_self)
  then show ?thesis using room n
    by (auto simp: birth_room_def agent_bound_def under_def word_less_nat_alt split: option.splits)
qed

lemma length_put_mem: "map_of m k = Some x \<Longrightarrow> length (put k v m) = length m"
  by (induction m) (auto split: if_splits)

lemma drop_child_agents [simp]: "sup_agents (drop_child c s) = sup_agents s" "sup_agents (abort_proxy h s) = sup_agents s"
  by (simp_all add: drop_child_def abort_proxy_def split: option.split)

lemma start_length: "length (sup_agents (snd (start_agent E V e name s))) = length (sup_agents s)"
  by (auto simp: start_agent_def length_put_mem Let_def split: option.splits sum.splits)

lemma stop_length: "length (sup_agents (snd (stop_agent name s))) = length (sup_agents s)"
  by (auto simp: stop_agent_def length_put_mem Let_def split: option.splits)

lemma delete_length: "length (sup_agents (snd (delete_agent r name s))) \<le> length (sup_agents s)"
  by (auto simp: delete_agent_def stop_length Let_def split: sum.splits intro: order_trans [OF length_filter_le])

lemma check_loop_length: "length (sup_agents (snd (check_loop e names s))) = length (sup_agents s)"
  by (induction e names s rule: check_loop.induct) (auto simp: length_put_mem split: option.splits sum.splits)

lemma stop_all_length: "length (sup_agents (stop_all s)) = length (sup_agents s)"
proof -
  have "length (sup_agents (fold (\<lambda>name s. snd (stop_agent name s)) names s)) = length (sup_agents s)" for names
    by (induction names arbitrary: s) (simp_all add: stop_length)
  then show ?thesis by (simp add: stop_all_def)
qed

lemma a2a_agents:
  "as_agents (snd (a2a_handle E A g q s)) = as_agents s \<or> (\<exists>name. as_agents (snd (a2a_handle E A g q s)) = snd (stop_agent name (as_agents s)))"
proof -
  have "as_agents (snd (handle_message_send E A g params v s)) = as_agents s" for params v
    by (auto simp: handle_message_send_def Let_def split: option.splits)
  moreover have "as_agents (snd (handle_tasks_cancel E A params s)) = as_agents s" for params
    by (auto simp: handle_tasks_cancel_def Let_def split: option.splits)
  ultimately have "as_agents (snd (handle_a2a_rpc E A g q s)) = as_agents s"
    by (auto simp: handle_a2a_rpc_def dispatch_rpc_def Let_def split: sum.splits option.splits)
  moreover have "as_agents (snd (handle_control_revoke E A g q s)) = as_agents s
      \<or> (\<exists>name. as_agents (snd (handle_control_revoke E A g q s)) = snd (stop_agent name (as_agents s)))"
    by (auto simp: handle_control_revoke_def Let_def split: sum.splits)
  ultimately show ?thesis by (auto simp: a2a_handle_def a2a_route_def Let_def split: sum.splits)
qed

lemma dispatch_length:
  assumes "rq_method rq \<noteq> ''birth''"
  shows "length (sup_agents (agents_of (snd (ipc_dispatch E N rq w)))) \<le> length (sup_agents (agents_of w))"
proof (cases "map_of (ipc_methods E N) (rq_method rq)")
  case None
  then show ?thesis by (simp add: ipc_dispatch_def)
next
  case (Some h)
  consider "(rq_method rq, h) \<in> set (read_methods E N)" | "(rq_method rq, h) \<in> set (agent_methods E N)"
    | "(rq_method rq, h) \<in> set (other_methods E N)" | "(rq_method rq, h) \<in> set (oauth_methods E N)"
    using map_of_SomeD [OF Some] by (auto simp: ipc_methods_def)
  then show ?thesis
  proof cases
    case 2
    then show ?thesis using Some assms
      by (auto simp: dispatch_at agent_methods_def ipc_agents_start_def ipc_agents_stop_def ipc_agents_delete_def set_agents_def set_files_def
          start_length stop_length delete_length Let_def)
  next
    case 4
    then have "rq_method rq \<in> set oauth_names" by (auto simp: oauth_methods_def oauth_names_def)
    from arg_cong [OF oauth_dispatch_frame(2) [OF this, of E N w], of agents_of] show ?thesis by (simp add: set_files_def)
  qed (use Some in \<open>simp_all add: dispatch_at read_method_pure other_methods_agents\<close>)
qed

lemma stop_all_empty:
  assumes "sup_inv s"
  shows "os_children (stop_all s) = []"
proof -
  have "old_child (stop_all s) m = None" for m
  proof (cases "map_of (sup_agents s) m")
    case None
    then have "m \<notin> set (map fst (sup_agents s))" by (simp add: map_of_eq_None_iff)
    then show ?thesis using None by (simp add: stop_all_def stop_all_children) (simp add: old_child_def)
  next
    case (Some a)
    then have "m \<in> set (map fst (sup_agents s))" using map_of_SomeD by force
    then show ?thesis by (simp add: stop_all_def stop_all_children)
  qed
  then have "\<forall>c. c \<notin> set (os_children (stop_all s))"
    using sup_inv_children [OF stop_all_inv [OF assms], of _ "map fst (sup_agents s)"] by (simp add: stop_all_def)
  then show ?thesis by (cases "os_children (stop_all s)") auto
qed

definition daemon_started :: "nat \<Rightarrow> 't ipc_world \<times> birth_params list \<Rightarrow> bool" where
  "daemon_started n s \<longleftrightarrow> sup_start_state (agents_of (fst s)) \<and> length (sup_agents (agents_of (fst s))) \<le> n \<and> snd s = []"

definition daemon_inv :: "nat \<Rightarrow> 't ipc_world \<times> birth_params list \<Rightarrow> bool" where
  "daemon_inv n s \<longleftrightarrow> sup_inv (agents_of (fst s)) \<and> length (sup_agents (agents_of (fst s))) + length (snd s) \<le> n"

lemma set_agents_simps [simp]: "agents_of (set_agents w s) = s" "agents_of (set_files w fs) = agents_of w"
  by (simp_all add: set_agents_def set_files_def)

lemma finish_agents:
  assumes "sup_inv (agents_of w)"
  shows "sup_inv (agents_of (finish_request E N p w)) \<and> length (sup_agents (agents_of (finish_request E N p w))) \<le> Suc (length (sup_agents (agents_of w)))"
proof
  show "sup_inv (agents_of (finish_request E N p w))"
    using assms register_agent_inv
    by (auto simp: finish_request_def finish_birth_def register_born_def Let_def split: sum.splits prod.splits)
qed (simp add: finish_request_def finish_adds_one)

interpretation daemon: invariant "daemon_started n" "daemon_step E config disk V (Suc k)" "daemon_inv (max n (agent_bound E config disk) + k)"
  for n E config disk V k
proof
  fix s :: "'a ipc_world \<times> birth_params list" assume "daemon_started n s"
  then show "daemon_inv (max n (agent_bound E config disk) + k) s"
    using sup.inv_init by (auto simp: daemon_started_def daemon_inv_def)
next
  fix s s' :: "'a ipc_world \<times> birth_params list"
  assume i: "daemon_inv (max n (agent_bound E config disk) + k) s" and "daemon_step E config disk V (Suc k) s s'"
  from this(2) show "daemon_inv (max n (agent_bound E config disk) + k) s'"
  proof cases
    case (control N w rq bs)
    have "sup_inv (agents_of (snd (ipc_dispatch E N rq w)))"
      using i dispatch_agents [OF control(6), of E rq] sup.inv_step unfolding control(1) daemon_inv_def by auto
    then show ?thesis using i dispatch_length [OF control(7), of E N w] control(1,2) by (simp add: daemon_inv_def)
  next
    case (admit p w bs)
    then show ?thesis using i birth_room_bound [OF admit(3)] by (simp add: daemon_inv_def)
  next
    case (finish p bs N w)
    then have "length bs = Suc (length (remove1 p bs))" using length_pos_if_in_set [of p bs] by (simp add: length_remove1)
    then show ?thesis using i finish finish_agents [of w E N p] by (simp add: daemon_inv_def)
  next
    case a2a_call
    then show ?thesis using i a2a_agents stop_agent_inv by (simp add: daemon_inv_def) (metis stop_length)
  next
    case (restart N w bs name)
    then have "sup_step E V (agents_of w) (snd (start_agent E V (start_env_of N name (files_of w)) name (agents_of w)))"
      by (intro sup_start) (simp_all add: os_fresh_def start_env_of_def Let_def)
    then show ?thesis using restart(1,2) i sup.inv_step by (simp add: daemon_inv_def start_length) blast
  qed (use i sup.inv_step [OF _ sup_health] sup.inv_step [OF _ sup_stop_all] in
        \<open>simp_all add: daemon_inv_def check_health_def check_loop_length stop_all_length\<close>)
qed

text \<open>
  C17: the daemon's account.  Whatever requests, calls, checks, restarts and worker turns come, in
  any order: the agents have distinct names; an agent has a process exactly while it is running;
  every process belongs to one agent; the turn of the main loop that sees the shutdown leaves no process alive.
  If at most k + 1 births are under way at once there are never more than k agents beyond the number the daemon
  found at its start, or that the licence and the configuration allow: with births one at a time
  the limit is kept, with births at the same time each of them may pass the check.
\<close>

theorem daemon_accounts:
  assumes "reachable (daemon_started n) (daemon_step E config disk V (Suc k)) (w, bs)"
  shows "distinct (map fst (sup_agents (agents_of w)))
    \<and> length (sup_agents (agents_of w)) + length bs \<le> max n (agent_bound E config disk) + k
    \<and> (\<forall>m a. map_of (sup_agents (agents_of w)) m = Some a \<longrightarrow> (ap_child a \<noteq> None \<longleftrightarrow> ap_status a = Running))
    \<and> (\<forall>c \<in> set (os_children (agents_of w)). \<exists>!m. owns (agents_of w) m c)
    \<and> (should_shutdown w \<longrightarrow> fst (main_turn E N h w) = Shut_down \<and> os_children (agents_of (snd (main_turn E N h w))) = [])"
proof -
  have i: "sup_inv (agents_of w)" "length (sup_agents (agents_of w)) + length bs \<le> max n (agent_bound E config disk) + k"
    using daemon.inv_reachable [OF assms] by (simp_all add: daemon_inv_def)
  then have "\<forall>c \<in> set (os_children (agents_of w)). \<exists>!m. owns (agents_of w) m c"
    by (auto simp: sup_inv_def) blast
  then show ?thesis using i stop_all_empty [OF i(1)]
    by (auto simp: sup_inv_def agent_ok_def main_turn_def)
qed

theorem daemon_accounts_witness:
  "\<exists>w :: mock ipc_world. reachable (daemon_started 0) (daemon_step ref_ext default_daemon_config None nat_vault (Suc 0)) (w, []) \<and> should_shutdown w
     \<and> (\<forall>h. os_children (agents_of (snd (main_turn ref_ext (\<lambda>_. demo_ipc_env) h w))) = [])"
proof -
  let ?w = "snd (ipc_dispatch ref_ext demo_ipc_env (read_request ''shutdown'' (JObj [])) demo_world)"
  have "daemon_started 0 (demo_world, [])"
    by (auto simp: daemon_started_def demo_world_def daemon_new_def supervisor_new_def sup_start_state_def sup_init_def intro: exI [of _ None])
  moreover have "daemon_step ref_ext default_daemon_config None nat_vault (Suc 0) (demo_world, []) (?w, [])"
    by (rule daemon_step.control) (simp_all add: demo_ipc_env_def os_fresh_def demo_world_def daemon_new_def supervisor_new_def read_request_def)
  ultimately have r: "reachable (daemon_started 0) (daemon_step ref_ext default_daemon_config None nat_vault (Suc 0)) (?w, [])"
    by (meson reachable.intros)
  moreover have "should_shutdown ?w" by (simp add: stop_dispatch should_shutdown_def request_shutdown_def)
  ultimately show ?thesis
    using daemon_accounts [OF r, of "\<lambda>_. demo_ipc_env"] by blast
qed

end
