(* ===== verification/Cli_OAuth.thy ===== *)
theory Cli_OAuth
  imports Daemon_Main
begin

text \<open>
  The \<^verbatim>\<open>oauth\<close> commands of the command line, \<^verbatim>\<open>grokingclawid-cli/src/commands/oauth.rs\<close>: each is one request
  to the daemon and a report of the answer.
\<close>

definition default_socket_path :: "string option \<Rightarrow> string" where
  "default_socket_path home =
     path_join (path_join (case home of Some h \<Rightarrow> h | None \<Rightarrow> []) ''.grokingclaw'') ''daemon.sock''"

text \<open>A call: an answer without a result counts as null.\<close>

definition call_answer :: "json \<Rightarrow> json result" where
  "call_answer resp =
     (case json_get resp ''error'' of
        Some e \<Rightarrow> Inl (Prelude.Rejected (case get_str e ''message'' of Some m \<Rightarrow> m | None \<Rightarrow> ''unknown''))
      | None \<Rightarrow> Inr (case json_get resp ''result'' of Some v \<Rightarrow> v | None \<Rightarrow> JNull))"

definition ipc_call :: "ext \<Rightarrow> 't ipc_env \<Rightarrow> bool \<Rightarrow> string \<Rightarrow> json \<Rightarrow> 't ipc_world \<Rightarrow> json result \<times> 't ipc_world" where
  "ipc_call E N connected meth params w =
     (if \<not> connected then (Inl (NotFound ''daemon''), w)
      else let a = ipc_line E N (request_line E meth params) w
           in (case fst a of
                 None \<Rightarrow> Inl (ParseError ''response'')
               | Some r \<Rightarrow> bind_res (of_option (ParseError ''response'') (json_parse E (trim (response_line E r)))) call_answer,
               snd a))"

subsection \<open>Requests\<close>

record oauth_registering =
  og_agent :: string
  og_provider :: string
  og_client_id :: string
  og_client_secret :: "string option"
  og_authorization_url :: "string option"
  og_token_url :: string
  og_scopes :: string
  og_domains :: string
  og_grant_type :: string

datatype oauth_command =
    OAuthRegister oauth_registering
  | OAuthAuthorize string string
  | OAuthStatus string "string option"
  | OAuthRevoke string string
  | OAuthExchange string string

definition register_params :: "oauth_registering \<Rightarrow> json" where
  "register_params g = json_object
     [(''agent'', JStr (og_agent g)), (''provider'', JStr (og_provider g)), (''client_id'', JStr (og_client_id g)),
      (''client_secret'', opt_json JStr (og_client_secret g)),
      (''authorization_url'', JStr (case og_authorization_url g of Some u \<Rightarrow> u | None \<Rightarrow> [])),
      (''token_url'', JStr (og_token_url g)), (''scopes'', json_strings (split_whitespace (og_scopes g))),
      (''domain_bindings'', json_strings (map trim (split_on (CHR '','') (og_domains g)))), (''grant_type'', JStr (og_grant_type g))]"

definition for_registration :: "string \<Rightarrow> string \<Rightarrow> json" where
  "for_registration agent registration_id = json_object [(''agent'', JStr agent), (''registration_id'', JStr registration_id)]"

fun oauth_request :: "oauth_command \<Rightarrow> string \<times> json" where
  "oauth_request (OAuthRegister g) = (''oauth.register'', register_params g)"
| "oauth_request (OAuthAuthorize agent rid) = (''oauth.authorize'', for_registration agent rid)"
| "oauth_request (OAuthStatus agent rid) =
     (''oauth.status'', case rid of None \<Rightarrow> json_object [(''agent'', JStr agent)] | Some r \<Rightarrow> for_registration agent r)"
| "oauth_request (OAuthRevoke agent rid) = (''oauth.revoke'', for_registration agent rid)"
| "oauth_request (OAuthExchange agent rid) = (''oauth.exchange'', for_registration agent rid)"

subsection \<open>Reports\<close>

datatype status_icon = Green | Yellow | Red

datatype oauth_report =
    Registered string string string string
  | DeviceCode string string "string option"
  | VisitUrl string
  | TokensAcquired
  | Registrations string "(status_icon \<times> string \<times> string \<times> string) list"
  | RevokedReport string "string option"
  | ExchangeDone
  | AsJson json

definition member_or :: "string \<Rightarrow> json \<Rightarrow> string \<Rightarrow> string" where
  "member_or d v k = (case get_str v k of Some s \<Rightarrow> s | None \<Rightarrow> d)"

definition registration_row :: "json \<Rightarrow> status_icon \<times> string \<times> string \<times> string" where
  "registration_row reg =
     (let status = member_or ''?'' reg ''token_status''
      in (if status = ''valid'' then Green else if status = ''expired'' then Yellow else Red,
          member_or ''?'' reg ''provider'', member_or ''?'' reg ''id'', status))"

fun oauth_report_of :: "oauth_command \<Rightarrow> json \<Rightarrow> oauth_report" where
  "oauth_report_of (OAuthRegister g) v = Registered (member_or ''?'' v ''registration_id'') (og_provider g) (og_domains g) (og_grant_type g)"
| "oauth_report_of (OAuthAuthorize agent rid) v =
     (case get_str v ''user_code'' of
        Some code \<Rightarrow> DeviceCode code (member_or ''?'' v ''verification_uri'') (get_str v ''verification_uri_complete'')
      | None \<Rightarrow>
          (case get_str v ''authorization_url'' of
             Some url \<Rightarrow> VisitUrl url
           | None \<Rightarrow> if get_str v ''status'' = Some ''tokens_acquired'' then TokensAcquired else AsJson v))"
| "oauth_report_of (OAuthStatus agent rid) v =
     (case Option.bind (json_get v ''registrations'') as_array of
        Some regs \<Rightarrow> Registrations agent (map registration_row regs)
      | None \<Rightarrow> AsJson v)"
| "oauth_report_of (OAuthRevoke agent rid) v = RevokedReport rid (get_str v ''revoked'')"
| "oauth_report_of (OAuthExchange agent rid) v =
     (if Option.bind (json_get v ''ok'') as_bool = Some True then ExchangeDone else AsJson v)"

definition run_oauth :: "ext \<Rightarrow> 't ipc_env \<Rightarrow> bool \<Rightarrow> oauth_command \<Rightarrow> 't ipc_world \<Rightarrow> oauth_report result \<times> 't ipc_world" where
  "run_oauth E N connected cmd w =
     (let r = ipc_call E N connected (fst (oauth_request cmd)) (snd (oauth_request cmd)) w
      in (bind_res (fst r) (\<lambda>v. Inr (oauth_report_of cmd v)), snd r))"

subsection \<open>Over the socket\<close>

text \<open>
  An OAuth command reaches its method and reports that method's answer.  If the two texts that cross the
  socket are read as the values they were written from, the command runs the OAuth method of its name
  once, on its parameters, and its report is made from that method's result, or its error is that method's.
\<close>

theorem oauth_command_roundtrip:
  assumes "oauth_request cmd = (meth, params)"
    and "json_parse E (json_text (json_quote E) (request_value meth params)) = Some (sort_members (request_value meth params))"
    and "json_parse E (json_text (json_quote E) (rpc_response_json (fst (ipc_dispatch E N (read_request meth params) w))))
      = Some (sort_members (rpc_response_json (fst (ipc_dispatch E N (read_request meth params) w))))"
  shows "run_oauth E N True cmd w =
     ((case resp_outcome (fst (ipc_dispatch E N (read_request meth params) w)) of
         Inl (code, message) \<Rightarrow> Inl (Prelude.Rejected message)
       | Inr v \<Rightarrow> Inr (oauth_report_of cmd (sort_members v))), snd (ipc_dispatch E N (read_request meth params) w))
    \<and> meth \<in> set oauth_names"
proof (rule conjI)
  let ?r = "ipc_dispatch E N (read_request meth params) w"
  have "call_answer (sort_members (rpc_response_json x)) =
      (case resp_outcome x of Inl (code, message) \<Rightarrow> Inl (Prelude.Rejected message) | Inr v \<Rightarrow> Inr (sort_members v))" for x
    by (auto simp: call_answer_def response_members get_str_def json_object_def split: sum.split)
  then show "run_oauth E N True cmd w =
     ((case resp_outcome (fst ?r) of Inl (code, message) \<Rightarrow> Inl (Prelude.Rejected message) | Inr v \<Rightarrow> Inr (oauth_report_of cmd (sort_members v))), snd ?r)"
    by (simp add: run_oauth_def assms(1) ipc_call_def exchange [OF assms(2,3)] Let_def split: sum.split)
  show "meth \<in> set oauth_names" using assms(1) by (cases cmd) (auto simp: oauth_names_def)
qed

theorem oauth_command_roundtrip_witness:
  "run_oauth (demo_wire ''oauth.exchange'' (for_registration ''a'' ''g'')
       \<lparr>resp_id = Some (JNum 1), resp_outcome = Inl (-32000, ''OAuth token exchange is disabled'')\<rparr>) demo_ipc_env True (OAuthExchange ''a'' ''g'') demo_world
     = (Inl (Prelude.Rejected ''OAuth token exchange is disabled''), demo_world)"
proof -
  let ?r = "\<lparr>resp_id = Some (JNum 1), resp_outcome = Inl (-32000, ''OAuth token exchange is disabled'')\<rparr>"
  let ?E = "demo_wire ''oauth.exchange'' (for_registration ''a'' ''g'') ?r"
  have "map_of (ipc_methods ?E demo_ipc_env) ''oauth.exchange'' = Some (ipc_oauth_exchange ?E demo_ipc_env)"
    by (simp add: ipc_methods_def read_methods_def agent_methods_def other_methods_def oauth_methods_def)
  then have d: "ipc_dispatch ?E demo_ipc_env (read_request ''oauth.exchange'' (for_registration ''a'' ''g'')) demo_world = (?r, demo_world)"
    by (simp add: ipc_dispatch_def read_request_def rpc_id_def ipc_oauth_exchange_def demo_ipc_env_def default_daemon_config_def default_oauth_def)
  show ?thesis
    using oauth_command_roundtrip [of "OAuthExchange ''a'' ''g''" "''oauth.exchange''" "for_registration ''a'' ''g''" ?E demo_ipc_env demo_world]
    by (simp add: d demo_wire_reads)
qed

text \<open>
  The report of an authorization is the URL alone: the verifier, which the callback needs and the daemon does not
  keep, is not shown.
\<close>

lemma authorize_drops_verifier:
  "oauth_report_of (OAuthAuthorize agent rid) (sort_members (authorize_value (Inr (Inl start)))) = VisitUrl (acs_authorization_url start)"
  "fst (oauth_authorize E V F e port rid h) = Inr (Inr (Inl start)) \<Longrightarrow> snd (oauth_authorize E V F e port rid h) = h"
  by (simp add: authorize_value_def get_str_def json_object_def)
     (auto simp: oauth_authorize_def Let_def bind_res_Inr_iff split: sum.splits prod.splits if_splits)

subsection \<open>What a registration from the command line can do\<close>

text \<open>
  A registration made from the command line.  The daemon reads from the request the names, the URLs, the
  secret, the scopes and the domains as they were given, under a fresh identifier and without a parent; but
  it never has a revocation or a device address, for which there is no option.  So the provider is never
  told of a revocation, and a device flow cannot start.
\<close>

theorem cli_registration:
  fixes g :: oauth_registering and now :: datetime and fresh :: uuid
  defines "reg \<equiv> registration_of_params now fresh (sort_members (snd (oauth_request (OAuthRegister g))))"
  shows "reg = \<lparr>reg_id = fresh, reg_provider = og_provider g, reg_client_id = og_client_id g, reg_client_secret = og_client_secret g,
      reg_authorization_url = (case og_authorization_url g of Some u \<Rightarrow> u | None \<Rightarrow> []), reg_token_url = og_token_url g,
      reg_revocation_url = None, reg_device_authorization_url = None, reg_scopes = split_whitespace (og_scopes g),
      reg_domain_bindings = map trim (split_on (CHR '','') (og_domains g)), reg_grant_type = og_grant_type g, reg_created_at = now,
      reg_parent_registration_id = None, reg_max_scopes = None\<rparr>
    \<and> revocation_requests reg toks = [] \<and> start_device_auth E C reg = Inl (NotFound ''device_authorization_url'')"
proof -
  have strs: "List.map_filter as_str (map (\<lambda>x. JStr (f x)) xs) = map f xs" for f :: "string \<Rightarrow> string" and xs
    by (induction xs) (simp_all add: List.map_filter_simps)
  from this [of id] have strs': "List.map_filter as_str (map JStr xs) = xs" for xs by simp
  have reg: "reg = \<lparr>reg_id = fresh, reg_provider = og_provider g, reg_client_id = og_client_id g, reg_client_secret = og_client_secret g,
      reg_authorization_url = (case og_authorization_url g of Some u \<Rightarrow> u | None \<Rightarrow> []), reg_token_url = og_token_url g,
      reg_revocation_url = None, reg_device_authorization_url = None, reg_scopes = split_whitespace (og_scopes g),
      reg_domain_bindings = map trim (split_on (CHR '','') (og_domains g)), reg_grant_type = og_grant_type g, reg_created_at = now,
      reg_parent_registration_id = None, reg_max_scopes = None\<rparr>"
    by (cases "og_client_secret g")
       (simp_all add: reg_def registration_of_params_def register_params_def json_object_def str_or_def get_str_def strings_of_def
         json_strings_def opt_json_def comp_def strs strs')
  then show ?thesis
    by (auto simp: revocation_requests_def revoke_token_request_def start_device_auth_def List.map_filter_def split: option.split)
qed

end
