(* ===== verification/Event_Stream.thy ===== *)
theory Event_Stream
  imports Iota_Wallet
begin

text \<open>
  The WebSocket client of \<^verbatim>\<open>grokingclawid-core/src/ws.rs\<close> and the commands of \<^verbatim>\<open>commands/wallet.rs\<close> that
  list and watch: coins, past events, and the live stream.  A connection is the list of what the peer
  sends, and the result has what was sent to it.
\<close>

subsection \<open>Filters, events, notifications\<close>

definition TESTNET_WS :: string where "TESTNET_WS = ''wss://api.testnet.iota.cafe:443''"
definition DEVNET_WS :: string where "DEVNET_WS = ''wss://api.devnet.iota.cafe:443''"

datatype event_filter = BySender string | ByRecipient string | ByTransaction string | AllEvents "json list"

definition filter_value :: "event_filter \<Rightarrow> json" where
  "filter_value f =
     (case f of
        BySender s \<Rightarrow> JObj [(''Sender'', JStr s)]
      | ByRecipient s \<Rightarrow> JObj [(''Recipient'', JStr s)]
      | ByTransaction s \<Rightarrow> JObj [(''Transaction'', JStr s)]
      | AllEvents vs \<Rightarrow> JArr vs)"

record iota_event =
  ev_id :: json
  ev_package_id :: "string option"
  ev_transaction_module :: "string option"
  ev_sender :: "string option"
  ev_event_type :: "string option"
  ev_parsed_json :: "json option"
  ev_timestamp_ms :: "string option"

text \<open>A \<^verbatim>\<open>Value\<close> read from a text has each member once, the last one written.\<close>

fun keep_last :: "(string \<times> 'a) list \<Rightarrow> (string \<times> 'a) list" where
  "keep_last [] = []"
| "keep_last ((k, v) # kvs) = (if k \<in> fst ` set kvs then keep_last kvs else (k, v) # keep_last kvs)"

fun to_value :: "json \<Rightarrow> json" where
  "to_value (JArr vs) = JArr (map to_value vs)"
| "to_value (JObj kvs) = json_object (keep_last (map (\<lambda>(k, v). (k, to_value v)) kvs))"
| "to_value v = v"

definition event_from_json :: "json \<Rightarrow> iota_event option" where
  "event_from_json v =
     (case struct_opt_members [(''id'', False), (''packageId'', True), (''transactionModule'', True), (''sender'', True),
             (''type'', True), (''parsedJson'', True), (''timestampMs'', True)] v of
        Some [i, p, m, s, t, j, ts] \<Rightarrow>
          (case (opt_str p, opt_str m, opt_str s, opt_str t, opt_str ts) of
             (Some p', Some m', Some s', Some t', Some ts') \<Rightarrow>
               Some \<lparr>ev_id = i, ev_package_id = p', ev_transaction_module = m', ev_sender = s', ev_event_type = t',
                     ev_parsed_json = (if j = JNull then None else Some j), ev_timestamp_ms = ts'\<rparr>
           | _ \<Rightarrow> None)
      | _ \<Rightarrow> None)"

definition subscribe_request :: "ext \<Rightarrow> nat \<Rightarrow> json \<Rightarrow> string" where
  "subscribe_request E n flt = json_text (json_quote E)
     (JObj [(''jsonrpc'', JStr ''2.0''), (''id'', JNum (int n)), (''method'', JStr ''iota_subscribeEvent''), (''params'', JArr [flt])])"

text \<open>The subscription and the content of the parameters of a notification.\<close>

definition notification_params :: "json \<Rightarrow> (nat \<times> json) option" where
  "notification_params v =
     (case struct_members [''subscription'', ''result''] v of
        Some [n, r] \<Rightarrow> map_option (\<lambda>k. (k, to_value r)) (as_u64 n)
      | _ \<Rightarrow> None)"

definition notification_from_json :: "json \<Rightarrow> (string option \<times> (nat \<times> json) option) option" where
  "notification_from_json v =
     (case struct_opt_members [(''jsonrpc'', False), (''method'', True), (''params'', True)] v of
        Some [JStr _, m, p] \<Rightarrow>
          (case (opt_str m, opt_of_json notification_params p) of
             (Some m', Some p') \<Rightarrow> Some (m', p')
           | _ \<Rightarrow> None)
      | _ \<Rightarrow> None)"

text \<open>The event a text delivers, with the subscription it came from; other texts are passed over.\<close>

definition delivered :: "ext \<Rightarrow> string \<Rightarrow> (nat \<times> iota_event) option" where
  "delivered E text =
     (case Option.bind (json_parse E text) notification_from_json of
        Some (Some meth, Some (n, r)) \<Rightarrow>
          if meth = ''iota_subscribeEvent'' then map_option (\<lambda>ev. (n, ev)) (event_from_json r) else None
      | _ \<Rightarrow> None)"

subsection \<open>Messages\<close>

datatype ws_message = WsText string | WsBinary bytes | WsPing bytes | WsPong bytes | WsClose "string option"

type_synonym ws_incoming = "ws_message result list"

text \<open>\<^verbatim>\<open>std::str::from_utf8\<close>: whether bytes are a text.\<close>

definition cont :: "nat \<Rightarrow> nat \<Rightarrow> char \<Rightarrow> bool" where
  "cont lo hi c \<longleftrightarrow> lo \<le> of_char c \<and> of_char c \<le> hi"

fun utf8_ok :: "bytes \<Rightarrow> bool" where
  "utf8_ok [] = True"
| "utf8_ok (a # r) =
     (let n = of_char a :: nat
      in if n < 128 then utf8_ok r
         else case r of
                [] \<Rightarrow> False
              | b # r1 \<Rightarrow>
                  if 194 \<le> n \<and> n \<le> 223 then cont 128 191 b \<and> utf8_ok r1
                  else case r1 of
                         [] \<Rightarrow> False
                       | c # r2 \<Rightarrow>
                           if 224 \<le> n \<and> n \<le> 239
                           then cont (if n = 224 then 160 else 128) (if n = 237 then 159 else 191) b \<and> cont 128 191 c \<and> utf8_ok r2
                           else case r2 of
                                  [] \<Rightarrow> False
                                | d # r3 \<Rightarrow>
                                    240 \<le> n \<and> n \<le> 244 \<and> cont (if n = 240 then 144 else 128) (if n = 244 then 143 else 191) b
                                    \<and> cont 128 191 c \<and> cont 128 191 d \<and> utf8_ok r3)"

definition message_text :: "ws_message \<Rightarrow> string" where
  "message_text m =
     (let bytes = (\<lambda>b. if utf8_ok b then b else [])
      in case m of WsText s \<Rightarrow> s | WsBinary b \<Rightarrow> bytes b | WsPing b \<Rightarrow> bytes b | WsPong b \<Rightarrow> bytes b
         | WsClose reason \<Rightarrow> (case reason of Some s \<Rightarrow> s | None \<Rightarrow> []))"

text \<open>The loop: what it returns, what it sends, and the state its callback leaves.\<close>

fun event_loop ::
    "ext \<Rightarrow> (nat \<Rightarrow> iota_event \<Rightarrow> 's \<Rightarrow> bool \<times> 's) \<Rightarrow> ws_incoming \<Rightarrow> 's \<Rightarrow> unit result \<times> ws_message list \<times> 's" where
  "event_loop E cb [] s = (Inr (), [], s)"
| "event_loop E cb (Inl e # ms) s = (Inl e, [], s)"
| "event_loop E cb (Inr m # ms) s =
     (case m of
        WsText text \<Rightarrow>
          (case delivered E text of
             None \<Rightarrow> event_loop E cb ms s
           | Some (n, ev) \<Rightarrow>
               (case cb n ev s of (go_on, s') \<Rightarrow> if go_on then event_loop E cb ms s' else (Inr (), [], s')))
      | WsPing data \<Rightarrow> (case event_loop E cb ms s of (r, sent, s') \<Rightarrow> (r, WsPong data # sent, s'))
      | WsClose reason \<Rightarrow> (Inr (), [], s)
      | _ \<Rightarrow> event_loop E cb ms s)"

subsection \<open>The client\<close>

record ws_net =
  wn_connect :: "string \<Rightarrow> ws_incoming result"
  wn_send :: "string \<Rightarrow> unit result"

record iota_ws_client = ws_url :: string

definition ws_testnet :: iota_ws_client where "ws_testnet = \<lparr>ws_url = TESTNET_WS\<rparr>"
definition ws_devnet :: iota_ws_client where "ws_devnet = \<lparr>ws_url = DEVNET_WS\<rparr>"
definition ws_custom :: "string \<Rightarrow> iota_ws_client" where "ws_custom url = \<lparr>ws_url = url\<rparr>"

definition subscribe_events ::
    "ext \<Rightarrow> ws_net \<Rightarrow> iota_ws_client \<Rightarrow> event_filter \<Rightarrow> (iota_event \<Rightarrow> 's \<Rightarrow> bool \<times> 's) \<Rightarrow> 's \<Rightarrow> unit result \<times> ws_message list \<times> 's" where
  "subscribe_events E W c flt cb s =
     (let request = subscribe_request E 1 (filter_value flt)
      in case bind_res (wn_connect W (ws_url c)) (\<lambda>ms. bind_res (wn_send W request) (\<lambda>_. Inr ms)) of
           Inl e \<Rightarrow> (Inl e, [], s)
         | Inr ms \<Rightarrow>
             (let loop = (case event_loop E (\<lambda>_. cb) (drop 1 ms) s of (r, sent, s') \<Rightarrow> (r, WsText request # sent, s'))
              in case ms of
                   Inr m # _ \<Rightarrow>
                     if contains_str (message_text m) (dquote # ''error'' @ [dquote]) then (Inl (Rejected (message_text m)), [WsText request], s)
                     else loop
                 | _ \<Rightarrow> loop))"

text \<open>The direction of an event is told from the number of its subscription.\<close>

definition watch_address ::
    "ext \<Rightarrow> ws_net \<Rightarrow> iota_ws_client \<Rightarrow> string \<Rightarrow> (iota_event \<Rightarrow> string \<Rightarrow> 's \<Rightarrow> bool \<times> 's) \<Rightarrow> 's \<Rightarrow> unit result \<times> ws_message list \<times> 's" where
  "watch_address E W c address cb s =
     (let sender_sub = subscribe_request E 1 (JObj [(''Sender'', JStr address)]);
          recipient_sub = subscribe_request E 2 (JObj [(''Recipient'', JStr address)])
      in case bind_res (wn_connect W (ws_url c)) (\<lambda>ms. bind_res (wn_send W sender_sub) (\<lambda>_. Inr ms)) of
           Inl e \<Rightarrow> (Inl e, [], s)
         | Inr ms \<Rightarrow>
             (case wn_send W recipient_sub of
                Inl e \<Rightarrow> (Inl e, [WsText sender_sub], s)
              | Inr _ \<Rightarrow>
                  (case event_loop E (\<lambda>n ev. cb ev (if n = 1 then ''outgoing'' else ''incoming'')) (drop 2 ms) s of
                     (r, sent, s') \<Rightarrow> (r, WsText sender_sub # WsText recipient_sub # sent, s'))))"

definition query_request :: "ext \<Rightarrow> event_filter \<Rightarrow> u32 \<Rightarrow> string" where
  "query_request E flt limit = json_text (json_quote E) (json_object
     [(''jsonrpc'', JStr ''2.0''), (''id'', JNum 1), (''method'', JStr ''iotax_queryEvents''),
      (''params'', JArr [filter_value flt, JNull, JNum (uint limit), JBool False])])"

definition query_events :: "ext \<Rightarrow> http_post \<Rightarrow> iota_ws_client \<Rightarrow> event_filter \<Rightarrow> u32 \<Rightarrow> json list result" where
  "query_events E N c flt limit =
     (let http_url = replace_str ''ws://'' ''http://'' (replace_str ''wss://'' ''https://'' (ws_url c))
      in bind_res (N http_url (query_request E flt limit)) (\<lambda>(_, text).
         bind_res (of_option (ParseError ''events response'') (json_parse E text)) (\<lambda>parsed.
         let body = to_value parsed
         in case json_get body ''error'' of
              Some err \<Rightarrow> Inl (Rejected (json_text (json_quote E) err))
            | None \<Rightarrow>
                Inr (case Option.bind (Option.bind (json_get body ''result'') (\<lambda>r. json_get r ''data'')) as_array of
                       Some data \<Rightarrow> data | None \<Rightarrow> []))))"

subsection \<open>The wallet's listings\<close>

definition make_ws_client :: "string \<Rightarrow> iota_ws_client" where
  "make_ws_client network = (if network = ''devnet'' then ws_devnet else ws_testnet)"

definition wallet_init :: "ext \<Rightarrow> blake \<Rightarrow> agent_card \<Rightarrow> string result" where
  "wallet_init E B crd = derive_address_from_card E B crd"

text \<open>A listing of coins has for each its balance, type and the beginning of its identifier; other answers are shown as they are.\<close>

definition text_or :: "string \<Rightarrow> json \<Rightarrow> string \<Rightarrow> string" where
  "text_or d v k = (case get_str v k of Some s \<Rightarrow> s | None \<Rightarrow> d)"

definition coin_row :: "json \<Rightarrow> (string \<times> string \<times> string) result" where
  "coin_row coin =
     bind_res (wallet_truncate (text_or ''?'' coin ''coinObjectId'') 20) (\<lambda>short.
     Inr (text_or ''0'' coin ''balance'', text_or ''unknown'' coin ''coinType'', short))"

fun coin_rows :: "json list \<Rightarrow> (string \<times> string \<times> string) list result" where
  "coin_rows [] = Inr []"
| "coin_rows (c # cs) = bind_res (coin_row c) (\<lambda>r. bind_res (coin_rows cs) (\<lambda>rs. Inr (r # rs)))"

definition wallet_coins :: "ext \<Rightarrow> blake \<Rightarrow> http_post \<Rightarrow> agent_card \<Rightarrow> string \<Rightarrow> (json + (string \<times> string \<times> string) list) result" where
  "wallet_coins E B N crd network =
     bind_res (derive_address_from_card E B crd) (\<lambda>address.
     bind_res (get_coins E N (make_client network) address) (\<lambda>coins.
     case Option.bind (json_get coins ''data'') as_array of
       Some data \<Rightarrow> bind_res (coin_rows data) (\<lambda>rows. Inr (Inr rows))
     | None \<Rightarrow> Inr (Inl coins)))"

text \<open>The lines of a watch: direction, number, type, sender and time of each event; the preview of its content is left out.\<close>

type_synonym watch_line = "string \<times> u32 \<times> string \<times> string \<times> string"

definition watch_row :: "string \<Rightarrow> u32 \<Rightarrow> iota_event \<Rightarrow> watch_line" where
  "watch_row direction count ev =
     (direction, count, case ev_event_type ev of Some t \<Rightarrow> t | None \<Rightarrow> ''unknown'',
      case ev_sender ev of Some s \<Rightarrow> s | None \<Rightarrow> ''?'', case ev_timestamp_ms ev of Some t \<Rightarrow> t | None \<Rightarrow> ''?'')"

definition watch_callback :: "u32 \<Rightarrow> iota_event \<Rightarrow> string \<Rightarrow> u32 \<times> watch_line list \<Rightarrow> bool \<times> u32 \<times> watch_line list" where
  "watch_callback limit ev direction s =
     (let count = fst s + 1
      in (limit = 0 \<or> count < limit, count, snd s @ [watch_row direction count ev]))"

definition wallet_watch :: "ext \<Rightarrow> blake \<Rightarrow> ws_net \<Rightarrow> agent_card \<Rightarrow> string \<Rightarrow> u32 \<Rightarrow> unit result \<times> u32 \<times> watch_line list" where
  "wallet_watch E B W crd network limit =
     (case derive_address_from_card E B crd of
        Inl e \<Rightarrow> (Inl e, 0, [])
      | Inr address \<Rightarrow>
          (case watch_address E W (make_ws_client network) address (watch_callback limit) (0, []) of (r, sent, s) \<Rightarrow> (r, s)))"

text \<open>Past events: type, transaction and time.\<close>

definition event_row :: "json \<Rightarrow> string \<times> string \<times> string" where
  "event_row ev =
     (text_or ''unknown'' ev ''type'',
      case Option.bind (json_get ev ''id'') (\<lambda>i. get_str i ''txDigest'') of Some d \<Rightarrow> d | None \<Rightarrow> ''?'',
      text_or ''?'' ev ''timestampMs'')"

definition wallet_events :: "ext \<Rightarrow> blake \<Rightarrow> http_post \<Rightarrow> agent_card \<Rightarrow> string \<Rightarrow> u32 \<Rightarrow> (string \<times> string \<times> string) list result" where
  "wallet_events E B N crd network limit =
     bind_res (derive_address_from_card E B crd) (\<lambda>address.
     bind_res (query_events E N (make_ws_client network) (BySender address) limit) (\<lambda>events.
     Inr (map event_row events)))"

subsection \<open>What a stream delivers\<close>

text \<open>The events before the peer closes or fails, and how it ends.\<close>

fun arrivals :: "ext \<Rightarrow> ws_incoming \<Rightarrow> (nat \<times> iota_event) list" where
  "arrivals E (Inr (WsText text) # ms) = (case delivered E text of Some a \<Rightarrow> a # arrivals E ms | None \<Rightarrow> arrivals E ms)"
| "arrivals E (Inr (WsBinary b) # ms) = arrivals E ms"
| "arrivals E (Inr (WsPing b) # ms) = arrivals E ms"
| "arrivals E (Inr (WsPong b) # ms) = arrivals E ms"
| "arrivals E _ = []"

fun ending :: "ws_incoming \<Rightarrow> unit result" where
  "ending [] = Inr ()"
| "ending (Inl e # ms) = Inl e"
| "ending (Inr (WsClose r) # ms) = Inr ()"
| "ending (m # ms) = ending ms"

text \<open>The lines for a list of events, numbered from the one after \<open>c\<close>.\<close>

fun numbered :: "u32 \<Rightarrow> (nat \<times> iota_event) list \<Rightarrow> watch_line list" where
  "numbered c [] = []"
| "numbered c ((n, ev) # es) = watch_row (if n = 1 then ''outgoing'' else ''incoming'') (c + 1) ev # numbered (c + 1) es"

lemma unat_next: "c < l \<Longrightarrow> unat (c + 1) = Suc (unat c)" for c l :: u32
proof -
  assume "c < l"
  then have "unat c < unat l" "unat l < 2 ^ 32" using unsigned_less [of l] by (simp_all add: word_less_nat_alt)
  then show ?thesis by (simp add: unat_word_ariths)
qed

lemma unat_next_less: "c < l \<Longrightarrow> c + 1 < l \<longleftrightarrow> Suc (unat c) < unat l" for c l :: u32
  by (simp add: unat_next word_less_nat_alt)

definition room :: "u32 \<Rightarrow> u32 \<Rightarrow> 'a list \<Rightarrow> nat" where
  "room limit c xs = (if limit = 0 then length xs else unat limit - unat c)"

abbreviation watch_stream :: "ext \<Rightarrow> u32 \<Rightarrow> ws_incoming \<Rightarrow> u32 \<times> watch_line list \<Rightarrow> unit result \<times> ws_message list \<times> u32 \<times> watch_line list" where
  "watch_stream E limit \<equiv> event_loop E (\<lambda>n ev. watch_callback limit ev (if n = 1 then ''outgoing'' else ''incoming''))"

lemma watch_loop:
  assumes "limit = 0 \<or> c < limit"
  shows "fst (watch_stream E limit ms (c, rows))
      = (if limit \<noteq> 0 \<and> unat limit - unat c \<le> length (arrivals E ms) then Inr () else ending ms)
    \<and> snd (snd (snd (watch_stream E limit ms (c, rows)))) = rows @ numbered c (take (room limit c (arrivals E ms)) (arrivals E ms))"
  using assms
proof (induction ms arbitrary: c rows)
  case (Cons m ms)
  show ?case
  proof (cases m)
    case (Inl e)
    then show ?thesis using Cons.prems by (auto simp: word_less_nat_alt room_def)
  next
    case (Inr msg)
    show ?thesis
    proof (cases msg)
      case (WsText body)
      show ?thesis
      proof (cases "delivered E body")
        case None
        then show ?thesis using Cons.IH [OF Cons.prems, of rows] Inr WsText by (simp add: room_def)
      next
        case (Some a)
        obtain n ev where a: "a = (n, ev)" by (cases a)
        show ?thesis
        proof (cases "limit = 0 \<or> c + 1 < limit")
          case True
          then have r: "limit \<noteq> 0 \<Longrightarrow> unat limit - unat c = Suc (unat limit - unat (c + 1))"
            using Cons.prems by (auto simp: unat_next unat_next_less)
          show ?thesis using Cons.IH [OF True] True r Inr WsText Some a
            by (auto simp: watch_callback_def Let_def room_def split: prod.split)
        next
          case False
          then have "unat limit - unat c = 1" using Cons.prems by (auto simp: unat_next_less) (auto simp: word_less_nat_alt)
          then show ?thesis using False Inr WsText Some a by (auto simp: watch_callback_def Let_def room_def)
        qed
      qed
    next
      case (WsClose r)
      then show ?thesis using Inr Cons.prems by (auto simp: word_less_nat_alt room_def)
    qed (use Inr Cons.IH [OF Cons.prems, of rows] in \<open>simp_all add: room_def case_prod_beta\<close>)
  qed
qed (auto simp: word_less_nat_alt room_def)

lemma wallet_watch_open:
  assumes "derive_address_from_card E B crd = Inr address" and "wn_connect W (ws_url (make_ws_client network)) = Inr ms"
    and "wn_send W = (\<lambda>_. Inr ())"
  shows "wallet_watch E B W crd network limit
    = (fst (watch_stream E limit (drop 2 ms) (0, [])), snd (snd (watch_stream E limit (drop 2 ms) (0, []))))"
  using assms by (simp add: wallet_watch_def watch_address_def Let_def case_prod_beta)

text \<open>
  C40: what a watch shows.  Once connected, with both subscriptions sent, the lines are exactly the
  events that arrive after the first two messages, in their order and numbered from one, up to the limit
  when there is one; the watch ends well when the limit is reached, and otherwise the way the stream ends.
  Whatever comes as one of the first two messages, an event included, is passed over.
\<close>

theorem watch_shows_exactly:
  assumes "derive_address_from_card E B crd = Inr address" and "wn_connect W (ws_url (make_ws_client network)) = Inr ms"
    and "wn_send W = (\<lambda>_. Inr ())"
  shows "snd (snd (wallet_watch E B W crd network limit)) = numbered 0
      (if limit = 0 then arrivals E (drop 2 ms) else take (unat limit) (arrivals E (drop 2 ms)))
    \<and> fst (wallet_watch E B W crd network limit)
      = (if limit \<noteq> 0 \<and> unat limit \<le> length (arrivals E (drop 2 ms)) then Inr () else ending (drop 2 ms))"
proof -
  have "limit = 0 \<or> 0 < limit" by (simp add: word_gt_0)
  from watch_loop [OF this, of E "drop 2 ms" "[]"] show ?thesis
    by (simp add: wallet_watch_open [OF assms] room_def)
qed

definition demo_event_ext :: ext where
  "demo_event_ext = demo_node_ext\<lparr>json_parse := (\<lambda>_. Some (JObj [(''jsonrpc'', JStr ''2.0''), (''method'', JStr ''iota_subscribeEvent''),
     (''params'', JObj [(''subscription'', JNum 7), (''result'', JObj [(''id'', JNum 1), (''sender'', JStr ''me'')])])]))\<rparr>"

lemma demo_delivered: "delivered demo_event_ext t = Some (7, \<lparr>ev_id = JNum 1, ev_package_id = None, ev_transaction_module = None,
    ev_sender = Some ''me'', ev_event_type = None, ev_parsed_json = None, ev_timestamp_ms = None\<rparr>)"
  by (simp add: delivered_def demo_event_ext_def notification_from_json_def struct_opt_members_def opt_field_def struct_field_def
      opt_str_def opt_of_json_def notification_params_def struct_members_def event_from_json_def json_object_def)

definition demo_net :: "ws_incoming \<Rightarrow> ws_net" where
  "demo_net ms = \<lparr>wn_connect = (\<lambda>_. Inr ms), wn_send = (\<lambda>_. Inr ())\<rparr>"

lemma demo_address: "\<exists>address. derive_address_from_card demo_event_ext (pad 32) demo_wallet_card = Inr address"
  by (simp add: derive_address_from_card_def demo_wallet_card_def demo_event_ext_def demo_node_ext_def ref_ext_def unnibbles_nibbles)

text \<open>Of four texts that each announce an event, the first two are taken for confirmations.\<close>

theorem watch_shows_exactly_witness:
  "wallet_watch demo_event_ext (pad 32) (demo_net [Inr (WsText ''t''), Inr (WsText ''t''), Inr (WsText ''t''), Inr (WsText ''t'')]) demo_wallet_card ''testnet'' 5
     = (Inr (), snd (wallet_watch demo_event_ext (pad 32) (demo_net [Inr (WsText ''t''), Inr (WsText ''t''), Inr (WsText ''t''), Inr (WsText ''t'')]) demo_wallet_card ''testnet'' 5))
   \<and> snd (snd (wallet_watch demo_event_ext (pad 32) (demo_net [Inr (WsText ''t''), Inr (WsText ''t''), Inr (WsText ''t''), Inr (WsText ''t'')]) demo_wallet_card ''testnet'' 5))
     = [(''incoming'', 1, ''unknown'', ''me'', ''?''), (''incoming'', 2, ''unknown'', ''me'', ''?'')]"
proof -
  let ?W = "demo_net [Inr (WsText ''t''), Inr (WsText ''t''), Inr (WsText ''t''), Inr (WsText ''t'')]"
  obtain address where a: "derive_address_from_card demo_event_ext (pad 32) demo_wallet_card = Inr address" using demo_address by blast
  have "wn_connect ?W u = Inr [Inr (WsText ''t''), Inr (WsText ''t''), Inr (WsText ''t''), Inr (WsText ''t'')]" for u by (simp add: demo_net_def)
  from watch_shows_exactly [OF a this, where limit = 5 and network = "''testnet''"] show ?thesis
    by (simp add: demo_net_def demo_delivered watch_row_def prod_eq_iff)
qed

text \<open>
  A watch does not know the direction of an event.  The subscription numbers are the node's, while the
  client takes them for its own request numbers: unless the node calls a subscription 1,
  every event is shown as incoming, those the address itself sent included.
\<close>

theorem watch_direction_unknown:
  assumes "derive_address_from_card E B crd = Inr address" and "wn_connect W (ws_url (make_ws_client network)) = Inr ms"
    and "wn_send W = (\<lambda>_. Inr ())" and "1 \<notin> fst ` set (arrivals E (drop 2 ms))"
  shows "fst ` set (snd (snd (wallet_watch E B W crd network limit))) \<subseteq> {''incoming''}"
proof -
  have rows: "1 \<notin> fst ` set es \<Longrightarrow> fst ` set (numbered c es) \<subseteq> {''incoming''}" for c es
    by (induction c es rule: numbered.induct) (auto simp: watch_row_def)
  have "1 \<notin> fst ` set (take n (arrivals E (drop 2 ms)))" for n
    using assms(4) set_take_subset [of n "arrivals E (drop 2 ms)"] by blast
  moreover have "limit = 0 \<or> 0 < limit" by (simp add: word_gt_0)
  from watch_loop [OF this, of E "drop 2 ms" "[]"]
  have "snd (snd (wallet_watch E B W crd network limit)) = numbered 0 (take (room limit 0 (arrivals E (drop 2 ms))) (arrivals E (drop 2 ms)))"
    by (simp add: wallet_watch_open [OF assms(1-3)])
  ultimately show ?thesis using rows by simp
qed

theorem watch_direction_unknown_witness:
  "fst ` set (snd (snd (wallet_watch demo_event_ext (pad 32) (demo_net [Inr (WsText ''t''), Inr (WsText ''t''), Inr (WsText ''t'')]) demo_wallet_card ''testnet'' 0))) \<subseteq> {''incoming''}"
proof -
  let ?W = "demo_net [Inr (WsText ''t''), Inr (WsText ''t''), Inr (WsText ''t'')]"
  obtain address where a: "derive_address_from_card demo_event_ext (pad 32) demo_wallet_card = Inr address" using demo_address by blast
  have c: "wn_connect ?W u = Inr [Inr (WsText ''t''), Inr (WsText ''t''), Inr (WsText ''t'')]" for u by (simp add: demo_net_def)
  show ?thesis
    by (rule watch_direction_unknown [OF a c]) (simp_all add: demo_net_def demo_delivered)
qed

end
