(* ===== verification/Cli_Commands.thy ===== *)
theory Cli_Commands
  imports Http_Sig Event_Stream License A2a_Server
begin

text \<open>
  The commands of \<^verbatim>\<open>grokingclawid-cli/src/commands\<close> that sign and verify requests (\<^verbatim>\<open>sign.rs\<close>), list the
  audit log (\<^verbatim>\<open>audit.rs\<close>), export a card (\<^verbatim>\<open>export.rs\<close>) and manage the licence (\<^verbatim>\<open>license.rs\<close>).  What they
  print is modelled as the values shown.
\<close>

subsection \<open>Signing a request\<close>

definition parse_headers :: "string list \<Rightarrow> (string \<times> string) list" where
  "parse_headers headers = List.map_filter (\<lambda>h. map_option (\<lambda>(k, v). (trim k, trim v)) (split_once (CHR '':'') h)) headers"

definition cli_request :: "string \<Rightarrow> string \<Rightarrow> string list \<Rightarrow> http_request" where
  "cli_request meth url headers =
     \<lparr>req_method = to_uppercase meth, req_url = url, req_headers = parse_headers headers, req_body = None\<rparr>"

definition cli_components :: "string list \<Rightarrow> component list" where
  "cli_components headers = [Method, Authority, Path] @ map (\<lambda>(name, _). Header (to_lowercase name)) (parse_headers headers)"

definition cli_params :: "datetime \<Rightarrow> datetime \<Rightarrow> uuid \<Rightarrow> agent_card \<Rightarrow> signature_params" where
  "cli_params now now' nonce crd =
     \<lparr>sp_keyid = ''urn:uuid:'' @ card_id crd, sp_alg = (if card_crypto_scheme crd = Hybrid then AlgHybrid else AlgEd25519),
      sp_created = timestamp now, sp_expires = Some (timestamp now' + 300), sp_nonce = Some nonce, sp_label = ''sig1''\<rparr>"

definition cli_sign ::
    "ext \<Rightarrow> datetime \<Rightarrow> datetime \<Rightarrow> uuid \<Rightarrow> string \<Rightarrow> string \<Rightarrow> agent_card \<Rightarrow> string \<Rightarrow> string list \<Rightarrow> signed_request result" where
  "cli_sign E now now' nonce meth url crd key_pem headers =
     (let r = cli_request meth url headers; cs = cli_components headers; p = cli_params now now' nonce crd
      in if card_crypto_scheme crd = Hybrid
         then bind_res (decode_hybrid_private_key_pem E key_pem) (\<lambda>(ed_key, mldsa_sk). sign_request_hybrid E r cs p ed_key mldsa_sk)
         else bind_res (decode_private_key_pem E key_pem) (\<lambda>ed_key. sign_request E r cs p ed_key))"

text \<open>The answer as a curl command, line by line; values are put between quotes as they are.\<close>

definition single_quoted :: "string \<Rightarrow> string" where
  "single_quoted s = [CHR 0x27] @ s @ [CHR 0x27]"

definition curl_lines :: "string \<Rightarrow> string \<Rightarrow> string list \<Rightarrow> signed_request \<Rightarrow> string list" where
  "curl_lines meth url headers s =
     (let bs = '' '' @ [CHR 0x5C]; h = (\<lambda>text. ''  -H '' @ single_quoted text)
      in [''curl -X '' @ to_uppercase meth @ bs, ''  '' @ single_quoted url @ bs]
         @ map (\<lambda>(name, v). h (name @ '': '' @ v) @ bs) (parse_headers headers)
         @ [h (''Signature-Input: '' @ sr_signature_input s) @ bs, h (''Signature: '' @ sr_signature s)]
         @ (case sr_pq_signature s of None \<Rightarrow> [] | Some pq \<Rightarrow> [h (''Signature-PQ: '' @ pq)]))"

text \<open>The verification: the report, and whether the command ends well.\<close>

definition cli_verify_sig ::
    "ext \<Rightarrow> datetime \<Rightarrow> string \<Rightarrow> string \<Rightarrow> string \<Rightarrow> string \<Rightarrow> string option \<Rightarrow> agent_card \<Rightarrow> string list \<Rightarrow> (http_verification \<times> bool) result" where
  "cli_verify_sig E now meth url signature_input signature pq_signature crd headers =
     (let r = cli_request meth url headers
      in bind_res
        (case pq_signature of
           Some pq_sig \<Rightarrow>
             bind_res (of_option MissingPqKey (card_pq_public_key crd)) (\<lambda>pq_pub.
             verify_request_hybrid E now r signature_input signature pq_sig (card_public_key crd) pq_pub)
         | None \<Rightarrow> verify_request E now r signature_input signature (card_public_key crd)) (\<lambda>v.
        Inr (v, hv_ed25519_valid v \<and> (case hv_mldsa65_valid v of Some b \<Rightarrow> b | None \<Rightarrow> True) \<and> \<not> hv_expired v)))"

subsection \<open>The audit log\<close>

definition ellipsis :: string where
  "ellipsis = [CHR 0xE2, CHR 0x80, CHR 0xA6]"

definition audit_truncate :: "string \<Rightarrow> nat \<Rightarrow> string result" where
  "audit_truncate s max_len =
     (if length s \<le> max_len then Inr s
      else if is_char_boundary s (max_len - 1) then Inr (take (max_len - 1) s @ ellipsis)
      else Inl (Panic ''byte index is not a char boundary''))"

definition hash_short :: "string \<Rightarrow> string result" where
  "hash_short h =
     (if 16 \<le> length h then (if is_char_boundary h 16 then Inr (take 16 h) else Inl (Panic ''byte index is not a char boundary''))
      else Inr h)"

type_synonym audit_line = "int \<times> uuid \<times> string \<times> string \<times> string \<times> string"

definition audit_row :: "(int \<Rightarrow> string option) \<Rightarrow> audit_entry \<Rightarrow> audit_line result" where
  "audit_row show_time e =
     bind_res (hash_short (ae_entry_hash e)) (\<lambda>h.
     bind_res (audit_truncate (ae_target e) 24) (\<lambda>target.
     Inr (ae_id e, ae_agent_id e, ae_action e, target,
          case show_time (ae_timestamp e) of Some t \<Rightarrow> t | None \<Rightarrow> int_str (ae_timestamp e), h)))"

fun all_res :: "('a \<Rightarrow> 'b result) \<Rightarrow> 'a list \<Rightarrow> 'b list result" where
  "all_res f [] = Inr []"
| "all_res f (x # xs) = bind_res (f x) (\<lambda>y. bind_res (all_res f xs) (\<lambda>ys. Inr (y # ys)))"

definition cli_audit ::
    "ext \<Rightarrow> datetime \<Rightarrow> (int \<Rightarrow> string option) \<Rightarrow> audit_db result \<Rightarrow> string option \<Rightarrow> string option \<Rightarrow> audit_line list result" where
  "cli_audit E now show_time db agent_id last_ttl =
     bind_res db (\<lambda>conn.
     bind_res (case last_ttl of Some ttl \<Rightarrow> bind_res (parse_ttl ttl) (\<lambda>d. Inr (Some d)) | None \<Rightarrow> Inr None) (\<lambda>duration.
     all_res (audit_row show_time) (query_entries E now conn agent_id duration)))"

subsection \<open>Export\<close>

text \<open>\<^verbatim>\<open>Path::parent\<close> of the path of a file.\<close>

definition path_parent :: "string \<Rightarrow> string option" where
  "path_parent p =
     (if p = [] \<or> p = ''/'' then None
      else let d = rev (dropWhile (\<lambda>c. c \<noteq> CHR ''/'') (rev p)) in Some (if d = ''/'' then d else butlast d))"

definition export_path :: "string \<Rightarrow> string option \<Rightarrow> string" where
  "export_path card_path output =
     (case output of
        Some p \<Rightarrow> p
      | None \<Rightarrow> path_join (case path_parent card_path of Some d \<Rightarrow> d | None \<Rightarrow> ''.'') ''a2a-agent-card.json'')"

definition cli_export ::
    "(string \<Rightarrow> agent_card option) \<Rightarrow> (json \<Rightarrow> string) \<Rightarrow> io_faults \<Rightarrow> string \<Rightarrow> string \<Rightarrow> string option \<Rightarrow> a2a_agent_card io_op" where
  "cli_export parse_card pretty io card_path base_url output =
     with_fs (\<lambda>fs.
       then_io (lift_io (bind_res (read_at card_path fs) (\<lambda>card_json.
                         of_option (ParseError card_path) (parse_card card_json)))) (\<lambda>crd.
       then_io (write_file io (export_path card_path output) (pretty (a2a_card_value (to_a2a crd base_url)))) (\<lambda>_.
       lift_io (Inr (to_a2a crd base_url)))))"

subsection \<open>The licence\<close>

definition limit_text :: "u32 option \<Rightarrow> string" where
  "limit_text n = (case n of Some m \<Rightarrow> nat_str (unat m) | None \<Rightarrow> ''unlimited'')"

definition mesh_limit_text :: "u32 option \<Rightarrow> string" where
  "mesh_limit_text n = (if n = Some 0 then ''disabled'' else limit_text n)"

definition license_show :: "ext \<Rightarrow> license_disk \<Rightarrow> agent_dir_entry list option \<Rightarrow> (string \<times> string) list" where
  "license_show E disk agents_dir =
     (let state = load_license E disk; limits = st_limits state; n = nat_str (unat (count_agents agents_dir))
      in [(''Tier'', license_tier_display (st_tier state))]
         @ (case st_licensee_email state of None \<Rightarrow> [] | Some email \<Rightarrow> [(''Licensee'', email)])
         @ (case st_issued_at state of None \<Rightarrow> [] | Some t \<Rightarrow> [(''Issued'', rfc3339 E t)])
         @ [(''Agents'', limit_text (max_agents limits)), (''Proxy'', limit_text (max_proxy_agents limits)),
            (''Mesh nodes'', mesh_limit_text (max_mesh_nodes limits))]
         @ map (\<lambda>f. (''Feature'', license_feature_display f)) (features limits)
         @ [(''Usage'', case max_agents limits of Some m \<Rightarrow> n @ ''/'' @ nat_str (unat m) @ '' agents'' | None \<Rightarrow> n @ '' agents (unlimited)'')]
         @ (if st_tier state = Free then [(''Upgrade'', ''https://grokingclaw.com'')] else []))"

definition cli_activate :: "ext \<Rightarrow> string \<Rightarrow> license_disk \<Rightarrow> (string \<times> string) list result \<times> license_disk" where
  "cli_activate E key disk =
     (case activate_license E disk key of
        Inl e \<Rightarrow> (Inl e, disk)
      | Inr (state, disk') \<Rightarrow>
          (Inr ([(''Tier'', license_tier_display (st_tier state))]
             @ (case st_licensee_email state of None \<Rightarrow> [] | Some email \<Rightarrow> [(''Licensee'', email)])
             @ [(''Agents'', limit_text (max_agents (st_limits state)))]
             @ (if features (st_limits state) = [] then []
                else [(''Features'', join '', '' (map license_feature_display (features (st_limits state))))])), disk'))"

definition cli_deactivate :: "license_disk \<Rightarrow> license_disk" where
  "cli_deactivate disk = deactivate_license disk"

subsection \<open>What is signed verifies\<close>

text \<open>The base of the command's components depends on the URL by its authority and path only.\<close>

lemma cli_base_url:
  assumes "url_parse E url = Some u" "url_parse E url' = Some u'" "authority_of u' = authority_of u" "url_path u' = url_path u"
  shows "build_signature_base E (cli_request meth url' headers) (cli_components headers) p
    = build_signature_base E (cli_request meth url headers) (cli_components headers) p"
proof -
  have "component_value (cli_request meth url' headers) u' c = component_value (cli_request meth url headers) u c"
    if "c \<in> set (cli_components headers)" for c
    using that assms(3,4) by (auto simp: cli_request_def cli_components_def component_value_def)
  then have vals: "map (\<lambda>c. comp_identifier c @ '': '' @ component_value (cli_request meth url' headers) u' c) (cli_components headers)
      = map (\<lambda>c. comp_identifier c @ '': '' @ component_value (cli_request meth url headers) u c) (cli_components headers)"
    by (intro map_cong) simp_all
  have "req_url (cli_request meth x headers) = x" for x by (simp add: cli_request_def)
  then show ?thesis unfolding build_signature_base_def by (simp only: assms(1,2) of_option_simps bind_res_simps vals)
qed

lemma cli_components_ok:
  "\<forall>(name, v) \<in> set (parse_headers headers). component_ok (Header name) \<Longrightarrow> \<forall>c \<in> set (cli_components headers). component_ok c"
proof -
  have "to_lowercase n = [] \<longleftrightarrow> n = []" for n by (simp add: to_lowercase_def)
  then have "component_ok (Header n) \<Longrightarrow> component_ok (Header (to_lowercase n))" for n by (simp add: component_ok_def)
  moreover have "component_ok Method" "component_ok Authority" "component_ok Path" by (simp_all add: component_ok_def)
  moreover assume "\<forall>(name, v) \<in> set (parse_headers headers). component_ok (Header name)"
  ultimately show ?thesis by (auto simp: cli_components_def)
qed

lemma cli_params_ok:
  assumes "param_text_ok (card_id crd)" "param_text_ok nonce" "i64_ok (timestamp now)" "i64_ok (timestamp now' + 300)"
  shows "params_ok (cli_params now now' nonce crd)"
  using assms by (simp add: params_ok_def cli_params_def param_text_ok_def is_space_def)

text \<open>A hybrid signature is the classical one with another header beside it.\<close>

lemma sign_hybrid_split:
  assumes "sign_request_hybrid E r cs p k sk = Inr s"
  obtains s0 b pq where "sign_request E r cs p k = Inr s0" "build_signature_base E r cs p = Inr b" "mldsa_sign E sk b = Inr pq"
    "s = s0\<lparr>sr_pq_signature := Some (sp_label p @ ''-pq=:'' @ pq @ '':'')\<rparr>"
  using assms by (auto simp: sign_request_hybrid_def sign_request_def bind_res_Inr_iff)

lemma verify_hybrid_part:
  assumes "b64_ok E" "CHR ''='' \<notin> set l" "mldsa_sign E sk b = Inr pq" "pq_pair_ok E pk sk"
  shows "\<exists>raw. parse_signature E (l @ ''-pq=:'' @ pq @ '':'') = Inr (l @ ''-pq'', raw)
    \<and> mldsa_verify E (encode_mldsa_public_key E pk) b (b64_encode E raw) = Inr True"
proof -
  obtain raw where raw: "pq = b64_encode E raw" using assms(3) by (auto simp: mldsa_sign_def bind_res_Inr_iff)
  have "mldsa_verify E (encode_mldsa_public_key E pk) b pq = Inr True" using mldsa_verify_sign [OF assms(1,4), of b] assms(3) by auto
  moreover have "CHR ''='' \<notin> set (l @ ''-pq'')" using assms(2) by simp
  from parse_sig_header [OF assms(1) this, of raw] have "parse_signature E (l @ ''-pq=:'' @ pq @ '':'') = Inr (l @ ''-pq'', raw)"
    by (simp add: raw)
  ultimately show ?thesis by (auto simp: raw)
qed

text \<open>
  C21: what \<^verbatim>\<open>sign\<close> prints, \<^verbatim>\<open>verify-sig\<close> accepts.  With the key of the card, header names that are tokens and a
  URL that parses, signing succeeds, for a hybrid card with both signatures; and verifying with the same
  card, method and headers succeeds within the five minutes of the signature and fails after them, at any URL
  of the same authority and path: the query is not part of what is signed.
\<close>

theorem sign_then_verify_sig:
  assumes "b64_ok E" "ed_ok E" "length k = 32"
    and key: "if card_crypto_scheme crd = Hybrid
      then decode_hybrid_private_key_pem E key_pem = Inr (k, sk) \<and> pq_pair_ok E pk sk
        \<and> card_pq_public_key crd = Some (encode_mldsa_public_key E pk)
      else decode_private_key_pem E key_pem = Inr k"
    and card: "card_public_key crd = encode_public_key E (ed_public E k)"
    and url: "url_parse E url = Some u" "url_parse E url' = Some u'" "authority_of u' = authority_of u" "url_path u' = url_path u"
    and texts: "\<forall>(name, v) \<in> set (parse_headers headers). component_ok (Header name)" "param_text_ok (card_id crd)" "param_text_ok nonce"
      "i64_ok (timestamp now)" "i64_ok (timestamp now' + 300)"
  shows "\<exists>s v. cli_sign E now now' nonce meth url crd key_pem headers = Inr s
    \<and> cli_verify_sig E later meth url' (sr_signature_input s) (sr_signature s) (sr_pq_signature s) crd headers
        = Inr (v, timestamp later \<le> timestamp now' + 300)
    \<and> hv_keyid v = ''urn:uuid:'' @ card_id crd \<and> hv_mldsa65_valid v = (if card_crypto_scheme crd = Hybrid then Some True else None)"
proof -
  let ?r = "cli_request meth url headers" and ?r' = "cli_request meth url' headers"
    and ?cs = "cli_components headers" and ?p = "cli_params now now' nonce crd"
  note ok = cli_components_ok [OF texts(1)] cli_params_ok [OF texts(2-5)]
  obtain b where b: "build_signature_base E ?r ?cs ?p = Inr b"
    using url(1) by (simp add: build_signature_base_def cli_request_def)
  then obtain s0 where s0: "sign_request E ?r ?cs ?p k = Inr s0" by (simp add: sign_request_def)
  have b': "build_signature_base E ?r' ?cs ?p = Inr b" using cli_base_url [OF url] b by simp
  note v0 = verify_request_eq [OF assms(1-3) ok(2,1) s0 b b', of later] ed_okD(4) [OF assms(2,3)]
  have label: "sp_label ?p = ''sig1''" "CHR ''='' \<notin> set (sp_label ?p)" "sp_keyid ?p = ''urn:uuid:'' @ card_id crd"
    "sp_expires ?p = Some (timestamp now' + 300)" by (simp_all add: cli_params_def)
  show ?thesis
  proof (cases "card_crypto_scheme crd = Hybrid")
    case False
    then have k: "decode_private_key_pem E key_pem = Inr k" using key by simp
    have "sr_pq_signature s0 = None" using s0 by (auto simp: sign_request_def b)
    then show ?thesis using False k s0 v0 card label by (simp add: cli_sign_def cli_verify_sig_def Let_def not_less)
  next
    case True
    then have k: "decode_hybrid_private_key_pem E key_pem = Inr (k, sk)" "pq_pair_ok E pk sk"
      "card_pq_public_key crd = Some (encode_mldsa_public_key E pk)" using key by simp_all
    obtain pq where pq: "mldsa_sign E sk b = Inr pq" using mldsa_verify_sign [OF assms(1) k(2), of b] by blast
    then obtain s where s: "sign_request_hybrid E ?r ?cs ?p k sk = Inr s" by (simp add: sign_request_hybrid_def b)
    have s_eq: "s = s0\<lparr>sr_pq_signature := Some (sp_label ?p @ ''-pq=:'' @ pq @ '':'')\<rparr>"
      using sign_hybrid_split [OF s] s0 b pq by (metis sum.inject(2))
    have input: "parse_signature_input later (sr_signature_input s0) = Inr (map norm_component ?cs, ?p)"
      using s0 parse_sig_input [OF ok(2,1), of later] by (auto simp: sign_request_def b)
    have base: "build_signature_base E ?r' (map norm_component ?cs) ?p = Inr b" using base_norm [OF ok(1)] b' by simp
    obtain raw where raw: "parse_signature E (sp_label ?p @ ''-pq=:'' @ pq @ '':'') = Inr (sp_label ?p @ ''-pq'', raw)"
      "mldsa_verify E (encode_mldsa_public_key E pk) b (b64_encode E raw) = Inr True"
      using verify_hybrid_part [OF assms(1) label(2) pq k(2)] by blast
    show ?thesis using True k s v0 card label raw input base
      by (simp add: cli_sign_def cli_verify_sig_def Let_def s_eq verify_request_hybrid_def not_less)
  qed
qed

lemma demo_headers: "parse_headers [''Date: now''] = [(''Date'', ''now'')]" "component_ok (Header ''Date'')"
  by code_simp+

theorem sign_then_verify_sig_witness:
  "\<exists>s v. cli_sign ref_ext 0 0 ''n1'' ''get'' ''http://example.com/?q=1'' demo_wallet_card
        (encode_hybrid_private_key_pem ref_ext (replicate 32 CHR ''k'') (replicate 4032 CHR ''p'')) [''Date: now''] = Inr s
    \<and> cli_verify_sig ref_ext 0 ''get'' ''http://example.com/?q=2'' (sr_signature_input s) (sr_signature s) (sr_pq_signature s)
        demo_wallet_card [''Date: now''] = Inr (v, True)"
proof -
  let ?pem = "encode_hybrid_private_key_pem ref_ext (replicate 32 CHR ''k'') (replicate 4032 CHR ''p'')"
  obtain u where u: "url_parse ref_ext x = Some u" for x by (simp add: ref_ext_def)
  have scheme: "card_crypto_scheme demo_wallet_card = Hybrid" by (simp add: demo_wallet_card_def)
  have pair: "pq_pair_ok ref_ext (replicate 1952 CHR ''p'') (replicate 4032 CHR ''p'')" by simp
  have pem: "decode_hybrid_private_key_pem ref_ext ?pem = Inr (replicate 32 CHR ''k'', replicate 4032 CHR ''p'')"
    by (rule hybrid_pem_decode_encode) simp_all
  have "card_pq_public_key demo_wallet_card = Some (encode_mldsa_public_key ref_ext (replicate 1952 CHR ''p''))"
    by (simp add: demo_wallet_card_def encode_mldsa_public_key_def ref_ext_def)
  then have key: "if card_crypto_scheme demo_wallet_card = Hybrid
      then decode_hybrid_private_key_pem ref_ext ?pem = Inr (replicate 32 CHR ''k'', replicate 4032 CHR ''p'')
        \<and> pq_pair_ok ref_ext (replicate 1952 CHR ''p'') (replicate 4032 CHR ''p'')
        \<and> card_pq_public_key demo_wallet_card = Some (encode_mldsa_public_key ref_ext (replicate 1952 CHR ''p''))
      else decode_private_key_pem ref_ext ?pem = Inr (replicate 32 CHR ''k'')"
    using scheme pem pair by simp
  have card: "card_public_key demo_wallet_card = encode_public_key ref_ext (ed_public ref_ext (replicate 32 CHR ''k''))"
    by (simp add: demo_wallet_card_def encode_public_key_def ref_ext_def)
  have texts: "\<forall>(name, v) \<in> set (parse_headers [''Date: now'']). component_ok (Header name)"
    "param_text_ok (card_id demo_wallet_card)" "param_text_ok ''n1''" "i64_ok (timestamp 0)" "i64_ok (timestamp 0 + 300)"
    by (simp_all add: demo_headers demo_wallet_card_def param_text_ok_def i64_ok_def timestamp_def)
  show ?thesis
    using sign_then_verify_sig [OF ref_b64_ok ref_ed_ok length_replicate key card u u refl refl texts, where meth = "''get''" and later = 0,
        of "''http://example.com/?q=1''" "''http://example.com/?q=2''"]
    by (simp add: timestamp_def) blast
qed

text \<open>Without the second header only the classical signature is looked at, whatever the card: it is enough for a hybrid one too.\<close>

lemma verify_sig_pq_optional:
  "cli_verify_sig E now meth url si sig None (crd\<lparr>card_pq_public_key := k, card_crypto_scheme := c\<rparr>) headers
    = cli_verify_sig E now meth url si sig None crd headers"
  by (simp add: cli_verify_sig_def)

subsection \<open>Listing the log\<close>

lemma all_res_iff: "(\<exists>ys. all_res f xs = Inr ys) \<longleftrightarrow> (\<forall>x \<in> set xs. \<exists>y. f x = Inr y)"
  by (induction xs) (auto simp: bind_res_Inr_iff)

lemma all_res_length: "all_res f xs = Inr ys \<Longrightarrow> length ys = length xs"
  by (induction xs arbitrary: ys) (auto simp: bind_res_Inr_iff)

text \<open>
  the listing of the log is complete or breaks off.  The command lists every entry of its window, or it panics on the
  way, when the hash of one of them cannot be cut after 16 bytes or a target longer than 24 bytes cannot be cut after 23,
  because a character crosses the cut.
\<close>

theorem audit_listing_total:
  "(if \<forall>e \<in> set (query_entries E now conn agent_id None).
             (length (ae_entry_hash e) < 16 \<or> is_char_boundary (ae_entry_hash e) 16)
             \<and> (length (ae_target e) \<le> 24 \<or> is_char_boundary (ae_target e) 23)
          then \<exists>rows. cli_audit E now show_time (Inr conn) agent_id None = Inr rows \<and> length rows = length (query_entries E now conn agent_id None)
          else \<exists>what. cli_audit E now show_time (Inr conn) agent_id None = Inl (Panic what))"
proof -
  let ?es = "query_entries E now conn agent_id None"
  let ?ok = "\<lambda>e. (length (ae_entry_hash e) < 16 \<or> is_char_boundary (ae_entry_hash e) 16)
             \<and> (length (ae_target e) \<le> 24 \<or> is_char_boundary (ae_target e) 23)"
  have row: "(\<exists>y. audit_row show_time e = Inr y) \<longleftrightarrow> ?ok e" for e
    by (auto simp: audit_row_def hash_short_def audit_truncate_def)
  have panics: "all_res (audit_row show_time) es = Inl err \<Longrightarrow> \<exists>what. err = Panic what" for es err
    by (induction es) (auto simp: audit_row_def hash_short_def audit_truncate_def bind_res_def split: sum.splits if_splits)
  have run: "cli_audit E now show_time (Inr conn) agent_id None = all_res (audit_row show_time) ?es"
    by (simp add: cli_audit_def)
  show ?thesis
  proof (cases "\<forall>e \<in> set ?es. ?ok e")
    case True
    then obtain rows where "all_res (audit_row show_time) ?es = Inr rows" using all_res_iff [of "audit_row show_time" ?es] row by blast
    then show ?thesis using True all_res_length run by force
  next
    case False
    then have "\<nexists>ys. all_res (audit_row show_time) ?es = Inr ys" using all_res_iff [of "audit_row show_time" ?es] row by blast
    then obtain err where "all_res (audit_row show_time) ?es = Inl err" by (cases "all_res (audit_row show_time) ?es") auto
    then show ?thesis using False panics run by auto
  qed
qed

definition demo_log :: audit_db where
  "demo_log = open_audit_db\<lparr>audit_rows := [\<lparr>ae_id = 1, ae_agent_id = ''a'', ae_action = ''issue'', ae_target = replicate 22 CHR ''x'' @ ellipsis,
     ae_timestamp = 0, ae_prev_hash = [], ae_entry_hash = [], ae_signature = []\<rparr>]\<rparr>"

theorem audit_listing_total_witness:
  "\<exists>what. cli_audit ref_ext 0 (\<lambda>_. None) (Inr demo_log) None None = Inl (Panic what)"
proof -
  have es: "query_entries ref_ext 0 demo_log None None = map (\<lambda>row. row\<lparr>ae_agent_id := parse_uuid_or_nil ref_ext (ae_agent_id row)\<rparr>) (audit_rows demo_log)"
    by (simp add: query_entries_def)
  have "\<not> (\<forall>e \<in> set (query_entries ref_ext 0 demo_log None None).
      (length (ae_entry_hash e) < 16 \<or> is_char_boundary (ae_entry_hash e) 16) \<and> (length (ae_target e) \<le> 24 \<or> is_char_boundary (ae_target e) 23))"
    unfolding es by (simp add: demo_log_def ellipsis_def is_char_boundary_def nth_append)
  then show ?thesis using audit_listing_total [of ref_ext 0 demo_log None "\<lambda>_. None"] by auto
qed

end
