(* ===== verification/Cli_Main.thy ===== *)
theory Cli_Main
  imports Guard Cli_OAuth Cli_Commands
begin

text \<open>
  The command line program, \<^verbatim>\<open>grokingclawid-cli/src/main.rs\<close>: which command runs what, on the files, the
  audit log, the revocation registry and the licence it finds, and with which exit code.  The commands that
  only talk to a daemon, a node or an MCP server are in the theories of those parts.  The order of the effects is that
  of the sources, so an operation that fails leaves behind what was done before it.
\<close>

subsection \<open>State and effects\<close>

record cli_world =
  cw_files :: fs
  cw_audit :: audit_db
  cw_registry :: revocation_db
  cw_license :: license_disk

text \<open>
  What a run draws from outside: the clock when the command works and when it logs, the randomness, where the
  file operations fail, whether the databases open, and how JSON and times print.
\<close>

record cli_env =
  cv_now :: datetime
  cv_later :: datetime
  cv_uuid :: uuid
  cv_seed :: bytes
  cv_keygen :: "(bytes \<times> bytes) option"
  cv_nonce :: bytes
  cv_io :: io_faults
  cv_mode :: io_faults
  cv_audit_open :: "unit result"
  cv_registry_open :: "unit result"
  cv_pretty :: "json \<Rightarrow> string"
  cv_stamp :: "datetime \<Rightarrow> string"
  cv_show_time :: "int \<Rightarrow> string option"
  cv_agents_dir :: "agent_dir_entry list option"

type_synonym 'a cli_op = "cli_world \<Rightarrow> 'a result \<times> cli_world"

definition then_cli :: "'a cli_op \<Rightarrow> ('a \<Rightarrow> 'b cli_op) \<Rightarrow> 'b cli_op" where
  "then_cli f g w = (case f w of (Inl e, w') \<Rightarrow> (Inl e, w') | (Inr x, w') \<Rightarrow> g x w')"

definition lift_cli :: "'a result \<Rightarrow> 'a cli_op" where
  "lift_cli r w = (r, w)"

definition on_files :: "'a io_op \<Rightarrow> 'a cli_op" where
  "on_files f w = (case f (cw_files w) of (r, fs) \<Rightarrow> (r, w\<lparr>cw_files := fs\<rparr>))"

definition read_text :: "string \<Rightarrow> string cli_op" where
  "read_text p w = (read_at p (cw_files w), w)"

definition log_entry :: "ext \<Rightarrow> cli_env \<Rightarrow> uuid \<Rightarrow> string \<Rightarrow> string result \<Rightarrow> bytes \<Rightarrow> unit cli_op" where
  "log_entry E V agent action target key =
     then_cli (lift_cli (cv_audit_open V)) (\<lambda>_. then_cli (lift_cli target) (\<lambda>t w.
       (Inr (), w\<lparr>cw_audit := snd (record_entry E (cv_later V) (cw_audit w) agent action t key)\<rparr>)))"

definition load_card :: "ext \<Rightarrow> string \<Rightarrow> agent_card cli_op" where
  "load_card E p = then_cli (read_text p) (\<lambda>s.
     lift_cli (of_option (ParseError p) (Option.bind (json_parse E s) (card_from_json E))))"

definition card_file :: "string \<Rightarrow> string" where "card_file dir = path_join dir ''agent-card.json''"
definition key_file :: "string \<Rightarrow> string" where "key_file dir = path_join dir ''agent-key.pem''"

definition write_key :: "cli_env \<Rightarrow> string \<Rightarrow> string \<Rightarrow> unit io_op" where
  "write_key V p pem = then_io (write_file (cv_io V) p pem) (\<lambda>_. lift_io (cv_mode V p))"

definition write_identity :: "ext \<Rightarrow> cli_env \<Rightarrow> string \<Rightarrow> agent_card \<Rightarrow> string \<Rightarrow> unit io_op" where
  "write_identity E V dir crd pem =
     then_io (write_file (cv_io V) (card_file dir) (cv_pretty V (JObj (card_members E crd)))) (\<lambda>_.
     write_key V (key_file dir) pem)"

subsection \<open>Issue and verify\<close>

definition issue_card ::
    "ext \<Rightarrow> datetime \<Rightarrow> uuid \<Rightarrow> bytes \<Rightarrow> (bytes \<times> bytes) option \<Rightarrow> string \<Rightarrow> string \<Rightarrow> string \<Rightarrow> string \<Rightarrow> string
      \<Rightarrow> string \<Rightarrow> string option \<Rightarrow> (agent_card \<times> string) result" where
  "issue_card E now new_id seed keygen name owner scope ttl agent_type crypto_scheme trust_domain =
     (let scopes = map trim (split_on (CHR '','') scope)
      in bind_res (parse_ttl ttl) (\<lambda>duration.
         bind_res (agent_type_from_str agent_type) (\<lambda>atype.
         bind_res (crypto_scheme_from_str crypto_scheme) (\<lambda>scheme.
         bind_res (plus_duration E now duration) (\<lambda>expires_at.
         (let spiffe_id = map_option (\<lambda>td. generate_spiffe_id td name atype) trust_domain
          in bind_res (sign_under_scheme E seed keygen scheme
                (\<lambda>pub pq. build_card new_id name owner scopes pub pq [] None scheme now expires_at atype None spiffe_id))
             (\<lambda>p. Inr (build_card new_id name owner scopes (sp_public_key p) (sp_pq_public_key p)
                         (sp_signature p) (sp_pq_signature p) scheme now expires_at atype None spiffe_id, sp_key_pem p))))))))"

text \<open>The summary shows the first 16 bytes of the keys.\<close>

definition issue_summary :: "agent_card \<Rightarrow> agent_card result" where
  "issue_summary crd =
     bind_res (first16 (card_public_key crd)) (\<lambda>_.
     case card_pq_public_key crd of None \<Rightarrow> Inr crd | Some pq \<Rightarrow> bind_res (first16 pq) (\<lambda>_. Inr crd))"

definition run_issue ::
    "ext \<Rightarrow> cli_env \<Rightarrow> string \<Rightarrow> string \<Rightarrow> string \<Rightarrow> string \<Rightarrow> string \<Rightarrow> string \<Rightarrow> string option \<Rightarrow> string \<Rightarrow> agent_card cli_op" where
  "run_issue E V name owner scope ttl agent_type crypto_scheme trust_domain dir =
     then_cli (lift_cli (issue_card E (cv_now V) (cv_uuid V) (cv_seed V) (cv_keygen V) name owner scope ttl
       agent_type crypto_scheme trust_domain)) (\<lambda>(crd, pem).
     then_cli (on_files (then_io (create_dir_all (cv_io V) dir) (\<lambda>_. write_identity E V dir crd pem))) (\<lambda>_.
     then_cli (lift_cli (ed_key_of_pem E (card_crypto_scheme crd) pem)) (\<lambda>ed_key.
     then_cli (log_entry E V (card_id crd) ''issue'' (Inr (card_name crd)) ed_key) (\<lambda>_.
     lift_cli (issue_summary crd)))))"

definition run_verify :: "ext \<Rightarrow> cli_env \<Rightarrow> string \<Rightarrow> bool cli_op" where
  "run_verify E V card_path =
     then_cli (load_card E card_path) (\<lambda>crd w.
       (verify_card E (cv_now V) (case cv_registry_open V of Inr _ \<Rightarrow> Some (cw_registry w) | Inl _ \<Rightarrow> None) crd, w))"

subsection \<open>Delegate, rotate and revoke\<close>

definition token_members :: "ext \<Rightarrow> delegation_token \<Rightarrow> (string \<times> json) list" where
  "token_members E t =
     [(''id'', JStr (tok_id t)), (''parent_id'', JStr (tok_parent_id t)),
      (''agent_name'', JStr (tok_agent_name t)), (''scopes'', JArr (map JStr (tok_scopes t))),
      (''issued_at'', JStr (dt_serde E (tok_issued_at t))),
      (''expires_at'', JStr (dt_serde E (delegation_token.tok_expires_at t))), (''signature'', JStr (tok_signature t))]
     @ opt_member ''pq_signature'' (tok_pq_signature t)
     @ [(''crypto_scheme'', JStr (crypto_scheme_serde (tok_crypto_scheme t)))]"

definition delegate_token ::
    "ext \<Rightarrow> datetime \<Rightarrow> uuid \<Rightarrow> agent_card \<Rightarrow> string \<Rightarrow> string \<Rightarrow> string \<Rightarrow> string \<Rightarrow> (delegation_token \<times> bytes) result" where
  "delegate_token E now new_id parent_card key_pem to_name scope ttl =
     (let requested_scopes = map trim (split_on (CHR '','') scope)
      in bind_res (scopes_held (card_scopes parent_card) requested_scopes) (\<lambda>_.
         bind_res (parse_ttl ttl) (\<lambda>duration.
         bind_res (plus_duration E now duration) (\<lambda>expires_at.
         bind_res (require (expires_at \<le> card_expires_at parent_card) ExpiresAfterParent) (\<lambda>_.
         (let tok = build_token new_id (card_id parent_card) to_name requested_scopes now expires_at [] None
                      (card_crypto_scheme parent_card)
          in bind_res (token_signatures E parent_card key_pem (token_signing_payload E tok))
               (\<lambda>(signature, pq_signature, ed_key).
             Inr (tok\<lparr>tok_signature := signature, tok_pq_signature := pq_signature\<rparr>, ed_key))))))))"

definition token_file :: "string \<Rightarrow> string" where "token_file dir = path_join dir ''delegation-token.json''"

definition run_delegate ::
    "ext \<Rightarrow> cli_env \<Rightarrow> string \<Rightarrow> string \<Rightarrow> string \<Rightarrow> string \<Rightarrow> string \<Rightarrow> string \<Rightarrow> delegation_token cli_op" where
  "run_delegate E V card_path key_path to_name scope ttl dir =
     then_cli (load_card E card_path) (\<lambda>parent_card.
     then_cli (read_text key_path) (\<lambda>key_pem.
     then_cli (lift_cli (delegate_token E (cv_now V) (cv_uuid V) parent_card key_pem to_name scope ttl)) (\<lambda>(tok, ed_key).
     then_cli (on_files (then_io (create_dir_all (cv_io V) dir) (\<lambda>_.
       write_file (cv_io V) (token_file dir) (cv_pretty V (JObj (token_members E tok)))))) (\<lambda>_.
     then_cli (log_entry E V (card_id parent_card) ''delegate'' (Inr (''delegate:'' @ to_name)) ed_key) (\<lambda>_.
     lift_cli (Inr tok))))))"

text \<open>The new card with its key file, the old signing key and the text of the old public key.\<close>

definition rotated_card ::
    "ext \<Rightarrow> datetime \<Rightarrow> bytes \<Rightarrow> (bytes \<times> bytes) option \<Rightarrow> agent_card \<Rightarrow> string \<Rightarrow> string
      \<Rightarrow> (agent_card \<times> string \<times> bytes \<times> string) result" where
  "rotated_card E now seed keygen old_card old_key_pem ttl =
     bind_res (ed_key_of_pem E (card_crypto_scheme old_card) old_key_pem) (\<lambda>old_ed_key.
     (let old_pub_b64 = encode_public_key E (ed_public E old_ed_key)
      in bind_res (require (old_pub_b64 = card_public_key old_card) KeyMismatch) (\<lambda>_.
         bind_res (parse_ttl ttl) (\<lambda>duration.
         bind_res (plus_duration E now duration) (\<lambda>expires_at.
         bind_res (sign_under_scheme E seed keygen (card_crypto_scheme old_card)
                     (\<lambda>pub pq. build_rotated_card old_card pub pq [] None now expires_at)) (\<lambda>p.
         Inr (build_rotated_card old_card (sp_public_key p) (sp_pq_public_key p) (sp_signature p)
                (sp_pq_signature p) now expires_at, sp_key_pem p, old_ed_key, old_pub_b64)))))))"

text \<open>The old key is archived under the time in its name before card and key are replaced.\<close>

definition archive_file :: "cli_env \<Rightarrow> string \<Rightarrow> string" where
  "archive_file V dir = path_join dir (''agent-key.pem.'' @ cv_stamp V (cv_now V))"

definition run_rotate :: "ext \<Rightarrow> cli_env \<Rightarrow> string \<Rightarrow> string \<Rightarrow> string \<Rightarrow> string \<Rightarrow> agent_card cli_op" where
  "run_rotate E V card_path key_path ttl dir =
     then_cli (load_card E card_path) (\<lambda>old_card.
     then_cli (read_text key_path) (\<lambda>old_key_pem.
     then_cli (lift_cli (rotated_card E (cv_now V) (cv_seed V) (cv_keygen V) old_card old_key_pem ttl))
       (\<lambda>(new_card, new_key_pem, old_ed_key, old_pub_b64).
     then_cli (on_files (then_io (create_dir_all (cv_io V) dir) (\<lambda>_.
                         then_io (copy_file (cv_io V) key_path (archive_file V dir)) (\<lambda>_.
                         write_identity E V dir new_card new_key_pem)))) (\<lambda>_.
     then_cli (log_entry E V (card_id old_card) ''rotate''
                (bind_res (first16 old_pub_b64) (\<lambda>o16.
                 bind_res (first16 (card_public_key new_card)) (\<lambda>n16.
                 Inr (''old_key='' @ o16 @ ''... new_key='' @ n16 @ ''...'')))) old_ed_key) (\<lambda>_.
     lift_cli (Inr new_card))))))"

definition revoke_entry :: "ext \<Rightarrow> cli_env \<Rightarrow> agent_card \<Rightarrow> string \<Rightarrow> bytes \<Rightarrow> revocation_entry cli_op" where
  "revoke_entry E V crd reason key w =
     (case revoke E (cv_now V) (cw_registry w) (card_id crd) (card_name crd) reason ''self'' key of
        Inl e \<Rightarrow> (Inl e, w)
      | Inr (entry, registry') \<Rightarrow> (Inr entry, w\<lparr>cw_registry := registry'\<rparr>))"

definition run_revoke :: "ext \<Rightarrow> cli_env \<Rightarrow> string \<Rightarrow> string \<Rightarrow> string \<Rightarrow> revocation_entry cli_op" where
  "run_revoke E V card_path key_path reason =
     then_cli (load_card E card_path) (\<lambda>crd.
     then_cli (read_text key_path) (\<lambda>key_pem.
     then_cli (lift_cli (ed_key_of_pem E (card_crypto_scheme crd) key_pem)) (\<lambda>ed_key.
     then_cli (lift_cli (cv_registry_open V)) (\<lambda>_.
     then_cli (revoke_entry E V crd reason ed_key) (\<lambda>entry.
     then_cli (log_entry E V (card_id crd) ''revoke'' (Inr (''reason='' @ reason)) ed_key) (\<lambda>_.
     lift_cli (Inr entry)))))))"

definition run_revocation_list :: "ext \<Rightarrow> cli_env \<Rightarrow> revocation_entry list cli_op" where
  "run_revocation_list E V =
     then_cli (lift_cli (cv_registry_open V)) (\<lambda>_ w. (Inr (list_revocations E (cv_now V) (cw_registry w)), w))"

subsection \<open>The handshake\<close>

definition challenge_members :: "ext \<Rightarrow> challenge \<Rightarrow> (string \<times> json) list" where
  "challenge_members E c =
     [(''id'', JStr (ch_id c)), (''nonce'', JStr (ch_nonce c)), (''issuer'', JStr (ch_issuer c)),
      (''required_scopes'', JArr (map JStr (ch_required_scopes c))),
      (''issued_at'', JStr (dt_serde E (ch_issued_at c))), (''expires_at'', JStr (dt_serde E (ch_expires_at c))),
      (''min_crypto'', case ch_min_crypto c of None \<Rightarrow> JNull | Some m \<Rightarrow> JStr m)]"

definition challenge_from_json :: "ext \<Rightarrow> json \<Rightarrow> challenge option" where
  "challenge_from_json E v =
     (case struct_opt_members [(''id'', False), (''nonce'', False), (''issuer'', False), (''required_scopes'', False),
             (''issued_at'', False), (''expires_at'', False), (''min_crypto'', True)] v of
        Some [JStr i, JStr n, JStr isr, sc, JStr iat, JStr eat, mc] \<Rightarrow>
          Option.bind (uuid_parse E i) (\<lambda>ident.
          Option.bind (str_list sc) (\<lambda>scopes.
          Option.bind (dt_serde_parse E iat) (\<lambda>issued_at.
          Option.bind (dt_serde_parse E eat) (\<lambda>expires_at.
          Option.bind (opt_str mc) (\<lambda>min_crypto.
          Some \<lparr>ch_id = ident, ch_nonce = n, ch_issuer = isr, ch_required_scopes = scopes, ch_issued_at = issued_at,
                ch_expires_at = expires_at, ch_min_crypto = min_crypto\<rparr>)))))
      | _ \<Rightarrow> None)"

definition response_json :: "ext \<Rightarrow> challenge_response \<Rightarrow> (string \<times> json) list" where
  "response_json E r =
     [(''challenge_id'', JStr (resp_challenge_id r)), (''agent_card'', JObj (card_members E (resp_agent_card r))),
      (''signature'', JStr (resp_signature r))]
     @ opt_member ''pq_signature'' (resp_pq_signature r)
     @ [(''responded_at'', JStr (dt_serde E (resp_responded_at r)))]"

definition response_from_json :: "ext \<Rightarrow> json \<Rightarrow> challenge_response option" where
  "response_from_json E v =
     (case struct_opt_members [(''challenge_id'', False), (''agent_card'', False), (''signature'', False),
             (''pq_signature'', True), (''responded_at'', False)] v of
        Some [JStr i, cv, JStr sg, pq, JStr t] \<Rightarrow>
          Option.bind (uuid_parse E i) (\<lambda>ident.
          Option.bind (card_from_json E cv) (\<lambda>crd.
          Option.bind (opt_str pq) (\<lambda>pq_signature.
          Option.bind (dt_serde_parse E t) (\<lambda>responded_at.
          Some \<lparr>resp_challenge_id = ident, resp_agent_card = crd, resp_signature = sg, resp_pq_signature = pq_signature,
                resp_responded_at = responded_at\<rparr>))))
      | _ \<Rightarrow> None)"

definition load_json :: "ext \<Rightarrow> (json \<Rightarrow> 'a option) \<Rightarrow> string \<Rightarrow> 'a cli_op" where
  "load_json E dec p = then_cli (read_text p) (\<lambda>s. lift_cli (of_option (ParseError p) (Option.bind (json_parse E s) dec)))"

definition run_challenge :: "ext \<Rightarrow> cli_env \<Rightarrow> string \<Rightarrow> string \<Rightarrow> int \<Rightarrow> bool \<Rightarrow> string \<Rightarrow> challenge cli_op" where
  "run_challenge E V card_path require_scope ttl require_pq output =
     then_cli (load_card E card_path) (\<lambda>crd.
     then_cli (lift_cli (execute_challenge E (cv_now V) (cv_uuid V) (cv_nonce V) crd require_scope ttl require_pq)) (\<lambda>c.
     then_cli (on_files (write_file (cv_io V) output (cv_pretty V (JObj (challenge_members E c))))) (\<lambda>_.
     lift_cli (bind_res (first16 (ch_nonce c)) (\<lambda>_. Inr c)))))"

definition run_respond :: "ext \<Rightarrow> cli_env \<Rightarrow> string \<Rightarrow> string \<Rightarrow> string \<Rightarrow> string \<Rightarrow> challenge_response cli_op" where
  "run_respond E V challenge_path card_path key_path output =
     then_cli (load_json E (challenge_from_json E) challenge_path) (\<lambda>c.
     then_cli (load_card E card_path) (\<lambda>crd.
     then_cli (read_text key_path) (\<lambda>key_pem.
     then_cli (lift_cli (execute_respond E (cv_now V) (cv_later V) c crd key_pem)) (\<lambda>r.
     then_cli (on_files (write_file (cv_io V) output (cv_pretty V (JObj (response_json E r))))) (\<lambda>_.
     lift_cli (Inr r))))))"

definition run_verify_response :: "ext \<Rightarrow> cli_env \<Rightarrow> string \<Rightarrow> string \<Rightarrow> bool cli_op" where
  "run_verify_response E V challenge_path response_path =
     then_cli (load_json E (challenge_from_json E) challenge_path) (\<lambda>c.
     then_cli (load_json E (response_from_json E) response_path) (\<lambda>r.
     lift_cli (Inr (fst (execute_verify_response E (cv_now V) c r) = 0))))"

subsection \<open>Requests, the log, export and the licence\<close>

definition run_sign :: "ext \<Rightarrow> cli_env \<Rightarrow> string \<Rightarrow> string \<Rightarrow> string \<Rightarrow> string \<Rightarrow> string list \<Rightarrow> signed_request cli_op" where
  "run_sign E V meth url card_path key_path headers =
     then_cli (load_card E card_path) (\<lambda>crd.
     then_cli (read_text key_path) (\<lambda>key_pem.
     lift_cli (cli_sign E (cv_now V) (cv_later V) (cv_uuid V) meth url crd key_pem headers)))"

definition run_verify_sig ::
    "ext \<Rightarrow> cli_env \<Rightarrow> string \<Rightarrow> string \<Rightarrow> string \<Rightarrow> string \<Rightarrow> string option \<Rightarrow> string \<Rightarrow> string list \<Rightarrow> bool cli_op" where
  "run_verify_sig E V meth url signature_input signature pq_signature card_path headers =
     then_cli (load_card E card_path) (\<lambda>crd.
     lift_cli (bind_res (cli_verify_sig E (cv_now V) meth url signature_input signature pq_signature crd headers)
       (\<lambda>(_, good). Inr good)))"

definition run_audit :: "ext \<Rightarrow> cli_env \<Rightarrow> string option \<Rightarrow> string option \<Rightarrow> audit_line list cli_op" where
  "run_audit E V agent last_ttl w =
     (cli_audit E (cv_now V) (cv_show_time V) (bind_res (cv_audit_open V) (\<lambda>_. Inr (cw_audit w))) agent last_ttl, w)"

definition run_export :: "ext \<Rightarrow> cli_env \<Rightarrow> string \<Rightarrow> string \<Rightarrow> string option \<Rightarrow> a2a_agent_card cli_op" where
  "run_export E V card_path base_url output =
     on_files (cli_export (\<lambda>s. Option.bind (json_parse E s) (card_from_json E)) (cv_pretty V) (cv_io V) card_path base_url output)"

definition run_license_show :: "ext \<Rightarrow> cli_env \<Rightarrow> (string \<times> string) list cli_op" where
  "run_license_show E V w = (Inr (license_show E (cw_license w) (cv_agents_dir V)), w)"

definition run_activate :: "ext \<Rightarrow> string \<Rightarrow> (string \<times> string) list cli_op" where
  "run_activate E key w = (case cli_activate E key (cw_license w) of (r, disk) \<Rightarrow> (r, w\<lparr>cw_license := disk\<rparr>))"

definition run_deactivate :: "unit cli_op" where
  "run_deactivate w = (Inr (), w\<lparr>cw_license := cli_deactivate (cw_license w)\<rparr>)"

subsection \<open>The program\<close>

datatype cli_command =
    CmdIssue string string string string string string "string option" string
  | CmdVerify string
  | CmdDelegate string string string string string string
  | CmdAudit "string option" "string option"
  | CmdExport string string "string option"
  | CmdChallenge string string int bool string
  | CmdRespond string string string string
  | CmdVerifyResponse string string
  | CmdSign string string string string "string list"
  | CmdVerifySig string string string string "string option" string "string list"
  | CmdRotate string string string string
  | CmdRevoke string string string
  | CmdRevocationList
  | CmdLicense
  | CmdActivate string
  | CmdDeactivate

text \<open>An error is reported with code 1, a panic aborts the process.\<close>

datatype cli_exit = Exit nat | Aborted

definition exit_with :: "('a \<Rightarrow> nat) \<Rightarrow> 'a result \<times> cli_world \<Rightarrow> cli_exit \<times> cli_world" where
  "exit_with code r =
     (case fst r of Inr x \<Rightarrow> Exit (code x) | Inl (Panic _) \<Rightarrow> Aborted | Inl _ \<Rightarrow> Exit 1, snd r)"

definition done_code :: "'a \<Rightarrow> nat" where "done_code x = 0"
definition verdict_code :: "bool \<Rightarrow> nat" where "verdict_code b = (if b then 0 else 1)"

definition cli_main :: "ext \<Rightarrow> cli_env \<Rightarrow> cli_command \<Rightarrow> cli_world \<Rightarrow> cli_exit \<times> cli_world" where
  "cli_main E V command w =
     (case command of
        CmdIssue name owner scope ttl agent_type crypto trust_domain output \<Rightarrow>
          exit_with done_code (run_issue E V name owner scope ttl agent_type crypto trust_domain output w)
      | CmdVerify agent_card \<Rightarrow> exit_with verdict_code (run_verify E V agent_card w)
      | CmdDelegate from_card key to scope ttl output \<Rightarrow>
          exit_with done_code (run_delegate E V from_card key to scope ttl output w)
      | CmdAudit agent last_ttl \<Rightarrow> exit_with done_code (run_audit E V agent last_ttl w)
      | CmdExport agent_card base_url output \<Rightarrow> exit_with done_code (run_export E V agent_card base_url output w)
      | CmdChallenge agent_card require_scope ttl require_pq output \<Rightarrow>
          exit_with done_code (run_challenge E V agent_card require_scope ttl require_pq output w)
      | CmdRespond chal agent_card key output \<Rightarrow> exit_with done_code (run_respond E V chal agent_card key output w)
      | CmdVerifyResponse chal response \<Rightarrow> exit_with verdict_code (run_verify_response E V chal response w)
      | CmdSign meth url agent_card key headers \<Rightarrow> exit_with done_code (run_sign E V meth url agent_card key headers w)
      | CmdVerifySig meth url signature_input signature pq_signature agent_card headers \<Rightarrow>
          exit_with verdict_code (run_verify_sig E V meth url signature_input signature pq_signature agent_card headers w)
      | CmdRotate agent_card key ttl output \<Rightarrow> exit_with done_code (run_rotate E V agent_card key ttl output w)
      | CmdRevoke agent_card key reason \<Rightarrow> exit_with done_code (run_revoke E V agent_card key reason w)
      | CmdRevocationList \<Rightarrow> exit_with done_code (run_revocation_list E V w)
      | CmdLicense \<Rightarrow> exit_with done_code (run_license_show E V w)
      | CmdActivate key \<Rightarrow> exit_with done_code (run_activate E key w)
      | CmdDeactivate \<Rightarrow> exit_with done_code (run_deactivate w))"

subsection \<open>Sequences of commands\<close>

text \<open>What a command may do to the log and the registry: add to their ends.\<close>

definition cli_extends :: "cli_world \<Rightarrow> cli_world \<Rightarrow> bool" where
  "cli_extends w w' \<longleftrightarrow>
     (\<exists>es. audit_rows (cw_audit w') = audit_rows (cw_audit w) @ es) \<and> (\<exists>rs. cw_registry w' = cw_registry w @ rs)"

definition cli_inv :: "ext \<Rightarrow> cli_world \<Rightarrow> bool" where
  "cli_inv E w \<longleftrightarrow> audit_inv E (cw_audit w) \<and> registry_inv (cw_registry w)"

definition adds :: "ext \<Rightarrow> (cli_world \<Rightarrow> 'a \<times> cli_world) \<Rightarrow> bool" where
  "adds E f \<longleftrightarrow> (\<forall>w. cli_extends w (snd (f w)) \<and> (cli_inv E w \<longrightarrow> cli_inv E (snd (f w))))"

named_theorems adding \<open>what the operations add\<close>

lemma cli_extends_refl [simp]: "cli_extends w w"
  by (simp add: cli_extends_def)

lemma cli_extends_trans: "cli_extends u v \<Longrightarrow> cli_extends v w \<Longrightarrow> cli_extends u w"
  by (auto simp: cli_extends_def)

lemma adds_same: "(\<And>w. cw_audit (snd (f w)) = cw_audit w \<and> cw_registry (snd (f w)) = cw_registry w) \<Longrightarrow> adds E f"
  by (simp add: adds_def cli_extends_def cli_inv_def)

lemma adds_lift [adding]: "adds E (lift_cli r)"
  by (rule adds_same) (simp add: lift_cli_def)

lemma adds_files [adding]: "adds E (on_files f)"
  by (rule adds_same) (simp add: on_files_def split: prod.split)

lemma adds_read [adding]: "adds E (read_text p)"
  by (rule adds_same) (simp add: read_text_def)

lemma adds_then [adding]:
  assumes "adds E f" "\<And>x. adds E (g x)"
  shows "adds E (then_cli f g)"
  unfolding adds_def
proof
  fix w
  show "cli_extends w (snd (then_cli f g w)) \<and> (cli_inv E w \<longrightarrow> cli_inv E (snd (then_cli f g w)))"
  proof (cases "f w")
    case (Pair r v)
    then have v: "cli_extends w v" "cli_inv E w \<longrightarrow> cli_inv E v" using assms(1) unfolding adds_def by (metis snd_conv)+
    show ?thesis
    proof (cases r)
      case (Inr x)
      have "cli_extends v (snd (g x v)) \<and> (cli_inv E v \<longrightarrow> cli_inv E (snd (g x v)))" using assms(2) by (simp add: adds_def)
      then show ?thesis using v Pair Inr by (auto simp: then_cli_def intro: cli_extends_trans)
    qed (use v Pair in \<open>simp add: then_cli_def\<close>)
  qed
qed

lemma adds_record: "adds E (\<lambda>w. (Inr (), w\<lparr>cw_audit := snd (record_entry E now (cw_audit w) agent action t key)\<rparr>))"
  by (simp add: adds_def cli_extends_def cli_inv_def record_entry_rows record_entry_inv)

lemma adds_log [adding]: "adds E (log_entry E V agent action target key)"
  unfolding log_entry_def by (intro adding adds_record)

lemma adds_revoke [adding]: "adds E (revoke_entry E V crd reason key)"
  by (auto simp: adds_def revoke_entry_def revoke_def cli_extends_def cli_inv_def
      dest: revoke_hybrid_result revoke_hybrid_inv split: sum.splits prod.splits)

lemma adds_case_prod [adding]: "(\<And>a b. adds E (f a b)) \<Longrightarrow> adds E (case p of (a, b) \<Rightarrow> f a b)"
  by (cases p) simp

lemma adds_load [adding]: "adds E (load_card E p)" "adds E (load_json E dec p)"
  unfolding load_card_def load_json_def by (intro adding)+

lemma adds_exit: "adds E f \<Longrightarrow> adds E (\<lambda>w. exit_with code (f w))"
  by (simp add: adds_def exit_with_def)

lemma adds_runs:
  "adds E (run_issue E V name owner scope ttl agent_type crypto_scheme trust_domain dir)" "adds E (run_verify E V p)"
  "adds E (run_delegate E V p k to_name scope ttl dir)" "adds E (run_rotate E V p k ttl dir)"
  "adds E (run_revoke E V p k reason)" "adds E (run_revocation_list E V)"
  "adds E (run_challenge E V p scope n pq output)" "adds E (run_respond E V cp p k output)"
  "adds E (run_verify_response E V cp rp)" "adds E (run_sign E V meth url p k headers)"
  "adds E (run_verify_sig E V meth url si sig pqs p headers)" "adds E (run_export E V p url out)"
  unfolding run_issue_def run_verify_def run_delegate_def run_rotate_def run_revoke_def run_revocation_list_def
    run_challenge_def run_respond_def run_verify_response_def run_sign_def run_verify_sig_def run_export_def
  by (intro adding; (rule adds_same, simp))+

lemma adds_others:
  "adds E (run_audit E V agent last_ttl)" "adds E (run_license_show E V)" "adds E (run_activate E lic)" "adds E run_deactivate"
  by (rule adds_same, simp add: run_audit_def run_license_show_def run_activate_def run_deactivate_def split: prod.split)+

lemma adds_main: "adds E (cli_main E V c)"
  unfolding cli_main_def by (cases c) (simp_all add: adds_exit adds_runs adds_others)

inductive cli_step :: "ext \<Rightarrow> cli_world \<Rightarrow> cli_world \<Rightarrow> bool" for E where
  cli_run: "cli_step E w (snd (cli_main E V c w))"

inductive_cases cli_stepE: "cli_step E w w'"

lemma cli_step_adds: "cli_step E w w' \<Longrightarrow> cli_extends w w' \<and> (cli_inv E w \<longrightarrow> cli_inv E w')"
  using adds_main by (auto simp: adds_def elim!: cli_stepE)

text \<open>Nothing logged yet and no card revoked: the databases as they are created.\<close>

definition cli_fresh :: "cli_world \<Rightarrow> bool" where
  "cli_fresh w \<longleftrightarrow> cw_audit w = open_audit_db \<and> cw_registry w = []"

interpretation cli: invariant cli_fresh "cli_step E" "cli_inv E" for E
proof
  fix w show "cli_fresh w \<Longrightarrow> cli_inv E w"
    by (simp add: cli_fresh_def cli_inv_def audit_inv_def open_audit_db_def registry_inv_def)
next
  fix w w' show "cli_inv E w \<Longrightarrow> cli_step E w w' \<Longrightarrow> cli_inv E w'" using cli_step_adds by blast
qed

lemma cli_history: "reachable (\<lambda>s. s = w) (cli_step E) w' \<Longrightarrow> cli_extends w w'"
  by (induction rule: reachable.induct) (use cli_step_adds cli_extends_trans in \<open>blast intro: cli_extends_refl\<close>)+

lemma cli_stays_revoked:
  "reachable (\<lambda>s. s = w) (cli_step E) w' \<Longrightarrow> is_revoked (cw_registry w) a \<Longrightarrow> is_revoked (cw_registry w') a"
  by (auto simp: cli_extends_def is_revoked_iff dest!: cli_history)

subsection \<open>The commands and their theories\<close>

text \<open>The card commands on files do what the operations on parsed cards do, with the effects between.\<close>

lemma issue_on_files:
  "issue E now t new_id seed keygen db name owner scope ttl agent_type crypto_scheme trust_domain =
     bind_res (issue_card E now new_id seed keygen name owner scope ttl agent_type crypto_scheme trust_domain) (\<lambda>(crd, pem).
     bind_res (ed_key_of_pem E (card_crypto_scheme crd) pem) (\<lambda>k.
     Inr \<lparr>out_card = crd, out_key_pem = pem, out_audit = snd (record_entry E t db new_id ''issue'' name k)\<rparr>))"
  by (simp add: issue_def issue_card_def Let_def) (simp add: build_card_def)

lemma delegate_on_files:
  "delegate E now t new_id db parent_card key_pem to_name scope ttl =
     bind_res (delegate_token E now new_id parent_card key_pem to_name scope ttl) (\<lambda>(tok, k).
     Inr (tok, snd (record_entry E t db (card_id parent_card) ''delegate'' (''delegate:'' @ to_name) k)))"
  by (simp add: delegate_def delegate_token_def Let_def case_prod_unfold)

lemma rotate_on_files:
  "rotate_card E now t seed keygen db old_card old_key_pem ttl =
     bind_res (rotated_card E now seed keygen old_card old_key_pem ttl) (\<lambda>(new_card, pem, k, old_pub).
     bind_res (first16 old_pub) (\<lambda>o16. bind_res (first16 (card_public_key new_card)) (\<lambda>n16.
     Inr \<lparr>out_card = new_card, out_key_pem = pem, out_audit = snd (record_entry E t db (card_id old_card) ''rotate''
       (''old_key='' @ o16 @ ''... new_key='' @ n16 @ ''...'') k)\<rparr>)))"
  by (simp add: rotate_card_def rotated_card_def Let_def)

lemma then_cli_ok_iff:
  "then_cli f g w = (Inr y, w'') \<longleftrightarrow> (\<exists>x w'. f w = (Inr x, w') \<and> g x w' = (Inr y, w''))"
  by (auto simp: then_cli_def split: prod.splits sum.splits)

lemma then_cli_run [simp]: "f w = (Inr x, w') \<Longrightarrow> then_cli f g w = g x w'" "f w = (Inl e, w') \<Longrightarrow> then_cli f g w = (Inl e, w')"
  by (simp_all add: then_cli_def)

lemma lift_cli_iff [simp]: "lift_cli r w = (r', w') \<longleftrightarrow> r = r' \<and> w' = w"
  by (auto simp: lift_cli_def)

lemma on_files_iff: "on_files f w = (r, w') \<longleftrightarrow> (\<exists>fs. f (cw_files w) = (r, fs) \<and> w' = w\<lparr>cw_files := fs\<rparr>)"
  by (auto simp: on_files_def split: prod.splits)

lemma log_entry_ok_iff:
  "log_entry E V agent action target key w = (Inr u, w') \<longleftrightarrow>
     (\<exists>v t. cv_audit_open V = Inr v \<and> target = Inr t
        \<and> w' = w\<lparr>cw_audit := snd (record_entry E (cv_later V) (cw_audit w) agent action t key)\<rparr>)"
  by (auto simp: log_entry_def then_cli_ok_iff)

lemma card_not_key: "card_file d \<noteq> key_file d"
  by (simp add: card_file_def key_file_def path_join_inj starts_with_def)

lemma write_identity_ok:
  assumes "write_identity E V d crd pem fs = (Inr u, fs')"
  shows "fs' (card_file d) = Some (File (cv_pretty V (JObj (card_members E crd))))" "fs' (key_file d) = Some (File pem)"
  using assms card_not_key [of d] by (auto simp: write_identity_def write_key_def then_io_ok_iff dest!: write_file_ok)

lemma run_issue_ok:
  assumes "run_issue E V name owner scope ttl agent_type crypto_scheme trust_domain d w = (Inr crd, w')"
  obtains pem where
    "issue_card E (cv_now V) (cv_uuid V) (cv_seed V) (cv_keygen V) name owner scope ttl agent_type crypto_scheme trust_domain = Inr (crd, pem)"
    "cw_files w' (card_file d) = Some (File (cv_pretty V (JObj (card_members E crd))))"
    "cw_files w' (key_file d) = Some (File pem)" "cw_registry w' = cw_registry w"
proof -
  from assms obtain c pem fs fs' u u' where
    i: "issue_card E (cv_now V) (cv_uuid V) (cv_seed V) (cv_keygen V) name owner scope ttl agent_type crypto_scheme trust_domain = Inr (c, pem)"
    and wr: "write_identity E V d c pem fs = (Inr u, fs')" and c: "issue_summary c = Inr crd"
    and w': "cw_files w' = fs'" "cw_registry w' = cw_registry w"
    by (auto simp: run_issue_def then_cli_ok_iff on_files_iff then_io_ok_iff log_entry_ok_iff)
  have "c = crd" using c by (auto simp: issue_summary_def bind_res_Inr_iff split: option.splits)
  with that i write_identity_ok [OF wr] w' show thesis by metis
qed

text \<open>What an issued card is, and that its key file gives the signing key.\<close>

lemma issue_card_valid:
  assumes "issue_card E now i seed keygen name owner scope ttl agent_type crypto_scheme trust_domain = Inr (crd, pem)"
    and "good_keys E seed keygen (card_crypto_scheme crd)"
  shows "all_valid (card_signatures E crd)" "ed_key_of_pem E (card_crypto_scheme crd) pem = Inr seed"
    "card_id crd = i" "card_parent_id crd = None" "card_name crd = name" "card_issued_at crd = now"
proof -
  obtain d a sc x p where r: "plus_duration E now d = Inr x"
    "sign_under_scheme E seed keygen sc (\<lambda>pub pq. build_card i name owner (map trim (split_on (CHR '','') scope)) pub pq [] None sc now x a None
       (map_option (\<lambda>td. generate_spiffe_id td name a) trust_domain)) = Inr p"
    and crd: "crd = build_card i name owner (map trim (split_on (CHR '','') scope)) (sp_public_key p) (sp_pq_public_key p) (sp_signature p) (sp_pq_signature p)
       sc now x a None (map_option (\<lambda>td. generate_spiffe_id td name a) trust_domain)" and pem: "pem = sp_key_pem p"
    using assms(1) by (auto simp: issue_card_def bind_res_Inr_iff Let_def)
  let ?build = "\<lambda>pub pq. build_card i name owner (map trim (split_on (CHR '','') scope)) pub pq [] None sc now x a None
       (map_option (\<lambda>td. generate_spiffe_id td name a) trust_domain)"
  have sc: "card_crypto_scheme crd = sc" and asm: "crd = assemble ?build p" by (simp_all add: crd build_card_def assemble_def)
  obtain p' where "sign_under_scheme E seed keygen sc ?build = Inr p'" "all_valid (card_signatures E (assemble ?build p'))"
    "ed_key_of_pem E sc (sp_key_pem p') = Inr seed"
    using sign_under_scheme_ok [of E seed keygen sc ?build] assms(2) sc by (auto simp: build_card_def)
  with r(2) show "all_valid (card_signatures E crd)" "ed_key_of_pem E (card_crypto_scheme crd) pem = Inr seed"
    by (simp_all add: asm [symmetric] sc pem)
qed (use assms(1) in \<open>auto simp: issue_card_def bind_res_Inr_iff Let_def build_card_def\<close>)

subsection \<open>Properties\<close>

text \<open>
  The record is kept.  Whatever commands run, with whatever faults and exit codes, the audit log only grows at its
  end and is always a chain that the verification accepts, the revocations that were made stay and no card is revoked
  twice.
\<close>

theorem cli_history_kept:
  assumes "reachable cli_fresh (cli_step E) w" "reachable (\<lambda>s. s = w) (cli_step E) w'"
  shows "verify_chain E (audit_rows (cw_audit w'))
    \<and> (\<exists>es. audit_rows (cw_audit w') = audit_rows (cw_audit w) @ es)
    \<and> (\<exists>rs. cw_registry w' = cw_registry w @ rs) \<and> distinct (map row_agent_id (cw_registry w'))"
proof -
  have "reachable cli_fresh (cli_step E) w'"
    using assms(2,1) by (induction rule: reachable.induct) (auto intro: reachable.intros)
  then have "cli_inv E w'" by (rule cli.inv_reachable)
  then show ?thesis using cli_history [OF assms(2)] full_chain_verify
    by (auto simp: cli_inv_def audit_inv_def registry_inv_def cli_extends_def)
qed

lemma load_card_at:
  "cw_files w p = Some (File t) \<Longrightarrow> json_parse E t = Some v \<Longrightarrow> card_from_json E v = Some c \<Longrightarrow> load_card E p w = (Inr c, w)"
  by (simp add: load_card_def read_text_def read_at_def)

lemma read_text_at: "cw_files w p = Some (File t) \<Longrightarrow> read_text p w = (Inr t, w)"
  by (simp add: read_text_def read_at_def)

lemma verify_exit:
  assumes "load_card E p w = (Inr crd, w)" "cv_registry_open V = Inr u"
  shows "fst (cli_main E V (CmdVerify p) w) = Exit 0 \<longleftrightarrow> verify_card E (cv_now V) (Some (cw_registry w)) crd = Inr True"
    "snd (cli_main E V (CmdVerify p) w) = w"
proof -
  have r: "run_verify E V p w = (verify_card E (cv_now V) (Some (cw_registry w)) crd, w)"
    using assms by (simp add: run_verify_def)
  show "fst (cli_main E V (CmdVerify p) w) = Exit 0 \<longleftrightarrow> verify_card E (cv_now V) (Some (cw_registry w)) crd = Inr True"
    by (auto simp: cli_main_def exit_with_def r verdict_code_def split: sum.splits error.splits)
  show "snd (cli_main E V (CmdVerify p) w) = w" by (simp add: cli_main_def exit_with_def r)
qed

lemma revoke_succeeds:
  assumes "\<not> is_revoked db a"
  obtains entry row where "revoke E now db a n r b k = Inr (entry, db @ [row])" "row_agent_id row = a"
proof -
  have "a \<notin> row_agent_id ` set db" using assms by (simp add: is_revoked_iff)
  then obtain entry db' where r: "revoke E now db a n r b k = Inr (entry, db')"
    using assms by (simp add: revoke_def revoke_hybrid_def insert_revocation_def Let_def)
  then show thesis using that revoke_hybrid_result unfolding revoke_def by blast
qed

lemma revoke_again: "is_revoked db a \<Longrightarrow> revoke E now db a n r b k = Inl (AlreadyRevoked a)"
  by (simp add: revoke_def revoke_hybrid_def)

text \<open>What the revoke command does once card and key are read.\<close>

lemma revoke_exit:
  assumes "load_card E p w = (Inr crd, w)" "read_text kp w = (Inr pem, w)"
    and "ed_key_of_pem E (card_crypto_scheme crd) pem = Inr k" "cv_registry_open V = Inr u"
  shows "is_revoked (cw_registry w) (card_id crd) \<Longrightarrow> cli_main E V (CmdRevoke p kp reason) w = (Exit 1, w)"
    and "\<not> is_revoked (cw_registry w) (card_id crd) \<Longrightarrow> \<exists>row. row_agent_id row = card_id crd \<and> cli_main E V (CmdRevoke p kp reason) w =
      (case cv_audit_open V of
         Inr _ \<Rightarrow> (Exit 0, w\<lparr>cw_registry := cw_registry w @ [row], cw_audit := snd (record_entry E (cv_later V) (cw_audit w)
                     (card_id crd) ''revoke'' (''reason='' @ reason) k)\<rparr>)
       | Inl e \<Rightarrow> (case e of Panic _ \<Rightarrow> Aborted | _ \<Rightarrow> Exit 1, w\<lparr>cw_registry := cw_registry w @ [row]\<rparr>))"
proof -
  note run = run_revoke_def cli_main_def exit_with_def lift_cli_def then_cli_def assms revoke_entry_def
  assume "is_revoked (cw_registry w) (card_id crd)"
  then show "cli_main E V (CmdRevoke p kp reason) w = (Exit 1, w)" by (simp add: run revoke_again)
next
  note run = run_revoke_def cli_main_def exit_with_def lift_cli_def then_cli_def assms revoke_entry_def
  assume "\<not> is_revoked (cw_registry w) (card_id crd)"
  then obtain entry row where r: "revoke E (cv_now V) (cw_registry w) (card_id crd) (card_name crd) reason ''self'' k
      = Inr (entry, cw_registry w @ [row])" "row_agent_id row = card_id crd" by (rule revoke_succeeds)
  then show "\<exists>row. row_agent_id row = card_id crd \<and> cli_main E V (CmdRevoke p kp reason) w =
      (case cv_audit_open V of
         Inr _ \<Rightarrow> (Exit 0, w\<lparr>cw_registry := cw_registry w @ [row], cw_audit := snd (record_entry E (cv_later V) (cw_audit w)
                     (card_id crd) ''revoke'' (''reason='' @ reason) k)\<rparr>)
       | Inl e \<Rightarrow> (case e of Panic _ \<Rightarrow> Aborted | _ \<Rightarrow> Exit 1, w\<lparr>cw_registry := cw_registry w @ [row]\<rparr>))"
    by (intro exI [of _ row]) (simp add: run r log_entry_def done_code_def split: sum.split)
qed

lemma verify_exit_blind:
  assumes "load_card E p w = (Inr crd, w)" "cv_registry_open V \<noteq> Inr ()"
  shows "fst (cli_main E V (CmdVerify p) w) = Exit 0 \<longleftrightarrow> verify_card E (cv_now V) None crd = Inr True"
proof -
  have "run_verify E V p w = (verify_card E (cv_now V) None crd, w)"
    using assms by (cases "cv_registry_open V") (simp_all add: run_verify_def)
  then show ?thesis by (auto simp: cli_main_def exit_with_def verdict_code_def split: sum.splits error.splits)
qed

lemma revoked_unverified:
  assumes "reachable (\<lambda>s. s = w) (cli_step E) w'" "is_revoked (cw_registry w) (card_id other)"
    and "load_card E p w' = (Inr other, w')" "cv_registry_open U = Inr ()"
  shows "fst (cli_main E U (CmdVerify p) w') \<noteq> Exit 0"
  using verify_exit(1) [OF assms(3,4)] cli_stays_revoked [OF assms(1,2)] by (simp add: verify_card_iff)

text \<open>
  C6: the life of an identity.  The card that issue wrote is accepted by verify exactly from its issue to its expiry, as
  long as its identity is not revoked and the revocation registry opens.  Revoking it with its key file then succeeds
  and is logged, and from there on, whatever local commands run, no card of that identity is accepted by a
  verification whose registry opens.  A verification whose registry does not open skips the check: it accepts the card during its
  life, revoked or not.
\<close>

theorem identity_lifecycle:
  assumes issue: "run_issue E V name owner scope ttl agent_type crypto trust_domain d w = (Inr crd, w1)"
    and keys: "good_keys E (cv_seed V) (cv_keygen V) (card_crypto_scheme crd)"
    and json: "json_parse E (cv_pretty V (JObj (card_members E crd))) = Some (JObj (card_members E crd))"
    and card: "dt_serde_ok E" "uuid_ok E (cv_uuid V)" "rfc3339_range (card_issued_at crd)" "rfc3339_range (card_expires_at crd)"
  shows "(\<forall>U. cv_registry_open U = Inr () \<longrightarrow>
        (fst (cli_main E U (CmdVerify (card_file d)) w1) = Exit 0 \<longleftrightarrow>
           card_issued_at crd \<le> cv_now U \<and> cv_now U < card_expires_at crd \<and> \<not> is_revoked (cw_registry w1) (cv_uuid V)))
    \<and> (\<forall>U w. cv_registry_open U \<noteq> Inr () \<and> cw_files w (card_file d) = cw_files w1 (card_file d) \<longrightarrow>
        (fst (cli_main E U (CmdVerify (card_file d)) w) = Exit 0 \<longleftrightarrow> card_issued_at crd \<le> cv_now U \<and> cv_now U < card_expires_at crd))
    \<and> (\<forall>U reason. cv_registry_open U = Inr () \<and> cv_audit_open U = Inr () \<and> \<not> is_revoked (cw_registry w1) (cv_uuid V) \<longrightarrow>
        (\<exists>w2. cli_main E U (CmdRevoke (card_file d) (key_file d) reason) w1 = (Exit 0, w2)
          \<and> (\<exists>e. audit_rows (cw_audit w2) = audit_rows (cw_audit w1) @ [e] \<and> ae_action e = ''revoke'' \<and> ae_agent_id e = cv_uuid V)
          \<and> (\<forall>w3 U' p other. reachable (\<lambda>s. s = w2) (cli_step E) w3 \<and> cv_registry_open U' = Inr ()
               \<and> load_card E p w3 = (Inr other, w3) \<and> card_id other = cv_uuid V \<longrightarrow>
               fst (cli_main E U' (CmdVerify p) w3) \<noteq> Exit 0)))"
proof -
  obtain pem where i: "issue_card E (cv_now V) (cv_uuid V) (cv_seed V) (cv_keygen V) name owner scope ttl agent_type crypto trust_domain = Inr (crd, pem)"
    and files: "cw_files w1 (card_file d) = Some (File (cv_pretty V (JObj (card_members E crd))))" "cw_files w1 (key_file d) = Some (File pem)"
    using run_issue_ok [OF issue] by metis
  note c = issue_card_valid [OF i keys]
  have read: "card_from_json E (JObj (card_members E crd)) = Some crd" using card c(3,4) by (intro card_read) simp_all
  note load = load_card_at [OF files(1) json read] read_text_at [OF files(2)]
  show ?thesis
  proof (intro conjI allI impI)
    fix U :: cli_env assume "cv_registry_open U = Inr ()"
    then show "fst (cli_main E U (CmdVerify (card_file d)) w1) = Exit 0 \<longleftrightarrow>
        card_issued_at crd \<le> cv_now U \<and> cv_now U < card_expires_at crd \<and> \<not> is_revoked (cw_registry w1) (cv_uuid V)"
      using verify_exit(1) [OF load(1)] c(1,3) by (auto simp: verify_card_iff)
  next
    fix U :: cli_env and w :: cli_world
    assume U: "cv_registry_open U \<noteq> Inr () \<and> cw_files w (card_file d) = cw_files w1 (card_file d)"
    then have "load_card E (card_file d) w = (Inr crd, w)" using files(1) read by (intro load_card_at [OF _ json]) simp_all
    from verify_exit_blind [OF this] U
    show "fst (cli_main E U (CmdVerify (card_file d)) w) = Exit 0 \<longleftrightarrow> card_issued_at crd \<le> cv_now U \<and> cv_now U < card_expires_at crd"
      using c(1) by (auto simp: verify_card_iff)
  next
    fix U :: cli_env and reason :: string
    assume U: "cv_registry_open U = Inr () \<and> cv_audit_open U = Inr () \<and> \<not> is_revoked (cw_registry w1) (cv_uuid V)"
    then obtain row where row: "row_agent_id row = card_id crd"
      "cli_main E U (CmdRevoke (card_file d) (key_file d) reason) w1 = (Exit 0, w1\<lparr>cw_registry := cw_registry w1 @ [row],
         cw_audit := snd (record_entry E (cv_later U) (cw_audit w1) (card_id crd) ''revoke'' (''reason='' @ reason) (cv_seed V))\<rparr>)"
      using revoke_exit(2) [OF load(1) load(2) c(2), of U "()" reason] c(3) by auto
    let ?w2 = "w1\<lparr>cw_registry := cw_registry w1 @ [row],
         cw_audit := snd (record_entry E (cv_later U) (cw_audit w1) (card_id crd) ''revoke'' (''reason='' @ reason) (cv_seed V))\<rparr>"
    have log: "\<exists>e. audit_rows (cw_audit ?w2) = audit_rows (cw_audit w1) @ [e] \<and> ae_action e = ''revoke'' \<and> ae_agent_id e = cv_uuid V"
      by (simp add: record_entry_rows) (simp add: record_entry_def Let_def c(3))
    have gone: "is_revoked (cw_registry ?w2) (cv_uuid V)" using row(1) c(3) by (simp add: is_revoked_iff)
    show "\<exists>w2. cli_main E U (CmdRevoke (card_file d) (key_file d) reason) w1 = (Exit 0, w2)
          \<and> (\<exists>e. audit_rows (cw_audit w2) = audit_rows (cw_audit w1) @ [e] \<and> ae_action e = ''revoke'' \<and> ae_agent_id e = cv_uuid V)
          \<and> (\<forall>w3 U' p other. reachable (\<lambda>s. s = w2) (cli_step E) w3 \<and> cv_registry_open U' = Inr ()
               \<and> load_card E p w3 = (Inr other, w3) \<and> card_id other = cv_uuid V \<longrightarrow>
               fst (cli_main E U' (CmdVerify p) w3) \<noteq> Exit 0)"
      using row(2) log gone revoked_unverified [of ?w2 E] by metis
  qed
qed

text \<open>A first run on an empty disk, for the witnesses: the card it issues, the JSON reader that reads that card.\<close>

definition demo_cli :: cli_env where
  "demo_cli = \<lparr>cv_now = 0, cv_later = 0, cv_uuid = replicate 36 CHR ''a'', cv_seed = demo_seed, cv_keygen = None,
     cv_nonce = replicate 32 CHR ''n'', cv_io = (\<lambda>_. Inr ()), cv_mode = (\<lambda>_. Inr ()), cv_audit_open = Inr (),
     cv_registry_open = Inr (), cv_pretty = (\<lambda>_. ''{}''), cv_stamp = (\<lambda>_. ''t''), cv_show_time = (\<lambda>_. None),
     cv_agents_dir = None\<rparr>"

definition demo_home :: cli_world where
  "demo_home = \<lparr>cw_files = Map.empty, cw_audit = open_audit_db, cw_registry = [], cw_license = None\<rparr>"

definition demo_cli_parts :: "(agent_card \<times> string) result" where
  "demo_cli_parts = issue_card ref_ext 0 (replicate 36 CHR ''a'') demo_seed None ''bot'' ''me'' ''read'' ''1h'' ''instance'' ''ed25519'' None"

definition demo_cli_card :: agent_card where "demo_cli_card = fst (projr demo_cli_parts)"

definition demo_cli_ext :: ext where
  "demo_cli_ext = ref_ext\<lparr>json_parse := (\<lambda>_. Some (JObj (card_members ref_ext demo_cli_card)))\<rparr>"

lemma demo_cli_ext_ok [simp]: "b64_ok demo_cli_ext" "ed_ok demo_cli_ext" "dt_serde_ok demo_cli_ext"
  "uuid_ok demo_cli_ext (replicate 36 CHR ''a'')"
  using ref_b64_ok ref_ed_ok ref_dt_serde_ok ref_uuid_ok [of "CHR ''a''"]
  by (simp_all add: demo_cli_ext_def b64_ok_def ed_ok_def dt_serde_ok_def uuid_ok_def)

lemma demo_cli_members: "card_members demo_cli_ext c = card_members ref_ext c"
  by (simp add: card_members_def demo_cli_ext_def)

lemma demo_cli_pem: "encode_private_key_pem demo_cli_ext k = encode_private_key_pem ref_ext k"
  by (simp add: encode_private_key_pem_def demo_cli_ext_def)

lemma demo_ed: "crypto_scheme_from_str ''ed25519'' = Inr Ed25519"
  by code_simp

lemma demo_cli_issue:
  "issue_card demo_cli_ext 0 (replicate 36 CHR ''a'') demo_seed None ''bot'' ''me'' ''read'' ''1h'' ''instance'' ''ed25519'' None
     = Inr (demo_cli_card, encode_private_key_pem ref_ext demo_seed)"
  "card_crypto_scheme demo_cli_card = Ed25519" "card_issued_at demo_cli_card = 0" "card_expires_at demo_cli_card = seconds 3600"
  "card_id demo_cli_card = replicate 36 CHR ''a''" "card_public_key demo_cli_card = nibbles demo_seed"
  "card_pq_public_key demo_cli_card = None"
proof -
  note run = issue_card_def demo_ttl demo_type demo_ed sign_under_scheme_def generate_keypair_def build_card_def Let_def
  have x: "plus_duration demo_cli_ext 0 (seconds 3600) = Inr (0 + seconds 3600)"
    using demo_expiry by (simp add: demo_cli_ext_def plus_duration_def)
  have p: "demo_cli_parts = Inr (demo_cli_card, encode_private_key_pem ref_ext demo_seed)"
    by (simp add: demo_cli_card_def demo_cli_parts_def run demo_expiry)
  have "card_signing_payload demo_cli_ext = card_signing_payload ref_ext"
    by (intro ext) (simp add: card_signing_payload_def demo_cli_members, simp add: demo_cli_ext_def)
  then have "issue_card demo_cli_ext 0 (replicate 36 CHR ''a'') demo_seed None ''bot'' ''me'' ''read'' ''1h'' ''instance'' ''ed25519'' None = demo_cli_parts"
    by (simp add: demo_cli_parts_def run demo_expiry x)
       (simp add: demo_cli_ext_def encode_public_key_def encode_private_key_pem_def sign_def)
  then show "issue_card demo_cli_ext 0 (replicate 36 CHR ''a'') demo_seed None ''bot'' ''me'' ''read'' ''1h'' ''instance'' ''ed25519'' None
     = Inr (demo_cli_card, encode_private_key_pem ref_ext demo_seed)" by (simp add: p)
qed (simp_all add: demo_cli_card_def demo_cli_parts_def issue_card_def demo_ttl demo_type demo_ed
    sign_under_scheme_def generate_keypair_def build_card_def Let_def demo_expiry, simp add: encode_public_key_def ref_ext_def)

lemma demo_cli_runs:
  "\<exists>w1. run_issue demo_cli_ext demo_cli ''bot'' ''me'' ''read'' ''1h'' ''instance'' ''ed25519'' None ''out'' demo_home = (Inr demo_cli_card, w1)
     \<and> cw_registry w1 = []"
proof -
  have k: "ed_key_of_pem demo_cli_ext Ed25519 (encode_private_key_pem ref_ext demo_seed) = Inr demo_seed"
    using ed_key_of_encode [OF demo_cli_ext_ok(1) length_replicate] by (simp only: demo_cli_pem)
  have f: "create_dir_all (\<lambda>_. Inr ()) ''out'' Map.empty = (Inr (), [''out'' \<mapsto> Dir])"
    by (simp add: create_dir_all_def ancestors_def make_dir_def upt_rec)
  have j: "card_file ''out'' = ''out/agent-card.json''" "key_file ''out'' = ''out/agent-key.pem''"
    by (simp_all add: card_file_def key_file_def path_join_def starts_with_def ends_with_def)
  have "length (nibbles demo_seed) = 2 * length demo_seed" using hash_okD(2) [OF ref_hash_ok] by (simp add: ref_ext_def)
  then have "length (nibbles demo_seed) = 64" by (simp only: length_replicate)
  then have sum: "issue_summary demo_cli_card = Inr demo_cli_card"
    by (simp add: issue_summary_def demo_cli_issue(6,7) first16_def slice_def)
  show ?thesis
    by (simp add: run_issue_def demo_cli_def demo_home_def demo_cli_issue then_cli_def lift_cli_def on_files_def then_io_def f
        write_identity_def write_key_def write_file_def lift_io_def j k log_entry_def sum)
qed

theorem identity_lifecycle_witness:
  "\<exists>w1 w2. run_issue demo_cli_ext demo_cli ''bot'' ''me'' ''read'' ''1h'' ''instance'' ''ed25519'' None ''out'' demo_home = (Inr demo_cli_card, w1)
     \<and> fst (cli_main demo_cli_ext demo_cli (CmdVerify (card_file ''out'')) w1) = Exit 0
     \<and> cli_main demo_cli_ext demo_cli (CmdRevoke (card_file ''out'') (key_file ''out'') ''lost'') w1 = (Exit 0, w2)"
proof -
  obtain w1 where w1: "run_issue demo_cli_ext demo_cli ''bot'' ''me'' ''read'' ''1h'' ''instance'' ''ed25519'' None ''out'' demo_home
      = (Inr demo_cli_card, w1)" "cw_registry w1 = []" using demo_cli_runs by blast
  have keys: "good_keys demo_cli_ext (cv_seed demo_cli) (cv_keygen demo_cli) (card_crypto_scheme demo_cli_card)"
    by (simp add: good_keys_def demo_cli_issue demo_cli_def)
  have json: "json_parse demo_cli_ext (cv_pretty demo_cli (JObj (card_members demo_cli_ext demo_cli_card)))
      = Some (JObj (card_members demo_cli_ext demo_cli_card))"
    unfolding demo_cli_members by (simp add: demo_cli_ext_def)
  have rng: "dt_serde_ok demo_cli_ext" "uuid_ok demo_cli_ext (cv_uuid demo_cli)"
    "rfc3339_range (card_issued_at demo_cli_card)" "rfc3339_range (card_expires_at demo_cli_card)"
    by (simp_all add: demo_cli_def demo_cli_issue rfc3339_range_def seconds_def ns_per_sec_def)
  have env: "cv_registry_open demo_cli = Inr ()" "cv_audit_open demo_cli = Inr ()" "cv_now demo_cli = 0" by (simp_all add: demo_cli_def)
  note l = identity_lifecycle [OF w1(1) keys json rng]
  have "fst (cli_main demo_cli_ext demo_cli (CmdVerify (card_file ''out'')) w1) = Exit 0"
    using l [THEN conjunct1, rule_format, OF env(1)] env(3) demo_cli_issue(3,4) w1(2)
    by (simp add: is_revoked_def seconds_def ns_per_sec_def)
  moreover have "\<not> is_revoked (cw_registry w1) (cv_uuid demo_cli)" by (simp add: w1(2) is_revoked_def)
  then have "\<exists>w2. cli_main demo_cli_ext demo_cli (CmdRevoke (card_file ''out'') (key_file ''out'') ''lost'') w1 = (Exit 0, w2)"
    using l [THEN conjunct2, THEN conjunct2, rule_format, of demo_cli "''lost''"] env by blast
  ultimately show ?thesis using w1(1) by blast
qed

theorem cli_history_kept_witness:
  "\<exists>w1. run_issue demo_cli_ext demo_cli ''bot'' ''me'' ''read'' ''1h'' ''instance'' ''ed25519'' None ''out'' demo_home = (Inr demo_cli_card, w1)
     \<and> verify_chain demo_cli_ext (audit_rows (cw_audit w1))"
proof -
  obtain w1 where w1: "run_issue demo_cli_ext demo_cli ''bot'' ''me'' ''read'' ''1h'' ''instance'' ''ed25519'' None ''out'' demo_home
      = (Inr demo_cli_card, w1)" using demo_cli_runs by blast
  let ?c = "CmdIssue ''bot'' ''me'' ''read'' ''1h'' ''instance'' ''ed25519'' None ''out''"
  have "cli_step demo_cli_ext demo_home (snd (cli_main demo_cli_ext demo_cli ?c demo_home))" by (rule cli_run)
  then have step: "cli_step demo_cli_ext demo_home w1" by (simp add: cli_main_def exit_with_def w1)
  have "reachable cli_fresh (cli_step demo_cli_ext) demo_home" by (rule reach_init) (simp add: cli_fresh_def demo_home_def)
  moreover have "reachable (\<lambda>s. s = demo_home) (cli_step demo_cli_ext) demo_home" by (rule reach_init) simp
  then have "reachable (\<lambda>s. s = demo_home) (cli_step demo_cli_ext) w1" using step by (rule reach_step)
  ultimately show ?thesis using cli_history_kept w1 by blast
qed

subsection \<open>A revocation that cannot be logged\<close>

lemma revoke_noop:
  assumes "load_card E p w = (Inr crd, w)" "is_revoked (cw_registry w) (card_id crd)"
  shows "snd (cli_main E V (CmdRevoke p kp reason) w) = w"
  by (simp add: cli_main_def exit_with_def run_revoke_def then_cli_def assms read_text_def lift_cli_def revoke_entry_def revoke_again
      split: sum.split)

text \<open>
  C14: a revocation is logged at once or never.  With a card and a key that read, revoke refuses an identity that is revoked,
  and otherwise revokes it.  It succeeds and logs exactly one entry when the log opens; when the log does not open it
  fails although the identity is revoked, and no later revoke, by whatever card or key, adds the missing entry.
\<close>

theorem revoke_logged_or_never:
  assumes "load_card E p w = (Inr crd, w)" "read_text kp w = (Inr pem, w)"
    and "ed_key_of_pem E (card_crypto_scheme crd) pem = Inr k" "cv_registry_open V = Inr ()"
  shows "let out = cli_main E V (CmdRevoke p kp reason) w; w' = snd out in
    if is_revoked (cw_registry w) (card_id crd) then out = (Exit 1, w)
    else is_revoked (cw_registry w') (card_id crd)
      \<and> (if cv_audit_open V = Inr ()
         then fst out = Exit 0 \<and> (\<exists>e. audit_rows (cw_audit w') = audit_rows (cw_audit w) @ [e]
           \<and> ae_agent_id e = card_id crd \<and> ae_action e = ''revoke'' \<and> ae_target e = ''reason='' @ reason)
         else fst out \<noteq> Exit 0 \<and> cw_audit w' = cw_audit w
           \<and> (\<forall>w'' U q kq other why. reachable (\<lambda>s. s = w') (cli_step E) w'' \<and> load_card E q w'' = (Inr other, w'')
                \<and> card_id other = card_id crd \<longrightarrow> snd (cli_main E U (CmdRevoke q kq why) w'') = w''))"
proof (cases "is_revoked (cw_registry w) (card_id crd)")
  case True
  then show ?thesis using revoke_exit(1) [OF assms] by simp
next
  case False
  then obtain row where row: "row_agent_id row = card_id crd" and run: "cli_main E V (CmdRevoke p kp reason) w =
      (case cv_audit_open V of
         Inr _ \<Rightarrow> (Exit 0, w\<lparr>cw_registry := cw_registry w @ [row], cw_audit := snd (record_entry E (cv_later V) (cw_audit w)
                     (card_id crd) ''revoke'' (''reason='' @ reason) k)\<rparr>)
       | Inl e \<Rightarrow> (case e of Panic _ \<Rightarrow> Aborted | _ \<Rightarrow> Exit 1, w\<lparr>cw_registry := cw_registry w @ [row]\<rparr>))"
    using revoke_exit(2) [OF assms, of reason] by blast
  let ?w' = "snd (cli_main E V (CmdRevoke p kp reason) w)"
  have gone: "is_revoked (cw_registry ?w') (card_id crd)"
    using row by (cases "cv_audit_open V") (auto simp: run is_revoked_iff)
  have later: "snd (cli_main E U (CmdRevoke q kq why) w'') = w''"
    if "reachable (\<lambda>s. s = ?w') (cli_step E) w''" "load_card E q w'' = (Inr other, w'')" "card_id other = card_id crd" for w'' q other U kq why
    using revoke_noop [OF that(2)] cli_stays_revoked [OF that(1) gone] that(3) by simp
  show ?thesis
  proof (cases "cv_audit_open V")
    case (Inr u)
    let ?r = "record_entry E (cv_later V) (cw_audit w) (card_id crd) ''revoke'' (''reason='' @ reason) k"
    have "audit_rows (cw_audit ?w') = audit_rows (cw_audit w) @ [fst ?r]" "fst (cli_main E V (CmdRevoke p kp reason) w) = Exit 0"
      using Inr by (simp_all add: run record_entry_rows)
    moreover have "ae_agent_id (fst ?r) = card_id crd" "ae_action (fst ?r) = ''revoke''" "ae_target (fst ?r) = ''reason='' @ reason"
      by (simp_all add: record_entry_def Let_def)
    moreover have "cv_audit_open V = Inr ()" using Inr by simp
    ultimately show ?thesis unfolding Let_def if_not_P [OF False] using gone by (metis (no_types, lifting))
  next
    case (Inl e)
    then have "fst (cli_main E V (CmdRevoke p kp reason) w) \<noteq> Exit 0" "cw_audit ?w' = cw_audit w"
      by (simp_all add: run split: error.split)
    moreover have "cv_audit_open V \<noteq> Inr ()" using Inl by simp
    ultimately show ?thesis unfolding Let_def if_not_P [OF False] using gone later by (simp only: simp_thms if_False) blast
  qed
qed

text \<open>The first run again, with a log that does not open.\<close>

theorem revoke_logged_or_never_witness:
  "\<exists>w1. run_issue demo_cli_ext demo_cli ''bot'' ''me'' ''read'' ''1h'' ''instance'' ''ed25519'' None ''out'' demo_home = (Inr demo_cli_card, w1)
     \<and> fst (cli_main demo_cli_ext (demo_cli\<lparr>cv_audit_open := Inl (IoError ''audit.db'')\<rparr>)
              (CmdRevoke (card_file ''out'') (key_file ''out'') ''lost'') w1) \<noteq> Exit 0
     \<and> is_revoked (cw_registry (snd (cli_main demo_cli_ext (demo_cli\<lparr>cv_audit_open := Inl (IoError ''audit.db'')\<rparr>)
              (CmdRevoke (card_file ''out'') (key_file ''out'') ''lost'') w1))) (replicate 36 CHR ''a'')"
proof -
  let ?V = "demo_cli\<lparr>cv_audit_open := Inl (IoError ''audit.db'')\<rparr>"
  obtain w1 where w1: "run_issue demo_cli_ext demo_cli ''bot'' ''me'' ''read'' ''1h'' ''instance'' ''ed25519'' None ''out'' demo_home
      = (Inr demo_cli_card, w1)" "cw_registry w1 = []" using demo_cli_runs by blast
  obtain pem where i: "issue_card demo_cli_ext (cv_now demo_cli) (cv_uuid demo_cli) (cv_seed demo_cli) (cv_keygen demo_cli)
      ''bot'' ''me'' ''read'' ''1h'' ''instance'' ''ed25519'' None = Inr (demo_cli_card, pem)"
    and files: "cw_files w1 (card_file ''out'') = Some (File (cv_pretty demo_cli (JObj (card_members demo_cli_ext demo_cli_card))))"
      "cw_files w1 (key_file ''out'') = Some (File pem)"
    using run_issue_ok [OF w1(1)] by metis
  have keys: "good_keys demo_cli_ext (cv_seed demo_cli) (cv_keygen demo_cli) (card_crypto_scheme demo_cli_card)"
    by (simp add: good_keys_def demo_cli_issue demo_cli_def)
  note k = issue_card_valid(2) [OF i keys]
  have json: "json_parse demo_cli_ext t = Some (JObj (card_members demo_cli_ext demo_cli_card))" for t
    unfolding demo_cli_members by (simp add: demo_cli_ext_def)
  have "card_from_json demo_cli_ext (JObj (card_members demo_cli_ext demo_cli_card)) = Some demo_cli_card"
    using issue_card_valid(4) [OF i keys] by (intro card_read) (simp_all add: demo_cli_issue rfc3339_range_def seconds_def ns_per_sec_def)
  note load = load_card_at [OF files(1) json this] read_text_at [OF files(2)]
  have "cv_registry_open ?V = Inr ()" by (simp add: demo_cli_def)
  note r = revoke_logged_or_never [OF load k this, of "''lost''"]
  have nr: "\<not> is_revoked (cw_registry w1) (card_id demo_cli_card)" by (simp only: w1(2)) (simp add: is_revoked_def)
  have nl: "cv_audit_open ?V \<noteq> Inr ()" by simp
  have r': "is_revoked (cw_registry (snd (cli_main demo_cli_ext ?V (CmdRevoke (card_file ''out'') (key_file ''out'') ''lost'') w1))) (card_id demo_cli_card)"
    "fst (cli_main demo_cli_ext ?V (CmdRevoke (card_file ''out'') (key_file ''out'') ''lost'') w1) \<noteq> Exit 0"
    using r [unfolded Let_def if_not_P [OF nr] if_not_P [OF nl]] by (rule conjunct1, metis (no_types))
  show ?thesis using w1(1) r' [unfolded demo_cli_issue(5)] by (intro exI conjI)
qed

subsection \<open>The handshake on files\<close>

lemma challenge_read:
  assumes "dt_serde_ok E" "uuid_ok E (ch_id c)" "rfc3339_range (ch_issued_at c)" "rfc3339_range (ch_expires_at c)"
  shows "challenge_from_json E (JObj (challenge_members E c)) = Some c"
proof -
  have "dt_serde_parse E (dt_serde E (ch_issued_at c)) = Some (ch_issued_at c)"
    "dt_serde_parse E (dt_serde E (ch_expires_at c)) = Some (ch_expires_at c)"
    using assms by (simp_all add: dt_serde_ok_def)
  moreover have "opt_str (case v of None \<Rightarrow> JNull | Some s \<Rightarrow> JStr s) = Some v" for v by (simp add: opt_str_def split: option.split)
  moreover have "uuid_parse E (ch_id c) = Some (ch_id c)" using assms(2) by (simp add: uuid_ok_def)
  ultimately show ?thesis
    by (simp add: challenge_from_json_def challenge_members_def struct_opt_members_def struct_field_def opt_field_def)
qed

lemma response_read:
  assumes "dt_serde_ok E" "uuid_ok E (resp_challenge_id r)" "rfc3339_range (resp_responded_at r)"
    and "card_from_json E (JObj (card_members E (resp_agent_card r))) = Some (resp_agent_card r)"
  shows "response_from_json E (JObj (response_json E r)) = Some r"
proof -
  have "dt_serde_parse E (dt_serde E (resp_responded_at r)) = Some (resp_responded_at r)"
    using assms by (simp add: dt_serde_ok_def)
  moreover have "opt_str (case v of None \<Rightarrow> JNull | Some s \<Rightarrow> JStr s) = Some v" for v by (simp add: opt_str_def split: option.split)
  moreover have "uuid_parse E (resp_challenge_id r) = Some (resp_challenge_id r)" using assms(2) by (simp add: uuid_ok_def)
  ultimately show ?thesis
    by (simp add: response_from_json_def response_json_def struct_opt_members_def struct_field_def opt_field_def
        opt_member_field opt_member_read assms(4))
qed

lemma load_json_at:
  "cw_files w p = Some (File t) \<Longrightarrow> json_parse E t = Some v \<Longrightarrow> dec v = Some c \<Longrightarrow> load_json E dec p w = (Inr c, w)"
  by (simp add: load_json_def read_text_def read_at_def)

text \<open>What the challenge command leaves.\<close>

lemma run_challenge_ok:
  assumes "run_challenge E V cp scope ttl pq cf w = (Inr c, w1)"
  shows "cw_files w1 cf = Some (File (cv_pretty V (JObj (challenge_members E c))))"
    "ch_id c = cv_uuid V" "ch_issued_at c = cv_now V" "ch_required_scopes c = map trim (split_on (CHR '','') scope)"
    "ch_min_crypto c = (if pq then Some ''hybrid'' else None)"
  using assms by (auto simp: run_challenge_def then_cli_ok_iff on_files_iff bind_res_Inr_iff execute_challenge_def
      create_challenge_def Let_def dest!: write_file_ok)


text \<open>A challenge and its answer for the witness, with the three texts that are read.\<close>

definition demo_hs_challenge :: challenge where
  "demo_hs_challenge = \<lparr>ch_id = replicate 36 CHR ''a'', ch_nonce = nibbles (replicate 32 CHR ''n''),
     ch_issuer = ''urn:uuid:'' @ replicate 36 CHR ''a'', ch_required_scopes = [''read''], ch_issued_at = 0,
     ch_expires_at = seconds 30, ch_min_crypto = None\<rparr>"

definition demo_hs_response :: challenge_response where
  "demo_hs_response = \<lparr>resp_challenge_id = replicate 36 CHR ''a'', resp_agent_card = demo_card,
     resp_signature = sign ref_ext demo_seed (challenge_to_sign_bytes ref_ext demo_hs_challenge), resp_pq_signature = None,
     resp_responded_at = 0\<rparr>"

definition demo_hs_ext :: ext where
  "demo_hs_ext = ref_ext\<lparr>json_parse := (\<lambda>s.
     if s = ''a'' then Some (JObj (card_members ref_ext demo_card))
     else if s = ''c'' then Some (JObj (challenge_members ref_ext demo_hs_challenge))
     else if s = ''r'' then Some (JObj (response_json ref_ext demo_hs_response)) else None)\<rparr>"

definition demo_hs :: cli_env where
  "demo_hs = demo_cli\<lparr>cv_pretty := (\<lambda>v. case v of
     JObj ((k, _) # _ # (k', _) # _) \<Rightarrow> if k = ''challenge_id'' then ''r'' else if k' = ''issuer'' then ''c'' else ''a'' | _ \<Rightarrow> [])\<rparr>"

definition demo_hs_home :: cli_world where
  "demo_hs_home = demo_home\<lparr>cw_files := [''card'' \<mapsto> File ''a'', ''key'' \<mapsto> File (encode_private_key_pem ref_ext demo_seed)]\<rparr>"

lemma demo_hs_ext_ok [simp]: "b64_ok demo_hs_ext" "ed_ok demo_hs_ext" "dt_serde_ok demo_hs_ext"
  "uuid_ok demo_hs_ext (replicate 36 CHR ''a'')"
  using ref_b64_ok ref_ed_ok ref_dt_serde_ok ref_uuid_ok [of "CHR ''a''"]
  by (simp_all add: demo_hs_ext_def b64_ok_def ed_ok_def dt_serde_ok_def uuid_ok_def)

lemma demo_hs_members: "card_members demo_hs_ext c = card_members ref_ext c"
  "challenge_members demo_hs_ext d = challenge_members ref_ext d" "response_json demo_hs_ext r = response_json ref_ext r"
  by (simp_all add: card_members_def challenge_members_def response_json_def demo_hs_ext_def)

lemma demo_hs_parse:
  "json_parse demo_hs_ext ''a'' = Some (JObj (card_members demo_hs_ext demo_card))"
  "json_parse demo_hs_ext (cv_pretty demo_hs (JObj (challenge_members demo_hs_ext demo_hs_challenge)))
     = Some (JObj (challenge_members demo_hs_ext demo_hs_challenge))"
  "json_parse demo_hs_ext (cv_pretty demo_hs (JObj (response_json demo_hs_ext demo_hs_response)))
     = Some (JObj (response_json demo_hs_ext demo_hs_response))"
  unfolding demo_hs_members
    by (simp_all add: demo_hs_ext_def demo_hs_def challenge_members_def response_json_def demo_hs_response_def opt_member_def)

lemma demo_hs_card: "card_from_json demo_hs_ext (JObj (card_members demo_hs_ext demo_card)) = Some demo_card"
  by (rule card_read) (simp_all add: demo_card_def rfc3339_range_def seconds_def ns_per_sec_def)

abbreviation demo_hs_asked :: cli_world where
  "demo_hs_asked \<equiv> demo_hs_home\<lparr>cw_files := (cw_files demo_hs_home)
     (''chal'' \<mapsto> File (cv_pretty demo_hs (JObj (challenge_members demo_hs_ext demo_hs_challenge))))\<rparr>"

lemma demo_hs_scopes: "map trim (split_on (CHR '','') ''read'') = [''read'']" "trim ''read'' = ''read''"
  by code_simp+

lemma demo_hs_run:
  "run_challenge demo_hs_ext demo_hs ''card'' ''read'' 30 False ''chal'' demo_hs_home = (Inr demo_hs_challenge, demo_hs_asked)"
proof -
  have load: "load_card demo_hs_ext ''card'' demo_hs_home = (Inr demo_card, demo_hs_home)"
    by (rule load_card_at [OF _ demo_hs_parse(1) demo_hs_card]) (simp add: demo_hs_home_def)
  have c: "execute_challenge demo_hs_ext 0 (replicate 36 CHR ''a'') (replicate 32 CHR ''n'') demo_card ''read'' 30 False = Inr demo_hs_challenge"
    by (simp add: execute_challenge_def demo_hs_scopes create_challenge_def duration_of_def plus_duration_def seconds_def ns_per_sec_def)
       (simp add: demo_hs_ext_def ref_ext_def demo_hs_challenge_def demo_card_def seconds_def ns_per_sec_def)
  have "length (nibbles (replicate 32 CHR ''n'')) = 2 * length (replicate 32 CHR ''n'')"
    using hash_okD(2) [OF ref_hash_ok] by (simp add: ref_ext_def)
  then have n: "length (ch_nonce demo_hs_challenge) = 64" unfolding demo_hs_challenge_def challenge.simps by (simp only: length_replicate)
  have w: "write_file (cv_io demo_hs) ''chal'' b (cw_files demo_hs_home) = (Inr (), (cw_files demo_hs_home)(''chal'' \<mapsto> File b))" for b
    by (simp add: write_file_def demo_hs_def demo_cli_def demo_hs_home_def)
  have "cv_now demo_hs = 0" "cv_uuid demo_hs = replicate 36 CHR ''a''" "cv_nonce demo_hs = replicate 32 CHR ''n''"
    unfolding demo_hs_def demo_cli_def by simp_all
  then show ?thesis using c n by (simp only: run_challenge_def then_cli_def load prod.case sum.case lift_cli_def on_files_def w)
    (simp add: first16_def slice_def)
qed


end
