(* ===== verification/Daemon_Reports.thy ===== *)
theory Daemon_Reports
  imports Daemon_Main Cli_Commands
begin

text \<open>
  What the daemon's command line prints of an answer, the printers at the end of \<^verbatim>\<open>grokingclaw-daemon/src/main.rs\<close>: a report
  is the list of its lines.  A printer reads members of a JSON value and puts a default where one is missing or
  of another type.  How a time prints is an argument, as is the pretty printing of JSON.
\<close>

subsection \<open>Lines\<close>

definition str_or :: "string \<Rightarrow> json \<Rightarrow> string \<Rightarrow> string" where
  "str_or d v k = (case get_str v k of Some s \<Rightarrow> s | None \<Rightarrow> d)"

definition u64_of :: "json \<Rightarrow> string \<Rightarrow> nat option" where
  "u64_of v k = Option.bind (json_get v k) as_u64"

definition u64_or_0 :: "json \<Rightarrow> string \<Rightarrow> nat" where
  "u64_or_0 v k = (case u64_of v k of Some n \<Rightarrow> n | None \<Rightarrow> 0)"

definition array_of :: "json \<Rightarrow> string \<Rightarrow> json list option" where
  "array_of v k = Option.bind (json_get v k) as_array"

text \<open>A column pads with blanks up to a number of characters, not bytes.\<close>

definition char_count :: "string \<Rightarrow> nat" where
  "char_count s = length (filter (\<lambda>c. \<not> (128 \<le> (of_char c :: nat) \<and> (of_char c :: nat) < 192)) s)"

definition cell :: "nat \<Rightarrow> string \<Rightarrow> string" where
  "cell n s = s @ replicate (n - char_count s) CHR '' ''"

definition table_line :: "(nat \<times> string) list \<Rightarrow> string" where
  "table_line cells = join '' '' (map (\<lambda>(n, s). cell n s) cells)"

definition rule_line :: "nat \<Rightarrow> string" where
  "rule_line n = replicate n CHR ''-''"

definition crab :: string where "crab = [CHR 0xF0, CHR 0x9F, CHR 0xA6, CHR 0x80]"
definition key_sign :: string where "key_sign = [CHR 0xF0, CHR 0x9F, CHR 0x94, CHR 0x91]"
definition tick :: string where "tick = [CHR 0xE2, CHR 0x9C, CHR 0x93]"
definition good_sign :: string where "good_sign = [CHR 0xE2, CHR 0x9C, CHR 0x85]"
definition bad_sign :: string where "bad_sign = [CHR 0xE2, CHR 0x9D, CHR 0x8C]"
definition dash :: string where "dash = [CHR 0xE2, CHR 0x80, CHR 0x94]"

type_synonym report = "string list result"

text \<open>A table of the elements of an array, or one line when there are none.\<close>

definition table :: "string \<Rightarrow> string \<Rightarrow> nat \<Rightarrow> (json \<Rightarrow> string result) \<Rightarrow> json list option \<Rightarrow> report" where
  "table nothing header width row vs =
     (case vs of
        Some (x # xs) \<Rightarrow> bind_res (all_res row (x # xs)) (\<lambda>rows. Inr (header # rule_line width # rows))
      | _ \<Rightarrow> Inr [nothing])"

subsection \<open>Agents and status\<close>

text \<open>The first 19 bytes of a time, its \<^verbatim>\<open>T\<close> a blank; the cut panics inside a character.\<close>

definition created_cell :: "json \<Rightarrow> string result" where
  "created_cell agent =
     (case get_str agent ''created_at'' of
        None \<Rightarrow> Inr ''?''
      | Some c \<Rightarrow>
          if 19 \<le> length c
          then if is_char_boundary c 19 then Inr (replace_char (CHR ''T'') (CHR '' '') (take 19 c))
               else Inl (Panic ''byte index is not a char boundary'')
          else Inr c)"

definition agent_columns :: "string \<Rightarrow> string \<Rightarrow> string \<Rightarrow> string \<Rightarrow> string \<Rightarrow> string" where
  "agent_columns a b c d e = table_line [(20, a), (12, b), (10, c), (8, d), (20, e)]"

definition agent_row :: "json \<Rightarrow> string result" where
  "agent_row agent =
     bind_res (created_cell agent) (\<lambda>created.
     Inr (agent_columns (str_or ''?'' agent ''name'') (str_or ''?'' agent ''template'') (str_or ''?'' agent ''status'')
       (case u64_of agent ''pid'' of Some p \<Rightarrow> nat_str p | None \<Rightarrow> ''-'') created))"

definition print_agents_list :: "json \<Rightarrow> report" where
  "print_agents_list v =
     table ''No agents.'' (agent_columns ''NAME'' ''TEMPLATE'' ''STATUS'' ''PID'' ''CREATED'') 70 agent_row (as_array v)"

definition anchor_lines :: "json \<Rightarrow> string list" where
  "anchor_lines v =
     (case json_get v ''anchor'' of
        None \<Rightarrow> []
      | Some a \<Rightarrow>
          if Option.bind (json_get a ''enabled'') as_bool = Some True
          then [''   Anchor:  enabled (pending: '' @ nat_str (u64_or_0 a ''pending_count'') @ '')''] else [])"

definition license_lines :: "json \<Rightarrow> string list" where
  "license_lines v =
     (case json_get v ''license'' of
        None \<Rightarrow> []
      | Some lic \<Rightarrow>
          [''   License: '' @ str_or ''Free'' lic ''tier'' @ '' (Agents: '' @ nat_str (u64_or_0 lic ''agent_count'')
           @ (case u64_of lic ''max_agents'' of Some m \<Rightarrow> ''/'' @ nat_str m @ '')'' | None \<Rightarrow> '' unlimited)'')])"

definition status_lines :: "json \<Rightarrow> string list" where
  "status_lines v =
     [crab @ '' GrokingClaw Daemon'', ''   Status:  '' @ str_or ''unknown'' v ''daemon'', ''   Version: '' @ str_or ''?'' v ''version'',
      ''   Uptime:  '' @ nat_str (u64_or_0 v ''uptime_seconds'') @ ''s'', ''   Agents:  '' @ nat_str (u64_or_0 v ''agents_count'')]
     @ (case json_get v ''mesh'' of None \<Rightarrow> [] | Some m \<Rightarrow> [''   Mesh:    '' @ str_or ''disabled'' m ''state''])
     @ anchor_lines v @ license_lines v"

definition print_status :: "json \<Rightarrow> report" where
  "print_status v =
     bind_res (case array_of v ''agents'' of
                 Some (a # as) \<Rightarrow> bind_res (print_agents_list (JArr (a # as))) (\<lambda>ls. Inr ([] # ls))
               | _ \<Rightarrow> Inr []) (\<lambda>agents. Inr (status_lines v @ agents))"

subsection \<open>Licence, birth and mesh\<close>

definition limit_or_unlimited :: "json \<Rightarrow> string \<Rightarrow> string" where
  "limit_or_unlimited v k = (case u64_of v k of Some m \<Rightarrow> nat_str m | None \<Rightarrow> ''unlimited'')"

definition print_license_status :: "json \<Rightarrow> string list" where
  "print_license_status v =
     [key_sign @ '' License Status'', ''   Tier:     '' @ str_or ''Free'' v ''tier'', ''   Licensee: '' @ str_or ''(free tier)'' v ''licensee'',
      ''   Agents:   '' @ nat_str (u64_or_0 v ''agent_count'')
        @ (case u64_of v ''max_agents'' of Some m \<Rightarrow> ''/'' @ nat_str m | None \<Rightarrow> '' (unlimited)''),
      ''   Mesh:     '' @ limit_or_unlimited v ''max_mesh_nodes'', ''   Proxies:  '' @ limit_or_unlimited v ''max_proxies'']
     @ (case array_of v ''features'' of
          None \<Rightarrow> []
        | Some [] \<Rightarrow> [''   Features: (none '' @ dash @ '' upgrade at https://grokingclaw.com)'']
        | Some fs \<Rightarrow> [''   Features: '' @ join '', '' (List.map_filter as_str fs)])"

definition print_birth_result :: "json \<Rightarrow> string list" where
  "print_birth_result v =
     (let name = str_or ''?'' v ''name'' in
     [''  '' @ tick @ '' Agent '' @ single_quoted name @ '' birthed ('' @ str_or ''local'' v ''birth_mode'' @ '' mode)'',
      ''  '' @ tick @ '' Template: '' @ str_or ''?'' v ''template'', ''  '' @ tick @ '' Agent ID: '' @ str_or ''?'' v ''agent_id'']
     @ (case get_str v ''did'' of None \<Rightarrow> [] | Some did \<Rightarrow> [''  '' @ tick @ '' DID: '' @ did])
     @ [[], ''  Start with: grokingclaw agents start '' @ name])"

definition print_mesh_status :: "json \<Rightarrow> string list" where
  "print_mesh_status v =
     [''Mesh Status: '' @ str_or ''unknown'' v ''state'']
     @ (case get_str v ''mesh_ip'' of None \<Rightarrow> [] | Some ip \<Rightarrow> [''  Mesh IP: '' @ ip])
     @ (case u64_of v ''peer_count'' of None \<Rightarrow> [] | Some n \<Rightarrow> [''  Peers:   '' @ nat_str n])
     @ (case get_str v ''connected_at'' of None \<Rightarrow> [] | Some t \<Rightarrow> [''  Since:   '' @ t])"

definition peer_columns :: "string \<Rightarrow> string \<Rightarrow> string \<Rightarrow> string \<Rightarrow> string" where
  "peer_columns a b c d = table_line [(20, a), (30, b), (16, c), (8, d)]"

definition peer_row :: "json \<Rightarrow> string result" where
  "peer_row peer =
     Inr (peer_columns (str_or ''?'' peer ''name'') (str_or ''?'' peer ''did'') (str_or ''?'' peer ''mesh_ip'')
       (nat_str (u64_or_0 peer ''agent_count'')))"

definition print_mesh_peers :: "json \<Rightarrow> report" where
  "print_mesh_peers v =
     table ''No peers connected.'' (peer_columns ''NAME'' ''DID'' ''MESH IP'' ''AGENTS'') 74 peer_row (array_of v ''peers'')"

subsection \<open>Templates, updates and the log\<close>

definition template_columns :: "string \<Rightarrow> string \<Rightarrow> string \<Rightarrow> string" where
  "template_columns a b c = table_line [(20, a), (12, b), (40, c)]"

definition template_row :: "json \<Rightarrow> string result" where
  "template_row t = Inr (template_columns (str_or ''?'' t ''name'') (str_or ''?'' t ''version'') (str_or [] t ''description''))"

definition print_templates_list :: "json \<Rightarrow> report" where
  "print_templates_list v =
     table ''No templates installed.'' (template_columns ''NAME'' ''VERSION'' ''DESCRIPTION'') 72 template_row (array_of v ''templates'')"

definition update_columns :: "string \<Rightarrow> string \<Rightarrow> string \<Rightarrow> string \<Rightarrow> string \<Rightarrow> string" where
  "update_columns a b c d e = table_line [(12, a), (20, b), (12, c), (12, d), (8, e)]"

definition update_row :: "json \<Rightarrow> string result" where
  "update_row u =
     Inr (update_columns (str_or ''?'' u ''kind'') (str_or ''?'' u ''name'') (str_or ''?'' u ''current_version'')
       (str_or ''?'' u ''latest_version'') (if Option.bind (json_get u ''is_major'') as_bool = Some True then ''YES'' else ''no''))"

definition print_update_status :: "json \<Rightarrow> report" where
  "print_update_status v =
     table ''Everything is up to date.'' (update_columns ''TYPE'' ''NAME'' ''CURRENT'' ''LATEST'' ''MAJOR'') 64 update_row
       (array_of v ''available_updates'')"

definition i64_or_0 :: "json \<Rightarrow> string \<Rightarrow> int" where
  "i64_or_0 v k = (case Option.bind (json_get v k) as_i64 of Some i \<Rightarrow> i | None \<Rightarrow> 0)"

definition entry_columns :: "string \<Rightarrow> string \<Rightarrow> string \<Rightarrow> string \<Rightarrow> string" where
  "entry_columns a b c d = table_line [(6, a), (20, b), (20, c), (20, d)]"

definition entry_row :: "(int \<Rightarrow> string option) \<Rightarrow> json \<Rightarrow> string result" where
  "entry_row show_time e =
     (let ts = i64_or_0 e ''timestamp''
      in Inr (entry_columns (int_str (i64_or_0 e ''id'')) (str_or ''?'' e ''action'') (str_or ''?'' e ''target'')
                (case show_time ts of Some t \<Rightarrow> t | None \<Rightarrow> int_str ts)))"

definition verdict_lines :: "json \<Rightarrow> nat \<Rightarrow> string list" where
  "verdict_lines v n =
     (case Option.bind (json_get v ''chain_valid'') as_bool of
        None \<Rightarrow> []
      | Some verified \<Rightarrow>
          [if verified then good_sign @ '' Audit chain verified ('' @ nat_str n @ '' entries)'' else bad_sign @ '' Audit chain INVALID'', []])"

definition print_audit_entries :: "(int \<Rightarrow> string option) \<Rightarrow> json \<Rightarrow> report" where
  "print_audit_entries show_time v =
     (let entries = array_of v ''entries''
      in bind_res (table ''No audit entries.'' (entry_columns ''ID'' ''ACTION'' ''TARGET'' ''TIMESTAMP'') 66 (entry_row show_time) entries) (\<lambda>ls.
         Inr ((case entries of Some (e # es) \<Rightarrow> verdict_lines v (length (e # es)) | _ \<Rightarrow> []) @ ls)))"

subsection \<open>The report of an answer\<close>

definition print_answer :: "(int \<Rightarrow> string option) \<Rightarrow> (json \<Rightarrow> string) \<Rightarrow> string \<Rightarrow> json \<Rightarrow> report" where
  "print_answer show_time pretty meth result =
     (if meth = ''status'' then print_status result
      else if meth = ''agents.list'' then print_agents_list result
      else if meth = ''agents.get'' then Inr [pretty result]
      else if meth = ''agents.logs'' then Inr (case get_str result ''logs'' of Some logs \<Rightarrow> [logs] | None \<Rightarrow> [])
      else if meth = ''birth'' then Inr (print_birth_result result)
      else if meth = ''mesh.status'' then Inr (print_mesh_status result)
      else if meth = ''mesh.peers'' then print_mesh_peers result
      else if meth = ''templates.list'' then print_templates_list result
      else if meth = ''templates.inspect'' then Inr [pretty result]
      else if meth = ''update.check'' \<or> meth = ''update.status'' then print_update_status result
      else if meth = ''audit.query'' then print_audit_entries show_time result
      else if meth = ''license.status'' then Inr (print_license_status result)
      else Inr [pretty result])"

text \<open>A command with what it prints; an answer without a result prints nothing.\<close>

definition run_and_print ::
    "ext \<Rightarrow> 't ipc_env \<Rightarrow> (int \<Rightarrow> string option) \<Rightarrow> (json \<Rightarrow> string) \<Rightarrow> bool \<Rightarrow> daemon_command \<Rightarrow> 't ipc_world \<Rightarrow> report \<times> 't ipc_world" where
  "run_and_print E N show_time pretty socket_exists cmd w =
     (case run_command E N socket_exists cmd w of
        (r, w') \<Rightarrow>
          (bind_res r (\<lambda>answer. bind_res (command_request cmd) (\<lambda>(meth, _).
             case answer of Some result \<Rightarrow> print_answer show_time pretty meth result | None \<Rightarrow> Inr [])), w'))"

subsection \<open>Reading what the daemon answers\<close>

lemma get_object [simp]: "get_str (json_object kvs) k = Option.bind (map_of kvs k) as_str"
  "u64_of (json_object kvs) k = Option.bind (map_of kvs k) as_u64" "array_of (json_object kvs) k = Option.bind (map_of kvs k) as_array"
  by (simp_all add: get_str_def u64_of_def array_of_def)

lemma str_or_object [simp]: "str_or d (json_object kvs) k = (case Option.bind (map_of kvs k) as_str of Some s \<Rightarrow> s | None \<Rightarrow> d)"
  by (simp add: str_or_def)

lemma all_res_map: "(\<And>x. x \<in> set xs \<Longrightarrow> f (g x) = Inr (h x)) \<Longrightarrow> all_res f (map g xs) = Inr (map h xs)"
  by (induction xs) simp_all

lemma table_map:
  assumes "\<And>x. x \<in> set xs \<Longrightarrow> row (g x) = Inr (h x)"
  shows "table nothing header width row (Some (map g xs)) = Inr (if xs = [] then [nothing] else header # rule_line width # map h xs)"
proof (cases xs)
  case (Cons x ys)
  then have "all_res row (g x # map g ys) = Inr (map h xs)" using all_res_map [of xs row g h] assms by simp
  then show ?thesis by (simp add: table_def Cons del: all_res.simps)
qed (simp add: table_def)

definition agent_line :: "ext \<Rightarrow> agent_info \<Rightarrow> string" where
  "agent_line E i = agent_columns (ai_name i) (ai_template i) (agent_status_display (ai_status i))
     (case ai_pid i of Some p \<Rightarrow> nat_str p | None \<Rightarrow> ''-'') (replace_char (CHR ''T'') (CHR '' '') (take 19 (dt_serde E (ai_created_at i))))"

definition agents_table :: "ext \<Rightarrow> agent_info list \<Rightarrow> string list" where
  "agents_table E infos =
     (if infos = [] then [''No agents.'']
      else agent_columns ''NAME'' ''TEMPLATE'' ''STATUS'' ''PID'' ''CREATED'' # rule_line 70 # map (agent_line E) infos)"

text \<open>An agent whose time can be cut after the seconds and whose process number fits 64 bits.\<close>

definition printable :: "ext \<Rightarrow> agent_info \<Rightarrow> bool" where
  "printable E i \<longleftrightarrow> 19 \<le> length (dt_serde E (ai_created_at i)) \<and> is_char_boundary (dt_serde E (ai_created_at i)) 19
     \<and> (case ai_pid i of None \<Rightarrow> True | Some p \<Rightarrow> p < 2 ^ 64)"

lemma agent_row_info: "printable E i \<Longrightarrow> agent_row (agent_info_value E i) = Inr (agent_line E i)"
  by (auto simp: agent_row_def created_cell_def agent_info_value_def agent_line_def printable_def opt_json_def split: option.splits)

lemma agents_list_report:
  "\<forall>i \<in> set infos. printable E i \<Longrightarrow> print_agents_list (JArr (map (agent_info_value E) infos)) = Inr (agents_table E infos)"
  by (simp add: print_agents_list_def agents_table_def table_map [of infos agent_row "agent_info_value E" "agent_line E"] agent_row_info)

subsection \<open>Properties\<close>

text \<open>
  The listing shows the agents.  What \<^verbatim>\<open>agents list\<close> prints of the daemon's answer is one row per agent of the supervisor, in
  its order, with name, template, status, process and time of creation; and the status report gives their number
  and ends with the same table, or without one when there is no agent.
\<close>

theorem agents_report_exact:
  assumes "\<forall>i \<in> set (list_agents (agents_of w)). printable E i" and "length (list_agents (agents_of w)) < 2 ^ 64"
  shows "\<exists>v s ls. ipc_agents_list E params w = (Inr v, w)
    \<and> print_answer show_time pretty ''agents.list'' v = Inr (agents_table E (list_agents (agents_of w)))
    \<and> ipc_status E N params w = (Inr s, w)
    \<and> print_answer show_time pretty ''status'' s
        = Inr (ls @ (if list_agents (agents_of w) = [] then [] else [] # agents_table E (list_agents (agents_of w))))
    \<and> ''   Agents:  '' @ nat_str (length (list_agents (agents_of w))) \<in> set ls"
proof -
  let ?infos = "list_agents (agents_of w)"
  note t = agents_list_report [OF assms(1)]
  have l: "print_answer show_time pretty ''agents.list'' (JArr (map (agent_info_value E) ?infos)) = Inr (agents_table E ?infos)"
    by (simp add: print_answer_def t)
  obtain kvs where s: "ipc_status E N params w = (Inr (json_object kvs), w)" and kvs: "map_of kvs ''agents'' = Some (JArr (map (agent_info_value E) ?infos))"
    "map_of kvs ''agents_count'' = Some (JNum (int (length ?infos)))"
    by (simp add: ipc_status_def Let_def)
  have n: "u64_or_0 (json_object kvs) ''agents_count'' = length ?infos"
    using assms(2) by (simp add: u64_or_0_def kvs(2))
  have a: "(case array_of (json_object kvs) ''agents'' of
      Some (a # as) \<Rightarrow> bind_res (print_agents_list (JArr (a # as))) (\<lambda>ls. Inr ([] # ls)) | _ \<Rightarrow> Inr [])
    = Inr (if ?infos = [] then [] else [] # agents_table E ?infos)"
    using t by (cases ?infos) (simp_all add: kvs(1))
  have "''   Agents:  '' @ nat_str (u64_or_0 v ''agents_count'') \<in> set (status_lines v)" for v by (simp add: status_lines_def)
  from this [of "json_object kvs"] have m: "''   Agents:  '' @ nat_str (length ?infos) \<in> set (status_lines (json_object kvs))"
    unfolding n .
  have "print_answer show_time pretty ''status'' (json_object kvs)
      = Inr (status_lines (json_object kvs) @ (if ?infos = [] then [] else [] # agents_table E ?infos))"
    unfolding print_answer_def print_status_def a by simp
  then show ?thesis unfolding s ipc_agents_list_def using l m by blast
qed

definition entry_line :: "(int \<Rightarrow> string option) \<Rightarrow> audit_entry \<Rightarrow> string" where
  "entry_line show_time e = entry_columns (int_str (ae_id e)) (ae_action e) (ae_target e)
     (case show_time (ae_timestamp e) of Some t \<Rightarrow> t | None \<Rightarrow> int_str (ae_timestamp e))"

lemma entry_row_value: "i64_ok (ae_id e) \<Longrightarrow> i64_ok (ae_timestamp e) \<Longrightarrow> entry_row show_time (audit_entry_value e) = Inr (entry_line show_time e)"
  by (simp add: entry_row_def entry_line_def audit_entry_value_def i64_or_0_def i64_ok_def Let_def)

text \<open>
  C20: what the audit report vouches for.  For a log that opens, \<^verbatim>\<open>audit --verify\<close> prints the last entries asked for, as many as there are, one row
  each, under a line that says verified exactly when the chain of all the entries that were found is valid.  Asked
  for none it says that there are no entries, whatever the log holds and whether or not its chain is valid.
\<close>

theorem audit_report_honest:
  fixes E :: ext and now :: datetime and agents :: supervisor and db :: audit_db and name :: string
  defines "found \<equiv> query_entries E now db (map_option ai_agent_id (get_agent name agents)) None"
  assumes "A name = Some (Inr db)" and "\<forall>e \<in> set found. i64_ok (ae_id e) \<and> i64_ok (ae_timestamp e)"
  shows "\<exists>v. daemon_query_audit E A now agents name n True = Inr v
    \<and> print_answer show_time pretty ''audit.query'' v
      = Inr (if n = 0 \<or> found = [] then [''No audit entries.'']
             else [if verify_chain E found then good_sign @ '' Audit chain verified ('' @ nat_str (min n (length found)) @ '' entries)''
                   else bad_sign @ '' Audit chain INVALID'', [],
                   entry_columns ''ID'' ''ACTION'' ''TARGET'' ''TIMESTAMP'', rule_line 66]
                  @ map (entry_line show_time) (drop (length found - n) found))"
proof -
  let ?shown = "drop (length found - n) found"
  let ?v = "json_object ([(''entries'', JArr (map audit_entry_value ?shown)), (''total'', JNum (int (length found)))]
      @ [(''chain_valid'', JBool (verify_chain E found))])"
  have q: "daemon_query_audit E A now agents name n True = Inr ?v"
    by (simp add: daemon_query_audit_def assms(2) query_audit_def found_def Let_def)
  have "\<And>e. e \<in> set ?shown \<Longrightarrow> entry_row show_time (audit_entry_value e) = Inr (entry_line show_time e)"
    using assms(3) entry_row_value in_set_dropD by metis
  from table_map [where row = "entry_row show_time" and g = audit_entry_value and h = "entry_line show_time", OF this]
  have t: "table nothing header width (entry_row show_time) (Some (map audit_entry_value ?shown))
      = Inr (if ?shown = [] then [nothing] else header # rule_line width # map (entry_line show_time) ?shown)" for nothing header width .
  have len: "length ?shown = min n (length found)" by simp
  have empty: "?shown = [] \<longleftrightarrow> n = 0 \<or> found = []" by (cases found) (simp_all, arith)
  have arr: "array_of ?v ''entries'' = Some (map audit_entry_value ?shown)"
    "Option.bind (json_get ?v ''chain_valid'') as_bool = Some (verify_chain E found)" by simp_all
  have vl: "verdict_lines ?v k = [if verify_chain E found then good_sign @ '' Audit chain verified ('' @ nat_str k @ '' entries)''
      else bad_sign @ '' Audit chain INVALID'', []]" for k
    unfolding verdict_lines_def arr(2) by simp
  have "print_answer show_time pretty ''audit.query'' ?v = print_audit_entries show_time ?v" by (simp add: print_answer_def)
  also have "\<dots> = Inr (if ?shown = [] then [''No audit entries.'']
      else verdict_lines ?v (length ?shown) @ entry_columns ''ID'' ''ACTION'' ''TARGET'' ''TIMESTAMP'' # rule_line 66 # map (entry_line show_time) ?shown)"
    unfolding print_audit_entries_def arr(1) Let_def t by (cases ?shown) simp_all
  also have "\<dots> = Inr (if n = 0 \<or> found = [] then [''No audit entries.'']
             else [if verify_chain E found then good_sign @ '' Audit chain verified ('' @ nat_str (min n (length found)) @ '' entries)''
                   else bad_sign @ '' Audit chain INVALID'', [],
                   entry_columns ''ID'' ''ACTION'' ''TARGET'' ''TIMESTAMP'', rule_line 66]
                  @ map (entry_line show_time) (drop (length found - n) found))"
    unfolding empty vl len by (simp only: append_Cons append_Nil)
  finally show ?thesis using q by blast
qed

text \<open>One running agent, and a log whose only entry does not begin a chain.\<close>

definition demo_report_ext :: ext where
  "demo_report_ext = ref_ext\<lparr>dt_serde := (\<lambda>_. ''2026-01-01T00:00:00Z'')\<rparr>"

definition demo_listed :: "mock ipc_world" where
  "demo_listed = set_agents Ipc.demo_world \<lparr>sup_agents = [(''n'', \<lparr>ap_config = demo_config None, ap_status = Running, ap_child = Some 7,
     ap_pid = Some 7, ap_proxy_port = None, ap_proxy_handle = None, ap_restart_count = 0, ap_restart_timestamps = [],
     ap_started_at = None\<rparr>)], os_children = [7], os_proxies = []\<rparr>"

theorem agents_report_exact_witness:
  "\<exists>v. ipc_agents_list demo_report_ext JNull demo_listed = (Inr v, demo_listed)
     \<and> print_answer (\<lambda>_. None) (\<lambda>_. []) ''agents.list'' v = Inr (agents_table demo_report_ext (list_agents (agents_of demo_listed)))
     \<and> length (list_agents (agents_of demo_listed)) = 1"
proof -
  have infos: "\<exists>i. list_agents (agents_of demo_listed) = [i] \<and> ai_pid i = Some 7"
    by (simp add: demo_listed_def set_agents_def list_agents_def agent_info_of_def Let_def)
  have p: "\<forall>i \<in> set (list_agents (agents_of demo_listed)). printable demo_report_ext i"
    using infos by (auto simp: printable_def demo_report_ext_def is_char_boundary_def)
  have l: "length (list_agents (agents_of demo_listed)) < 2 ^ 64" using infos by auto
  show ?thesis using agents_report_exact [OF p l] infos by fastforce
qed

theorem audit_report_honest_witness:
  "\<exists>v. daemon_query_audit ref_ext (\<lambda>_. Some (Inr demo_log)) 0 supervisor_new ''n'' 0 True = Inr v
     \<and> print_answer (\<lambda>_. None) (\<lambda>_. []) ''audit.query'' v = Inr [''No audit entries.'']
     \<and> \<not> verify_chain ref_ext (query_entries ref_ext 0 demo_log None None)"
proof -
  have none: "map_option ai_agent_id (get_agent ''n'' supervisor_new) = None" by (simp add: get_agent_def supervisor_new_def)
  have found: "query_entries ref_ext 0 demo_log None None = map (\<lambda>row. row\<lparr>ae_agent_id := parse_uuid_or_nil ref_ext (ae_agent_id row)\<rparr>) (audit_rows demo_log)"
    by (simp add: query_entries_def)
  have ok: "\<forall>e \<in> set (query_entries ref_ext 0 demo_log (map_option ai_agent_id (get_agent ''n'' supervisor_new)) None). i64_ok (ae_id e) \<and> i64_ok (ae_timestamp e)"
    unfolding none found by (simp add: demo_log_def i64_ok_def)
  have "\<not> verify_chain ref_ext (query_entries ref_ext 0 demo_log None None)"
    unfolding found by (simp add: demo_log_def verify_chain_def)
  moreover have "\<exists>v. daemon_query_audit ref_ext (\<lambda>_. Some (Inr demo_log)) 0 supervisor_new ''n'' 0 True = Inr v
     \<and> print_answer (\<lambda>_. None) (\<lambda>_. []) ''audit.query'' v = Inr [''No audit entries.'']"
    using audit_report_honest [where A = "\<lambda>_. Some (Inr demo_log)" and name = "''n''" and n = 0, OF refl ok] by simp
  ultimately show ?thesis by blast
qed

end
