(* ===== verification/Token_Refresh.thy ===== *)
theory Token_Refresh
  imports Daemon_Main
begin

text \<open>
  The refresh of a token, across the socket: the proxy's cache (\<^verbatim>\<open>grokingclaw-proxy/src/oauth.rs\<close>) asks for a fresh token with the
  identifier of its agent, and the daemon (\<^verbatim>\<open>grokingclaw-daemon/src/ipc.rs\<close>, \<^verbatim>\<open>daemon.rs\<close>) looks for the store of the agent of that
  name.  The two sides are those of \<open>OAuth_Cache\<close> and \<open>Ipc\<close>; here they meet.
\<close>

text \<open>The daemon as the proxy sees it: one line, one answer.\<close>

definition daemon_over_socket :: "ext \<Rightarrow> 't ipc_env \<Rightarrow> 't ipc_world \<Rightarrow> daemon_line" where
  "daemon_over_socket E N w socket line =
     (case fst (ipc_line E N line w) of Some r \<Rightarrow> Inr (response_line E r) | None \<Rightarrow> Inl (IoError socket))"

definition refresh_params :: "string \<Rightarrow> string \<Rightarrow> json" where
  "refresh_params agent registration_id = json_object [(''agent'', JStr agent), (''registration_id'', JStr registration_id)]"

lemma refresh_request_line: "refresh_request E agent rid = request_line E ''oauth.refresh'' (refresh_params agent rid)"
  by (simp add: refresh_request_def request_line_def request_value_def refresh_params_def)

lemma agent_oauth_id: "agent_oauth V e config k = Some c \<Longrightarrow> cache_agent_id c = cfg_agent_id config"
  by (auto simp: agent_oauth_def cache_new_def Let_def split: if_splits sum.splits)

text \<open>Both texts of an exchange are read as the values they were written from.\<close>

definition wire_ok :: "ext \<Rightarrow> 't ipc_env \<Rightarrow> string \<Rightarrow> json \<Rightarrow> 't ipc_world \<Rightarrow> bool" where
  "wire_ok E N meth params w \<longleftrightarrow>
     json_parse E (json_text (json_quote E) (request_value meth params)) = Some (sort_members (request_value meth params))
     \<and> json_parse E (json_text (json_quote E) (rpc_response_json (fst (ipc_dispatch E N (read_request meth params) w))))
        = Some (sort_members (rpc_response_json (fst (ipc_dispatch E N (read_request meth params) w))))"

lemma refresh_dispatch:
  "ipc_dispatch E N (read_request ''oauth.refresh'' params) w
     = (let r = ipc_oauth_refresh E N (sort_members params) w in (\<lparr>resp_id = Some (JNum 1), resp_outcome = fst r\<rparr>, snd r))"
  by (simp add: ipc_dispatch_def ipc_methods_def read_methods_def agent_methods_def other_methods_def oauth_methods_def read_request_def
      rpc_id_def Let_def)

text \<open>No key file under the name, no token; and no file changes.\<close>

lemma refresh_without_home:
  assumes "files_of w (identity_file (agent_dir_of (ie_root N) agent) ''agent.pem'') = None"
  shows "ipc_oauth_refresh E N (sort_members (refresh_params agent rid)) w
    = (Inl (-32000, if os_enabled (dc_oauth (ie_config N)) then ''oauth.refresh failed: '' @ ie_err N (NotFound ''identity'')
                    else ''OAuth bridge is disabled''), w)"
proof -
  have name: "name_param (sort_members (refresh_params agent rid)) ''agent'' = agent"
    by (simp add: name_param_def refresh_params_def json_object_def get_str_def)
  have "home_pem (home_of (ie_root N) agent (files_of w)) = Inr None"
    using assms by (simp add: home_of_def read_if_exists_def exists_at_def Let_def)
  then have "oauth_refresh E V e r (home_of (ie_root N) agent (files_of w)) = (Inl (NotFound ''identity''), home_of (ie_root N) agent (files_of w))" for V e r
    by (simp add: oauth_refresh_def load_oauth_store_def)
  then show ?thesis by (simp add: ipc_oauth_refresh_def oauth_call_def name answered_def)
qed

lemma refresh_over_socket:
  assumes "wire_ok E N ''oauth.refresh'' (refresh_params agent rid) w"
    and "files_of w (identity_file (agent_dir_of (ie_root N) agent) ''agent.pem'') = None"
  shows "\<exists>e. refresh_token_via_ipc E (daemon_over_socket E N w) socket agent rid = Inl e"
    and "snd (ipc_line E N (refresh_request E agent rid) w) = w"
proof -
  let ?params = "refresh_params agent rid"
  obtain m where m: "ipc_oauth_refresh E N (sort_members ?params) w = (Inl (-32000, m), w)" using refresh_without_home [OF assms(2)] by blast
  have d: "ipc_dispatch E N (read_request ''oauth.refresh'' ?params) w = (\<lparr>resp_id = Some (JNum 1), resp_outcome = Inl (-32000, m)\<rparr>, w)"
    by (simp add: refresh_dispatch Let_def m)
  note x = exchange [OF assms(1) [unfolded wire_ok_def, THEN conjunct1] assms(1) [unfolded wire_ok_def, THEN conjunct2]]
  show "snd (ipc_line E N (refresh_request E agent rid) w) = w" by (simp add: refresh_request_line x(1) d)
  have "daemon_over_socket E N w socket (refresh_request E agent rid)
      = Inr (response_line E (fst (ipc_dispatch E N (read_request ''oauth.refresh'' ?params) w)))"
    by (simp add: daemon_over_socket_def refresh_request_line x(1))
  then show "\<exists>e. refresh_token_via_ipc E (daemon_over_socket E N w) socket agent rid = Inl e"
    using x(2) by (simp add: refresh_token_via_ipc_def response_members d)
qed

text \<open>
  C32: a started agent cannot refresh its tokens.  The supervisor gives the cache of an agent's proxy the identifier of the agent, and
  the daemon takes what the proxy sends for the name of the agent's directory.  So unless a key file lies in
  a directory named like the identifier, every refresh is refused and changes nothing: an expired token stays
  expired, and requests to its domains go out without one.
\<close>

theorem proxy_refresh_refused:
  assumes "agent_oauth V e config k = Some c" and "cache_agent_id c' = cache_agent_id c"
    and "find_binding domain (bindings c') = Some b" and "tokens c' (bind_registration_id b) = Some t" and "is_hard_expired now t"
    and "wire_ok E N ''oauth.refresh'' (refresh_params (cfg_agent_id config) (bind_registration_id b)) w"
    and "files_of w (identity_file (agent_dir_of (ie_root N) (cfg_agent_id config)) ''agent.pem'') = None"
  shows "get_token E (daemon_over_socket E N w) now now' domain c' = (None, c', None)
    \<and> background_refresh E (daemon_over_socket E N w) (bind_registration_id b) c' = c'
    \<and> snd (ipc_line E N (refresh_request E (cache_agent_id c') (bind_registration_id b)) w) = w"
proof -
  have i: "cache_agent_id c' = cfg_agent_id config" using agent_oauth_id [OF assms(1)] assms(2) by simp
  obtain err where "refresh_token_via_ipc E (daemon_over_socket E N w) (daemon_socket c') (cache_agent_id c') (bind_registration_id b) = Inl err"
    using refresh_over_socket(1) [OF assms(6,7)] i by auto
  then show ?thesis using assms(3-5) refresh_over_socket(2) [OF assms(6,7)] i
    by (simp add: get_token_def refresh_token_def background_refresh_def Let_def)
qed

definition refused_response :: rpc_response where
  "refused_response = \<lparr>resp_id = Some (JNum 1), resp_outcome = Inl (-32000, ''oauth.refresh failed: '')\<rparr>"

definition expired_cache :: oauth_token_cache where
  "expired_cache = cache_new [] [] (get_domain_bindings (demo_store None)) (get_cached_tokens (demo_store None)) 60"

theorem proxy_refresh_refused_witness:
  "get_token (demo_wire ''oauth.refresh'' (refresh_params [] ''a'') refused_response)
       (daemon_over_socket (demo_wire ''oauth.refresh'' (refresh_params [] ''a'') refused_response) demo_ipc_env demo_world) 0 0 ''a.b'' expired_cache
     = (None, expired_cache, None)"
proof -
  let ?E = "demo_wire ''oauth.refresh'' (refresh_params [] ''a'') refused_response"
  let ?b = "\<lparr>bind_domain = ''a.b'', bind_registration_id = ''a'', bind_required_scopes = []\<rparr>"
  let ?t = "\<lparr>ct_access_token = ''secret'', ct_expires_at = 0, ct_scopes = [], ct_provider = ''prov'', ct_registration_id = ''a''\<rparr>"
  have b: "get_domain_bindings (demo_store None) \<noteq> []" by (simp add: get_domain_bindings_def demo_store_simps)
  have c: "agent_oauth toy_vault ((demo_start 7)\<lparr>se_store_file := Inr (Some (replicate 13 CHR ''x''))\<rparr>) (demo_config None) [] = Some expired_cache"
    using b by (simp add: agent_oauth_def oauth_load_def toy_vault_def expired_cache_def demo_start_def demo_config_def Let_def)
  have f: "find_binding ''a.b'' (bindings expired_cache) = Some ?b"
    by (simp add: expired_cache_def cache_new_def get_domain_bindings_def demo_store_simps domain_matches_def)
  have t: "tokens expired_cache ''a'' = Some ?t"
    by (simp add: expired_cache_def cache_new_def get_cached_tokens_def cached_entry_def get_registration_def demo_store_simps map_filter_def timestamp_def)
  have h: "is_hard_expired 0 ?t" by (simp add: is_hard_expired_def timestamp_def)
  have none: "files_of demo_world (identity_file (agent_dir_of (ie_root demo_ipc_env) []) ''agent.pem'') = None"
    by (simp add: Ipc.demo_world_def daemon_new_def identity_file_def agent_dir_of_def path_join_def demo_ipc_env_def starts_with_def ends_with_def)
  have "ipc_oauth_refresh ?E demo_ipc_env (sort_members (refresh_params [] ''a'')) demo_world = (resp_outcome refused_response, demo_world)"
    using refresh_without_home [OF none, where E = ?E and rid = "''a''"]
    by (simp add: refused_response_def demo_ipc_env_def default_daemon_config_def default_oauth_def)
  then have d: "ipc_dispatch ?E demo_ipc_env (read_request ''oauth.refresh'' (refresh_params [] ''a'')) demo_world = (refused_response, demo_world)"
    by (simp add: refresh_dispatch Let_def refused_response_def)
  have w: "wire_ok ?E demo_ipc_env ''oauth.refresh'' (refresh_params [] ''a'') demo_world"
    by (simp add: wire_ok_def d demo_wire_reads)
  have i: "cfg_agent_id (demo_config None) = []" by (simp add: demo_config_def)
  show ?thesis
    using proxy_refresh_refused [OF c refl f _ h, where E = ?E and N = demo_ipc_env and w = demo_world] t w none by (simp add: i)
qed

end
