(* ===== verification/Program.thy ===== *)
theory Program
  imports Cli_Main Event_Stream
begin

text \<open>
  The rest of the command line program: the wallet commands with their effects on files and log
  (\<^verbatim>\<open>commands/wallet.rs\<close>), the session of the MCP guard (\<^verbatim>\<open>commands/guard.rs\<close>), and the dispatch of \<^verbatim>\<open>main.rs\<close> over all commands,
  beside a daemon that the OAuth commands talk to.  Node, wallet stream, MCP server and clocks are
  arguments.
\<close>

subsection \<open>Wallet commands on files\<close>

record wallet_env =
  we_blake :: blake
  we_node :: http_post
  we_stream :: ws_net
  we_float :: "string \<Rightarrow> nat option"
  we_attested :: datetime
  we_stamped :: datetime

definition attestation_json :: "pq_transaction_attestation \<Rightarrow> json" where
  "attestation_json a = JObj
     [(''tx_digest'', JStr (pta_tx_digest a)), (''mldsa65_signature'', JStr (pta_mldsa65_signature a)),
      (''mldsa65_public_key'', JStr (pta_mldsa65_public_key a)), (''attested_at'', JStr (pta_attested_at a))]"

definition receipt_json :: "wallet_receipt \<Rightarrow> json" where
  "receipt_json r = JObj
     ([(''tx_digest'', JStr (wr_tx_digest r)), (''sender'', JStr (wr_sender r)), (''recipient'', JStr (wr_recipient r)),
       (''amount_nanos'', JNum (int (wr_amount_nanos r))), (''network'', JStr (wr_network r)), (''agent_id'', JStr (wr_agent_id r)),
       (''agent_name'', JStr (wr_agent_name r)), (''crypto_scheme'', JStr (crypto_scheme_serde (wr_crypto_scheme r)))]
      @ (case wr_pq_attestation r of None \<Rightarrow> [] | Some a \<Rightarrow> [(''pq_attestation'', attestation_json a)])
      @ [(''timestamp'', JStr (wr_timestamp r))])"

definition receipt_path :: "string \<Rightarrow> string" where
  "receipt_path card_path = path_join (case path_parent card_path of Some d \<Rightarrow> d | None \<Rightarrow> ''.'') ''wallet-receipt.json''"

definition signed_transfer ::
    "ext \<Rightarrow> wallet_env \<Rightarrow> string \<Rightarrow> bytes \<Rightarrow> (bytes \<times> bytes) option \<Rightarrow> string \<Rightarrow> string \<Rightarrow> nat
      \<Rightarrow> (string \<times> pq_transaction_attestation option) result" where
  "signed_transfer E W network ed_key mldsa sender recipient amount =
     (case mldsa of
        Some (mldsa_sk, mldsa_pk) \<Rightarrow>
          bind_res (transfer_iota_pq E (we_blake W) (we_node W) (we_attested W) (make_client network) ed_key mldsa_sk mldsa_pk
                      sender recipient amount gas_budget) (\<lambda>(digest, att). Inr (digest, Some att))
      | None \<Rightarrow>
          bind_res (transfer_iota E (we_blake W) (we_node W) (make_client network) ed_key sender recipient amount gas_budget)
            (\<lambda>digest. Inr (digest, None)))"

definition transfer_target :: "string \<Rightarrow> nat \<Rightarrow> string \<Rightarrow> string \<Rightarrow> string" where
  "transfer_target recipient amount network digest =
     ''transfer:'' @ recipient @ '':'' @ nat_str amount @ '':'' @ network @ '':'' @ digest"

text \<open>A log that does not open is passed over.\<close>

definition log_if_open :: "ext \<Rightarrow> cli_env \<Rightarrow> uuid \<Rightarrow> string \<Rightarrow> string \<Rightarrow> bytes \<Rightarrow> unit cli_op" where
  "log_if_open E V agent action target key w = (Inr (), snd (log_entry E V agent action (Inr target) key w))"

definition run_wallet_send ::
    "ext \<Rightarrow> cli_env \<Rightarrow> wallet_env \<Rightarrow> string \<Rightarrow> string \<Rightarrow> string \<Rightarrow> string \<Rightarrow> string \<Rightarrow> wallet_receipt cli_op" where
  "run_wallet_send E V W card_path key_path recipient amount_str network =
     then_cli (load_card E card_path) (\<lambda>crd.
     then_cli (lift_cli (derive_address_from_card E (we_blake W) crd)) (\<lambda>sender.
     then_cli (lift_cli (parse_amount (we_float W) amount_str)) (\<lambda>amount.
     then_cli (read_text key_path) (\<lambda>key_pem.
     then_cli (lift_cli (wallet_keys E crd key_pem)) (\<lambda>(ed_key, mldsa).
     then_cli (lift_cli (signed_transfer E W network ed_key mldsa sender recipient amount)) (\<lambda>(digest, att).
     (let receipt = \<lparr>wr_tx_digest = digest, wr_sender = sender, wr_recipient = recipient, wr_amount_nanos = amount,
            wr_network = network, wr_agent_id = card_id crd, wr_agent_name = card_name crd,
            wr_crypto_scheme = card_crypto_scheme crd, wr_pq_attestation = att, wr_timestamp = rfc3339 E (we_stamped W)\<rparr>
      in then_cli (on_files (write_file (cv_io V) (receipt_path card_path) (cv_pretty V (receipt_json receipt)))) (\<lambda>_.
         then_cli (log_if_open E V (card_id crd) ''wallet_transfer'' (transfer_target recipient amount network digest) ed_key) (\<lambda>_.
         lift_cli (Inr receipt))))))))))"

datatype wallet_command =
    WalletInit string
  | WalletBalance string string
  | WalletFaucet string string
  | WalletCoins string string
  | WalletSend string string string string string
  | WalletWatch string string u32
  | WalletEvents string string u32

definition unit_res :: "'a result \<Rightarrow> unit result" where
  "unit_res r = bind_res r (\<lambda>_. Inr ())"

text \<open>A command other than \<^verbatim>\<open>send\<close> reads the card and asks the node.\<close>

definition asking :: "ext \<Rightarrow> string \<Rightarrow> (agent_card \<Rightarrow> 'a result) \<Rightarrow> unit cli_op" where
  "asking E card_path f = then_cli (load_card E card_path) (\<lambda>crd. lift_cli (unit_res (f crd)))"

fun run_wallet :: "ext \<Rightarrow> cli_env \<Rightarrow> wallet_env \<Rightarrow> wallet_command \<Rightarrow> unit cli_op" where
  "run_wallet E V W (WalletInit card_path) = asking E card_path (wallet_init E (we_blake W))"
| "run_wallet E V W (WalletBalance card_path network) =
     asking E card_path (\<lambda>crd. wallet_balance E (we_blake W) (we_node W) crd network)"
| "run_wallet E V W (WalletFaucet card_path network) =
     asking E card_path (\<lambda>crd. wallet_faucet E (we_blake W) (we_node W) crd network)"
| "run_wallet E V W (WalletCoins card_path network) =
     asking E card_path (\<lambda>crd. wallet_coins E (we_blake W) (we_node W) crd network)"
| "run_wallet E V W (WalletSend card_path key to amount network) =
     then_cli (run_wallet_send E V W card_path key to amount network) (\<lambda>_. lift_cli (Inr ()))"
| "run_wallet E V W (WalletWatch card_path network limit) =
     asking E card_path (\<lambda>crd. fst (wallet_watch E (we_blake W) (we_stream W) crd network limit))"
| "run_wallet E V W (WalletEvents card_path network limit) =
     asking E card_path (\<lambda>crd. wallet_events E (we_blake W) (we_node W) crd network limit)"

subsection \<open>The guard's session\<close>

text \<open>The lines of the agent until its input ends or fails, and what becomes of each.\<close>

fun guard_session :: "ext \<Rightarrow> bool \<Rightarrow> (guard_env \<times> string) list \<Rightarrow> guard_state \<Rightarrow> guard_out list \<times> guard_state" where
  "guard_session E allow [] s = ([], s)"
| "guard_session E allow ((e, line) # lines) s =
     (let r = guard_line E e allow line s; rest = guard_session E allow lines (snd r)
      in (fst r # fst rest, snd rest))"

definition run_guard ::
    "ext \<Rightarrow> string \<Rightarrow> bool \<Rightarrow> bool \<Rightarrow> string list \<Rightarrow> unit result \<Rightarrow> (guard_env \<times> string) list \<Rightarrow> (guard_out list \<times> guard_state) result" where
  "run_guard E scope require_pq allow server spawned lines =
     bind_res (guard_start scope require_pq server) (\<lambda>s.
     bind_res spawned (\<lambda>_. Inr (guard_session E allow lines s)))"

subsection \<open>All commands\<close>

datatype program_command =
    LocalCommand cli_command
  | GuardCommand string bool bool "string list"
  | OAuthCommand oauth_command
  | WalletCommand wallet_command

text \<open>What a run meets: its own surroundings, the daemon at the socket if one answers, the MCP server and its client.\<close>

record 't program_env =
  pe_cli :: cli_env
  pe_wallet :: wallet_env
  pe_daemon :: "'t ipc_env"
  pe_connected :: bool
  pe_spawned :: "unit result"
  pe_lines :: "(guard_env \<times> string) list"

type_synonym 't program_world = "cli_world \<times> 't ipc_world"

definition exit_of :: "'a result \<Rightarrow> cli_exit" where
  "exit_of r = (case r of Inr _ \<Rightarrow> Exit 0 | Inl (Panic _) \<Rightarrow> Aborted | Inl _ \<Rightarrow> Exit 1)"

definition program_main ::
    "ext \<Rightarrow> 't program_env \<Rightarrow> program_command \<Rightarrow> 't program_world \<Rightarrow> cli_exit \<times> 't program_world" where
  "program_main E P command s =
     (case command of
        LocalCommand c \<Rightarrow> (let r = cli_main E (pe_cli P) c (fst s) in (fst r, (snd r, snd s)))
      | GuardCommand scope require_pq allow server \<Rightarrow>
          (exit_of (run_guard E scope require_pq allow server (pe_spawned P) (pe_lines P)), s)
      | OAuthCommand c \<Rightarrow>
          (let r = run_oauth E (pe_daemon P) (pe_connected P) c (snd s) in (exit_of (fst r), (fst s, snd r)))
      | WalletCommand c \<Rightarrow>
          (let r = run_wallet E (pe_cli P) (pe_wallet P) c (fst s) in (exit_of (fst r), (snd r, snd s))))"

subsection \<open>Sequences of all commands\<close>

lemma adds_log_if_open [adding]: "adds E (log_if_open E V agent action target key)"
  using adds_log [of E V agent action "Inr target" key] by (simp add: adds_def log_if_open_def)

lemma adds_asking: "adds E (asking E p f)"
  unfolding asking_def by (intro adding)

lemma adds_send: "adds E (run_wallet_send E V W p k to amount network)"
  unfolding run_wallet_send_def Let_def by (intro adding)

lemma adds_wallet: "adds E (run_wallet E V W c)"
  by (cases c) (simp_all add: adds_asking adds_then adds_send adds_lift)

inductive program_step :: "ext \<Rightarrow> 't program_world \<Rightarrow> 't program_world \<Rightarrow> bool" for E where
  program_run: "program_step E s (snd (program_main E P c s))"

inductive_cases program_stepE: "program_step E s s'"

lemma program_adds: "cli_extends (fst s) (fst (snd (program_main E P c s))) \<and>
    (cli_inv E (fst s) \<longrightarrow> cli_inv E (fst (snd (program_main E P c s))))"
proof (cases c)
  case (LocalCommand l)
  then show ?thesis using adds_main [of E "pe_cli P" l] by (simp add: program_main_def adds_def Let_def)
next
  case (WalletCommand l)
  then show ?thesis using adds_wallet [of E "pe_cli P" "pe_wallet P" l] by (simp add: program_main_def adds_def Let_def)
qed (simp_all add: program_main_def Let_def)

lemma program_step_adds: "program_step E s s' \<Longrightarrow> cli_extends (fst s) (fst s') \<and> (cli_inv E (fst s) \<longrightarrow> cli_inv E (fst s'))"
  by (elim program_stepE) (use program_adds in blast)

definition program_fresh :: "'t program_world \<Rightarrow> bool" where
  "program_fresh s \<longleftrightarrow> cli_fresh (fst s)"

interpretation prog: invariant program_fresh "program_step E" "\<lambda>s. cli_inv E (fst s)" for E
proof
  fix s :: "'t program_world" show "program_fresh s \<Longrightarrow> cli_inv E (fst s)"
    by (simp add: program_fresh_def cli.inv_init)
next
  fix s s' :: "'t program_world" show "cli_inv E (fst s) \<Longrightarrow> program_step E s s' \<Longrightarrow> cli_inv E (fst s')"
    using program_step_adds by blast
qed

lemma program_history: "reachable (\<lambda>t. t = s) (program_step E) s' \<Longrightarrow> cli_extends (fst s) (fst s')"
  by (induction rule: reachable.induct) (use program_step_adds cli_extends_trans in \<open>blast intro: cli_extends_refl\<close>)+

text \<open>
  C7: the record is kept by every command.  Whatever commands of the program run, local ones, wallet transfers, guard
  sessions and OAuth requests, with whatever faults, answers and exit codes, the audit log only grows at its end and is always a
  chain that the verification accepts, the revocations that were made stay and no card is revoked twice.
\<close>

theorem program_history_kept:
  assumes "reachable program_fresh (program_step E) s" "reachable (\<lambda>t. t = s) (program_step E) s'"
  shows "verify_chain E (audit_rows (cw_audit (fst s')))
    \<and> (\<exists>es. audit_rows (cw_audit (fst s')) = audit_rows (cw_audit (fst s)) @ es)
    \<and> (\<exists>rs. cw_registry (fst s') = cw_registry (fst s) @ rs) \<and> distinct (map row_agent_id (cw_registry (fst s')))"
proof -
  have "reachable program_fresh (program_step E) s'"
    using assms(2,1) by (induction rule: reachable.induct) (auto intro: reachable.intros)
  then have "cli_inv E (fst s')" by (rule prog.inv_reachable)
  then show ?thesis using program_history [OF assms(2)] full_chain_verify
    by (auto simp: cli_inv_def audit_inv_def registry_inv_def cli_extends_def)
qed

text \<open>Only OAuth requests reach the daemon, and they leave files, log and registry alone.\<close>

lemma program_frame:
  "(\<forall>c. command \<noteq> OAuthCommand c) \<Longrightarrow> snd (snd (program_main E P command s)) = snd s"
  "fst (snd (program_main E P (OAuthCommand c) s)) = fst s"
  by (cases command; simp add: program_main_def Let_def) (simp add: program_main_def Let_def)

subsection \<open>What a transfer leaves on the machine\<close>

definition transfer_receipt ::
    "ext \<Rightarrow> wallet_env \<Rightarrow> agent_card \<Rightarrow> string \<Rightarrow> string \<Rightarrow> nat \<Rightarrow> string \<Rightarrow> string \<times> pq_transaction_attestation option \<Rightarrow> wallet_receipt" where
  "transfer_receipt E W crd sender recipient amount network done =
     \<lparr>wr_tx_digest = fst done, wr_sender = sender, wr_recipient = recipient, wr_amount_nanos = amount,
      wr_network = network, wr_agent_id = card_id crd, wr_agent_name = card_name crd,
      wr_crypto_scheme = card_crypto_scheme crd, wr_pq_attestation = snd done, wr_timestamp = rfc3339 E (we_stamped W)\<rparr>"

definition send_ready ::
    "ext \<Rightarrow> wallet_env \<Rightarrow> string \<Rightarrow> string \<Rightarrow> string \<Rightarrow> string \<Rightarrow> string \<Rightarrow> cli_world
      \<Rightarrow> agent_card \<times> string \<times> nat \<times> bytes \<times> string \<times> pq_transaction_attestation option \<Rightarrow> bool" where
  "send_ready E W card_path key_path recipient amount_str network w = (\<lambda>(crd, sender, amount, ed_key, done).
     load_card E card_path w = (Inr crd, w) \<and> derive_address_from_card E (we_blake W) crd = Inr sender
     \<and> parse_amount (we_float W) amount_str = Inr amount
     \<and> (\<exists>pem mldsa. read_text key_path w = (Inr pem, w) \<and> wallet_keys E crd pem = Inr (ed_key, mldsa)
          \<and> signed_transfer E W network ed_key mldsa sender recipient amount = Inr done))"

lemma send_run:
  assumes "send_ready E W p k to amount_str network w (crd, sender, amount, ed, done)"
  defines "r \<equiv> transfer_receipt E W crd sender to amount network done"
  shows "run_wallet_send E V W p k to amount_str network w =
     (case write_file (cv_io V) (receipt_path p) (cv_pretty V (receipt_json r)) (cw_files w) of
        (Inl e, fs) \<Rightarrow> (Inl e, w\<lparr>cw_files := fs\<rparr>)
      | (Inr _, fs) \<Rightarrow> (Inr r, snd (log_entry E V (card_id crd) ''wallet_transfer'' (Inr (transfer_target to amount network (fst done))) ed
                                      (w\<lparr>cw_files := fs\<rparr>))))"
proof -
  obtain pem mldsa where "load_card E p w = (Inr crd, w)" "derive_address_from_card E (we_blake W) crd = Inr sender"
    "parse_amount (we_float W) amount_str = Inr amount" "read_text k w = (Inr pem, w)" "wallet_keys E crd pem = Inr (ed, mldsa)"
    "signed_transfer E W network ed mldsa sender to amount = Inr (fst done, snd done)"
    using assms(1) by (auto simp: send_ready_def)
  then show ?thesis
    by (simp add: run_wallet_send_def then_cli_def lift_cli_def on_files_def log_if_open_def Let_def r_def transfer_receipt_def
        split: prod.split sum.split)
qed

text \<open>
  C15: what a transfer leaves on the machine.  When the node has executed it, the command reports success exactly if the receipt
  could be written beside the card; then the log has one entry more that names recipient, amount, network and digest, or none
  if it does not open.  When the receipt cannot be written the command fails, and
  nothing on the machine tells that the transfer took place.
\<close>

theorem transfer_recorded_or_lost:
  assumes "send_ready E (pe_wallet P) p k to amount_str network w (crd, sender, amount, ed, digest, att)"
  defines "text \<equiv> cv_pretty (pe_cli P) (receipt_json (transfer_receipt E (pe_wallet P) crd sender to amount network (digest, att)))"
  shows "let out = program_main E P (WalletCommand (WalletSend p k to amount_str network)) (w, d); w' = fst (snd out) in
    snd (snd out) = d \<and>
    (if cv_io (pe_cli P) (receipt_path p) = Inr () \<and> cw_files w (receipt_path p) \<noteq> Some Dir
     then fst out = Exit 0 \<and> cw_files w' = (cw_files w)(receipt_path p \<mapsto> File text)
       \<and> (if cv_audit_open (pe_cli P) = Inr ()
          then \<exists>e. audit_rows (cw_audit w') = audit_rows (cw_audit w) @ [e] \<and> ae_agent_id e = card_id crd
             \<and> ae_action e = ''wallet_transfer'' \<and> ae_target e = transfer_target to amount network digest
          else cw_audit w' = cw_audit w)
     else fst out \<noteq> Exit 0 \<and> w' = w)"
proof (cases "cv_io (pe_cli P) (receipt_path p) = Inr () \<and> cw_files w (receipt_path p) \<noteq> Some Dir")
  case True
  then have w: "write_file (cv_io (pe_cli P)) (receipt_path p) text (cw_files w) = (Inr (), (cw_files w)(receipt_path p \<mapsto> File text))"
    by (simp add: write_file_def)
  show ?thesis
    using True w unfolding text_def
    by (cases "cv_audit_open (pe_cli P)")
      (simp_all add: program_main_def Let_def then_cli_def send_run [OF assms(1)] lift_cli_def exit_of_def log_entry_def
        record_entry_rows, simp_all add: record_entry_def Let_def)
next
  case False
  then obtain e where "write_file (cv_io (pe_cli P)) (receipt_path p) text (cw_files w) = (Inl e, cw_files w)"
    by (cases "cv_io (pe_cli P) (receipt_path p)") (auto simp: write_file_def split: if_splits)
  with False show ?thesis
    unfolding text_def by (auto simp: program_main_def Let_def then_cli_def send_run [OF assms(1)] exit_of_def split: error.splits)
qed

lemma send_effect:
  assumes "run_wallet_send E V W p k to amount network w = (Inr r, w')"
  shows "cw_files w' = (cw_files w)(receipt_path p \<mapsto> File (cv_pretty V (receipt_json r)))"
    and "cw_registry w' = cw_registry w" "cw_license w' = cw_license w"
    and "\<exists>es. audit_rows (cw_audit w') = audit_rows (cw_audit w) @ es
      \<and> list_all (\<lambda>e. ae_agent_id e = wr_agent_id r \<and> ae_action e = ''wallet_transfer''
            \<and> ae_target e = transfer_target (wr_recipient r) (wr_amount_nanos r) (wr_network r) (wr_tx_digest r)) es"
proof -
  from assms obtain crd sender n pem ed mldsa res fs where c: "r = transfer_receipt E W crd sender to n network res"
    "write_file (cv_io V) (receipt_path p) (cv_pretty V (receipt_json r)) (cw_files w) = (Inr (), fs)"
    and w': "w' = snd (log_entry E V (card_id crd) ''wallet_transfer'' (Inr (transfer_target to n network (fst res))) ed (w\<lparr>cw_files := fs\<rparr>))"
    by (auto simp: run_wallet_send_def then_cli_ok_iff on_files_iff log_if_open_def Let_def transfer_receipt_def
        lift_cli_def load_card_def read_text_def split: prod.splits)
  note fs = write_file_ok [OF c(2)]
  show "cw_files w' = (cw_files w)(receipt_path p \<mapsto> File (cv_pretty V (receipt_json r)))"
    "cw_registry w' = cw_registry w" "cw_license w' = cw_license w"
    by (cases "cv_audit_open V"; simp add: w' log_entry_def then_cli_def lift_cli_def fs)+
  show "\<exists>es. audit_rows (cw_audit w') = audit_rows (cw_audit w) @ es
      \<and> list_all (\<lambda>e. ae_agent_id e = wr_agent_id r \<and> ae_action e = ''wallet_transfer''
            \<and> ae_target e = transfer_target (wr_recipient r) (wr_amount_nanos r) (wr_network r) (wr_tx_digest r)) es"
    by (cases "cv_audit_open V")
      (simp_all add: w' log_entry_def then_cli_def lift_cli_def fs record_entry_rows, simp add: record_entry_def Let_def c(1) transfer_receipt_def)
qed

text \<open>
  Only the last attestation is kept.  After two transfers from cards in one directory the receipt file holds the second
  receipt alone, no other file has changed, and the entries in the log name recipient, amount, network and digest only: the
  post-quantum attestation of the first transfer is nowhere on the machine.
\<close>

theorem last_attestation_only:
  assumes "run_wallet_send E V W p k to amount network w = (Inr r, w1)"
    and "run_wallet_send E V' W' p' k' to' amount' network' w1 = (Inr r', w2)" and "receipt_path p' = receipt_path p"
  shows "cw_files w2 = (cw_files w)(receipt_path p \<mapsto> File (cv_pretty V' (receipt_json r')))
    \<and> (\<exists>es. audit_rows (cw_audit w2) = audit_rows (cw_audit w) @ es
         \<and> list_all (\<lambda>e. \<exists>x \<in> {r, r'}. ae_agent_id e = wr_agent_id x \<and> ae_action e = ''wallet_transfer''
               \<and> ae_target e = transfer_target (wr_recipient x) (wr_amount_nanos x) (wr_network x) (wr_tx_digest x)) es)
    \<and> cw_registry w2 = cw_registry w \<and> cw_license w2 = cw_license w"
proof -
  note a = send_effect [OF assms(1)] and b = send_effect [OF assms(2)]
  obtain es es' where es: "audit_rows (cw_audit w1) = audit_rows (cw_audit w) @ es" "audit_rows (cw_audit w2) = audit_rows (cw_audit w1) @ es'"
    "list_all (\<lambda>e. ae_agent_id e = wr_agent_id r \<and> ae_action e = ''wallet_transfer''
        \<and> ae_target e = transfer_target (wr_recipient r) (wr_amount_nanos r) (wr_network r) (wr_tx_digest r)) es"
    "list_all (\<lambda>e. ae_agent_id e = wr_agent_id r' \<and> ae_action e = ''wallet_transfer''
        \<and> ae_target e = transfer_target (wr_recipient r') (wr_amount_nanos r') (wr_network r') (wr_tx_digest r')) es'"
    using a(4) b(4) by blast
  show ?thesis
  proof (intro conjI)
    show "cw_files w2 = (cw_files w)(receipt_path p \<mapsto> File (cv_pretty V' (receipt_json r')))" by (simp add: a(1) b(1) assms(3))
    show "\<exists>es. audit_rows (cw_audit w2) = audit_rows (cw_audit w) @ es
         \<and> list_all (\<lambda>e. \<exists>x \<in> {r, r'}. ae_agent_id e = wr_agent_id x \<and> ae_action e = ''wallet_transfer''
               \<and> ae_target e = transfer_target (wr_recipient x) (wr_amount_nanos x) (wr_network x) (wr_tx_digest x)) es"
      using es by (intro exI [of _ "es @ es'"]) (auto simp: list_all_iff)
  qed (simp_all add: a b)
qed

text \<open>A hybrid identity with its card and key on files, and a node that executes everything.\<close>

definition demo_send_ext :: ext where
  "demo_send_ext = demo_node_ext\<lparr>json_parse := (\<lambda>s. if s = ''card'' then Some (JObj (card_members ref_ext demo_wallet_card))
     else json_parse demo_node_ext s)\<rparr>"

lemma demo_send_ok: "b64_ok demo_send_ext" "pq_pair_ok demo_send_ext (replicate 1952 CHR ''p'') (replicate 4032 CHR ''p'')"
  "dt_serde_ok demo_send_ext" "uuid_ok demo_send_ext (replicate 36 CHR ''a'')"
  using demo_node_ok ref_dt_serde_ok ref_uuid_ok [of "CHR ''a''"]
  by (simp_all add: demo_send_ext_def demo_node_ext_def b64_ok_def pq_pair_ok_def dt_serde_ok_def uuid_ok_def)

definition demo_pem :: string where
  "demo_pem = encode_hybrid_private_key_pem demo_send_ext (replicate 32 CHR ''k'') (replicate 4032 CHR ''p'')"

definition demo_wallet_env :: wallet_env where
  "demo_wallet_env = \<lparr>we_blake = pad 32, we_node = demo_node, we_stream = demo_net [], we_float = (\<lambda>_. None),
     we_attested = 0, we_stamped = 0\<rparr>"

definition demo_purse :: cli_world where
  "demo_purse = demo_home\<lparr>cw_files := [''card.json'' \<mapsto> File ''card'', ''key.pem'' \<mapsto> File demo_pem]\<rparr>"

definition demo_program :: "mock program_env" where
  "demo_program = \<lparr>pe_cli = demo_cli, pe_wallet = demo_wallet_env, pe_daemon = demo_ipc_env, pe_connected = False,
     pe_spawned = Inr (), pe_lines = []\<rparr>"

lemma demo_send_transfer:
  "build_transfer demo_send_ext demo_node c s t n g = Inr ''ab''"
  "execute_transaction demo_send_ext demo_node c tx sig = Inr ''d''"
proof -
  have p: "json_parse demo_send_ext [] = json_parse demo_node_ext []" by (simp add: demo_send_ext_def)
  have q: "b64_decode demo_send_ext = b64_decode demo_node_ext" by (simp add: demo_send_ext_def)
  show "build_transfer demo_send_ext demo_node c s t n g = Inr ''ab''"
    using demo_transfer(1) [of c s t n g] by (simp add: build_transfer_def get_coins_def rpc_call_def p q)
  show "execute_transaction demo_send_ext demo_node c tx sig = Inr ''d''"
    using demo_transfer(2) [of c tx sig] by (simp add: execute_transaction_def rpc_call_def p)
qed

lemma demo_purse_files:
  "cw_files w ''card.json'' = Some (File ''card'') \<Longrightarrow> load_card demo_send_ext ''card.json'' w = (Inr demo_wallet_card, w)"
proof -
  assume c: "cw_files w ''card.json'' = Some (File ''card'')"
  have m: "card_members demo_send_ext crd = card_members ref_ext crd" for crd by (simp add: card_members_def demo_send_ext_def demo_node_ext_def)
  have "card_from_json demo_send_ext (JObj (card_members demo_send_ext demo_wallet_card)) = Some demo_wallet_card"
    by (rule card_read) (simp_all add: demo_send_ok demo_wallet_card_def rfc3339_range_def seconds_def ns_per_sec_def)
  then show ?thesis using c by (intro load_card_at) (simp_all add: m, simp add: demo_send_ext_def)
qed

lemma demo_purse_ready:
  assumes "cw_files w ''card.json'' = Some (File ''card'')" "cw_files w ''key.pem'' = Some (File demo_pem)"
  shows "\<exists>sender att. send_ready demo_send_ext demo_wallet_env ''card.json'' ''key.pem'' ''0x9'' ''5'' ''testnet'' w
    (demo_wallet_card, sender, 5, replicate 32 CHR ''k'', ''d'', Some att)"
proof -
  let ?E = demo_send_ext
  have pk: "card_pq_public_key demo_wallet_card = Some (encode_mldsa_public_key ?E (replicate 1952 CHR ''p''))"
    by (simp add: demo_wallet_card_def demo_send_ext_def demo_node_ext_def ref_ext_def encode_mldsa_public_key_def)
  have dec: "b64_decode ?E (encode_mldsa_public_key ?E b) = Some b" for b
    by (simp add: encode_mldsa_public_key_def b64_okD demo_send_ok)
  have addr: "derive_address_from_card ?E (pad 32) demo_wallet_card = Inr (derive_iota_address ?E (pad 32) (replicate 32 CHR ''k''))"
    using dec [of "replicate 32 CHR ''k''"]
    by (simp add: derive_address_from_card_def demo_wallet_card_def encode_mldsa_public_key_def demo_send_ext_def demo_node_ext_def ref_ext_def)
  obtain s where s: "mldsa_sign ?E (replicate 4032 CHR ''p'') (compute_tx_digest (pad 32) ''ab'') = Inr s"
    using pq.sign_succeeds [of ?E "(replicate 1952 CHR ''p'', replicate 4032 CHR ''p'')"] demo_send_ok by auto
  have amount: "parse_amount (\<lambda>_. None) ''5'' = Inr 5"
    by (simp add: parse_amount_def parse_u64_def parse_nat_def is_digit_def digits_val_def digit_val_def)
  have "decode_hybrid_private_key_pem ?E demo_pem = Inr (replicate 32 CHR ''k'', replicate 4032 CHR ''p'')"
    unfolding demo_pem_def by (rule hybrid_pem_decode_encode) (simp_all add: demo_send_ok)
  then have keys: "wallet_keys ?E demo_wallet_card demo_pem = Inr (replicate 32 CHR ''k'', Some (replicate 4032 CHR ''p'', replicate 1952 CHR ''p''))"
    using pk dec by (simp add: wallet_keys_def demo_wallet_card_def)
  obtain att where t: "signed_transfer ?E demo_wallet_env ''testnet'' (replicate 32 CHR ''k'') (Some (replicate 4032 CHR ''p'', replicate 1952 CHR ''p''))
      (derive_iota_address ?E (pad 32) (replicate 32 CHR ''k'')) ''0x9'' 5 = Inr (''d'', Some att)"
    using s by (simp add: signed_transfer_def transfer_iota_pq_def demo_wallet_env_def demo_send_transfer create_pq_attestation_def Let_def)
  show ?thesis
    using addr amount keys t demo_purse_files [OF assms(1)] read_text_at [OF assms(2)]
    by (auto simp: send_ready_def demo_wallet_env_def)
qed

lemma demo_receipt_path: "receipt_path ''card.json'' = ''wallet-receipt.json''"
  by (simp add: receipt_path_def path_parent_def path_join_def starts_with_def)

theorem transfer_recorded_or_lost_witness:
  "\<exists>w'. program_main demo_send_ext demo_program (WalletCommand (WalletSend ''card.json'' ''key.pem'' ''0x9'' ''5'' ''testnet'')) (demo_purse, Ipc.demo_world)
      = (Exit 0, w', Ipc.demo_world)
     \<and> length (audit_rows (cw_audit w')) = 1 \<and> cw_files w' ''wallet-receipt.json'' = Some (File ''{}'')"
proof -
  let ?c = "WalletCommand (WalletSend ''card.json'' ''key.pem'' ''0x9'' ''5'' ''testnet'')"
  let ?out = "program_main demo_send_ext demo_program ?c (demo_purse, Ipc.demo_world)"
  have P: "pe_wallet demo_program = demo_wallet_env" "pe_cli demo_program = demo_cli" by (simp_all add: demo_program_def)
  have files: "cw_files demo_purse ''card.json'' = Some (File ''card'')" "cw_files demo_purse ''key.pem'' = Some (File demo_pem)"
    "cw_files demo_purse ''wallet-receipt.json'' = None"
    by (simp_all add: demo_purse_def demo_home_def)
  have rows: "audit_rows (cw_audit demo_purse) = []" by (simp add: demo_purse_def demo_home_def open_audit_db_def)
  obtain sender att where "send_ready demo_send_ext (pe_wallet demo_program) ''card.json'' ''key.pem'' ''0x9'' ''5'' ''testnet'' demo_purse
    (demo_wallet_card, sender, 5, replicate 32 CHR ''k'', ''d'', Some att)" using demo_purse_ready [OF files(1,2)] P by auto
  from transfer_recorded_or_lost [OF this, of Ipc.demo_world]
  have "fst ?out = Exit 0" "snd (snd ?out) = Ipc.demo_world" "length (audit_rows (cw_audit (fst (snd ?out)))) = 1"
    "cw_files (fst (snd ?out)) ''wallet-receipt.json'' = Some (File ''{}'')"
    unfolding P demo_receipt_path Let_def by (auto simp: demo_cli_def files rows)
  then show ?thesis by (intro exI [of _ "fst (snd ?out)"]) (simp add: prod_eq_iff)
qed

lemma demo_send_runs:
  assumes "cw_files w ''card.json'' = Some (File ''card'')" "cw_files w ''key.pem'' = Some (File demo_pem)"
    and "cw_files w ''wallet-receipt.json'' \<noteq> Some Dir"
  shows "\<exists>r w'. run_wallet_send demo_send_ext demo_cli demo_wallet_env ''card.json'' ''key.pem'' ''0x9'' ''5'' ''testnet'' w = (Inr r, w')"
proof -
  obtain sender att where "send_ready demo_send_ext demo_wallet_env ''card.json'' ''key.pem'' ''0x9'' ''5'' ''testnet'' w
    (demo_wallet_card, sender, 5, replicate 32 CHR ''k'', ''d'', Some att)" using demo_purse_ready [OF assms(1,2)] by blast
  from send_run [OF this] show ?thesis using assms(3) by (simp add: demo_receipt_path write_file_def demo_cli_def)
qed

theorem last_attestation_only_witness:
  "\<exists>r w1 r' w2. run_wallet_send demo_send_ext demo_cli demo_wallet_env ''card.json'' ''key.pem'' ''0x9'' ''5'' ''testnet'' demo_purse = (Inr r, w1)
     \<and> run_wallet_send demo_send_ext demo_cli demo_wallet_env ''card.json'' ''key.pem'' ''0x9'' ''5'' ''testnet'' w1 = (Inr r', w2)
     \<and> cw_files w2 = (cw_files demo_purse)(''wallet-receipt.json'' \<mapsto> File ''{}'')"
proof -
  have files: "cw_files demo_purse ''card.json'' = Some (File ''card'')" "cw_files demo_purse ''key.pem'' = Some (File demo_pem)"
    "cw_files demo_purse ''wallet-receipt.json'' \<noteq> Some Dir"
    by (simp_all add: demo_purse_def demo_home_def)
  obtain r w1 where a: "run_wallet_send demo_send_ext demo_cli demo_wallet_env ''card.json'' ''key.pem'' ''0x9'' ''5'' ''testnet'' demo_purse = (Inr r, w1)"
    using demo_send_runs [OF files] by blast
  have "\<exists>r w'. run_wallet_send demo_send_ext demo_cli demo_wallet_env ''card.json'' ''key.pem'' ''0x9'' ''5'' ''testnet'' w1 = (Inr r, w')"
    by (rule demo_send_runs) (use files in \<open>simp_all add: send_effect(1) [OF a] demo_receipt_path\<close>)
  then obtain r' w2 where b: "run_wallet_send demo_send_ext demo_cli demo_wallet_env ''card.json'' ''key.pem'' ''0x9'' ''5'' ''testnet'' w1 = (Inr r', w2)"
    by blast
  show ?thesis using a b last_attestation_only [OF a b refl] by (simp add: demo_receipt_path demo_cli_def)
qed

theorem program_history_kept_witness:
  "\<exists>w'. program_main demo_send_ext demo_program (WalletCommand (WalletSend ''card.json'' ''key.pem'' ''0x9'' ''5'' ''testnet'')) (demo_purse, Ipc.demo_world)
      = (Exit 0, w', Ipc.demo_world)
     \<and> verify_chain demo_send_ext (audit_rows (cw_audit w'))"
proof -
  let ?c = "WalletCommand (WalletSend ''card.json'' ''key.pem'' ''0x9'' ''5'' ''testnet'')"
  have files: "cw_files demo_purse ''card.json'' = Some (File ''card'')" "cw_files demo_purse ''key.pem'' = Some (File demo_pem)"
    "cw_files demo_purse ''wallet-receipt.json'' \<noteq> Some Dir"
    by (simp_all add: demo_purse_def demo_home_def)
  obtain r w' where a: "run_wallet_send demo_send_ext demo_cli demo_wallet_env ''card.json'' ''key.pem'' ''0x9'' ''5'' ''testnet'' demo_purse = (Inr r, w')"
    using demo_send_runs [OF files] by blast
  have m: "program_main demo_send_ext demo_program ?c (demo_purse, Ipc.demo_world) = (Exit 0, w', Ipc.demo_world)"
    by (simp add: program_main_def demo_program_def a exit_of_def lift_cli_def)
  have i: "reachable program_fresh (program_step demo_send_ext) (demo_purse, Ipc.demo_world)"
    by (rule reach_init) (simp add: program_fresh_def cli_fresh_def demo_purse_def demo_home_def)
  have "program_step demo_send_ext (demo_purse, Ipc.demo_world) (snd (program_main demo_send_ext demo_program ?c (demo_purse, Ipc.demo_world)))"
    by (rule program_run)
  then have st: "program_step demo_send_ext (demo_purse, Ipc.demo_world) (w', Ipc.demo_world)" unfolding m by simp
  have "reachable (\<lambda>t. t = (demo_purse, Ipc.demo_world)) (program_step demo_send_ext) (demo_purse, Ipc.demo_world)" by (rule reach_init) simp
  then have "reachable (\<lambda>t. t = (demo_purse, Ipc.demo_world)) (program_step demo_send_ext) (w', Ipc.demo_world)" using st by (rule reach_step)
  from program_history_kept [OF i this] m show ?thesis by simp
qed

end
