(* ===== verification/Daemon_Start.thy ===== *)
theory Daemon_Start
  imports Daemon_Main
begin

text \<open>
  The life of a daemon process, \<^verbatim>\<open>cmd_start\<close> of \<^verbatim>\<open>grokingclaw-daemon/src/main.rs\<close> as a whole: the start in the background, which
  runs the program a second time, the control socket (\<^verbatim>\<open>start_ipc_server\<close> of \<^verbatim>\<open>ipc.rs\<close>), the main loop with the requests that
  come between its turns, and the end.  A bound socket is a file at its path.
\<close>

subsection \<open>The start in the background\<close>

text \<open>The arguments of the second run: the flag follows the first argument that reads as the command.\<close>

definition background_args :: "string list \<Rightarrow> string list" where
  "background_args args =
     (let before = takeWhile (\<lambda>a. a \<noteq> ''start'') args
      in case drop (length before) args of
           [] \<Rightarrow> args
         | command # after \<Rightarrow> before @ command # ''--foreground'' # after)"

text \<open>Opening for appending creates a file, but no directory.\<close>

definition open_append :: "io_faults \<Rightarrow> string \<Rightarrow> unit io_op" where
  "open_append io p fs =
     (case io p of
        Inl e \<Rightarrow> (Inl e, fs)
      | Inr _ \<Rightarrow>
          if fs p = Some Dir \<or> (case parent_dir p of Some d \<Rightarrow> fs d \<noteq> Some Dir | None \<Rightarrow> False) then (Inl (IoError p), fs)
          else (Inr (), if fs p = None then fs(p \<mapsto> File []) else fs))"

definition start_in_background ::
    "io_faults \<Rightarrow> io_faults \<Rightarrow> (nat \<Rightarrow> bool) \<Rightarrow> unit result \<Rightarrow> (string list \<Rightarrow> nat result) \<Rightarrow> string \<Rightarrow> string \<Rightarrow> string list \<Rightarrow> nat io_op" where
  "start_in_background io rm alive exe spawn root pid_file args =
     then_io (check_already_running rm alive pid_file) (\<lambda>running.
     then_io (lift_io (require (running = None) (AlreadyRunning ''daemon''))) (\<lambda>_.
     then_io (lift_io exe) (\<lambda>_.
     then_io (open_append io (path_join root ''daemon.log'')) (\<lambda>_.
     lift_io (case background_args args of
                [] \<Rightarrow> Inl (Panic ''range start index 1 out of range'')
              | _ # rest \<Rightarrow> spawn rest)))))"

subsection \<open>The control socket\<close>

text \<open>A file in the way is removed, whatever it is; the directory is made; then the socket is bound.\<close>

definition prepare_socket :: "io_faults \<Rightarrow> io_faults \<Rightarrow> unit result \<Rightarrow> string \<Rightarrow> unit io_op" where
  "prepare_socket io rm bind p =
     then_io (with_fs (\<lambda>fs. if exists_at p fs then remove_file rm p else lift_io (Inr ()))) (\<lambda>_.
     then_io (case parent_dir p of None \<Rightarrow> lift_io (Inr ()) | Some d \<Rightarrow> create_dir_all io d) (\<lambda>_.
     then_io (lift_io bind) (\<lambda>_ fs. (Inr (), fs(p \<mapsto> File [])))))"

subsection \<open>The main loop\<close>

text \<open>What happens to a running daemon: a line on the control socket, or a turn of the main loop.\<close>

datatype 't happening = Asked "'t ipc_env" string | Turn "string \<Rightarrow> 't ipc_env" health_env

fun daemon_loop :: "ext \<Rightarrow> 't happening list \<Rightarrow> 't ipc_world \<Rightarrow> turn \<times> 't ipc_world" where
  "daemon_loop E [] w = (Goes_on, w)"
| "daemon_loop E (Asked N line # hs) w = daemon_loop E hs (snd (ipc_line E N line w))"
| "daemon_loop E (Turn N h # hs) w =
     (case main_turn E N h w of (Goes_on, w') \<Rightarrow> daemon_loop E hs w' | broken \<Rightarrow> broken)"

text \<open>
  A run in the foreground: refused, still going, ended by a shutdown, or broken off by an error, which skips the clean-up.  A socket that
  cannot be bound is logged and does not end the run.
\<close>

datatype 't daemon_run =
    Refused error fs
  | Still_running "'t ipc_world"
  | Ended "'t ipc_world"
  | Broken_off error "'t ipc_world"

text \<open>The faults of removals at the start and at the end are given each for itself.\<close>

definition run_daemon ::
    "ext \<Rightarrow> headscale ipc_env \<Rightarrow> io_faults \<Rightarrow> io_faults \<Rightarrow> (nat \<Rightarrow> bool) \<Rightarrow> string \<Rightarrow> nat \<Rightarrow> agent_config result option list result option \<Rightarrow> anchor_db option
      \<Rightarrow> unit result \<Rightarrow> string \<Rightarrow> headscale happening list \<Rightarrow> fs \<Rightarrow> headscale daemon_run" where
  "run_daemon E N rm rm_end alive pid_file pid agent_dirs anchors bind socket_file hs fs =
     (case cmd_start E N rm alive pid_file pid agent_dirs anchors fs of
        (Inl e, fs') \<Rightarrow> Refused e fs'
      | (Inr w, _) \<Rightarrow>
          (case daemon_loop E hs (set_files w (snd (prepare_socket (bl_io (ie_birth_lib N)) rm bind socket_file (files_of w)))) of
             (Goes_on, w') \<Rightarrow> Still_running w'
           | (Failed_with e, w') \<Rightarrow> Broken_off e w'
           | (Shut_down, w') \<Rightarrow> Ended (set_files w' (cleanup rm_end pid_file socket_file (files_of w')))))"

subsection \<open>A shutdown that was asked for is not forgotten\<close>

lemma set_world [simp]:
  "iw_shutdown (set_agents w s) = iw_shutdown w" "iw_shutdown (set_files w fs) = iw_shutdown w"
  by (simp_all add: set_agents_def set_files_def)

lemma dispatch_shutdown: "iw_shutdown w \<Longrightarrow> iw_shutdown (snd (ipc_dispatch E N rq w))"
proof (cases "map_of (ipc_methods E N) (rq_method rq)")
  case None
  then show "iw_shutdown w \<Longrightarrow> ?thesis" by (simp add: ipc_dispatch_def)
next
  case (Some h)
  consider "(rq_method rq, h) \<in> set (read_methods E N)" | "(rq_method rq, h) \<in> set (agent_methods E N)"
    | "(rq_method rq, h) \<in> set (other_methods E N)" | "(rq_method rq, h) \<in> set (oauth_methods E N)"
    using map_of_SomeD [OF Some] by (auto simp: ipc_methods_def)
  then show "iw_shutdown w \<Longrightarrow> ?thesis"
  proof cases
    case 1
    then show "iw_shutdown w \<Longrightarrow> ?thesis" using Some by (simp add: dispatch_at read_method_pure)
  next
    case 2
    then show "iw_shutdown w \<Longrightarrow> ?thesis" using Some
      by (auto simp: agent_methods_def dispatch_at ipc_birth_def ipc_agents_start_def ipc_agents_stop_def ipc_agents_delete_def
          Let_def split: option.split sum.split prod.split)
  next
    case 3
    then show "iw_shutdown w \<Longrightarrow> ?thesis" using Some
      by (auto simp: other_methods_def dispatch_at ipc_shutdown_def request_shutdown_def ipc_mesh_connect_def ipc_mesh_disconnect_def
          ipc_mesh_peers_def ipc_mesh_ping_def ipc_templates_install_def ipc_templates_create_def ipc_update_check_def
          ipc_update_apply_def set_mesh_def Let_def split: option.split sum.split prod.split)
  next
    case 4
    then have "rq_method rq \<in> set oauth_names" by (auto simp: oauth_methods_def oauth_names_def)
    from oauth_dispatch_frame(2) [OF this, of E N w] show "iw_shutdown w \<Longrightarrow> ?thesis" by (metis set_world(2))
  qed
qed

lemma line_shutdown: "iw_shutdown w \<Longrightarrow> iw_shutdown (snd (ipc_line E N line w))"
  by (auto simp: ipc_line_def Let_def dispatch_shutdown split: option.split)

definition asks_shutdown :: "ext \<Rightarrow> string \<Rightarrow> bool" where
  "asks_shutdown E line \<longleftrightarrow> trim line \<noteq> [] \<and>
     (case Option.bind (json_parse E (trim line)) request_from_json of Some rq \<Rightarrow> rq_method rq = ''shutdown'' | None \<Rightarrow> False)"

lemma shutdown_line: "asks_shutdown E line \<Longrightarrow> iw_shutdown (snd (ipc_line E N line w))"
  by (auto simp: asks_shutdown_def ipc_line_def ipc_dispatch_def ipc_methods_def read_methods_def agent_methods_def other_methods_def
      ipc_shutdown_def request_shutdown_def Let_def split: option.splits)

lemma loop_append:
  "daemon_loop E hs w = (Goes_on, w') \<Longrightarrow> daemon_loop E (hs @ hs') w = daemon_loop E hs' w'"
proof (induction hs arbitrary: w)
  case (Cons x hs)
  then show ?case by (cases x) (auto split: prod.splits turn.splits)
qed simp

definition all_stopped :: "supervisor \<Rightarrow> bool" where
  "all_stopped s \<longleftrightarrow> (\<forall>n a. map_of (sup_agents s) n = Some a \<longrightarrow> ap_status a = Stopped \<and> ap_child a = None)"

lemma stop_all_stops: "all_stopped (stop_all s)"
  unfolding all_stopped_def
proof (intro allI impI)
  fix n a assume m: "map_of (sup_agents (stop_all s)) n = Some a"
  then have "n \<in> set (map fst (sup_agents s))"
    using map_of_SomeD [of "sup_agents s"] by (force simp: stop_all_def stop_fold_status split: if_splits)
  with m show "ap_status a = Stopped \<and> ap_child a = None" by (auto simp: stop_all_def stop_fold_status)
qed

text \<open>Once a shutdown was asked for, lines may come, and the next turn ends the loop with every agent stopped.\<close>

lemma loop_shuts_down:
  assumes "iw_shutdown w" "\<forall>x \<in> set asked. \<exists>N line. x = Asked N line"
  shows "\<exists>w'. daemon_loop E (asked @ Turn N h # later) w = (Shut_down, w') \<and> all_stopped (agents_of w')"
  using assms
proof (induction asked arbitrary: w)
  case Nil
  then show ?case by (simp add: main_turn_def should_shutdown_def stop_all_stops)
next
  case (Cons x asked)
  then obtain M line where "x = Asked M line" by auto
  then show ?case using Cons.IH [OF line_shutdown [OF Cons.prems(1)]] Cons.prems(2) by simp
qed

lemma remove_file_result: "snd (remove_file rm p fs) q = (if q = p \<and> rm p = Inr () \<and> fs p \<noteq> Some Dir then None else fs q)"
  by (cases "rm p"; cases "fs p") (auto simp: remove_file_def split: node.splits)

text \<open>The clean-up removes what it can of the two files, and touches nothing else.\<close>

lemma cleanup_at:
  "cleanup rm pid_file socket_file fs q =
     (if q \<in> {pid_file, socket_file} \<and> rm q = Inr () \<and> fs q \<noteq> Some Dir then None else fs q)"
  by (auto simp: cleanup_def remove_pid_file_def remove_file_result exists_at_def Let_def)

text \<open>
  C18: a shutdown is carried out.  Once a line on the control socket asked a running daemon to shut down, it may be asked whatever else: the
  next turn of the main loop ends the run, with every agent stopped and without a process.  Of the files the loop left, the control socket
  and the pid file are then removed, and no other file is touched; what cannot be removed (the system refuses, or a directory stands there) stays, and the run ends
  all the same.  Another start then finds no daemon, if the pid file is gone, or still holds the number of a process that has ended.
\<close>

theorem shutdown_is_orderly:
  assumes "cmd_start E N rm alive pid_file pid agent_dirs anchors fs = (Inr w, fs')"
    and "daemon_loop E before (set_files w (snd (prepare_socket (bl_io (ie_birth_lib N)) rm bind socket_file (files_of w)))) = (Goes_on, w1)"
    and "asks_shutdown E line" "\<forall>x \<in> set asked. \<exists>M l. x = Asked M l"
  shows "\<exists>w' w2. daemon_loop E (asked @ Turn M' h # later) (snd (ipc_line E M line w1)) = (Shut_down, w')
    \<and> run_daemon E N rm rm_end alive pid_file pid agent_dirs anchors bind socket_file
        (before @ Asked M line # asked @ Turn M' h # later) fs = Ended w2
    \<and> all_stopped (agents_of w2)
    \<and> (\<forall>q. files_of w2 q =
          (if q \<in> {pid_file, socket_file} \<and> rm_end q = Inr () \<and> files_of w' q \<noteq> Some Dir then None else files_of w' q))
    \<and> (files_of w2 pid_file = None \<or> (\<exists>old. files_of w2 pid_file = Some (File (nat_str old)) \<and> old < 2 ^ 32 \<and> \<not> alive' old) \<longrightarrow>
        fst (check_already_running rm' alive' pid_file (files_of w2)) = Inr None)"
proof -
  obtain w2 where w2: "daemon_loop E (asked @ Turn M' h # later) (snd (ipc_line E M line w1)) = (Shut_down, w2)" "all_stopped (agents_of w2)"
    using loop_shuts_down [OF shutdown_line [OF assms(3)] assms(4)] by metis
  let ?fs = "cleanup rm_end pid_file socket_file (files_of w2)"
  have files: "files_of (set_files w2 ?fs) = ?fs" "agents_of (set_files w2 ?fs) = agents_of w2" by (simp_all add: set_files_def)
  have "fst (check_already_running rm' alive' pid_file ?fs) = Inr None"
    if "?fs pid_file = None \<or> (\<exists>old. ?fs pid_file = Some (File (nat_str old)) \<and> old < 2 ^ 32 \<and> \<not> alive' old)"
    using that check_none check_stale by (metis fst_conv)
  moreover have "run_daemon E N rm rm_end alive pid_file pid agent_dirs anchors bind socket_file
      (before @ Asked M line # asked @ Turn M' h # later) fs = Ended (set_files w2 ?fs)"
    using w2(1) by (simp add: run_daemon_def assms(1) loop_append [OF assms(2)])
  ultimately show ?thesis
    using w2(2) by (intro exI [of _ w2] exI [of _ "set_files w2 ?fs"]) (simp add: files cleanup_at w2(1))
qed

subsection \<open>The second run\<close>

text \<open>The flag lands after the command; but an option whose value reads as the command catches it.\<close>

lemma background_args_flag:
  assumes "''start'' \<notin> set before"
  shows "background_args (before @ ''start'' # after) = before @ ''start'' # ''--foreground'' # after"
proof -
  have "takeWhile (\<lambda>a. a \<noteq> ''start'') (before @ ''start'' # after) = before @ takeWhile (\<lambda>a. a \<noteq> ''start'') (''start'' # after)"
    using assms by (intro takeWhile_append2) auto
  then show ?thesis by (simp only: background_args_def Let_def) simp
qed

lemma background_args_misplaced:
  "background_args [''grokingclaw'', ''--config'', ''start'', ''start''] = [''grokingclaw'', ''--config'', ''start'', ''--foreground'', ''start'']"
  by (simp add: background_args_def)

lemma last_slash:
  assumes "CHR ''/'' \<notin> set f" "d \<noteq> []"
  shows "parent_dir (d @ CHR ''/'' # f) = Some d"
proof -
  let ?p = "d @ CHR ''/'' # f"
  have up: "[0..<length ?p] = [0..<length d] @ length d # [Suc (length d)..<length ?p]"
    using upt_add_eq_append [of 0 "length d" "Suc (length f)"] upt_conv_Cons [of "length d" "length ?p"] by simp
  have "filter (\<lambda>i. 0 < i \<and> ?p ! i = CHR ''/'') [Suc (length d)..<length ?p] = []"
    using assms(1) by (auto simp: filter_empty_conv nth_append nth_Cons' in_set_conv_nth)
  then have "ancestors ?p = map (\<lambda>i. take i ?p) (filter (\<lambda>i. 0 < i \<and> ?p ! i = CHR ''/'') [0..<length d]) @ [d]"
    using assms(2) unfolding ancestors_def up by simp
  then show ?thesis by (simp add: parent_dir_def)
qed

lemma log_parent:
  assumes "root \<noteq> []" "\<not> ends_with root ''/''"
  shows "parent_dir (path_join root ''daemon.log'') = Some root"
  using last_slash [of "''daemon.log''" root] assms by (simp add: path_join_def starts_with_def)

lemma create_dir_makes:
  "create_dir_all io p fs = (Inr u, fs') \<Longrightarrow> d \<in> set (ancestors p) \<union> {p} \<Longrightarrow> fs' d = Some Dir"
proof -
  assume c: "create_dir_all io p fs = (Inr u, fs')" and d: "d \<in> set (ancestors p) \<union> {p}"
  have one: "fold make_dir ps fs d = (if d \<in> set ps \<and> fs d = None then Some Dir else fs d)" for ps and fs :: fs
    by (induction ps arbitrary: fs) (auto simp: make_dir_def)
  define ps where "ps = ancestors p @ [p]"
  have "d \<in> set ps" "fs' = fold make_dir ps fs" "\<not> list_ex (\<lambda>q. fs q \<noteq> None \<and> fs q \<noteq> Some Dir) ps"
    using c d unfolding create_dir_all_def ps_def [symmetric] by (auto simp: ps_def split: sum.splits if_splits)
  then show ?thesis unfolding list_ex_iff by (simp add: one [of ps]) fastforce
qed

lemma start_makes_root:
  assumes "root \<noteq> []" "\<not> ends_with root ''/''" "start_files io rm alive root config pid_file pid fs = (Inr (), fs')"
  shows "fs' root = Some Dir" "fs' pid_file = Some (File (nat_str pid))"
proof -
  obtain fs1 fs2 fs3 fs4 where fs: "create_dir_all io (path_join root ''agents'') fs1 = (Inr (), fs2)"
    "each_io (\<lambda>d. create_dir_all io (path_join root d)) [''templates'', ''identity'', ''mesh'', ''state''] fs2 = (Inr (), fs3)"
    and w: "write_file io pid_file (nat_str pid) fs3 = (Inr (), fs4)"
    and t: "template_init io (daemon_registry config root) fs4 = (Inr (), fs')"
    using assms(3) by (auto simp: start_files_def daemon_dirs_def then_io_ok_iff write_pid_file_def lift_io_def)
  note fs4 = write_file_ok [OF w]
  have "parent_dir (path_join root ''agents'') = Some root"
    using last_slash [of "''agents''" root] assms(1,2) by (simp add: path_join_def starts_with_def)
  then have "root \<in> set (ancestors (path_join root ''agents''))" using parent_ancestors by blast
  then have "fs2 root = Some Dir" using create_dir_makes [OF fs(1)] by blast
  then have "fs3 root = Some Dir" using fs(2) by (auto simp: then_io_ok_iff lift_io_def dest: create_dir_all_keeps)
  moreover from this w have "pid_file \<noteq> root" by (auto simp: write_file_def split: sum.splits if_splits)
  ultimately show "fs' root = Some Dir" "fs' pid_file = Some (File (nat_str pid))"
    using t fs4 create_dir_all_keeps by (auto simp: template_init_def)
qed

text \<open>
  A first start.  While the directory of the daemon does not exist, a start in the background fails and changes nothing, however often it
  is tried: its log cannot be opened, and nothing makes the directory.  A start in the foreground makes it; from
  then on the start in the background runs the program again with the flag.
\<close>

theorem first_start_needs_foreground:
  assumes "root \<noteq> []" "\<not> ends_with root ''/''" "fs pid_file = None" "fs root = None"
  shows "(\<exists>e. start_in_background io rm alive exe spawn root pid_file args fs = (Inl e, fs))
    \<and> (start_files io' rm alive root config pid_file pid fs = (Inr (), fs') \<and> \<not> alive' pid \<and> pid < 2 ^ 32
         \<and> fs' (path_join root ''daemon.log'') = None \<and> ''start'' \<notin> set before \<longrightarrow>
        fst (start_in_background (\<lambda>_. Inr ()) rm' alive' (Inr ()) spawn root pid_file (arg0 # before @ ''start'' # after) fs')
          = (if arg0 = ''start'' then spawn (''--foreground'' # before @ ''start'' # after)
             else spawn (before @ ''start'' # ''--foreground'' # after)))"
proof -
  note log = log_parent [OF assms(1,2)]
  have "check_already_running rm alive pid_file fs = (Inr None, fs)"
    using assms(3) by (rule check_none)
  moreover have "\<exists>e. open_append io (path_join root ''daemon.log'') fs = (Inl e, fs)"
    using log assms(4) by (cases "io (path_join root ''daemon.log'')") (simp_all add: open_append_def)
  ultimately have "\<exists>e. start_in_background io rm alive exe spawn root pid_file args fs = (Inl e, fs)"
    by (cases exe) (auto simp: start_in_background_def then_io_def lift_io_def)
  moreover have "fst (start_in_background (\<lambda>_. Inr ()) rm' alive' (Inr ()) spawn root pid_file (arg0 # before @ ''start'' # after) fs')
          = (if arg0 = ''start'' then spawn (''--foreground'' # before @ ''start'' # after)
             else spawn (before @ ''start'' # ''--foreground'' # after))"
    if s: "start_files io' rm alive root config pid_file pid fs = (Inr (), fs')" "\<not> alive' pid" "pid < 2 ^ 32"
      "fs' (path_join root ''daemon.log'') = None" "''start'' \<notin> set before"
  proof -
    note made = start_makes_root [OF assms(1,2) s(1)]
    have ne: "pid_file \<noteq> root" using made by auto
    let ?left = "if rm' pid_file = Inr () then fs'(pid_file := None) else fs'"
    have "check_already_running rm' alive' pid_file fs' = (Inr None, ?left)"
      using check_stale [of fs' pid_file, OF made(2) s(3)] s(2) by simp
    moreover have "fst (open_append (\<lambda>_. Inr ()) (path_join root ''daemon.log'') ?left) = Inr ()"
      using log made(1) s(4) ne by (simp add: open_append_def)
    moreover have "background_args (arg0 # before @ ''start'' # after)
        = (if arg0 = ''start'' then arg0 # ''--foreground'' # before @ ''start'' # after else arg0 # before @ ''start'' # ''--foreground'' # after)"
      using background_args_flag [of "[]" "before @ ''start'' # after"] background_args_flag [of "arg0 # before" after] s(5) by auto
    ultimately show ?thesis by (auto simp: start_in_background_def then_io_def lift_io_def split: prod.split sum.split)
  qed
  ultimately show ?thesis by blast
qed

subsection \<open>A run from start to end\<close>

text \<open>The surroundings of a run on an empty disk.\<close>

definition demo_run_env :: "headscale ipc_env" where
  "demo_run_env = \<lparr>ie_config = default_daemon_config, ie_root = ''r'', ie_version = ''1'', ie_uptime = 0, ie_now = 0, ie_disk = None,
     ie_agent_dirs = None, ie_templates = demo_templates, ie_birth_lib = demo_birth_lib, ie_birth_env = demo_birth_env,
     ie_transport = headscale_transport ref_ext yes_http, ie_mesh_env = demo_mesh_env, ie_start = demo_start 7, ie_kept = (\<lambda>_. False),
     ie_vault = nat_vault, ie_flow = \<lparr>urlencode = (\<lambda>s. s), b64url = nibbles\<rparr>, ie_oauth = OAuth_Flow.demo_env (\<lambda>_. Inl (IoError [])),
     ie_update = demo_update_env, ie_source = (\<lambda>_. None), ie_audit = (\<lambda>_. None), ie_err = (\<lambda>_. [])\<rparr>"

abbreviation stop_ext :: ext where "stop_ext \<equiv> demo_wire ''shutdown'' (JObj []) stop_response"

lemma request_asks: "asks_shutdown stop_ext (request_line stop_ext ''shutdown'' (JObj []))"
proof -
  have "trim (request_line stop_ext ''shutdown'' (JObj [])) = json_text (json_quote stop_ext) (request_value ''shutdown'' (JObj []))"
    by (simp only: request_line_def request_value_def json_object_def trim_json_object)
  then show ?thesis
    unfolding asks_shutdown_def by (simp add: demo_wire_reads(1) request_read) (simp add: request_value_def json_object_def)
qed

theorem shutdown_is_orderly_witness:
  "\<exists>w2. run_daemon stop_ext demo_run_env (\<lambda>_. Inr ()) (\<lambda>_. Inr ()) (\<lambda>_. False) ''p'' 77 None None (Inr ()) ''s''
      [Asked demo_run_env (request_line stop_ext ''shutdown'' (JObj [])), Turn (\<lambda>_. demo_run_env) \<lparr>he_exit = (\<lambda>_. StillRunning), he_now = (\<lambda>_. 0), he_now' = (\<lambda>_. 0)\<rparr>]
      (\<lambda>_. None) = Ended w2 \<and> all_stopped (agents_of w2) \<and> (\<forall>b. files_of w2 ''s'' \<noteq> Some (File b) \<and> files_of w2 ''p'' \<noteq> Some (File b))"
proof -
  have io: "bl_io (ie_birth_lib demo_run_env) = (\<lambda>_. Inr ())" by (simp add: demo_run_env_def demo_birth_lib_def)
  have "fst (start_files (\<lambda>_. Inr ()) (\<lambda>_. Inr ()) (\<lambda>_. False) ''r'' default_daemon_config ''p'' 77 (\<lambda>_. None)) = Inr ()" by code_simp
  then obtain fs' where f: "start_files (\<lambda>_. Inr ()) (\<lambda>_. Inr ()) (\<lambda>_. False) ''r'' default_daemon_config ''p'' 77 (\<lambda>_. None) = (Inr (), fs')"
    by (metis prod.collapse)
  have "ie_config demo_run_env = default_daemon_config" "ie_root demo_run_env = ''r''" "\<not> ms_enabled (dc_mesh default_daemon_config)"
    by (simp_all add: demo_run_env_def default_daemon_config_def default_mesh_def)
  then obtain w where c: "cmd_start stop_ext demo_run_env (\<lambda>_. Inr ()) (\<lambda>_. False) ''p'' 77 None None (\<lambda>_. None) = (Inr w, fs')"
    by (simp add: cmd_start_def io f sup_init_def Let_def)
  have none: "\<forall>x \<in> set []. \<exists>M l. x = Asked M l" by simp
  from shutdown_is_orderly [OF c daemon_loop.simps(1) request_asks none, where later = "[]" and bind = "Inr ()"
        and socket_file = "''s''" and M = demo_run_env and M' = "\<lambda>_. demo_run_env" and rm_end = "\<lambda>_. Inr ()" and rm' = "\<lambda>_. Inr ()"
        and h = "\<lparr>he_exit = (\<lambda>_. StillRunning), he_now = (\<lambda>_. 0), he_now' = (\<lambda>_. 0)\<rparr>" and alive' = "\<lambda>_. False"]
  obtain w' :: "headscale ipc_world" and w2 where r: "run_daemon stop_ext demo_run_env (\<lambda>_. Inr ()) (\<lambda>_. Inr ()) (\<lambda>_. False) ''p'' 77 None None (Inr ()) ''s''
      ([] @ Asked demo_run_env (request_line stop_ext ''shutdown'' (JObj [])) # [] @ Turn (\<lambda>_. demo_run_env)
        \<lparr>he_exit = (\<lambda>_. StillRunning), he_now = (\<lambda>_. 0), he_now' = (\<lambda>_. 0)\<rparr> # []) (\<lambda>_. None) = Ended w2" "all_stopped (agents_of w2)"
    and f: "\<forall>q. files_of w2 q = (if q \<in> {''p'', ''s''} \<and> (Inr () :: unit result) = Inr () \<and> files_of w' q \<noteq> Some Dir then None else files_of w' q)"
    by (elim exE conjE) (rule that)
  have "files_of w2 q \<noteq> Some (File b)" if "q \<in> {''p'', ''s''}" for q b using f [rule_format, of q] that by (auto split: if_splits)
  then show ?thesis using r by auto
qed

theorem first_start_needs_foreground_witness:
  "fst (start_in_background (\<lambda>_. Inr ()) (\<lambda>_. Inr ()) (\<lambda>_. False) (Inr ()) (\<lambda>_. Inr 9) ''r'' ''p'' [''g'', ''start''] (\<lambda>_. None)) \<noteq> Inr 9
   \<and> fst (start_in_background (\<lambda>_. Inr ()) (\<lambda>_. Inr ()) (\<lambda>_. False) (Inr ()) (\<lambda>args. if args = [''start'', ''--foreground''] then Inr 9 else Inr 0) ''r'' ''p''
       [''g'', ''start''] (snd (start_files (\<lambda>_. Inr ()) (\<lambda>_. Inr ()) (\<lambda>_. False) ''r'' default_daemon_config ''p'' 77 (\<lambda>_. None)))) = Inr 9"
proof -
  let ?out = "start_files (\<lambda>_. Inr ()) (\<lambda>_. Inr ()) (\<lambda>_. False) ''r'' default_daemon_config ''p'' 77 (\<lambda>_. None)"
  let ?spawn = "\<lambda>args. if args = [''start'', ''--foreground''] then Inr 9 else Inr (0 :: nat)"
  have "fst ?out = Inr ()" "snd ?out (path_join ''r'' ''daemon.log'') = None" by code_simp+
  then have f: "?out = (Inr (), snd ?out)" "snd ?out (path_join ''r'' ''daemon.log'') = None" by (metis prod.collapse)+
  have r: "''r'' \<noteq> []" "\<not> ends_with ''r'' ''/''" by (simp_all add: ends_with_def)
  note t = first_start_needs_foreground [OF r, of "\<lambda>_. None" "''p''"]
  have "fst (start_in_background (\<lambda>_. Inr ()) (\<lambda>_. Inr ()) (\<lambda>_. False) (Inr ()) (\<lambda>_. Inr 9) ''r'' ''p'' [''g'', ''start''] (\<lambda>_. None)) \<noteq> Inr 9"
    using t [THEN conjunct1, of "\<lambda>_. Inr ()" "\<lambda>_. Inr ()" "\<lambda>_. False" "Inr ()" "\<lambda>_. Inr 9" "[''g'', ''start'']"] by auto
  moreover have "fst (start_in_background (\<lambda>_. Inr ()) (\<lambda>_. Inr ()) (\<lambda>_. False) (Inr ()) ?spawn ''r'' ''p'' (''g'' # [] @ ''start'' # []) (snd ?out))
      = (if ''g'' = ''start'' then ?spawn (''--foreground'' # [] @ ''start'' # []) else ?spawn ([] @ ''start'' # ''--foreground'' # []))"
    by (rule t [THEN conjunct2, rule_format, of "\<lambda>_. Inr ()" "\<lambda>_. Inr ()" "\<lambda>_. False" default_daemon_config 77]) (use f in \<open>simp_all\<close>)
  ultimately show ?thesis by simp
qed

end
