(* ===== verification/Spec2Isabelle.thy ===== *)
theory Spec2Isabelle
  imports Audit_Log Revocation_Registry Challenge_Response License Cards Http_Sig Proxy_Server OAuth_Flow Supervisor_Process Cli_OAuth Cli_Commands Cli_Main Daemon_Reports
    Token_Refresh Program Daemon_Start
begin

text \<open>
  \<^bold>\<open>GrokingClawID.\<close>  The program gives software agents a cryptographic identity and confines what they do.
  A command line (\<^verbatim>\<open>grokingclawid-cli\<close>) issues, verifies, delegates, rotates and revokes signed identity
  cards; a core library (\<^verbatim>\<open>grokingclawid-core\<close>) has the cryptography, the data model, the audit log, the
  revocation registry, the challenge protocol, HTTP message signatures and licences; a sidecar
  proxy (\<^verbatim>\<open>grokingclaw-proxy\<close>) puts every request of an agent through an allowlist and a rate limiter, signs
  it and logs it; a daemon (\<^verbatim>\<open>grokingclaw-daemon\<close>) runs agent processes with one proxy each and keeps their
  OAuth tokens.

  \<^bold>\<open>How the parts meet.\<close>  A card is issued and signed (\<open>Cards\<close> over \<open>Crypto\<close>), every command leaves an entry
  in the hash chain (\<open>Audit_Log\<close>), a revoked card stops verifying (\<open>Revocation_Registry\<close>).  The daemon's
  supervisor starts an agent with a proxy whose state it builds from the agent's configuration, key
  and OAuth store (\<open>Supervisor_Process\<close> over \<open>Proxy_Server\<close> and \<open>OAuth_Store\<close>).  A request passes the scope
  engine (\<open>Proxy_Scope\<close>), may get a token (\<open>OAuth_Cache\<close>, which asks the daemon's \<open>OAuth_Flow\<close> for a fresh
  one), is signed (\<open>Http_Sig\<close>), sent, and logged through the same audit chain.  The daemon is told what to do by
  lines on its control socket (\<open>Ipc\<close>) and by the agents of other machines (\<open>A2a_Server\<close>); an agent is born from a
  template (\<open>Birth\<close> over \<open>Templates\<close>, \<open>Mesh\<close> and \<open>Cards\<close>), audit logs are anchored on a ledger (\<open>Anchor\<close> over
  \<open>Iota_Wallet\<close>).  \<open>Daemon_Main\<close> puts these together: the state \<open>ipc_world\<close> holds the supervisor, the files, the
  mesh client and the workers, \<open>ipc_dispatch\<close> and \<open>a2a_handle\<close> change it, and \<open>daemon_step\<close> lets them happen in
  any order.  \<open>Cli_Main\<close> does the same for the command line: \<open>cli_world\<close> holds the files, the audit log, the registry
  and the licence, \<open>cli_main\<close> runs one command, and \<open>cli_step\<close> lets commands with any arguments and faults follow each
  other; \<open>program_main\<close> and \<open>program_step\<close> add the commands that talk to a node, an MCP server or a daemon.

  \<^bold>\<open>Theories and sources.\<close>  Each theory names its source files in its first paragraph and follows the
  order of the code: data, operations, then invariant and theorems.
    \<^item> \<open>Prelude\<close>, \<open>Rust_Strings\<close>: results as \<open>error + 'a\<close>, machine integers, and Rust's string functions on bytes.
    \<^item> \<open>Interfaces\<close>: the contracts, as locales: \<open>invariant\<close> (a property kept by every step),
      \<open>signature_scheme\<close>, \<open>canonical_payload\<close> (a signed text determines its content) and \<open>sliding_window\<close>.
    \<^item> \<open>Json\<close>, \<open>External\<close>: JSON values and the program's canonical text; the crates outside the repository.
    \<^item> \<open>Crypto\<close> (\<^verbatim>\<open>core/crypto.rs\<close>), \<open>Models\<close> (\<^verbatim>\<open>core/models.rs\<close>), \<open>Audit_Log\<close> (\<^verbatim>\<open>core/audit.rs\<close>, \<^verbatim>\<open>proxy/audit.rs\<close>, the
      daemon's audit query), \<open>Revocation_Registry\<close> (\<^verbatim>\<open>core/revocation.rs\<close>), \<open>Challenge_Response\<close>
      (\<^verbatim>\<open>core/challenge.rs\<close>, \<^verbatim>\<open>commands/challenge.rs\<close>), \<open>License\<close> (\<^verbatim>\<open>core/license.rs\<close>), \<open>Http_Sig\<close> (\<^verbatim>\<open>core/httpsig.rs\<close>,
      \<^verbatim>\<open>proxy/signer.rs\<close>), \<open>Cards\<close> (\<^verbatim>\<open>commands/\<close> \<^verbatim>\<open>issue.rs\<close>, \<^verbatim>\<open>verify.rs\<close>, \<^verbatim>\<open>delegate.rs\<close>, \<^verbatim>\<open>rotate.rs\<close>, \<^verbatim>\<open>revoke.rs\<close>).
    \<^item> \<open>Proxy_Scope\<close> (\<^verbatim>\<open>proxy/scope.rs\<close>), \<open>OAuth_Cache\<close> (\<^verbatim>\<open>proxy/oauth.rs\<close>), \<open>Proxy_Server\<close> (\<^verbatim>\<open>proxy/server.rs\<close>).
    \<^item> \<open>OAuth_Store\<close> (\<^verbatim>\<open>daemon/oauth_store.rs\<close>), \<open>OAuth_Flow\<close> (\<^verbatim>\<open>daemon/oauth_flow.rs\<close> and the OAuth handlers of
      \<^verbatim>\<open>daemon/daemon.rs\<close>), \<open>Supervisor_Process\<close> (\<^verbatim>\<open>daemon/supervisor.rs\<close>).
    \<^item> \<open>Iota_Wallet\<close> (\<^verbatim>\<open>core/iota.rs\<close>, \<^verbatim>\<open>commands/wallet.rs\<close>), \<open>Daemon_Config\<close> (\<^verbatim>\<open>daemon/config.rs\<close>), \<open>Anchor\<close> (\<^verbatim>\<open>daemon/anchor.rs\<close>),
      \<open>Guard\<close> (\<^verbatim>\<open>commands/guard.rs\<close>), \<open>Mesh\<close> (\<^verbatim>\<open>daemon/mesh.rs\<close>), \<open>File_System\<close> (the calls of \<^verbatim>\<open>std::fs\<close> that the daemon makes),
      \<open>Templates\<close> (\<^verbatim>\<open>daemon/templates.rs\<close>), \<open>Birth\<close> (\<^verbatim>\<open>daemon/birth.rs\<close>, \<^verbatim>\<open>DaemonState::birth_agent\<close>), \<open>Daemon_Core\<close> (the rest of
      \<^verbatim>\<open>daemon/daemon.rs\<close>), \<open>A2a_Server\<close> (\<^verbatim>\<open>daemon/a2a.rs\<close>), \<open>Updates\<close> (\<^verbatim>\<open>daemon/updates.rs\<close>), \<open>Ipc\<close> (\<^verbatim>\<open>daemon/ipc.rs\<close>) and
      \<open>Daemon_Main\<close> (\<^verbatim>\<open>daemon/main.rs\<close>).
    \<^item> \<open>Event_Stream\<close> (\<^verbatim>\<open>core/ws.rs\<close> and the listings of \<^verbatim>\<open>commands/wallet.rs\<close>), \<open>Cli_OAuth\<close> (\<^verbatim>\<open>commands/oauth.rs\<close>),
      \<open>Cli_Commands\<close> (\<^verbatim>\<open>commands/\<close> \<^verbatim>\<open>sign.rs\<close>, \<^verbatim>\<open>audit.rs\<close>, \<^verbatim>\<open>export.rs\<close>, \<^verbatim>\<open>license.rs\<close>), \<open>Cli_Main\<close> (\<^verbatim>\<open>main.rs\<close> of the
      command line, with every command on local state as its effects on files and databases) and \<open>Program\<close> (all commands: the
      wallet on files, the session of the guard, OAuth requests to a daemon).
    \<^item> \<open>Daemon_Reports\<close> (the printers of \<^verbatim>\<open>daemon/main.rs\<close>, each the list of its lines), \<open>Daemon_Start\<close> (\<^verbatim>\<open>cmd_start\<close> from the start in
      the background to the clean-up, with the control socket of \<^verbatim>\<open>ipc.rs\<close>) and \<open>Token_Refresh\<close>, where the
      proxy's cache and the daemon meet over the socket.

  \<^bold>\<open>State and effects.\<close>  A SQLite table is the list of its rows in key order; a \<^verbatim>\<open>HashMap\<close> or \<^verbatim>\<open>HashSet\<close> whose order the
  code can see is the list of its entries in iteration order.  An operation takes the state and
  returns it changed, beside its result; every \<^verbatim>\<open>bail!\<close>, \<^verbatim>\<open>?\<close> and panic is a value of \<open>error\<close>.  Clocks, random
  bytes, files, processes, sockets and HTTP answers are arguments.  A component with state has a
  step relation of its operations, and theorems on all reachable states rest on the locale \<open>invariant\<close>.

  \<^bold>\<open>Hypotheses.\<close>  The crates outside the repository are the fields of the record \<open>ext\<close>.  Theorems that need them
  assume their documented behaviour by name: \<open>b64_ok\<close> (decoding inverts encoding), \<open>ed_ok\<close> and \<open>pq_pair_ok\<close>
  (a signature verifies under the key of its pair), \<open>hash_ok\<close> (the length and alphabet of a hex
  digest), \<open>uuid_ok\<close>, \<open>rfc3339_ok\<close>, \<open>quote_ok\<close> (an escaped string says where it ends), \<open>aead_ok\<close>.  Nothing
  assumes that a signature cannot be forged or that hashes do not collide: binding theorems conclude
  that the texts agree or name the two texts with one hash.  \<open>ref_ext\<close> meets all these assumptions
  together, and the witnesses use it.

  \<^bold>\<open>What is shown.\<close>
    \<^item> Proxy: nothing the scope engine refuses leaves the proxy, the decision is exactly the allowlist and
      rate specification, no minute carries more than the limit; the one gap in the host reading, the
      entries the audit trail misses, and whom a forwarded request names.
    \<^item> Audit, revocation, challenge, cards: the chain is valid in every reachable log and in a log of the
      same length any change to an entry after the first shows in the hash at the end (a log cut short at its front does not); a revocation is permanent and takes effect; a verdict is exactly
      its checks, answers are accepted and not replayable; a card issued verifies, a card changed does
      not; delegation only narrows; rotation keeps the identity.
    \<^item> HTTP signatures: signing and verifying round-trip and bind the covered components; the proxy's own
      signatures do not verify with the library.
    \<^item> Licences: a paid tier comes only from a signed licence.
    \<^item> OAuth: tokens stay in their domains; the store refines a map; the cascade terminates exactly without a
      parent cycle and removes exactly the descendants; refreshed tokens reach the proxy unchanged.
    \<^item> Supervisor: every process is accounted for, health checks act on each agent alone, restarts keep within
      their budget over any window, and proxies of earlier runs are never stopped.
    \<^item> Daemon: over all interleavings of requests, calls, checks and restarts the agents stay within the bound
      of licence and configuration, but for births under way at once; processes are exactly those of running
      agents and a shutdown leaves none; a command of the command line has its operation carried out once, on its own
      arguments, and reports the answer; every line is answered; OAuth requests touch one agent's store; a second daemon does not
      start; a deletion without a name takes the directories of all agents.
    \<^item> Command line on files: over any commands with any faults the log stays a valid chain that only grows and
      revocations stay; an identity issued verifies exactly in its lifetime until it is revoked, and no later
      command makes it verify again where the registry opens (a registry that does not open is skipped); a revocation is logged at once or never; a handshake over its files succeeds;
      an executed transfer leaves receipt and log entry, or nothing when the receipt cannot be written.
    \<^item> A daemon's life: a first start needs the foreground; a shutdown that was asked for is carried out at the next turn,
      and socket and pid file are removed where they can be.
    \<^item> Reports: the list of agents is exactly that of the supervisor; the verdict on a chain is honest, but is not
      shown when no entry is.
    \<^item> Tokens over the socket: the proxy names its agent by identifier and the daemon looks for a directory of that
      name, so refreshes are refused without effect.
    \<^item> Command line: what \<^verbatim>\<open>sign\<close> prints \<^verbatim>\<open>verify-sig\<close> accepts, at any query of the URL; OAuth commands run their method
      once; what a registration from the command line can never do; what a watch of a wallet shows.
    \<^item> Birth, templates, updates: births are refused before anything is written, a local birth yields an identity
      that verifies, its card signed with the key it wrote; an installation stays in its directory up to the entries of the manifest; a downgrade
      passes as a minor update.
    \<^item> Agent-to-agent server: what an unauthenticated caller can reach, that tasks are complete when they are
      stored, and that a signature serves for any body.
    \<^item> Anchor, wallet, guard, mesh: which entries an anchor covers and that none is anchored twice or forgotten
      but those named; a transfer carries the attestation of its key; what passes the guard; the states of
      a mesh connection.

  \<^bold>\<open>Bounds and fuel.\<close>  Only two definitions take fuel: \<open>cascade_remove\<close> (the depth of the recursion in \<^verbatim>\<open>cascade_remove\<close>,
  which the code does not bound; the theorem says which depth is enough and when none is) and the
  text replacement of \<open>Rust_Strings\<close> (the length of the text, which it cannot exceed).  Counters are words
  of the source's width; lengths and instants are unbounded.

  \<^bold>\<open>Not modelled.\<close>  The parsing of arguments (the library \<^verbatim>\<open>clap\<close> and the defaults it fills in), the banners and summaries
  the CLI prints beside its results, logging, file permissions beyond whether
  setting them succeeds, the accept loops and byte copying of sockets, the HTTP client and TLS, SQLite itself and
  its failures, floating point numbers in JSON, and the concurrency of handlers beyond the interleavings of
  their steps.  Two texts that lead to the same file count as different paths.
\<close>

end
